(* ===== verification/Prelude.thy ===== *)
theory Prelude
  imports Main "HOL-Library.AList" "HOL-Library.Sublist" "HOL-Library.Char_ord" "HOL-Library.List_Lexorder"
begin

text \<open>
  Shared vocabulary of the development: Python dictionaries as insertion-ordered association
  lists, raised exceptions as the left side of a sum, the string operations the sources use, and
  two contracts that several components implement: a registry that refuses a second entry under
  the same name, and a pool with a bounded number of holders.

  A Python \<open>str\<close> is modelled by its UTF-8 encoding, a \<open>string\<close> whose characters are the bytes.
  The sources only compare strings, split and join them at ASCII characters, test prefixes and
  suffixes, and measure \<open>len(s.encode())\<close>, and all of these commute with the encoding.
\<close>

section \<open>Automation collections\<close>

named_theorems dict_simps \<open>facts about insertion-ordered dictionaries\<close>
named_theorems result_simps \<open>facts about computations that may raise\<close>
named_theorems str_simps \<open>facts about splitting and joining strings\<close>

section \<open>Computations that may raise\<close>

definition rbind :: "'e + 'a \<Rightarrow> ('a \<Rightarrow> 'e + 'b) \<Rightarrow> 'e + 'b" where
  "rbind m f = (case m of Inl e \<Rightarrow> Inl e | Inr x \<Rightarrow> f x)"

lemma rbind_simps [simp, result_simps]:
  "rbind (Inl e) f = Inl e"
  "rbind (Inr x) f = f x"
  by (simp_all add: rbind_def)

lemma rbind_eq_Inr [result_simps]:
  "rbind m f = Inr y \<longleftrightarrow> (\<exists>x. m = Inr x \<and> f x = Inr y)"
  by (cases m) auto

lemma rbind_eq_Inl [result_simps]:
  "rbind m f = Inl e \<longleftrightarrow> m = Inl e \<or> (\<exists>x. m = Inr x \<and> f x = Inl e)"
  by (cases m) auto

definition raise_if :: "bool \<Rightarrow> 'e \<Rightarrow> 'e + unit" where
  "raise_if b e = (if b then Inl e else Inr ())"

lemma raise_if_simps [simp, result_simps]:
  "raise_if True e = Inl e"
  "raise_if False e = Inr ()"
  by (simp_all add: raise_if_def)

lemma raise_if_eq [result_simps]:
  "raise_if b e = Inr u \<longleftrightarrow> \<not> b"
  "raise_if b e = Inl e' \<longleftrightarrow> b \<and> e' = e"
  by (auto simp: raise_if_def)

text \<open>A list comprehension whose body may raise, and a loop that updates a state and may raise.\<close>

fun traverse :: "('a \<Rightarrow> 'e + 'b) \<Rightarrow> 'a list \<Rightarrow> 'e + 'b list" where
  "traverse f [] = Inr []"
| "traverse f (x # xs) =
     rbind (f x) (\<lambda>y. rbind (traverse f xs) (\<lambda>ys. Inr (y # ys)))"

fun fold_res :: "('a \<Rightarrow> 's \<Rightarrow> 'e + 's) \<Rightarrow> 'a list \<Rightarrow> 's \<Rightarrow> 'e + 's" where
  "fold_res f [] s = Inr s"
| "fold_res f (x # xs) s = rbind (f x s) (fold_res f xs)"

lemma traverse_Inr_length: "traverse f xs = Inr ys \<Longrightarrow> length ys = length xs"
  by (induction xs arbitrary: ys) (auto simp: result_simps)

lemma traverse_total: "(\<And>x. x \<in> set xs \<Longrightarrow> f x = Inr (g x)) \<Longrightarrow> traverse f xs = Inr (map g xs)"
  by (induction xs) auto

lemma traverse_Inr_nth:
  "traverse f xs = Inr ys \<Longrightarrow> i < length xs \<Longrightarrow> f (xs ! i) = Inr (ys ! i)"
  by (induction xs arbitrary: ys i) (auto simp: result_simps nth_Cons split: nat.splits)

lemma traverse_Inr_set: "traverse f xs = Inr ys \<Longrightarrow> x \<in> set xs \<Longrightarrow> \<exists>y \<in> set ys. f x = Inr y"
  by (induction xs arbitrary: ys) (auto simp: result_simps)

text \<open>Recursion through the results of a fallible step.\<close>

lemma rbind_cong [fundef_cong]:
  "m = m' \<Longrightarrow> (\<And>x. m' = Inr x \<Longrightarrow> f x = g x) \<Longrightarrow> rbind m f = rbind m' g"
  by (cases m') auto

lemma traverse_cong [fundef_cong]:
  assumes "xs = ys" "\<And>x. x \<in> set ys \<Longrightarrow> f x = g x"
  shows "traverse f xs = traverse g ys"
proof -
  have "traverse f ys = traverse g ys" using assms(2) by (induction ys) simp_all
  with assms(1) show ?thesis by simp
qed

lemma fold_res_append:
  "fold_res f (xs @ ys) s = rbind (fold_res f xs s) (fold_res f ys)"
  by (induction xs arbitrary: s) (auto simp: rbind_def split: sum.splits)

lemma fold_res_invariant:
  assumes "fold_res f xs s = Inr s'" "P s"
    and step: "\<And>x s s'. x \<in> set xs \<Longrightarrow> P s \<Longrightarrow> f x s = Inr s' \<Longrightarrow> P s'"
  shows "P s'"
  using assms
proof (induction xs arbitrary: s)
  case Nil
  then show ?case by simp
next
  case (Cons x xs)
  from Cons.prems(1) obtain s1 where s1: "f x s = Inr s1" "fold_res f xs s1 = Inr s'"
    by (auto simp: result_simps)
  moreover have "P s1" using Cons.prems(2,3) s1(1) by auto
  ultimately show ?case using Cons.IH Cons.prems(3) by (meson list.set_intros(2))
qed

section \<open>Dictionaries\<close>

type_synonym ('k, 'v) dict = "('k \<times> 'v) list"

abbreviation dict_set :: "'k \<Rightarrow> 'v \<Rightarrow> ('k, 'v) dict \<Rightarrow> ('k, 'v) dict" where
  "dict_set \<equiv> AList.update"

abbreviation dict_del :: "'k \<Rightarrow> ('k, 'v) dict \<Rightarrow> ('k, 'v) dict" where
  "dict_del \<equiv> AList.delete"

abbreviation dict_keys :: "('k, 'v) dict \<Rightarrow> 'k list" where
  "dict_keys d \<equiv> map fst d"

abbreviation dict_vals :: "('k, 'v) dict \<Rightarrow> 'v list" where
  "dict_vals d \<equiv> map snd d"

definition dict_has :: "'k \<Rightarrow> ('k, 'v) dict \<Rightarrow> bool" where
  "dict_has k d = list_ex (\<lambda>p. fst p = k) d"

definition dict_setdefault :: "'k \<Rightarrow> 'v \<Rightarrow> ('k, 'v) dict \<Rightarrow> ('k, 'v) dict" where
  "dict_setdefault k v d = (if dict_has k d then d else d @ [(k, v)])"

text \<open>\<open>tuple(dict.fromkeys(xs))\<close>: the first occurrence of each element, in order.\<close>

fun fromkeys :: "'a list \<Rightarrow> 'a list" where
  "fromkeys [] = []"
| "fromkeys (x # xs) = x # filter (\<lambda>y. y \<noteq> x) (fromkeys xs)"

lemma dict_has_iff: "dict_has k d \<longleftrightarrow> k \<in> fst ` set d"
  by (auto simp: dict_has_def list_ex_iff)

lemma dict_has_map_of [dict_simps]: "dict_has k d \<longleftrightarrow> map_of d k \<noteq> None"
  by (simp add: dict_has_iff map_of_eq_None_iff)

lemma dict_set_get [dict_simps]: "map_of (dict_set k v d) = (map_of d)(k \<mapsto> v)"
  by (simp add: AList.update_conv')

lemma dict_del_get [dict_simps]: "map_of (dict_del k d) = (map_of d)(k := None)"
  by (simp add: AList.delete_conv')

lemma dict_set_keys [dict_simps]:
  "dict_keys (dict_set k v d) = (if k \<in> set (dict_keys d) then dict_keys d else dict_keys d @ [k])"
  by (simp add: AList.update_keys)

lemma dict_set_fresh: "k \<notin> fst ` set d \<Longrightarrow> dict_set k v d = d @ [(k, v)]"
  by (induction d) auto

lemma dict_setdefault_get [dict_simps]:
  "map_of (dict_setdefault k v d) k' =
     (if k' = k then Some (case map_of d k of None \<Rightarrow> v | Some w \<Rightarrow> w) else map_of d k')"
  by (auto simp: dict_setdefault_def dict_simps map_add_def split: option.splits)

lemma distinct_dict_set [dict_simps]:
  "distinct (dict_keys d) \<Longrightarrow> distinct (dict_keys (dict_set k v d))"
  by (rule AList.distinct_update)

lemma distinct_dict_del [dict_simps]:
  "distinct (dict_keys d) \<Longrightarrow> distinct (dict_keys (dict_del k d))"
  by (rule AList.distinct_delete)

lemma set_fromkeys [simp]: "set (fromkeys xs) = set xs"
  by (induction xs) auto

lemma distinct_fromkeys [simp]: "distinct (fromkeys xs)"
  by (induction xs) auto

lemma filter_fromkeys: "filter P (fromkeys xs) = fromkeys (filter P xs)"
proof (induction xs)
  case Nil
  then show ?case by simp
next
  case (Cons x xs)
  have "filter P (filter (\<lambda>y. y \<noteq> x) (fromkeys xs)) = filter (\<lambda>y. y \<noteq> x) (fromkeys (filter P xs))"
    by (simp add: Cons.IH [symmetric] conj_commute)
  moreover have "\<not> P x \<Longrightarrow> filter (\<lambda>y. y \<noteq> x) (fromkeys (filter P xs)) = fromkeys (filter P xs)"
    by (rule filter_True) auto
  ultimately show ?case by simp
qed

lemma fromkeys_distinct: "distinct xs \<Longrightarrow> fromkeys xs = xs"
proof (induction xs)
  case Nil
  then show ?case by simp
next
  case (Cons x xs)
  then have "filter (\<lambda>y. y \<noteq> x) xs = xs" by (intro filter_True) auto
  with Cons show ?case by simp
qed

text \<open>The same for values that a key identifies: classes and bindings are compared by identity.\<close>

fun fromkeys_by :: "('a \<Rightarrow> 'k) \<Rightarrow> 'a list \<Rightarrow> 'a list" where
  "fromkeys_by f [] = []"
| "fromkeys_by f (x # xs) = x # filter (\<lambda>y. f y \<noteq> f x) (fromkeys_by f xs)"

lemma fromkeys_by_subset: "set (fromkeys_by f xs) \<subseteq> set xs"
  by (induction xs) auto

lemma fromkeys_by_keys [simp]: "f ` set (fromkeys_by f xs) = f ` set xs"
proof (induction xs)
  case Nil
  then show ?case by simp
next
  case (Cons x xs)
  have "insert (f x) (f ` {y \<in> set (fromkeys_by f xs). f y \<noteq> f x}) = insert (f x) (f ` set (fromkeys_by f xs))"
    by auto
  with Cons show ?case by (metis (no_types) fromkeys_by.simps(2) image_insert list.simps(15) set_filter)
qed

lemma distinct_fromkeys_by [simp]: "distinct (map f (fromkeys_by f xs))"
proof (induction xs)
  case Nil
  then show ?case by simp
next
  case (Cons x xs)
  then have "distinct (map f (filter (\<lambda>y. f y \<noteq> f x) (fromkeys_by f xs)))"
    by (simp add: distinct_map_filter)
  then show ?case by auto
qed

lemma fromkeys_by_id: "fromkeys_by (\<lambda>x. x) xs = fromkeys xs"
  by (induction xs) auto

section \<open>Strings\<close>

fun join :: "string \<Rightarrow> string list \<Rightarrow> string" where
  "join sep [] = []"
| "join sep [x] = x"
| "join sep (x # y # xs) = x @ sep @ join sep (y # xs)"

text \<open>\<open>s.split(c)\<close> for a single separator character: never empty.\<close>

fun split_on :: "char \<Rightarrow> string \<Rightarrow> string list" where
  "split_on c [] = [[]]"
| "split_on c (x # xs) =
     (if x = c then [] # split_on c xs
      else (case split_on c xs of [] \<Rightarrow> [[x]] | p # ps \<Rightarrow> (x # p) # ps))"

definition starts_with :: "string \<Rightarrow> string \<Rightarrow> bool" where
  "starts_with p s = (take (length p) s = p)"

definition ends_with :: "string \<Rightarrow> string \<Rightarrow> bool" where
  "ends_with p s = starts_with (rev p) (rev s)"

definition remove_suffix :: "string \<Rightarrow> string \<Rightarrow> string" where
  "remove_suffix p s = (if ends_with p s then take (length s - length p) s else s)"

definition remove_prefix :: "string \<Rightarrow> string \<Rightarrow> string" where
  "remove_prefix p s = (if starts_with p s then drop (length p) s else s)"

lemma starts_with_iff: "starts_with p s \<longleftrightarrow> (\<exists>t. s = p @ t)"
  by (metis append_eq_conv_conj append_take_drop_id starts_with_def)

lemma ends_with_iff: "ends_with p s \<longleftrightarrow> (\<exists>t. s = t @ p)"
  unfolding ends_with_def starts_with_iff by (metis rev_append rev_rev_ident)

lemma remove_suffix_append [simp]: "remove_suffix p (s @ p) = s"
  by (simp add: remove_suffix_def ends_with_iff)

lemma remove_prefix_append [simp]: "remove_prefix p (p @ s) = s"
  by (simp add: remove_prefix_def starts_with_iff)

lemma split_on_ne [simp]: "split_on c s \<noteq> []"
  by (induction s) (auto split: list.splits)

lemma join_cons: "xs \<noteq> [] \<Longrightarrow> join sep (x # xs) = x @ sep @ join sep xs"
  by (cases xs) auto

lemma join_split [str_simps]: "join [c] (split_on c s) = s"
proof (induction s)
  case Nil
  then show ?case by simp
next
  case (Cons x s)
  obtain p ps where "split_on c s = p # ps" by (cases "split_on c s") auto
  with Cons show ?case by (cases ps) (auto simp: join_cons)
qed

lemma split_on_nosep: "c \<notin> set s \<Longrightarrow> split_on c s = [s]"
  by (induction s) auto

lemma split_on_append_sep: "c \<notin> set s \<Longrightarrow> split_on c (s @ c # t) = s # split_on c t"
  by (induction s) auto

lemma split_join [str_simps]:
  "xs \<noteq> [] \<Longrightarrow> \<forall>x\<in>set xs. c \<notin> set x \<Longrightarrow> split_on c (join [c] xs) = xs"
proof (induction xs)
  case Nil
  then show ?case by simp
next
  case (Cons x xs)
  then show ?case by (cases xs) (auto simp: split_on_nosep split_on_append_sep)
qed

lemma split_on_parts: "p \<in> set (split_on c s) \<Longrightarrow> c \<notin> set p"
  by (induction s arbitrary: p) (fastforce split: list.splits if_splits)+

definition is_upper :: "char \<Rightarrow> bool" where
  "is_upper c = (CHR ''A'' \<le> c \<and> c \<le> CHR ''Z'')"

definition is_lower :: "char \<Rightarrow> bool" where
  "is_lower c = (CHR ''a'' \<le> c \<and> c \<le> CHR ''z'')"

definition is_digit :: "char \<Rightarrow> bool" where
  "is_digit c = (CHR ''0'' \<le> c \<and> c \<le> CHR ''9'')"

definition to_lower :: "char \<Rightarrow> char" where
  "to_lower c = (if is_upper c then char_of (of_char c + 32 :: nat) else c)"

definition to_upper :: "char \<Rightarrow> char" where
  "to_upper c = (if is_lower c then char_of (of_char c - 32 :: nat) else c)"

text \<open>\<open>s.capitalize()\<close> on ASCII text: first character upper case, the rest lower case.\<close>

fun capitalize :: "string \<Rightarrow> string" where
  "capitalize [] = []"
| "capitalize (c # cs) = to_upper c # map to_lower cs"

lemmas char_classes = is_upper_def is_lower_def is_digit_def less_eq_char_def

lemma to_lower_lower [simp]: "is_upper c \<Longrightarrow> is_lower (to_lower c)"
  by (auto simp: to_lower_def char_classes)

lemma to_lower_id [simp]: "\<not> is_upper c \<Longrightarrow> to_lower c = c"
  by (simp add: to_lower_def)

lemma to_lower_not_upper: "\<not> is_upper (to_lower c)"
  using to_lower_lower [of c] by (cases "is_upper c") (auto simp: char_classes)

section \<open>A registry that refuses a second entry under the same name\<close>

text \<open>
  The contract of the code's name tables: entering a fresh name appends it, entering a taken one
  raises. Whatever is built by entering a list of names has distinct names, and building it
  raises exactly when two of them agree.
\<close>

locale registry =
  fixes enter :: "'n \<Rightarrow> 'v \<Rightarrow> 's \<Rightarrow> 'e + 's"
    and taken :: "'s \<Rightarrow> 'n list"
  assumes enter_fresh: "n \<notin> set (taken s) \<Longrightarrow> \<exists>s'. enter n v s = Inr s' \<and> taken s' = taken s @ [n]"
    and enter_taken: "n \<in> set (taken s) \<Longrightarrow> \<exists>e. enter n v s = Inl e"
begin

definition enter_all :: "('n \<times> 'v) list \<Rightarrow> 's \<Rightarrow> 'e + 's" where
  "enter_all xs s = fold_res (\<lambda>(n, v). enter n v) xs s"

lemma enter_Inr: "enter n v s = Inr s' \<Longrightarrow> n \<notin> set (taken s) \<and> taken s' = taken s @ [n]"
  by (metis enter_fresh enter_taken sum.distinct(1) sum.inject(2))

lemma enter_all_Inr:
  "enter_all xs s = Inr s' \<Longrightarrow> distinct (taken s) \<Longrightarrow>
     distinct (taken s @ map fst xs) \<and> taken s' = taken s @ map fst xs"
proof (induction xs arbitrary: s)
  case Nil
  then show ?case by (simp add: enter_all_def)
next
  case (Cons x xs)
  obtain n v where x: "x = (n, v)" by (cases x)
  from Cons.prems(1) obtain s1 where s1: "enter n v s = Inr s1" "enter_all xs s1 = Inr s'"
    by (auto simp: enter_all_def x result_simps)
  from enter_Inr [OF s1(1)] Cons.prems(2) have "n \<notin> set (taken s)" "taken s1 = taken s @ [n]" by auto
  moreover from this Cons.prems(2) have "distinct (taken s1)" by simp
  ultimately show ?case using Cons.IH [OF s1(2)] by (auto simp: x)
qed

lemma enter_all_total:
  "distinct (taken s @ map fst xs) \<Longrightarrow> \<exists>s'. enter_all xs s = Inr s'"
proof (induction xs arbitrary: s)
  case Nil
  then show ?case by (simp add: enter_all_def)
next
  case (Cons x xs)
  obtain n v where x: "x = (n, v)" by (cases x)
  with Cons.prems have "n \<notin> set (taken s)" by auto
  then obtain s1 where s1: "enter n v s = Inr s1" "taken s1 = taken s @ [n]"
    using enter_fresh by blast
  with Cons.prems x have "distinct (taken s1 @ map fst xs)" by auto
  from Cons.IH [OF this] s1(1) x show ?case by (auto simp: enter_all_def)
qed

lemma enter_all_iff:
  "distinct (taken s) \<Longrightarrow> (\<exists>s'. enter_all xs s = Inr s') \<longleftrightarrow> distinct (taken s @ map fst xs)"
  using enter_all_Inr enter_all_total by blast

end

section \<open>A pool with a bounded number of holders\<close>

text \<open>
  The contract of the code's admission controls: the admitted work of a connection
  (\<open>_PendingRequests\<close>), the handlers behind a semaphore and the subscriptions of a session.
  Acquiring gives a fresh ticket or refuses when the pool is full; releasing a ticket twice is
  harmless.
\<close>

locale bounded_pool =
  fixes acquire :: "'s \<Rightarrow> ('t \<times> 's) option"
    and release :: "'t \<Rightarrow> 's \<Rightarrow> 's"
    and holders :: "'s \<Rightarrow> 't set"
    and capacity :: "'s \<Rightarrow> nat"
    and pool_ok :: "'s \<Rightarrow> bool"
  assumes acquire_Some:
      "pool_ok s \<Longrightarrow> acquire s = Some (t, s') \<Longrightarrow>
         t \<notin> holders s \<and> holders s' = insert t (holders s) \<and> capacity s' = capacity s \<and> pool_ok s'"
    and acquire_None: "pool_ok s \<Longrightarrow> acquire s = None \<longleftrightarrow> capacity s \<le> card (holders s)"
    and release_holders:
      "pool_ok s \<Longrightarrow> holders (release t s) = holders s - {t} \<and> capacity (release t s) = capacity s
         \<and> pool_ok (release t s)"
    and finite_holders: "pool_ok s \<Longrightarrow> finite (holders s)"
begin

lemma acquire_bound:
  assumes "pool_ok s" "card (holders s) \<le> capacity s" "acquire s = Some (t, s')"
  shows "card (holders s') \<le> capacity s'"
proof -
  from assms(1,3) have "\<not> capacity s \<le> card (holders s)"
    using acquire_None by fastforce
  with acquire_Some [OF assms(1,3)] finite_holders [OF assms(1)] show ?thesis by simp
qed

lemma release_bound:
  "pool_ok s \<Longrightarrow> card (holders s) \<le> capacity s \<Longrightarrow> card (holders (release t s)) \<le> capacity (release t s)"
  using release_holders finite_holders by (metis card_Diff1_le le_trans)

lemma release_idem: "pool_ok s \<Longrightarrow> holders (release t (release t s)) = holders (release t s)"
  using release_holders by auto

lemma release_makes_room:
  assumes "pool_ok s" "t \<in> holders s" "card (holders s) \<le> capacity s"
  shows "acquire (release t s) \<noteq> None"
proof -
  have "card (holders s - {t}) < card (holders s)"
    using assms finite_holders by (meson card_Diff1_less)
  with assms release_holders [OF assms(1)] show ?thesis
    by (metis acquire_None le_antisym less_le_not_le order_less_le_trans)
qed

end

end
