(* ===== verification/Pyobj.thy ===== *)
theory Pyobj
  imports Complex_Main Prelude
begin

text \<open>
  The Python values the components exchange: decoded JSON, numbers as the code validates them,
  classes with their method resolution order, and the exceptions rpckit raises or maps.
\<close>

section \<open>Decoded JSON\<close>

text \<open>
  What \<open>json.loads\<close> returns. A float is kept as its text: no modelled operation computes with one.
  An object is the dictionary it becomes, in the order of its keys.
\<close>

datatype json =
    JNull
  | JBool bool
  | JInt int
  | JFloat string
  | JStr string
  | JArr "json list"
  | JObj "(string \<times> json) list"

fun is_obj :: "json \<Rightarrow> bool" where
  "is_obj (JObj m) = True"
| "is_obj j = False"

fun obj_get :: "json \<Rightarrow> string \<Rightarrow> json option" where
  "obj_get (JObj m) k = map_of m k"
| "obj_get j k = None"

fun obj_keys :: "json \<Rightarrow> string list" where
  "obj_keys (JObj m) = map fst m"
| "obj_keys j = []"

definition has_key :: "string \<Rightarrow> json \<Rightarrow> bool" where
  "has_key k j = (obj_get j k \<noteq> None)"

fun json_wf :: "json \<Rightarrow> bool" where
  "json_wf (JArr xs) = list_all json_wf xs"
| "json_wf (JObj m) = (distinct (map fst m) \<and> list_all (\<lambda>p. json_wf (snd p)) m)"
| "json_wf j = True"

section \<open>Numbers\<close>

text \<open>
  A Python number as \<open>isinstance\<close>, \<open>isfinite\<close> and \<open><\<close> see it. Finite floats are rationals; the
  code only compares and subtracts them.
\<close>

datatype pynum = NumInt int | NumBool bool | NumFloat rat | PosInf | NegInf | NotANumber | NotNumeric

fun num_is_bool :: "pynum \<Rightarrow> bool" where
  "num_is_bool (NumBool b) = True"
| "num_is_bool n = False"

fun num_is_int_or_float :: "pynum \<Rightarrow> bool" where
  "num_is_int_or_float NotNumeric = False"
| "num_is_int_or_float n = True"

fun num_finite :: "pynum \<Rightarrow> bool" where
  "num_finite (NumInt i) = True"
| "num_finite (NumBool b) = True"
| "num_finite (NumFloat q) = True"
| "num_finite n = False"

fun num_rat :: "pynum \<Rightarrow> rat" where
  "num_rat (NumInt i) = rat_of_int i"
| "num_rat (NumBool b) = (if b then 1 else 0)"
| "num_rat (NumFloat q) = q"
| "num_rat n = 0"

text \<open>\<open>n <= 0\<close>: false for NaN.\<close>

fun num_le_zero :: "pynum \<Rightarrow> bool" where
  "num_le_zero NegInf = True"
| "num_le_zero PosInf = False"
| "num_le_zero NotANumber = False"
| "num_le_zero NotNumeric = False"
| "num_le_zero n = (num_rat n \<le> 0)"

text \<open>\<open>str(n)\<close> for an integer.\<close>

fun nat_str :: "nat \<Rightarrow> string" where
  "nat_str n =
     (if n < 10 then [char_of (48 + n)] else nat_str (n div 10) @ [char_of (48 + n mod 10)])"

declare nat_str.simps [simp del]

definition int_str :: "int \<Rightarrow> string" where
  "int_str i = (if i < 0 then CHR ''-'' # nat_str (nat (- i)) else nat_str (nat i))"

definition str_nat :: "string \<Rightarrow> nat" where
  "str_nat s = foldl (\<lambda>a c. 10 * a + (of_char c - 48)) 0 s"

lemma str_nat_str: "str_nat (nat_str n) = n"
proof (induction n rule: nat_str.induct)
  case (1 n)
  show ?case
  proof (cases "n < 10")
    case True
    then show ?thesis by (subst nat_str.simps) (simp add: str_nat_def)
  next
    case False
    then have "str_nat (nat_str n) = 10 * str_nat (nat_str (n div 10)) + n mod 10"
      by (subst nat_str.simps) (simp add: str_nat_def)
    with 1 False show ?thesis by simp
  qed
qed

lemma nat_str_inject: "nat_str m = nat_str n \<longleftrightarrow> m = n"
  by (metis str_nat_str)

section \<open>Classes\<close>

text \<open>A class is its identity, its name and the identities of its \<open>__mro__\<close>, itself first.\<close>

record pyclass =
  cls_id :: nat
  cls_name :: string
  cls_mro :: "nat list"

definition issubclass :: "pyclass \<Rightarrow> pyclass \<Rightarrow> bool" where
  "issubclass c d = (cls_id d \<in> set (cls_mro c))"

definition class_ok :: "pyclass \<Rightarrow> bool" where
  "class_ok c = (cls_mro c \<noteq> [] \<and> hd (cls_mro c) = cls_id c \<and> distinct (cls_mro c))"

lemma issubclass_refl: "class_ok c \<Longrightarrow> issubclass c c"
  by (cases "cls_mro c") (auto simp: class_ok_def issubclass_def)

section \<open>Rejections, closes and exceptions\<close>

datatype rejection =
    Rej_UNAUTHORIZED
  | Rej_FORBIDDEN
  | Rej_NOT_FOUND
  | Rej_PROTOCOL_ERROR
  | Rej_UNAVAILABLE
  | Rej_INTERNAL_ERROR

datatype conn_close =
    Close_NORMAL
  | Close_SHUTDOWN
  | Close_SERVICE_RESTART
  | Close_PROTOCOL_ERROR
  | Close_POLICY_VIOLATION
  | Close_MESSAGE_TOO_BIG
  | Close_INTERNAL_ERROR
  | Close_TRY_AGAIN_LATER
  | Close_OTHER

record rpc_reject =
  rej_rejection :: rejection
  rej_reason :: string
  rej_headers :: "(string, string) dict option"

record rpc_disconnect =
  dis_code :: conn_close
  dis_raw :: "int option"
  dis_reason :: string

text \<open>An instance of a Pydantic model: its class and what it dumps to.\<close>

record model_value =
  mv_class :: pyclass
  mv_json :: json

text \<open>The attributes \<open>RpcError.__init_subclass__\<close> leaves on an error class, and an instance.\<close>

record error_class =
  ec_class :: pyclass
  ec_code :: string
  ec_message :: string
  ec_rpc_code :: int
  ec_details_type :: "pyclass option"
  ec_builtin :: bool

record rpc_error =
  err_class :: error_class
  err_message :: string
  err_details :: "model_value option"

datatype exc =
    PlainExc pyclass string
  | RejectExc pyclass rpc_reject
  | DisconnectExc pyclass rpc_disconnect
  | RpcErrorExc rpc_error
  | StreamCloseExc pyclass conn_close string
  | GroupExc pyclass string "exc list"

fun exc_class :: "exc \<Rightarrow> pyclass" where
  "exc_class (PlainExc c t) = c"
| "exc_class (RejectExc c r) = c"
| "exc_class (DisconnectExc c d) = c"
| "exc_class (RpcErrorExc e) = ec_class (err_class e)"
| "exc_class (StreamCloseExc c k t) = c"
| "exc_class (GroupExc c t es) = c"

fun exc_text :: "exc \<Rightarrow> string" where
  "exc_text (PlainExc c t) = t"
| "exc_text (RejectExc c r) = rej_reason r"
| "exc_text (DisconnectExc c d) = dis_reason d"
| "exc_text (RpcErrorExc e) = err_message e"
| "exc_text (StreamCloseExc c k t) = t"
| "exc_text (GroupExc c t es) = t"

definition exc_isinstance :: "exc \<Rightarrow> pyclass \<Rightarrow> bool" where
  "exc_isinstance e c = issubclass (exc_class e) c"

text \<open>Enumerations are ordered by their position, so that sorted containers of them work.\<close>

fun conn_close_index :: "conn_close \<Rightarrow> nat" where
  "conn_close_index Close_NORMAL = 0"
| "conn_close_index Close_SHUTDOWN = 1"
| "conn_close_index Close_SERVICE_RESTART = 2"
| "conn_close_index Close_PROTOCOL_ERROR = 3"
| "conn_close_index Close_POLICY_VIOLATION = 4"
| "conn_close_index Close_MESSAGE_TOO_BIG = 5"
| "conn_close_index Close_INTERNAL_ERROR = 6"
| "conn_close_index Close_TRY_AGAIN_LATER = 7"
| "conn_close_index Close_OTHER = 8"

lemma conn_close_index_inject: "conn_close_index a = conn_close_index b \<Longrightarrow> a = b"
  by (cases a; cases b) simp_all

instantiation conn_close :: linorder
begin

definition less_eq_conn_close :: "conn_close \<Rightarrow> conn_close \<Rightarrow> bool" where
  "less_eq_conn_close a b = (conn_close_index a \<le> conn_close_index b)"

definition less_conn_close :: "conn_close \<Rightarrow> conn_close \<Rightarrow> bool" where
  "less_conn_close a b = (conn_close_index a < conn_close_index b)"

instance
  by standard (auto simp: less_eq_conn_close_def less_conn_close_def conn_close_index_inject)

end

end
