(* ===== verification/Utf8.thy ===== *)
theory Utf8
  imports Prelude
begin

text \<open>
  The two places where the code looks inside the UTF-8 encoding of a string: decoding with an
  error handler (\<open>bytes.decode("utf-8", errors=...)\<close> of Python's standard library, used by
  \<open>close_reason\<close> and by \<open>unquote\<close>), and percent-decoding (\<open>urllib.parse.unquote\<close>). An ill-formed
  sequence is skipped up to its longest well-formed beginning, as CPython does, and replaced by
  what the handler gives: nothing for \<open>ignore\<close>, U+FFFD for \<open>replace\<close>.
\<close>

section \<open>Decoding with an error handler\<close>

definition byte_of :: "char \<Rightarrow> nat" where
  "byte_of c = of_char c"

text \<open>Continuation bytes a lead byte asks for, and the range of the first of them.\<close>

definition utf8_lead :: "nat \<Rightarrow> (nat \<times> nat \<times> nat) option" where
  "utf8_lead b =
     (if b \<le> 0x7F then Some (0, 0x80, 0xBF)
      else if 0xC2 \<le> b \<and> b \<le> 0xDF then Some (1, 0x80, 0xBF)
      else if b = 0xE0 then Some (2, 0xA0, 0xBF)
      else if b = 0xED then Some (2, 0x80, 0x9F)
      else if 0xE1 \<le> b \<and> b \<le> 0xEF then Some (2, 0x80, 0xBF)
      else if b = 0xF0 then Some (3, 0x90, 0xBF)
      else if b = 0xF4 then Some (3, 0x80, 0x8F)
      else if 0xF1 \<le> b \<and> b \<le> 0xF3 then Some (3, 0x80, 0xBF)
      else None)"

fun take_conts :: "nat \<Rightarrow> nat \<Rightarrow> nat \<Rightarrow> string \<Rightarrow> string" where
  "take_conts 0 lo hi s = []"
| "take_conts (Suc n) lo hi [] = []"
| "take_conts (Suc n) lo hi (c # s) =
     (if lo \<le> byte_of c \<and> byte_of c \<le> hi then c # take_conts n 0x80 0xBF s else [])"

lemma take_conts_prefix: "take_conts n lo hi s = take (length (take_conts n lo hi s)) s"
  by (induction n lo hi s rule: take_conts.induct) auto

lemma take_conts_length: "length (take_conts n lo hi s) \<le> n"
  by (induction n lo hi s rule: take_conts.induct) auto

lemma take_conts_take: "take_conts n lo hi (take m s) = take m (take_conts n lo hi s)"
  by (induction n lo hi s arbitrary: m rule: take_conts.induct) (auto simp: take_Cons' split: nat.splits)

function utf8_decode :: "string \<Rightarrow> string \<Rightarrow> string" where
  "utf8_decode rep [] = []"
| "utf8_decode rep (c # s) =
     (case utf8_lead (byte_of c) of
        None \<Rightarrow> rep @ utf8_decode rep s
      | Some (n, lo, hi) \<Rightarrow>
          (let t = take_conts n lo hi s
           in (if length t = n then c # t else rep) @ utf8_decode rep (drop (length t) s)))"
  by pat_completeness auto
termination
  by (relation "measure (\<lambda>(rep, s). length s)") auto

function utf8_valid :: "string \<Rightarrow> bool" where
  "utf8_valid [] = True"
| "utf8_valid (c # s) =
     (case utf8_lead (byte_of c) of
        None \<Rightarrow> False
      | Some (n, lo, hi) \<Rightarrow> length (take_conts n lo hi s) = n \<and> utf8_valid (drop n s))"
  by pat_completeness auto
termination
  by (relation "measure length") auto

lemma utf8_lead_bound: "utf8_lead b = Some (n, lo, hi) \<Longrightarrow> n \<le> 3"
  by (auto simp: utf8_lead_def split: if_splits)

lemma utf8_decode_valid: "utf8_valid s \<Longrightarrow> utf8_decode rep s = s"
proof (induction s rule: utf8_valid.induct)
  case 1
  then show ?case by simp
next
  case (2 c s)
  then obtain n lo hi where lead: "utf8_lead (byte_of c) = Some (n, lo, hi)"
    by (auto split: option.splits)
  with 2 have len: "length (take_conts n lo hi s) = n" and "utf8_valid (drop n s)" by auto
  with 2 lead have "utf8_decode rep (drop n s) = drop n s" by auto
  moreover have "take_conts n lo hi s = take n s" using take_conts_prefix len by metis
  ultimately show ?case using lead len by simp
qed

text \<open>
  Cutting well-formed text at any byte and decoding with \<open>ignore\<close> drops at most the three bytes of
  the character the cut went through.
\<close>

lemma utf8_decode_cut:
  assumes "utf8_valid s"
  shows "\<exists>m. utf8_decode [] (take k s) = take m s \<and> m \<le> k \<and> m \<le> length s \<and> utf8_valid (take m s)
             \<and> (k \<le> length s \<longrightarrow> k \<le> m + 3)"
  using assms
proof (induction s arbitrary: k rule: utf8_valid.induct)
  case 1
  then show ?case by simp
next
  case (2 c s)
  then obtain n lo hi where lead: "utf8_lead (byte_of c) = Some (n, lo, hi)"
    by (auto split: option.splits)
  with 2 have len: "length (take_conts n lo hi s) = n" and valid: "utf8_valid (drop n s)" by auto
  have conts: "take_conts n lo hi s = take n s" using take_conts_prefix len by metis
  have n_le: "n \<le> length s" using len conts by (metis length_take min_def nat_le_linear)
  show ?case
  proof (cases k)
    case 0
    then show ?thesis by (intro exI [of _ 0]) simp
  next
    case (Suc k')
    have cut: "take_conts n lo hi (take k' s) = take k' (take n s)"
      by (simp add: take_conts_take conts)
    show ?thesis
    proof (cases "n \<le> k'")
      case True
      from 2 lead valid obtain m where m:
        "utf8_decode [] (take (k' - n) (drop n s)) = take m (drop n s)" "m \<le> k' - n"
        "m \<le> length (drop n s)" "utf8_valid (take m (drop n s))"
        "k' - n \<le> length (drop n s) \<longrightarrow> k' - n \<le> m + 3"
        by blast
      have "utf8_decode [] (take k (c # s)) = c # take n s @ utf8_decode [] (drop n (take k' s))"
        using lead Suc True n_le by (simp add: cut min_def)
      also have "drop n (take k' s) = take (k' - n) (drop n s)" by (simp add: drop_take)
      also have "c # take n s @ utf8_decode [] \<dots> = take (Suc (n + m)) (c # s)"
        by (simp add: m(1) take_add)
      finally have dec: "utf8_decode [] (take k (c # s)) = take (Suc (n + m)) (c # s)" .
      have "take_conts n lo hi (take (n + m) s) = take n s"
        using n_le by (simp add: take_conts_take conts)
      then have "utf8_valid (take (Suc (n + m)) (c # s))"
        using lead m(4) n_le by (simp add: drop_take min_def)
      with dec m(2,3,5) True n_le Suc show ?thesis by (intro exI [of _ "Suc (n + m)"]) auto
    next
      case False
      then have "utf8_decode [] (take k (c # s)) = utf8_decode [] (drop k' (take k' s))"
        using lead Suc n_le by (simp add: cut)
      then have "utf8_decode [] (take k (c # s)) = []" by simp
      moreover have "k \<le> 3" using utf8_lead_bound [OF lead] False Suc by simp
      ultimately show ?thesis by (intro exI [of _ 0]) simp
    qed
  qed
qed

section \<open>Percent-decoding\<close>

definition hex_digit :: "char \<Rightarrow> nat option" where
  "hex_digit c =
     (if is_digit c then Some (byte_of c - 48)
      else if CHR ''a'' \<le> c \<and> c \<le> CHR ''f'' then Some (byte_of c - 87)
      else if CHR ''A'' \<le> c \<and> c \<le> CHR ''F'' then Some (byte_of c - 55)
      else None)"

fun unquote_bytes :: "string \<Rightarrow> string" where
  "unquote_bytes (p # h # l # s) =
     (case (p = CHR ''%'', hex_digit h, hex_digit l) of
        (True, Some a, Some b) \<Rightarrow> char_of (16 * a + b) # unquote_bytes s
      | _ \<Rightarrow> p # unquote_bytes (h # l # s))"
| "unquote_bytes s = s"

definition ascii :: "char \<Rightarrow> bool" where
  "ascii c = (byte_of c < 128)"

definition replacement :: string where
  "replacement = map char_of [0xEF, 0xBF, 0xBD :: nat]"

text \<open>Each run of ASCII characters is percent-decoded on its own; other characters are kept.\<close>

function unquote :: "string \<Rightarrow> string" where
  "unquote [] = []"
| "unquote (c # s) =
     (if ascii c
      then utf8_decode replacement (unquote_bytes (takeWhile ascii (c # s))) @ unquote (dropWhile ascii s)
      else c # unquote s)"
  by pat_completeness auto
termination
  by (relation "measure length") (auto simp: le_imp_less_Suc length_dropWhile_le)

lemma unquote_bytes_plain: "CHR ''%'' \<notin> set s \<Longrightarrow> unquote_bytes s = s"
  by (induction s rule: unquote_bytes.induct) auto

lemma ascii_utf8_valid: "\<forall>c\<in>set s. ascii c \<Longrightarrow> utf8_valid s"
  by (induction s) (auto simp: ascii_def utf8_lead_def)

lemma unquote_plain: "CHR ''%'' \<notin> set s \<Longrightarrow> unquote s = s"
proof (induction s rule: unquote.induct)
  case 1
  then show ?case by simp
next
  case (2 c s)
  show ?case
  proof (cases "ascii c")
    case True
    have "CHR ''%'' \<notin> set (takeWhile ascii (c # s))"
      using 2(3) by (meson set_takeWhileD)
    then have "unquote_bytes (takeWhile ascii (c # s)) = takeWhile ascii (c # s)"
      by (rule unquote_bytes_plain)
    moreover have "utf8_valid (takeWhile ascii (c # s))"
      by (rule ascii_utf8_valid) (meson set_takeWhileD)
    moreover have "unquote (dropWhile ascii s) = dropWhile ascii s"
      using 2 True by (metis list.set_intros(2) set_dropWhileD)
    ultimately show ?thesis
      using True by (simp add: utf8_decode_valid del: utf8_decode.simps utf8_valid.simps)
  next
    case False
    with 2 show ?thesis by simp
  qed
qed

end
