(* ===== verification/Connection.thy ===== *)
theory Connection
  imports Pyobj Utf8
begin

text \<open>
  \<open>connection.py\<close> and \<open>websocket.py\<close>: close codes, handshakes and their headers, rejection
  policies, the limits, and the life of an \<open>RpcConnection\<close> with its expiry timer.

  Timers: \<open>loop.call_at\<close> is the deadline it is given; the event loop runs \<open>_expire\<close> once for an
  armed timer. Callbacks (\<open>_on_close\<close>, the cancellation of the startup task) are the effects an
  operation returns, in the order the code performs them.
\<close>

section \<open>Close codes\<close>

definition disconnect_codes :: "(int, conn_close) dict" where
  "disconnect_codes =
     [(1000, Close_NORMAL), (1001, Close_SHUTDOWN), (1002, Close_PROTOCOL_ERROR),
      (1008, Close_POLICY_VIOLATION), (1009, Close_MESSAGE_TOO_BIG), (1011, Close_INTERNAL_ERROR),
      (1012, Close_SERVICE_RESTART), (1013, Close_TRY_AGAIN_LATER)]"

definition rpc_disconnect_init :: "conn_close + int \<Rightarrow> string \<Rightarrow> rpc_disconnect" where
  "rpc_disconnect_init close reason =
     (case close of
        Inl c \<Rightarrow> \<lparr>dis_code = c, dis_raw = None, dis_reason = reason\<rparr>
      | Inr n \<Rightarrow> \<lparr>dis_code = (case map_of disconnect_codes n of Some c \<Rightarrow> c | None \<Rightarrow> Close_OTHER),
                  dis_raw = Some n, dis_reason = reason\<rparr>)"

fun close_code_of :: "conn_close \<Rightarrow> int" where
  "close_code_of Close_NORMAL = 1000"
| "close_code_of Close_SHUTDOWN = 1001"
| "close_code_of Close_SERVICE_RESTART = 1012"
| "close_code_of Close_PROTOCOL_ERROR = 1002"
| "close_code_of Close_POLICY_VIOLATION = 1008"
| "close_code_of Close_MESSAGE_TOO_BIG = 1009"
| "close_code_of Close_INTERNAL_ERROR = 1011"
| "close_code_of Close_TRY_AGAIN_LATER = 1013"
| "close_code_of Close_OTHER = 1008"

fun rejection_close :: "rejection \<Rightarrow> conn_close" where
  "rejection_close Rej_UNAUTHORIZED = Close_POLICY_VIOLATION"
| "rejection_close Rej_FORBIDDEN = Close_POLICY_VIOLATION"
| "rejection_close Rej_NOT_FOUND = Close_POLICY_VIOLATION"
| "rejection_close Rej_PROTOCOL_ERROR = Close_PROTOCOL_ERROR"
| "rejection_close Rej_UNAVAILABLE = Close_TRY_AGAIN_LATER"
| "rejection_close Rej_INTERNAL_ERROR = Close_INTERNAL_ERROR"

definition rejection_close_code :: "rejection \<Rightarrow> int" where
  "rejection_close_code r = close_code_of (rejection_close r)"

definition max_close_reason_bytes :: nat where
  "max_close_reason_bytes = 123"

definition close_reason :: "string \<Rightarrow> string" where
  "close_reason reason = utf8_decode [] (take max_close_reason_bytes reason)"

lemma rejection_close_abnormal [simp]: "rejection_close r \<noteq> Close_NORMAL"
  by (cases r) simp_all

section \<open>Handshake and headers\<close>

record handshake =
  hs_path :: string
  hs_headers :: "(string, string) dict"
  hs_query :: "(string, string) dict"
  hs_path_params :: "(string, string) dict"
  hs_subprotocols :: "string list"
  hs_client :: "(string \<times> int) option"

text \<open>
  \<open>_Headers\<close>. Header names are HTTP tokens, hence ASCII, where \<open>str.lower\<close> is \<open>to_lower\<close> on each
  character. \<open>None\<close> is the \<open>KeyError\<close>.
\<close>

definition lower :: "string \<Rightarrow> string" where
  "lower s = map to_lower s"

definition headers_init :: "(string, string) dict \<Rightarrow> (string, string) dict" where
  "headers_init vs = fold (\<lambda>(k, v). dict_set (lower k) v) vs []"

definition headers_getitem :: "(string, string) dict \<Rightarrow> string \<Rightarrow> string option" where
  "headers_getitem h k = map_of h (lower k)"

definition headers_len :: "(string, string) dict \<Rightarrow> nat" where
  "headers_len h = length h"

lemma lower_idem [simp]: "lower (lower s) = lower s"
  by (simp add: lower_def to_lower_not_upper)

lemma headers_fold_get:
  "map_of (fold (\<lambda>(k, v). dict_set (lower k) v) vs h) k =
     (case find (\<lambda>p. lower (fst p) = k) (rev vs) of Some p \<Rightarrow> Some (snd p) | None \<Rightarrow> map_of h k)"
proof (induction vs arbitrary: h rule: rev_induct)
  case Nil
  then show ?case by simp
next
  case (snoc p vs)
  then show ?case by (cases p) (auto simp: dict_simps split: option.splits)
qed

section \<open>Rejection policies\<close>

text \<open>A mapping from exception classes, or a callable that may itself raise.\<close>

datatype rejections =
    RMap "(pyclass \<times> rejection) list"
  | RFun "exc \<Rightarrow> exc + rpc_reject option"

fun is_rpc_reject :: "exc \<Rightarrow> bool" where
  "is_rpc_reject (RejectExc c r) = True"
| "is_rpc_reject e = False"

definition mapped_rejection :: "(pyclass \<times> rejection) list \<Rightarrow> exc \<Rightarrow> rpc_reject option" where
  "mapped_rejection m e =
     map_option (\<lambda>p. \<lparr>rej_rejection = snd p, rej_reason = exc_text e, rej_headers = None\<rparr>)
       (find (\<lambda>p. exc_isinstance e (fst p)) m)"

fun rejection_for :: "exc \<Rightarrow> rejections option \<Rightarrow> exc + rpc_reject option" where
  "rejection_for (RejectExc c r) rs = Inr (Some r)"
| "rejection_for e None = Inr None"
| "rejection_for e (Some (RMap m)) = Inr (mapped_rejection m e)"
| "rejection_for e (Some (RFun f)) = f e"

fun first_rejection :: "rejections list \<Rightarrow> exc \<Rightarrow> exc + rpc_reject option" where
  "first_rejection [] e = Inr None"
| "first_rejection (l # ls) e =
     rbind (rejection_for e (Some l))
       (\<lambda>r. case r of None \<Rightarrow> first_rejection ls e | Some x \<Rightarrow> Inr (Some x))"

definition chain_rejections :: "rejections option list \<Rightarrow> rejections option" where
  "chain_rejections levels =
     (let present = map the (filter (\<lambda>l. l \<noteq> None) levels)
      in case present of
           [] \<Rightarrow> None
         | [l] \<Rightarrow> Some l
         | _ \<Rightarrow> Some (RFun (first_rejection present)))"

lemma rejection_for_reject: "rejection_for (RejectExc c r) rs = Inr (Some r)"
  by simp

lemma rejection_for_None [simp]: "\<not> is_rpc_reject e \<Longrightarrow> rejection_for e None = Inr None"
  by (cases e) auto

lemma rejection_for_RFun [simp]: "\<not> is_rpc_reject e \<Longrightarrow> rejection_for e (Some (RFun f)) = f e"
  by (cases e) auto

text \<open>What a chain answers, by recursion on its levels: the reference the code is compared with.\<close>

fun consult :: "rejections option list \<Rightarrow> exc \<Rightarrow> exc + rpc_reject option" where
  "consult [] e = rejection_for e None"
| "consult (l # ls) e =
     rbind (rejection_for e l) (\<lambda>r. case r of None \<Rightarrow> consult ls e | Some x \<Rightarrow> Inr (Some x))"

lemma consult_reject [simp]: "consult ls (RejectExc c r) = Inr (Some r)"
  by (cases ls) auto

lemma consult_first_rejection:
  "\<not> is_rpc_reject e \<Longrightarrow>
     consult ls e = first_rejection (map the (filter (\<lambda>l. l \<noteq> None) ls)) e"
proof (induction ls)
  case Nil
  then show ?case by simp
next
  case (Cons l ls)
  then show ?case by (cases l) auto
qed

lemma first_rejection_single: "first_rejection [l] e = rejection_for e (Some l)"
  by (cases "rejection_for e (Some l)") (auto split: option.splits)

lemma consult_append:
  "consult (xs @ ys) e =
     rbind (consult xs e) (\<lambda>r. case r of None \<Rightarrow> consult ys e | Some x \<Rightarrow> Inr (Some x))"
proof (cases "is_rpc_reject e")
  case True
  then show ?thesis by (cases e) auto
next
  case False
  then show ?thesis
    by (induction xs) (auto simp: rbind_def split: sum.splits option.splits)
qed

lemma chain_rejections_consult: "rejection_for e (chain_rejections ls) = consult ls e"
proof (cases "is_rpc_reject e")
  case True
  then show ?thesis by (cases e) auto
next
  case False
  let ?p = "map the (filter (\<lambda>l. l \<noteq> None) ls)"
  consider "?p = []" | l where "?p = [l]" | l l' ls' where "?p = l # l' # ls'"
    by (metis list.exhaust)
  then show ?thesis
    using False by cases (simp_all add: chain_rejections_def consult_first_rejection
        first_rejection_single del: first_rejection.simps, simp)
qed

section \<open>Properties\<close>

text \<open>
  C5. A close reason fits a WebSocket close frame and stays well-formed: \<open>close_reason\<close> gives a
  prefix of at most 123 bytes that is valid UTF-8, all of a reason that fits, and otherwise all but at
  most the three bytes of the character the limit cuts.
\<close>
theorem close_reason_fits:
  assumes "utf8_valid reason"
  shows "length (close_reason reason) \<le> 123 \<and> utf8_valid (close_reason reason)
    \<and> (\<exists>m. close_reason reason = take m reason \<and> (123 \<le> length reason \<longrightarrow> 120 \<le> m))
    \<and> (length reason \<le> 123 \<longrightarrow> close_reason reason = reason)"
proof -
  obtain m where m: "close_reason reason = take m reason" "m \<le> 123" "utf8_valid (take m reason)"
      "123 \<le> length reason \<longrightarrow> 123 \<le> m + 3"
    using utf8_decode_cut [OF assms, of 123] by (auto simp: close_reason_def max_close_reason_bytes_def)
  moreover have "length reason \<le> 123 \<longrightarrow> close_reason reason = reason"
    using assms by (simp add: close_reason_def max_close_reason_bytes_def utf8_decode_valid)
  ultimately show ?thesis by (auto intro!: exI [of _ m])
qed

lemma close_reason_fits_witness: "close_reason ''bye'' = ''bye'' \<and> length (close_reason ''bye'') \<le> 123"
proof -
  have "utf8_valid ''bye''" by (simp add: utf8_lead_def byte_of_def)
  from close_reason_fits [OF this] show ?thesis by simp
qed

text \<open>
  Rejection policies: a chain of levels answers what consulting them in order answers, the
  first level that maps the failure winning and an error of a mapper ending the search, and nesting
  chains (call, endpoint, service) makes no difference.
\<close>
theorem chain_rejections_in_order:
  "rejection_for e (chain_rejections ls) = consult ls e \<and>
   rejection_for e (chain_rejections [chain_rejections xs, chain_rejections ys]) =
     rejection_for e (chain_rejections (xs @ ys))"
proof
  show "rejection_for e (chain_rejections ls) = consult ls e" by (rule chain_rejections_consult)
  have "consult [chain_rejections xs, chain_rejections ys] e =
      rbind (consult xs e) (\<lambda>r. case r of Some x \<Rightarrow> Inr (Some x)
        | None \<Rightarrow> rbind (consult ys e) (\<lambda>r. case r of Some x \<Rightarrow> Inr (Some x) | None \<Rightarrow> rejection_for e None))"
    by (simp add: chain_rejections_consult)
  also have "\<dots> = consult (xs @ ys) e"
  proof (cases "is_rpc_reject e")
    case True
    then show ?thesis by (cases e) auto
  next
    case False
    then have "rbind (consult ys e) (\<lambda>r. case r of Some x \<Rightarrow> Inr (Some x) | None \<Rightarrow> rejection_for e None)
        = consult ys e"
      by (cases "consult ys e") (auto split: option.splits)
    then show ?thesis by (simp only: consult_append)
  qed
  finally show "rejection_for e (chain_rejections [chain_rejections xs, chain_rejections ys]) =
      rejection_for e (chain_rejections (xs @ ys))"
    by (simp add: chain_rejections_consult)
qed

text \<open>
  C16. Close codes: reading back the WebSocket code of a close gives the close again, except for
  \<open>OTHER\<close>, which is sent as a policy violation; every rejection maps to an abnormal close.
\<close>
theorem close_codes_roundtrip:
  "dis_code (rpc_disconnect_init (Inr (close_code_of c)) reason) =
     (if c = Close_OTHER then Close_POLICY_VIOLATION else c)
   \<and> rejection_close r \<noteq> Close_NORMAL \<and> rejection_close_code r \<noteq> close_code_of Close_NORMAL"
  by (cases c; cases r) (simp_all add: rpc_disconnect_init_def disconnect_codes_def rejection_close_code_def)

end
