(* ===== verification/Errors.thy ===== *)
theory Errors
  imports Connection
begin

text \<open>
  \<open>errors.py\<close>: the error classes an API declares, how \<open>RpcError.__init_subclass__\<close> derives and
  checks their attributes, the bindings of domain exceptions to errors and rejections, and the
  merging of declarations of nested channels.

  Classes and bindings are compared by identity, the \<open>cls_id\<close> of a class. Class and exception
  names are ASCII, where \<open>str.lower\<close> and \<open>str.capitalize\<close> are \<open>lower\<close> and \<open>capitalize\<close>.
\<close>

section \<open>Classes the code names\<close>

definition builtin_class :: "nat \<Rightarrow> string \<Rightarrow> nat list \<Rightarrow> pyclass" where
  "builtin_class n name bases = \<lparr>cls_id = n, cls_name = name, cls_mro = n # bases\<rparr>"

definition cls_Exception :: pyclass where
  "cls_Exception = builtin_class 2 ''Exception'' [1, 0]"

definition cls_TypeError :: pyclass where
  "cls_TypeError = builtin_class 3 ''TypeError'' [2, 1, 0]"

definition cls_ValueError :: pyclass where
  "cls_ValueError = builtin_class 4 ''ValueError'' [2, 1, 0]"

definition cls_RuntimeError :: pyclass where
  "cls_RuntimeError = builtin_class 5 ''RuntimeError'' [2, 1, 0]"

definition cls_RpcError :: pyclass where
  "cls_RpcError = builtin_class 10 ''RpcError'' [2, 1, 0]"

definition cls_BaseModel :: pyclass where
  "cls_BaseModel = builtin_class 30 ''BaseModel'' [0]"

definition cls_RpcMethodNotFound :: pyclass where
  "cls_RpcMethodNotFound = builtin_class 31 ''RpcMethodNotFound'' [30, 0]"

definition cls_RpcInvalidParams :: pyclass where
  "cls_RpcInvalidParams = builtin_class 32 ''RpcInvalidParams'' [30, 0]"

lemmas builtin_class_defs =
  builtin_class_def cls_Exception_def cls_TypeError_def cls_ValueError_def cls_RuntimeError_def
  cls_RpcError_def cls_BaseModel_def cls_RpcMethodNotFound_def cls_RpcInvalidParams_def

definition type_error :: "string \<Rightarrow> exc" where
  "type_error t = PlainExc cls_TypeError t"

section \<open>Error codes\<close>

definition is_word_char :: "char \<Rightarrow> bool" where
  "is_word_char c = (is_lower c \<or> is_digit c)"

text \<open>A word starts between a lower-case letter or digit and an upper-case letter, and before the
  last letter of a run of upper-case letters when a lower-case one follows.\<close>

definition word_boundary :: "char \<Rightarrow> char \<Rightarrow> string \<Rightarrow> bool" where
  "word_boundary p c rest =
     ((is_word_char p \<and> is_upper c)
      \<or> (is_upper p \<and> is_upper c \<and> rest \<noteq> [] \<and> is_lower (hd rest)))"

fun insert_boundaries :: "string \<Rightarrow> string" where
  "insert_boundaries (p # c # rest) =
     (if word_boundary p c rest then p # CHR ''_'' # insert_boundaries (c # rest)
      else p # insert_boundaries (c # rest))"
| "insert_boundaries s = s"

definition error_code :: "string \<Rightarrow> string" where
  "error_code name =
     lower (insert_boundaries
       (remove_suffix ''Error'' (remove_suffix ''RpcError'' (dropWhile (\<lambda>c. c = CHR ''_'') name))))"

definition error_code_ok :: "string \<Rightarrow> bool" where
  "error_code_ok s =
     (case s of [] \<Rightarrow> False
      | c # cs \<Rightarrow> is_lower c \<and> list_all (\<lambda>d. is_lower d \<or> is_digit d \<or> d = CHR ''_'') cs)"

fun replace_char :: "char \<Rightarrow> char \<Rightarrow> string \<Rightarrow> string" where
  "replace_char a b [] = []"
| "replace_char a b (c # cs) = (if c = a then b else c) # replace_char a b cs"

definition humanize :: "string \<Rightarrow> string" where
  "humanize code = capitalize (replace_char (CHR ''_'') (CHR '' '') code)"

datatype rpc_error_code =
    PARSE_ERROR | INVALID_REQUEST | METHOD_NOT_FOUND | INVALID_PARAMS | INTERNAL_ERROR
  | SERVER_ERROR | REQUEST_CANCELLED

fun code_val :: "rpc_error_code \<Rightarrow> int" where
  "code_val PARSE_ERROR = -32700"
| "code_val INVALID_REQUEST = -32600"
| "code_val METHOD_NOT_FOUND = -32601"
| "code_val INVALID_PARAMS = -32602"
| "code_val INTERNAL_ERROR = -32603"
| "code_val SERVER_ERROR = -32000"
| "code_val REQUEST_CANCELLED = -32800"

fun code_name :: "rpc_error_code \<Rightarrow> string" where
  "code_name PARSE_ERROR = ''PARSE_ERROR''"
| "code_name INVALID_REQUEST = ''INVALID_REQUEST''"
| "code_name METHOD_NOT_FOUND = ''METHOD_NOT_FOUND''"
| "code_name INVALID_PARAMS = ''INVALID_PARAMS''"
| "code_name INTERNAL_ERROR = ''INTERNAL_ERROR''"
| "code_name SERVER_ERROR = ''SERVER_ERROR''"
| "code_name REQUEST_CANCELLED = ''REQUEST_CANCELLED''"

definition all_error_codes :: "rpc_error_code list" where
  "all_error_codes =
     [PARSE_ERROR, INVALID_REQUEST, METHOD_NOT_FOUND, INVALID_PARAMS, INTERNAL_ERROR,
      SERVER_ERROR, REQUEST_CANCELLED]"

definition error_message :: "string + int \<Rightarrow> string" where
  "error_message code =
     (case code of
        Inl s \<Rightarrow> humanize s
      | Inr n \<Rightarrow>
          (case find (\<lambda>c. code_val c = n) all_error_codes of
             Some c \<Rightarrow> humanize (code_name c)
           | None \<Rightarrow> ''Error '' @ int_str n))"

text \<open>An \<open>IntEnum\<close> compares by its value.\<close>

lemma code_val_inject: "code_val a = code_val b \<Longrightarrow> a = b"
  by (cases a; cases b) simp_all

instantiation rpc_error_code :: linorder
begin

definition less_eq_rpc_error_code :: "rpc_error_code \<Rightarrow> rpc_error_code \<Rightarrow> bool" where
  "less_eq_rpc_error_code a b = (code_val a \<le> code_val b)"

definition less_rpc_error_code :: "rpc_error_code \<Rightarrow> rpc_error_code \<Rightarrow> bool" where
  "less_rpc_error_code a b = (code_val a < code_val b)"

instance
  by standard (auto simp: less_eq_rpc_error_code_def less_rpc_error_code_def code_val_inject)

end

lemma lower_boundaries_chars:
  assumes "list_all (\<lambda>c. is_upper c \<or> is_lower c \<or> is_digit c \<or> c = CHR ''_'') s"
  shows "list_all (\<lambda>d. is_lower d \<or> is_digit d \<or> d = CHR ''_'') (lower (insert_boundaries s))"
  using assms
proof (induction s rule: insert_boundaries.induct, goal_cases)
  case (1 p c rest)
  then have "is_lower (to_lower p) \<or> is_digit (to_lower p) \<or> to_lower p = CHR ''_''"
    by (cases "is_upper p") auto
  moreover have "to_lower (CHR ''_'') = CHR ''_''" by (simp add: to_lower_def char_classes)
  ultimately show ?case using 1 by (auto simp: lower_def)
next
  case 2
  then show ?case by (simp add: lower_def)
next
  case (3 v)
  then show ?case by (cases "is_upper v") (auto simp: lower_def)
qed

lemma insert_boundaries_hd: "s \<noteq> [] \<Longrightarrow> insert_boundaries s \<noteq> [] \<and> hd (insert_boundaries s) = hd s"
  by (cases s rule: insert_boundaries.cases) auto

lemma remove_suffix_set: "set (remove_suffix p s) \<subseteq> set s"
  by (auto simp: remove_suffix_def dest: in_set_takeD)

lemma remove_suffix_hd: "remove_suffix p s \<noteq> [] \<Longrightarrow> hd (remove_suffix p s) = hd s"
  by (auto simp: remove_suffix_def hd_take split: if_splits)

lemma error_code_ok_pascal:
  assumes "list_all (\<lambda>c. is_upper c \<or> is_lower c \<or> is_digit c \<or> c = CHR ''_'') (c # cs)" "is_upper c"
    and "remove_suffix ''Error'' (remove_suffix ''RpcError'' (c # cs)) \<noteq> []"
  shows "error_code_ok (error_code (c # cs))"
proof -
  let ?t = "remove_suffix ''Error'' (remove_suffix ''RpcError'' (c # cs))"
  have "c \<noteq> CHR ''_''" using assms(2) by (auto simp: char_classes)
  then have code: "error_code (c # cs) = lower (insert_boundaries ?t)" by (simp add: error_code_def)
  have "set ?t \<subseteq> set (c # cs)" using remove_suffix_set by (meson order_trans)
  with assms(1) have "list_all (\<lambda>c. is_upper c \<or> is_lower c \<or> is_digit c \<or> c = CHR ''_'') ?t"
    by (auto simp: list_all_iff)
  from lower_boundaries_chars [OF this] code
  have all: "list_all (\<lambda>d. is_lower d \<or> is_digit d \<or> d = CHR ''_'') (error_code (c # cs))" by simp
  have "remove_suffix ''RpcError'' (c # cs) \<noteq> []"
    using assms(3) by (metis list.size(3) remove_suffix_def take_eq_Nil)
  with assms(3) have "hd ?t = c" using remove_suffix_hd by (metis list.sel(1))
  with insert_boundaries_hd [OF assms(3)] code assms(2)
  have "error_code (c # cs) \<noteq> []" "is_lower (hd (error_code (c # cs)))"
    by (auto simp: lower_def hd_map)
  with all show ?thesis by (cases "error_code (c # cs)") (auto simp: error_code_ok_def)
qed

section \<open>Defining an error class\<close>

datatype define_error =
    InvalidErrorCode
  | RpcCodeNotInt
  | ReservedStandardCode
  | ReservedCodeRange
  | DetailsNotModel
  | NotAnErrorClass
  | BuiltinDeclared
  | BindsRpcError
  | BadBindingMessage
  | BadBindingRejection
  | BadBindingDetails
  | UnresolvedDetails
  | MissingDetailsFields "string list"
  | BoundTwice string string string string
  | RejectsNeedsRejection
  | Owned string define_error

text \<open>
  The attributes of a class body \<open>__init_subclass__\<close> reads from \<open>cls.__dict__\<close>: \<open>None\<close> when absent,
  \<open>Some None\<close> for a value of another type. \<open>cb_details\<close> is the resolved annotation of \<open>details\<close>;
  the last two fields are what \<open>getattr\<close> finds on the bases.
\<close>

record class_body =
  cb_class :: pyclass
  cb_code :: "string option option"
  cb_rpc_code :: "int option option"
  cb_message :: "string option"
  cb_details :: "pyclass option option"
  cb_details_type :: "pyclass option option"
  cb_builtin :: "bool option"
  cb_base_details :: "pyclass option"
  cb_base_builtin :: bool

definition standard_codes :: "int list" where
  "standard_codes = [-32700, -32600, -32601, -32602, -32603]"

definition class_error_code :: "class_body \<Rightarrow> define_error + string" where
  "class_error_code b =
     (case cb_code b of
        None \<Rightarrow> Inr (error_code (cls_name (cb_class b)))
      | Some None \<Rightarrow> Inl InvalidErrorCode
      | Some (Some c) \<Rightarrow> Inr c)"

definition class_rpc_code :: "class_body \<Rightarrow> define_error + int" where
  "class_rpc_code b =
     (case cb_rpc_code b of
        None \<Rightarrow> Inr (code_val SERVER_ERROR)
      | Some None \<Rightarrow> Inl RpcCodeNotInt
      | Some (Some n) \<Rightarrow> Inr n)"

definition class_details_type :: "class_body \<Rightarrow> define_error + pyclass option" where
  "class_details_type b =
     (case cb_details b of
        Some None \<Rightarrow> Inl DetailsNotModel
      | Some (Some m) \<Rightarrow> if issubclass m cls_BaseModel then Inr (Some m) else Inl DetailsNotModel
      | None \<Rightarrow> Inr (case cb_details_type b of Some d \<Rightarrow> d | None \<Rightarrow> cb_base_details b))"

definition init_subclass :: "class_body \<Rightarrow> define_error + error_class" where
  "init_subclass b =
     (let builtin = (cb_builtin b = Some True) in
      rbind (class_error_code b) (\<lambda>code.
      rbind (raise_if (\<not> error_code_ok code) InvalidErrorCode) (\<lambda>_.
      rbind (class_rpc_code b) (\<lambda>n.
      rbind (raise_if (n \<in> set standard_codes \<and> \<not> builtin) ReservedStandardCode) (\<lambda>_.
      rbind (raise_if (-32768 \<le> n \<and> n < -32099 \<and> \<not> builtin) ReservedCodeRange) (\<lambda>_.
      rbind (class_details_type b) (\<lambda>details.
      Inr \<lparr>ec_class = cb_class b, ec_code = code,
           ec_message = (case cb_message b of Some m \<Rightarrow> m | None \<Rightarrow> humanize code),
           ec_rpc_code = n, ec_details_type = details,
           ec_builtin = (case cb_builtin b of Some v \<Rightarrow> v | None \<Rightarrow> cb_base_builtin b)\<rparr>)))))))"

lemma init_subclass_Inr:
  assumes "init_subclass b = Inr e"
  shows "error_code_ok (ec_code e) \<and> ec_class e = cb_class b
    \<and> (cb_builtin b = Some True \<or> ec_rpc_code e \<notin> set standard_codes
         \<and> \<not> (-32768 \<le> ec_rpc_code e \<and> ec_rpc_code e < -32099))"
  using assms by (auto simp: init_subclass_def Let_def result_simps)

section \<open>The built-in errors\<close>

definition builtin_body :: "nat \<Rightarrow> string \<Rightarrow> string \<Rightarrow> rpc_error_code option \<Rightarrow> pyclass option \<Rightarrow> class_body" where
  "builtin_body n name code rpc details =
     \<lparr>cb_class = builtin_class n name [10, 2, 1, 0], cb_code = Some (Some code),
      cb_rpc_code = map_option (\<lambda>c. Some (code_val c)) rpc, cb_message = None,
      cb_details = map_option Some details, cb_details_type = None, cb_builtin = Some True,
      cb_base_details = None, cb_base_builtin = False\<rparr>"

definition builtin_error :: "class_body \<Rightarrow> error_class" where
  "builtin_error b =
     (case init_subclass b of Inr e \<Rightarrow> e
      | Inl _ \<Rightarrow> \<lparr>ec_class = cb_class b, ec_code = [], ec_message = [], ec_rpc_code = 0,
                 ec_details_type = None, ec_builtin = True\<rparr>)"

definition body_RpcParseError :: class_body where
  "body_RpcParseError = builtin_body 11 ''RpcParseError'' ''parse_error'' (Some PARSE_ERROR) None"

definition body_RpcInvalidRequestError :: class_body where
  "body_RpcInvalidRequestError =
     builtin_body 12 ''RpcInvalidRequestError'' ''invalid_request'' (Some INVALID_REQUEST) None"

definition body_RpcMethodNotFoundError :: class_body where
  "body_RpcMethodNotFoundError =
     builtin_body 13 ''RpcMethodNotFoundError'' ''method_not_found'' (Some METHOD_NOT_FOUND)
       (Some cls_RpcMethodNotFound)"

definition body_RpcInvalidParamsError :: class_body where
  "body_RpcInvalidParamsError =
     builtin_body 14 ''RpcInvalidParamsError'' ''invalid_params'' (Some INVALID_PARAMS)
       (Some cls_RpcInvalidParams)"

definition body_RpcInternalError :: class_body where
  "body_RpcInternalError =
     builtin_body 15 ''RpcInternalError'' ''internal_error'' (Some INTERNAL_ERROR) None"

definition body_RpcRequestTimeoutError :: class_body where
  "body_RpcRequestTimeoutError =
     builtin_body 16 ''RpcRequestTimeoutError'' ''request_timeout'' None None"

definition body_RpcRequestCancelledError :: class_body where
  "body_RpcRequestCancelledError =
     builtin_body 17 ''RpcRequestCancelledError'' ''request_cancelled'' (Some REQUEST_CANCELLED) None"

definition body_RpcServerShuttingDownError :: class_body where
  "body_RpcServerShuttingDownError =
     builtin_body 18 ''RpcServerShuttingDownError'' ''server_shutting_down'' None None"

lemmas builtin_bodies =
  body_RpcParseError_def body_RpcInvalidRequestError_def body_RpcMethodNotFoundError_def
  body_RpcInvalidParamsError_def body_RpcInternalError_def body_RpcRequestTimeoutError_def
  body_RpcRequestCancelledError_def body_RpcServerShuttingDownError_def

definition builtin_error_bodies :: "class_body list" where
  "builtin_error_bodies =
     [body_RpcParseError, body_RpcInvalidRequestError, body_RpcMethodNotFoundError,
      body_RpcInvalidParamsError, body_RpcInternalError, body_RpcRequestTimeoutError,
      body_RpcRequestCancelledError, body_RpcServerShuttingDownError]"

lemma builtin_body_defines:
  assumes "error_code_ok code" "\<And>m. details = Some m \<Longrightarrow> issubclass m cls_BaseModel"
  shows "init_subclass (builtin_body n name code rpc details) =
     Inr \<lparr>ec_class = builtin_class n name [10, 2, 1, 0], ec_code = code, ec_message = humanize code,
          ec_rpc_code = (case rpc of None \<Rightarrow> -32000 | Some c \<Rightarrow> code_val c),
          ec_details_type = details, ec_builtin = True\<rparr>"
  using assms by (cases rpc; cases details)
    (auto simp: init_subclass_def builtin_body_def class_error_code_def class_rpc_code_def
       class_details_type_def)

section \<open>Raising an error\<close>

datatype details_arg = DetNone | DetModel model_value | DetOther string | DetObject

text \<open>\<open>mk_model\<close> is the Pydantic model's constructor on keyword fields.\<close>

definition rpc_error_init ::
  "(pyclass \<Rightarrow> (string \<times> json) list \<Rightarrow> exc + model_value) \<Rightarrow>
   error_class \<Rightarrow> details_arg \<Rightarrow> string option \<Rightarrow> (string \<times> json) list \<Rightarrow> exc + rpc_error" where
  "rpc_error_init mk_model c details message kw =
     rbind (raise_if (cls_id (ec_class c) = cls_id cls_RpcError)
              (type_error ''RpcError cannot be instantiated directly'')) (\<lambda>_.
     rbind
       (case ec_details_type c of
          None \<Rightarrow>
            if details \<noteq> DetNone \<or> kw \<noteq> []
            then Inl (type_error (cls_name (ec_class c) @ '' does not accept details''
                   @ (case details of DetOther s \<Rightarrow> ''; did you mean to pass message=...?'' | _ \<Rightarrow> [])))
            else Inr None
        | Some t \<Rightarrow>
            if details \<noteq> DetNone \<and> kw \<noteq> []
            then Inl (type_error ''Pass either a details instance or kw, not both'')
            else if details = DetNone \<and> kw = []
            then Inl (type_error (cls_name (ec_class c) @ '' requires details''))
            else
              (case details of
                 DetNone \<Rightarrow> rbind (mk_model t kw) (\<lambda>m. Inr (Some m))
               | DetModel m \<Rightarrow>
                   if issubclass (mv_class m) t then Inr (Some m)
                   else Inl (type_error (''details must be '' @ cls_name t))
               | _ \<Rightarrow> Inl (type_error (''details must be '' @ cls_name t))))
       (\<lambda>d. Inr \<lparr>err_class = c,
                 err_message = (case message of None \<Rightarrow> ec_message c | Some [] \<Rightarrow> ec_message c | Some m \<Rightarrow> m),
                 err_details = d\<rparr>))"

lemma rpc_error_init_Inr:
  "rpc_error_init mk_model c details message kw = Inr r \<Longrightarrow>
     err_class r = c \<and>
     err_message r = (case message of None \<Rightarrow> ec_message c | Some [] \<Rightarrow> ec_message c | Some m \<Rightarrow> m)"
  unfolding rpc_error_init_def rbind_eq_Inr by (elim exE conjE) (simp add: eq_commute [of _ r])

definition simple_error :: "class_body \<Rightarrow> rpc_error" where
  "simple_error b =
     \<lparr>err_class = builtin_error b, err_message = ec_message (builtin_error b), err_details = None\<rparr>"

lemma simple_error_init:
  assumes "b \<in> set builtin_error_bodies" "ec_details_type (builtin_error b) = None"
  shows "rpc_error_init mk_model (builtin_error b) DetNone None [] = Inr (simple_error b)"
proof -
  have "cls_id (ec_class (builtin_error b)) \<noteq> cls_id cls_RpcError"
    using assms(1) by (auto simp: builtin_error_bodies_def builtin_bodies builtin_error_def
        builtin_body_def init_subclass_def class_error_code_def class_rpc_code_def
        class_details_type_def builtin_class_defs rbind_def raise_if_def split: sum.splits)
  then show ?thesis by (simp add: rpc_error_init_def assms(2) simple_error_def)
qed

definition err_parse :: rpc_error where "err_parse = simple_error body_RpcParseError"
definition err_invalid_request :: rpc_error where
  "err_invalid_request = simple_error body_RpcInvalidRequestError"
definition err_internal :: rpc_error where "err_internal = simple_error body_RpcInternalError"
definition err_timeout :: rpc_error where "err_timeout = simple_error body_RpcRequestTimeoutError"
definition err_cancelled :: rpc_error where
  "err_cancelled = simple_error body_RpcRequestCancelledError"
definition err_shutting_down :: rpc_error where
  "err_shutting_down = simple_error body_RpcServerShuttingDownError"

definition err_method_not_found :: "string \<Rightarrow> rpc_error" where
  "err_method_not_found name =
     \<lparr>err_class = builtin_error body_RpcMethodNotFoundError,
      err_message = ec_message (builtin_error body_RpcMethodNotFoundError),
      err_details = Some \<lparr>mv_class = cls_RpcMethodNotFound, mv_json = JObj [(''method'', JStr name)]\<rparr>\<rparr>"

datatype loc_part = LocName string | LocIndex int

record validation_issue =
  iss_loc :: "loc_part list"
  iss_message :: string
  iss_type :: string

fun loc_str :: "loc_part \<Rightarrow> string" where
  "loc_str (LocName s) = s"
| "loc_str (LocIndex i) = int_str i"

fun loc_json :: "loc_part \<Rightarrow> json" where
  "loc_json (LocName s) = JStr s"
| "loc_json (LocIndex i) = JInt i"

definition issue_json :: "validation_issue \<Rightarrow> json" where
  "issue_json i =
     JObj [(''loc'', JArr (map loc_json (iss_loc i))), (''message'', JStr (iss_message i)),
           (''type'', JStr (iss_type i))]"

text \<open>A \<open>ValidationError\<close> has at least one issue: \<open>None\<close> is the \<open>IndexError\<close> of \<open>issues[0]\<close>.\<close>

definition from_validation_error :: "validation_issue list \<Rightarrow> rpc_error option" where
  "from_validation_error issues =
     (case issues of
        [] \<Rightarrow> None
      | i # _ \<Rightarrow>
          Some \<lparr>err_class = builtin_error body_RpcInvalidParamsError,
                err_message = ''Invalid params at '' @ join ''.'' (''params'' # map loc_str (iss_loc i))
                   @ '': '' @ iss_message i,
                err_details = Some \<lparr>mv_class = cls_RpcInvalidParams,
                   mv_json = JObj [(''issues'', JArr (map issue_json issues))]\<rparr>\<rparr>)"

section \<open>Properties\<close>

text \<open>
  C10. Error classes: whatever class body \<open>__init_subclass__\<close> accepts has a code of the documented
  form and, unless it is a built-in error, no reserved JSON-RPC code; the eight built-in errors are
  accepted with the codes of the specification.
\<close>
theorem error_class_checked:
  "(init_subclass b = Inr e \<longrightarrow> error_code_ok (ec_code e) \<and>
      (cb_builtin b = Some True \<or> ec_rpc_code e \<notin> set standard_codes
         \<and> \<not> (-32768 \<le> ec_rpc_code e \<and> ec_rpc_code e < -32099)))
   \<and> map (map_sum (\<lambda>_. ()) ec_rpc_code \<circ> init_subclass) builtin_error_bodies
      = map Inr [-32700, -32600, -32601, -32602, -32603, -32000, -32800, -32000]"
proof
  show "init_subclass b = Inr e \<longrightarrow> error_code_ok (ec_code e) \<and>
      (cb_builtin b = Some True \<or> ec_rpc_code e \<notin> set standard_codes
         \<and> \<not> (-32768 \<le> ec_rpc_code e \<and> ec_rpc_code e < -32099))"
    using init_subclass_Inr by blast
  show "map (map_sum (\<lambda>_. ()) ec_rpc_code \<circ> init_subclass) builtin_error_bodies
      = map Inr [-32700, -32600, -32601, -32602, -32603, -32000, -32800, -32000]"
    by code_simp
qed

lemma error_class_checked_witness:
  "\<exists>e. init_subclass body_RpcParseError = Inr e \<and> error_code_ok (ec_code e)"
proof -
  have "error_code_ok ''parse_error''" by (simp add: error_code_ok_def char_classes)
  then obtain e where "init_subclass body_RpcParseError = Inr e"
    unfolding body_RpcParseError_def by (subst (asm) builtin_body_defines) auto
  with error_class_checked show ?thesis by blast
qed

text \<open>
  C12. Derived codes: a class named in the usual way (an upper-case letter followed by letters, digits
  and underscores, with something left before the suffix \<open>Error\<close> or \<open>RpcError\<close>) gets a code that
  \<open>__init_subclass__\<close> accepts.
\<close>
theorem derived_code_valid:
  assumes "list_all (\<lambda>c. is_upper c \<or> is_lower c \<or> is_digit c \<or> c = CHR ''_'') (c # cs)" "is_upper c"
    and "remove_suffix ''Error'' (remove_suffix ''RpcError'' (c # cs)) \<noteq> []"
  shows "error_code_ok (error_code (c # cs))"
  by (rule error_code_ok_pascal [OF assms])

lemma derived_code_valid_witness:
  "error_code ''HTTPNotFoundError'' = ''http_not_found'' \<and> error_code_ok (error_code ''HTTPNotFoundError'')"
proof
  show "error_code ''HTTPNotFoundError'' = ''http_not_found''" by code_simp
  show "error_code_ok (error_code ''HTTPNotFoundError'')"
    by (rule derived_code_valid) code_simp+
qed

end
