(* ===== verification/Bindings.thy ===== *)
theory Bindings
  imports Errors
begin

text \<open>
  The rest of \<open>errors.py\<close>: \<open>RpcErrorBinding\<close>, which turns a domain exception into an RPC error and
  into a rejection, and the declarations of operations and channels that are built from bindings.
  A binding is identified by the error class it creates.
\<close>

section \<open>Bindings\<close>

datatype message_arg = MsgNone | MsgStr string | MsgFun "exc \<Rightarrow> exc + string option" | MsgBad

fun is_bad_message :: "message_arg \<Rightarrow> bool" where
  "is_bad_message MsgBad = True"
| "is_bad_message m = False"

record model_info =
  mi_class :: pyclass
  mi_required :: "(string \<times> bool) list"

text \<open>\<open>DtFun None\<close>: the annotations of the function cannot be resolved.\<close>

datatype details_decl =
    DtNone
  | DtType model_info
  | DtFun "pyclass option option" "exc \<Rightarrow> exc + details_arg"
  | DtBad

text \<open>
  What \<open>_check_details_fields\<close> reads of an exception class: the annotations and \<open>vars\<close> along its
  \<open>__mro__\<close>, and the parameters of \<open>__init__\<close> with whether they are variadic (\<open>None\<close>: no signature).
\<close>

record exception_info =
  xi_class :: pyclass
  xi_annotations :: "string list list"
  xi_vars :: "string list list"
  xi_init :: "(string \<times> bool) list option"

record contract =
  ct_exception :: pyclass
  ct_rejection :: "rejection option"
  ct_message :: message_arg
  ct_details :: details_decl
  ct_error :: error_class

definition details_attributes :: "exception_info \<Rightarrow> string list" where
  "details_attributes x =
     concat (xi_annotations x) @ concat (xi_vars x)
     @ (case xi_init x of None \<Rightarrow> []
        | Some ps \<Rightarrow> map fst (filter (\<lambda>p. fst p \<noteq> ''self'' \<and> \<not> snd p) ps))"

definition check_details_fields :: "exception_info \<Rightarrow> model_info \<Rightarrow> define_error + unit" where
  "check_details_fields x m =
     (let missing = map fst (filter (\<lambda>f. snd f \<and> fst f \<notin> set (details_attributes x)) (mi_required m))
      in raise_if (missing \<noteq> []) (MissingDetailsFields missing))"

definition details_type_of :: "details_decl \<Rightarrow> define_error + pyclass option" where
  "details_type_of d =
     (case d of
        DtNone \<Rightarrow> Inr None
      | DtType m \<Rightarrow>
          if issubclass (mi_class m) cls_BaseModel then Inr (Some (mi_class m)) else Inl BadBindingDetails
      | DtFun None f \<Rightarrow> Inl UnresolvedDetails
      | DtFun (Some None) f \<Rightarrow> Inl BadBindingDetails
      | DtFun (Some (Some c)) f \<Rightarrow>
          if issubclass c cls_BaseModel then Inr (Some c) else Inl BadBindingDetails
      | DtBad \<Rightarrow> Inl BadBindingDetails)"

definition binding_class_name :: "string \<Rightarrow> string" where
  "binding_class_name code = concat (map capitalize (split_on (CHR ''_'') code)) @ ''RpcError''"

text \<open>
  \<open>fresh\<close> is the identity of the class \<open>type(name, (RpcError,), namespace)\<close> creates. \<open>None\<close> for the
  exception is a value that is not a class; \<open>Some None\<close> for the rejection is not an \<open>RpcRejection\<close>.
\<close>

definition error_binding_init ::
  "nat \<Rightarrow> exception_info option \<Rightarrow> string option \<Rightarrow> message_arg \<Rightarrow> details_decl \<Rightarrow> int \<Rightarrow>
   rejection option option \<Rightarrow> define_error + contract" where
  "error_binding_init fresh exception code message details rpc_code rejection =
     (case exception of
        None \<Rightarrow> Inl BindsRpcError
      | Some x \<Rightarrow>
          rbind (raise_if (\<not> issubclass (xi_class x) cls_Exception \<or> issubclass (xi_class x) cls_RpcError)
                   BindsRpcError) (\<lambda>_.
          rbind (raise_if (is_bad_message message) BadBindingMessage) (\<lambda>_.
          rbind (raise_if (rejection = Some None) BadBindingRejection) (\<lambda>_.
          let code' = (case code of None \<Rightarrow> error_code (cls_name (xi_class x)) | Some c \<Rightarrow> c);
              name = binding_class_name code'
          in
          rbind (details_type_of details) (\<lambda>dt.
          rbind (case details of DtType m \<Rightarrow> check_details_fields x m | _ \<Rightarrow> Inr ()) (\<lambda>_.
          rbind (init_subclass
                   \<lparr>cb_class = \<lparr>cls_id = fresh, cls_name = name, cls_mro = fresh # cls_mro cls_RpcError\<rparr>,
                    cb_code = Some (Some code'), cb_rpc_code = Some (Some rpc_code),
                    cb_message = (case message of MsgStr s \<Rightarrow> Some s | _ \<Rightarrow> None),
                    cb_details = None, cb_details_type = Some dt, cb_builtin = None,
                    cb_base_details = None, cb_base_builtin = False\<rparr>) (\<lambda>e.
          Inr \<lparr>ct_exception = xi_class x,
               ct_rejection = (case rejection of Some r \<Rightarrow> r | None \<Rightarrow> None),
               ct_message = message, ct_details = details, ct_error = e\<rparr>)))))))"

definition message_for :: "contract \<Rightarrow> exc \<Rightarrow> exc + string" where
  "message_for c e =
     (case ct_message c of
        MsgFun f \<Rightarrow>
          rbind (f e) (\<lambda>m. case m of
             Some s \<Rightarrow> Inr s
           | None \<Rightarrow> Inl (type_error ''RPC error binding message must return a string''))
      | _ \<Rightarrow> Inr (ec_message (ct_error c)))"

text \<open>
  \<open>validate\<close> is \<open>details.model_validate(error, from_attributes=True, ...)\<close>, \<open>mk_model\<close> the model's
  constructor.
\<close>

definition to_error ::
  "(pyclass \<Rightarrow> exc \<Rightarrow> exc + model_value) \<Rightarrow> (pyclass \<Rightarrow> (string \<times> json) list \<Rightarrow> exc + model_value) \<Rightarrow>
   contract \<Rightarrow> exc \<Rightarrow> exc + rpc_error" where
  "to_error validate mk_model c e =
     (if \<not> exc_isinstance e (ct_exception c)
      then Inl (type_error (''Expected '' @ cls_name (ct_exception c) @ '', got '' @ cls_name (exc_class e)))
      else
        rbind
          (case ct_details c of
             DtType m \<Rightarrow> rbind (validate (mi_class m) e) (\<lambda>d. Inr (DetModel d))
           | DtFun r f \<Rightarrow> f e
           | _ \<Rightarrow> Inr DetNone) (\<lambda>data.
        rbind (message_for c e) (\<lambda>msg.
        rpc_error_init mk_model (ct_error c) data (Some msg) [])))"

definition binding_check ::
  "(pyclass \<Rightarrow> exc \<Rightarrow> exc + model_value) \<Rightarrow> (pyclass \<Rightarrow> (string \<times> json) list \<Rightarrow> exc + model_value) \<Rightarrow>
   contract \<Rightarrow> exc \<Rightarrow> exc + unit" where
  "binding_check validate mk_model c e = rbind (to_error validate mk_model c e) (\<lambda>_. Inr ())"

definition binding_reject :: "contract \<Rightarrow> exc \<Rightarrow> exc + rpc_reject option" where
  "binding_reject c e =
     (case ct_rejection c of
        None \<Rightarrow> Inr None
      | Some r \<Rightarrow>
          rbind (message_for c e) (\<lambda>m.
            Inr (Some \<lparr>rej_rejection = r, rej_reason = m, rej_headers = None\<rparr>)))"

lemma to_error_Inr:
  assumes "to_error validate mk_model c e = Inr r"
  shows "err_class r = ct_error c \<and> exc_isinstance e (ct_exception c)
    \<and> (\<exists>m. message_for c e = Inr m \<and> err_message r = (if m = [] then ec_message (ct_error c) else m))"
proof -
  from assms have inst: "exc_isinstance e (ct_exception c)"
    by (auto simp: to_error_def split: if_splits)
  with assms obtain data m where m: "message_for c e = Inr m"
    and init: "rpc_error_init mk_model (ct_error c) data (Some m) [] = Inr r"
    using inst unfolding to_error_def
    by (simp only: not_True_eq_False if_False) (simp only: rbind_eq_Inr, blast)
  from rpc_error_init_Inr [OF init] inst m show ?thesis by (cases m) auto
qed

section \<open>Declarations\<close>

datatype error_type = PlainError error_class | BoundError contract

fun error_info :: "error_type \<Rightarrow> error_class" where
  "error_info (PlainError e) = e"
| "error_info (BoundError c) = ct_error c"

definition type_id :: "error_type \<Rightarrow> nat" where
  "type_id t = cls_id (ec_class (error_info t))"

definition contract_id :: "contract \<Rightarrow> nat" where
  "contract_id c = cls_id (ec_class (ct_error c))"

fun contract_of :: "error_type \<Rightarrow> contract option" where
  "contract_of (PlainError e) = None"
| "contract_of (BoundError c) = Some c"

datatype error_decl = DeclBinding contract | DeclType error_type | DeclOther

definition declared_error :: "error_decl \<Rightarrow> define_error + error_type" where
  "declared_error d =
     (case d of
        DeclBinding c \<Rightarrow> Inr (BoundError c)
      | DeclOther \<Rightarrow> Inl NotAnErrorClass
      | DeclType t \<Rightarrow>
          if type_id t = cls_id cls_RpcError \<or> ec_builtin (error_info t) then Inl BuiltinDeclared
          else Inr t)"

text \<open>The bindings of one level, by the identity of the exception class they bind.\<close>

type_synonym bound = "(nat, contract) dict"

definition bind_contract :: "string \<Rightarrow> contract \<Rightarrow> bound \<Rightarrow> define_error + bound" where
  "bind_contract owner c b =
     (case map_of b (cls_id (ct_exception c)) of
        None \<Rightarrow> Inr (dict_setdefault (cls_id (ct_exception c)) c b)
      | Some previous \<Rightarrow>
          if contract_id previous \<noteq> contract_id c
          then Inl (BoundTwice owner (cls_name (ct_exception c)) (ec_code (ct_error previous))
                      (ec_code (ct_error c)))
          else Inr b)"

definition bind_contracts :: "contract list \<Rightarrow> string \<Rightarrow> define_error + bound" where
  "bind_contracts cs owner = fold_res (bind_contract owner) cs []"

definition map_error :: "('e \<Rightarrow> 'f) \<Rightarrow> 'e + 'a \<Rightarrow> 'f + 'a" where
  "map_error f r = (case r of Inl e \<Rightarrow> Inl (f e) | Inr x \<Rightarrow> Inr x)"

definition error_declarations :: "error_decl list \<Rightarrow> string \<Rightarrow> define_error + error_type list" where
  "error_declarations raises owner =
     rbind (map_error (Owned owner) (traverse declared_error raises)) (\<lambda>ts.
       let errors = fromkeys_by type_id ts
       in rbind (bind_contracts (List.map_filter contract_of errors) owner) (\<lambda>_. Inr errors))"

definition merge_error_declarations ::
  "error_type list \<Rightarrow> error_decl list \<Rightarrow> string \<Rightarrow> define_error + error_type list" where
  "merge_error_declarations inherited raises owner =
     rbind (error_declarations raises owner) (\<lambda>local.
       let overridden = map (\<lambda>c. cls_id (ct_exception c)) (List.map_filter contract_of local)
       in Inr (fromkeys_by type_id
            (filter (\<lambda>t. case contract_of t of
                           None \<Rightarrow> True
                         | Some c \<Rightarrow> cls_id (ct_exception c) \<notin> set overridden) inherited @ local)))"

definition contract_for :: "exc \<Rightarrow> bound \<Rightarrow> contract option" where
  "contract_for e b =
     (case find (\<lambda>k. dict_has k b) (cls_mro (exc_class e)) of
        None \<Rightarrow> None
      | Some k \<Rightarrow> map_of b k)"

datatype reject_item = RejBinding contract | RejObject nat

fun reject_item_id :: "reject_item \<Rightarrow> nat + nat" where
  "reject_item_id (RejBinding c) = Inl (contract_id c)"
| "reject_item_id (RejObject n) = Inr n"

definition rejecting_contracts :: "reject_item list \<Rightarrow> string \<Rightarrow> define_error + contract list" where
  "rejecting_contracts rejects owner =
     rbind (traverse (\<lambda>r. case r of
                        RejBinding c \<Rightarrow> if ct_rejection c = None then Inl (Owned owner RejectsNeedsRejection)
                                        else Inr c
                      | RejObject n \<Rightarrow> Inl (Owned owner RejectsNeedsRejection))
              (fromkeys_by reject_item_id rejects)) (\<lambda>cs.
     rbind (bind_contracts cs owner) (\<lambda>_. Inr cs))"

definition contract_reject :: "bound \<Rightarrow> exc \<Rightarrow> exc + rpc_reject option" where
  "contract_reject b e =
     (case contract_for e b of None \<Rightarrow> Inr None | Some c \<Rightarrow> binding_reject c e)"

definition contract_rejections :: "contract list \<Rightarrow> define_error + rejections option" where
  "contract_rejections cs =
     rbind (bind_contracts cs ''RPC error bindings'') (\<lambda>b.
       Inr (if b = [] then None else Some (RFun (contract_reject b))))"

section \<open>One binding per exception\<close>

definition bound_ok :: "bound \<Rightarrow> bool" where
  "bound_ok b = (distinct (map fst b) \<and> (\<forall>(k, c) \<in> set b. cls_id (ct_exception c) = k))"

lemma bind_contract_cases:
  assumes "bind_contract owner c b = Inr b'"
  obtains (fresh) "\<not> dict_has (cls_id (ct_exception c)) b" "b' = b @ [(cls_id (ct_exception c), c)]"
  | (again) d where "map_of b (cls_id (ct_exception c)) = Some d" "contract_id d = contract_id c" "b' = b"
  using assms
  by (auto simp: bind_contract_def dict_setdefault_def dict_has_map_of split: option.splits if_splits)

lemma bind_contract_ok:
  assumes "bind_contract owner c b = Inr b'" "bound_ok b"
  shows "bound_ok b' \<and> dict_has (cls_id (ct_exception c)) b'
    \<and> (\<forall>k. dict_has k b \<longrightarrow> dict_has k b') \<and> set (map snd b') \<subseteq> insert c (set (map snd b))"
  using assms(1)
proof (cases rule: bind_contract_cases)
  case fresh
  with assms(2) show ?thesis by (auto simp: bound_ok_def dict_has_iff)
next
  case (again d)
  with assms(2) show ?thesis by (auto simp: dict_has_map_of)
qed

lemma bind_contracts_fold:
  assumes "fold_res (bind_contract owner) cs b = Inr b'" "bound_ok b"
  shows "bound_ok b' \<and> (\<forall>c\<in>set cs. dict_has (cls_id (ct_exception c)) b')
    \<and> (\<forall>k. dict_has k b \<longrightarrow> dict_has k b') \<and> set (map snd b') \<subseteq> set cs \<union> set (map snd b)"
  using assms
proof (induction cs arbitrary: b)
  case Nil
  then show ?case by simp
next
  case (Cons c cs)
  then obtain b1 where b1: "bind_contract owner c b = Inr b1"
      "fold_res (bind_contract owner) cs b1 = Inr b'"
    by (auto simp: result_simps)
  note step = bind_contract_ok [OF b1(1) Cons.prems(2)]
  note IH = Cons.IH [OF b1(2) conjunct1 [OF step]]
  show ?case
  proof (intro conjI)
    show "bound_ok b'" using IH by (elim conjE)
    show "\<forall>c'\<in>set (c # cs). dict_has (cls_id (ct_exception c')) b'" using IH step by simp
    show "\<forall>k. dict_has k b \<longrightarrow> dict_has k b'" using IH step by simp
    have "set (map snd b') \<subseteq> set cs \<union> set (map snd b1)" using IH by (elim conjE)
    also have "set (map snd b1) \<subseteq> insert c (set (map snd b))" using step by (elim conjE)
    finally show "set (map snd b') \<subseteq> set (c # cs) \<union> set (map snd b)" by auto
  qed
qed

lemma bind_contracts_ok:
  "bind_contracts cs owner = Inr b \<Longrightarrow>
     bound_ok b \<and> (\<forall>c\<in>set cs. dict_has (cls_id (ct_exception c)) b) \<and> set (map snd b) \<subseteq> set cs"
  using bind_contracts_fold [of owner cs "[]" b] by (simp add: bind_contracts_def bound_ok_def)

text \<open>No two different bindings of a declaration bind the same exception.\<close>

definition one_per_exception :: "error_type list \<Rightarrow> bool" where
  "one_per_exception ts =
     (\<forall>s\<in>set ts. \<forall>t\<in>set ts. \<forall>c d. contract_of s = Some c \<longrightarrow> contract_of t = Some d \<longrightarrow>
        cls_id (ct_exception c) = cls_id (ct_exception d) \<longrightarrow> type_id s = type_id t)"

lemma contract_of_id: "contract_of t = Some c \<Longrightarrow> type_id t = contract_id c"
  by (cases t) (auto simp: type_id_def contract_id_def)

lemma bind_contracts_injective:
  assumes "fold_res (bind_contract owner) cs b = Inr b'"
  shows "(\<forall>c\<in>set cs. map_option contract_id (map_of b' (cls_id (ct_exception c))) = Some (contract_id c))
    \<and> (\<forall>k c. map_of b k = Some c \<longrightarrow> map_option contract_id (map_of b' k) = Some (contract_id c))"
  using assms
proof (induction cs arbitrary: b)
  case Nil
  then show ?case by simp
next
  case (Cons c cs)
  then obtain b1 where b1: "bind_contract owner c b = Inr b1"
      "fold_res (bind_contract owner) cs b1 = Inr b'"
    by (auto simp: result_simps)
  have old: "map_of b1 k = Some d" if "map_of b k = Some d" for k d
    using b1(1) that by (cases rule: bind_contract_cases) (auto simp: dict_simps map_add_def split: option.splits)
  have new: "\<exists>d. map_of b1 (cls_id (ct_exception c)) = Some d \<and> contract_id d = contract_id c"
    using b1(1)
    by (cases rule: bind_contract_cases) (auto simp: dict_simps map_add_def split: option.splits)
  from Cons.IH [OF b1(2)] old new show ?case by fastforce
qed

lemma error_declarations_ok:
  assumes "error_declarations raises owner = Inr ts"
  shows "distinct (map type_id ts) \<and> one_per_exception ts"
proof -
  from assms obtain b where b: "bind_contracts (List.map_filter contract_of ts) owner = Inr b"
    and d: "distinct (map type_id ts)"
    by (auto simp: error_declarations_def result_simps Let_def)
  have inj: "\<forall>c\<in>set (List.map_filter contract_of ts).
      map_option contract_id (map_of b (cls_id (ct_exception c))) = Some (contract_id c)"
    using b bind_contracts_injective [of owner _ "[]"] by (auto simp: bind_contracts_def)
  have "one_per_exception ts"
    unfolding one_per_exception_def
  proof (intro ballI allI impI)
    fix s t c d
    assume st: "s \<in> set ts" "t \<in> set ts" "contract_of s = Some c" "contract_of t = Some d"
      and same: "cls_id (ct_exception c) = cls_id (ct_exception d)"
    then have "c \<in> set (List.map_filter contract_of ts)" "d \<in> set (List.map_filter contract_of ts)"
      by (force simp: List.map_filter_def)+
    with inj same have "contract_id c = contract_id d" by (metis option.inject)
    with st show "type_id s = type_id t" by (simp add: contract_of_id)
  qed
  with d show ?thesis by blast
qed

lemma merge_error_declarations_ok:
  assumes "merge_error_declarations inherited raises owner = Inr ts" "one_per_exception inherited"
  shows "distinct (map type_id ts) \<and> one_per_exception ts"
proof -
  from assms obtain local where l: "error_declarations raises owner = Inr local"
    by (auto simp: merge_error_declarations_def result_simps)
  define kept where "kept = filter (\<lambda>t. case contract_of t of None \<Rightarrow> True
      | Some c \<Rightarrow> cls_id (ct_exception c) \<notin>
          set (map (\<lambda>c. cls_id (ct_exception c)) (List.map_filter contract_of local))) inherited"
  have ts: "ts = fromkeys_by type_id (kept @ local)"
    using assms(1) l by (simp add: merge_error_declarations_def kept_def)
  have local: "one_per_exception local" using error_declarations_ok [OF l] by blast
  have apart: "cls_id (ct_exception c) \<noteq> cls_id (ct_exception d)"
    if "s \<in> set kept" "t \<in> set local" "contract_of s = Some c" "contract_of t = Some d" for s t c d
  proof -
    have "d \<in> set (List.map_filter contract_of local)"
      using that by (force simp: List.map_filter_def)
    with that(1,3) show ?thesis by (auto simp: kept_def)
  qed
  have "set kept \<subseteq> set inherited" by (auto simp: kept_def)
  with assms(2) have "one_per_exception kept" by (meson one_per_exception_def subsetD)
  with local apart have "one_per_exception (kept @ local)"
    unfolding one_per_exception_def set_append by (metis Un_iff)
  then have "one_per_exception ts"
    unfolding one_per_exception_def ts using fromkeys_by_subset by (metis subsetD)
  then show ?thesis by (simp add: ts)
qed

lemma find_split:
  "find P xs = Some x \<Longrightarrow> \<exists>ys zs. xs = ys @ x # zs \<and> P x \<and> (\<forall>y\<in>set ys. \<not> P y)"
proof (induction xs)
  case Nil
  then show ?case by simp
next
  case (Cons a xs)
  show ?case
  proof (cases "P a")
    case True
    with Cons.prems show ?thesis by (intro exI [of _ "[]"] exI [of _ xs]) auto
  next
    case False
    with Cons obtain ys zs where "xs = ys @ x # zs" "P x" "\<forall>y\<in>set ys. \<not> P y" by auto
    with False show ?thesis by (intro exI [of _ "a # ys"] exI [of _ zs]) auto
  qed
qed

lemma contract_for_Some:
  assumes "contract_for e b = Some c" "bound_ok b"
  shows "exc_isinstance e (ct_exception c) \<and>
    (\<exists>ys zs. cls_mro (exc_class e) = ys @ cls_id (ct_exception c) # zs \<and> (\<forall>k\<in>set ys. \<not> dict_has k b))"
proof -
  from assms(1) obtain k where k: "find (\<lambda>k. dict_has k b) (cls_mro (exc_class e)) = Some k"
    and c: "map_of b k = Some c"
    by (auto simp: contract_for_def split: option.splits)
  have "cls_id (ct_exception c) = k" using assms(2) map_of_SomeD [OF c] by (auto simp: bound_ok_def)
  moreover from find_split [OF k] obtain ys zs where
    "cls_mro (exc_class e) = ys @ k # zs" "\<forall>y\<in>set ys. \<not> dict_has y b" by blast
  ultimately show ?thesis by (auto simp: exc_isinstance_def issubclass_def)
qed

lemma contract_for_None:
  "contract_for e b = None \<longleftrightarrow> (\<forall>k\<in>set (cls_mro (exc_class e)). \<not> dict_has k b)"
  by (auto simp: contract_for_def find_None_iff dict_has_map_of split: option.splits dest: find_split)

section \<open>Properties\<close>

text \<open>
  Declarations of an operation: merging the declarations of its channel with its own keeps every
  error once and at most one binding for each exception; an inherited binding stays exactly when
  the operation does not bind its exception again, and every declaration of the operation is kept.
\<close>
theorem merged_declarations:
  assumes "merge_error_declarations inherited raises owner = Inr ts" "one_per_exception inherited"
  shows "distinct (map type_id ts) \<and> one_per_exception ts
    \<and> (\<exists>own. error_declarations raises owner = Inr own \<and> type_id ` set own \<subseteq> type_id ` set ts
        \<and> (\<forall>t\<in>set inherited. \<forall>c. contract_of t = Some c \<longrightarrow>
             (\<forall>d\<in>set (List.map_filter contract_of own). cls_id (ct_exception d) \<noteq> cls_id (ct_exception c)) \<longrightarrow>
             type_id t \<in> type_id ` set ts))"
proof -
  from assms(1) obtain own where own: "error_declarations raises owner = Inr own"
    by (auto simp: merge_error_declarations_def result_simps)
  define kept where "kept = filter (\<lambda>t. case contract_of t of None \<Rightarrow> True
      | Some c \<Rightarrow> cls_id (ct_exception c) \<notin>
          set (map (\<lambda>c. cls_id (ct_exception c)) (List.map_filter contract_of own))) inherited"
  have ts: "ts = fromkeys_by type_id (kept @ own)"
    using assms(1) own by (simp add: merge_error_declarations_def kept_def)
  have ids: "type_id ` set ts = type_id ` set kept \<union> type_id ` set own" by (simp add: ts image_Un)
  have "type_id t \<in> type_id ` set ts"
    if "t \<in> set inherited" "contract_of t = Some c"
      "\<forall>d\<in>set (List.map_filter contract_of own). cls_id (ct_exception d) \<noteq> cls_id (ct_exception c)" for t c
    using that ids by (force simp: kept_def)
  with own ids merge_error_declarations_ok [OF assms] show ?thesis by blast
qed

lemma merged_declarations_witness:
  "merge_error_declarations [] [] [] = Inr [] \<and> distinct (map type_id ([] :: error_type list))"
proof -
  have m: "merge_error_declarations [] [] [] = Inr []"
    by (simp add: merge_error_declarations_def error_declarations_def map_error_def bind_contracts_def
        List.map_filter_def)
  have "one_per_exception []" by (simp add: one_per_exception_def)
  from merged_declarations [OF m this] m show ?thesis by blast
qed

text \<open>
  C9. The binding that answers an exception: \<open>contract_for\<close> picks the one bound to the first class of
  the exception's MRO that is bound at all, so the most specific one, and finds none exactly when
  no class of the MRO is bound.
\<close>
theorem most_specific_binding:
  assumes "bind_contracts cs owner = Inr b"
  shows "(case contract_for e b of
      None \<Rightarrow> \<forall>c\<in>set cs. \<not> exc_isinstance e (ct_exception c)
    | Some c \<Rightarrow> c \<in> set cs \<and> exc_isinstance e (ct_exception c) \<and>
        (\<exists>ys zs. cls_mro (exc_class e) = ys @ cls_id (ct_exception c) # zs \<and>
           (\<forall>d\<in>set cs. cls_id (ct_exception d) \<notin> set ys)))"
proof -
  note b = bind_contracts_ok [OF assms]
  show ?thesis
  proof (cases "contract_for e b")
    case None
    then have "\<forall>k\<in>set (cls_mro (exc_class e)). \<not> dict_has k b" by (simp add: contract_for_None)
    with b None show ?thesis by (auto simp: exc_isinstance_def issubclass_def)
  next
    case (Some c)
    from contract_for_Some [OF Some] b obtain ys zs where
      ys: "exc_isinstance e (ct_exception c)" "cls_mro (exc_class e) = ys @ cls_id (ct_exception c) # zs"
      "\<forall>k\<in>set ys. \<not> dict_has k b" by blast
    from Some obtain k where "map_of b k = Some c" by (auto simp: contract_for_def split: option.splits)
    then have "c \<in> set (map snd b)" by (auto dest: map_of_SomeD intro: rev_image_eqI)
    with b have "c \<in> set cs" by blast
    moreover have "\<forall>d\<in>set cs. cls_id (ct_exception d) \<notin> set ys" using b ys(3) by blast
    ultimately show ?thesis using Some ys(1,2) by auto
  qed
qed

lemma most_specific_binding_witness:
  "contract_for (PlainExc cls_ValueError []) [] = None"
proof -
  have "bind_contracts [] [] = Inr []" by (simp add: bind_contracts_def)
  from most_specific_binding [OF this, of "PlainExc cls_ValueError []"] show ?thesis
    by (auto simp: contract_for_def split: option.splits)
qed

end
