(* ===== verification/Envelopes.thy ===== *)
theory Envelopes
  imports Bindings
begin

text \<open>
  \<open>envelopes.py\<close>, \<open>request_metadata.py\<close> and \<open>codec.py\<close>: the messages on the wire. Pydantic's
  validation of \<open>RpcRequestEnvelope\<close> is translated from the class: which keys it allows, which
  types, and the \<open>meta\<close> validator, which also runs for an explicit \<open>null\<close>.

  Values of results and payloads have a type \<open>'v\<close>; how Pydantic dumps them is a parameter.
\<close>

section \<open>Writing JSON\<close>

text \<open>\<open>json.dumps(value, separators=(",", ":"), ensure_ascii=False)\<close>.\<close>

definition hex_char :: "nat \<Rightarrow> char" where
  "hex_char n = (if n < 10 then char_of (48 + n) else char_of (87 + n))"

definition json_escape_char :: "char \<Rightarrow> string" where
  "json_escape_char c =
     (let b = byte_of c in
      if b = 34 then [char_of (92 :: nat), c]
      else if b = 92 then [c, c]
      else if b = 10 then char_of (92 :: nat) # ''n''
      else if b = 13 then char_of (92 :: nat) # ''r''
      else if b = 9 then char_of (92 :: nat) # ''t''
      else if b = 12 then char_of (92 :: nat) # ''f''
      else if b = 8 then char_of (92 :: nat) # ''b''
      else if b < 32 then char_of (92 :: nat) # ''u00'' @ [hex_char (b div 16), hex_char (b mod 16)]
      else [c])"

definition json_quote :: "string \<Rightarrow> string" where
  "json_quote s = CHR 0x22 # concat (map json_escape_char s) @ [CHR 0x22]"

fun json_dumps :: "json \<Rightarrow> string" where
  "json_dumps JNull = ''null''"
| "json_dumps (JBool b) = (if b then ''true'' else ''false'')"
| "json_dumps (JInt i) = int_str i"
| "json_dumps (JFloat t) = t"
| "json_dumps (JStr s) = json_quote s"
| "json_dumps (JArr xs) = CHR 0x5B # join '','' (map json_dumps xs) @ [CHR 0x5D]"
| "json_dumps (JObj m) =
     CHR 0x7B # join '','' (map (\<lambda>p. json_quote (fst p) @ CHR 0x3A # json_dumps (snd p)) m) @ [CHR 0x7D]"

section \<open>Request metadata\<close>

definition metadata_keys :: "string list" where
  "metadata_keys = [''traceparent'', ''tracestate'', ''baggage'']"

definition metadata_max_bytes :: nat where
  "metadata_max_bytes = 4096"

datatype metadata_error = MetaNotStrings | MetaNotUnicode | MetaTooLong

fun is_jstr :: "json \<Rightarrow> bool" where
  "is_jstr (JStr s) = True"
| "is_jstr j = False"

fun jstr_val :: "json \<Rightarrow> string" where
  "jstr_val (JStr s) = s"
| "jstr_val j = []"

text \<open>A \<open>str\<close> with a lone surrogate is the one whose bytes are not well-formed UTF-8.\<close>

definition validate_metadata :: "json \<Rightarrow> metadata_error + (string, string) dict" where
  "validate_metadata v =
     (case v of
        JObj m \<Rightarrow>
          if list_ex (\<lambda>p. fst p \<notin> set metadata_keys \<or> \<not> is_jstr (snd p)) m then Inl MetaNotStrings
          else if list_ex (\<lambda>p. \<not> utf8_valid (jstr_val (snd p))) m then Inl MetaNotUnicode
          else if metadata_max_bytes < length (json_dumps v) then Inl MetaTooLong
          else Inr (map (\<lambda>p. (fst p, jstr_val (snd p))) m)
      | _ \<Rightarrow> Inl MetaNotStrings)"

definition observed_metadata :: "json \<Rightarrow> (string, string) dict option" where
  "observed_metadata request =
     (case obj_get request ''meta'' of
        None \<Rightarrow> None
      | Some m \<Rightarrow> (case validate_metadata m of Inl _ \<Rightarrow> None | Inr d \<Rightarrow> Some d))"

lemma validate_metadata_Inr:
  assumes "validate_metadata v = Inr d"
  shows "set (dict_keys d) \<subseteq> set metadata_keys \<and> list_all (\<lambda>p. utf8_valid (snd p)) d
    \<and> length (json_dumps (JObj (map (\<lambda>p. (fst p, JStr (snd p))) d))) \<le> metadata_max_bytes"
proof -
  from assms obtain m where v: "v = JObj m"
    and keys: "\<not> list_ex (\<lambda>p. fst p \<notin> set metadata_keys \<or> \<not> is_jstr (snd p)) m"
    and uni: "\<not> list_ex (\<lambda>p. \<not> utf8_valid (jstr_val (snd p))) m"
    and size: "length (json_dumps v) \<le> metadata_max_bytes"
    and d: "d = map (\<lambda>p. (fst p, jstr_val (snd p))) m"
    by (auto simp: validate_metadata_def simp del: json_dumps.simps split: json.splits if_splits)
  have "(fst p, JStr (jstr_val (snd p))) = p" if "p \<in> set m" for p
    using keys that by (cases p; cases "snd p") (auto simp: list_ex_iff)
  then have "map (\<lambda>p. (fst p, JStr (snd p))) d = m"
    by (simp add: d comp_def map_idI)
  then show ?thesis
    using keys uni size v by (auto simp: d list_ex_iff list_all_iff simp del: json_dumps.simps)
qed

section \<open>Requests\<close>

datatype request_id = IdStr string | IdInt int | IdNull

fun id_json :: "request_id \<Rightarrow> json" where
  "id_json (IdStr s) = JStr s"
| "id_json (IdInt i) = JInt i"
| "id_json IdNull = JNull"

text \<open>\<open>StrictStr | StrictInt | None\<close>: neither a \<open>bool\<close> nor a \<open>float\<close>.\<close>

fun strict_id :: "json \<Rightarrow> request_id option" where
  "strict_id (JStr s) = Some (IdStr s)"
| "strict_id (JInt i) = Some (IdInt i)"
| "strict_id JNull = Some IdNull"
| "strict_id j = None"

datatype params = Named "(string \<times> json) list" | Positional "json list"

fun parse_params :: "json \<Rightarrow> params option" where
  "parse_params (JObj m) = Some (Named m)"
| "parse_params (JArr xs) = Some (Positional xs)"
| "parse_params j = None"

record request_envelope =
  env_id :: request_id
  env_has_id :: bool
  env_method :: string
  env_params :: params
  env_meta :: "(string, string) dict option"

definition expects_response :: "request_envelope \<Rightarrow> bool" where
  "expects_response e = env_has_id e"

definition envelope_keys :: "string list" where
  "envelope_keys = [''jsonrpc'', ''id'', ''method'', ''params'', ''meta'']"

text \<open>\<open>RpcRequestEnvelope.model_validate\<close>: \<open>None\<close> is the \<open>ValidationError\<close>.\<close>

definition validate_envelope :: "json \<Rightarrow> request_envelope option" where
  "validate_envelope raw =
     (case raw of
        JObj m \<Rightarrow>
          if \<not> set (map fst m) \<subseteq> set envelope_keys \<or> map_of m ''jsonrpc'' \<noteq> Some (JStr ''2.0'') then None
          else
            (case (case map_of m ''id'' of None \<Rightarrow> Some IdNull | Some j \<Rightarrow> strict_id j,
                   map_of m ''method'',
                   case map_of m ''params'' of None \<Rightarrow> Some (Named []) | Some j \<Rightarrow> parse_params j,
                   case map_of m ''meta'' of
                     None \<Rightarrow> Some None
                   | Some j \<Rightarrow> (case validate_metadata j of Inl _ \<Rightarrow> None | Inr d \<Rightarrow> Some (Some d))) of
               (Some i, Some (JStr name), Some ps, Some meta) \<Rightarrow>
                 Some \<lparr>env_id = i, env_has_id = (map_of m ''id'' \<noteq> None), env_method = name,
                       env_params = ps, env_meta = meta\<rparr>
             | _ \<Rightarrow> None)
      | _ \<Rightarrow> None)"

lemma validate_envelope_Some:
  assumes "validate_envelope raw = Some e"
  shows "obj_get raw ''jsonrpc'' = Some (JStr ''2.0'') \<and> obj_get raw ''method'' = Some (JStr (env_method e))
    \<and> env_has_id e = has_key ''id'' raw
    \<and> (case obj_get raw ''id'' of None \<Rightarrow> env_id e = IdNull | Some j \<Rightarrow> strict_id j = Some (env_id e))
    \<and> set (obj_keys raw) \<subseteq> set envelope_keys \<and> is_obj raw"
  using assms
  by (auto simp: validate_envelope_def has_key_def split: json.splits if_splits option.splits sum.splits)

section \<open>Responses and notifications\<close>

text \<open>\<open>None\<close> for an annotation: the value is dumped as it is.\<close>

datatype 'v response =
    RpcSuccess request_id 'v "nat option"
  | RpcFailure request_id rpc_error

fun response_id :: "'v response \<Rightarrow> request_id" where
  "response_id (RpcSuccess i v a) = i"
| "response_id (RpcFailure i e) = i"

fun is_failure :: "'v response \<Rightarrow> bool" where
  "is_failure (RpcFailure i e) = True"
| "is_failure r = False"

fun response_error :: "'v response \<Rightarrow> rpc_error option" where
  "response_error (RpcFailure i e) = Some e"
| "response_error r = None"

definition error_json :: "rpc_error \<Rightarrow> json" where
  "error_json e =
     JObj [(''code'', JInt (ec_rpc_code (err_class e))), (''message'', JStr (err_message e)),
           (''data'', JObj [(''code'', JStr (ec_code (err_class e))),
                            (''details'', case err_details e of None \<Rightarrow> JNull | Some d \<Rightarrow> mv_json d)])]"

fun response_json :: "(nat option \<Rightarrow> 'v \<Rightarrow> exc + json) \<Rightarrow> 'v response \<Rightarrow> exc + json" where
  "response_json dump (RpcSuccess i v a) =
     rbind (dump a v) (\<lambda>j.
       Inr (JObj [(''jsonrpc'', JStr ''2.0''), (''id'', id_json i), (''result'', j)]))"
| "response_json dump (RpcFailure i e) =
     Inr (JObj [(''jsonrpc'', JStr ''2.0''), (''id'', id_json i), (''error'', error_json e)])"

record 'v notification =
  nt_method :: string
  nt_params :: 'v
  nt_annotation :: "nat option"

definition notification_json :: "(nat option \<Rightarrow> 'v \<Rightarrow> exc + json) \<Rightarrow> 'v notification \<Rightarrow> exc + json" where
  "notification_json dump n =
     rbind (dump (nt_annotation n) (nt_params n)) (\<lambda>j.
       Inr (JObj [(''jsonrpc'', JStr ''2.0''), (''method'', JStr (nt_method n)), (''params'', j)]))"

text \<open>\<open>RpcCodec\<close>: \<open>loads\<close> is \<open>json.loads\<close>, \<open>None\<close> where it raises.\<close>

definition codec_decode :: "('f \<Rightarrow> json option) \<Rightarrow> 'f \<Rightarrow> rpc_error + json" where
  "codec_decode loads frame = (case loads frame of None \<Rightarrow> Inl err_parse | Some j \<Rightarrow> Inr j)"

definition codec_encode_one :: "(nat option \<Rightarrow> 'v \<Rightarrow> exc + json) \<Rightarrow> 'v response \<Rightarrow> exc + string" where
  "codec_encode_one dump r = rbind (response_json dump r) (\<lambda>j. Inr (json_dumps j))"

definition codec_encode_batch :: "(nat option \<Rightarrow> 'v \<Rightarrow> exc + json) \<Rightarrow> 'v response list \<Rightarrow> exc + string" where
  "codec_encode_batch dump rs = rbind (traverse (response_json dump) rs) (\<lambda>js. Inr (json_dumps (JArr js)))"

end
