(* ===== verification/Protocol.thy ===== *)
theory Protocol
  imports Envelopes
begin

text \<open>
  \<open>protocol.py\<close> with the parts of \<open>dependencies.py\<close> and \<open>wire.py\<close> it uses: what a declared Python
  function becomes. A function is the descriptor \<open>inspect\<close> and \<open>typing\<close> give of it: its parameters
  with their kinds, resolved annotations and defaults, its return annotation and whether it is a
  coroutine function or an asynchronous generator.

  What Pydantic answers (a wire model for a user model, a schema, the constant of a \<open>type\<close> field, a
  model of path variables) is the record \<open>pydantic\<close>.
\<close>

section \<open>Annotations and functions\<close>

definition cls_NoneType :: pyclass where
  "cls_NoneType = builtin_class 6 ''NoneType'' [0]"

definition cls_bytes :: pyclass where
  "cls_bytes = builtin_class 7 ''bytes'' [0]"

definition cls_RpcBinaryInput :: pyclass where
  "cls_RpcBinaryInput = builtin_class 40 ''RpcBinaryInput'' [0]"

definition cls_RpcBinaryOutput :: pyclass where
  "cls_RpcBinaryOutput = builtin_class 41 ''RpcBinaryOutput'' [0]"

definition cls_RpcRawSocket :: pyclass where
  "cls_RpcRawSocket = builtin_class 42 ''RpcRawSocket'' [0]"

text \<open>Metadata 0 of \<open>Annotated\<close> is the marker \<open>_INJECT\<close>.\<close>

datatype ann =
    AnnClass pyclass
  | AnnInject ann
  | AnnAnnotated ann "nat list"
  | AnnUnion "ann list"
  | AnnAsyncIter ann
  | AnnList ann
  | AnnSet ann
  | AnnFrozenSet ann
  | AnnDict ann ann
  | AnnTuple "ann list"
  | AnnAlias ann
  | AnnOther nat

datatype param_kind = PositionalOnly | PositionalOrKeyword | VarPositional | KeywordOnly | VarKeyword

record param =
  pr_name :: string
  pr_kind :: param_kind
  pr_ann :: "ann option"
  pr_default :: bool

datatype fn_kind = AsyncGenFunction | CoroutineFunction | PlainFunction

record pyfun =
  fn_name :: string
  fn_qualname :: string
  fn_params :: "param list"
  fn_return :: "ann option"
  fn_kind :: fn_kind
  fn_doc :: "string option"
  fn_is_function :: bool

fun is_model :: "ann \<Rightarrow> bool" where
  "is_model (AnnClass c) = issubclass c cls_BaseModel"
| "is_model a = False"

fun is_async_iter :: "ann \<Rightarrow> bool" where
  "is_async_iter (AnnAsyncIter a) = True"
| "is_async_iter a = False"

fun iter_payload :: "ann \<Rightarrow> ann" where
  "iter_payload (AnnAsyncIter a) = a"
| "iter_payload a = a"

record pydantic =
  py_wire_model :: "pyclass \<Rightarrow> pyclass"
  py_schema :: "ann \<Rightarrow> bool"
  py_type_const :: "pyclass \<Rightarrow> json option"
  py_path_model :: "(string \<times> ann \<times> bool) list \<Rightarrow> bool"

text \<open>\<open>wire_annotation\<close>: the same shape, with every model replaced by its wire model.\<close>

fun wire_annotation :: "pydantic \<Rightarrow> ann \<Rightarrow> ann" where
  "wire_annotation py (AnnClass c) =
     (if issubclass c cls_BaseModel then AnnClass (py_wire_model py c) else AnnClass c)"
| "wire_annotation py (AnnAnnotated a ms) = AnnAnnotated (wire_annotation py a) ms"
| "wire_annotation py (AnnUnion as) = AnnUnion (map (wire_annotation py) as)"
| "wire_annotation py (AnnList a) = AnnList (wire_annotation py a)"
| "wire_annotation py (AnnSet a) = AnnSet (wire_annotation py a)"
| "wire_annotation py (AnnFrozenSet a) = AnnFrozenSet (wire_annotation py a)"
| "wire_annotation py (AnnDict a b) = AnnDict (wire_annotation py a) (wire_annotation py b)"
| "wire_annotation py (AnnTuple as) = AnnTuple (map (wire_annotation py) as)"
| "wire_annotation py a = a"

datatype def_error =
    NameInvalid string string
  | NoNameOrNamespace
  | EmptyName
  | AlreadyFrozen string
  | DuplicateRoute string
  | DuplicateDefinition string string
  | NotFreeFunction
  | NotAsync string
  | BadTimeout
  | BadDecoratorArg
  | BadOnError
  | EmptyContentType
  | BadMessageTypes
  | NoMessageTypes
  | ParamNeedsAnnotation string
  | InjectNotClass string
  | InjectedByName string
  | InjectedDefault string
  | WireParameters "string list"
  | NeedsReturn
  | NotAsyncGenerator
  | NotAsyncIterator
  | YieldsOther
  | EventTakesParams
  | PayloadNotModel
  | UnionNeedsType
  | NoSchema
  | ParamsNotModel
  | InjectedTwice string
  | GeneratorInjects
  | StreamNotBytes
  | StreamInjectsNothing
  | MustReturnNone
  | InputTypeWithoutInput
  | RawSocketOnce
  | PathByName string
  | PathNotScalar "string list"
  | ClientBinding
  | Declares define_error

section \<open>Injected and wire parameters\<close>

record injected =
  ij_name :: string
  ij_dependency :: pyclass

fun injected_parameter :: "string \<Rightarrow> ann \<Rightarrow> def_error + injected option" where
  "injected_parameter n (AnnInject (AnnClass c)) = Inr (Some \<lparr>ij_name = n, ij_dependency = c\<rparr>)"
| "injected_parameter n (AnnInject a) = Inl (InjectNotClass n)"
| "injected_parameter n (AnnAnnotated a ms) =
     (if 0 \<notin> set ms then Inr None
      else case a of
             AnnClass c \<Rightarrow> Inr (Some \<lparr>ij_name = n, ij_dependency = c\<rparr>)
           | _ \<Rightarrow> Inl (InjectNotClass n))"
| "injected_parameter n a = Inr None"

definition split_parameter :: "param \<Rightarrow> def_error + (injected + param)" where
  "split_parameter p =
     (case pr_ann p of
        None \<Rightarrow> Inl (ParamNeedsAnnotation (pr_name p))
      | Some a \<Rightarrow>
          rbind (injected_parameter (pr_name p) a) (\<lambda>d.
            case d of
              None \<Rightarrow> Inr (Inr p)
            | Some i \<Rightarrow>
                if pr_kind p \<in> {PositionalOnly, VarPositional, VarKeyword} then Inl (InjectedByName (pr_name p))
                else if pr_default p then Inl (InjectedDefault (pr_name p))
                else Inr (Inl i)))"

fun lefts :: "('a + 'b) list \<Rightarrow> 'a list" where
  "lefts [] = []"
| "lefts (Inl x # xs) = x # lefts xs"
| "lefts (Inr y # xs) = lefts xs"

fun rights :: "('a + 'b) list \<Rightarrow> 'b list" where
  "rights [] = []"
| "rights (Inl x # xs) = rights xs"
| "rights (Inr y # xs) = y # rights xs"

definition split_parameters :: "pyfun \<Rightarrow> def_error + injected list \<times> param list" where
  "split_parameters f =
     rbind (traverse split_parameter (fn_params f)) (\<lambda>xs. Inr (lefts xs, rights xs))"

lemma split_partition: "length (lefts xs) + length (rights xs) = length xs"
  by (induction xs rule: lefts.induct) auto

lemma split_parameters_partition:
  "split_parameters f = Inr (is, ws) \<Longrightarrow> length is + length ws = length (fn_params f)"
  by (auto simp: split_parameters_def result_simps split_partition dest: traverse_Inr_length)

definition router_params_model ::
  "pydantic \<Rightarrow> pyfun \<Rightarrow> def_error + ann option \<times> string option \<times> injected list" where
  "router_params_model py f =
     rbind (split_parameters f) (\<lambda>(inj, wire).
       case wire of
         [] \<Rightarrow> Inr (None, None, inj)
       | [p] \<Rightarrow>
           if pr_kind p = PositionalOrKeyword \<and> is_model (the (pr_ann p))
           then Inr (Some (wire_annotation py (the (pr_ann p))), Some (pr_name p), inj)
           else Inl (WireParameters [pr_name p])
       | ps \<Rightarrow> Inl (WireParameters (map pr_name ps)))"

section \<open>Definitions\<close>

record method_def =
  md_name :: string
  md_handler_name :: string
  md_request_name :: string
  md_params :: "ann option"
  md_result :: ann
  md_summary :: "string option"
  md_raises :: "error_type list"
  md_server :: "string option"
  md_function :: "pyfun option"
  md_injected :: "injected list"
  md_scope :: "nat option"
  md_params_parameter :: "string option"
  md_params_origin :: "ann option"
  md_timeout :: "rat option"
  md_has_timeout :: bool
  md_idempotent :: bool

record client_method_def =
  cm_name :: string
  cm_params :: "ann option"
  cm_result :: ann
  cm_summary :: "string option"
  cm_raises :: "error_type list"
  cm_server :: "string option"

record notification_def =
  nd_name :: string
  nd_payload :: ann
  nd_summary :: "string option"
  nd_server :: "string option"
  nd_function :: "pyfun option"
  nd_injected :: "injected list"
  nd_on_error :: string
  nd_raises :: "error_type list"

record subscription_def =
  sd_name :: string
  sd_params :: "ann option"
  sd_payload :: ann
  sd_function :: pyfun
  sd_injected :: "injected list"
  sd_params_parameter :: "string option"
  sd_params_origin :: "ann option"
  sd_scope :: nat
  sd_summary :: "string option"
  sd_server :: "string option"
  sd_raises :: "error_type list"

datatype stream_direction = ServerToClient | ClientToServer | Bidirectional

record stream_def =
  st_name :: string
  st_function :: pyfun
  st_content_type :: string
  st_summary :: "string option"
  st_injected :: "injected list"
  st_scope :: nat
  st_server :: "string option"
  st_direction :: stream_direction
  st_input_content_type :: "string option"
  st_path_parameters :: "string list"
  st_path_model :: "(string \<times> ann \<times> bool) list option"

definition has_input :: "stream_def \<Rightarrow> bool" where
  "has_input s = (st_direction s \<noteq> ServerToClient)"

definition is_generator :: "stream_def \<Rightarrow> bool" where
  "is_generator s = (fn_kind (st_function s) = AsyncGenFunction)"

datatype message_type = TextMessage | BinaryMessage

record raw_socket_def =
  rd_name :: string
  rd_function :: pyfun
  rd_messages :: "message_type list"
  rd_summary :: "string option"
  rd_injected :: "injected list"
  rd_scope :: nat
  rd_closes :: "contract list"
  rd_server :: "string option"
  rd_path_parameters :: "string list"
  rd_path_model :: "(string \<times> ann \<times> bool) list option"

record notification_type_def =
  nt_name :: string
  nt_payload :: pyclass

text \<open>\<open>"".join(part.capitalize() for part in value.split("_"))\<close>.\<close>

definition pascal_case :: "string \<Rightarrow> string" where
  "pascal_case v = concat (map capitalize (split_on (CHR ''_'') v))"

definition result_annotation :: "pyfun \<Rightarrow> def_error + ann" where
  "result_annotation f = (case fn_return f of None \<Rightarrow> Inl NeedsReturn | Some a \<Rightarrow> Inr a)"

definition param_annotation :: "pyfun \<Rightarrow> string \<Rightarrow> ann option" where
  "param_annotation f n = Option.bind (find (\<lambda>p. pr_name p = n) (fn_params f)) pr_ann"

definition method_definition ::
  "pydantic \<Rightarrow> string \<Rightarrow> pyfun \<Rightarrow> string \<Rightarrow> string option \<Rightarrow> error_type list \<Rightarrow> string option \<Rightarrow> nat \<Rightarrow>
   rat option \<Rightarrow> bool \<Rightarrow> bool \<Rightarrow> string option \<Rightarrow> def_error + method_def" where
  "method_definition py name f handler summary raises server scope timeout has_timeout idempotent request =
     rbind (router_params_model py f) (\<lambda>(params, params_parameter, inj).
     rbind (result_annotation f) (\<lambda>result.
     Inr \<lparr>md_name = name, md_handler_name = handler,
          md_request_name =
            (case request of Some (c # cs) \<Rightarrow> c # cs | _ \<Rightarrow> pascal_case handler @ ''Request''),
          md_params = params, md_result = wire_annotation py result, md_summary = summary,
          md_raises = raises, md_server = server, md_function = Some f, md_injected = inj,
          md_scope = Some scope, md_params_parameter = params_parameter,
          md_params_origin = Option.bind params_parameter (param_annotation f),
          md_timeout = timeout, md_has_timeout = has_timeout, md_idempotent = idempotent\<rparr>))"

text \<open>A result \<open>None\<close> stands for \<open>type(None)\<close>.\<close>

definition client_method_definition ::
  "pydantic \<Rightarrow> string \<Rightarrow> ann option \<Rightarrow> ann option \<Rightarrow> string option \<Rightarrow> error_type list \<Rightarrow>
   def_error + client_method_def" where
  "client_method_definition py name params result summary raises =
     rbind (raise_if (case params of None \<Rightarrow> False | Some a \<Rightarrow> \<not> is_model a) ParamsNotModel) (\<lambda>_.
     let r = (case result of None \<Rightarrow> AnnClass cls_NoneType | Some a \<Rightarrow> a) in
     rbind (raise_if (\<not> py_schema py r) NoSchema) (\<lambda>_.
     Inr \<lparr>cm_name = name, cm_params = map_option (wire_annotation py) params,
          cm_result = wire_annotation py r, cm_summary = summary, cm_raises = raises,
          cm_server = None\<rparr>))"

fun strip_alias :: "ann \<Rightarrow> ann" where
  "strip_alias (AnnAlias a) = a"
| "strip_alias a = a"

fun strip_annotated :: "ann \<Rightarrow> ann" where
  "strip_annotated (AnnAnnotated a ms) = a"
| "strip_annotated a = a"

fun union_members :: "ann \<Rightarrow> ann list" where
  "union_members (AnnUnion as) = as"
| "union_members a = [a]"

fun ann_class :: "ann \<Rightarrow> pyclass option" where
  "ann_class (AnnClass c) = (if issubclass c cls_BaseModel then Some c else None)"
| "ann_class a = None"

definition notification_message_types :: "ann \<Rightarrow> def_error + pyclass list" where
  "notification_message_types a =
     traverse (\<lambda>m. case ann_class m of None \<Rightarrow> Inl PayloadNotModel | Some c \<Rightarrow> Inr c)
       (union_members (strip_annotated (strip_alias a)))"

definition notification_type_definitions :: "pydantic \<Rightarrow> ann \<Rightarrow> def_error + notification_type_def list" where
  "notification_type_definitions py a =
     rbind (notification_message_types a) (\<lambda>messages.
     rbind (traverse (\<lambda>c. case py_type_const py c of
                        Some (JStr name) \<Rightarrow> Inr (Some \<lparr>nt_name = name, nt_payload = c\<rparr>)
                      | _ \<Rightarrow> if length messages = 1 then Inr None else Inl UnionNeedsType) messages) (\<lambda>ds.
     Inr (List.map_filter (\<lambda>d. d) ds)))"

definition notification_definition ::
  "pydantic \<Rightarrow> string \<Rightarrow> ann option \<Rightarrow> pyfun \<Rightarrow> string option \<Rightarrow> string option \<Rightarrow> string \<Rightarrow>
   error_type list \<Rightarrow> def_error + notification_def" where
  "notification_definition py name payload f summary server on_error raises =
     rbind (raise_if (fn_kind f \<noteq> AsyncGenFunction) NotAsyncGenerator) (\<lambda>_.
     rbind (result_annotation f) (\<lambda>result.
     rbind (raise_if (\<not> is_async_iter result) NotAsyncIterator) (\<lambda>_.
     let yielded = iter_payload result; p = (case payload of None \<Rightarrow> yielded | Some a \<Rightarrow> a) in
     rbind (raise_if (yielded \<noteq> p) YieldsOther) (\<lambda>_.
     rbind (router_params_model py f) (\<lambda>(params, _, inj).
     rbind (raise_if (params \<noteq> None) EventTakesParams) (\<lambda>_.
     Inr \<lparr>nd_name = name, nd_payload = p, nd_summary = summary, nd_server = server,
          nd_function = Some f, nd_injected = inj, nd_on_error = on_error, nd_raises = raises\<rparr>))))))"

definition subscription_definition ::
  "pydantic \<Rightarrow> string \<Rightarrow> pyfun \<Rightarrow> string option \<Rightarrow> nat \<Rightarrow> error_type list \<Rightarrow>
   def_error + subscription_def" where
  "subscription_definition py name f summary scope raises =
     rbind (raise_if (fn_kind f \<noteq> AsyncGenFunction) NotAsyncGenerator) (\<lambda>_.
     case fn_return f of
       None \<Rightarrow> Inl NotAsyncIterator
     | Some result \<Rightarrow>
         rbind (raise_if (\<not> is_async_iter result) NotAsyncIterator) (\<lambda>_.
         rbind (raise_if (\<not> py_schema py (iter_payload result)) NoSchema) (\<lambda>_.
         rbind (router_params_model py f) (\<lambda>(params, params_parameter, inj).
         Inr \<lparr>sd_name = name, sd_params = params, sd_payload = iter_payload result, sd_function = f,
              sd_injected = inj, sd_params_parameter = params_parameter,
              sd_params_origin = Option.bind params_parameter (param_annotation f),
              sd_scope = scope, sd_summary = summary, sd_server = None, sd_raises = raises\<rparr>))))"

definition path_model :: "pydantic \<Rightarrow> param list \<Rightarrow> def_error + (string \<times> ann \<times> bool) list option" where
  "path_model py ps =
     (if ps = [] then Inr None
      else
        rbind (traverse (\<lambda>p.
                 if pr_kind p \<notin> {PositionalOrKeyword, KeywordOnly} then Inl (PathByName (pr_name p))
                 else if is_model (the (pr_ann p)) then Inl (PathNotScalar [pr_name p])
                 else Inr (pr_name p, the (pr_ann p), pr_default p)) ps) (\<lambda>fs.
          if py_path_model py fs then Inr (Some fs) else Inl (PathNotScalar (map fst fs))))"

definition count_dependency :: "pyclass \<Rightarrow> injected list \<Rightarrow> nat" where
  "count_dependency c is = length (filter (\<lambda>i. cls_id (ij_dependency i) = cls_id c) is)"

definition stream_direction_of ::
  "pyfun \<Rightarrow> bool \<Rightarrow> bool \<Rightarrow> def_error + stream_direction" where
  "stream_direction_of f inp out =
     (case fn_kind f of
        AsyncGenFunction \<Rightarrow>
          if \<not> (case fn_return f of Some (AnnAsyncIter (AnnClass c)) \<Rightarrow> cls_id c = cls_id cls_bytes | _ \<Rightarrow> False)
          then Inl StreamNotBytes
          else if inp \<or> out then Inl GeneratorInjects
          else Inr ServerToClient
      | CoroutineFunction \<Rightarrow>
          if \<not> (inp \<or> out) then Inl StreamInjectsNothing
          else if \<not> (case fn_return f of None \<Rightarrow> True | Some (AnnClass c) \<Rightarrow> cls_id c = cls_id cls_NoneType
                        | _ \<Rightarrow> False)
          then Inl MustReturnNone
          else Inr (if inp \<and> out then Bidirectional else if inp then ClientToServer else ServerToClient)
      | PlainFunction \<Rightarrow> Inl (NotAsync (fn_qualname f)))"

definition stream_definition ::
  "pydantic \<Rightarrow> string \<Rightarrow> pyfun \<Rightarrow> string \<Rightarrow> string option \<Rightarrow> nat \<Rightarrow> string option \<Rightarrow>
   def_error + stream_def" where
  "stream_definition py name f content_type summary scope input_type =
     rbind (split_parameters f) (\<lambda>(inj, path).
     rbind (raise_if (1 < count_dependency cls_RpcBinaryInput inj) (InjectedTwice ''RpcBinaryInput'')) (\<lambda>_.
     rbind (raise_if (1 < count_dependency cls_RpcBinaryOutput inj) (InjectedTwice ''RpcBinaryOutput'')) (\<lambda>_.
     let inp = (count_dependency cls_RpcBinaryInput inj \<noteq> 0);
         out = (count_dependency cls_RpcBinaryOutput inj \<noteq> 0) in
     rbind (stream_direction_of f inp out) (\<lambda>direction.
     rbind (raise_if (input_type \<noteq> None \<and> \<not> inp) InputTypeWithoutInput) (\<lambda>_.
     rbind (path_model py path) (\<lambda>pm.
     Inr \<lparr>st_name = name, st_function = f, st_content_type = content_type, st_summary = summary,
          st_injected = inj, st_scope = scope, st_server = None, st_direction = direction,
          st_input_content_type =
            (if inp then Some (case input_type of Some (c # cs) \<Rightarrow> c # cs | _ \<Rightarrow> content_type) else None),
          st_path_parameters = map pr_name path, st_path_model = pm\<rparr>))))))"

definition raw_socket_definition ::
  "pydantic \<Rightarrow> string \<Rightarrow> pyfun \<Rightarrow> message_type list \<Rightarrow> contract list \<Rightarrow> string option \<Rightarrow> nat \<Rightarrow>
   def_error + raw_socket_def" where
  "raw_socket_definition py name f messages closes summary scope =
     rbind (raise_if (fn_kind f \<noteq> CoroutineFunction) (NotAsync (fn_qualname f))) (\<lambda>_.
     rbind (split_parameters f) (\<lambda>(inj, path).
     rbind (raise_if (count_dependency cls_RpcRawSocket inj \<noteq> 1) RawSocketOnce) (\<lambda>_.
     rbind (raise_if (\<not> (case fn_return f of None \<Rightarrow> True
                            | Some (AnnClass c) \<Rightarrow> cls_id c = cls_id cls_NoneType | _ \<Rightarrow> False)) MustReturnNone) (\<lambda>_.
     rbind (path_model py path) (\<lambda>pm.
     Inr \<lparr>rd_name = name, rd_function = f, rd_messages = messages, rd_summary = summary,
          rd_injected = inj, rd_scope = scope, rd_closes = closes, rd_server = None,
          rd_path_parameters = map pr_name path, rd_path_model = pm\<rparr>)))))"

lemma stream_direction_of_Inr:
  assumes "stream_direction_of f inp out = Inr d"
  shows "(d \<noteq> ServerToClient \<longleftrightarrow> inp) \<and> (d = ClientToServer \<longleftrightarrow> inp \<and> \<not> out)
    \<and> (fn_kind f = AsyncGenFunction \<longrightarrow> \<not> inp \<and> \<not> out)
    \<and> (inp \<or> out \<or> fn_kind f = AsyncGenFunction)"
  using assms unfolding stream_direction_of_def
  by (cases "fn_kind f") (simp_all only: fn_kind.simps split: if_splits, auto)

lemma stream_definition_Inr:
  assumes "stream_definition py name f content_type summary scope input_type = Inr s"
  shows "(has_input s \<longleftrightarrow> count_dependency cls_RpcBinaryInput (st_injected s) = 1)
    \<and> (is_generator s \<longrightarrow> \<not> has_input s \<and> count_dependency cls_RpcBinaryOutput (st_injected s) = 0)
    \<and> (st_input_content_type s \<noteq> None \<longleftrightarrow> has_input s)
    \<and> (st_direction s = ClientToServer \<longleftrightarrow>
         has_input s \<and> count_dependency cls_RpcBinaryOutput (st_injected s) = 0)
    \<and> (is_generator s \<or> has_input s \<or> count_dependency cls_RpcBinaryOutput (st_injected s) = 1)"
proof -
  from assms obtain inj path d pm where
    split: "split_parameters f = Inr (inj, path)"
    and once: "\<not> 1 < count_dependency cls_RpcBinaryInput inj" "\<not> 1 < count_dependency cls_RpcBinaryOutput inj"
    and d: "stream_direction_of f (count_dependency cls_RpcBinaryInput inj \<noteq> 0)
              (count_dependency cls_RpcBinaryOutput inj \<noteq> 0) = Inr d"
    and s: "s = \<lparr>st_name = name, st_function = f, st_content_type = content_type, st_summary = summary,
          st_injected = inj, st_scope = scope, st_server = None, st_direction = d,
          st_input_content_type =
            (if count_dependency cls_RpcBinaryInput inj \<noteq> 0
             then Some (case input_type of Some (c # cs) \<Rightarrow> c # cs | _ \<Rightarrow> content_type) else None),
          st_path_parameters = map pr_name path, st_path_model = pm\<rparr>"
    unfolding stream_definition_def rbind_eq_Inr raise_if_eq Let_def
    by (elim exE conjE) (auto simp: result_simps)
  from stream_direction_of_Inr [OF d] once show ?thesis
    by (simp add: s has_input_def is_generator_def) linarith
qed

section \<open>The protocol\<close>

record protocol =
  pc_version :: int
  pc_methods :: "(string, method_def) dict"
  pc_notifications :: "(string, notification_def) dict"
  pc_subscriptions :: "(string, subscription_def) dict"
  pc_notification_types :: "(string, notification_type_def) dict"
  pc_streams :: "(string, stream_def) dict"
  pc_client_methods :: "(string, client_method_def) dict"
  pc_raw_sockets :: "(string, raw_socket_def) dict"

definition unique_step :: "string \<Rightarrow> string \<Rightarrow> 'v \<Rightarrow> (string, 'v) dict \<Rightarrow> def_error + (string, 'v) dict" where
  "unique_step kind name v d =
     (if dict_has name d then Inl (DuplicateDefinition kind name) else Inr (dict_set name v d))"

definition unique :: "string \<Rightarrow> (string \<times> 'v) list \<Rightarrow> def_error + (string, 'v) dict" where
  "unique kind entries = fold_res (\<lambda>(n, v). unique_step kind n v) entries []"

interpretation unique_names: registry "unique_step kind" dict_keys for kind
  by unfold_locales (auto simp: unique_step_def dict_has_iff dict_set_fresh)

lemma unique_step_Inr:
  "unique_step kind n v d = Inr d' \<longleftrightarrow> n \<notin> fst ` set d \<and> d' = d @ [(n, v)]"
  by (auto simp: unique_step_def dict_has_iff dict_set_fresh)

lemma unique_fold_fresh:
  "fold_res (\<lambda>(n, v). unique_step kind n v) es d = Inr d' \<Longrightarrow> d' = d @ es"
proof (induction es arbitrary: d)
  case Nil
  then show ?case by simp
next
  case (Cons e es)
  obtain n v where e: "e = (n, v)" by (cases e)
  with Cons.prems obtain d1 where d1: "unique_step kind n v d = Inr d1"
      and rest: "fold_res (\<lambda>(n, v). unique_step kind n v) es d1 = Inr d'"
    by (auto simp: rbind_eq_Inr)
  from Cons.IH [OF rest] d1 show ?case by (simp add: e unique_step_Inr)
qed

lemma unique_Inr: "unique kind es = Inr d \<longleftrightarrow> d = es \<and> distinct (map fst es)"
proof
  assume u: "unique kind es = Inr d"
  then have "d = es" using unique_fold_fresh [of kind es "[]" d] by (simp add: unique_def)
  moreover have "distinct (map fst es)"
    using u unique_names.enter_all_Inr [of kind es "[]" d]
    by (simp add: unique_def unique_names.enter_all_def)
  ultimately show "d = es \<and> distinct (map fst es)" ..
next
  assume es: "d = es \<and> distinct (map fst es)"
  then obtain d' where "unique kind es = Inr d'"
    using unique_names.enter_all_total [of "[]" es kind]
    by (auto simp: unique_def unique_names.enter_all_def)
  with unique_fold_fresh [of kind es "[]" d'] es show "unique kind es = Inr d"
    by (simp add: unique_def)
qed

definition check_raises :: "string \<times> error_type list \<Rightarrow> def_error + unit" where
  "check_raises op =
     (case bind_contracts (List.map_filter contract_of (snd op)) (''RPC operation '' @ fst op) of
        Inl e \<Rightarrow> Inl (Declares e) | Inr b \<Rightarrow> Inr ())"

definition protocol_init ::
  "method_def list \<Rightarrow> notification_def list \<Rightarrow> subscription_def list \<Rightarrow> notification_type_def list \<Rightarrow>
   stream_def list \<Rightarrow> client_method_def list \<Rightarrow> raw_socket_def list \<Rightarrow> int \<Rightarrow> def_error + protocol" where
  "protocol_init methods notifications subscriptions types streams client_methods raw_sockets version =
     rbind (unique ''method'' (map (\<lambda>m. (md_name m, m)) methods)) (\<lambda>ms.
     rbind (unique ''notification'' (map (\<lambda>m. (nd_name m, m)) notifications)) (\<lambda>ns.
     rbind (unique ''subscription'' (map (\<lambda>m. (sd_name m, m)) subscriptions)) (\<lambda>ss.
     rbind (unique ''notification type'' (map (\<lambda>m. (nt_name m, m)) types)) (\<lambda>ts.
     rbind (unique ''stream'' (map (\<lambda>m. (st_name m, m)) streams)) (\<lambda>sts.
     rbind (unique ''client method'' (map (\<lambda>m. (cm_name m, m)) client_methods)) (\<lambda>cs.
     rbind (unique ''raw socket'' (map (\<lambda>m. (rd_name m, m)) raw_sockets)) (\<lambda>rs.
     rbind (traverse check_raises
              (map (\<lambda>m. (md_name m, md_raises m)) methods
               @ map (\<lambda>m. (nd_name m, nd_raises m)) notifications
               @ map (\<lambda>m. (sd_name m, sd_raises m)) subscriptions)) (\<lambda>_.
     Inr \<lparr>pc_version = version, pc_methods = ms, pc_notifications = ns, pc_subscriptions = ss,
          pc_notification_types = ts, pc_streams = sts, pc_client_methods = cs,
          pc_raw_sockets = rs\<rparr>))))))))"

definition protocol_method :: "protocol \<Rightarrow> string \<Rightarrow> rpc_error + method_def" where
  "protocol_method p name =
     (case map_of (pc_methods p) name of None \<Rightarrow> Inl (err_method_not_found name) | Some m \<Rightarrow> Inr m)"

text \<open>Every table is keyed by the name of its entries, each once.\<close>

definition table_ok :: "('v \<Rightarrow> string) \<Rightarrow> (string, 'v) dict \<Rightarrow> bool" where
  "table_ok name d = (distinct (map fst d) \<and> (\<forall>(k, v) \<in> set d. name v = k))"

definition protocol_ok :: "protocol \<Rightarrow> bool" where
  "protocol_ok p =
     (table_ok md_name (pc_methods p) \<and> table_ok nd_name (pc_notifications p)
      \<and> table_ok sd_name (pc_subscriptions p) \<and> table_ok nt_name (pc_notification_types p)
      \<and> table_ok st_name (pc_streams p) \<and> table_ok cm_name (pc_client_methods p)
      \<and> table_ok rd_name (pc_raw_sockets p))"

lemma unique_table: "unique kind (map (\<lambda>m. (f m, m)) xs) = Inr d \<Longrightarrow> table_ok f d \<and> map snd d = xs"
  by (auto simp: unique_Inr table_ok_def comp_def)

lemma protocol_init_ok:
  assumes "protocol_init ms ns ss ts sts cs rs v = Inr p"
  shows "protocol_ok p \<and> dict_vals (pc_methods p) = ms \<and> dict_vals (pc_notifications p) = ns
    \<and> dict_vals (pc_subscriptions p) = ss \<and> dict_vals (pc_notification_types p) = ts
    \<and> dict_vals (pc_streams p) = sts
    \<and> dict_vals (pc_client_methods p) = cs \<and> dict_vals (pc_raw_sockets p) = rs"
  using assms unfolding protocol_init_def rbind_eq_Inr
  by (elim exE conjE) (auto simp: protocol_ok_def dest!: unique_table)

lemma protocol_method_Inr:
  "protocol_ok p \<Longrightarrow> protocol_method p name = Inr m \<Longrightarrow> md_name m = name \<and> m \<in> set (dict_vals (pc_methods p))"
  by (auto simp: protocol_method_def protocol_ok_def table_ok_def split: option.splits
      dest!: map_of_SomeD intro: rev_image_eqI)

section \<open>Properties\<close>

text \<open>
  C13. A materialized protocol: \<open>RpcProtocol\<close> keeps every definition, in the order given, in a table
  keyed by its name without a duplicate, and \<open>method\<close> answers a name with the method of that name
  or with a method-not-found error.
\<close>
theorem protocol_tables:
  assumes "protocol_init ms ns ss ts sts cs rs v = Inr p"
  shows "protocol_ok p \<and> dict_vals (pc_methods p) = ms \<and> distinct (map md_name ms)
    \<and> (\<forall>name. protocol_method p name =
         (case find (\<lambda>m. md_name m = name) ms of Some m \<Rightarrow> Inr m | None \<Rightarrow> Inl (err_method_not_found name)))"
proof -
  note ok = protocol_init_ok [OF assms]
  have table: "pc_methods p = map (\<lambda>m. (md_name m, m)) ms \<and> distinct (map md_name ms)"
    using assms unfolding protocol_init_def rbind_eq_Inr by (elim exE conjE) (auto simp: unique_Inr comp_def)
  have "map_of (map (\<lambda>m. (md_name m, m)) xs) name = find (\<lambda>m. md_name m = name) xs" for name and xs :: "method_def list"
    by (induction xs) auto
  with ok table show ?thesis by (auto simp: protocol_method_def split: option.splits)
qed

lemma protocol_tables_witness:
  "\<exists>p. protocol_init [] [] [] [] [] [] [] 1 = Inr p \<and> protocol_method p ''x'' = Inl (err_method_not_found ''x'')"
proof -
  obtain p where p: "protocol_init [] [] [] [] [] [] [] 1 = Inr p"
    by (simp add: protocol_init_def unique_def)
  from protocol_tables [OF p] p show ?thesis by auto
qed

text \<open>
  C14. Binary streams: the direction of a stream is what its function injects. It has input exactly
  when it injects \<open>RpcBinaryInput\<close> (once), an asynchronous generator injects neither end, a coroutine
  injects at least one, and an input content type is recorded exactly when there is input.
\<close>
theorem stream_directions:
  assumes "stream_definition py name f content_type summary scope input_type = Inr s"
  shows "(has_input s \<longleftrightarrow> count_dependency cls_RpcBinaryInput (st_injected s) = 1)
    \<and> (is_generator s \<longrightarrow> \<not> has_input s \<and> count_dependency cls_RpcBinaryOutput (st_injected s) = 0)
    \<and> (st_input_content_type s \<noteq> None \<longleftrightarrow> has_input s)
    \<and> (st_direction s = ClientToServer \<longleftrightarrow>
         has_input s \<and> count_dependency cls_RpcBinaryOutput (st_injected s) = 0)
    \<and> (is_generator s \<or> has_input s \<or> count_dependency cls_RpcBinaryOutput (st_injected s) = 1)"
  by (rule stream_definition_Inr [OF assms])

definition upload_fn :: pyfun where
  "upload_fn =
     \<lparr>fn_name = ''upload'', fn_qualname = ''upload'',
      fn_params = [\<lparr>pr_name = ''data'', pr_kind = PositionalOrKeyword,
        pr_ann = Some (AnnInject (AnnClass cls_RpcBinaryInput)), pr_default = False\<rparr>],
      fn_return = Some (AnnClass cls_NoneType), fn_kind = CoroutineFunction, fn_doc = None,
      fn_is_function = True\<rparr>"

lemma stream_directions_witness:
  "\<forall>py. \<exists>s. stream_definition py ''upload'' upload_fn ''audio/pcm'' None 0 None = Inr s \<and> has_input s
     \<and> st_input_content_type s = Some ''audio/pcm''"
proof
  fix py
  obtain s where s: "stream_definition py ''upload'' upload_fn ''audio/pcm'' None 0 None = Inr s"
    and st: "st_input_content_type s = Some ''audio/pcm''"
    by (simp add: stream_definition_def split_parameters_def split_parameter_def upload_fn_def
        count_dependency_def stream_direction_of_def path_model_def cls_RpcBinaryInput_def
        cls_RpcBinaryOutput_def builtin_class_def)
  from stream_directions [OF s] s st show "\<exists>s. stream_definition py ''upload'' upload_fn ''audio/pcm'' None 0 None = Inr s
     \<and> has_input s \<and> st_input_content_type s = Some ''audio/pcm''" by auto
qed

end
