(* ===== verification/RpcLimits.thy ===== *)
theory RpcLimits
  imports Pyobj
begin

text \<open>
  \<open>RpcLimits\<close> of \<open>connection.py\<close>: the bounds a connection runs under, with the checks of
  \<open>__post_init__\<close> in their order. A comparison that Python refuses raises \<open>LimitTypeError\<close>.
\<close>

record rpc_limits =
  max_concurrency :: int
  max_queue_size :: int
  max_message_bytes :: "int option"
  client_method_timeout :: "pynum option"
  send_timeout :: "pynum option"
  max_batch_size :: int
  max_subscriptions :: int
  max_pending_requests :: int
  request_timeout :: "pynum option"

definition default_limits :: rpc_limits where
  "default_limits =
     \<lparr>max_concurrency = 32, max_queue_size = 128, max_message_bytes = Some 1048576,
      client_method_timeout = Some (NumFloat 30), send_timeout = Some (NumFloat 10),
      max_batch_size = 32, max_subscriptions = 100, max_pending_requests = 1024,
      request_timeout = None\<rparr>"

datatype limit_error =
    BadRequestTimeout
  | BadConcurrencyOrQueue
  | BadMessageBytes
  | BadClientMethodTimeout
  | BadSendTimeout
  | BadBatchSize
  | BadSubscriptions
  | BadPendingRequests
  | LimitTypeError

text \<open>\<open>t is not None and t <= 0\<close>, for a \<open>t\<close> that need not be a number.\<close>

definition check_positive :: "pynum option \<Rightarrow> limit_error \<Rightarrow> limit_error + unit" where
  "check_positive t err =
     (case t of
        None \<Rightarrow> Inr ()
      | Some NotNumeric \<Rightarrow> Inl LimitTypeError
      | Some n \<Rightarrow> raise_if (num_le_zero n) err)"

definition bad_request_timeout :: "pynum option \<Rightarrow> bool" where
  "bad_request_timeout t =
     (case t of
        None \<Rightarrow> False
      | Some n \<Rightarrow> \<not> num_is_int_or_float n \<or> num_is_bool n \<or> \<not> num_finite n \<or> num_le_zero n)"

definition limits_post_init :: "rpc_limits \<Rightarrow> limit_error + rpc_limits" where
  "limits_post_init l =
     rbind (raise_if (bad_request_timeout (request_timeout l)) BadRequestTimeout) (\<lambda>_.
     rbind (raise_if (max_concurrency l < 1 \<or> max_queue_size l < 1) BadConcurrencyOrQueue) (\<lambda>_.
     rbind (raise_if (case max_message_bytes l of None \<Rightarrow> False | Some n \<Rightarrow> n < 1) BadMessageBytes) (\<lambda>_.
     rbind (check_positive (client_method_timeout l) BadClientMethodTimeout) (\<lambda>_.
     rbind (check_positive (send_timeout l) BadSendTimeout) (\<lambda>_.
     rbind (raise_if (max_batch_size l < 0) BadBatchSize) (\<lambda>_.
     rbind (raise_if (max_subscriptions l < 1) BadSubscriptions) (\<lambda>_.
     rbind (raise_if (max_pending_requests l < 1) BadPendingRequests) (\<lambda>_.
     Inr l))))))))"

text \<open>What a timeout has to be for \<open>__post_init__\<close> to accept it: NaN passes the second form.\<close>

definition positive_or_nan :: "pynum option \<Rightarrow> bool" where
  "positive_or_nan t =
     (case t of
        None \<Rightarrow> True
      | Some n \<Rightarrow> num_is_int_or_float n \<and> (n = NotANumber \<or> n = PosInf \<or> num_rat n > 0))"

definition finite_positive :: "pynum option \<Rightarrow> bool" where
  "finite_positive t =
     (case t of None \<Rightarrow> True | Some n \<Rightarrow> num_finite n \<and> \<not> num_is_bool n \<and> num_rat n > 0)"

definition limits_valid :: "rpc_limits \<Rightarrow> bool" where
  "limits_valid l =
     (finite_positive (request_timeout l) \<and> 1 \<le> max_concurrency l \<and> 1 \<le> max_queue_size l
      \<and> (case max_message_bytes l of None \<Rightarrow> True | Some n \<Rightarrow> 1 \<le> n)
      \<and> positive_or_nan (client_method_timeout l) \<and> positive_or_nan (send_timeout l)
      \<and> 0 \<le> max_batch_size l \<and> 1 \<le> max_subscriptions l \<and> 1 \<le> max_pending_requests l)"

lemma bad_request_timeout_iff: "bad_request_timeout t \<longleftrightarrow> \<not> finite_positive t"
proof (cases t)
  case None
  then show ?thesis by (simp add: bad_request_timeout_def finite_positive_def)
next
  case (Some n)
  then show ?thesis
    by (cases n) (auto simp: bad_request_timeout_def finite_positive_def)
qed

lemma check_positive_Inr: "check_positive t e = Inr u \<longleftrightarrow> positive_or_nan t"
proof (cases t)
  case None
  then show ?thesis by (simp add: check_positive_def positive_or_nan_def)
next
  case (Some n)
  then show ?thesis
    by (cases n) (auto simp: check_positive_def positive_or_nan_def raise_if_eq)
qed

lemma limits_post_init_Inr: "limits_post_init l = Inr l' \<longleftrightarrow> l' = l \<and> limits_valid l"
  by (cases "max_message_bytes l")
    (auto simp: limits_post_init_def limits_valid_def result_simps check_positive_Inr
       bad_request_timeout_iff)

lemma limits_valid_nat:
  "limits_valid l \<Longrightarrow> 0 < nat (max_pending_requests l) \<and> 0 < nat (max_subscriptions l)
     \<and> 0 < nat (max_concurrency l) \<and> 0 < nat (max_queue_size l)"
  by (auto simp: limits_valid_def)

section \<open>Properties\<close>

text \<open>
  C17. Limits: \<open>__post_init__\<close> accepts exactly the limits whose counts are positive, whose request
  timeout is a finite positive number and whose two other timeouts are positive or NaN; it changes
  nothing. (NaN passes because \<open>nan <= 0\<close> is false.)
\<close>
theorem limits_accepted:
  "(limits_post_init l = Inr l' \<longleftrightarrow> l' = l \<and> limits_valid l)
   \<and> limits_post_init default_limits = Inr default_limits
   \<and> limits_post_init (default_limits\<lparr>send_timeout := Some NotANumber\<rparr>)
       = Inr (default_limits\<lparr>send_timeout := Some NotANumber\<rparr>)"
  using limits_post_init_Inr [of l l']
  by (simp add: limits_post_init_Inr limits_valid_def default_limits_def finite_positive_def
      positive_or_nan_def)

end
