(* ===== verification/Lifecycle.thy ===== *)
theory Lifecycle
  imports Connection
begin

text \<open>
  The life of an \<open>RpcConnection\<close> (\<open>connection.py\<close>) and the three \<open>request_close\<close> closures of
  \<open>runtime.py\<close> that decide how it ends. \<open>close_latch\<close> is the contract they share.
\<close>

section \<open>The connection object\<close>

record connection =
  con_endpoint :: string
  con_handshake :: handshake
  con_path_params :: "(string, string) dict"
  con_accepted :: bool
  con_closed :: bool
  con_close_code :: "conn_close option"
  con_close_reason :: string
  con_raw_code :: "int option"
  con_on_close :: bool
  con_expires_at :: "rat option"
  con_timer :: "rat option"
  con_startup :: "nat option"

datatype con_effect = CallClose conn_close string | CancelStartup nat

datatype con_error = ExpiryNotFinite | CloseBeforeAccept

definition con_create :: "string \<Rightarrow> handshake \<Rightarrow> (string, string) dict option \<Rightarrow> connection" where
  "con_create endpoint hs params =
     \<lparr>con_endpoint = endpoint, con_handshake = hs,
      con_path_params =
        (case params of None \<Rightarrow> hs_path_params hs | Some [] \<Rightarrow> hs_path_params hs | Some ps \<Rightarrow> ps),
      con_accepted = False, con_closed = False, con_close_code = None, con_close_reason = [],
      con_raw_code = None, con_on_close = False, con_expires_at = None, con_timer = None,
      con_startup = None\<rparr>"

definition validate_expiry :: "pynum \<Rightarrow> con_error + rat" where
  "validate_expiry n =
     (if num_is_bool n \<or> \<not> num_is_int_or_float n \<or> \<not> num_finite n then Inl ExpiryNotFinite
      else Inr (num_rat n))"

text \<open>\<open>clock\<close> is \<open>loop.time()\<close>, \<open>wall\<close> is \<open>time()\<close>.\<close>

definition schedule_expiry :: "rat \<Rightarrow> rat \<Rightarrow> rat \<Rightarrow> rat" where
  "schedule_expiry clock wall expires = clock + max 0 (expires - wall)"

definition arm_expiry :: "rat \<Rightarrow> rat \<Rightarrow> connection \<Rightarrow> connection" where
  "arm_expiry clock wall c =
     c\<lparr>con_timer :=
         (case con_expires_at c of
            Some t \<Rightarrow> if con_accepted c \<and> \<not> con_closed c then Some (schedule_expiry clock wall t) else None
          | None \<Rightarrow> None)\<rparr>"

definition set_expires_at :: "rat \<Rightarrow> rat \<Rightarrow> pynum option \<Rightarrow> connection \<Rightarrow> con_error + connection" where
  "set_expires_at clock wall v c =
     (case v of
        None \<Rightarrow> Inr (arm_expiry clock wall (c\<lparr>con_expires_at := None\<rparr>))
      | Some n \<Rightarrow>
          rbind (validate_expiry n) (\<lambda>t. Inr (arm_expiry clock wall (c\<lparr>con_expires_at := Some t\<rparr>))))"

definition expired_reason :: string where
  "expired_reason = ''credentials_expired''"

definition con_expire :: "connection \<Rightarrow> connection \<times> con_effect list" where
  "con_expire c0 =
     (let c = c0\<lparr>con_timer := None\<rparr>
      in if con_closed c \<or> con_close_code c \<noteq> None then (c, [])
         else
           (let (c1, es) =
              (if con_on_close c then (c, [CallClose Close_POLICY_VIOLATION expired_reason])
               else (c\<lparr>con_close_code := Some Close_POLICY_VIOLATION,
                       con_close_reason := expired_reason\<rparr>, []))
            in case con_startup c1 of
                 None \<Rightarrow> (c1, es)
               | Some t \<Rightarrow> (c1\<lparr>con_startup := None\<rparr>, es @ [CancelStartup t])))"

definition set_close_handler :: "connection \<Rightarrow> connection \<times> con_effect list" where
  "set_close_handler c =
     (c\<lparr>con_on_close := True\<rparr>,
      if con_close_reason c = expired_reason
      then [CallClose Close_POLICY_VIOLATION expired_reason] else [])"

definition mark_closed :: "connection \<Rightarrow> connection" where
  "mark_closed c = c\<lparr>con_closed := True, con_startup := None, con_timer := None\<rparr>"

definition con_close :: "conn_close \<Rightarrow> string \<Rightarrow> connection \<Rightarrow> con_error + con_effect list" where
  "con_close k r c =
     (if \<not> con_accepted c then Inl CloseBeforeAccept
      else if con_on_close c then Inr [CallClose k r]
      else Inr [])"

text \<open>\<open>_prepare\<close> after \<open>socket.accept\<close> returned.\<close>

definition con_accept :: "rat \<Rightarrow> rat \<Rightarrow> connection \<Rightarrow> connection" where
  "con_accept clock wall c = arm_expiry clock wall (c\<lparr>con_accepted := True\<rparr>)"

lemmas con_op_defs =
  arm_expiry_def set_expires_at_def con_expire_def set_close_handler_def mark_closed_def con_accept_def

section \<open>Deciding how a connection ends\<close>

text \<open>
  The variables of the closures: whether \<open>close_event\<close> is set, \<open>close_value\<close>, \<open>client_closed\<close>, and
  the connection whose attributes they write.
\<close>

record latch =
  lt_closing :: bool
  lt_code :: conn_close
  lt_reason :: string
  lt_client_closed :: bool
  lt_con :: connection

definition latch_init :: "connection \<Rightarrow> latch" where
  "latch_init c =
     \<lparr>lt_closing = False, lt_code = Close_NORMAL, lt_reason = [], lt_client_closed = False, lt_con = c\<rparr>"

definition latch_close :: "conn_close \<Rightarrow> string \<Rightarrow> int option \<Rightarrow> latch \<Rightarrow> latch" where
  "latch_close code reason raw l =
     l\<lparr>lt_closing := True, lt_code := code, lt_reason := reason,
       lt_con := (lt_con l)\<lparr>con_close_code := Some code, con_close_reason := reason, con_raw_code := raw\<rparr>\<rparr>"

text \<open>\<open>request_close\<close> of an RPC connection: the first request decides.\<close>

definition rpc_request_close :: "conn_close \<Rightarrow> string \<Rightarrow> int option \<Rightarrow> latch \<Rightarrow> latch" where
  "rpc_request_close code reason raw l =
     (if \<not> lt_closing l then latch_close code reason raw l else l)"

text \<open>
  \<open>request_close\<close> of a binary stream and of a raw socket: a failure replaces a normal close, unless
  the client is gone already.
\<close>

definition stream_request_close :: "conn_close \<Rightarrow> string \<Rightarrow> int option \<Rightarrow> latch \<Rightarrow> latch" where
  "stream_request_close code reason raw l =
     (if \<not> lt_closing l
        \<or> (\<not> lt_client_closed l \<and> lt_code l = Close_NORMAL \<and> code \<noteq> Close_NORMAL)
      then latch_close code reason raw l else l)"

definition stream_client_disconnected :: "rpc_disconnect \<Rightarrow> latch \<Rightarrow> latch" where
  "stream_client_disconnected d l =
     stream_request_close (dis_code d) (dis_reason d) (dis_raw d) (l\<lparr>lt_client_closed := True\<rparr>)"

definition raw_client_disconnected :: "rpc_disconnect \<Rightarrow> latch \<Rightarrow> latch" where
  "raw_client_disconnected d l =
     (if \<not> lt_client_closed l
      then stream_request_close (dis_code d) (dis_reason d) (dis_raw d) (l\<lparr>lt_client_closed := True\<rparr>)
      else l)"

definition rpc_client_disconnected :: "rpc_disconnect \<Rightarrow> latch \<Rightarrow> latch" where
  "rpc_client_disconnected d l =
     rpc_request_close (dis_code d) (dis_reason d) (dis_raw d) (l\<lparr>lt_client_closed := True\<rparr>)"

text \<open>The cancellation handler and the \<open>finally\<close> of a connection: what is sent to the peer.\<close>

definition latch_cancelled :: "latch \<Rightarrow> latch" where
  "latch_cancelled l =
     (let k = (case con_close_code (lt_con l) of None \<Rightarrow> Close_SHUTDOWN | Some k \<Rightarrow> k)
      in l\<lparr>lt_code := k, lt_reason := con_close_reason (lt_con l),
           lt_con := (lt_con l)\<lparr>con_close_code := Some k\<rparr>\<rparr>)"

definition latch_finish :: "latch \<Rightarrow> latch \<times> (conn_close \<times> string) option" where
  "latch_finish l =
     (l\<lparr>lt_con := mark_closed (lt_con l)\<rparr>,
      if lt_client_closed l then None else Some (lt_code l, lt_reason l))"

definition latch_decided :: "latch \<Rightarrow> conn_close option" where
  "latch_decided l = (if lt_closing l then Some (lt_code l) else None)"

text \<open>
  The contract: an undecided close takes any request, a decided abnormal one takes none, and a
  request that is not taken changes nothing.
\<close>

locale close_latch =
  fixes request :: "conn_close \<Rightarrow> string \<Rightarrow> int option \<Rightarrow> 's \<Rightarrow> 's"
    and decided :: "'s \<Rightarrow> conn_close option"
    and locked :: "'s \<Rightarrow> conn_close \<Rightarrow> bool"
  assumes request_taken: "\<not> locked s c \<Longrightarrow> decided (request c r x s) = Some c"
    and request_locked: "locked s c \<Longrightarrow> request c r x s = s"
    and undecided_unlocked: "decided s = None \<Longrightarrow> \<not> locked s c"
    and abnormal_locked: "decided s = Some k \<Longrightarrow> k \<noteq> Close_NORMAL \<Longrightarrow> locked s c"
begin

definition requests :: "(conn_close \<times> string \<times> int option) list \<Rightarrow> 's \<Rightarrow> 's" where
  "requests rs s = fold (\<lambda>(c, r, x). request c r x) rs s"

lemma requests_simps [simp]:
  "requests [] s = s"
  "requests (q # rs) s = requests rs (request (fst q) (fst (snd q)) (snd (snd q)) s)"
  by (simp_all add: requests_def split_beta)

lemma abnormal_final: "decided s = Some k \<Longrightarrow> k \<noteq> Close_NORMAL \<Longrightarrow> requests rs s = s"
  by (induction rs) (auto simp: request_locked abnormal_locked)

lemma decided_stays: "decided s \<noteq> None \<Longrightarrow> decided (requests rs s) \<noteq> None"
proof (induction rs arbitrary: s)
  case Nil
  then show ?case by simp
next
  case (Cons q rs)
  have "decided (request (fst q) (fst (snd q)) (snd (snd q)) s) \<noteq> None"
    using Cons.prems request_taken request_locked by (cases "locked s (fst q)") fastforce+
  then show ?case using Cons.IH by simp
qed

lemma first_abnormal:
  assumes "decided s = None" "c \<noteq> Close_NORMAL"
  shows "requests ((c, r, x) # rs) s = request c r x s \<and> decided (request c r x s) = Some c"
  using assms by (auto simp: request_taken undecided_unlocked intro!: abnormal_final)

lemma request_twice: "request c r x (request c r x s) = request c r x s \<or> decided (request c r x s) = Some c"
  using request_taken request_locked by metis

end

interpretation rpc_close: close_latch rpc_request_close latch_decided "\<lambda>l c. lt_closing l"
  by unfold_locales (auto simp: rpc_request_close_def latch_close_def latch_decided_def split: if_splits)

interpretation stream_close: close_latch stream_request_close latch_decided
  "\<lambda>l c. lt_closing l \<and> (lt_client_closed l \<or> lt_code l \<noteq> Close_NORMAL \<or> c = Close_NORMAL)"
  by unfold_locales
    (auto simp: stream_request_close_def latch_close_def latch_decided_def split: if_splits)

text \<open>What the latch says and what the connection's attributes say agree once it is decided.\<close>

definition latch_ok :: "latch \<Rightarrow> bool" where
  "latch_ok l =
     (lt_closing l \<longrightarrow>
        con_close_code (lt_con l) = Some (lt_code l) \<and> con_close_reason (lt_con l) = lt_reason l)"

lemma latch_ok_init: "latch_ok (latch_init c)"
  by (simp add: latch_ok_def latch_init_def)

lemma latch_ok_close: "latch_ok (latch_close c r x l)"
  by (simp add: latch_ok_def latch_close_def)

lemma latch_ok_requests:
  "latch_ok l \<Longrightarrow> latch_ok (rpc_request_close c r x l)"
  "latch_ok l \<Longrightarrow> latch_ok (stream_request_close c r x l)"
  by (auto simp: rpc_request_close_def stream_request_close_def latch_ok_close)

lemma latch_ok_disconnected:
  "latch_ok l \<Longrightarrow> latch_ok (rpc_client_disconnected d l)"
  "latch_ok l \<Longrightarrow> latch_ok (stream_client_disconnected d l)"
  "latch_ok l \<Longrightarrow> latch_ok (raw_client_disconnected d l)"
proof -
  assume l: "latch_ok l"
  then have "latch_ok (l\<lparr>lt_client_closed := True\<rparr>)" by (simp add: latch_ok_def)
  then show "latch_ok (rpc_client_disconnected d l)" "latch_ok (stream_client_disconnected d l)"
    "latch_ok (raw_client_disconnected d l)"
    using l by (auto simp: rpc_client_disconnected_def stream_client_disconnected_def
        raw_client_disconnected_def intro: latch_ok_requests)
qed

section \<open>Runs of a connection\<close>

text \<open>
  A connection and its latch from \<open>_create\<close> to \<open>_mark_closed\<close>: \<open>perform\<close> runs the effects of an
  operation, where the handler is one of the \<open>request_close\<close> closures. The event loop runs
  \<open>_expire\<close> only for an armed timer.
\<close>

fun perform :: "(conn_close \<Rightarrow> string \<Rightarrow> int option \<Rightarrow> latch \<Rightarrow> latch) \<Rightarrow> con_effect list \<Rightarrow> latch \<Rightarrow> latch" where
  "perform rc [] l = l"
| "perform rc (CallClose k r # es) l = perform rc es (rc k r None l)"
| "perform rc (CancelStartup t # es) l = perform rc es l"

inductive con_step ::
  "(conn_close \<Rightarrow> string \<Rightarrow> int option \<Rightarrow> latch \<Rightarrow> latch) \<Rightarrow> latch \<Rightarrow> latch \<Rightarrow> bool" for rc where
  Accept: "\<lbrakk>\<not> con_accepted (lt_con l); \<not> con_closed (lt_con l)\<rbrakk> \<Longrightarrow>
     con_step rc l (l\<lparr>lt_con := con_accept clock wall (lt_con l)\<rparr>)"
| SetExpiry: "set_expires_at clock wall v (lt_con l) = Inr c \<Longrightarrow> con_step rc l (l\<lparr>lt_con := c\<rparr>)"
| Startup: "con_step rc l (l\<lparr>lt_con := (lt_con l)\<lparr>con_startup := t\<rparr>\<rparr>)"
| Expire: "\<lbrakk>con_timer (lt_con l) \<noteq> None; con_expire (lt_con l) = (c, es)\<rbrakk> \<Longrightarrow>
     con_step rc l (perform rc es (l\<lparr>lt_con := c\<rparr>))"
| Handler: "set_close_handler (lt_con l) = (c, es) \<Longrightarrow>
     con_step rc l (perform rc es (l\<lparr>lt_con := c\<rparr>))"
| UserClose: "con_close k r (lt_con l) = Inr es \<Longrightarrow> con_step rc l (perform rc es l)"
| Request: "con_on_close (lt_con l) \<Longrightarrow> con_step rc l (rc k r x l)"
| Finish: "con_step rc l (fst (latch_finish l))"

inductive_cases con_step_cases: "con_step rc l l'"

inductive con_run ::
  "(conn_close \<Rightarrow> string \<Rightarrow> int option \<Rightarrow> latch \<Rightarrow> latch) \<Rightarrow> latch \<Rightarrow> latch \<Rightarrow> bool" for rc where
  Refl: "con_run rc l l"
| Trans: "con_run rc l l' \<Longrightarrow> con_step rc l' l'' \<Longrightarrow> con_run rc l l''"

text \<open>A timer is armed only for an accepted, open connection with an expiry.\<close>

definition con_ok :: "connection \<Rightarrow> bool" where
  "con_ok c = (con_timer c \<noteq> None \<longrightarrow> con_accepted c \<and> \<not> con_closed c \<and> con_expires_at c \<noteq> None)"

lemma con_ok_ops:
  "con_ok (con_create e hs ps)"
  "con_ok (arm_expiry clock wall c)"
  "con_ok (mark_closed c)"
  "con_ok c \<Longrightarrow> con_ok (fst (con_expire c))"
  "con_ok c \<Longrightarrow> con_ok (fst (set_close_handler c))"
  "set_expires_at clock wall v c = Inr c' \<Longrightarrow> con_ok c'"
proof -
  show arm: "con_ok (arm_expiry clock wall c)" for clock wall c
    by (auto simp: con_ok_def arm_expiry_def split: option.splits)
  show "con_ok (con_create e hs ps)" by (simp add: con_ok_def con_create_def)
  show "con_ok (mark_closed c)" by (simp add: con_ok_def mark_closed_def)
  show "con_ok c \<Longrightarrow> con_ok (fst (con_expire c))"
    by (auto simp: con_ok_def con_expire_def Let_def split: option.splits prod.splits)
  show "con_ok c \<Longrightarrow> con_ok (fst (set_close_handler c))"
    by (simp add: con_ok_def set_close_handler_def)
  show "set_expires_at clock wall v c = Inr c' \<Longrightarrow> con_ok c'"
    using arm by (auto simp: set_expires_at_def result_simps split: option.splits)
qed

lemma con_ok_latch_close: "con_ok (lt_con l) \<Longrightarrow> con_ok (lt_con (latch_close c r x l))"
  by (simp add: con_ok_def latch_close_def)

lemma con_ok_request:
  "con_ok (lt_con l) \<Longrightarrow> con_ok (lt_con (rpc_request_close c r x l))"
  "con_ok (lt_con l) \<Longrightarrow> con_ok (lt_con (stream_request_close c r x l))"
  by (auto simp: rpc_request_close_def stream_request_close_def con_ok_latch_close)

lemma perform_invariant:
  "(\<And>k r x l. P l \<Longrightarrow> P (rc k r x l)) \<Longrightarrow> P l \<Longrightarrow> P (perform rc es l)"
proof (induction es arbitrary: l)
  case Nil
  then show ?case by simp
next
  case (Cons e es)
  then show ?case by (cases e) auto
qed

lemma con_step_ok:
  assumes rc: "\<And>k r x l. con_ok (lt_con l) \<Longrightarrow> con_ok (lt_con (rc k r x l))"
    and "con_step rc l l'" "con_ok (lt_con l)"
  shows "con_ok (lt_con l')"
proof -
  have perf: "con_ok (lt_con (perform rc es l))" if "con_ok (lt_con l)" for es l
    using perform_invariant [of "\<lambda>l. con_ok (lt_con l)" rc] rc that by blast
  show ?thesis
    using assms(2,3)
  proof (cases rule: con_step.cases)
    case (Expire c es)
    with con_ok_ops(4) assms(3) have "con_ok c" by (metis fst_conv)
    then show ?thesis using Expire perf by simp
  next
    case (Handler c es)
    with con_ok_ops(5) assms(3) have "con_ok c" by (metis fst_conv)
    then show ?thesis using Handler perf by simp
  next
    case (Startup t)
    then show ?thesis using assms(3) by (simp add: con_ok_def)
  next
    case Finish
    then show ?thesis by (simp add: latch_finish_def con_ok_ops)
  qed (auto simp: con_accept_def con_ok_ops(2) perf rc assms(3) dest: con_ok_ops(6))
qed

lemma con_run_ok:
  assumes rc: "\<And>k r x l. con_ok (lt_con l) \<Longrightarrow> con_ok (lt_con (rc k r x l))"
    and "con_run rc l l'" "con_ok (lt_con l)"
  shows "con_ok (lt_con l')"
  using assms(2,3)
proof (induction rule: con_run.induct)
  case (Refl l)
  then show ?case .
next
  case (Trans l l' l'')
  show ?case by (rule con_step_ok [OF rc Trans.hyps(2) Trans.IH]) (use Trans.prems in auto)
qed

lemma rpc_latch_decided_stays:
  "con_step rpc_request_close l l' \<Longrightarrow> latch_decided l = Some k \<Longrightarrow>
     latch_decided l' = Some k \<and> lt_reason l' = lt_reason l"
proof -
  assume step: "con_step rpc_request_close l l'" and k: "latch_decided l = Some k"
  have req: "rpc_request_close c r x m = m" if "lt_closing m" for c r x m
    using that by (simp add: rpc_request_close_def)
  have perf: "perform rpc_request_close es m = m" if "lt_closing m" for es m
    using that by (induction rpc_request_close es m rule: perform.induct) (auto simp: req)
  from k have closing: "lt_closing l" by (auto simp: latch_decided_def split: if_splits)
  from step show ?thesis
    by (cases rule: con_step.cases)
      (use closing k in \<open>auto simp: latch_decided_def perf req latch_finish_def\<close>)
qed

text \<open>An expiry is never lost: it ends the connection at once, or when the handler is installed.\<close>

lemma expire_with_handler:
  assumes "con_expire c = (c', es)" "\<not> con_closed c" "con_close_code c = None" "con_on_close c"
  shows "CallClose Close_POLICY_VIOLATION expired_reason \<in> set es \<and> con_timer c' = None"
  using assms by (auto simp: con_expire_def Let_def split: option.splits)

lemma expire_then_handler:
  assumes "con_expire c = (c', es)" "\<not> con_closed c" "con_close_code c = None" "\<not> con_on_close c"
  shows "snd (set_close_handler c') = [CallClose Close_POLICY_VIOLATION expired_reason]"
  using assms by (auto simp: con_expire_def Let_def set_close_handler_def split: option.splits)

section \<open>Properties\<close>

text \<open>
  C5. The expiry timer: in every state a connection can reach, under either kind of
  \<open>request_close\<close>, a timer is armed only while the connection is accepted, open and has an expiry.
\<close>
theorem expiry_timer_safe:
  assumes "con_run rc (latch_init (con_create endpoint hs params)) l"
    and "rc = rpc_request_close \<or> rc = stream_request_close"
  shows "con_timer (lt_con l) \<noteq> None \<longrightarrow>
    con_accepted (lt_con l) \<and> \<not> con_closed (lt_con l) \<and> con_expires_at (lt_con l) \<noteq> None"
proof -
  have rc: "con_ok (lt_con (rc k r x l))" if "con_ok (lt_con l)" for k r x l
    using assms(2) con_ok_request that by auto
  have "con_ok (lt_con l)"
    by (rule con_run_ok [OF rc assms(1)]) (simp_all add: latch_init_def con_ok_ops(1))
  then show ?thesis by (simp add: con_ok_def)
qed

lemma expiry_timer_safe_witness:
  "\<exists>l. con_run rpc_request_close
      (latch_init (con_create [] \<lparr>hs_path = [], hs_headers = [], hs_query = [], hs_path_params = [],
         hs_subprotocols = [], hs_client = None\<rparr> None)) l
    \<and> con_timer (lt_con l) = Some 7 \<and> con_accepted (lt_con l)"
proof -
  let ?hs = "\<lparr>hs_path = [], hs_headers = [], hs_query = [], hs_path_params = [],
         hs_subprotocols = [], hs_client = None\<rparr>"
  let ?l0 = "latch_init (con_create [] ?hs None)"
  define c1 where "c1 = con_accept 0 0 (lt_con ?l0)"
  define c2 where "c2 = arm_expiry 2 5 (c1\<lparr>con_expires_at := Some 10\<rparr>)"
  let ?l1 = "?l0\<lparr>lt_con := c1\<rparr>"
  have "con_step rpc_request_close ?l0 ?l1"
    unfolding c1_def by (rule con_step.Accept) (simp_all add: latch_init_def con_create_def)
  moreover have "con_step rpc_request_close ?l1 (?l1\<lparr>lt_con := c2\<rparr>)"
    by (rule con_step.SetExpiry [of 2 5 "Some (NumInt 10)"])
      (simp add: set_expires_at_def validate_expiry_def c2_def)
  ultimately have run: "con_run rpc_request_close ?l0 (?l1\<lparr>lt_con := c2\<rparr>)"
    by (meson con_run.intros)
  have timer: "con_timer c2 = Some 7"
    by (simp add: c2_def c1_def con_accept_def arm_expiry_def latch_init_def con_create_def
        schedule_expiry_def)
  from expiry_timer_safe [OF run] timer have "con_accepted c2" by simp
  with run timer show ?thesis by (intro exI [of _ "?l1\<lparr>lt_con := c2\<rparr>"]) simp
qed



text \<open>
  An expiry is never lost: when the timer of an open connection fires before anything else
  closed it, the close handler is called with a policy violation, at once when it is installed and
  otherwise as soon as it is; the startup task is cancelled in both cases.
\<close>
theorem expiry_not_lost:
  assumes "con_expire c = (c', es)" "\<not> con_closed c" "con_close_code c = None"
  shows "CallClose Close_POLICY_VIOLATION expired_reason \<in> set (es @ snd (set_close_handler c'))
    \<and> con_timer c' = None \<and> con_startup c' = None
    \<and> (\<forall>t. con_startup c = Some t \<longrightarrow> CancelStartup t \<in> set es)"
proof (cases "con_on_close c")
  case True
  with assms expire_with_handler [OF assms True] show ?thesis
    by (auto simp: con_expire_def Let_def split: option.splits)
next
  case False
  with assms expire_then_handler [OF assms False] show ?thesis
    by (auto simp: con_expire_def Let_def split: option.splits)
qed

lemma expiry_not_lost_witness:
  "CancelStartup 3 \<in> set (snd (con_expire
     ((con_create [] \<lparr>hs_path = [], hs_headers = [], hs_query = [], hs_path_params = [],
         hs_subprotocols = [], hs_client = None\<rparr> None)\<lparr>con_startup := Some 3\<rparr>)))"
proof -
  let ?c = "(con_create [] \<lparr>hs_path = [], hs_headers = [], hs_query = [], hs_path_params = [],
         hs_subprotocols = [], hs_client = None\<rparr> None)\<lparr>con_startup := Some 3\<rparr>"
  have "\<not> con_closed ?c" "con_close_code ?c = None" "con_startup ?c = Some 3"
    by (simp_all add: con_create_def)
  moreover obtain c' es where "con_expire ?c = (c', es)" by fastforce
  ultimately show ?thesis using expiry_not_lost [of ?c c' es] by simp
qed

end
