(* ===== verification/Server.thy ===== *)
theory Server
  imports Protocol RpcLimits Lifecycle
begin

text \<open>
  \<open>dispatch.py\<close> and \<open>server.py\<close>: from a decoded JSON value to its response. User code, Pydantic's
  adapters and resolver scopes are the record \<open>world\<close>, over a type \<open>'o\<close> of Python objects. A resolver
  scope is a bracket: it is given the body that runs inside it. The order of the code's steps and
  every path on which one of them raises are the model's.
\<close>

section \<open>Dispatching\<close>

type_synonym 'o resolver = "pyclass \<Rightarrow> exc + 'o"

record 'o world =
  w_scope :: "nat \<Rightarrow> 'o resolver \<Rightarrow> ('o resolver \<Rightarrow> exc + 'o) \<Rightarrow> exc + 'o"
  w_call :: "pyfun \<Rightarrow> (string, 'o) dict \<Rightarrow> exc + 'o"
  w_params :: "ann \<Rightarrow> (string \<times> json) list \<Rightarrow> validation_issue list + 'o"
  w_is_type :: "ann \<Rightarrow> 'o \<Rightarrow> bool"
  w_reparse :: "ann \<Rightarrow> 'o \<Rightarrow> validation_issue list + 'o"
  w_result :: "ann \<Rightarrow> 'o \<Rightarrow> exc + 'o"
  w_is_model :: "'o \<Rightarrow> bool"
  w_extra_message :: string
  w_validate :: "pyclass \<Rightarrow> exc \<Rightarrow> exc + model_value"
  w_model :: "pyclass \<Rightarrow> (string \<times> json) list \<Rightarrow> exc + model_value"

definition cls_ProtocolDefinitionError :: pyclass where
  "cls_ProtocolDefinitionError = builtin_class 20 ''ProtocolDefinitionError'' [2, 1, 0]"

record 'o invocation =
  iv_request :: request_envelope
  iv_method :: method_def
  iv_params :: "'o option"

definition invalid_params :: "string option \<Rightarrow> rpc_error" where
  "invalid_params msg =
     \<lparr>err_class = builtin_error body_RpcInvalidParamsError,
      err_message = (case msg of Some (c # cs) \<Rightarrow> c # cs
                     | _ \<Rightarrow> ec_message (builtin_error body_RpcInvalidParamsError)),
      err_details = Some \<lparr>mv_class = cls_RpcInvalidParams, mv_json = JObj [(''issues'', JArr [])]\<rparr>\<rparr>"

definition params_error :: "validation_issue list \<Rightarrow> exc" where
  "params_error issues =
     (case from_validation_error issues of
        Some e \<Rightarrow> RpcErrorExc e
      | None \<Rightarrow> PlainExc (builtin_class 8 ''IndexError'' [2, 1, 0]) ''list index out of range'')"

definition unexpected_params :: "'o world \<Rightarrow> string list \<Rightarrow> validation_issue list" where
  "unexpected_params w names =
     map (\<lambda>n. \<lparr>iss_loc = [LocName n], iss_message = w_extra_message w, iss_type = ''extra_forbidden''\<rparr>) names"

definition validated_params :: "'o world \<Rightarrow> method_def \<Rightarrow> params \<Rightarrow> exc + 'o option" where
  "validated_params w m raw =
     (case raw of
        Positional xs \<Rightarrow> Inl (RpcErrorExc (invalid_params (Some ''RPC methods require named params'')))
      | Named kw \<Rightarrow>
          (case md_params m of
             None \<Rightarrow>
               if kw \<noteq> [] then Inl (params_error (unexpected_params w (sort (map fst kw)))) else Inr None
           | Some a \<Rightarrow>
               (case w_params w a kw of
                  Inl issues \<Rightarrow> Inl (params_error issues)
                | Inr v \<Rightarrow>
                    (case md_params_origin m of
                       Some t \<Rightarrow>
                         if \<not> w_is_type w t v
                         then (case w_reparse w t v of
                                 Inl issues \<Rightarrow> Inl (params_error issues)
                               | Inr v' \<Rightarrow> Inr (Some v'))
                         else Inr (Some v)
                     | None \<Rightarrow> Inr (Some v)))))"

definition parse_request :: "'o world \<Rightarrow> protocol \<Rightarrow> json \<Rightarrow> exc + 'o invocation" where
  "parse_request w p raw =
     (case validate_envelope raw of
        None \<Rightarrow> Inl (RpcErrorExc err_invalid_request)
      | Some request \<Rightarrow>
          (case protocol_method p (env_method request) of
             Inl e \<Rightarrow> Inl (RpcErrorExc e)
           | Inr m \<Rightarrow>
               rbind (validated_params w m (env_params request)) (\<lambda>ps.
                 Inr \<lparr>iv_request = request, iv_method = m, iv_params = ps\<rparr>)))"

definition resolve_arguments :: "'o resolver \<Rightarrow> injected list \<Rightarrow> exc + (string, 'o) dict" where
  "resolve_arguments r is =
     fold_res (\<lambda>i d. rbind (r (ij_dependency i)) (\<lambda>v. Inr (dict_set (ij_name i) v d))) is []"

definition definition_error :: "string \<Rightarrow> exc" where
  "definition_error t = PlainExc cls_ProtocolDefinitionError t"

definition execute :: "'o world \<Rightarrow> 'o resolver \<Rightarrow> 'o invocation \<Rightarrow> exc + 'o" where
  "execute w r iv =
     (let m = iv_method iv in
      case (md_function m, md_scope m) of
        (Some f, Some scope) \<Rightarrow>
          w_scope w scope r (\<lambda>resolver.
            rbind (resolve_arguments resolver (md_injected m)) (\<lambda>args.
            rbind (case iv_params iv of
                     None \<Rightarrow> Inr args
                   | Some v \<Rightarrow>
                       (case md_params_parameter m of
                          None \<Rightarrow> Inl (definition_error (''RPC method '' @ md_name m @ '' has no params parameter''))
                        | Some n \<Rightarrow> Inr (dict_set n v args))) (\<lambda>args'.
            rbind (w_call w f args') (\<lambda>result.
            rbind (w_result w (md_result m) result) (\<lambda>validated.
            Inr (if w_is_model w result then result else validated))))))
      | _ \<Rightarrow> Inl (definition_error (''RPC method '' @ md_name m @ '' is not executable'')))"

definition assert_executable :: "protocol \<Rightarrow> exc + unit" where
  "assert_executable p =
     (let missing = sort (map md_name (filter (\<lambda>m. md_function m = None) (dict_vals (pc_methods p)))) in
      raise_if (missing \<noteq> []) (definition_error ''RPC protocol has no functions for methods''))"

section \<open>Reading a raw request\<close>

definition raw_request_id :: "json \<Rightarrow> request_id" where
  "raw_request_id raw =
     (case obj_get raw ''id'' of
        Some (JStr s) \<Rightarrow> IdStr s
      | Some (JInt i) \<Rightarrow> IdInt i
      | _ \<Rightarrow> IdNull)"

definition raw_request_method :: "json \<Rightarrow> string option" where
  "raw_request_method raw = (case obj_get raw ''method'' of Some (JStr s) \<Rightarrow> Some s | _ \<Rightarrow> None)"

definition looks_like_notification :: "json \<Rightarrow> bool" where
  "looks_like_notification raw =
     (is_obj raw \<and> \<not> has_key ''id'' raw \<and> obj_get raw ''jsonrpc'' = Some (JStr ''2.0'')
      \<and> raw_request_method raw \<noteq> None)"

text \<open>A request that validates is a notification exactly when it looks like one, and keeps its id.\<close>

lemma envelope_notification:
  assumes "validate_envelope raw = Some e"
  shows "expects_response e \<longleftrightarrow> \<not> looks_like_notification raw"
    and "env_id e = raw_request_id raw"
    and "raw_request_method raw = Some (env_method e)"
proof -
  note e = validate_envelope_Some [OF assms]
  show "expects_response e \<longleftrightarrow> \<not> looks_like_notification raw"
    using e by (auto simp: expects_response_def looks_like_notification_def raw_request_method_def)
  show "env_id e = raw_request_id raw"
  proof (cases "obj_get raw ''id''")
    case None
    with e show ?thesis by (simp add: raw_request_id_def)
  next
    case (Some j)
    with e show ?thesis by (cases j) (simp_all add: raw_request_id_def)
  qed
  show "raw_request_method raw = Some (env_method e)"
    using e by (simp add: raw_request_method_def)
qed

section \<open>The server\<close>

datatype mapper_result = MapNone | MapError rpc_error | MapOther

record 'o server =
  sv_protocol :: protocol
  sv_resolver :: "'o resolver"
  sv_mapper :: "(exc \<Rightarrow> exc + mapper_result) option"
  sv_limits :: rpc_limits
  sv_strict :: bool

definition is_declared :: "rpc_error \<Rightarrow> error_type list \<Rightarrow> bool" where
  "is_declared e declared = list_ex (\<lambda>t. issubclass (ec_class (err_class e)) (ec_class (error_info t))) declared"

text \<open>
  The error a failure is mapped to before the strict check (\<open>None\<close>: nothing maps it), or on the left
  the internal error that is returned at once.
\<close>

definition binding_answer :: "'o world \<Rightarrow> contract \<Rightarrow> exc \<Rightarrow> rpc_error + rpc_error option" where
  "binding_answer w c error =
     (case to_error (w_validate w) (w_model w) c error of
        Inl _ \<Rightarrow> Inl err_internal
      | Inr e \<Rightarrow> Inr (Some e))"

definition mapper_answer :: "'o server \<Rightarrow> exc \<Rightarrow> rpc_error + rpc_error option" where
  "mapper_answer sv error =
     (case sv_mapper sv of
        None \<Rightarrow> Inr None
      | Some f \<Rightarrow>
          (case f error of
             Inl _ \<Rightarrow> Inl err_internal
           | Inr MapOther \<Rightarrow> Inl err_internal
           | Inr MapNone \<Rightarrow> Inr None
           | Inr (MapError e) \<Rightarrow> Inr (Some e)))"

definition map_failure ::
  "'o world \<Rightarrow> 'o server \<Rightarrow> exc \<Rightarrow> error_type list \<Rightarrow> exc + (rpc_error + rpc_error option)" where
  "map_failure w sv error declared =
     (case error of
        RpcErrorExc e \<Rightarrow> Inr (Inr (Some e))
      | _ \<Rightarrow>
          (case bind_contracts (List.map_filter contract_of declared) ''RPC error bindings'' of
             Inl _ \<Rightarrow> Inl (definition_error ''RPC error bindings'')
           | Inr bound \<Rightarrow>
               Inr (case contract_for error bound of
                      Some c \<Rightarrow> binding_answer w c error
                    | None \<Rightarrow> mapper_answer sv error)))"

definition rpc_error_for ::
  "'o world \<Rightarrow> 'o server \<Rightarrow> exc \<Rightarrow> string option \<Rightarrow> error_type list \<Rightarrow> exc + rpc_error" where
  "rpc_error_for w sv error name declared =
     rbind (map_failure w sv error declared) (\<lambda>m.
       Inr (case m of
              Inl e \<Rightarrow> e
            | Inr None \<Rightarrow> err_internal
            | Inr (Some e) \<Rightarrow>
                if sv_strict sv \<and> name \<noteq> None \<and> \<not> ec_builtin (err_class e) \<and> \<not> is_declared e declared
                then err_internal else e))"

definition failure_response ::
  "'o world \<Rightarrow> 'o server \<Rightarrow> json \<Rightarrow> exc \<Rightarrow> error_type list \<Rightarrow> exc + 'o response option" where
  "failure_response w sv raw error declared =
     rbind (rpc_error_for w sv error (raw_request_method raw) declared) (\<lambda>mapped.
       Inr (if looks_like_notification raw then None
            else Some (RpcFailure (raw_request_id raw) mapped)))"

text \<open>An annotation is named by the class of the wire model, when it is one.\<close>

definition ann_id :: "ann \<Rightarrow> nat option" where
  "ann_id a = (case a of AnnClass c \<Rightarrow> Some (cls_id c) | _ \<Rightarrow> None)"

definition dispatch_request ::
  "'o world \<Rightarrow> 'o server \<Rightarrow> exc option \<Rightarrow> json \<Rightarrow> exc + 'o response option" where
  "dispatch_request w sv failure raw =
     (case failure of
        Some e \<Rightarrow> failure_response w sv raw e []
      | None \<Rightarrow>
          (case parse_request w (sv_protocol sv) raw of
             Inl e \<Rightarrow> failure_response w sv raw e []
           | Inr iv \<Rightarrow>
               (case execute w (sv_resolver sv) iv of
                  Inl e \<Rightarrow> failure_response w sv raw e (md_raises (iv_method iv))
                | Inr result \<Rightarrow>
                    Inr (if expects_response (iv_request iv)
                         then Some (RpcSuccess (env_id (iv_request iv)) result
                                      (ann_id (md_result (iv_method iv))))
                         else None))))"

definition handle_failure :: "'o world \<Rightarrow> 'o server \<Rightarrow> json \<Rightarrow> rpc_error \<Rightarrow> exc + 'o response option" where
  "handle_failure w sv raw e = dispatch_request w sv (Some (RpcErrorExc e)) raw"

definition handle_one :: "'o world \<Rightarrow> 'o server \<Rightarrow> json \<Rightarrow> exc + 'o response option" where
  "handle_one w sv raw = dispatch_request w sv None raw"

datatype 'o reply = NoReply | One "'o response" | Many "'o response list"

definition handle :: "'o world \<Rightarrow> 'o server \<Rightarrow> json \<Rightarrow> exc + 'o reply" where
  "handle w sv raw =
     (case raw of
        JArr items \<Rightarrow>
          if items = [] \<or> max_batch_size (sv_limits sv) < int (length items)
          then rbind (handle_failure w sv raw err_invalid_request)
                 (\<lambda>r. Inr (case r of None \<Rightarrow> NoReply | Some x \<Rightarrow> One x))
          else rbind (traverse (handle_one w sv) items) (\<lambda>rs.
                 Inr (case List.map_filter (\<lambda>r. r) rs of [] \<Rightarrow> NoReply | xs \<Rightarrow> Many xs))
      | _ \<Rightarrow> rbind (handle_one w sv raw)
               (\<lambda>r. Inr (case r of None \<Rightarrow> NoReply | Some x \<Rightarrow> One x)))"

definition encode_reply ::
  "(nat option \<Rightarrow> 'o \<Rightarrow> exc + json) \<Rightarrow> 'o reply \<Rightarrow> exc + string option" where
  "encode_reply dump r =
     (case r of
        NoReply \<Rightarrow> Inr None
      | One x \<Rightarrow> rbind (codec_encode_one dump x) (\<lambda>s. Inr (Some s))
      | Many xs \<Rightarrow> rbind (codec_encode_batch dump xs) (\<lambda>s. Inr (Some s)))"

text \<open>A message that is not JSON is not a dictionary: its failure has the id \<open>null\<close>.\<close>

definition handle_json ::
  "(string \<Rightarrow> json option) \<Rightarrow> (nat option \<Rightarrow> 'o \<Rightarrow> exc + json) \<Rightarrow> 'o world \<Rightarrow> 'o server \<Rightarrow> string \<Rightarrow>
   exc + string option" where
  "handle_json loads dump w sv message =
     (case codec_decode loads message of
        Inl e \<Rightarrow>
          rbind (handle_failure w sv (JStr message) e) (\<lambda>r.
            encode_reply dump (case r of None \<Rightarrow> NoReply | Some x \<Rightarrow> One x))
      | Inr request \<Rightarrow> rbind (handle w sv request) (encode_reply dump))"

section \<open>Answers\<close>

text \<open>Methods of a protocol had their bindings checked when it was built.\<close>

definition raises_ok :: "error_type list \<Rightarrow> bool" where
  "raises_ok ts =
     (\<forall>owner. \<exists>b. bind_contracts (List.map_filter contract_of ts) owner = Inr b)"

lemma bind_contract_owner:
  "(\<exists>b'. bind_contract owner c b = Inr b' \<and> bind_contract owner' c b = Inr b')
   \<or> (\<exists>e e'. bind_contract owner c b = Inl e \<and> bind_contract owner' c b = Inl e')"
  by (auto simp: bind_contract_def split: option.splits)

lemma bind_contracts_owner:
  "fold_res (bind_contract owner) cs b = Inr b' \<Longrightarrow> fold_res (bind_contract owner') cs b = Inr b'"
proof (induction cs arbitrary: b)
  case Nil
  then show ?case by simp
next
  case (Cons c cs)
  then obtain b1 where "bind_contract owner c b = Inr b1" "fold_res (bind_contract owner) cs b1 = Inr b'"
    by (auto simp: rbind_eq_Inr)
  moreover from this(1) bind_contract_owner [of owner c b owner']
  have "bind_contract owner' c b = Inr b1" by auto
  ultimately show ?case using Cons.IH by simp
qed

lemma raises_ok_Inr: "bind_contracts (List.map_filter contract_of ts) owner = Inr b \<Longrightarrow> raises_ok ts"
  unfolding raises_ok_def bind_contracts_def using bind_contracts_owner by blast

lemma raises_ok_Nil: "raises_ok []"
  by (simp add: raises_ok_def bind_contracts_def List.map_filter_def)

definition server_ok :: "'o server \<Rightarrow> bool" where
  "server_ok sv =
     (protocol_ok (sv_protocol sv) \<and> (\<forall>m\<in>set (dict_vals (pc_methods (sv_protocol sv))). raises_ok (md_raises m)))"

lemma map_failure_total: "raises_ok declared \<Longrightarrow> \<exists>m. map_failure w sv error declared = Inr m"
proof -
  assume "raises_ok declared"
  then obtain b where "bind_contracts (List.map_filter contract_of declared) ''RPC error bindings'' = Inr b"
    by (auto simp: raises_ok_def)
  then show ?thesis by (cases error) (simp_all add: map_failure_def)
qed

lemma failure_response_Inr:
  assumes "raises_ok declared"
  shows "\<exists>r. failure_response w sv raw error declared = Inr r \<and> (r = None \<longleftrightarrow> looks_like_notification raw)
    \<and> (\<forall>x. r = Some x \<longrightarrow> response_id x = raw_request_id raw \<and> is_failure x)"
proof -
  from map_failure_total [OF assms] obtain m where "map_failure w sv error declared = Inr m" by blast
  then show ?thesis by (simp add: failure_response_def rpc_error_for_def)
qed

lemma parse_request_Inr:
  assumes "parse_request w p raw = Inr iv"
  shows "validate_envelope raw = Some (iv_request iv)
    \<and> protocol_method p (env_method (iv_request iv)) = Inr (iv_method iv)"
  using assms by (auto simp: parse_request_def result_simps split: option.splits sum.splits)

lemma dispatch_request_answers:
  assumes "server_ok sv"
  shows "\<exists>r. dispatch_request w sv failure raw = Inr r \<and> (r = None \<longleftrightarrow> looks_like_notification raw)
    \<and> (\<forall>x. r = Some x \<longrightarrow> response_id x = raw_request_id raw)"
proof (cases failure)
  case (Some e)
  then show ?thesis
    using failure_response_Inr [OF raises_ok_Nil, of w sv raw e] by (auto simp: dispatch_request_def)
next
  case None
  show ?thesis
  proof (cases "parse_request w (sv_protocol sv) raw")
    case (Inl e)
    then show ?thesis
      using None failure_response_Inr [OF raises_ok_Nil, of w sv raw e]
      by (auto simp: dispatch_request_def)
  next
    case (Inr iv)
    note parsed = parse_request_Inr [OF this]
    then have declared: "raises_ok (md_raises (iv_method iv))"
      using assms protocol_method_Inr [OF _ conjunct2] unfolding server_ok_def by blast
    note env = envelope_notification [OF parsed [THEN conjunct1]]
    show ?thesis
    proof (cases "execute w (sv_resolver sv) iv")
      case (Inl e)
      then show ?thesis
        using None Inr failure_response_Inr [OF declared, of w sv raw e]
        by (auto simp: dispatch_request_def)
    next
      case (Inr v)
      then show ?thesis
        using None \<open>parse_request w (sv_protocol sv) raw = Inr iv\<close> env
        by (auto simp: dispatch_request_def)
    qed
  qed
qed

lemma handle_one_answers:
  "server_ok sv \<Longrightarrow> \<exists>r. handle_one w sv raw = Inr r \<and> (r = None \<longleftrightarrow> looks_like_notification raw)
    \<and> (\<forall>x. r = Some x \<longrightarrow> response_id x = raw_request_id raw)"
  unfolding handle_one_def by (rule dispatch_request_answers)

lemma handle_failure_answers:
  "server_ok sv \<Longrightarrow> \<exists>r. handle_failure w sv raw e = Inr r \<and> (r = None \<longleftrightarrow> looks_like_notification raw)
    \<and> (\<forall>x. r = Some x \<longrightarrow> response_id x = raw_request_id raw)"
  unfolding handle_failure_def by (rule dispatch_request_answers)

text \<open>The answers of a batch: one for each item that is not a notification, in order.\<close>

lemma traverse_handle_one:
  assumes "server_ok sv"
  shows "\<exists>rs. traverse (handle_one w sv) items = Inr rs
    \<and> map response_id (List.map_filter (\<lambda>r. r) rs)
        = map raw_request_id (filter (\<lambda>i. \<not> looks_like_notification i) items)"
proof (induction items)
  case Nil
  then show ?case by (simp add: List.map_filter_def)
next
  case (Cons i items)
  then obtain rs where rs: "traverse (handle_one w sv) items = Inr rs"
    "map response_id (List.map_filter (\<lambda>r. r) rs)
       = map raw_request_id (filter (\<lambda>i. \<not> looks_like_notification i) items)" by blast
  from handle_one_answers [OF assms] obtain r where r: "handle_one w sv i = Inr r"
    "r = None \<longleftrightarrow> looks_like_notification i" "\<forall>x. r = Some x \<longrightarrow> response_id x = raw_request_id i"
    by blast
  then show ?case using rs by (cases r) (auto simp: List.map_filter_def)
qed

lemma handle_batch:
  assumes "server_ok sv" "items \<noteq> []" "int (length items) \<le> max_batch_size (sv_limits sv)"
  shows "\<exists>reply. handle w sv (JArr items) = Inr reply \<and>
    (case reply of
       NoReply \<Rightarrow> \<forall>i\<in>set items. looks_like_notification i
     | One x \<Rightarrow> False
     | Many xs \<Rightarrow> xs \<noteq> [] \<and>
         map response_id xs = map raw_request_id (filter (\<lambda>i. \<not> looks_like_notification i) items))"
proof -
  from traverse_handle_one [OF assms(1)] obtain rs where rs:
    "traverse (handle_one w sv) items = Inr rs"
    "map response_id (List.map_filter (\<lambda>r. r) rs)
       = map raw_request_id (filter (\<lambda>i. \<not> looks_like_notification i) items)" by blast
  show ?thesis
  proof (cases "List.map_filter (\<lambda>r. r) rs")
    case Nil
    with rs(2) have "filter (\<lambda>i. \<not> looks_like_notification i) items = []" by (metis list.map_disc_iff)
    then show ?thesis using assms(2,3) rs(1) Nil by (auto simp: handle_def filter_empty_conv)
  next
    case (Cons x xs)
    with assms(2,3) rs show ?thesis by (simp add: handle_def)
  qed
qed

lemma handle_bad_batch:
  assumes "server_ok sv" "items = [] \<or> max_batch_size (sv_limits sv) < int (length items)"
  shows "handle w sv (JArr items) = Inr (One (RpcFailure IdNull err_invalid_request))"
  using assms
  by (auto simp: handle_def handle_failure_def dispatch_request_def failure_response_def
      rpc_error_for_def map_failure_def looks_like_notification_def raw_request_id_def
      raw_request_method_def)

section \<open>Errors\<close>

text \<open>Under strict errors only a built-in error or a declared one leaves the server.\<close>

lemma ec_builtin_errors:
  "ec_builtin (err_class err_internal)" "ec_builtin (err_class err_timeout)"
  "ec_builtin (err_class err_cancelled)"
  by code_simp+

lemmas ec_builtin_internal = ec_builtin_errors(1)
lemmas ec_builtin_timeout = ec_builtin_errors(2)
lemmas ec_builtin_cancelled = ec_builtin_errors(3)

lemma map_failure_internal: "map_failure w sv error declared = Inr (Inl e) \<Longrightarrow> e = err_internal"
  by (auto simp: map_failure_def binding_answer_def mapper_answer_def
      split: exc.splits option.splits sum.splits mapper_result.splits)

lemma rpc_error_for_strict:
  assumes "rpc_error_for w sv error (Some name) declared = Inr e" "sv_strict sv"
  shows "ec_builtin (err_class e) \<or> is_declared e declared"
proof -
  from assms(1) obtain m where m: "map_failure w sv error declared = Inr m"
    by (auto simp: rpc_error_for_def result_simps)
  show ?thesis
  proof (cases m)
    case (Inl x)
    with m map_failure_internal have "x = err_internal" by blast
    then show ?thesis using assms(1) m Inl ec_builtin_internal by (simp add: rpc_error_for_def)
  next
    case (Inr o')
    then show ?thesis
      using assms m ec_builtin_internal
      by (cases o') (auto simp: rpc_error_for_def split: if_splits)
  qed
qed

text \<open>A failure that nothing maps is answered with the internal error: its text does not leave.\<close>

lemma rpc_error_for_unmapped:
  assumes "map_failure w sv error declared = Inr (Inr None)"
  shows "rpc_error_for w sv error name declared = Inr err_internal"
  using assms by (simp add: rpc_error_for_def)

lemma rpc_error_for_bound:
  assumes "\<forall>e. error \<noteq> RpcErrorExc e"
    and "bind_contracts (List.map_filter contract_of declared) ''RPC error bindings'' = Inr b"
    and "contract_for error b = Some c"
    and "to_error (w_validate w) (w_model w) c error = Inr e"
    and "\<not> sv_strict sv \<or> is_declared e declared"
  shows "rpc_error_for w sv error name declared = Inr e"
proof -
  have "map_failure w sv error declared = Inr (Inr (Some e))"
    using assms(1-4) by (cases error) (simp_all add: map_failure_def binding_answer_def)
  then show ?thesis using assms(5) by (auto simp: rpc_error_for_def)
qed

section \<open>Timeouts and cancellation\<close>

text \<open>
  \<open>_run_bounded\<close>. \<open>inner\<close> is how the \<open>async with\<close> block ends: \<open>asyncio.timeout_at\<close> turns a
  cancellation it caused into a \<open>TimeoutError\<close> and tells with \<open>expired()\<close> that its deadline passed.
\<close>

datatype 'r inner =
    InnerReturn 'r
  | InnerTimeout
  | InnerCancelled bool
  | InnerRaised exc

datatype 'r bounded = Responded 'r | RaisesTimeout | RaisesCancelled | Raises exc

definition method_timeout :: "protocol \<Rightarrow> rpc_limits \<Rightarrow> json \<Rightarrow> rat option" where
  "method_timeout p limits raw =
     (case map_of (pc_methods p) (case raw_request_method raw of None \<Rightarrow> [] | Some n \<Rightarrow> n) of
        Some m \<Rightarrow> if md_has_timeout m then md_timeout m else map_option num_rat (request_timeout limits)
      | None \<Rightarrow> map_option num_rat (request_timeout limits))"

definition request_deadline :: "protocol \<Rightarrow> rpc_limits \<Rightarrow> json \<Rightarrow> rat \<Rightarrow> rat option \<Rightarrow> rat option" where
  "request_deadline p limits raw now admitted =
     map_option (\<lambda>t. (case admitted of None \<Rightarrow> now | Some a \<Rightarrow> a) + t) (method_timeout p limits raw)"

text \<open>\<open>close_code\<close> is the connection's, \<open>None\<close> also when the server has no connection.\<close>

definition interruption :: "bool \<Rightarrow> bool \<Rightarrow> conn_close option \<Rightarrow> rpc_error option" where
  "interruption expired client_cancel close_code =
     (if expired then Some err_timeout
      else if client_cancel \<and> close_code = None then Some err_cancelled
      else None)"

definition run_bounded ::
  "'o world \<Rightarrow> 'o server \<Rightarrow> json \<Rightarrow> rat option \<Rightarrow> bool \<Rightarrow> conn_close option \<Rightarrow>
   'o response option option \<Rightarrow> 'o response option inner \<Rightarrow> 'o response option bounded" where
  "run_bounded w sv raw deadline passed close_code observed inner =
     (let expired = (deadline \<noteq> None \<and> passed);
          answer = (\<lambda>e. case observed of
                      Some r \<Rightarrow> Responded r
                    | None \<Rightarrow>
                        (case failure_response w sv raw (RpcErrorExc e) [] of
                           Inl x \<Rightarrow> Raises x
                         | Inr r \<Rightarrow> Responded r))
      in case inner of
           InnerReturn r \<Rightarrow> Responded r
         | InnerRaised e \<Rightarrow> Raises e
         | InnerTimeout \<Rightarrow> if \<not> expired then RaisesTimeout else answer err_timeout
         | InnerCancelled token \<Rightarrow>
             (case interruption expired token close_code of
                None \<Rightarrow> RaisesCancelled
              | Some e \<Rightarrow> answer e))"

text \<open>
  A request that runs past its deadline, or that its client cancels, is answered: with the timeout
  error, or with the cancellation error while the connection is not closing. Any other cancellation
  ends the task without an answer.
\<close>

lemma run_bounded_interrupted:
  assumes "deadline \<noteq> None \<and> passed \<or> inner = InnerCancelled True \<and> close_code = None"
    and "inner = InnerTimeout \<or> inner = InnerCancelled token" "\<not> looks_like_notification raw"
    and "inner = InnerTimeout \<longrightarrow> deadline \<noteq> None \<and> passed" "\<not> sv_strict sv \<or> ec_builtin (err_class err_timeout)"
    and "\<not> sv_strict sv \<or> ec_builtin (err_class err_cancelled)"
  shows "run_bounded w sv raw deadline passed close_code None inner =
     Responded (Some (RpcFailure (raw_request_id raw)
       (if deadline \<noteq> None \<and> passed then err_timeout else err_cancelled)))"
  using assms
  by (auto simp: run_bounded_def Let_def interruption_def failure_response_def rpc_error_for_def
      map_failure_def)

section \<open>Properties\<close>

text \<open>A protocol with one method, whose function fails, and the binding of its failure.\<close>

definition ping_fn :: pyfun where
  "ping_fn =
     \<lparr>fn_name = ''ping'', fn_qualname = ''ping'', fn_params = [],
      fn_return = Some (AnnClass cls_NoneType), fn_kind = CoroutineFunction, fn_doc = None,
      fn_is_function = True\<rparr>"

definition refused_binding :: contract where
  "refused_binding =
     \<lparr>ct_exception = cls_ValueError, ct_rejection = None, ct_message = MsgNone, ct_details = DtNone,
      ct_error = \<lparr>ec_class = builtin_class 100 ''RefusedRpcError'' [10, 2, 1, 0], ec_code = ''refused'',
        ec_message = ''Refused'', ec_rpc_code = -32000, ec_details_type = None, ec_builtin = False\<rparr>\<rparr>"

definition ping_method :: method_def where
  "ping_method =
     \<lparr>md_name = ''ping'', md_handler_name = ''ping'', md_request_name = ''PingRequest'', md_params = None,
      md_result = AnnClass cls_NoneType, md_summary = None, md_raises = [BoundError refused_binding],
      md_server = None, md_function = Some ping_fn, md_injected = [], md_scope = Some 0,
      md_params_parameter = None, md_params_origin = None, md_timeout = None, md_has_timeout = False,
      md_idempotent = False\<rparr>"

definition ping_protocol :: protocol where
  "ping_protocol =
     \<lparr>pc_version = 1, pc_methods = [(''ping'', ping_method)], pc_notifications = [], pc_subscriptions = [],
      pc_notification_types = [], pc_streams = [], pc_client_methods = [], pc_raw_sockets = []\<rparr>"

definition ping_server :: "string server" where
  "ping_server =
     \<lparr>sv_protocol = ping_protocol, sv_resolver = (\<lambda>_. Inl (type_error [])), sv_mapper = None,
      sv_limits = default_limits, sv_strict = True\<rparr>"

definition ping_world :: "string world" where
  "ping_world =
     \<lparr>w_scope = (\<lambda>_ r body. body r), w_call = (\<lambda>_ _. Inl (PlainExc cls_ValueError ''no'')),
      w_params = (\<lambda>_ _. Inr []), w_is_type = (\<lambda>_ _. True), w_reparse = (\<lambda>_ _. Inr []),
      w_result = (\<lambda>_ v. Inr v), w_is_model = (\<lambda>_. False), w_extra_message = ''extra'',
      w_validate = (\<lambda>_ e. Inl e), w_model = (\<lambda>_ _. Inl (type_error []))\<rparr>"

definition ping_request :: json where
  "ping_request = JObj [(''jsonrpc'', JStr ''2.0''), (''id'', JInt 7), (''method'', JStr ''ping'')]"

lemma ping_server_ok: "server_ok ping_server"
proof -
  have "raises_ok [BoundError refused_binding]"
    by (rule raises_ok_Inr [of _ "[]"])
      (simp add: bind_contracts_def bind_contract_def List.map_filter_def)
  then show ?thesis
    by (simp add: server_ok_def ping_server_def ping_protocol_def ping_method_def protocol_ok_def table_ok_def)
qed

text \<open>
  C1. Every request is answered: whatever value arrives, serving it ends without an exception; there
  is no response exactly when the value is a notification, and a response carries the id of the
  value it answers.
\<close>
theorem every_request_answered:
  assumes "server_ok sv"
  shows "\<exists>r. handle_one w sv raw = Inr r \<and> (r = None \<longleftrightarrow> looks_like_notification raw)
    \<and> (\<forall>x. r = Some x \<longrightarrow> response_id x = raw_request_id raw)"
  by (rule handle_one_answers [OF assms])

lemma every_request_answered_witness:
  "\<exists>x. handle_one ping_world ping_server ping_request = Inr (Some x) \<and> response_id x = IdInt 7"
proof -
  have "\<not> looks_like_notification ping_request" "raw_request_id ping_request = IdInt 7"
    by (simp_all add: ping_request_def looks_like_notification_def raw_request_id_def has_key_def)
  with every_request_answered [OF ping_server_ok, of ping_world ping_request] show ?thesis by auto
qed

text \<open>
  C2. Batches: a batch within the limit is answered by a list with one response for each item that
  is not a notification, in the order of the items, or not at all when there is none; an empty or
  oversized batch is answered by a single invalid-request error with the id \<open>null\<close>.
\<close>
theorem batch_answered:
  assumes "server_ok sv"
  shows "if items = [] \<or> max_batch_size (sv_limits sv) < int (length items)
    then handle w sv (JArr items) = Inr (One (RpcFailure IdNull err_invalid_request))
    else \<exists>reply. handle w sv (JArr items) = Inr reply \<and>
      (case reply of
         NoReply \<Rightarrow> \<forall>i\<in>set items. looks_like_notification i
       | One x \<Rightarrow> False
       | Many xs \<Rightarrow> xs \<noteq> [] \<and>
           map response_id xs = map raw_request_id (filter (\<lambda>i. \<not> looks_like_notification i) items))"
  using handle_batch [OF assms] handle_bad_batch [OF assms] by auto

lemma batch_answered_witness:
  "\<exists>xs. handle ping_world ping_server (JArr [ping_request, ping_request]) = Inr (Many xs)
     \<and> map response_id xs = [IdInt 7, IdInt 7]"
proof -
  have p: "\<not> looks_like_notification ping_request" "raw_request_id ping_request = IdInt 7"
    by (simp_all add: ping_request_def looks_like_notification_def raw_request_id_def has_key_def)
  have l: "max_batch_size (sv_limits ping_server) = 32" by (simp add: ping_server_def default_limits_def)
  from batch_answered [OF ping_server_ok, of "[ping_request, ping_request]" ping_world]
  obtain reply where "handle ping_world ping_server (JArr [ping_request, ping_request]) = Inr reply"
    "case reply of NoReply \<Rightarrow> \<forall>i\<in>set [ping_request, ping_request]. looks_like_notification i | One x \<Rightarrow> False
     | Many xs \<Rightarrow> xs \<noteq> [] \<and> map response_id xs =
         map raw_request_id (filter (\<lambda>i. \<not> looks_like_notification i) [ping_request, ping_request])"
    by (auto simp: l)
  with p show ?thesis by (cases reply) auto
qed

text \<open>
  C3. What leaves the server about a failure: a domain exception bound to an error of the method is
  answered with that error; a failure nothing maps is answered with the internal error, without its
  text; and under strict errors only a built-in error or a declared one leaves.
\<close>
theorem failures_mapped:
  "((\<forall>x. error \<noteq> RpcErrorExc x) \<longrightarrow>
      bind_contracts (List.map_filter contract_of declared) ''RPC error bindings'' = Inr b \<longrightarrow>
      contract_for error b = Some c \<longrightarrow> to_error (w_validate w) (w_model w) c error = Inr e \<longrightarrow>
      (\<not> sv_strict sv \<or> is_declared e declared) \<longrightarrow> rpc_error_for w sv error name declared = Inr e)
   \<and> (map_failure w sv error declared = Inr (Inr None) \<longrightarrow>
        rpc_error_for w sv error name declared = Inr err_internal)
   \<and> (sv_strict sv \<longrightarrow> rpc_error_for w sv error (Some n) declared = Inr e' \<longrightarrow>
        ec_builtin (err_class e') \<or> is_declared e' declared)"
  using rpc_error_for_bound [of error declared b c w e sv name] rpc_error_for_unmapped [of w sv error declared name]
    rpc_error_for_strict [of w sv error n declared e'] by blast

lemma failures_mapped_witness:
  "\<exists>e. rpc_error_for ping_world ping_server (PlainExc cls_ValueError ''no'') (Some ''ping'')
         [BoundError refused_binding] = Inr e \<and> err_message e = ''Refused''"
proof -
  define b where "b = [(4 :: nat, refused_binding)]"
  define e where "e = \<lparr>err_class = ct_error refused_binding, err_message = ''Refused'', err_details = None\<rparr>"
  have b: "bind_contracts (List.map_filter contract_of [BoundError refused_binding]) ''RPC error bindings'' = Inr b"
    by (simp add: bind_contracts_def bind_contract_def List.map_filter_def b_def dict_setdefault_def
        dict_has_def refused_binding_def builtin_class_defs)
  have c: "contract_for (PlainExc cls_ValueError ''no'') b = Some refused_binding"
    by (simp add: contract_for_def b_def dict_has_def builtin_class_defs)
  have t: "to_error (w_validate ping_world) (w_model ping_world) refused_binding (PlainExc cls_ValueError ''no'')
      = Inr e"
    by (simp add: to_error_def e_def refused_binding_def exc_isinstance_def issubclass_def
        builtin_class_defs message_for_def rpc_error_init_def)
  have d: "is_declared e [BoundError refused_binding]"
    by (simp add: is_declared_def e_def issubclass_def refused_binding_def builtin_class_defs)
  have "rpc_error_for ping_world ping_server (PlainExc cls_ValueError ''no'') (Some ''ping'')
         [BoundError refused_binding] = Inr e"
    using failures_mapped [where error = "PlainExc cls_ValueError ''no''" and b = b
        and c = refused_binding and w = ping_world and sv = ping_server and e = e
        and declared = "[BoundError refused_binding]"] b c t d by simp
  then show ?thesis by (intro exI [of _ e]) (simp add: e_def)
qed

text \<open>
  A request that runs past its deadline, waiting for the semaphore included, is answered with the
  timeout error; one its client cancels while the connection is not closing is answered with the
  cancellation error.
\<close>
theorem interrupted_request_answered:
  assumes "deadline \<noteq> None \<and> passed \<or> inner = InnerCancelled True \<and> close_code = None"
    and "inner = InnerTimeout \<or> inner = InnerCancelled token" "\<not> looks_like_notification raw"
    and "inner = InnerTimeout \<longrightarrow> deadline \<noteq> None \<and> passed"
  shows "run_bounded w sv raw deadline passed close_code None inner =
     Responded (Some (RpcFailure (raw_request_id raw)
       (if deadline \<noteq> None \<and> passed then err_timeout else err_cancelled)))"
  by (rule run_bounded_interrupted [OF assms]) (simp_all add: ec_builtin_timeout ec_builtin_cancelled)

lemma interrupted_request_answered_witness:
  "run_bounded ping_world ping_server ping_request None False None None (InnerCancelled True) =
     Responded (Some (RpcFailure (IdInt 7) err_cancelled))"
proof -
  have "\<not> looks_like_notification ping_request" "raw_request_id ping_request = IdInt 7"
    by (simp_all add: ping_request_def looks_like_notification_def raw_request_id_def has_key_def)
  with interrupted_request_answered [of None False "InnerCancelled True :: string response option inner" None True
      ping_request ping_world ping_server]
  show ?thesis by simp
qed

end
