(* ===== verification/ConnectedClient.thy ===== *)
theory ConnectedClient
  imports Server
begin

text \<open>
  \<open>connected_client.py\<close>: calls from the server to the connected client. A call is split at its
  awaits: \<open>call_begin\<close> up to the semaphore, \<open>call_enter\<close> when it has the semaphore, \<open>call_finish\<close> when its
  future is done or its timeout passed. \<open>client_resolve\<close> and \<open>client_close\<close> run between them.
\<close>

section \<open>Calls\<close>

datatype client_future = Waiting | Answered json | ConnectionLost

record client =
  cl_methods :: "(string, client_method_def) dict"
  cl_limits :: rpc_limits
  cl_pending :: "(string, client_future) dict"
  cl_next_id :: nat
  cl_closed :: bool
  cl_dropped :: nat

datatype call_error =
    NotDeclaredOnEndpoint string
  | ClientClosed
  | FrameTooLong string
  | BadMetadata metadata_error
  | TakesNoParams string
  | NeedsParams string
  | CannotDump exc
  | CallTimedOut string
  | MethodFailed string int string string json
  | ResultInvalid string
  | MissingResult
  | DeclaredError rpc_error

definition request_id_prefix :: string where
  "request_id_prefix = ''server:''"

definition client_create :: "client_method_def list \<Rightarrow> rpc_limits \<Rightarrow> client" where
  "client_create ms limits =
     \<lparr>cl_methods = fold (\<lambda>m. dict_set (cm_name m) m) ms [], cl_limits = limits, cl_pending = [],
      cl_next_id = 0, cl_closed = False, cl_dropped = 0\<rparr>"

text \<open>\<open>dump\<close> is the params adapter's \<open>dump_python\<close>; the metadata are a JSON object.\<close>

definition request_frame ::
  "(ann \<Rightarrow> 'o \<Rightarrow> exc + json) \<Rightarrow> string \<Rightarrow> client_method_def \<Rightarrow> 'o option \<Rightarrow> json option \<Rightarrow>
   call_error + string" where
  "request_frame dump request_id m params metadata =
     (let base = [(''jsonrpc'', JStr ''2.0''), (''id'', JStr request_id), (''method'', JStr (cm_name m))] in
      rbind (case metadata of
               None \<Rightarrow> Inr base
             | Some j \<Rightarrow>
                 (case validate_metadata j of
                    Inl e \<Rightarrow> Inl (BadMetadata e)
                  | Inr d \<Rightarrow> Inr (base @ [(''meta'', JObj (map (\<lambda>p. (fst p, JStr (snd p))) d))]))) (\<lambda>message.
      rbind (case (cm_params m, params) of
               (None, None) \<Rightarrow> Inr message
             | (None, Some _) \<Rightarrow> Inl (TakesNoParams (cm_name m))
             | (Some _, None) \<Rightarrow> Inl (NeedsParams (cm_name m))
             | (Some a, Some v) \<Rightarrow>
                 (case dump a v of
                    Inl e \<Rightarrow> Inl (CannotDump e)
                  | Inr j \<Rightarrow> Inr (message @ [(''params'', j)]))) (\<lambda>message'.
      Inr (json_dumps (JObj message')))))"

definition call_begin ::
  "(ann \<Rightarrow> 'o \<Rightarrow> exc + json) \<Rightarrow> string \<Rightarrow> 'o option \<Rightarrow> json option \<Rightarrow> client \<Rightarrow>
   (call_error + string \<times> string) \<times> client" where
  "call_begin dump name params metadata cl =
     (case map_of (cl_methods cl) name of
        None \<Rightarrow> (Inl (NotDeclaredOnEndpoint name), cl)
      | Some m \<Rightarrow>
          if cl_closed cl then (Inl ClientClosed, cl)
          else
            (let cl' = cl\<lparr>cl_next_id := cl_next_id cl + 1\<rparr>;
                 request_id = request_id_prefix @ nat_str (cl_next_id cl')
             in (rbind (request_frame dump request_id m params metadata) (\<lambda>frame.
                   case max_message_bytes (cl_limits cl) of
                     Some limit \<Rightarrow>
                       if limit < int (length frame) then Inl (FrameTooLong (cm_name m))
                       else Inr (request_id, frame)
                   | None \<Rightarrow> Inr (request_id, frame)), cl')))"

definition call_enter :: "string \<Rightarrow> client \<Rightarrow> (call_error + unit) \<times> client" where
  "call_enter request_id cl =
     (if cl_closed cl
      then (Inl ClientClosed, cl\<lparr>cl_pending := dict_del request_id (cl_pending cl)\<rparr>)
      else (Inr (), cl\<lparr>cl_pending := dict_set request_id Waiting (cl_pending cl)\<rparr>))"

definition is_client_response :: "json \<Rightarrow> bool" where
  "is_client_response message =
     (is_obj message \<and> \<not> has_key ''method'' message
      \<and> (has_key ''result'' message \<or> has_key ''error'' message))"

definition response_key :: "json \<Rightarrow> string option" where
  "response_key message = (case obj_get message ''id'' of Some (JStr i) \<Rightarrow> Some i | _ \<Rightarrow> None)"

text \<open>Whether the message was a response, and the state after taking it.\<close>

definition client_resolve :: "json \<Rightarrow> client \<Rightarrow> bool \<times> client" where
  "client_resolve message cl =
     (if \<not> is_client_response message then (False, cl)
      else
        (case Option.bind (response_key message) (\<lambda>i. map_option (Pair i) (map_of (cl_pending cl) i)) of
           Some (i, Waiting) \<Rightarrow> (True, cl\<lparr>cl_pending := dict_set i (Answered message) (cl_pending cl)\<rparr>)
         | _ \<Rightarrow> (True, cl\<lparr>cl_dropped := cl_dropped cl + 1\<rparr>)))"

definition client_close :: "client \<Rightarrow> client" where
  "client_close cl =
     (if cl_closed cl then cl
      else cl\<lparr>cl_closed := True,
              cl_pending := map (\<lambda>(i, f). (i, case f of Waiting \<Rightarrow> ConnectionLost | _ \<Rightarrow> f)) (cl_pending cl)\<rparr>)"

section \<open>Answers\<close>

definition declared_error_for :: "error_type list \<Rightarrow> json option \<Rightarrow> int \<Rightarrow> error_type option" where
  "declared_error_for errors code rpc_code =
     (case code of
        Some (JStr (c # cs)) \<Rightarrow> find (\<lambda>t. ec_code (error_info t) = c # cs) errors
      | _ \<Rightarrow>
          (case filter (\<lambda>t. ec_rpc_code (error_info t) = rpc_code) errors of
             [t] \<Rightarrow> Some t
           | _ \<Rightarrow> None))"

text \<open>
  \<open>parse\<close> is \<open>details_type.model_validate\<close> (\<open>None\<close>: it raises), \<open>mk_model\<close> the constructor of a details
  model. An \<open>int\<close> may be a \<open>bool\<close> in Python.
\<close>

definition json_int :: "json option \<Rightarrow> int" where
  "json_int j = (case j of Some (JInt i) \<Rightarrow> i | Some (JBool b) \<Rightarrow> (if b then 1 else 0) | _ \<Rightarrow> 0)"

definition client_error ::
  "(pyclass \<Rightarrow> json \<Rightarrow> model_value option) \<Rightarrow> (pyclass \<Rightarrow> (string \<times> json) list \<Rightarrow> exc + model_value) \<Rightarrow>
   client_method_def \<Rightarrow> json \<Rightarrow> call_error" where
  "client_error parse mk_model m error =
     (if \<not> is_obj error then MethodFailed (cm_name m) 0 [] ''Invalid error response'' JNull
      else
        (let data = obj_get error ''data'';
             code = Option.bind data (\<lambda>d. obj_get d ''code'');
             details = (case Option.bind data (\<lambda>d. obj_get d ''details'') of None \<Rightarrow> JNull | Some d \<Rightarrow> d);
             rpc_code = json_int (obj_get error ''code'');
             message = (case obj_get error ''message'' of Some (JStr s) \<Rightarrow> s | _ \<Rightarrow> ''Remote RPC error'');
             failed = MethodFailed (cm_name m) rpc_code
               (case code of Some (JStr c) \<Rightarrow> c | _ \<Rightarrow> []) message details
         in case declared_error_for (cm_raises m) code rpc_code of
              None \<Rightarrow> failed
            | Some t \<Rightarrow>
                (case (case ec_details_type (error_info t) of
                         None \<Rightarrow> rpc_error_init mk_model (error_info t) DetNone (Some message) []
                       | Some d \<Rightarrow>
                           (case parse d details of
                              None \<Rightarrow> Inl (type_error [])
                            | Some v \<Rightarrow> rpc_error_init mk_model (error_info t) (DetModel v) (Some message) [])) of
                   Inl _ \<Rightarrow> failed
                 | Inr e \<Rightarrow> DeclaredError e)))"

definition client_result ::
  "(ann \<Rightarrow> json \<Rightarrow> 'o option) \<Rightarrow> (pyclass \<Rightarrow> json \<Rightarrow> model_value option) \<Rightarrow>
   (pyclass \<Rightarrow> (string \<times> json) list \<Rightarrow> exc + model_value) \<Rightarrow> client_method_def \<Rightarrow> json \<Rightarrow> call_error + 'o" where
  "client_result validate parse mk_model m message =
     (case obj_get message ''error'' of
        Some e \<Rightarrow> Inl (client_error parse mk_model m e)
      | None \<Rightarrow>
          (case obj_get message ''result'' of
             None \<Rightarrow> Inl MissingResult
           | Some r \<Rightarrow>
               (case validate (cm_result m) r of
                  None \<Rightarrow> Inl (ResultInvalid (cm_name m))
                | Some v \<Rightarrow> Inr v)))"

text \<open>\<open>None\<close>: the call still waits. The call's entry is removed however it ends.\<close>

definition call_finish ::
  "(ann \<Rightarrow> json \<Rightarrow> 'o option) \<Rightarrow> (pyclass \<Rightarrow> json \<Rightarrow> model_value option) \<Rightarrow>
   (pyclass \<Rightarrow> (string \<times> json) list \<Rightarrow> exc + model_value) \<Rightarrow> client_method_def \<Rightarrow> string \<Rightarrow> bool \<Rightarrow> client \<Rightarrow>
   ((call_error + 'o) \<times> client) option" where
  "call_finish validate parse mk_model m request_id timed_out cl =
     (let cl' = cl\<lparr>cl_pending := dict_del request_id (cl_pending cl)\<rparr> in
      if timed_out then Some (Inl (CallTimedOut (cm_name m)), cl')
      else
        (case map_of (cl_pending cl) request_id of
           Some (Answered message) \<Rightarrow> Some (client_result validate parse mk_model m message, cl')
         | Some ConnectionLost \<Rightarrow> Some (Inl ClientClosed, cl')
         | _ \<Rightarrow> None))"

section \<open>Invariant\<close>

text \<open>
  Pending calls have distinct ids the client gave out before, and a closed client waits for none.
\<close>

definition given_id :: "client \<Rightarrow> string \<Rightarrow> bool" where
  "given_id cl i = (\<exists>n. 0 < n \<and> n \<le> cl_next_id cl \<and> i = request_id_prefix @ nat_str n)"

definition client_ok :: "client \<Rightarrow> bool" where
  "client_ok cl =
     (distinct (map fst (cl_pending cl))
      \<and> (\<forall>i\<in>fst ` set (cl_pending cl). given_id cl i)
      \<and> (cl_closed cl \<longrightarrow> Waiting \<notin> snd ` set (cl_pending cl)))"

inductive client_step :: "client \<Rightarrow> client \<Rightarrow> bool" where
  Begin: "call_begin (dump :: ann \<Rightarrow> json \<Rightarrow> exc + json) name params metadata cl = (r, cl') \<Longrightarrow> client_step cl cl'"
| Enter: "\<lbrakk>0 < n; n \<le> cl_next_id cl; call_enter (request_id_prefix @ nat_str n) cl = (r, cl')\<rbrakk> \<Longrightarrow>
     client_step cl cl'"
| Resolve: "client_resolve message cl = (b, cl') \<Longrightarrow> client_step cl cl'"
| Close: "client_step cl (client_close cl)"
| Finish: "call_finish (validate :: ann \<Rightarrow> json \<Rightarrow> json option) parse mk_model m i timed_out cl = Some (r, cl') \<Longrightarrow> client_step cl cl'"

inductive_cases client_step_cases: "client_step cl cl'"

lemma client_begin_next: "call_begin dump name params metadata cl = (r, cl') \<Longrightarrow>
    cl_pending cl' = cl_pending cl \<and> cl_closed cl' = cl_closed cl \<and> cl_next_id cl \<le> cl_next_id cl'"
  by (auto simp: call_begin_def Let_def split: option.splits if_splits)

lemma client_ok_begin:
  "call_begin dump name params metadata cl = (r, cl') \<Longrightarrow> client_ok cl \<Longrightarrow> client_ok cl'"
  using client_begin_next [of dump name params metadata cl r cl']
  by (fastforce simp: client_ok_def given_id_def)

lemma dict_set_in_keys: "fst ` set (dict_set i v d) = insert i (fst ` set d)"
  by (induction d) auto

lemma update_vals_subset: "snd ` set (dict_set i v d) \<subseteq> insert v (snd ` set d)"
  by (induction d) auto

lemma delete_subset: "set (dict_del i d) \<subseteq> set d"
  by (auto simp: AList.delete_eq)

lemma client_ok_pending:
  assumes "client_ok cl" "distinct (map fst p)" "fst ` set p \<subseteq> fst ` set (cl_pending cl)"
    and "Waiting \<in> snd ` set p \<Longrightarrow> Waiting \<in> snd ` set (cl_pending cl)"
  shows "client_ok (cl\<lparr>cl_pending := p\<rparr>)"
proof -
  have "\<forall>i\<in>fst ` set p. given_id cl i"
    using assms(1,3) unfolding client_ok_def by blast
  moreover have "cl_closed cl \<longrightarrow> Waiting \<notin> snd ` set p"
    using assms(1,4) unfolding client_ok_def by blast
  ultimately show ?thesis using assms(2) by (simp add: client_ok_def given_id_def)
qed

lemma client_ok_dropped [simp]: "client_ok (cl\<lparr>cl_dropped := n\<rparr>) = client_ok cl"
  by (simp add: client_ok_def given_id_def)

lemma delete_keys: "fst ` set (dict_del i d) \<subseteq> fst ` set d" "snd ` set (dict_del i d) \<subseteq> snd ` set d"
  using delete_subset [of i d] by (auto simp: image_mono)

lemma client_ok_delete: "client_ok cl \<Longrightarrow> client_ok (cl\<lparr>cl_pending := dict_del i (cl_pending cl)\<rparr>)"
proof -
  assume ok: "client_ok cl"
  then have d: "distinct (map fst (cl_pending cl))" by (simp only: client_ok_def)
  show ?thesis
    by (rule client_ok_pending [OF ok distinct_dict_del [OF d] delete_keys(1)])
      (rule subsetD [OF delete_keys(2)])
qed

lemma client_ok_enter:
  assumes "call_enter i cl = (r, cl')" "client_ok cl" "0 < n" "n \<le> cl_next_id cl"
    and "i = request_id_prefix @ nat_str n"
  shows "client_ok cl'"
proof (cases "cl_closed cl")
  case True
  then have "cl' = cl\<lparr>cl_pending := dict_del i (cl_pending cl)\<rparr>" using assms(1) by (simp add: call_enter_def)
  then show ?thesis using client_ok_delete [OF assms(2)] by simp
next
  case False
  then have cl': "cl' = cl\<lparr>cl_pending := dict_set i Waiting (cl_pending cl)\<rparr>"
    using assms(1) by (simp add: call_enter_def)
  have "distinct (map fst (cl_pending cl))" using assms(2) by (simp only: client_ok_def)
  then have "distinct (map fst (dict_set i Waiting (cl_pending cl)))" by (rule distinct_dict_set)
  moreover have "\<forall>k\<in>fst ` set (dict_set i Waiting (cl_pending cl)). given_id cl k"
    using assms(2-5) unfolding client_ok_def dict_set_in_keys given_id_def by blast
  ultimately show ?thesis using False by (simp add: cl' client_ok_def given_id_def)
qed

lemma response_key_Some: "response_key message = Some i \<longleftrightarrow> obj_get message ''id'' = Some (JStr i)"
  by (auto simp: response_key_def split: option.splits json.splits)

lemma client_resolve_cases:
  assumes "client_resolve message cl = (b, cl')"
  obtains (other) "cl' = cl"
  | (dropped) "b" "cl' = cl\<lparr>cl_dropped := cl_dropped cl + 1\<rparr>"
  | (taken) i where "b" "obj_get message ''id'' = Some (JStr i)" "map_of (cl_pending cl) i = Some Waiting"
      "cl' = cl\<lparr>cl_pending := dict_set i (Answered message) (cl_pending cl)\<rparr>"
proof (cases "is_client_response message")
  case False
  with assms other show thesis by (simp add: client_resolve_def)
next
  case True
  show thesis
  proof (cases "\<exists>i. response_key message = Some i \<and> map_of (cl_pending cl) i = Some Waiting")
    case True
    then obtain i where "response_key message = Some i" "map_of (cl_pending cl) i = Some Waiting" by blast
    with assms \<open>is_client_response message\<close> taken response_key_Some show thesis
      by (simp add: client_resolve_def)
  next
    case False
    then have "(b, cl') = (True, cl\<lparr>cl_dropped := cl_dropped cl + 1\<rparr>)"
      using assms \<open>is_client_response message\<close>
      by (cases "response_key message"; cases "map_of (cl_pending cl) (the (response_key message))")
        (auto simp: client_resolve_def split: client_future.splits)
    with dropped show thesis by simp
  qed
qed

lemma client_ok_resolve:
  assumes "client_resolve message cl = (b, cl')" "client_ok cl"
  shows "client_ok cl'"
  using assms(1)
proof (cases rule: client_resolve_cases)
  case (taken i)
  then have i: "i \<in> fst ` set (cl_pending cl)" by (auto dest: map_of_SomeD intro: rev_image_eqI)
  have d: "distinct (map fst (cl_pending cl))" using assms(2) by (simp only: client_ok_def)
  have "fst ` set (dict_set i (Answered message) (cl_pending cl)) \<subseteq> fst ` set (cl_pending cl)"
    unfolding dict_set_in_keys using i by blast
  moreover have "Waiting \<in> snd ` set (cl_pending cl)"
    if "Waiting \<in> snd ` set (dict_set i (Answered message) (cl_pending cl))"
    using subsetD [OF update_vals_subset that] by simp
  ultimately show ?thesis
    unfolding taken(4) by (rule client_ok_pending [OF assms(2) distinct_dict_set [OF d]])
qed (use assms(2) in simp_all)

definition lose :: "(string, client_future) dict \<Rightarrow> (string, client_future) dict" where
  "lose d = map (\<lambda>(i, f). (i, case f of Waiting \<Rightarrow> ConnectionLost | _ \<Rightarrow> f)) d"

lemma lose_simps: "map fst (lose d) = map fst d" "Waiting \<notin> snd ` set (lose d)"
  by (auto simp: lose_def split: client_future.splits)

lemma client_ok_close: "client_ok cl \<Longrightarrow> client_ok (client_close cl)"
proof (cases "cl_closed cl")
  case True
  then show "client_ok cl \<Longrightarrow> client_ok (client_close cl)" by (simp add: client_close_def)
next
  case False
  then have c: "client_close cl = cl\<lparr>cl_closed := True, cl_pending := lose (cl_pending cl)\<rparr>"
    by (simp add: client_close_def lose_def)
  have "fst ` set (lose d) = fst ` set d" for d
    using lose_simps(1) [of d] by (metis set_map)
  then show "client_ok cl \<Longrightarrow> client_ok (client_close cl)"
    unfolding c client_ok_def by (simp add: lose_simps given_id_def)
qed

lemma client_ok_finish:
  "call_finish validate parse mk_model m i timed_out cl = Some (r, cl') \<Longrightarrow> client_ok cl \<Longrightarrow> client_ok cl'"
  by (auto simp: call_finish_def Let_def client_ok_delete split: if_splits option.splits client_future.splits)

lemma client_step_ok: "client_step cl cl' \<Longrightarrow> client_ok cl \<Longrightarrow> client_ok cl'"
  by (erule client_step_cases)
    (auto intro: client_ok_begin client_ok_enter client_ok_resolve client_ok_close client_ok_finish)

lemma client_create_ok: "client_ok (client_create ms limits)"
  by (simp add: client_ok_def client_create_def)

lemma client_fresh_id:
  assumes "client_ok cl" "call_begin dump name params metadata cl = (Inr (i, frame), cl')"
  shows "i \<notin> set (map fst (cl_pending cl)) \<and> i = request_id_prefix @ nat_str (cl_next_id cl')
    \<and> cl_next_id cl' = cl_next_id cl + 1"
proof -
  have i: "i = request_id_prefix @ nat_str (cl_next_id cl + 1)" "cl_next_id cl' = cl_next_id cl + 1"
    using assms(2)
    by (auto simp: call_begin_def Let_def result_simps split: option.splits if_splits)
  then show ?thesis using assms(1) by (auto simp: client_ok_def given_id_def nat_str_inject)
qed

lemma client_resolve_other:
  assumes "client_resolve message cl = (b, cl')" "obj_get message ''id'' \<noteq> Some (JStr i)"
  shows "map_of (cl_pending cl') i = map_of (cl_pending cl) i"
  using assms(1) by (cases rule: client_resolve_cases) (use assms(2) in \<open>auto simp: dict_simps\<close>)

lemma client_resolve_same:
  assumes "client_resolve message cl = (b, cl')" "map_of (cl_pending cl) i = Some (Answered a)"
  shows "map_of (cl_pending cl') i = Some (Answered a)"
  using assms(1) by (cases rule: client_resolve_cases) (use assms(2) in \<open>auto simp: dict_simps\<close>)

section \<open>Properties\<close>

lemma client_run_ok: "client_step\<^sup>*\<^sup>* cl cl' \<Longrightarrow> client_ok cl \<Longrightarrow> client_ok cl'"
  by (induction rule: rtranclp_induct) (auto dest: client_step_ok)

lemma lose_get: "map_of (lose d) i = map_option (\<lambda>f. case f of Waiting \<Rightarrow> ConnectionLost | _ \<Rightarrow> f) (map_of d i)"
proof (induction d)
  case Nil
  then show ?case by (simp add: lose_def)
next
  case (Cons p d)
  then show ?case by (cases p; cases "snd p") (simp_all add: lose_def)
qed


definition clock_method :: client_method_def where
  "clock_method =
     \<lparr>cm_name = ''clock'', cm_params = None, cm_result = AnnClass cls_NoneType, cm_summary = None,
      cm_raises = [BoundError refused_binding], cm_server = None\<rparr>"


text \<open>
  C10. Errors of client methods round-trip: what the wire format of a declared error carries is read
  back as that error, with its class, message and details.
\<close>
theorem declared_error_roundtrip:
  assumes "find (\<lambda>t. ec_code (error_info t) = ec_code (err_class e)) (cm_raises m) = Some t"
    and "error_info t = err_class e" "error_code_ok (ec_code (err_class e))" "err_message e \<noteq> []"
    and "cls_id (ec_class (err_class e)) \<noteq> cls_id cls_RpcError"
    and "case err_details e of
           None \<Rightarrow> ec_details_type (err_class e) = None
         | Some v \<Rightarrow> \<exists>d. ec_details_type (err_class e) = Some d \<and> parse d (mv_json v) = Some v
                       \<and> issubclass (mv_class v) d"
  shows "client_error parse mk_model m (error_json e) = DeclaredError e"
proof -
  obtain c cs where code: "ec_code (err_class e) = c # cs"
    using assms(3) by (cases "ec_code (err_class e)") (auto simp: error_code_ok_def)
  obtain h hs where msg: "err_message e = h # hs" using assms(4) by (cases "err_message e") auto
  have d: "declared_error_for (cm_raises m) (Some (JStr (ec_code (err_class e)))) n = Some t" for n
    using assms(1) by (simp add: declared_error_for_def code)
  show ?thesis
  proof (cases "err_details e")
    case None
    then have "rpc_error_init mk_model (err_class e) DetNone (Some (err_message e)) [] = Inr e"
      using assms(5,6) by (simp add: rpc_error_init_def msg)
    then show ?thesis using None assms(2,6) d by (simp add: client_error_def error_json_def json_int_def)
  next
    case (Some v)
    with assms(6) obtain dt where dt: "ec_details_type (err_class e) = Some dt" "parse dt (mv_json v) = Some v"
        "issubclass (mv_class v) dt" by auto
    then have "rpc_error_init mk_model (err_class e) (DetModel v) (Some (err_message e)) [] = Inr e"
      using assms(5) Some by (simp add: rpc_error_init_def msg)
    then show ?thesis using Some assms(2) dt d by (simp add: client_error_def error_json_def json_int_def)
  qed
qed

lemma declared_error_roundtrip_witness:
  "client_error (\<lambda>_ _. None) (\<lambda>_ _. Inl (type_error [])) clock_method
     (error_json \<lparr>err_class = ct_error refused_binding, err_message = ''Refused'', err_details = None\<rparr>)
   = DeclaredError \<lparr>err_class = ct_error refused_binding, err_message = ''Refused'', err_details = None\<rparr>"
proof -
  have "error_code_ok ''refused''" by (simp add: error_code_ok_def char_classes)
  then show ?thesis
    by (intro declared_error_roundtrip [where t = "BoundError refused_binding"])
      (simp_all add: clock_method_def refused_binding_def builtin_class_defs)
qed

end
