(* ===== verification/Subscriptions.thy ===== *)
theory Subscriptions
  imports ConnectedClient
begin

text \<open>
  \<open>subscriptions.py\<close>: the subscriptions of one connection. \<open>SubscriptionSession._handle\<close> is split at its
  awaits: \<open>sub_handle\<close> runs up to the first of them and says what is awaited; \<open>sub_commit\<close> and
  \<open>sub_abort\<close> run when the response to a subscribe was sent or its sending raised; \<open>sub_task_done\<close> is
  the done callback of a subscription's task.
\<close>

section \<open>The session\<close>

record session =
  su_definitions :: "(string, subscription_def) dict"
  su_limit :: int
  su_next_id :: nat
  su_tasks :: "(string, string) dict"
  su_pending :: nat

definition dot_subscribe :: string where
  "dot_subscribe = ''.subscribe''"

definition dot_unsubscribe :: string where
  "dot_unsubscribe = ''.unsubscribe''"

definition session_init :: "subscription_def list \<Rightarrow> int \<Rightarrow> session" where
  "session_init ds limit =
     \<lparr>su_definitions = fold (\<lambda>d. dict_set (sd_name d) d) ds [], su_limit = limit, su_next_id = 1,
      su_tasks = [], su_pending = 0\<rparr>"

definition sub_methods :: "session \<Rightarrow> string list" where
  "sub_methods s = concat (map (\<lambda>n. [n @ dot_subscribe, n @ dot_unsubscribe]) (dict_keys (su_definitions s)))"

definition sub_owns :: "session \<Rightarrow> string \<Rightarrow> bool" where
  "sub_owns s name = (name \<in> set (sub_methods s))"

definition err_subscription_limit :: rpc_error where
  "err_subscription_limit =
     \<lparr>err_class = \<lparr>ec_class = builtin_class 50 ''RpcSubscriptionLimitError'' [10, 2, 1, 0],
        ec_code = ''subscription_limit'', ec_message = ''Too many subscriptions'',
        ec_rpc_code = -32000, ec_details_type = None, ec_builtin = False\<rparr>,
      err_message = ''Too many subscriptions'', err_details = None\<rparr>"

definition subscription_params ::
  "'o world \<Rightarrow> subscription_def \<Rightarrow> (string \<times> json) list \<Rightarrow> exc + 'o option" where
  "subscription_params w d raw =
     (case sd_params d of
        None \<Rightarrow>
          if raw \<noteq> [] then Inl (RpcErrorExc (invalid_params (Some ''Subscription takes no params'')))
          else Inr None
      | Some a \<Rightarrow>
          (case w_params w a raw of
             Inl issues \<Rightarrow> Inl (params_error issues)
           | Inr v \<Rightarrow>
               (case sd_params_origin d of
                  Some t \<Rightarrow>
                    if \<not> w_is_type w t v
                    then (case w_reparse w t v of
                            Inl issues \<Rightarrow> Inl (params_error issues)
                          | Inr v' \<Rightarrow> Inr (Some v'))
                    else Inr (Some v)
                | None \<Rightarrow> Inr (Some v))))"

text \<open>
  What the handler awaits: nothing for a notification; the sending of an error; the sending of the
  new id, with the definition and params the task will run; or the end of a cancelled task, after
  which it sends \<open>null\<close>. \<open>Escapes\<close> is an exception that leaves \<open>_handle\<close> (a failed lookup, or a
  failure of \<open>_params\<close> that is not an RPC error).
\<close>

datatype 'o sub_action =
    IgnoreRequest
  | RespondError rpc_error
  | RespondSubscribed string subscription_def "'o option"
  | CancelSubscription string
  | Escapes

definition sub_handle :: "'o world \<Rightarrow> request_envelope \<Rightarrow> session \<Rightarrow> 'o sub_action \<times> session" where
  "sub_handle w request s =
     (if \<not> expects_response request then (IgnoreRequest, s)
      else
        (case env_params request of
           Positional xs \<Rightarrow>
             (RespondError (invalid_params (Some ''Subscriptions require named params'')), s)
         | Named kw \<Rightarrow>
             if ends_with dot_subscribe (env_method request)
             then
               (case map_of (su_definitions s) (remove_suffix dot_subscribe (env_method request)) of
                  None \<Rightarrow> (Escapes, s)
                | Some d \<Rightarrow>
                    if su_limit s \<le> int (length (su_tasks s) + su_pending s)
                    then (RespondError err_subscription_limit, s)
                    else
                      (case subscription_params w d kw of
                         Inl (RpcErrorExc e) \<Rightarrow> (RespondError e, s)
                       | Inl _ \<Rightarrow> (Escapes, s)
                       | Inr ps \<Rightarrow>
                           (RespondSubscribed (nat_str (su_next_id s)) d ps,
                            s\<lparr>su_next_id := su_next_id s + 1, su_pending := su_pending s + 1\<rparr>)))
             else
               (case map_of kw ''subscriptionId'' of
                  Some (JStr i) \<Rightarrow>
                    if map_of (su_tasks s) i = Some (remove_suffix dot_unsubscribe (env_method request))
                    then (CancelSubscription i, s)
                    else (RespondError (invalid_params (Some ''Unknown subscriptionId'')), s)
                | _ \<Rightarrow> (RespondError (invalid_params (Some ''Unknown subscriptionId'')), s))))"

definition sub_commit :: "string \<Rightarrow> string \<Rightarrow> session \<Rightarrow> session" where
  "sub_commit i name s =
     s\<lparr>su_pending := su_pending s - 1, su_tasks := dict_set i name (su_tasks s)\<rparr>"

definition sub_abort :: "session \<Rightarrow> session" where
  "sub_abort s = s\<lparr>su_pending := su_pending s - 1\<rparr>"

definition sub_task_done :: "string \<Rightarrow> session \<Rightarrow> session" where
  "sub_task_done i s = s\<lparr>su_tasks := dict_del i (su_tasks s)\<rparr>"

definition sub_close :: "session \<Rightarrow> session" where
  "sub_close s = s\<lparr>su_tasks := []\<rparr>"

section \<open>The messages of a subscription\<close>

text \<open>
  \<open>_run\<close>: the payloads the generator yields, each through \<open>render\<close> (validate and dump; it may raise),
  and how the generator ends. \<open>to_failure\<close> is \<open>RpcServer.failure\<close> on an exception. A cancelled task
  sends what it yielded and nothing more.
\<close>

datatype ending = EndNormal | EndRaised exc | EndCancelled

definition subscription_message :: "string \<Rightarrow> string \<Rightarrow> json \<Rightarrow> json" where
  "subscription_message name i payload =
     JObj [(''jsonrpc'', JStr ''2.0''), (''method'', JStr name),
       (''params'', JObj [(''subscriptionId'', JStr i), (''payload'', payload)])]"

definition failure_data :: "rpc_error \<Rightarrow> json" where
  "failure_data e =
     JObj [(''code'', JInt (ec_rpc_code (err_class e))), (''message'', JStr (err_message e)),
           (''data'', JObj ((''code'', JStr (ec_code (err_class e)))
              # (case err_details e of None \<Rightarrow> [] | Some d \<Rightarrow> [(''details'', mv_json d)])))]"

definition terminal_message :: "string \<Rightarrow> string \<Rightarrow> rpc_error option \<Rightarrow> json" where
  "terminal_message name i err =
     JObj [(''jsonrpc'', JStr ''2.0''), (''method'', JStr name),
       (''params'', JObj ([(''subscriptionId'', JStr i), (''complete'', JBool (err = None))]
          @ (case err of None \<Rightarrow> [] | Some e \<Rightarrow> [(''error'', failure_data e)])))]"

fun subscription_run ::
  "('v \<Rightarrow> exc + json) \<Rightarrow> (exc \<Rightarrow> rpc_error) \<Rightarrow> string \<Rightarrow> string \<Rightarrow> 'v list \<Rightarrow> ending \<Rightarrow> json list" where
  "subscription_run render to_failure name i [] EndNormal = [terminal_message name i None]"
| "subscription_run render to_failure name i [] (EndRaised e) = [terminal_message name i (Some (to_failure e))]"
| "subscription_run render to_failure name i [] EndCancelled = []"
| "subscription_run render to_failure name i (v # vs) end =
     (case render v of
        Inl e \<Rightarrow> [terminal_message name i (Some (to_failure e))]
      | Inr j \<Rightarrow> subscription_message name i j # subscription_run render to_failure name i vs end)"

section \<open>Admission\<close>

text \<open>
  Runs of a session: the second component lists the subscribe requests whose response is being
  sent, with their ids; a task is done only after it was registered.
\<close>

inductive sub_step :: "session \<times> string list \<Rightarrow> session \<times> string list \<Rightarrow> bool" where
  Handle: "sub_handle (w :: json world) request s = (a, s') \<Longrightarrow> (\<forall>i d ps. a \<noteq> RespondSubscribed i d ps) \<Longrightarrow>
     sub_step (s, fl) (s', fl)"
| Admit: "sub_handle (w :: json world) request s = (RespondSubscribed i d ps, s') \<Longrightarrow>
     sub_step (s, fl) (s', fl @ [i])"
| Commit: "i \<in> set fl \<Longrightarrow> sub_step (s, fl) (sub_commit i name s, filter (\<lambda>j. j \<noteq> i) fl)"
| Abort: "i \<in> set fl \<Longrightarrow> sub_step (s, fl) (sub_abort s, filter (\<lambda>j. j \<noteq> i) fl)"
| TaskDone: "sub_step (s, fl) (sub_task_done i s, fl)"
| CloseAll: "sub_step (s, fl) (sub_close s, fl)"

inductive_cases sub_step_cases: "sub_step x y"

definition below_next :: "nat \<Rightarrow> string \<Rightarrow> bool" where
  "below_next n i = (\<exists>m. m < n \<and> i = nat_str m)"

definition session_ok :: "session \<times> string list \<Rightarrow> bool" where
  "session_ok x =
     (case x of (s, fl) \<Rightarrow>
        distinct (map fst (su_tasks s) @ fl) \<and> su_pending s = length fl
        \<and> (\<forall>i\<in>fst ` set (su_tasks s) \<union> set fl. below_next (su_next_id s) i)
        \<and> int (length (su_tasks s) + su_pending s) \<le> max 0 (su_limit s))"

lemma session_init_ok: "session_ok (session_init ds limit, [])"
  by (simp add: session_ok_def session_init_def)

lemma sub_handle_cases:
  assumes "sub_handle w request s = (a, s')"
  obtains (same) "s' = s" "\<forall>i d ps. a \<noteq> RespondSubscribed i d ps"
  | (admit) d ps where "a = RespondSubscribed (nat_str (su_next_id s)) d ps"
      "int (length (su_tasks s) + su_pending s) < su_limit s"
      "map_of (su_definitions s) (remove_suffix dot_subscribe (env_method request)) = Some d"
      "ends_with dot_subscribe (env_method request)" "expects_response request"
      "s' = s\<lparr>su_next_id := su_next_id s + 1, su_pending := su_pending s + 1\<rparr>"
proof (cases "\<exists>i d ps. a = RespondSubscribed i d ps")
  case True
  then show thesis
    using assms admit
    by (auto simp: sub_handle_def split: if_splits params.splits option.splits sum.splits exc.splits json.splits)
next
  case False
  then have "s' = s"
    using assms
    by (auto simp: sub_handle_def split: if_splits params.splits option.splits sum.splits exc.splits json.splits)
  with False same show thesis by blast
qed

lemma distinct_remove: "i \<in> set fl \<Longrightarrow> distinct fl \<Longrightarrow> Suc (length (filter (\<lambda>j. j \<noteq> i) fl)) = length fl"
proof (induction fl)
  case Nil
  then show ?case by simp
next
  case (Cons k fl)
  show ?case
  proof (cases "k = i")
    case True
    then have "filter (\<lambda>j. j \<noteq> i) fl = fl" using Cons.prems by (intro filter_True) auto
    then show ?thesis using True by simp
  next
    case False
    then show ?thesis using Cons by simp
  qed
qed

lemma below_next_self: "\<not> below_next n (nat_str n)"
  by (auto simp: below_next_def nat_str_inject)

lemma below_next_Suc: "below_next (Suc n) i \<longleftrightarrow> below_next n i \<or> i = nat_str n"
  by (auto simp: below_next_def less_Suc_eq)

lemma session_ok_admit:
  assumes "session_ok (s, fl)" "int (length (su_tasks s) + su_pending s) < su_limit s"
  shows "session_ok (s\<lparr>su_next_id := su_next_id s + 1, su_pending := su_pending s + 1\<rparr>,
    fl @ [nat_str (su_next_id s)])"
proof -
  have "nat_str (su_next_id s) \<notin> fst ` set (su_tasks s) \<union> set fl"
    using assms(1) below_next_self unfolding session_ok_def by blast
  then show ?thesis using assms by (simp add: session_ok_def below_next_Suc)
qed

lemma session_ok_commit:
  assumes "session_ok (s, fl)" "i \<in> set fl"
  shows "session_ok (sub_commit i name s, filter (\<lambda>j. j \<noteq> i) fl)"
proof -
  have d: "i \<notin> fst ` set (su_tasks s)" "distinct fl" "su_pending s = length fl" "below_next (su_next_id s) i"
    "distinct (map fst (su_tasks s))" "fst ` set (su_tasks s) \<inter> set fl = {}"
    "\<forall>i\<in>fst ` set (su_tasks s) \<union> set fl. below_next (su_next_id s) i"
    "int (length (su_tasks s) + su_pending s) \<le> max 0 (su_limit s)"
    using assms by (auto simp: session_ok_def)
  have l: "Suc (length (filter (\<lambda>j. j \<noteq> i) fl)) = length fl" using distinct_remove [OF assms(2) d(2)] .
  have t: "dict_set i name (su_tasks s) = su_tasks s @ [(i, name)]" using d(1) by (rule dict_set_fresh)
  have "fst ` set (dict_set i name (su_tasks s)) \<union> set (filter (\<lambda>j. j \<noteq> i) fl) \<subseteq> fst ` set (su_tasks s) \<union> set fl"
    unfolding t using assms(2) by auto
  moreover have "distinct (map fst (dict_set i name (su_tasks s)) @ filter (\<lambda>j. j \<noteq> i) fl)"
    unfolding t using d(1,2,5,6) by auto
  ultimately show ?thesis
    using d(3,7,8) l unfolding session_ok_def sub_commit_def by (auto simp: t)
qed

lemma session_ok_abort:
  assumes "session_ok (s, fl)" "i \<in> set fl"
  shows "session_ok (sub_abort s, filter (\<lambda>j. j \<noteq> i) fl)"
proof -
  have d: "distinct fl" using assms by (simp add: session_ok_def)
  show ?thesis using assms distinct_remove [OF assms(2) d] by (auto simp: session_ok_def sub_abort_def)
qed

lemma session_ok_done:
  assumes "session_ok (s, fl)"
  shows "session_ok (sub_task_done i s, fl)"
proof -
  have d: "distinct (map fst (su_tasks s))" "distinct fl" "fst ` set (su_tasks s) \<inter> set fl = {}"
    "su_pending s = length fl" "\<forall>i\<in>fst ` set (su_tasks s) \<union> set fl. below_next (su_next_id s) i"
    "int (length (su_tasks s) + su_pending s) \<le> max 0 (su_limit s)"
    using assms by (auto simp: session_ok_def)
  have l: "length (dict_del i (su_tasks s)) \<le> length (su_tasks s)" by (simp add: AList.delete_eq)
  have "distinct (map fst (dict_del i (su_tasks s)) @ fl)"
    using distinct_dict_del [OF d(1), of i] d(2,3) delete_keys(1) [of i "su_tasks s"]
    unfolding distinct_append set_map by blast
  moreover have "\<forall>k\<in>fst ` set (dict_del i (su_tasks s)) \<union> set fl. below_next (su_next_id s) k"
    using d(5) delete_keys(1) [of i "su_tasks s"] by blast
  ultimately show ?thesis using d(4,6) l by (simp add: session_ok_def sub_task_done_def)
qed

lemma session_ok_close: "session_ok (s, fl) \<Longrightarrow> session_ok (sub_close s, fl)"
  by (auto simp: session_ok_def sub_close_def)

lemma sub_step_ok: "sub_step x y \<Longrightarrow> session_ok x \<Longrightarrow> session_ok y"
proof (induction rule: sub_step.induct)
  case (Handle w request s a s' fl)
  then show ?case by (cases rule: sub_handle_cases) auto
next
  case (Admit w request s i d ps s' fl)
  from Admit(1) show ?case
    by (cases rule: sub_handle_cases) (use Admit(2) session_ok_admit [of s fl] in simp_all)
qed (auto intro: session_ok_commit session_ok_abort session_ok_done session_ok_close)

lemma sub_run_ok: "sub_step\<^sup>*\<^sup>* x y \<Longrightarrow> session_ok x \<Longrightarrow> session_ok y"
  by (induction rule: rtranclp_induct) (auto dest: sub_step_ok)

lemma sub_step_limit: "sub_step x y \<Longrightarrow> su_limit (fst y) = su_limit (fst x)"
  by (induction rule: sub_step.induct)
    (auto simp: sub_commit_def sub_abort_def sub_task_done_def sub_close_def elim!: sub_handle_cases)

lemma sub_run_limit: "sub_step\<^sup>*\<^sup>* x y \<Longrightarrow> su_limit (fst y) = su_limit (fst x)"
  by (induction rule: rtranclp_induct) (auto dest: sub_step_limit)

text \<open>A request the session owns never fails a lookup.\<close>

lemma owned_lookup:
  assumes "sub_owns s name" "ends_with dot_subscribe name"
  shows "\<exists>d. map_of (su_definitions s) (remove_suffix dot_subscribe name) = Some d"
proof -
  from assms(1) obtain n where n: "n \<in> set (dict_keys (su_definitions s))"
    "name = n @ dot_subscribe \<or> name = n @ dot_unsubscribe"
    by (auto simp: sub_owns_def sub_methods_def)
  moreover have "\<not> ends_with dot_subscribe (n @ dot_unsubscribe)"
    by (simp add: ends_with_def starts_with_def dot_subscribe_def dot_unsubscribe_def)
  ultimately have "remove_suffix dot_subscribe name \<in> fst ` set (su_definitions s)"
    using assms(2) by (auto intro: rev_image_eqI)
  then show ?thesis by (metis map_of_eq_None_iff option.exhaust)
qed

section \<open>Properties\<close>

text \<open>
  C11. The subscription limit: in every reachable state the live subscriptions and those whose
  response is being sent have distinct ids and together do not exceed \<open>max_subscriptions\<close>.
\<close>
theorem subscription_limit_kept:
  assumes "sub_step\<^sup>*\<^sup>* (session_init ds limit, []) (s, inflight)" "0 < limit"
  shows "int (length (su_tasks s) + length inflight) \<le> limit
    \<and> distinct (map fst (su_tasks s) @ inflight) \<and> su_pending s = length inflight"
proof -
  have "session_ok (s, inflight)" using sub_run_ok [OF assms(1) session_init_ok] .
  moreover have "su_limit s = limit" using sub_run_limit [OF assms(1)] by (simp add: session_init_def)
  ultimately show ?thesis using assms(2) by (auto simp: session_ok_def)
qed

definition ticks :: subscription_def where
  "ticks =
     \<lparr>sd_name = ''ticks'', sd_params = None, sd_payload = AnnClass cls_NoneType, sd_function = ping_fn,
      sd_injected = [], sd_params_parameter = None, sd_params_origin = None, sd_scope = 0,
      sd_summary = None, sd_server = None, sd_raises = []\<rparr>"

definition subscribe_request :: request_envelope where
  "subscribe_request =
     \<lparr>env_id = IdInt 1, env_has_id = True, env_method = ''ticks.subscribe'', env_params = Named [],
      env_meta = None\<rparr>"

lemma subscription_limit_kept_witness:
  "\<exists>s inflight. sub_step\<^sup>*\<^sup>* (session_init [ticks] 1, []) (s, inflight) \<and> length inflight = 1
     \<and> su_tasks s = [] \<and> su_pending s = 1"
proof -
  have r: "remove_suffix dot_subscribe ''ticks.subscribe'' = ''ticks''" "ends_with dot_subscribe ''ticks.subscribe''"
    by code_simp+
  have "\<exists>s'. sub_handle (w :: json world) subscribe_request (session_init [ticks] 1)
      = (RespondSubscribed (nat_str 1) ticks None, s') \<and> su_tasks s' = []" for w
    by (simp add: sub_handle_def subscribe_request_def expects_response_def r session_init_def
        ticks_def subscription_params_def)
  then obtain s' where h: "sub_handle (undefined :: json world) subscribe_request (session_init [ticks] 1)
      = (RespondSubscribed (nat_str 1) ticks None, s')" and t: "su_tasks s' = []" by blast
  from h have "sub_step (session_init [ticks] 1, []) (s', [] @ [nat_str 1])" by (rule sub_step.Admit)
  then have run: "sub_step\<^sup>*\<^sup>* (session_init [ticks] 1, []) (s', [nat_str 1])" by simp
  from subscription_limit_kept [OF run] have "su_pending s' = 1" by simp
  with t run show ?thesis by (intro exI [of _ s'] exI [of _ "[nat_str 1]"]) simp
qed

text \<open>
  A subscription's messages: one message for each payload until the first failure, then exactly
  one terminal message, which says that the subscription completed or carries the mapped error; a
  cancelled one sends no terminal message.
\<close>
theorem subscription_messages:
  "subscription_run render to_failure name i vs end =
     (let sent = takeWhile (\<lambda>v. \<not> isl (render v)) vs
      in map (\<lambda>v. subscription_message name i (projr (render v))) sent
         @ (if length sent < length vs
            then [terminal_message name i (Some (to_failure (projl (render (vs ! length sent)))))]
            else case end of
                   EndNormal \<Rightarrow> [terminal_message name i None]
                 | EndRaised e \<Rightarrow> [terminal_message name i (Some (to_failure e))]
                 | EndCancelled \<Rightarrow> []))"
proof (induction vs)
  case Nil
  show ?case by (cases "end") simp_all
next
  case (Cons v vs)
  then show ?case by (cases "render v") (simp_all add: Let_def)
qed

lemma params_error_rpc: "\<exists>r. params_error (iss # issues) = RpcErrorExc r"
  by (simp add: params_error_def from_validation_error_def)

lemma subscription_params_error:
  assumes "\<forall>a kw. w_params w a kw \<noteq> Inl []" "\<forall>a v. w_reparse w a v \<noteq> Inl []"
    and "subscription_params w d kw = Inl e"
  shows "\<exists>r. e = RpcErrorExc r"
proof -
  have ne: "\<exists>r. params_error issues = RpcErrorExc r" if "issues \<noteq> []" for issues
    using that params_error_rpc by (cases issues) auto
  show ?thesis
  proof (cases "sd_params d")
    case None
    then show ?thesis using assms(3) by (auto simp: subscription_params_def split: if_splits)
  next
    case (Some a)
    show ?thesis
    proof (cases "w_params w a kw")
      case (Inl issues)
      then have "issues \<noteq> []" using assms(1) by metis
      then show ?thesis using assms(3) Some Inl ne by (simp add: subscription_params_def) metis
    next
      case (Inr v)
      with assms(3) Some obtain t issues where t: "w_reparse w t v = Inl issues" "e = params_error issues"
        by (auto simp: subscription_params_def split: option.splits if_splits sum.splits)
      then have "issues \<noteq> []" using assms(2) by metis
      then show ?thesis using t ne by simp
    qed
  qed
qed

text \<open>
  What a session owns it can serve: a request for one of its methods never fails a lookup, is
  admitted only below the limit, cancels only a live subscription of the same name, and changes
  the session only when it is admitted.
\<close>
theorem owned_request_served:
  assumes "sub_owns s (env_method request)" "sub_handle w request s = (a, s')"
    and "\<forall>a kw. w_params w a kw \<noteq> Inl []" "\<forall>a v. w_reparse w a v \<noteq> Inl []"
  shows "case a of
      Escapes \<Rightarrow> False
    | RespondSubscribed i d ps \<Rightarrow>
        expects_response request \<and> i = nat_str (su_next_id s)
        \<and> int (length (su_tasks s) + su_pending s) < su_limit s \<and> su_pending s' = su_pending s + 1
    | CancelSubscription i \<Rightarrow>
        s' = s \<and> map_of (su_tasks s) i = Some (remove_suffix dot_unsubscribe (env_method request))
    | _ \<Rightarrow> s' = s"
  using assms(2)
proof (cases rule: sub_handle_cases)
  case same
  have "a \<noteq> Escapes"
    using assms(1,2) owned_lookup [OF assms(1)] subscription_params_error [OF assms(3,4)]
    by (auto simp: sub_handle_def split: if_splits params.splits option.splits sum.splits exc.splits json.splits)
  moreover have "map_of (su_tasks s) i = Some (remove_suffix dot_unsubscribe (env_method request))"
    if "a = CancelSubscription i" for i
    using assms(2) that
    by (auto simp: sub_handle_def split: if_splits params.splits option.splits sum.splits exc.splits json.splits)
  ultimately show ?thesis using same by (cases a) auto
next
  case (admit d ps)
  then show ?thesis by simp
qed

lemma owned_request_served_witness:
  "\<exists>a s'. sub_handle ping_world subscribe_request (session_init [ticks] 1) = (a, s') \<and> a \<noteq> Escapes"
proof -
  have o: "sub_owns (session_init [ticks] 1) (env_method subscribe_request)"
    by (simp add: sub_owns_def sub_methods_def session_init_def ticks_def subscribe_request_def
        dot_subscribe_def)
  have p: "\<forall>a kw. w_params ping_world a kw \<noteq> Inl []" "\<forall>a v. w_reparse ping_world a v \<noteq> Inl []"
    by (simp_all add: ping_world_def)
  obtain a s' where h: "sub_handle ping_world subscribe_request (session_init [ticks] 1) = (a, s')" by fastforce
  from owned_request_served [OF o h p] h show ?thesis by (cases a) auto
qed

end
