(* ===== verification/Runtime.thy ===== *)
theory Runtime
  imports Subscriptions
begin

text \<open>
  The RPC connection of \<open>runtime.py\<close> (\<open>_run_rpc_endpoint\<close>): reading frames, admitting calls,
  cancellation, the collectors that send responses, and closing. Everything the reader does for one
  frame runs without an await, so a frame is one step; a call's task and its done callback, and the
  completion of a collector, are steps of their own. Task objects are numbers, the objects the code
  shares (\<open>_PendingCall\<close>) live in a store.
\<close>

section \<open>Admission\<close>

record reservations =
  rv_limit :: int
  rv_held :: "nat list"
  rv_next :: nat

definition reserve :: "reservations \<Rightarrow> (nat \<times> reservations) option" where
  "reserve p =
     (if rv_limit p \<le> int (length (rv_held p)) then None
      else Some (rv_next p, p\<lparr>rv_held := rv_held p @ [rv_next p], rv_next := rv_next p + 1\<rparr>))"

definition release :: "nat \<Rightarrow> reservations \<Rightarrow> reservations" where
  "release r p = p\<lparr>rv_held := filter (\<lambda>x. x \<noteq> r) (rv_held p)\<rparr>"

definition pool_ok :: "reservations \<Rightarrow> bool" where
  "pool_ok p = (distinct (rv_held p) \<and> (\<forall>r\<in>set (rv_held p). r < rv_next p))"

interpretation pending_pool:
  bounded_pool reserve release "\<lambda>p. set (rv_held p)" "\<lambda>p. nat (rv_limit p)" pool_ok
proof
  fix p t p'
  assume "pool_ok p" "reserve p = Some (t, p')"
  then show "t \<notin> set (rv_held p) \<and> set (rv_held p') = insert t (set (rv_held p))
      \<and> nat (rv_limit p') = nat (rv_limit p) \<and> pool_ok p'"
    by (auto simp: reserve_def pool_ok_def less_Suc_eq split: if_splits)
next
  fix p
  assume "pool_ok p"
  then have "card (set (rv_held p)) = length (rv_held p)" by (simp add: pool_ok_def distinct_card)
  then show "reserve p = None \<longleftrightarrow> nat (rv_limit p) \<le> card (set (rv_held p))"
    by (auto simp: reserve_def)
qed (auto simp: release_def pool_ok_def)

definition err_pending_limit :: rpc_error where
  "err_pending_limit =
     \<lparr>err_class = \<lparr>ec_class = builtin_class 51 ''RpcPendingLimitError'' [10, 2, 1, 0],
        ec_code = ''pending_limit'', ec_message = ''Too many pending requests'',
        ec_rpc_code = -32000, ec_details_type = None, ec_builtin = True\<rparr>,
      err_message = ''Too many pending requests'', err_details = None\<rparr>"

section \<open>The state of a connection\<close>

datatype 'o task_result = TaskReturned "'o response option" | TaskRaised exc | TaskCancelled

record 'o call =
  ca_message :: json
  ca_reservation :: "nat option"
  ca_invalid :: bool
  ca_batch :: bool
  ca_admitted :: rat
  ca_shutting_down :: bool
  ca_started :: bool
  ca_cancel_requested :: bool
  ca_result :: "'o task_result option"

text \<open>
  A collector waits for the calls of a frame (\<open>Invoke\<close>), answers a frame that could not be read
  (\<open>Respond\<close>, the task of \<open>schedule_failure\<close>), or waits for room in the outgoing queue
  (\<open>Sending\<close>, inside \<open>send_outgoing\<close>).
\<close>

datatype 'o collector = Invoke "nat list" bool "'o response list" | Respond json rpc_error | Sending string

record 'o rstate =
  rs_latch :: latch
  rs_limits :: rpc_limits
  rs_pending :: reservations
  rs_calls :: "nat \<Rightarrow> 'o call option"
  rs_call_tasks :: "nat list"
  rs_requests :: "(request_id, nat) dict"
  rs_collectors :: "(nat, 'o collector) dict"
  rs_next :: nat
  rs_client :: client
  rs_draining :: bool
  rs_outgoing :: "string list"
  rs_reading :: bool

definition runtime_init :: "connection \<Rightarrow> rpc_limits \<Rightarrow> client_method_def list \<Rightarrow> 'o rstate" where
  "runtime_init c limits ms =
     \<lparr>rs_latch = latch_init c, rs_limits = limits,
      rs_pending = \<lparr>rv_limit = max_pending_requests limits, rv_held = [], rv_next = 0\<rparr>,
      rs_calls = (\<lambda>_. None), rs_call_tasks = [], rs_requests = [], rs_collectors = [], rs_next = 0,
      rs_client = client_create ms limits, rs_draining = False, rs_outgoing = [],
      rs_reading = True\<rparr>"

definition closing :: "'o rstate \<Rightarrow> bool" where
  "closing rs = lt_closing (rs_latch rs)"

definition request_close :: "conn_close \<Rightarrow> string \<Rightarrow> 'o rstate \<Rightarrow> 'o rstate" where
  "request_close code reason rs =
     (if \<not> closing rs
      then rs\<lparr>rs_latch := rpc_request_close code reason None (rs_latch rs),
              rs_client := client_close (rs_client rs)\<rparr>
      else rs)"

definition collector_limit :: "rpc_limits \<Rightarrow> int" where
  "collector_limit l = max_pending_requests l + max_queue_size l"

definition collectors_full :: "'o rstate \<Rightarrow> bool" where
  "collectors_full rs = (collector_limit (rs_limits rs) \<le> int (length (rs_collectors rs)))"

definition add_collector :: "'o collector \<Rightarrow> 'o rstate \<Rightarrow> 'o rstate" where
  "add_collector c rs =
     rs\<lparr>rs_collectors := rs_collectors rs @ [(rs_next rs, c)], rs_next := rs_next rs + 1\<rparr>"

definition close_collectors :: "'o rstate \<Rightarrow> 'o rstate" where
  "close_collectors rs = request_close Close_POLICY_VIOLATION ''Too many response collectors'' rs"

definition schedule_failure :: "json \<Rightarrow> rpc_error \<Rightarrow> 'o rstate \<Rightarrow> bool \<times> 'o rstate" where
  "schedule_failure message e rs =
     (if collectors_full rs then (False, close_collectors rs)
      else (True, add_collector (Respond message e) rs))"

section \<open>Control messages\<close>

definition item_key :: "json \<Rightarrow> request_id option" where
  "item_key item =
     (case obj_get item ''id'' of
        Some (JStr s) \<Rightarrow> Some (IdStr s)
      | Some (JInt i) \<Rightarrow> Some (IdInt i)
      | _ \<Rightarrow> None)"

definition cancel_target :: "json \<Rightarrow> request_id option" where
  "cancel_target item =
     (if obj_get item ''jsonrpc'' = Some (JStr ''2.0'')
         \<and> set (obj_keys item) = {''jsonrpc'', ''method'', ''params''}
      then
        (case obj_get item ''params'' of
           Some (JObj m) \<Rightarrow> if set (map fst m) = {''id''} then item_key (JObj m) else None
         | _ \<Rightarrow> None)
      else None)"

definition cancellable :: "'o call \<Rightarrow> bool" where
  "cancellable c = (ca_reservation c \<noteq> None \<and> \<not> ca_cancel_requested c \<and> ca_result c = None)"

definition cancel_request :: "json \<Rightarrow> 'o rstate \<Rightarrow> bool \<times> 'o rstate" where
  "cancel_request item rs =
     (if raw_request_method item \<noteq> Some ''$/cancelRequest'' \<or> has_key ''id'' item then (False, rs)
      else
        (case Option.bind (cancel_target item) (map_of (rs_requests rs)) of
           None \<Rightarrow> (True, rs)
         | Some cid \<Rightarrow>
             (case rs_calls rs cid of
                None \<Rightarrow> (True, rs)
              | Some c \<Rightarrow>
                  if cancellable c
                  then (True, rs\<lparr>rs_calls := (rs_calls rs)(cid \<mapsto> c\<lparr>ca_cancel_requested := True\<rparr>)\<rparr>)
                  else (True, rs))))"

definition ping_valid :: "json \<Rightarrow> bool" where
  "ping_valid item =
     (obj_get item ''jsonrpc'' = Some (JStr ''2.0'')
      \<and> set (obj_keys item) \<subseteq> {''jsonrpc'', ''method'', ''id'', ''params''}
      \<and> (obj_get item ''params'' = None \<or> obj_get item ''params'' = Some (JObj []))
      \<and> (\<not> has_key ''id'' item \<or> item_key item \<noteq> None))"

text \<open>The control responses of a ping; \<open>none\<close> is Python's \<open>None\<close>.\<close>

definition ping_response :: "'o \<Rightarrow> json \<Rightarrow> 'o response list" where
  "ping_response none item =
     (if has_key ''id'' item
      then (if ping_valid item then [RpcSuccess (raw_request_id item) none None]
            else [RpcFailure IdNull err_invalid_request])
      else [])"

section \<open>Reading a frame\<close>

definition valid_item :: "json \<Rightarrow> bool" where
  "valid_item item =
     (case validate_envelope item of None \<Rightarrow> False | Some e \<Rightarrow> env_method e \<noteq> ''$/cancelRequest'')"

definition new_call :: "json \<Rightarrow> nat option \<Rightarrow> bool \<Rightarrow> bool \<Rightarrow> rat \<Rightarrow> bool \<Rightarrow> 'o call" where
  "new_call item reservation invalid batch now shutting_down =
     \<lparr>ca_message = item, ca_reservation = reservation, ca_invalid = invalid, ca_batch = batch,
      ca_admitted = now, ca_shutting_down = shutting_down, ca_started = False,
      ca_cancel_requested = False, ca_result = None\<rparr>"

text \<open>\<open>None\<close>: the id is in flight already; the state has the reservation released again.\<close>

definition admit_item :: "bool \<Rightarrow> rat \<Rightarrow> json \<Rightarrow> 'o rstate \<Rightarrow> nat option \<times> 'o rstate" where
  "admit_item batch now item rs =
     (let invalid = (\<not> valid_item item);
          (reservation, pending) =
            (if invalid \<or> rs_draining rs then (None, rs_pending rs)
             else case reserve (rs_pending rs) of
                    None \<Rightarrow> (None, rs_pending rs)
                  | Some (r, p) \<Rightarrow> (Some r, p));
          key = (if invalid then None else item_key item);
          cid = rs_next rs
      in case key of
           Some k \<Rightarrow>
             if dict_has k (rs_requests rs)
             then (None,
                   rs\<lparr>rs_pending := (case reservation of Some r \<Rightarrow> release r pending | None \<Rightarrow> pending)\<rparr>)
             else (Some cid,
                   rs\<lparr>rs_pending := pending, rs_next := cid + 1,
                      rs_calls := (rs_calls rs)(cid \<mapsto>
                        new_call item reservation invalid batch now (\<not> invalid \<and> rs_draining rs)),
                      rs_call_tasks := rs_call_tasks rs @ [cid],
                      rs_requests := dict_set k cid (rs_requests rs)\<rparr>)
         | None \<Rightarrow>
             (Some cid,
              rs\<lparr>rs_pending := pending, rs_next := cid + 1,
                 rs_calls := (rs_calls rs)(cid \<mapsto>
                   new_call item reservation invalid batch now (\<not> invalid \<and> rs_draining rs)),
                 rs_call_tasks := rs_call_tasks rs @ [cid]\<rparr>))"

text \<open>The loop over the items of a frame; \<open>False\<close> is the \<open>return\<close> of the reader.\<close>

fun read_items ::
  "'o \<Rightarrow> bool \<Rightarrow> rat \<Rightarrow> bool \<Rightarrow> json list \<Rightarrow> nat list \<Rightarrow> 'o response list \<Rightarrow> 'o rstate \<Rightarrow>
   bool \<times> nat list \<times> 'o response list \<times> 'o rstate" where
  "read_items none batch now full [] items controls rs = (True, items, controls, rs)"
| "read_items none batch now full (item # rest) items controls rs =
     (let (resolved, client) = client_resolve item (rs_client rs) in
      if resolved then read_items none batch now full rest items controls (rs\<lparr>rs_client := client\<rparr>)
      else
        (let (taken, rs1) = cancel_request item rs in
         if taken then read_items none batch now full rest items controls rs1
         else if raw_request_method item = Some ''$/ping''
         then read_items none batch now full rest items (controls @ ping_response none item) rs
         else if full then (False, items, controls, close_collectors rs)
         else
           (case admit_item batch now item rs of
              (None, rs2) \<Rightarrow>
                (False, items, controls,
                 request_close Close_PROTOCOL_ERROR ''Duplicate in-flight request id'' rs2)
            | (Some cid, rs2) \<Rightarrow>
                read_items none batch now full rest (items @ [cid]) controls rs2)))"

definition read_message :: "'o \<Rightarrow> rat \<Rightarrow> json \<Rightarrow> 'o rstate \<Rightarrow> bool \<times> 'o rstate" where
  "read_message none now message rs =
     (let (batch, elements) = (case message of JArr xs \<Rightarrow> (True, xs) | _ \<Rightarrow> (False, [message])) in
      if batch \<and> (elements = [] \<or> max_batch_size (rs_limits rs) < int (length elements))
      then schedule_failure message err_invalid_request rs
      else
        (case read_items none batch now (collectors_full rs) elements [] [] rs of
           (False, items, controls, rs1) \<Rightarrow> (False, rs1)
         | (True, items, controls, rs1) \<Rightarrow>
             if items = [] \<and> controls = [] then (True, rs1)
             else if collectors_full rs1 then (False, close_collectors rs1)
             else (True, add_collector (Invoke items batch controls) rs1)))"

datatype frame = TextFrame string | BytesFrame string

fun frame_bytes :: "frame \<Rightarrow> string" where
  "frame_bytes (TextFrame s) = s"
| "frame_bytes (BytesFrame s) = s"

definition read_frame ::
  "(string \<Rightarrow> json option) \<Rightarrow> 'o \<Rightarrow> rat \<Rightarrow> frame \<Rightarrow> 'o rstate \<Rightarrow> bool \<times> 'o rstate" where
  "read_frame loads none now frame rs =
     (if (case max_message_bytes (rs_limits rs) of
            None \<Rightarrow> False | Some n \<Rightarrow> n < int (length (frame_bytes frame)))
      then (False, request_close Close_MESSAGE_TOO_BIG [] rs)
      else if (case frame of BytesFrame s \<Rightarrow> \<not> utf8_valid s | _ \<Rightarrow> False)
      then (False, request_close Close_PROTOCOL_ERROR ''Invalid RPC frame'' rs)
      else
        (case codec_decode loads (frame_bytes frame) of
           Inl e \<Rightarrow> schedule_failure (JStr (frame_bytes frame)) e rs
         | Inr message \<Rightarrow> read_message none now message rs))"

section \<open>Tasks\<close>

text \<open>What the task of a call does with it.\<close>

datatype invocation_kind = AnswerFailure rpc_error | ServeSubscription | ServeMethod

definition invoke_one :: "session \<Rightarrow> 'o call \<Rightarrow> invocation_kind" where
  "invoke_one subs c =
     (if ca_invalid c then AnswerFailure err_invalid_request
      else if ca_shutting_down c then AnswerFailure err_shutting_down
      else if ca_reservation c = None then AnswerFailure err_pending_limit
      else if \<not> ca_batch c \<and> (case raw_request_method (ca_message c) of
                                Some n \<Rightarrow> sub_owns subs n | None \<Rightarrow> False)
      then ServeSubscription
      else ServeMethod)"

definition release_of :: "'o call \<Rightarrow> reservations \<Rightarrow> reservations" where
  "release_of c p = (case ca_reservation c of None \<Rightarrow> p | Some r \<Rightarrow> release r p)"

definition start_call :: "nat \<Rightarrow> 'o rstate \<Rightarrow> 'o rstate" where
  "start_call cid rs =
     (case rs_calls rs cid of
        None \<Rightarrow> rs
      | Some c \<Rightarrow> rs\<lparr>rs_calls := (rs_calls rs)(cid \<mapsto> c\<lparr>ca_started := True\<rparr>)\<rparr>)"

text \<open>
  The end of a task. Only a task that started runs its \<open>finally\<close>; one cancelled before that leaves
  its reservation to the done callback.
\<close>

definition finish_call :: "nat \<Rightarrow> 'o task_result \<Rightarrow> 'o rstate \<Rightarrow> 'o rstate" where
  "finish_call cid result rs =
     (case rs_calls rs cid of
        None \<Rightarrow> rs
      | Some c \<Rightarrow>
          rs\<lparr>rs_calls := (rs_calls rs)(cid \<mapsto> c\<lparr>ca_result := Some result\<rparr>),
             rs_pending := (if ca_started c then release_of c (rs_pending rs) else rs_pending rs)\<rparr>)"

definition call_key :: "'o call \<Rightarrow> request_id option" where
  "call_key c = (if ca_invalid c then None else item_key (ca_message c))"

definition call_done :: "nat \<Rightarrow> 'o rstate \<Rightarrow> 'o rstate" where
  "call_done cid rs =
     (case rs_calls rs cid of
        None \<Rightarrow> rs
      | Some c \<Rightarrow>
          rs\<lparr>rs_call_tasks := filter (\<lambda>i. i \<noteq> cid) (rs_call_tasks rs),
             rs_pending := release_of c (rs_pending rs),
             rs_requests :=
               (case call_key c of
                  None \<Rightarrow> rs_requests rs
                | Some k \<Rightarrow>
                    if map_of (rs_requests rs) k = Some cid then dict_del k (rs_requests rs)
                    else rs_requests rs)\<rparr>)"

section \<open>Collecting responses\<close>

text \<open>How a collector sees the end of a call: a response, a re-raised cancellation or an exception.\<close>

datatype 'o collected = Collected "'o response option" | Reraised | Failed exc

definition collect_one :: "'o world \<Rightarrow> 'o server \<Rightarrow> bool \<Rightarrow> 'o call \<Rightarrow> 'o collected" where
  "collect_one w sv shut c =
     (case ca_result c of
        Some (TaskReturned r) \<Rightarrow> Collected r
      | Some (TaskRaised e) \<Rightarrow> Failed e
      | _ \<Rightarrow>
          if ca_started c \<or> \<not> ca_cancel_requested c \<or> shut then Reraised
          else
            (case handle_failure w sv (ca_message c) err_cancelled of
               Inl e \<Rightarrow> Failed e
             | Inr r \<Rightarrow> Collected r))"

fun collected_failure :: "'o collected \<Rightarrow> bool" where
  "collected_failure (Collected r) = False"
| "collected_failure c = True"

fun collected_response :: "'o collected \<Rightarrow> 'o response option" where
  "collected_response (Collected r) = r"
| "collected_response c = None"

text \<open>
  \<open>asyncio.gather\<close>: the results in order, or the failure that happened first, which \<open>which\<close> picks.
\<close>

definition gather :: "nat \<Rightarrow> 'o collected list \<Rightarrow> 'o collected + 'o response list" where
  "gather which cs =
     (case filter collected_failure cs of
        [] \<Rightarrow> Inr (List.map_filter collected_response cs)
      | f # fs \<Rightarrow> Inl ((f # fs) ! (which mod length (f # fs))))"

text \<open>What \<open>invoke\<close> encodes: all the responses of a batch, the first one otherwise.\<close>

definition pack :: "bool \<Rightarrow> 'o response list \<Rightarrow> 'o reply" where
  "pack batch rs = (case rs of [] \<Rightarrow> NoReply | r # _ \<Rightarrow> if batch then Many rs else One r)"

definition internal_close :: "'o rstate \<Rightarrow> 'o rstate" where
  "internal_close rs = request_close Close_INTERNAL_ERROR ''Internal error'' rs"

definition drop_collector :: "nat \<Rightarrow> 'o rstate \<Rightarrow> 'o rstate" where
  "drop_collector k rs = rs\<lparr>rs_collectors := filter (\<lambda>p. fst p \<noteq> k) (rs_collectors rs)\<rparr>"

text \<open>
  The body of a collector up to its send: what is queued, nothing while the connection is closing;
  a failure that is not a cancellation closes the connection in \<open>invocation_done\<close>.
\<close>

definition collector_message ::
  "(nat option \<Rightarrow> 'o \<Rightarrow> exc + json) \<Rightarrow> 'o world \<Rightarrow> 'o server \<Rightarrow> nat \<Rightarrow> 'o collector \<Rightarrow> 'o rstate \<Rightarrow>
   exc option + string option" where
  "collector_message dump w sv which c rs =
     (case c of
        Invoke items batch controls \<Rightarrow>
          (case gather which (map (\<lambda>cid. case rs_calls rs cid of
                                     None \<Rightarrow> Collected None
                                   | Some call \<Rightarrow> collect_one w sv (closing rs) call) items) of
             Inl (Failed e) \<Rightarrow> Inl (Some e)
           | Inl _ \<Rightarrow> Inl None
           | Inr responses \<Rightarrow>
               if closing rs then Inr None
               else (case encode_reply dump (pack batch (controls @ responses)) of
                       Inl e \<Rightarrow> Inl (Some e) | Inr m \<Rightarrow> Inr m))
      | Respond message e \<Rightarrow>
          (case handle_failure w sv message e of
             Inl x \<Rightarrow> Inl (Some x)
           | Inr None \<Rightarrow> Inr None
           | Inr (Some r) \<Rightarrow>
               if closing rs then Inr None
               else (case encode_reply dump (One r) of Inl x \<Rightarrow> Inl (Some x) | Inr m \<Rightarrow> Inr m))
      | Sending m \<Rightarrow> Inr (Some m))"

definition run_collector ::
  "(nat option \<Rightarrow> 'o \<Rightarrow> exc + json) \<Rightarrow> 'o world \<Rightarrow> 'o server \<Rightarrow> nat \<Rightarrow> nat \<Rightarrow> 'o rstate \<Rightarrow> 'o rstate" where
  "run_collector dump w sv which k rs =
     (case map_of (rs_collectors rs) k of
        None \<Rightarrow> rs
      | Some c \<Rightarrow>
          (case collector_message dump w sv which c rs of
             Inl (Some e) \<Rightarrow> internal_close (drop_collector k rs)
           | Inl None \<Rightarrow> drop_collector k rs
           | Inr None \<Rightarrow> drop_collector k rs
           | Inr (Some m) \<Rightarrow> rs\<lparr>rs_collectors := dict_set k (Sending m) (rs_collectors rs)\<rparr>))"

text \<open>
  \<open>send_outgoing\<close>: a put waits for room in the queue of \<open>max_queue_size\<close> messages; after
  \<open>send_timeout\<close> the connection is closed. \<open>put_message\<close> is the put of the client and of
  the subscriptions and event sources.
\<close>

definition queue_room :: "'o rstate \<Rightarrow> bool" where
  "queue_room rs = (int (length (rs_outgoing rs)) < max_queue_size (rs_limits rs))"

definition put_message :: "string \<Rightarrow> 'o rstate \<Rightarrow> 'o rstate" where
  "put_message m rs = (if queue_room rs then rs\<lparr>rs_outgoing := rs_outgoing rs @ [m]\<rparr> else rs)"

definition put_collected :: "nat \<Rightarrow> 'o rstate \<Rightarrow> 'o rstate" where
  "put_collected k rs =
     (case map_of (rs_collectors rs) k of
        Some (Sending m) \<Rightarrow>
          if queue_room rs then drop_collector k (put_message m rs) else rs
      | _ \<Rightarrow> rs)"

definition slow_client :: "'o rstate \<Rightarrow> 'o rstate" where
  "slow_client rs = request_close Close_POLICY_VIOLATION ''Client too slow'' rs"

definition put_timeout :: "nat \<Rightarrow> 'o rstate \<Rightarrow> 'o rstate" where
  "put_timeout k rs =
     (case map_of (rs_collectors rs) k of
        Some (Sending m) \<Rightarrow> if queue_room rs then rs else slow_client (drop_collector k rs)
      | _ \<Rightarrow> rs)"

definition collector_ready :: "'o rstate \<Rightarrow> nat \<Rightarrow> bool" where
  "collector_ready rs k =
     (case map_of (rs_collectors rs) k of
        None \<Rightarrow> False
      | Some (Respond m e) \<Rightarrow> True
      | Some (Sending m) \<Rightarrow> False
      | Some (Invoke items b cs) \<Rightarrow>
          list_all (\<lambda>cid. case rs_calls rs cid of None \<Rightarrow> True | Some c \<Rightarrow> ca_result c \<noteq> None) items)"

section \<open>Steps\<close>

text \<open>
  The reader reads on while its last frame let it. A task ends once, with a cancellation before it
  started only if one was requested (the client's, or the closing of the connection); its done
  callback runs after that. A collector may be cancelled once the connection is closing. The writer
  takes the messages of the queue in order.
\<close>

inductive rt_step :: "(nat option \<Rightarrow> 'o \<Rightarrow> exc + json) \<Rightarrow> 'o world \<Rightarrow> 'o server \<Rightarrow> (string \<Rightarrow> json option) \<Rightarrow> 'o \<Rightarrow>
    'o rstate \<Rightarrow> 'o rstate \<Rightarrow> bool" for dump w sv loads none where
  Frame: "\<lbrakk>rs_reading rs; read_frame loads none now frame rs = (on, rs1)\<rbrakk> \<Longrightarrow>
     rt_step dump w sv loads none rs (rs1\<lparr>rs_reading := on\<rparr>)"
| Start: "\<lbrakk>cid \<in> set (rs_call_tasks rs); rs_calls rs cid = Some c; ca_result c = None\<rbrakk> \<Longrightarrow>
     rt_step dump w sv loads none rs (start_call cid rs)"
| FinishCall: "\<lbrakk>cid \<in> set (rs_call_tasks rs); rs_calls rs cid = Some c; ca_result c = None;
     ca_started c \<or> result = TaskCancelled \<and> (ca_cancel_requested c \<or> closing rs)\<rbrakk> \<Longrightarrow>
     rt_step dump w sv loads none rs (finish_call cid result rs)"
| CallDone: "\<lbrakk>cid \<in> set (rs_call_tasks rs); rs_calls rs cid = Some c; ca_result c \<noteq> None\<rbrakk> \<Longrightarrow>
     rt_step dump w sv loads none rs (call_done cid rs)"
| Collect: "collector_ready rs k \<Longrightarrow> rt_step dump w sv loads none rs (run_collector dump w sv which k rs)"
| PutCollected: "rt_step dump w sv loads none rs (put_collected k rs)"
| PutTimeout: "rt_step dump w sv loads none rs (put_timeout k rs)"
| CancelCollector: "closing rs \<Longrightarrow> rt_step dump w sv loads none rs (drop_collector k rs)"
| PutMessage: "rt_step dump w sv loads none rs (put_message m rs)"
| CloseRequest: "rt_step dump w sv loads none rs (request_close code reason rs)"
| StopReading: "rt_step dump w sv loads none rs (rs\<lparr>rs_reading := False\<rparr>)"
| ClientCall: "client_step (rs_client rs) cl \<Longrightarrow> rt_step dump w sv loads none rs (rs\<lparr>rs_client := cl\<rparr>)"
| Drain: "rt_step dump w sv loads none rs (rs\<lparr>rs_draining := True\<rparr>)"
| Send: "rs_outgoing rs = m # ms \<Longrightarrow> rt_step dump w sv loads none rs (rs\<lparr>rs_outgoing := ms\<rparr>)"

inductive_cases rt_step_cases: "rt_step dump w sv loads none rs rs'"

section \<open>Invariant of the admitted calls\<close>

text \<open>
  Reservations, calls, live tasks and the next task number: no more than the limit are held, each by
  one live call, and a live call that was admitted and did not end holds its own.
\<close>

definition adm :: "reservations \<Rightarrow> (nat \<Rightarrow> 'o call option) \<Rightarrow> nat list \<Rightarrow> nat \<Rightarrow> bool" where
  "adm p calls tasks n \<longleftrightarrow>
     pool_ok p \<and> int (length (rv_held p)) \<le> max 0 (rv_limit p)
     \<and> distinct tasks \<and> (\<forall>cid\<in>set tasks. calls cid \<noteq> None) \<and> (\<forall>cid c. calls cid = Some c \<longrightarrow> cid < n)
     \<and> (\<forall>cid c r. calls cid = Some c \<longrightarrow> ca_reservation c = Some r \<longrightarrow> r < rv_next p)
     \<and> (\<forall>a b c d r. calls a = Some c \<longrightarrow> calls b = Some d \<longrightarrow> ca_reservation c = Some r \<longrightarrow>
          ca_reservation d = Some r \<longrightarrow> a = b)
     \<and> (\<forall>r\<in>set (rv_held p). \<exists>cid\<in>set tasks. \<exists>c. calls cid = Some c \<and> ca_reservation c = Some r)
     \<and> (\<forall>cid\<in>set tasks. \<forall>c r. calls cid = Some c \<longrightarrow> ca_reservation c = Some r \<longrightarrow> ca_result c = None \<longrightarrow>
          r \<in> set (rv_held p))"

lemma admI:
  assumes "pool_ok p" "int (length (rv_held p)) \<le> max 0 (rv_limit p)" "distinct tasks"
    and "\<And>cid. cid \<in> set tasks \<Longrightarrow> calls cid \<noteq> None" "\<And>cid c. calls cid = Some c \<Longrightarrow> cid < n"
    and "\<And>cid c r. calls cid = Some c \<Longrightarrow> ca_reservation c = Some r \<Longrightarrow> r < rv_next p"
    and "\<And>a b c d r. calls a = Some c \<Longrightarrow> calls b = Some d \<Longrightarrow> ca_reservation c = Some r \<Longrightarrow>
          ca_reservation d = Some r \<Longrightarrow> a = b"
    and "\<And>r. r \<in> set (rv_held p) \<Longrightarrow> \<exists>cid\<in>set tasks. \<exists>c. calls cid = Some c \<and> ca_reservation c = Some r"
    and "\<And>cid c r. cid \<in> set tasks \<Longrightarrow> calls cid = Some c \<Longrightarrow> ca_reservation c = Some r \<Longrightarrow>
          ca_result c = None \<Longrightarrow> r \<in> set (rv_held p)"
  shows "adm p calls tasks n"
  unfolding adm_def by (intro conjI allI ballI impI; (rule assms; assumption))

lemma admD:
  assumes "adm p calls tasks n"
  shows "pool_ok p" "int (length (rv_held p)) \<le> max 0 (rv_limit p)" "distinct tasks"
    and "cid \<in> set tasks \<Longrightarrow> calls cid \<noteq> None" "calls cid = Some c \<Longrightarrow> cid < n"
    and "calls cid = Some c \<Longrightarrow> ca_reservation c = Some r \<Longrightarrow> r < rv_next p"
    and "calls a = Some c \<Longrightarrow> calls b = Some d \<Longrightarrow> ca_reservation c = Some r \<Longrightarrow>
          ca_reservation d = Some r \<Longrightarrow> a = b"
    and "r \<in> set (rv_held p) \<Longrightarrow> \<exists>cid\<in>set tasks. \<exists>c. calls cid = Some c \<and> ca_reservation c = Some r"
    and "cid \<in> set tasks \<Longrightarrow> calls cid = Some c \<Longrightarrow> ca_reservation c = Some r \<Longrightarrow>
          ca_result c = None \<Longrightarrow> r \<in> set (rv_held p)"
proof -
  note a = assms [unfolded adm_def]
  show "pool_ok p" "int (length (rv_held p)) \<le> max 0 (rv_limit p)" "distinct tasks" using a by simp_all
  show "cid \<in> set tasks \<Longrightarrow> calls cid \<noteq> None" using a by (elim conjE) (drule (1) bspec)
  show "calls cid = Some c \<Longrightarrow> cid < n" using a by (elim conjE) metis
  show "calls cid = Some c \<Longrightarrow> ca_reservation c = Some r \<Longrightarrow> r < rv_next p" using a by (elim conjE) metis
  show "calls a = Some c \<Longrightarrow> calls b = Some d \<Longrightarrow> ca_reservation c = Some r \<Longrightarrow>
      ca_reservation d = Some r \<Longrightarrow> a = b" using a by (elim conjE) metis
  show "r \<in> set (rv_held p) \<Longrightarrow> \<exists>cid\<in>set tasks. \<exists>c. calls cid = Some c \<and> ca_reservation c = Some r"
    using a by (elim conjE) (drule (1) bspec)
  show "cid \<in> set tasks \<Longrightarrow> calls cid = Some c \<Longrightarrow> ca_reservation c = Some r \<Longrightarrow>
      ca_result c = None \<Longrightarrow> r \<in> set (rv_held p)" using a by (elim conjE) metis
qed

lemma adm_fresh: "adm p calls tasks n \<Longrightarrow> calls n = None \<and> n \<notin> set tasks"
  using admD(4,5) [of p calls tasks n n] by (metis less_irrefl not_None_eq)

lemma adm_new_plain:
  assumes "adm p calls tasks n" "ca_reservation c0 = None"
  shows "adm p (calls(n \<mapsto> c0)) (tasks @ [n]) (Suc n)"
proof (rule admI)
  note f = adm_fresh [OF assms(1)] and d = admD [OF assms(1)]
  show "pool_ok p" "int (length (rv_held p)) \<le> max 0 (rv_limit p)" by (rule d)+
  show "distinct (tasks @ [n])" using d(3) f by simp
  show "(calls(n \<mapsto> c0)) cid \<noteq> None" if "cid \<in> set (tasks @ [n])" for cid using that d(4) by auto
  show "cid < Suc n" if "(calls(n \<mapsto> c0)) cid = Some c" for cid c
    using that d(5) [of cid c] by (cases "cid = n") auto
  show "r < rv_next p" if "(calls(n \<mapsto> c0)) cid = Some c" "ca_reservation c = Some r" for cid c r
    using that d(6) [of cid c r] assms(2) by (cases "cid = n") auto
  show "a = b" if "(calls(n \<mapsto> c0)) a = Some c" "(calls(n \<mapsto> c0)) b = Some d"
    "ca_reservation c = Some r" "ca_reservation d = Some r" for a b c d r
    using that d(7) [of a c b d r] assms(2) by (cases "a = n"; cases "b = n") auto
  show "\<exists>cid\<in>set (tasks @ [n]). \<exists>c. (calls(n \<mapsto> c0)) cid = Some c \<and> ca_reservation c = Some r"
    if r: "r \<in> set (rv_held p)" for r
  proof -
    from d(8) [OF r] obtain cid c where "cid \<in> set tasks" "calls cid = Some c" "ca_reservation c = Some r" by blast
    with f show ?thesis by (intro bexI [of _ cid] exI [of _ c]) auto
  qed
  show "r \<in> set (rv_held p)" if "cid \<in> set (tasks @ [n])" "(calls(n \<mapsto> c0)) cid = Some c"
    "ca_reservation c = Some r" "ca_result c = None" for cid c r
    using that d(9) [of cid c r] assms(2) by (cases "cid = n") auto
qed

lemma adm_new_reserved:
  assumes "adm p calls tasks n" "reserve p = Some (r, p')" "ca_reservation c0 = Some r"
  shows "adm p' (calls(n \<mapsto> c0)) (tasks @ [n]) (Suc n)"
proof (rule admI)
  note f = adm_fresh [OF assms(1)] and d = admD [OF assms(1)]
  from assms(2) have r: "r = rv_next p" "rv_held p' = rv_held p @ [r]" "rv_next p' = Suc r"
      "rv_limit p' = rv_limit p" "int (length (rv_held p)) < rv_limit p"
    by (auto simp: reserve_def split: if_splits)
  have less: "x < r" if "calls cid = Some c" "ca_reservation c = Some x" for cid c x
    using d(6) [OF that] r(1) by simp
  show "pool_ok p'" using d(1) r by (auto simp: pool_ok_def)
  show "int (length (rv_held p')) \<le> max 0 (rv_limit p')" using r by simp
  show "distinct (tasks @ [n])" using d(3) f by simp
  show "(calls(n \<mapsto> c0)) cid \<noteq> None" if "cid \<in> set (tasks @ [n])" for cid using that d(4) by auto
  show "cid < Suc n" if "(calls(n \<mapsto> c0)) cid = Some c" for cid c
    using that d(5) [of cid c] by (cases "cid = n") auto
  show "x < rv_next p'" if "(calls(n \<mapsto> c0)) cid = Some c" "ca_reservation c = Some x" for cid c x
    using that less [of cid c x] assms(3) r(3) by (cases "cid = n") auto
  show "a = b" if "(calls(n \<mapsto> c0)) a = Some c" "(calls(n \<mapsto> c0)) b = Some e"
    "ca_reservation c = Some x" "ca_reservation e = Some x" for a b c e x
    using that d(7) [of a c b e x] less [of a c x] less [of b e x] assms(3)
    by (cases "a = n"; cases "b = n") auto
  show "\<exists>cid\<in>set (tasks @ [n]). \<exists>c. (calls(n \<mapsto> c0)) cid = Some c \<and> ca_reservation c = Some x"
    if x: "x \<in> set (rv_held p')" for x
  proof (cases "x = r")
    case True
    then show ?thesis using assms(3) by auto
  next
    case False
    with x r have "x \<in> set (rv_held p)" by auto
    from d(8) [OF this] obtain cid c where "cid \<in> set tasks" "calls cid = Some c" "ca_reservation c = Some x" by blast
    with f show ?thesis by (intro bexI [of _ cid] exI [of _ c]) auto
  qed
  show "x \<in> set (rv_held p')" if "cid \<in> set (tasks @ [n])" "(calls(n \<mapsto> c0)) cid = Some c"
    "ca_reservation c = Some x" "ca_result c = None" for cid c x
    using that d(9) [of cid c x] assms(3) r(2) by (cases "cid = n") auto
qed

lemma adm_update:
  assumes "adm p calls tasks n" "calls cid = Some c" "ca_reservation c' = ca_reservation c"
    and "ca_result c' = None \<longrightarrow> ca_result c = None"
  shows "adm p (calls(cid \<mapsto> c')) tasks n"
proof (rule admI)
  note d = admD [OF assms(1)]
  have get: "\<exists>e'. calls x = Some e' \<and> ca_reservation e' = ca_reservation e \<and> (ca_result e = None \<longrightarrow> ca_result e' = None)"
    if "(calls(cid \<mapsto> c')) x = Some e" for x e
    using that assms(2-4) by (cases "x = cid") auto
  show "pool_ok p" "int (length (rv_held p)) \<le> max 0 (rv_limit p)" "distinct tasks" by (rule d)+
  show "(calls(cid \<mapsto> c')) x \<noteq> None" if "x \<in> set tasks" for x using d(4) [OF that] by auto
  show "x < n" if "(calls(cid \<mapsto> c')) x = Some e" for x e using get [OF that] d(5) by blast
  show "r < rv_next p" if "(calls(cid \<mapsto> c')) x = Some e" "ca_reservation e = Some r" for x e r
    using get [OF that(1)] that(2) d(6) by auto
  show "a = b" if "(calls(cid \<mapsto> c')) a = Some e" "(calls(cid \<mapsto> c')) b = Some f"
    "ca_reservation e = Some r" "ca_reservation f = Some r" for a b e f r
    using get [OF that(1)] get [OF that(2)] that(3,4) d(7) by auto
  show "\<exists>x\<in>set tasks. \<exists>e. (calls(cid \<mapsto> c')) x = Some e \<and> ca_reservation e = Some r"
    if r: "r \<in> set (rv_held p)" for r
  proof -
    from d(8) [OF r] obtain x e where "x \<in> set tasks" "calls x = Some e" "ca_reservation e = Some r" by blast
    then show ?thesis using assms(2,3) by (intro bexI [of _ x]) auto
  qed
  show "r \<in> set (rv_held p)" if "x \<in> set tasks" "(calls(cid \<mapsto> c')) x = Some e"
    "ca_reservation e = Some r" "ca_result e = None" for x e r
    using get [OF that(2)] that d(9) by auto
qed

lemma release_simps:
  "set (rv_held (release r p)) = set (rv_held p) - {r}" "rv_next (release r p) = rv_next p"
  "rv_limit (release r p) = rv_limit p" "length (rv_held (release r p)) \<le> length (rv_held p)"
  "pool_ok p \<Longrightarrow> pool_ok (release r p)"
  by (auto simp: release_def pool_ok_def)

lemma release_of_simps:
  "set (rv_held (release_of c p)) = set (rv_held p) - set_option (ca_reservation c)"
  "rv_next (release_of c p) = rv_next p" "rv_limit (release_of c p) = rv_limit p"
  "length (rv_held (release_of c p)) \<le> length (rv_held p)" "pool_ok p \<Longrightarrow> pool_ok (release_of c p)"
  by (auto simp: release_of_def release_simps split: option.splits)

lemma adm_release:
  assumes "adm p calls tasks n" "calls cid = Some c" "ca_result c \<noteq> None"
  shows "adm (release_of c p) calls tasks n"
proof (rule admI)
  note d = admD [OF assms(1)]
  show "pool_ok (release_of c p)" using d(1) by (rule release_of_simps)
  show "int (length (rv_held (release_of c p))) \<le> max 0 (rv_limit (release_of c p))"
    using d(2) release_of_simps(4) [of c p] unfolding release_of_simps(3) by linarith
  show "distinct tasks" by (rule d)
  show "calls x \<noteq> None" if "x \<in> set tasks" for x using that by (rule d)
  show "x < n" if "calls x = Some e" for x e using that by (rule d)
  show "r < rv_next (release_of c p)" if "calls x = Some e" "ca_reservation e = Some r" for x e r
    using d(6) [OF that] by (simp add: release_of_simps)
  show "a = b" if "calls a = Some e" "calls b = Some f" "ca_reservation e = Some r"
    "ca_reservation f = Some r" for a b e f r
    using that by (rule d(7))
  show "\<exists>x\<in>set tasks. \<exists>e. calls x = Some e \<and> ca_reservation e = Some r"
    if "r \<in> set (rv_held (release_of c p))" for r
    using that d(8) [of r] by (simp add: release_of_simps)
  show "r \<in> set (rv_held (release_of c p))"
    if "x \<in> set tasks" "calls x = Some e" "ca_reservation e = Some r" "ca_result e = None" for x e r
  proof -
    have "ca_reservation c \<noteq> Some r"
    proof
      assume "ca_reservation c = Some r"
      then have "x = cid" using d(7) [OF that(2) assms(2) that(3)] by blast
      then show False using assms(2,3) that by simp
    qed
    then show ?thesis using d(9) [OF that] by (auto simp: release_of_simps)
  qed
qed

lemma adm_remove:
  assumes "adm p calls tasks n" "calls cid = Some c" "\<forall>r. ca_reservation c = Some r \<longrightarrow> r \<notin> set (rv_held p)"
  shows "adm p calls (filter (\<lambda>i. i \<noteq> cid) tasks) n"
proof (rule admI)
  note d = admD [OF assms(1)]
  show "pool_ok p" "int (length (rv_held p)) \<le> max 0 (rv_limit p)" by (rule d)+
  show "distinct (filter (\<lambda>i. i \<noteq> cid) tasks)" using d(3) by simp
  show "calls x \<noteq> None" if "x \<in> set (filter (\<lambda>i. i \<noteq> cid) tasks)" for x using that d(4) by simp
  show "x < n" if "calls x = Some e" for x e using that by (rule d)
  show "r < rv_next p" if "calls x = Some e" "ca_reservation e = Some r" for x e r using that by (rule d)
  show "a = b" if "calls a = Some e" "calls b = Some f" "ca_reservation e = Some r"
    "ca_reservation f = Some r" for a b e f r
    using that by (rule d(7))
  show "\<exists>x\<in>set (filter (\<lambda>i. i \<noteq> cid) tasks). \<exists>e. calls x = Some e \<and> ca_reservation e = Some r"
    if r: "r \<in> set (rv_held p)" for r
  proof -
    from d(8) [OF r] obtain x e where x: "x \<in> set tasks" "calls x = Some e" "ca_reservation e = Some r" by blast
    then have "x \<noteq> cid" using assms(2,3) r by auto
    with x show ?thesis by auto
  qed
  show "r \<in> set (rv_held p)" if "x \<in> set (filter (\<lambda>i. i \<noteq> cid) tasks)" "calls x = Some e"
    "ca_reservation e = Some r" "ca_result e = None" for x e r
    using that d(9) [of x e r] by simp
qed

section \<open>Invariant of the requests in flight\<close>

text \<open>The table has exactly the live valid calls with an id, each under its id.\<close>

definition req :: "(request_id, nat) dict \<Rightarrow> (nat \<Rightarrow> 'o call option) \<Rightarrow> nat list \<Rightarrow> bool" where
  "req reqs calls tasks \<longleftrightarrow>
     (\<forall>k cid. map_of reqs k = Some cid \<longleftrightarrow>
        cid \<in> set tasks \<and> (\<exists>c. calls cid = Some c \<and> call_key c = Some k))"

lemma req_new_key:
  assumes "req reqs calls tasks" "calls n = None" "n \<notin> set tasks" "call_key c = Some k" "\<not> dict_has k reqs"
  shows "req (dict_set k n reqs) (calls(n \<mapsto> c)) (tasks @ [n])"
  unfolding req_def
proof (intro allI)
  fix k' cid
  have no: "map_of reqs k = None" using assms(5) by (simp add: dict_has_map_of)
  show "map_of (dict_set k n reqs) k' = Some cid \<longleftrightarrow>
      cid \<in> set (tasks @ [n]) \<and> (\<exists>d. (calls(n \<mapsto> c)) cid = Some d \<and> call_key d = Some k')"
  proof (cases "cid = n")
    case True
    then have "map_of reqs k' \<noteq> Some cid" using assms(1,3) unfolding req_def by blast
    then show ?thesis using True assms(4) by (auto simp: dict_simps)
  next
    case False
    have "\<not> (cid \<in> set tasks \<and> (\<exists>c. calls cid = Some c \<and> call_key c = Some k))"
      using assms(1) no unfolding req_def by (metis option.distinct(1))
    then show ?thesis using False assms(1) unfolding req_def by (cases "k' = k") (auto simp: dict_simps)
  qed
qed

lemma req_new_nokey:
  assumes "req reqs calls tasks" "calls n = None" "n \<notin> set tasks" "call_key c = None"
  shows "req reqs (calls(n \<mapsto> c)) (tasks @ [n])"
  using assms unfolding req_def by (auto split: if_splits)

lemma req_update:
  assumes "req reqs calls tasks" "calls cid = Some c" "call_key c' = call_key c"
  shows "req reqs (calls(cid \<mapsto> c')) tasks"
  using assms unfolding req_def by (auto split: if_splits)

lemma req_remove:
  assumes "req reqs calls tasks" "calls cid = Some c" "cid \<in> set tasks"
  shows "req (case call_key c of None \<Rightarrow> reqs
      | Some k \<Rightarrow> if map_of reqs k = Some cid then dict_del k reqs else reqs)
    calls (filter (\<lambda>i. i \<noteq> cid) tasks)"
proof (cases "call_key c")
  case None
  then show ?thesis using assms unfolding req_def by auto
next
  case (Some k)
  then have k: "map_of reqs k = Some cid" using assms unfolding req_def by blast
  have "map_of (dict_del k reqs) k' = Some x \<longleftrightarrow>
      x \<in> set (filter (\<lambda>i. i \<noteq> cid) tasks) \<and> (\<exists>c. calls x = Some c \<and> call_key c = Some k')" for k' x
  proof (cases "k' = k")
    case True
    have "x = cid" if "x \<in> set tasks" "calls x = Some d" "call_key d = Some k" for d
      using assms(1) k that unfolding req_def by (metis option.inject)
    then show ?thesis using True by (auto simp: dict_simps)
  next
    case False
    have "x \<noteq> cid" if "calls x = Some d" "call_key d = Some k'" for d
      using that False Some assms(2) by auto
    then show ?thesis using False assms(1) unfolding req_def by (auto simp: dict_simps)
  qed
  then show ?thesis using k Some unfolding req_def by simp
qed

end
