(* ===== verification/RuntimeSafety.thy ===== *)
theory RuntimeSafety
  imports Runtime
begin

text \<open>
  The invariant of an RPC connection, preserved by every step of \<open>Runtime\<close>: admission stays within
  its bound, the table of requests in flight has exactly the live calls with an id, and the response
  collectors are bounded.
\<close>

section \<open>The invariant\<close>

definition rt_ok :: "'o rstate \<Rightarrow> bool" where
  "rt_ok rs \<longleftrightarrow>
     adm (rs_pending rs) (rs_calls rs) (rs_call_tasks rs) (rs_next rs)
     \<and> req (rs_requests rs) (rs_calls rs) (rs_call_tasks rs)
     \<and> rv_limit (rs_pending rs) = max_pending_requests (rs_limits rs)
     \<and> int (length (rs_collectors rs)) \<le> max 0 (collector_limit (rs_limits rs))
     \<and> client_ok (rs_client rs) \<and> latch_ok (rs_latch rs)"

lemma rt_ok_init: "rt_ok (runtime_init c limits ms)"
  by (simp add: rt_ok_def runtime_init_def adm_def req_def pool_ok_def client_create_ok latch_ok_init)

lemma adm_next: "adm p calls tasks n \<Longrightarrow> n \<le> m \<Longrightarrow> adm p calls tasks m"
  unfolding adm_def by (elim conjE) (intro conjI, assumption+, metis order_less_le_trans, assumption+)

lemma rt_ok_close: "rt_ok rs \<Longrightarrow> rt_ok (request_close code reason rs)"
  by (simp add: rt_ok_def request_close_def client_ok_close latch_ok_requests)

lemma rt_ok_close_collectors: "rt_ok rs \<Longrightarrow> rt_ok (close_collectors rs)"
  by (simp add: close_collectors_def rt_ok_close)

lemma rt_ok_add_collector: "rt_ok rs \<Longrightarrow> \<not> collectors_full rs \<Longrightarrow> rt_ok (add_collector c rs)"
  by (auto simp: rt_ok_def add_collector_def collectors_full_def intro: adm_next)

lemma rt_ok_schedule: "rt_ok rs \<Longrightarrow> rt_ok (snd (schedule_failure message e rs))"
  by (simp add: schedule_failure_def rt_ok_close_collectors rt_ok_add_collector)

lemma rt_ok_client: "rt_ok rs \<Longrightarrow> client_ok cl \<Longrightarrow> rt_ok (rs\<lparr>rs_client := cl\<rparr>)"
  by (simp add: rt_ok_def)

lemma rt_ok_update_call:
  assumes "rt_ok rs" "rs_calls rs cid = Some c" "ca_reservation c' = ca_reservation c"
    and "ca_result c' = None \<longrightarrow> ca_result c = None" "call_key c' = call_key c"
  shows "rt_ok (rs\<lparr>rs_calls := (rs_calls rs)(cid \<mapsto> c')\<rparr>)"
proof -
  have "adm (rs_pending rs) ((rs_calls rs)(cid \<mapsto> c')) (rs_call_tasks rs) (rs_next rs)"
    using assms(1) by (intro adm_update [where calls = "rs_calls rs" and cid = cid, OF _ assms(2-4)]) (simp add: rt_ok_def)
  moreover have "req (rs_requests rs) ((rs_calls rs)(cid \<mapsto> c')) (rs_call_tasks rs)"
    using assms(1) by (intro req_update [where calls = "rs_calls rs" and cid = cid, OF _ assms(2,5)]) (simp add: rt_ok_def)
  ultimately show ?thesis using assms(1) by (simp add: rt_ok_def)
qed

lemma cancel_request_cases:
  assumes "cancel_request item rs = (taken, rs')"
  obtains (same) "rs' = rs"
  | (cancel) cid c k where "taken" "cancel_target item = Some k" "map_of (rs_requests rs) k = Some cid"
      "rs_calls rs cid = Some c" "cancellable c"
      "rs' = rs\<lparr>rs_calls := (rs_calls rs)(cid \<mapsto> c\<lparr>ca_cancel_requested := True\<rparr>)\<rparr>"
proof (cases "raw_request_method item \<noteq> Some ''$/cancelRequest'' \<or> has_key ''id'' item")
  case True
  with assms same show thesis by (auto simp: cancel_request_def split: if_splits)
next
  case False
  show thesis
  proof (cases "\<exists>k cid c. cancel_target item = Some k \<and> map_of (rs_requests rs) k = Some cid
      \<and> rs_calls rs cid = Some c \<and> cancellable c")
    case True
    then obtain k cid c where "cancel_target item = Some k" "map_of (rs_requests rs) k = Some cid"
      "rs_calls rs cid = Some c" "cancellable c" by blast
    with assms False cancel show thesis by (simp add: cancel_request_def)
  next
    case False
    then have "rs' = rs"
      using assms by (cases "Option.bind (cancel_target item) (map_of (rs_requests rs))")
        (auto simp: cancel_request_def bind_eq_Some_conv split: if_splits option.splits)
    with same show thesis .
  qed
qed

lemma rt_ok_cancel: "cancel_request item rs = (taken, rs') \<Longrightarrow> rt_ok rs \<Longrightarrow> rt_ok rs'"
  by (erule cancel_request_cases) (auto intro!: rt_ok_update_call simp: call_key_def)

section \<open>Admission of an item\<close>

definition item_call_key :: "json \<Rightarrow> request_id option" where
  "item_call_key item = (if valid_item item then item_key item else None)"

lemma admit_item_cases:
  assumes "admit_item batch now item rs = (x, rs')"
  obtains (duplicate) k p where "x = None" "item_call_key item = Some k" "dict_has k (rs_requests rs)"
      "rs' = rs\<lparr>rs_pending := p\<rparr>"
      "p = rs_pending rs \<or> (\<exists>r p'. reserve (rs_pending rs) = Some (r, p') \<and> p = release r p')"
  | (new) c p where "x = Some (rs_next rs)"
      "case item_call_key item of None \<Rightarrow> True | Some k \<Rightarrow> \<not> dict_has k (rs_requests rs)"
      "c = new_call item (ca_reservation c) (\<not> valid_item item) batch now (valid_item item \<and> rs_draining rs)"
      "rs' = rs\<lparr>rs_pending := p, rs_next := rs_next rs + 1,
               rs_calls := (rs_calls rs)(rs_next rs \<mapsto> c), rs_call_tasks := rs_call_tasks rs @ [rs_next rs],
               rs_requests := (case item_call_key item of None \<Rightarrow> rs_requests rs
                 | Some k \<Rightarrow> dict_set k (rs_next rs) (rs_requests rs))\<rparr>"
      "if valid_item item \<and> \<not> rs_draining rs
       then (case reserve (rs_pending rs) of
               None \<Rightarrow> ca_reservation c = None \<and> p = rs_pending rs
             | Some (r, p') \<Rightarrow> ca_reservation c = Some r \<and> p = p')
       else ca_reservation c = None \<and> p = rs_pending rs"
proof -
  define res where "res = (if valid_item item \<and> \<not> rs_draining rs
     then map_option fst (reserve (rs_pending rs)) else None)"
  define p where "p = (if valid_item item \<and> \<not> rs_draining rs
     then (case reserve (rs_pending rs) of None \<Rightarrow> rs_pending rs | Some (r, p') \<Rightarrow> p') else rs_pending rs)"
  define c where "c = (new_call item res (\<not> valid_item item) batch now (valid_item item \<and> rs_draining rs) :: 'a call)"
  have c: "c = new_call item (ca_reservation c) (\<not> valid_item item) batch now (valid_item item \<and> rs_draining rs)"
    "ca_reservation c = res"
    by (simp_all add: c_def new_call_def)
  have pr: "(if \<not> valid_item item \<or> rs_draining rs then (None, rs_pending rs)
      else case reserve (rs_pending rs) of None \<Rightarrow> (None, rs_pending rs) | Some (r, p) \<Rightarrow> (Some r, p)) = (res, p)"
    by (auto simp: res_def p_def split: option.splits)
  have a: "admit_item batch now item rs =
     (case item_call_key item of
        Some k \<Rightarrow>
          if dict_has k (rs_requests rs)
          then (None, rs\<lparr>rs_pending := (case res of Some r \<Rightarrow> release r p | None \<Rightarrow> p)\<rparr>)
          else (Some (rs_next rs), rs\<lparr>rs_pending := p, rs_next := rs_next rs + 1,
               rs_calls := (rs_calls rs)(rs_next rs \<mapsto> c), rs_call_tasks := rs_call_tasks rs @ [rs_next rs],
               rs_requests := dict_set k (rs_next rs) (rs_requests rs)\<rparr>)
      | None \<Rightarrow> (Some (rs_next rs), rs\<lparr>rs_pending := p, rs_next := rs_next rs + 1,
               rs_calls := (rs_calls rs)(rs_next rs \<mapsto> c), rs_call_tasks := rs_call_tasks rs @ [rs_next rs]\<rparr>))"
  proof (cases "valid_item item")
    case True
    then show ?thesis
      using pr by (cases "item_key item")
        (simp_all only: admit_item_def Let_def c_def item_call_key_def prod.case simp_thms if_True if_False
          option.case)
  next
    case False
    then show ?thesis
      using pr by (simp add: admit_item_def Let_def c_def item_call_key_def res_def p_def)
  qed
  have rp: "if valid_item item \<and> \<not> rs_draining rs
       then (case reserve (rs_pending rs) of
               None \<Rightarrow> ca_reservation c = None \<and> p = rs_pending rs
             | Some (r, p') \<Rightarrow> ca_reservation c = Some r \<and> p = p')
       else ca_reservation c = None \<and> p = rs_pending rs"
    unfolding c(2) by (auto simp: res_def p_def split: option.splits)
  show thesis
  proof (cases "\<exists>k. item_call_key item = Some k \<and> dict_has k (rs_requests rs)")
    case True
    then obtain k where k: "item_call_key item = Some k" "dict_has k (rs_requests rs)" by blast
    show thesis
    proof (rule duplicate [OF _ k])
      show "x = None" "rs' = rs\<lparr>rs_pending := (case res of Some r \<Rightarrow> release r p | None \<Rightarrow> p)\<rparr>"
        using assms a k by simp_all
      show "(case res of Some r \<Rightarrow> release r p | None \<Rightarrow> p) = rs_pending rs \<or>
          (\<exists>r p'. reserve (rs_pending rs) = Some (r, p') \<and> (case res of Some r \<Rightarrow> release r p | None \<Rightarrow> p) = release r p')"
        by (auto simp: res_def p_def split: option.splits)
    qed
  next
    case False
    then have "x = Some (rs_next rs) \<and>
      rs' = rs\<lparr>rs_pending := p, rs_next := rs_next rs + 1,
               rs_calls := (rs_calls rs)(rs_next rs \<mapsto> c), rs_call_tasks := rs_call_tasks rs @ [rs_next rs],
               rs_requests := (case item_call_key item of None \<Rightarrow> rs_requests rs
                 | Some k \<Rightarrow> dict_set k (rs_next rs) (rs_requests rs))\<rparr>"
      using assms unfolding a
      by (cases "item_call_key item") (auto intro!: rstate.equality split: if_splits)
    moreover have "case item_call_key item of None \<Rightarrow> True | Some k \<Rightarrow> \<not> dict_has k (rs_requests rs)"
      using False by (auto split: option.split)
    ultimately show thesis using new [OF _ _ c(1) _ rp] by simp
  qed
qed

lemma pending_pool_limit: "reserve p = Some (r, p') \<Longrightarrow> rv_limit p' = rv_limit p"
  by (auto simp: reserve_def split: if_splits)

lemma adm_reserve_release:
  assumes "adm p calls tasks n" "reserve p = Some (r, p')"
  shows "adm (release r p') calls tasks n"
proof -
  note d = admD [OF assms(1)]
  from assms(2) have r: "r = rv_next p" "p' = p\<lparr>rv_held := rv_held p @ [r], rv_next := Suc r\<rparr>"
    by (auto simp: reserve_def split: if_splits)
  have "r \<notin> set (rv_held p)" using d(1) r(1) by (auto simp: pool_ok_def)
  then have h: "release r p' = p\<lparr>rv_next := Suc (rv_next p)\<rparr>"
    using r by (auto simp: release_def intro!: filter_True reservations.equality)
  show ?thesis
    unfolding h
  proof (rule admI)
    show "pool_ok (p\<lparr>rv_next := Suc (rv_next p)\<rparr>)" using d(1) by (auto simp: pool_ok_def)
    show "x < rv_next (p\<lparr>rv_next := Suc (rv_next p)\<rparr>)" if "calls cid = Some c" "ca_reservation c = Some x" for cid c x
      using d(6) [OF that] by simp
    show "a = b" if "calls a = Some c" "calls b = Some e" "ca_reservation c = Some x"
      "ca_reservation e = Some x" for a b c e x
      using that by (rule d(7))
    show "\<exists>cid\<in>set tasks. \<exists>c. calls cid = Some c \<and> ca_reservation c = Some x"
      if "x \<in> set (rv_held (p\<lparr>rv_next := Suc (rv_next p)\<rparr>))" for x
      using that d(8) [of x] by simp
    show "x \<in> set (rv_held (p\<lparr>rv_next := Suc (rv_next p)\<rparr>))" if "cid \<in> set tasks" "calls cid = Some c"
      "ca_reservation c = Some x" "ca_result c = None" for cid c x
      using d(9) [OF that] by simp
  qed (use d(2-5) in auto)
qed

lemma rt_ok_admit:
  assumes "admit_item batch now item rs = (x, rs')" "rt_ok rs"
  shows "rt_ok rs'"
  using assms(1)
proof (cases rule: admit_item_cases)
  case (duplicate k p)
  have "adm p (rs_calls rs) (rs_call_tasks rs) (rs_next rs) \<and> rv_limit p = rv_limit (rs_pending rs)"
    using duplicate(5)
  proof (elim disjE exE conjE)
    fix r p'
    assume rp: "reserve (rs_pending rs) = Some (r, p')" "p = release r p'"
    moreover have "adm (rs_pending rs) (rs_calls rs) (rs_call_tasks rs) (rs_next rs)"
      using assms(2) by (simp add: rt_ok_def)
    ultimately show ?thesis
      using adm_reserve_release pending_pool_limit [OF rp(1)] by (auto simp: release_simps)
  qed (use assms(2) in \<open>simp add: rt_ok_def\<close>)
  then show ?thesis using assms(2) duplicate(4) by (simp add: rt_ok_def)
next
  case (new c p)
  have adm0: "adm (rs_pending rs) (rs_calls rs) (rs_call_tasks rs) (rs_next rs)"
    and req0: "req (rs_requests rs) (rs_calls rs) (rs_call_tasks rs)"
    using assms(2) by (simp_all add: rt_ok_def)
  have a: "adm p ((rs_calls rs)(rs_next rs \<mapsto> c)) (rs_call_tasks rs @ [rs_next rs]) (Suc (rs_next rs))
      \<and> rv_limit p = rv_limit (rs_pending rs)"
  proof (cases "ca_reservation c = None")
    case True
    with new(5) have "p = rs_pending rs" by (auto split: if_splits option.splits)
    with adm_new_plain [OF adm0 True] show ?thesis by simp
  next
    case False
    with new(5) obtain r where r: "reserve (rs_pending rs) = Some (r, p)" "ca_reservation c = Some r"
      by (auto split: if_splits option.splits)
    show ?thesis using adm_new_reserved [OF adm0 r] pending_pool_limit [OF r(1)] by simp
  qed
  have key: "call_key c = item_call_key item"
    by (subst new(3)) (simp add: call_key_def new_call_def item_call_key_def)
  note f = adm_fresh [OF adm0]
  have r: "req (case item_call_key item of None \<Rightarrow> rs_requests rs
       | Some k \<Rightarrow> dict_set k (rs_next rs) (rs_requests rs))
     ((rs_calls rs)(rs_next rs \<mapsto> c)) (rs_call_tasks rs @ [rs_next rs])"
    using new(2) key req_new_nokey [OF req0] req_new_key [OF req0] f
    by (cases "item_call_key item") simp_all
  show ?thesis using assms(2) a r by (simp add: rt_ok_def new(4))
qed

lemma rt_ok_read_items:
  "read_items none batch now full els items controls rs = (go, items', controls', rs') \<Longrightarrow> rt_ok rs \<Longrightarrow> rt_ok rs'"
proof (induction els arbitrary: items controls rs)
  case Nil
  then show ?case by simp
next
  case (Cons item rest)
  obtain resolved client where r: "client_resolve item (rs_client rs) = (resolved, client)" by fastforce
  obtain taken rs1 where t: "cancel_request item rs = (taken, rs1)" by fastforce
  obtain x rs2 where a: "admit_item batch now item rs = (x, rs2)" by fastforce
  have "client_ok (rs_client rs)" using Cons.prems(2) by (simp add: rt_ok_def)
  then have 1: "rt_ok (rs\<lparr>rs_client := client\<rparr>)"
    using client_ok_resolve [OF r] rt_ok_client [OF Cons.prems(2)] by blast
  have 2: "rt_ok rs1" using rt_ok_cancel [OF t Cons.prems(2)] .
  have 3: "rt_ok rs2" using rt_ok_admit [OF a Cons.prems(2)] .
  show ?case
    using Cons.prems(1) Cons.IH 1 2 3 rt_ok_close [OF 3] rt_ok_close_collectors [OF Cons.prems(2)] Cons.prems(2)
    by (auto simp: r t a split: if_splits option.splits)
qed

lemma rt_ok_read_message:
  assumes "rt_ok rs"
  shows "rt_ok (snd (read_message none now message rs))"
proof -
  obtain batch els where m: "(case message of JArr xs \<Rightarrow> (True, xs) | _ \<Rightarrow> (False, [message])) = (batch, els)"
    by fastforce
  obtain go items controls rs1 where
    i: "read_items none batch now (collectors_full rs) els [] [] rs = (go, items, controls, rs1)"
    by (metis prod_cases4)
  have ok: "rt_ok rs1" using rt_ok_read_items [OF i assms] .
  show ?thesis
    using assms ok rt_ok_schedule [OF assms] rt_ok_close_collectors [OF ok] rt_ok_add_collector [OF ok]
    by (cases go) (simp_all add: read_message_def m i)
qed

lemma rt_ok_read_frame: "rt_ok rs \<Longrightarrow> rt_ok (snd (read_frame loads none now frame rs))"
  by (auto simp: read_frame_def rt_ok_close rt_ok_schedule rt_ok_read_message split: sum.splits)

section \<open>Tasks and collectors\<close>

lemma rt_ok_start: "rt_ok rs \<Longrightarrow> rt_ok (start_call cid rs)"
  by (cases "rs_calls rs cid") (auto simp: start_call_def call_key_def intro!: rt_ok_update_call)

lemma rt_ok_finish: "rt_ok rs \<Longrightarrow> rt_ok (finish_call cid result rs)"
proof (cases "rs_calls rs cid")
  case None
  then show "rt_ok rs \<Longrightarrow> rt_ok (finish_call cid result rs)" by (simp add: finish_call_def)
next
  case (Some c)
  let ?c = "c\<lparr>ca_result := Some result\<rparr>"
  assume ok: "rt_ok rs"
  then have u: "rt_ok (rs\<lparr>rs_calls := (rs_calls rs)(cid \<mapsto> ?c)\<rparr>)"
    using Some by (auto intro!: rt_ok_update_call simp: call_key_def)
  then have "adm (release_of ?c (rs_pending rs)) ((rs_calls rs)(cid \<mapsto> ?c)) (rs_call_tasks rs) (rs_next rs)"
    by (intro adm_release [of _ _ _ _ cid]) (simp_all add: rt_ok_def)
  moreover have "release_of ?c p = release_of c p" for p by (simp add: release_of_def)
  ultimately show ?thesis using u Some by (simp add: finish_call_def rt_ok_def release_of_simps)
qed

lemma rt_ok_done:
  assumes "rt_ok rs" "cid \<in> set (rs_call_tasks rs)" "rs_calls rs cid = Some c" "ca_result c \<noteq> None"
  shows "rt_ok (call_done cid rs)"
proof -
  have "adm (release_of c (rs_pending rs)) (rs_calls rs) (rs_call_tasks rs) (rs_next rs)"
    using assms by (intro adm_release) (simp_all add: rt_ok_def)
  then have "adm (release_of c (rs_pending rs)) (rs_calls rs) (filter (\<lambda>i. i \<noteq> cid) (rs_call_tasks rs)) (rs_next rs)"
    using assms(3) by (rule adm_remove) (simp add: release_of_simps)
  moreover have "req (case call_key c of None \<Rightarrow> rs_requests rs
      | Some k \<Rightarrow> if map_of (rs_requests rs) k = Some cid then dict_del k (rs_requests rs) else rs_requests rs)
    (rs_calls rs) (filter (\<lambda>i. i \<noteq> cid) (rs_call_tasks rs))"
    using assms by (intro req_remove) (simp_all add: rt_ok_def)
  ultimately show ?thesis using assms(1,3) by (simp add: call_done_def rt_ok_def release_of_simps)
qed

lemma rt_ok_drop_collector: "rt_ok rs \<Longrightarrow> rt_ok (drop_collector k rs)"
  unfolding rt_ok_def drop_collector_def
  using of_nat_mono [OF length_filter_le [of "\<lambda>p. fst p \<noteq> k" "rs_collectors rs"], where 'a = int]
  by (auto simp del: length_filter_le intro: order_trans)

lemma rt_ok_outgoing: "rt_ok (rs\<lparr>rs_outgoing := out\<rparr>) = rt_ok rs"
  "rt_ok (rs\<lparr>rs_draining := b\<rparr>) = rt_ok rs" "rt_ok (rs\<lparr>rs_reading := b\<rparr>) = rt_ok rs"
  by (simp_all add: rt_ok_def)

lemma dict_set_length: "map_of d k = Some v \<Longrightarrow> length (dict_set k w d) = length d"
  by (induction d) (auto split: if_splits)

lemma rt_ok_collector:
  assumes "rt_ok rs"
  shows "rt_ok (run_collector dump w sv which k rs)"
proof -
  have 1: "rt_ok (drop_collector k rs)" using rt_ok_drop_collector [OF assms] .
  have 2: "rt_ok (internal_close (drop_collector k rs))" using rt_ok_close [OF 1] by (simp add: internal_close_def)
  have 3: "rt_ok (rs\<lparr>rs_collectors := dict_set k c' (rs_collectors rs)\<rparr>)"
    if "map_of (rs_collectors rs) k = Some c" for c c'
    using assms dict_set_length [OF that] by (simp add: rt_ok_def)
  show ?thesis
    using assms 1 2 3 by (auto simp: run_collector_def split: option.split sum.split)
qed

lemma rt_ok_put: "rt_ok rs \<Longrightarrow> rt_ok (put_message m rs)"
  by (simp add: put_message_def rt_ok_outgoing)

lemma rt_ok_put_collected: "rt_ok rs \<Longrightarrow> rt_ok (put_collected k rs)" "rt_ok rs \<Longrightarrow> rt_ok (put_timeout k rs)"
  by (simp_all add: put_collected_def put_timeout_def slow_client_def rt_ok_put rt_ok_drop_collector rt_ok_close
      split: option.split collector.split)

lemma rt_step_ok: "rt_step dump w sv loads none rs rs' \<Longrightarrow> rt_ok rs \<Longrightarrow> rt_ok rs'"
proof (induction rule: rt_step.induct)
  case (Frame rs now frame on rs1)
  then show ?case using rt_ok_read_frame [of rs loads none now frame] by (simp add: rt_ok_outgoing)
next
  case (ClientCall rs cl)
  then show ?case using client_step_ok rt_ok_client by (auto simp: rt_ok_def)
qed (auto simp: rt_ok_outgoing intro: rt_ok_start rt_ok_finish rt_ok_done rt_ok_collector rt_ok_close
    rt_ok_put rt_ok_put_collected rt_ok_drop_collector)

lemma rt_run_ok: "(rt_step dump w sv loads none)\<^sup>*\<^sup>* rs rs' \<Longrightarrow> rt_ok rs \<Longrightarrow> rt_ok rs'"
  by (induction rule: rtranclp_induct) (auto dest: rt_step_ok)

end
