(* ===== verification/RuntimeProps.thy ===== *)
theory RuntimeProps
  imports RuntimeSafety
begin

text \<open>
  What the invariant of \<open>RuntimeSafety\<close> gives for every run of a connection, and the behaviour of
  its operations: bounds, cancellation, pings, responses and closing.
\<close>

section \<open>The limits stay\<close>

lemma close_limits: "rs_limits (request_close code reason rs) = rs_limits rs"
  "rs_limits (close_collectors rs) = rs_limits rs" "rs_limits (internal_close rs) = rs_limits rs"
  by (simp_all add: request_close_def close_collectors_def internal_close_def)

lemma schedule_limits: "rs_limits (snd (schedule_failure m e rs)) = rs_limits rs"
  by (simp add: schedule_failure_def close_limits add_collector_def)

lemma cancel_limits: "cancel_request item rs = (taken, rs') \<Longrightarrow> rs_limits rs' = rs_limits rs"
  by (erule cancel_request_cases) simp_all

lemma admit_limits: "admit_item batch now item rs = (x, rs') \<Longrightarrow> rs_limits rs' = rs_limits rs"
  by (erule admit_item_cases) simp_all

lemma read_items_limits:
  "read_items none batch now full els items controls rs = (go, items', controls', rs') \<Longrightarrow>
   rs_limits rs' = rs_limits rs"
proof (induction els arbitrary: items controls rs)
  case (Cons item rest)
  obtain resolved client where r: "client_resolve item (rs_client rs) = (resolved, client)" by fastforce
  obtain taken rs1 where t: "cancel_request item rs = (taken, rs1)" by fastforce
  obtain x rs2 where a: "admit_item batch now item rs = (x, rs2)" by fastforce
  show ?case
    using Cons.prems Cons.IH cancel_limits [OF t] admit_limits [OF a]
    by (auto simp: r t a close_limits split: if_splits option.splits)
qed simp

lemma read_message_limits: "rs_limits (snd (read_message none now message rs)) = rs_limits rs"
proof -
  obtain batch els where m: "(case message of JArr xs \<Rightarrow> (True, xs) | _ \<Rightarrow> (False, [message])) = (batch, els)"
    by fastforce
  obtain go items controls rs1 where
    i: "read_items none batch now (collectors_full rs) els [] [] rs = (go, items, controls, rs1)"
    by (metis prod_cases4)
  show ?thesis
    using read_items_limits [OF i]
    by (cases go) (simp_all add: read_message_def m i schedule_limits close_limits add_collector_def)
qed

lemma read_frame_limits: "rs_limits (snd (read_frame loads none now frame rs)) = rs_limits rs"
  by (auto simp: read_frame_def close_limits schedule_limits read_message_limits split: sum.split)

lemma run_collector_limits: "rs_limits (run_collector dump w sv which k rs) = rs_limits rs"
  by (simp add: run_collector_def drop_collector_def close_limits split: option.split sum.split)

lemma put_limits: "rs_limits (put_message m rs) = rs_limits rs" "rs_limits (put_collected k rs) = rs_limits rs"
  "rs_limits (put_timeout k rs) = rs_limits rs"
  by (simp_all add: put_message_def put_collected_def put_timeout_def drop_collector_def slow_client_def
      close_limits split: option.split collector.split)

lemma rt_step_limits: "rt_step dump w sv loads none rs rs' \<Longrightarrow> rs_limits rs' = rs_limits rs"
proof (induction rule: rt_step.induct)
  case (Frame rs now frame on rs1)
  then show ?case using read_frame_limits [of loads none now frame rs] by simp
qed (simp_all add: start_call_def finish_call_def call_done_def drop_collector_def run_collector_limits
    put_limits close_limits
    split: option.split)

lemma rt_run_limits: "(rt_step dump w sv loads none)\<^sup>*\<^sup>* rs rs' \<Longrightarrow> rs_limits rs' = rs_limits rs"
  by (induction rule: rtranclp_induct) (simp_all add: rt_step_limits)

lemma rt_reachable:
  assumes "(rt_step dump w sv loads none)\<^sup>*\<^sup>* (runtime_init c limits ms) rs"
  shows "rt_ok rs \<and> rs_limits rs = limits"
  using rt_run_ok [OF assms rt_ok_init] rt_run_limits [OF assms] by (simp add: runtime_init_def)

section \<open>A connection with one request\<close>

definition demo_loads :: "string \<Rightarrow> json option" where
  "demo_loads s = (if s = ''request'' then Some ping_request else None)"

definition demo_dump :: "nat option \<Rightarrow> string \<Rightarrow> exc + json" where
  "demo_dump a v = Inr (JStr v)"

definition demo_connection :: connection where
  "demo_connection =
     con_create [] \<lparr>hs_path = [], hs_headers = [], hs_query = [], hs_path_params = [],
       hs_subprotocols = [], hs_client = None\<rparr> None"

definition demo_start :: "string rstate" where
  "demo_start = runtime_init demo_connection default_limits []"

definition demo_call :: "string call" where
  "demo_call = new_call ping_request (Some 0) False False 0 False"

definition demo_admitted :: "string rstate" where
  "demo_admitted =
     demo_start\<lparr>rs_pending := \<lparr>rv_limit = 1024, rv_held = [0], rv_next = 1\<rparr>, rs_next := 2,
       rs_calls := [0 \<mapsto> demo_call], rs_call_tasks := [0], rs_requests := [(IdInt 7, 0)],
       rs_collectors := [(1, Invoke [0] False [])]\<rparr>"

lemma ping_request_valid: "valid_item ping_request" "item_key ping_request = Some (IdInt 7)"
  "raw_request_method ping_request = Some ''ping''"
  by code_simp+

lemma demo_read: "read_frame demo_loads [] 0 (TextFrame ''request'') demo_start = (True, demo_admitted)"
proof -
  have k: "has_key ''method'' ping_request" by code_simp
  have m: "(case ping_request of JArr xs \<Rightarrow> (True, xs) | _ \<Rightarrow> (False, [ping_request])) = (False, [ping_request])"
    by (simp add: ping_request_def)
  have a: "admit_item False 0 ping_request demo_start = (Some 0, demo_admitted\<lparr>rs_next := 1, rs_collectors := []\<rparr>)"
    by (simp add: admit_item_def ping_request_valid demo_start_def runtime_init_def default_limits_def reserve_def
        demo_admitted_def demo_call_def Let_def dict_has_def)
  have r: "client_resolve ping_request cl = (False, cl)" for cl
    using k by (simp add: client_resolve_def is_client_response_def)
  have c: "cancel_request ping_request rs = (False, rs)" for rs :: "string rstate"
    by (simp add: cancel_request_def ping_request_valid)
  have f: "\<not> collectors_full demo_start" "\<not> collectors_full (demo_admitted\<lparr>rs_next := 1, rs_collectors := []\<rparr>)"
    by (simp_all add: collectors_full_def collector_limit_def demo_start_def runtime_init_def default_limits_def
        demo_admitted_def)
  have "read_message [] 0 ping_request demo_start = (True, demo_admitted)"
    using f by (simp add: read_message_def m r c a ping_request_valid add_collector_def demo_admitted_def)
  then show ?thesis
    by (simp add: read_frame_def codec_decode_def demo_loads_def demo_start_def runtime_init_def default_limits_def)
qed

lemma demo_run: "(rt_step demo_dump ping_world ping_server demo_loads [])\<^sup>*\<^sup>*
    (runtime_init demo_connection default_limits []) demo_admitted"
proof -
  have "rs_reading demo_start" by (simp add: demo_start_def runtime_init_def)
  from rt_step.Frame [OF this demo_read, where dump = demo_dump and w = ping_world and sv = ping_server]
  have "rt_step demo_dump ping_world ping_server demo_loads [] demo_start (demo_admitted\<lparr>rs_reading := True\<rparr>)" .
  moreover have "demo_admitted\<lparr>rs_reading := True\<rparr> = demo_admitted"
    by (simp add: demo_admitted_def demo_start_def runtime_init_def)
  ultimately show ?thesis by (simp add: demo_start_def r_into_rtranclp)
qed

lemmas demo_defs = demo_admitted_def demo_start_def runtime_init_def demo_call_def new_call_def default_limits_def

section \<open>Bounds\<close>

definition occupying :: "'o rstate \<Rightarrow> nat \<Rightarrow> bool" where
  "occupying rs cid =
     (case rs_calls rs cid of
        None \<Rightarrow> False
      | Some c \<Rightarrow> ca_reservation c \<noteq> None \<and> ca_result c = None)"

lemma occupying_bound:
  assumes "rt_ok rs"
  shows "length (filter (occupying rs) (rs_call_tasks rs)) \<le> length (rv_held (rs_pending rs))"
proof -
  let ?f = "\<lambda>cid. the (ca_reservation (the (rs_calls rs cid)))"
  let ?S = "{cid \<in> set (rs_call_tasks rs). occupying rs cid}"
  from assms have a: "adm (rs_pending rs) (rs_calls rs) (rs_call_tasks rs) (rs_next rs)"
    by (simp add: rt_ok_def)
  note d = admD [OF a]
  have o: "\<exists>c r. rs_calls rs cid = Some c \<and> ca_reservation c = Some r \<and> ca_result c = None" if "occupying rs cid" for cid
    using that by (auto simp: occupying_def split: option.splits)
  have "inj_on ?f ?S"
  proof (rule inj_onI)
    fix a b
    assume "a \<in> ?S" "b \<in> ?S" "?f a = ?f b"
    with o [of a] o [of b] obtain c e r where "rs_calls rs a = Some c" "rs_calls rs b = Some e"
      "ca_reservation c = Some r" "ca_reservation e = Some r" by auto
    then show "a = b" by (rule d(7))
  qed
  moreover have "?f ` ?S \<subseteq> set (rv_held (rs_pending rs))" using o d(9) by fastforce
  ultimately have "card ?S \<le> card (set (rv_held (rs_pending rs)))" by (intro card_inj_on_le) auto
  moreover have "card ?S = length (filter (occupying rs) (rs_call_tasks rs))"
    using d(3) by (metis distinct_card distinct_filter set_filter)
  ultimately show ?thesis using card_length le_trans by metis
qed

text \<open>C5. On every run of a connection, the admitted requests that have not ended are at most
  \<open>max_pending_requests\<close>, and so are the reservations held.\<close>

theorem pending_requests_bounded:
  assumes "(rt_step dump w sv loads none)\<^sup>*\<^sup>* (runtime_init c limits ms) rs"
  shows "int (length (rv_held (rs_pending rs))) \<le> max 0 (max_pending_requests limits)
    \<and> int (length (filter (occupying rs) (rs_call_tasks rs))) \<le> max 0 (max_pending_requests limits)"
proof -
  from rt_reachable [OF assms] have ok: "rt_ok rs" "rs_limits rs = limits" by simp_all
  then have a: "adm (rs_pending rs) (rs_calls rs) (rs_call_tasks rs) (rs_next rs)"
    and l: "rv_limit (rs_pending rs) = max_pending_requests limits"
    by (simp_all add: rt_ok_def)
  from admD(2) [OF a] have "int (length (rv_held (rs_pending rs))) \<le> max 0 (max_pending_requests limits)"
    by (simp add: l)
  with occupying_bound [OF ok(1)] show ?thesis by linarith
qed

lemma pending_requests_bounded_witness:
  "rv_held (rs_pending demo_admitted) = [0] \<and> filter (occupying demo_admitted) (rs_call_tasks demo_admitted) = [0]
   \<and> int (length (rv_held (rs_pending demo_admitted))) \<le> 1024"
  using pending_requests_bounded [OF demo_run] by (simp add: demo_defs occupying_def)

lemma req_unique:
  assumes "req reqs calls tasks" "a \<in> set tasks" "b \<in> set tasks" "calls a = Some x" "calls b = Some y"
    and "call_key x = Some k" "call_key y = Some k"
  shows "a = b"
proof -
  have "map_of reqs k = Some a" "map_of reqs k = Some b" using assms unfolding req_def by blast+
  then show ?thesis by simp
qed

text \<open>C6. On every run of a connection, a request id is in the table of requests in flight exactly
  when one live call has it, the table maps it to that call, and no two live valid calls share one.\<close>

theorem requests_in_flight_exact:
  assumes "(rt_step dump w sv loads none)\<^sup>*\<^sup>* (runtime_init c limits ms) rs"
  shows "(\<forall>k cid. map_of (rs_requests rs) k = Some cid \<longleftrightarrow>
        cid \<in> set (rs_call_tasks rs) \<and> (\<exists>call. rs_calls rs cid = Some call \<and> call_key call = Some k))
    \<and> (\<forall>a\<in>set (rs_call_tasks rs). \<forall>b\<in>set (rs_call_tasks rs). \<forall>x y k.
        rs_calls rs a = Some x \<longrightarrow> rs_calls rs b = Some y \<longrightarrow>
        call_key x = Some k \<longrightarrow> call_key y = Some k \<longrightarrow> a = b)"
proof -
  from rt_reachable [OF assms] have "req (rs_requests rs) (rs_calls rs) (rs_call_tasks rs)"
    by (simp add: rt_ok_def)
  note r = this
  have "a = b" if "a \<in> set (rs_call_tasks rs)" "b \<in> set (rs_call_tasks rs)" "rs_calls rs a = Some x"
    "rs_calls rs b = Some y" "call_key x = Some k" "call_key y = Some k" for a b x y k
    using req_unique [OF r that] .
  then show ?thesis using r unfolding req_def by (intro conjI) (assumption, intro ballI allI impI)
qed

lemma requests_in_flight_exact_witness:
  "map_of (rs_requests demo_admitted) (IdInt 7) = Some 0 \<and>
   (\<exists>call. rs_calls demo_admitted 0 = Some call \<and> call_key call = Some (IdInt 7))"
proof -
  have "map_of (rs_requests demo_admitted) (IdInt 7) = Some 0" by (simp add: demo_defs)
  with requests_in_flight_exact [OF demo_run] show ?thesis by blast
qed

section \<open>The outgoing queue\<close>

definition queue_ok :: "'o rstate \<Rightarrow> bool" where
  "queue_ok rs = (int (length (rs_outgoing rs)) \<le> max 0 (max_queue_size (rs_limits rs)))"

lemma close_outgoing: "rs_outgoing (request_close code reason rs) = rs_outgoing rs"
  "rs_outgoing (close_collectors rs) = rs_outgoing rs" "rs_outgoing (internal_close rs) = rs_outgoing rs"
  "rs_outgoing (slow_client rs) = rs_outgoing rs"
  by (simp_all add: request_close_def close_collectors_def internal_close_def slow_client_def)

lemma read_items_outgoing:
  "read_items none batch now full els items controls rs = (go, items', controls', rs') \<Longrightarrow>
   rs_outgoing rs' = rs_outgoing rs"
proof (induction els arbitrary: items controls rs)
  case (Cons item rest)
  obtain resolved client where r: "client_resolve item (rs_client rs) = (resolved, client)" by fastforce
  obtain taken rs1 where t: "cancel_request item rs = (taken, rs1)" by fastforce
  obtain x rs2 where a: "admit_item batch now item rs = (x, rs2)" by fastforce
  have "rs_outgoing rs1 = rs_outgoing rs" "rs_outgoing rs2 = rs_outgoing rs"
    using t a by (auto elim!: cancel_request_cases admit_item_cases)
  then show ?case
    using Cons.prems Cons.IH by (auto simp: r t a close_outgoing split: if_splits option.splits)
qed simp

lemma schedule_outgoing: "rs_outgoing (snd (schedule_failure m e rs)) = rs_outgoing rs"
  by (simp add: schedule_failure_def close_outgoing add_collector_def)

lemma read_message_outgoing: "rs_outgoing (snd (read_message none now message rs)) = rs_outgoing rs"
proof -
  obtain batch els where m: "(case message of JArr xs \<Rightarrow> (True, xs) | _ \<Rightarrow> (False, [message])) = (batch, els)"
    by fastforce
  obtain go items controls rs1 where
    i: "read_items none batch now (collectors_full rs) els [] [] rs = (go, items, controls, rs1)"
    by (metis prod_cases4)
  show ?thesis
    using read_items_outgoing [OF i]
    by (cases go) (simp_all add: read_message_def m i schedule_outgoing close_outgoing add_collector_def)
qed

lemma read_frame_outgoing: "rs_outgoing (snd (read_frame loads none now frame rs)) = rs_outgoing rs"
  by (auto simp: read_frame_def close_outgoing schedule_outgoing read_message_outgoing split: sum.split)

lemma queue_ok_put: "queue_ok rs \<Longrightarrow> queue_ok (put_message m rs)"
  by (auto simp: queue_ok_def put_message_def queue_room_def)

lemma queue_ok_drop: "queue_ok (drop_collector k rs) = queue_ok rs"
  by (simp add: queue_ok_def drop_collector_def)

lemma queue_ok_same: "rs_outgoing rs' = rs_outgoing rs \<Longrightarrow> rs_limits rs' = rs_limits rs \<Longrightarrow> queue_ok rs \<Longrightarrow> queue_ok rs'"
  by (simp add: queue_ok_def)

lemma rt_step_queue: "rt_step dump w sv loads none rs rs' \<Longrightarrow> queue_ok rs \<Longrightarrow> queue_ok rs'"
proof (induction rule: rt_step.induct)
  case (Frame rs now frame on rs1)
  then show ?case
    using read_frame_limits [of loads none now frame rs] read_frame_outgoing [of loads none now frame rs]
    by (simp add: queue_ok_def)
next
  case (PutCollected rs k)
  then show ?case by (simp add: put_collected_def queue_ok_drop queue_ok_put split: option.split collector.split)
next
  case (Send rs m ms)
  then show ?case by (simp add: queue_ok_def)
qed (auto elim!: queue_ok_same [rotated 2] simp: start_call_def finish_call_def call_done_def run_collector_def
    drop_collector_def put_timeout_def close_outgoing close_limits slow_client_def queue_ok_put
    split: option.split sum.split collector.split)

text \<open>C10. On every run, the tasks that send responses are at most \<open>max_pending_requests\<close> plus
  \<open>max_queue_size\<close>, and the queue of the writer holds at most \<open>max_queue_size\<close> messages.\<close>

theorem collectors_bounded:
  assumes "(rt_step dump w sv loads none)\<^sup>*\<^sup>* (runtime_init c limits ms) rs"
  shows "int (length (rs_collectors rs)) \<le> max 0 (max_pending_requests limits + max_queue_size limits)
    \<and> int (length (rs_outgoing rs)) \<le> max 0 (max_queue_size limits)"
proof -
  have "queue_ok rs"
    using assms
  proof (induction rule: rtranclp_induct)
    case base
    then show ?case by (simp add: queue_ok_def runtime_init_def)
  next
    case (step x y)
    then show ?case by (blast intro: rt_step_queue)
  qed
  then show ?thesis using rt_reachable [OF assms] by (auto simp: rt_ok_def collector_limit_def queue_ok_def)
qed

lemma collectors_bounded_witness:
  "length (rs_collectors demo_admitted) = 1 \<and> int (length (rs_collectors demo_admitted)) \<le> 1152"
  using collectors_bounded [OF demo_run] by (simp add: demo_defs)

section \<open>Each call is collected once\<close>

fun collected_items :: "'o collector \<Rightarrow> nat list" where
  "collected_items (Invoke items batch controls) = items"
| "collected_items c = []"

definition awaited :: "'o rstate \<Rightarrow> nat list" where
  "awaited rs = concat (map (collected_items \<circ> snd) (rs_collectors rs))"

definition awaited_ok :: "'o rstate \<Rightarrow> bool" where
  "awaited_ok rs =
     (distinct (awaited rs) \<and> (\<forall>cid\<in>set (awaited rs). cid < rs_next rs)
      \<and> distinct (map fst (rs_collectors rs)) \<and> (\<forall>k\<in>fst ` set (rs_collectors rs). k < rs_next rs))"

text \<open>A step only drops awaited calls, or adds the calls it admitted.\<close>

definition awaits_new :: "'o rstate \<Rightarrow> 'o rstate \<Rightarrow> bool" where
  "awaits_new rs rs' =
     (rs_next rs \<le> rs_next rs' \<and>
      (\<forall>cid\<in>set (awaited rs'). cid \<in> set (awaited rs) \<or> rs_next rs \<le> cid))"

lemma close_awaited: "rs_collectors (request_close code reason rs) = rs_collectors rs"
  "rs_next (request_close code reason rs) = rs_next rs"
  "rs_collectors (close_collectors rs) = rs_collectors rs" "rs_next (close_collectors rs) = rs_next rs"
  "rs_collectors (internal_close rs) = rs_collectors rs" "rs_next (internal_close rs) = rs_next rs"
  by (simp_all add: request_close_def close_collectors_def internal_close_def)

lemma awaited_cong: "rs_collectors rs' = rs_collectors rs \<Longrightarrow> awaited rs' = awaited rs"
  by (simp add: awaited_def)

lemma awaited_ok_same:
  "rs_collectors rs' = rs_collectors rs \<Longrightarrow> rs_next rs' = rs_next rs \<Longrightarrow> awaited_ok rs \<Longrightarrow>
   awaited_ok rs' \<and> awaits_new rs rs'"
  by (simp add: awaited_ok_def awaits_new_def awaited_def)

lemma read_items_new:
  "read_items none batch now full els items controls rs = (go, items', controls', rs') \<Longrightarrow>
   rs_collectors rs' = rs_collectors rs \<and> rs_next rs \<le> rs_next rs' \<and>
   (\<exists>new. items' = items @ new \<and> distinct new \<and> (\<forall>cid\<in>set new. rs_next rs \<le> cid \<and> cid < rs_next rs'))"
proof (induction els arbitrary: items controls rs)
  case (Cons item rest)
  obtain resolved client where r: "client_resolve item (rs_client rs) = (resolved, client)" by fastforce
  obtain taken rs1 where t: "cancel_request item rs = (taken, rs1)" by fastforce
  obtain x rs2 where a: "admit_item batch now item rs = (x, rs2)" by fastforce
  have 1: "rs_collectors rs1 = rs_collectors rs" "rs_next rs1 = rs_next rs"
    using t by (auto elim!: cancel_request_cases)
  have 2: "rs_collectors rs2 = rs_collectors rs" "x = None \<or> x = Some (rs_next rs) \<and> rs_next rs2 = Suc (rs_next rs)"
    "x = None \<Longrightarrow> rs_next rs2 = rs_next rs"
    using a by (auto elim!: admit_item_cases)
  consider (resolved) "resolved" | (taken) "\<not> resolved" "taken"
    | (ping) "\<not> resolved" "\<not> taken" "raw_request_method item = Some ''$/ping''"
    | (full) "\<not> resolved" "\<not> taken" "raw_request_method item \<noteq> Some ''$/ping''" "full"
    | (admit) "\<not> resolved" "\<not> taken" "raw_request_method item \<noteq> Some ''$/ping''" "\<not> full" by blast
  then show ?case
  proof cases
    case resolved
    then show ?thesis using Cons.IH [of items controls "rs\<lparr>rs_client := client\<rparr>"] Cons.prems by (simp add: r)
  next
    case taken
    then show ?thesis using Cons.IH [of items controls rs1] Cons.prems 1 by (simp add: r t)
  next
    case ping
    then show ?thesis using Cons.IH [of items _ rs] Cons.prems by (simp add: r t)
  next
    case full
    then show ?thesis using Cons.prems by (auto simp: r t close_awaited)
  next
    case admit
    show ?thesis
    proof (cases x)
      case None
      then show ?thesis using admit Cons.prems 2 by (auto simp: r t a close_awaited)
    next
      case (Some cid)
      then have cid: "cid = rs_next rs" "rs_next rs2 = Suc (rs_next rs)" using 2 by auto
      have "read_items none batch now full rest (items @ [cid]) controls rs2 = (go, items', controls', rs')"
        using admit Cons.prems Some by (simp add: r t a)
      from Cons.IH [OF this] cid 2(1) obtain new where "rs_collectors rs' = rs_collectors rs"
        "Suc cid \<le> rs_next rs'" "items' = (items @ [cid]) @ new" "distinct new"
        "\<forall>c\<in>set new. Suc cid \<le> c \<and> c < rs_next rs'" by auto
      then show ?thesis using cid by (intro conjI exI [of _ "cid # new"]) auto
    qed
  qed
qed simp

lemma awaited_add:
  assumes "awaited_ok rs" "rs_collectors rs1 = rs_collectors rs" "rs_next rs \<le> rs_next rs1"
    and "distinct (collected_items c)" "\<forall>cid\<in>set (collected_items c). rs_next rs \<le> cid \<and> cid < rs_next rs1"
  shows "awaited_ok (add_collector c rs1) \<and> awaits_new rs (add_collector c rs1)"
proof -
  have a: "awaited (add_collector c rs1) = awaited rs @ collected_items c"
    using assms(2) by (simp add: awaited_def add_collector_def)
  have "\<forall>k\<in>fst ` set (rs_collectors rs). k < rs_next rs1" using assms(1,3) by (force simp: awaited_ok_def)
  then show ?thesis
    using assms unfolding awaited_ok_def awaits_new_def a
    by (fastforce simp: add_collector_def)
qed

lemma awaited_schedule:
  "awaited_ok rs \<Longrightarrow> awaited_ok (snd (schedule_failure m e rs)) \<and> awaits_new rs (snd (schedule_failure m e rs))"
  using awaited_add [of rs rs "Respond m e"] awaited_ok_same [of "close_collectors rs" rs]
  by (simp add: schedule_failure_def close_awaited)

lemma awaited_read_message:
  assumes "awaited_ok rs"
  shows "awaited_ok (snd (read_message none now message rs)) \<and> awaits_new rs (snd (read_message none now message rs))"
proof -
  obtain batch els where m: "(case message of JArr xs \<Rightarrow> (True, xs) | _ \<Rightarrow> (False, [message])) = (batch, els)"
    by fastforce
  obtain go items controls rs1 where
    i: "read_items none batch now (collectors_full rs) els [] [] rs = (go, items, controls, rs1)"
    by (metis prod_cases4)
  from read_items_new [OF i] have n: "rs_collectors rs1 = rs_collectors rs" "rs_next rs \<le> rs_next rs1"
    "distinct items" "\<forall>cid\<in>set items. rs_next rs \<le> cid \<and> cid < rs_next rs1" by auto
  have 1: "awaited_ok rs' \<and> awaits_new rs rs'"
    if "rs_collectors rs' = rs_collectors rs" "rs_next rs' = rs_next rs1" for rs'
    using assms n(2) that by (fastforce simp: awaited_ok_def awaits_new_def awaited_def)
  have 2: "awaited_ok (add_collector (Invoke items batch controls) rs1)
      \<and> awaits_new rs (add_collector (Invoke items batch controls) rs1)"
    using n by (intro awaited_add [OF assms]) auto
  show ?thesis
    using 1 [of rs1] 1 [of "close_collectors rs1"] 2 awaited_schedule [OF assms]
    by (cases go) (simp_all add: read_message_def m i n close_awaited)
qed

lemma awaited_read_frame:
  "awaited_ok rs \<Longrightarrow>
   awaited_ok (snd (read_frame loads none now frame rs)) \<and> awaits_new rs (snd (read_frame loads none now frame rs))"
  by (simp add: read_frame_def close_awaited awaited_ok_same awaited_schedule awaited_read_message split: sum.split)

lemma concat_filter_sub:
  "set (concat (map f (filter P xs))) \<subseteq> set (concat (map f xs))"
  "distinct (concat (map f xs)) \<Longrightarrow> distinct (concat (map f (filter P xs)))"
  by (induction xs) auto

lemma awaited_sub:
  assumes "awaited_ok rs" "rs_next rs' = rs_next rs" "set (awaited rs') \<subseteq> set (awaited rs)" "distinct (awaited rs')"
    and "dict_keys (rs_collectors rs') = filter P (dict_keys (rs_collectors rs))"
  shows "awaited_ok rs' \<and> awaits_new rs rs'"
proof -
  have "fst ` set (rs_collectors rs') \<subseteq> fst ` set (rs_collectors rs)"
    using arg_cong [OF assms(5), of set] by auto
  moreover have "\<forall>k\<in>fst ` set (rs_collectors rs). k < rs_next rs'"
    using assms(1,2) by (simp add: awaited_ok_def)
  ultimately have 1: "\<forall>k\<in>fst ` set (rs_collectors rs'). k < rs_next rs'" by blast
  have "\<forall>cid\<in>set (awaited rs). cid < rs_next rs'" using assms(1,2) by (simp add: awaited_ok_def)
  with assms(3) have 2: "\<forall>cid\<in>set (awaited rs'). cid < rs_next rs'" by blast
  have 3: "distinct (dict_keys (rs_collectors rs'))" using assms(1,5) by (simp add: awaited_ok_def)
  have 4: "\<forall>cid\<in>set (awaited rs'). cid \<in> set (awaited rs) \<or> rs_next rs \<le> cid" using assms(3) by blast
  show ?thesis
    unfolding awaited_ok_def awaits_new_def using assms(2,4) 1 2 3 4 by (intro conjI) simp_all
qed

lemma awaited_drop:
  "awaited_ok rs \<Longrightarrow> awaited_ok (drop_collector k rs) \<and> awaits_new rs (drop_collector k rs)"
  by (rule awaited_sub [where P = "\<lambda>x. x \<noteq> k"])
    (use concat_filter_sub(1) [of "collected_items \<circ> snd" "\<lambda>p. fst p \<noteq> k" "rs_collectors rs"]
      in \<open>auto simp: drop_collector_def awaited_def awaited_ok_def concat_filter_sub(2) filter_map comp_def
        simp del: set_concat\<close>)

lemma replace_awaited:
  "map_of cs k = Some c \<Longrightarrow> collected_items c' = [] \<Longrightarrow>
   set (concat (map (collected_items \<circ> snd) (dict_set k c' cs))) \<subseteq> set (concat (map (collected_items \<circ> snd) cs))
   \<and> (distinct (concat (map (collected_items \<circ> snd) cs)) \<longrightarrow>
      distinct (concat (map (collected_items \<circ> snd) (dict_set k c' cs))))"
  by (induction cs) (auto split: if_splits)

lemma awaited_replace:
  assumes "awaited_ok rs" "map_of (rs_collectors rs) k = Some c"
  shows "awaited_ok (rs\<lparr>rs_collectors := dict_set k (Sending m) (rs_collectors rs)\<rparr>)
    \<and> awaits_new rs (rs\<lparr>rs_collectors := dict_set k (Sending m) (rs_collectors rs)\<rparr>)"
proof (rule awaited_sub [OF assms(1), where P = "\<lambda>x. True"])
  note r = replace_awaited [OF assms(2), of "Sending m"]
  show "set (awaited (rs\<lparr>rs_collectors := dict_set k (Sending m) (rs_collectors rs)\<rparr>)) \<subseteq> set (awaited rs)"
    "distinct (awaited (rs\<lparr>rs_collectors := dict_set k (Sending m) (rs_collectors rs)\<rparr>))"
    using r assms(1) by (simp_all add: awaited_def awaited_ok_def)
  have "k \<in> set (dict_keys (rs_collectors rs))" using map_of_SomeD [OF assms(2)] by force
  then show "dict_keys (rs_collectors (rs\<lparr>rs_collectors := dict_set k (Sending m) (rs_collectors rs)\<rparr>)) =
      filter (\<lambda>x. True) (dict_keys (rs_collectors rs))"
    by (simp add: dict_simps)
qed simp

lemma awaited_collector:
  assumes "awaited_ok rs"
  shows "awaited_ok (run_collector dump w sv which k rs) \<and> awaits_new rs (run_collector dump w sv which k rs)"
proof -
  note d = awaited_drop [OF assms, of k]
  then have i: "awaited_ok (internal_close (drop_collector k rs)) \<and> awaits_new rs (internal_close (drop_collector k rs))"
    by (simp add: awaited_ok_def awaits_new_def awaited_def close_awaited)
  have s: "awaited_ok rs \<and> awaits_new rs rs" using awaited_ok_same [OF refl refl assms] .
  show ?thesis
    using d i s awaited_replace [OF assms] by (auto simp: run_collector_def split: option.split sum.split)
qed

lemma awaited_put:
  assumes "awaited_ok rs"
  shows "awaited_ok (put_collected k rs) \<and> awaits_new rs (put_collected k rs)"
    and "awaited_ok (put_timeout k rs) \<and> awaits_new rs (put_timeout k rs)"
proof -
  note d = awaited_drop [OF assms, of k]
  have s: "awaited_ok rs \<and> awaits_new rs rs" using awaited_ok_same [OF refl refl assms] .
  have 1: "rs_collectors (drop_collector k (put_message m rs)) = rs_collectors (drop_collector k rs)"
    "rs_next (drop_collector k (put_message m rs)) = rs_next (drop_collector k rs)" for m
    by (simp_all add: drop_collector_def put_message_def)
  have 2: "awaited_ok (drop_collector k (put_message m rs)) \<and> awaits_new rs (drop_collector k (put_message m rs))" for m
    using d unfolding awaited_ok_def awaits_new_def awaited_def 1 .
  have 3: "awaited_ok (slow_client (drop_collector k rs)) \<and> awaits_new rs (slow_client (drop_collector k rs))"
    using d by (simp add: awaited_ok_def awaits_new_def awaited_def close_awaited slow_client_def)
  show "awaited_ok (put_collected k rs) \<and> awaits_new rs (put_collected k rs)"
    "awaited_ok (put_timeout k rs) \<and> awaits_new rs (put_timeout k rs)"
    using s 2 3 by (simp_all add: put_collected_def put_timeout_def split: option.split collector.split)
qed

lemma rt_step_awaited:
  "rt_step dump w sv loads none rs rs' \<Longrightarrow> awaited_ok rs \<Longrightarrow> awaited_ok rs' \<and> awaits_new rs rs'"
proof (induction rule: rt_step.induct)
  case (Frame rs now frame on rs1)
  then show ?case using awaited_read_frame [of rs loads none now frame]
    by (simp add: awaited_ok_def awaits_new_def awaited_def)
next
  case (Collect rs k which)
  then show ?case by (intro awaited_collector)
next
  case (PutCollected rs k)
  then show ?case by (intro awaited_put)
next
  case (PutTimeout rs k)
  then show ?case by (intro awaited_put)
next
  case (CancelCollector rs k)
  then show ?case by (intro awaited_drop)
qed (erule awaited_ok_same [rotated 2];
  simp add: start_call_def finish_call_def call_done_def put_message_def close_awaited split: option.split)+

lemma rt_run_awaited:
  "(rt_step dump w sv loads none)\<^sup>*\<^sup>* rs rs' \<Longrightarrow> awaited_ok rs \<Longrightarrow> awaited_ok rs' \<and> awaits_new rs rs'"
proof (induction rule: rtranclp_induct)
  case base
  then show ?case by (simp add: awaits_new_def)
next
  case (step y z)
  then have "awaited_ok y" "awaits_new rs y" by simp_all
  with rt_step_awaited [OF step.hyps(2)] show ?case by (fastforce simp: awaits_new_def)
qed

text \<open>C7. On every run, the response of a call is collected by at most one task and at one place in
  its frame, and once that task let go of it no later task collects it: it is answered at most once.\<close>

theorem answered_at_most_once:
  assumes "(rt_step dump w sv loads none)\<^sup>*\<^sup>* (runtime_init c limits ms) rs"
    and "(rt_step dump w sv loads none)\<^sup>*\<^sup>* rs rs'"
  shows "distinct (awaited rs)
    \<and> (\<forall>cid\<in>set (awaited rs'). cid \<in> set (awaited rs) \<or> rs_calls rs cid = None)"
proof -
  have "awaited_ok (runtime_init c limits ms)" by (simp add: awaited_ok_def awaited_def runtime_init_def)
  with rt_run_awaited [OF assms(1)] have 1: "awaited_ok rs" by blast
  with rt_run_awaited [OF assms(2)] have 2: "awaits_new rs rs'" by blast
  have "rs_calls rs cid = None" if "rs_next rs \<le> cid" for cid
    using that rt_reachable [OF assms(1)] admD(5) unfolding rt_ok_def
    by (metis linorder_not_le not_None_eq)
  with 1 2 show ?thesis by (auto simp: awaited_ok_def awaits_new_def)
qed

lemma answered_at_most_once_witness:
  "awaited demo_admitted = [0] \<and> distinct (awaited demo_admitted)"
  using answered_at_most_once [OF demo_run rtranclp.rtrancl_refl] by (simp add: demo_defs awaited_def)

end
