(* ===== verification/RuntimeAnswers.thy ===== *)
theory RuntimeAnswers
  imports RuntimeProps
begin

text \<open>
  What an RPC connection answers: cancellation, pings, duplicate ids and rejected frames of the
  reader, and the messages of the collectors.
\<close>

section \<open>Cancellation\<close>

definition cancels :: "json \<Rightarrow> 'o rstate \<Rightarrow> nat \<Rightarrow> 'o call \<Rightarrow> bool" where
  "cancels item rs cid call =
     (cid \<in> set (rs_call_tasks rs) \<and> call_key call \<noteq> None \<and> call_key call = cancel_target item
      \<and> cancellable call)"

text \<open>C9. A \<open>$/cancelRequest\<close> notification flags exactly the live, admitted, unfinished call with
  the id it names (type and value), once; any other message, and any other call, is left alone.\<close>

theorem cancel_reaches_its_target:
  assumes "(rt_step dump w sv loads none)\<^sup>*\<^sup>* (runtime_init c limits ms) rs"
    and "cancel_request item rs = (taken, rs')"
  shows "rs' = rs\<lparr>rs_calls := (\<lambda>cid. map_option (\<lambda>call. if taken \<and> cancels item rs cid call
        then call\<lparr>ca_cancel_requested := True\<rparr> else call) (rs_calls rs cid))\<rparr>
    \<and> (taken \<longleftrightarrow> raw_request_method item = Some ''$/cancelRequest'' \<and> \<not> has_key ''id'' item)"
proof
  show taken: "taken \<longleftrightarrow> raw_request_method item = Some ''$/cancelRequest'' \<and> \<not> has_key ''id'' item"
    using assms(2) by (auto simp: cancel_request_def split: if_splits option.splits)
  have r: "req (rs_requests rs) (rs_calls rs) (rs_call_tasks rs)"
    using rt_reachable [OF assms(1)] by (simp add: rt_ok_def)
  let ?f = "\<lambda>cid. map_option (\<lambda>call. if taken \<and> cancels item rs cid call
        then call\<lparr>ca_cancel_requested := True\<rparr> else call) (rs_calls rs cid)"
  have untouched: "rs\<lparr>rs_calls := ?f\<rparr> = rs" if "\<And>cid call. rs_calls rs cid = Some call \<Longrightarrow> \<not> (taken \<and> cancels item rs cid call)"
  proof -
    have "?f cid = rs_calls rs cid" for cid using that by (cases "rs_calls rs cid") auto
    then have "?f = rs_calls rs" by (intro ext)
    then show ?thesis by simp
  qed
  have hit: "map_of (rs_requests rs) k = Some cid" if "cancels item rs cid call" "rs_calls rs cid = Some call"
    "cancel_target item = Some k" for cid call k
  proof -
    from that have "cid \<in> set (rs_call_tasks rs)" "call_key call = Some k" by (simp_all add: cancels_def)
    with that(2) show ?thesis using iffD2 [OF spec [OF spec [OF r [unfolded req_def]]], of cid k] by simp
  qed
  from assms(2) show "rs' = rs\<lparr>rs_calls := ?f\<rparr>"
  proof (cases rule: cancel_request_cases)
    case (cancel cid call k)
    have live: "cid \<in> set (rs_call_tasks rs)" "call_key call = Some k"
      using r cancel(3,4) unfolding req_def by auto
    have "?f = (rs_calls rs)(cid \<mapsto> call\<lparr>ca_cancel_requested := True\<rparr>)"
    proof (rule ext)
      fix x
      show "?f x = ((rs_calls rs)(cid \<mapsto> call\<lparr>ca_cancel_requested := True\<rparr>)) x"
      proof (cases "x = cid")
        case True
        then show ?thesis using cancel live by (simp add: cancels_def)
      next
        case False
        then have "\<not> cancels item rs x y" if "rs_calls rs x = Some y" for y
          using hit [OF _ that cancel(2)] cancel(3) by auto
        then show ?thesis using False by (cases "rs_calls rs x") auto
      qed
    qed
    then show ?thesis using cancel(6) by simp
  next
    case same
    have "\<not> (taken \<and> cancels item rs cid call)" if call: "rs_calls rs cid = Some call" for cid call
    proof
      assume t: "taken \<and> cancels item rs cid call"
      then obtain k where k: "cancel_target item = Some k" by (auto simp: cancels_def)
      from t have c: "cancels item rs cid call" by simp
      have "rs' = rs\<lparr>rs_calls := (rs_calls rs)(cid \<mapsto> call\<lparr>ca_cancel_requested := True\<rparr>)\<rparr>"
        using assms(2) t taken k hit [OF c call k] call c by (simp add: cancel_request_def cancels_def)
      then have "rs_calls rs cid = Some (call\<lparr>ca_cancel_requested := True\<rparr>)"
        using same by (metis (no_types, lifting) fun_upd_same rstate.select_convs(4) rstate.surjective rstate.update_convs(4))
      then have "ca_cancel_requested call" using call by (metis call.select_convs(8) call.surjective call.update_convs(8) option.inject)
      then show False using c by (simp add: cancels_def cancellable_def)
    qed
    from untouched [OF this] show ?thesis using same by simp
  qed
qed

lemma cancel_reaches_its_target_witness:
  "let rs' = snd (cancel_request (JObj [(''jsonrpc'', JStr ''2.0''), (''method'', JStr ''$/cancelRequest''),
      (''params'', JObj [(''id'', JInt 7)])]) demo_admitted)
   in rs_calls rs' 0 = Some (demo_call\<lparr>ca_cancel_requested := True\<rparr>)"
proof -
  let ?item = "JObj [(''jsonrpc'', JStr ''2.0''), (''method'', JStr ''$/cancelRequest''),
      (''params'', JObj [(''id'', JInt 7)])]"
  obtain taken rs' where c: "cancel_request ?item demo_admitted = (taken, rs')" by fastforce
  have k: "call_key demo_call = Some (IdInt 7)" using ping_request_valid by (simp add: call_key_def demo_defs)
  have "cancel_target ?item = Some (IdInt 7)" "raw_request_method ?item = Some ''$/cancelRequest''"
    "\<not> has_key ''id'' ?item" by code_simp+
  moreover from this k have "cancels ?item demo_admitted 0 demo_call"
    by (simp add: cancels_def cancellable_def demo_admitted_def demo_call_def new_call_def)
  ultimately have "rs_calls rs' 0 = Some (demo_call\<lparr>ca_cancel_requested := True\<rparr>)"
    using cancel_reaches_its_target [OF demo_run c] by (simp add: demo_admitted_def)
  then show ?thesis by (simp add: c)
qed

section \<open>Pings\<close>

lemma ping_not_control:
  assumes "raw_request_method item = Some ''$/ping''"
  shows "client_resolve item cl = (False, cl)" "cancel_request item rs = (False, rs)"
  using assms by (auto simp: client_resolve_def is_client_response_def cancel_request_def has_key_def
      raw_request_method_def split: option.splits)

text \<open>A ping is answered whatever the load: it takes no reservation and starts no call, its response
  goes through a collector of its own that is ready at once, with the id of the ping when it is valid
  and an invalid-request error otherwise; a ping without id is dropped.\<close>

theorem ping_answered:
  assumes "raw_request_method item = Some ''$/ping''" "loads text = Some item"
    and "\<not> collectors_full rs"
    and "case max_message_bytes (rs_limits rs) of None \<Rightarrow> True | Some n \<Rightarrow> int (length text) \<le> n"
  shows "read_frame loads none now (TextFrame text) rs =
    (True, if has_key ''id'' item
       then add_collector (Invoke [] False
              [if ping_valid item then RpcSuccess (raw_request_id item) none None
               else RpcFailure IdNull err_invalid_request]) rs
       else rs)"
    (is "_ = (True, ?rs)")
proof -
  have o: "\<not> (case max_message_bytes (rs_limits rs) of None \<Rightarrow> False | Some n \<Rightarrow>
      n < int (length (frame_bytes (TextFrame text))))"
    using assms(4) by (simp split: option.splits)
  have "is_obj item" using assms(1) by (cases item) (auto simp: raw_request_method_def)
  then have m: "(case item of JArr xs \<Rightarrow> (True, xs) | _ \<Rightarrow> (False, [item])) = (False, [item])"
    by (cases item) simp_all
  have "read_message none now item rs = (True, ?rs)"
    using assms(1,3) by (simp add: read_message_def m ping_not_control ping_response_def)
  then show ?thesis using assms(2) unfolding read_frame_def if_not_P [OF o] by (simp add: codec_decode_def)
qed

lemma ping_answered_witness:
  "read_frame (\<lambda>_. Some (JObj [(''jsonrpc'', JStr ''2.0''), (''method'', JStr ''$/ping''), (''id'', JInt 3)]))
     [] 0 (TextFrame ''ping'') demo_admitted
   = (True, add_collector (Invoke [] False [RpcSuccess (IdInt 3) [] None]) demo_admitted)"
proof -
  let ?ping = "JObj [(''jsonrpc'', JStr ''2.0''), (''method'', JStr ''$/ping''), (''id'', JInt 3)]"
  have "raw_request_method ?ping = Some ''$/ping''" "has_key ''id'' ?ping" "ping_valid ?ping"
    "raw_request_id ?ping = IdInt 3"
    by code_simp+
  moreover have "\<not> collectors_full demo_admitted" "max_message_bytes (rs_limits demo_admitted) = Some 1048576"
    by (simp_all add: collectors_full_def collector_limit_def demo_defs)
  ultimately show ?thesis using ping_answered [of ?ping "\<lambda>_. Some ?ping" "''ping''" demo_admitted "[]" 0] by simp
qed

section \<open>Frames that are refused\<close>

lemma no_resolve: "has_key ''method'' item \<Longrightarrow> client_resolve item cl = (False, cl)"
  by (simp add: client_resolve_def is_client_response_def)

text \<open>While a live call has a request id, another request with that id closes the connection
  with a protocol error, unless it is closing already, and starts no call: the calls, the table of
  requests in flight and the reservations held stay as they are.\<close>

theorem duplicate_id_closes:
  assumes "(rt_step dump w sv loads none)\<^sup>*\<^sup>* (runtime_init c limits ms) rs"
    and "cid \<in> set (rs_call_tasks rs)" "rs_calls rs cid = Some call" "call_key call = Some k"
    and "valid_item item" "item_key item = Some k" "raw_request_method item \<noteq> Some ''$/ping''"
    and "\<not> collectors_full rs" "read_message none now item rs = (go, rs')"
  shows "\<not> go \<and> latch_decided (rs_latch rs') =
        Some (case latch_decided (rs_latch rs) of None \<Rightarrow> Close_PROTOCOL_ERROR | Some code \<Rightarrow> code)
    \<and> rs_calls rs' = rs_calls rs \<and> rs_call_tasks rs' = rs_call_tasks rs
    \<and> rs_requests rs' = rs_requests rs \<and> rs_collectors rs' = rs_collectors rs
    \<and> rv_held (rs_pending rs') = rv_held (rs_pending rs)"
proof -
  have ok: "rt_ok rs" using rt_reachable [OF assms(1)] by blast
  then have r: "req (rs_requests rs) (rs_calls rs) (rs_call_tasks rs)"
    and p: "pool_ok (rs_pending rs)" by (auto simp: rt_ok_def adm_def)
  from r have "map_of (rs_requests rs) k = Some cid"
    using iffD2 [OF spec [OF spec [OF r [unfolded req_def]]], of cid k] assms(2-4) by simp
  then have dup: "dict_has k (rs_requests rs)" by (simp add: dict_has_map_of)
  from assms(5) obtain e where e: "validate_envelope item = Some e" "env_method e \<noteq> ''$/cancelRequest''"
    by (auto simp: valid_item_def split: option.splits)
  note v = validate_envelope_Some [OF e(1)]
  have name: "raw_request_method item = Some (env_method e)" using v by (simp add: raw_request_method_def)
  have hm: "has_key ''method'' item" using v by (simp add: has_key_def)
  have m: "(case item of JArr xs \<Rightarrow> (True, xs) | _ \<Rightarrow> (False, [item])) = (False, [item])"
    using v by (cases item) simp_all
  have cr: "cancel_request item rs = (False, rs)" using name e(2) by (simp add: cancel_request_def)
  obtain x rs2 where a: "admit_item False now item rs = (x, rs2)" by fastforce
  have "x = None \<and> rs_calls rs2 = rs_calls rs \<and> rs_call_tasks rs2 = rs_call_tasks rs
      \<and> rs_requests rs2 = rs_requests rs \<and> rs_collectors rs2 = rs_collectors rs \<and> rs_latch rs2 = rs_latch rs
      \<and> rv_held (rs_pending rs2) = rv_held (rs_pending rs)"
    using a
  proof (cases rule: admit_item_cases)
    case (duplicate k' p')
    from duplicate(5) have "rv_held p' = rv_held (rs_pending rs)"
      using p by (auto simp: reserve_def release_def pool_ok_def intro!: filter_True split: if_splits)
    with duplicate show ?thesis by simp
  next
    case (new d p')
    then show ?thesis using dup assms(5,6) by (simp add: item_call_key_def)
  qed
  moreover have "(go, rs') = (False, request_close Close_PROTOCOL_ERROR ''Duplicate in-flight request id'' rs2)"
    using assms(7-9) calculation by (simp add: read_message_def m no_resolve [OF hm] cr a)
  ultimately show ?thesis
    by (auto simp: request_close_def closing_def rpc_request_close_def latch_close_def latch_decided_def)
qed

lemma duplicate_id_closes_witness:
  "latch_decided (rs_latch (snd (read_message [] 0 ping_request demo_admitted))) = Some Close_PROTOCOL_ERROR"
proof -
  obtain go rs' where r: "read_message [] 0 ping_request demo_admitted = (go, rs')" by fastforce
  have "call_key demo_call = Some (IdInt 7)" "\<not> collectors_full demo_admitted"
    "0 \<in> set (rs_call_tasks demo_admitted)" "rs_calls demo_admitted 0 = Some demo_call"
    "latch_decided (rs_latch demo_admitted) = None"
    using ping_request_valid
    by (simp_all add: call_key_def collectors_full_def collector_limit_def latch_decided_def latch_init_def demo_defs)
  with duplicate_id_closes [OF demo_run, of 0 demo_call "IdInt 7" ping_request 0 go rs'] r ping_request_valid
  show ?thesis by simp
qed

definition refused_frame :: "(string \<Rightarrow> json option) \<Rightarrow> rpc_limits \<Rightarrow> frame \<Rightarrow> bool" where
  "refused_frame loads limits frame =
     ((case max_message_bytes limits of None \<Rightarrow> False | Some n \<Rightarrow> n < int (length (frame_bytes frame)))
      \<or> (case frame of TextFrame _ \<Rightarrow> False | BytesFrame s \<Rightarrow> \<not> utf8_valid s)
      \<or> (case loads (frame_bytes frame) of
           None \<Rightarrow> True
         | Some (JArr xs) \<Rightarrow> xs = [] \<or> max_batch_size limits < int (length xs)
         | Some _ \<Rightarrow> False))"

text \<open>A frame that is too big, not UTF-8, not JSON, or an empty or oversized batch starts no call and
  touches no request in flight: either one task that answers its error is scheduled and reading goes
  on, or the connection is closing and reading stops.\<close>

theorem refused_frame_starts_nothing:
  assumes "refused_frame loads (rs_limits rs) frame" "read_frame loads none now frame rs = (go, rs')"
  shows "rs_calls rs' = rs_calls rs \<and> rs_call_tasks rs' = rs_call_tasks rs
    \<and> rs_requests rs' = rs_requests rs \<and> rs_pending rs' = rs_pending rs
    \<and> (if go then (\<exists>message e. rs_collectors rs' = rs_collectors rs @ [(rs_next rs, Respond message e)]
          \<and> e \<in> {err_parse, err_invalid_request})
       else closing rs' \<and> rs_collectors rs' = rs_collectors rs)"
proof -
  have c: "closing (request_close code reason rs)" for code reason
    by (simp add: closing_def request_close_def rpc_request_close_def latch_close_def)
  have close: ?thesis if "(go, rs') = (False, request_close code reason rs)" for code reason
    using that c by (simp add: request_close_def)
  have fail: ?thesis if "(go, rs') = schedule_failure message e rs" "e \<in> {err_parse, err_invalid_request}" for message e
  proof (cases "collectors_full rs")
    case True
    then show ?thesis using that by (intro close) (simp add: schedule_failure_def close_collectors_def)
  next
    case False
    then show ?thesis using that by (auto simp: schedule_failure_def add_collector_def)
  qed
  consider (big) "case max_message_bytes (rs_limits rs) of None \<Rightarrow> False | Some n \<Rightarrow> n < int (length (frame_bytes frame))"
    | (utf8) "\<not> (case max_message_bytes (rs_limits rs) of None \<Rightarrow> False | Some n \<Rightarrow> n < int (length (frame_bytes frame)))"
        "case frame of TextFrame _ \<Rightarrow> False | BytesFrame s \<Rightarrow> \<not> utf8_valid s"
    | (rest) "\<not> (case max_message_bytes (rs_limits rs) of None \<Rightarrow> False | Some n \<Rightarrow> n < int (length (frame_bytes frame)))"
        "\<not> (case frame of TextFrame _ \<Rightarrow> False | BytesFrame s \<Rightarrow> \<not> utf8_valid s)" by blast
  then show ?thesis
  proof cases
    case big
    then show ?thesis using assms(2)
      by (intro close [of Close_MESSAGE_TOO_BIG "[]"]) (simp add: read_frame_def)
  next
    case utf8
    then have "case frame of BytesFrame s \<Rightarrow> \<not> utf8_valid s | _ \<Rightarrow> False" by (simp split: frame.splits)
    then have "(go, rs') = (False, request_close Close_PROTOCOL_ERROR ''Invalid RPC frame'' rs)"
      using assms(2) unfolding read_frame_def if_not_P [OF utf8(1)] by simp
    then show ?thesis by (rule close)
  next
    case rest
    have utf8: "\<not> (case frame of BytesFrame s \<Rightarrow> \<not> utf8_valid s | _ \<Rightarrow> False)" using rest(2) by (simp split: frame.splits)
    have j: "case loads (frame_bytes frame) of None \<Rightarrow> True
         | Some (JArr xs) \<Rightarrow> xs = [] \<or> max_batch_size (rs_limits rs) < int (length xs) | Some _ \<Rightarrow> False"
      using assms(1) rest unfolding refused_frame_def by blast
    have eq: "(go, rs') = (case codec_decode loads (frame_bytes frame) of
         Inl e \<Rightarrow> schedule_failure (JStr (frame_bytes frame)) e rs
       | Inr message \<Rightarrow> read_message none now message rs)"
      using assms(2) unfolding read_frame_def if_not_P [OF rest(1)] if_not_P [OF utf8] by simp
    show ?thesis
    proof (cases "loads (frame_bytes frame)")
      case None
      then show ?thesis
        using eq by (intro fail [of "JStr (frame_bytes frame)" err_parse]) (simp_all add: codec_decode_def)
    next
      case (Some message)
      then obtain xs where "message = JArr xs" "xs = [] \<or> max_batch_size (rs_limits rs) < int (length xs)"
        using j by (auto split: json.splits)
      then show ?thesis
        using eq Some by (intro fail [of message err_invalid_request]) (auto simp: codec_decode_def read_message_def)
    qed
  qed
qed

lemma refused_frame_starts_nothing_witness:
  "rs_call_tasks (snd (read_frame demo_loads [] 0 (TextFrame ''{'') demo_admitted)) = [0]"
proof -
  obtain go rs' where r: "read_frame demo_loads [] 0 (TextFrame ''{'') demo_admitted = (go, rs')" by fastforce
  have "refused_frame demo_loads (rs_limits demo_admitted) (TextFrame ''{'')"
    by (simp add: refused_frame_def demo_loads_def demo_defs)
  from refused_frame_starts_nothing [OF this r] r show ?thesis by (simp add: demo_defs)
qed

section \<open>Answering a frame\<close>

definition answers_with :: "'o world \<Rightarrow> 'o server \<Rightarrow> 'o call \<Rightarrow> 'o response option \<Rightarrow> bool" where
  "answers_with w sv call answer \<longleftrightarrow>
     ca_result call = Some (TaskReturned answer)
     \<or> ca_result call = Some TaskCancelled \<and> \<not> ca_started call \<and> ca_cancel_requested call
       \<and> handle_failure w sv (ca_message call) err_cancelled = Inr answer"

lemma collect_answers: "answers_with w sv call answer \<Longrightarrow> collect_one w sv False call = Collected answer"
  by (auto simp: answers_with_def collect_one_def)

lemma gather_all:
  "\<forall>x\<in>set xs. f x = Collected (answer x) \<Longrightarrow> gather which (map f xs) = Inr (List.map_filter answer xs)"
proof -
  assume a: "\<forall>x\<in>set xs. f x = Collected (answer x)"
  then have "filter collected_failure (map f xs) = []" by (auto simp: filter_empty_conv)
  moreover have "List.map_filter collected_response (map f xs) = List.map_filter answer xs"
    using a by (induction xs) (auto simp: List.map_filter_simps split: option.split)
  ultimately show ?thesis by (simp add: gather_def)
qed



end
