(* ===== verification/Streams.thy ===== *)
theory Streams
  imports Runtime
begin

text \<open>
  Binary streams: \<open>streams.py\<close> (\<open>RpcBinaryInput\<close>, \<open>RpcBinaryOutput\<close>) and \<open>_run_stream_endpoint\<close> of
  \<open>runtime.py\<close>. \<open>inbox\<close> is the contract of the bounded queue between a reader and a handler, which
  raw sockets share.
\<close>

section \<open>A bounded queue between two tasks\<close>

text \<open>
  \<open>put\<close> fails while there is no room (the reader then waits with the item), \<open>take\<close> while it is empty.
\<close>

locale inbox =
  fixes put :: "'i \<Rightarrow> 's \<Rightarrow> 's option"
    and take_item :: "'s \<Rightarrow> ('i \<times> 's) option"
    and items :: "'s \<Rightarrow> 'i list"
    and capacity :: "'s \<Rightarrow> int"
  assumes put_full: "put i s = None \<longleftrightarrow> capacity s \<le> int (length (items s))"
    and put_items: "put i s = Some s' \<Longrightarrow> items s' = items s @ [i] \<and> capacity s' = capacity s"
    and take_items: "take_item s = Some (i, s') \<Longrightarrow> items s = i # items s' \<and> capacity s' = capacity s"
begin

text \<open>What was taken, what waits and what the reader holds is what arrived, in order.\<close>

definition flows :: "'i list \<Rightarrow> 's \<Rightarrow> 'i option \<Rightarrow> 'i list \<Rightarrow> bool" where
  "flows taken s blocked arrived \<longleftrightarrow>
     arrived = taken @ items s @ (case blocked of None \<Rightarrow> [] | Some i \<Rightarrow> [i])
     \<and> int (length (items s)) \<le> max 0 (capacity s)"

lemma flows_init: "items s = [] \<Longrightarrow> flows [] s None []"
  by (simp add: flows_def)

lemma flows_put: "flows taken s None arrived \<Longrightarrow> put i s = Some s' \<Longrightarrow> flows taken s' None (arrived @ [i])"
  using put_items [of i s s'] put_full [of i s] by (auto simp: flows_def)

lemma flows_block: "flows taken s None arrived \<Longrightarrow> flows taken s (Some i) (arrived @ [i])"
  by (simp add: flows_def)

lemma flows_unblock: "flows taken s (Some i) arrived \<Longrightarrow> put i s = Some s' \<Longrightarrow> flows taken s' None arrived"
  using put_items [of i s s'] put_full [of i s] by (auto simp: flows_def)

lemma flows_take: "flows taken s blocked arrived \<Longrightarrow> take_item s = Some (i, s') \<Longrightarrow> flows (taken @ [i]) s' blocked arrived"
  using take_items [of s i s'] by (auto simp: flows_def)

end

section \<open>The input of a stream\<close>

datatype input_item = InputFrame string | InputEnd

record binary_input =
  bi_limit :: int
  bi_queue :: "input_item list"
  bi_ended :: bool

datatype received = Waits | Received string | InputEnded

definition input_create :: "int \<Rightarrow> binary_input" where
  "input_create limit = \<lparr>bi_limit = limit, bi_queue = [], bi_ended = False\<rparr>"

definition input_receive :: "binary_input \<Rightarrow> received \<times> binary_input" where
  "input_receive bi =
     (if bi_ended bi then (InputEnded, bi)
      else
        (case bi_queue bi of
           [] \<Rightarrow> (Waits, bi)
         | InputEnd # q \<Rightarrow> (InputEnded, bi\<lparr>bi_queue := q, bi_ended := True\<rparr>)
         | InputFrame d # q \<Rightarrow> (Received d, bi\<lparr>bi_queue := q\<rparr>)))"

definition input_put :: "input_item \<Rightarrow> binary_input \<Rightarrow> binary_input option" where
  "input_put i bi =
     (if int (length (bi_queue bi)) < bi_limit bi then Some (bi\<lparr>bi_queue := bi_queue bi @ [i]\<rparr>) else None)"

definition input_take :: "binary_input \<Rightarrow> (input_item \<times> binary_input) option" where
  "input_take bi =
     (if bi_ended bi then None
      else
        (case input_receive bi of
           (Waits, bi') \<Rightarrow> None
         | (Received d, bi') \<Rightarrow> Some (InputFrame d, bi')
         | (InputEnded, bi') \<Rightarrow> Some (InputEnd, bi')))"

interpretation input_box: inbox input_put input_take bi_queue bi_limit
  by unfold_locales
    (auto simp: input_put_def input_take_def input_receive_def split: if_splits list.splits input_item.splits)

text \<open>\<open>_is_input_end\<close>: \<open>parse\<close> is the JSON parser of Pydantic, the model forbids other keys.\<close>

definition is_input_end :: "(string \<Rightarrow> json option) \<Rightarrow> string \<Rightarrow> bool" where
  "is_input_end parse text =
     (case parse text of
        Some (JObj m) \<Rightarrow> set (map fst m) = {''type''} \<and> map_of m ''type'' = Some (JStr ''end'')
      | _ \<Rightarrow> False)"

section \<open>The output of a stream\<close>

definition cls_RpcDisconnect :: pyclass where
  "cls_RpcDisconnect = builtin_class 43 ''RpcDisconnect'' [2, 1, 0]"

text \<open>\<open>None\<close> as frame: not bytes. \<open>sent\<close> is what the socket answers.\<close>

definition output_send :: "string option \<Rightarrow> exc + unit \<Rightarrow> connection \<Rightarrow> exc + string" where
  "output_send frame sent c =
     (case frame of
        None \<Rightarrow> Inl (type_error ''RpcBinaryOutput.send() expects bytes'')
      | Some d \<Rightarrow>
          if con_closed c \<or> con_close_code c \<noteq> None
          then Inl (DisconnectExc cls_RpcDisconnect
                 (rpc_disconnect_init (Inl Close_NORMAL) ''The binary stream is closed''))
          else rbind sent (\<lambda>_. Inr d))"

section \<open>How a stream fails\<close>

definition safe_rejection :: "exc \<Rightarrow> rejections option \<Rightarrow> rpc_reject option" where
  "safe_rejection e rejections = (case rejection_for e rejections of Inl _ \<Rightarrow> None | Inr r \<Rightarrow> r)"

type_synonym mapper = "(exc \<Rightarrow> exc + mapper_result) option"

text \<open>
  \<open>close_stream_error\<close>. A mapper that returns something that is neither an error nor \<open>None\<close> makes the
  attribute access on it raise, out of the function.
\<close>

definition stream_mapped :: "mapper \<Rightarrow> exc \<Rightarrow> exc + rpc_error option" where
  "stream_mapped mapper e =
     (case e of
        RpcErrorExc x \<Rightarrow> Inr (Some x)
      | _ \<Rightarrow>
          (case mapper of
             None \<Rightarrow> Inr None
           | Some f \<Rightarrow>
               (case f e of
                  Inl _ \<Rightarrow> Inr None
                | Inr MapNone \<Rightarrow> Inr None
                | Inr (MapError x) \<Rightarrow> Inr (Some x)
                | Inr MapOther \<Rightarrow> Inl (PlainExc (builtin_class 9 ''AttributeError'' [2, 1, 0]) ''code''))))"

definition close_stream_error :: "rejections option \<Rightarrow> mapper \<Rightarrow> exc \<Rightarrow> latch \<Rightarrow> exc + latch" where
  "close_stream_error rejections mapper e l =
     (case e of
        StreamCloseExc c k reason \<Rightarrow> Inr (stream_request_close k reason None l)
      | _ \<Rightarrow>
          (case safe_rejection e rejections of
             Some r \<Rightarrow> Inr (stream_request_close (rejection_close (rej_rejection r)) (rej_reason r) None l)
           | None \<Rightarrow>
               rbind (stream_mapped mapper e) (\<lambda>mapped.
                 Inr (case mapped of
                        Some x \<Rightarrow> stream_request_close Close_POLICY_VIOLATION
                          (ec_code (err_class x) @ '': '' @ err_message x) None l
                      | None \<Rightarrow> stream_request_close Close_INTERNAL_ERROR ''Internal error'' None l))))"

text \<open>How the task of a handler, of a generator or of the reader ends: \<open>None\<close> is a return.\<close>

definition stream_task_end :: "rejections option \<Rightarrow> mapper \<Rightarrow> exc option \<Rightarrow> latch \<Rightarrow> exc + latch" where
  "stream_task_end rejections mapper outcome l =
     (case outcome of
        None \<Rightarrow> Inr (stream_request_close Close_NORMAL [] None l)
      | Some (DisconnectExc c d) \<Rightarrow> Inr (stream_client_disconnected d l)
      | Some e \<Rightarrow> close_stream_error rejections mapper e l)"

text \<open>
  One frame a generator yields (\<open>None\<close>: not bytes): whether the writer goes on.
\<close>

definition stream_write ::
  "rejections option \<Rightarrow> mapper \<Rightarrow> string option \<Rightarrow> exc + unit \<Rightarrow> latch \<Rightarrow> bool \<times> (exc + latch)" where
  "stream_write rejections mapper frame sent l =
     (case frame of
        None \<Rightarrow> (False, Inr (stream_request_close Close_INTERNAL_ERROR ''Internal error'' None l))
      | Some d \<Rightarrow>
          (case sent of
             Inr _ \<Rightarrow> (True, Inr l)
           | Inl e \<Rightarrow> (False, stream_task_end rejections mapper (Some e) l)))"

section \<open>A stream\<close>

text \<open>
  \<open>ss_read\<close>, \<open>ss_received\<close> and \<open>ss_sent\<close> record the frames the reader took from the socket, the handler
  from its input, and the socket from the handler or generator.
\<close>

record stream_state =
  ss_latch :: latch
  ss_input :: "binary_input option"
  ss_ended :: bool
  ss_blocked :: "input_item option"
  ss_reading :: bool
  ss_running :: bool
  ss_read :: "string list"
  ss_received :: "string list"
  ss_sent :: "string list"

definition stream_init :: "connection \<Rightarrow> rpc_limits \<Rightarrow> bool \<Rightarrow> stream_state" where
  "stream_init c limits input =
     \<lparr>ss_latch = latch_init c,
      ss_input = (if input then Some (input_create (max_queue_size limits)) else None),
      ss_ended = False, ss_blocked = None, ss_reading = True, ss_running = True,
      ss_read = [], ss_received = [], ss_sent = []\<rparr>"

definition stream_close :: "conn_close \<Rightarrow> string \<Rightarrow> stream_state \<Rightarrow> stream_state" where
  "stream_close code reason s = s\<lparr>ss_latch := stream_request_close code reason None (ss_latch s)\<rparr>"

definition stream_stop :: "conn_close \<Rightarrow> string \<Rightarrow> stream_state \<Rightarrow> stream_state" where
  "stream_stop code reason s = (stream_close code reason s)\<lparr>ss_reading := False\<rparr>"

definition stream_offer :: "input_item \<Rightarrow> binary_input \<Rightarrow> stream_state \<Rightarrow> stream_state" where
  "stream_offer i bi s =
     (case input_put i bi of
        Some bi' \<Rightarrow> s\<lparr>ss_input := Some bi'\<rparr>
      | None \<Rightarrow> s\<lparr>ss_blocked := Some i\<rparr>)"

text \<open>One turn of \<open>read\<close>.\<close>

definition stream_read ::
  "(string \<Rightarrow> json option) \<Rightarrow> rpc_limits \<Rightarrow> frame \<Rightarrow> stream_state \<Rightarrow> stream_state" where
  "stream_read parse limits frame s =
     (case ss_input s of
        None \<Rightarrow> stream_stop Close_PROTOCOL_ERROR ''Binary stream is server-to-client'' s
      | Some bi \<Rightarrow>
          if (case max_message_bytes limits of
                None \<Rightarrow> False | Some n \<Rightarrow> n < int (length (frame_bytes frame)))
          then stream_stop Close_MESSAGE_TOO_BIG [] s
          else
            (case frame of
               TextFrame t \<Rightarrow>
                 if ss_ended s \<or> \<not> is_input_end parse t
                 then stream_stop Close_PROTOCOL_ERROR ''Unexpected text frame on a binary stream'' s
                 else stream_offer InputEnd bi (s\<lparr>ss_ended := True\<rparr>)
             | BytesFrame d \<Rightarrow>
                 if ss_ended s then stream_stop Close_PROTOCOL_ERROR ''Binary input after end'' s
                 else stream_offer (InputFrame d) bi (s\<lparr>ss_read := ss_read s @ [d]\<rparr>)))"

definition stream_receive :: "stream_state \<Rightarrow> received \<times> stream_state" where
  "stream_receive s =
     (case ss_input s of
        None \<Rightarrow> (Waits, s)
      | Some bi \<Rightarrow>
          (case input_receive bi of
             (Received d, bi') \<Rightarrow>
               (Received d, s\<lparr>ss_input := Some bi', ss_received := ss_received s @ [d]\<rparr>)
           | (r, bi') \<Rightarrow> (r, s\<lparr>ss_input := Some bi'\<rparr>)))"

text \<open>
  Steps: the reader takes a frame, gets its item into the queue, or ends; the handler receives,
  sends or ends (a failure of the mapper ends it without a close); others close the connection; once
  it is closing the tasks are cancelled.
\<close>

inductive stream_step ::
  "(string \<Rightarrow> json option) \<Rightarrow> rpc_limits \<Rightarrow> rejections option \<Rightarrow> mapper \<Rightarrow> stream_state \<Rightarrow> stream_state \<Rightarrow> bool"
  for parse limits rejections mapper where
  Read: "\<lbrakk>ss_reading s; ss_blocked s = None\<rbrakk> \<Longrightarrow>
     stream_step parse limits rejections mapper s (stream_read parse limits frame s)"
| Unblock: "\<lbrakk>ss_reading s; ss_blocked s = Some i; ss_input s = Some bi; input_put i bi = Some bi'\<rbrakk> \<Longrightarrow>
     stream_step parse limits rejections mapper s (s\<lparr>ss_input := Some bi', ss_blocked := None\<rparr>)"
| ReadFails: "\<lbrakk>ss_reading s; stream_task_end rejections mapper (Some e) (ss_latch s) = r\<rbrakk> \<Longrightarrow>
     stream_step parse limits rejections mapper s
       (s\<lparr>ss_reading := False, ss_latch := (case r of Inl _ \<Rightarrow> ss_latch s | Inr l \<Rightarrow> l)\<rparr>)"
| Receive: "\<lbrakk>ss_running s; stream_receive s = (r, s')\<rbrakk> \<Longrightarrow>
     stream_step parse limits rejections mapper s s'"
| Send: "\<lbrakk>ss_running s; output_send frame (Inr ()) (lt_con (ss_latch s)) = Inr d\<rbrakk> \<Longrightarrow>
     stream_step parse limits rejections mapper s (s\<lparr>ss_sent := ss_sent s @ [d]\<rparr>)"
| Yield: "\<lbrakk>ss_running s; stream_write rejections mapper (Some d) (Inr ()) (ss_latch s) = (True, Inr l)\<rbrakk> \<Longrightarrow>
     stream_step parse limits rejections mapper s (s\<lparr>ss_sent := ss_sent s @ [d], ss_latch := l\<rparr>)"
| YieldFails: "\<lbrakk>ss_running s; stream_write rejections mapper frame sent (ss_latch s) = (False, r)\<rbrakk> \<Longrightarrow>
     stream_step parse limits rejections mapper s
       (s\<lparr>ss_running := False, ss_latch := (case r of Inl _ \<Rightarrow> ss_latch s | Inr l \<Rightarrow> l)\<rparr>)"
| HandlerEnds: "\<lbrakk>ss_running s; stream_task_end rejections mapper outcome (ss_latch s) = r\<rbrakk> \<Longrightarrow>
     stream_step parse limits rejections mapper s
       (s\<lparr>ss_running := False, ss_latch := (case r of Inl _ \<Rightarrow> ss_latch s | Inr l \<Rightarrow> l)\<rparr>)"
| CloseRequest: "stream_step parse limits rejections mapper s (stream_close code reason s)"
| CancelTasks: "lt_closing (ss_latch s) \<Longrightarrow>
     stream_step parse limits rejections mapper s (s\<lparr>ss_reading := False, ss_running := False\<rparr>)"

definition demo_stream_connection :: connection where
  "demo_stream_connection =
     con_create [] \<lparr>hs_path = [], hs_headers = [], hs_query = [], hs_path_params = [],
       hs_subprotocols = [], hs_client = None\<rparr> None"

section \<open>What arrives is received in order\<close>

definition io_ok :: "bool \<Rightarrow> int \<Rightarrow> binary_input option \<Rightarrow> bool \<Rightarrow> input_item option \<Rightarrow> string list \<Rightarrow> string list \<Rightarrow> bool" where
  "io_ok input limit inp ended blocked reads received =
     (case inp of
        None \<Rightarrow> \<not> input \<and> reads = [] \<and> received = [] \<and> blocked = None
      | Some bi \<Rightarrow> input \<and> bi_limit bi = limit
          \<and> input_box.flows (map InputFrame received @ (if bi_ended bi then [InputEnd] else [])) bi
              blocked (map InputFrame reads @ (if ended then [InputEnd] else [])))"

lemma io_ok_simps:
  "io_ok input limit None ended blocked reads received \<longleftrightarrow> \<not> input \<and> reads = [] \<and> received = [] \<and> blocked = None"
  "io_ok input limit (Some bi) ended blocked reads received \<longleftrightarrow> input \<and> bi_limit bi = limit
     \<and> input_box.flows (map InputFrame received @ (if bi_ended bi then [InputEnd] else [])) bi
         blocked (map InputFrame reads @ (if ended then [InputEnd] else []))"
  by (simp_all add: io_ok_def)

definition stream_ok :: "bool \<Rightarrow> rpc_limits \<Rightarrow> stream_state \<Rightarrow> bool" where
  "stream_ok input limits s =
     io_ok input (max_queue_size limits) (ss_input s) (ss_ended s) (ss_blocked s) (ss_read s) (ss_received s)"

lemma stream_ok_latch [simp]:
  "stream_ok input limits (s\<lparr>ss_latch := l\<rparr>) = stream_ok input limits s"
  "stream_ok input limits (s\<lparr>ss_reading := b\<rparr>) = stream_ok input limits s"
  "stream_ok input limits (s\<lparr>ss_running := b\<rparr>) = stream_ok input limits s"
  "stream_ok input limits (s\<lparr>ss_sent := xs\<rparr>) = stream_ok input limits s"
  by (simp_all add: stream_ok_def)

lemma stream_ok_init: "stream_ok input limits (stream_init c limits input)"
  by (simp add: stream_ok_def io_ok_simps stream_init_def input_create_def input_box.flows_init)

lemma input_put_same: "input_put i bi = Some bi' \<Longrightarrow> bi_ended bi' = bi_ended bi \<and> bi_limit bi' = bi_limit bi"
  by (auto simp: input_put_def split: if_splits)

text \<open>The reader offers an item after what it read so far, with its record already updated.\<close>

lemma stream_ok_offer:
  assumes "ss_input s = Some bi" "ss_blocked s = None" "bi_limit bi = max_queue_size limits" "input"
    and "input_box.flows (map InputFrame (ss_received s) @ (if bi_ended bi then [InputEnd] else [])) bi None arrived"
    and "map InputFrame (ss_read s) @ (if ss_ended s then [InputEnd] else []) = arrived @ [i]"
  shows "stream_ok input limits (stream_offer i bi s)"
proof (cases "input_put i bi")
  case None
  then show ?thesis
    using assms input_box.flows_block [OF assms(5), of i] by (simp add: stream_offer_def stream_ok_def io_ok_simps)
next
  case (Some bi')
  then show ?thesis
    using assms input_box.flows_put [OF assms(5) Some] input_put_same [OF Some]
    by (simp add: stream_offer_def stream_ok_def io_ok_simps)
qed

lemma stream_ok_stop: "stream_ok input limits s \<Longrightarrow> stream_ok input limits (stream_stop code reason s)"
  by (simp add: stream_stop_def stream_close_def)

lemma stream_ok_read:
  assumes "stream_ok input limits s" "ss_blocked s = None"
  shows "stream_ok input limits (stream_read parse limits frame s)"
proof (cases "ss_input s")
  case None
  then show ?thesis using stream_ok_stop [OF assms(1)] by (simp add: stream_read_def)
next
  case (Some bi)
  with assms have b: "bi_limit bi = max_queue_size limits" "input"
    "input_box.flows (map InputFrame (ss_received s) @ (if bi_ended bi then [InputEnd] else [])) bi None
       (map InputFrame (ss_read s) @ (if ss_ended s then [InputEnd] else []))"
    by (simp_all add: stream_ok_def io_ok_simps)
  have ends: "stream_ok input limits (stream_offer InputEnd bi (s\<lparr>ss_ended := True\<rparr>))" if "\<not> ss_ended s"
    using b that Some assms(2) by (intro stream_ok_offer [where arrived = "map InputFrame (ss_read s)"]) simp_all
  have bytes: "stream_ok input limits (stream_offer (InputFrame d) bi (s\<lparr>ss_read := ss_read s @ [d]\<rparr>))"
    if "\<not> ss_ended s" for d
    using b that Some assms(2) by (intro stream_ok_offer [where arrived = "map InputFrame (ss_read s)"]) simp_all
  show ?thesis
    using ends bytes stream_ok_stop [OF assms(1)] by (simp add: stream_read_def Some split: frame.split)
qed

lemma stream_ok_receive:
  assumes "stream_ok input limits s" "stream_receive s = (r, s')"
  shows "stream_ok input limits s'"
proof (cases "ss_input s")
  case None
  then have "s' = s" using assms(2) by (simp add: stream_receive_def)
  then show ?thesis using assms(1) by simp
next
  case (Some bi)
  with assms have f: "input_box.flows (map InputFrame (ss_received s) @ (if bi_ended bi then [InputEnd] else [])) bi
       (ss_blocked s) (map InputFrame (ss_read s) @ (if ss_ended s then [InputEnd] else []))"
    by (simp add: stream_ok_def io_ok_simps)
  obtain x bi' where x: "input_receive bi = (x, bi')" by fastforce
  have same: "bi_limit bi' = bi_limit bi" "x = Waits \<Longrightarrow> bi' = bi" "bi_ended bi \<Longrightarrow> bi' = bi \<and> x = InputEnded"
    "x = InputEnded \<Longrightarrow> bi_ended bi'" "x = Received d \<Longrightarrow> \<not> bi_ended bi' \<and> \<not> bi_ended bi" for d
    using x by (auto simp: input_receive_def split: if_splits list.splits input_item.splits)
  show ?thesis
  proof (cases "bi_ended bi")
    case True
    then show ?thesis using assms Some x same(3) by (auto simp: stream_receive_def stream_ok_def io_ok_simps)
  next
    case False
    note t = input_box.flows_take [OF f]
    show ?thesis
    proof (cases x)
      case Waits
      then show ?thesis using assms Some x same(2) by (auto simp: stream_receive_def stream_ok_def io_ok_simps)
    next
      case (Received d)
      then have "input_take bi = Some (InputFrame d, bi')" using False x by (simp add: input_take_def)
      from t [OF this] show ?thesis
        using assms Some x Received False same by (auto simp: stream_receive_def stream_ok_def io_ok_simps)
    next
      case InputEnded
      then have "input_take bi = Some (InputEnd, bi')" using False x by (simp add: input_take_def)
      from t [OF this] show ?thesis
        using assms Some x InputEnded False same by (auto simp: stream_receive_def stream_ok_def io_ok_simps)
    qed
  qed
qed

lemma stream_step_ok:
  "stream_step parse limits rejections mapper s s' \<Longrightarrow> stream_ok input limits s \<Longrightarrow> stream_ok input limits s'"
proof (induction rule: stream_step.induct)
  case (Read s frame)
  then show ?case by (intro stream_ok_read)
next
  case (Unblock s i bi bi')
  then show ?case
    using input_box.flows_unblock [of _ bi i _ bi'] input_put_same [of i bi bi'] by (simp add: stream_ok_def io_ok_simps)
next
  case (Receive s r s')
  then show ?case by (intro stream_ok_receive [of input limits s r s'])
qed (simp_all add: stream_close_def)

lemma stream_run_ok:
  "(stream_step parse limits rejections mapper)\<^sup>*\<^sup>* s s' \<Longrightarrow> stream_ok input limits s \<Longrightarrow> stream_ok input limits s'"
  by (induction rule: rtranclp_induct) (auto dest: stream_step_ok)

lemma frames_prefix:
  assumes "map InputFrame xs @ (if e then [InputEnd] else []) = map InputFrame ys @ (if g then [InputEnd] else []) @ zs"
  shows "\<exists>ws. xs = ys @ ws \<and> (g \<longrightarrow> e \<and> ws = [])"
  using assms
proof (induction ys arbitrary: xs)
  case Nil
  show ?case
  proof (cases g)
    case True
    then show ?thesis using Nil by (cases xs) (auto split: if_splits)
  qed simp
next
  case (Cons y ys)
  then obtain xs' where "xs = y # xs'" by (cases xs) (auto split: if_splits)
  with Cons show ?case by auto
qed

text \<open>C12. On every run of a stream with input, the handler receives the frames the reader took, in order
  and without loss; at most \<open>max_queue_size\<close> items wait; and once the handler sees the end of the
  input it has received every frame. A stream without input takes no frame at all.\<close>

theorem stream_input_in_order:
  assumes "(stream_step parse limits rejections mapper)\<^sup>*\<^sup>* (stream_init c limits input) s"
  shows "(\<exists>waiting. ss_read s = ss_received s @ waiting)
    \<and> (case ss_input s of
         None \<Rightarrow> \<not> input \<and> ss_read s = []
       | Some bi \<Rightarrow> input \<and> int (length (bi_queue bi)) \<le> max 0 (max_queue_size limits)
           \<and> (bi_ended bi \<longrightarrow> ss_ended s \<and> ss_received s = ss_read s))"
proof -
  from stream_run_ok [OF assms stream_ok_init] have ok: "stream_ok input limits s" .
  show ?thesis
  proof (cases "ss_input s")
    case None
    then show ?thesis using ok by (simp add: stream_ok_def io_ok_simps)
  next
    case (Some bi)
    let ?rest = "bi_queue bi @ (case ss_blocked s of None \<Rightarrow> [] | Some i \<Rightarrow> [i])"
    from ok Some have f: "map InputFrame (ss_read s) @ (if ss_ended s then [InputEnd] else []) =
        map InputFrame (ss_received s) @ (if bi_ended bi then [InputEnd] else []) @ ?rest"
      and b: "input" "int (length (bi_queue bi)) \<le> max 0 (max_queue_size limits)"
      by (auto simp: stream_ok_def io_ok_simps input_box.flows_def)
    from frames_prefix [OF f] obtain waiting where
      w: "ss_read s = ss_received s @ waiting" "bi_ended bi \<longrightarrow> ss_ended s \<and> waiting = []" by blast
    then show ?thesis using b Some by auto
  qed
qed

lemma stream_input_in_order_witness:
  "\<exists>s. (stream_step (\<lambda>_. None) default_limits None None)\<^sup>*\<^sup>*
        (stream_init demo_stream_connection default_limits True) s
     \<and> ss_read s = [''abc''] \<and> (\<exists>waiting. ss_read s = ss_received s @ waiting)"
proof -
  let ?s0 = "stream_init demo_stream_connection default_limits True"
  let ?s1 = "stream_read (\<lambda>_. None) default_limits (BytesFrame ''abc'') ?s0"
  have "ss_reading ?s0" "ss_blocked ?s0 = None" by (simp_all add: stream_init_def)
  then have "stream_step (\<lambda>_. None) default_limits None None ?s0 ?s1" by (rule stream_step.Read)
  then have run: "(stream_step (\<lambda>_. None) default_limits None None)\<^sup>*\<^sup>* ?s0 ?s1" by (rule r_into_rtranclp)
  have "ss_read ?s1 = [''abc'']"
    by (simp add: stream_init_def stream_read_def default_limits_def input_create_def stream_offer_def input_put_def)
  with run stream_input_in_order [OF run] show ?thesis by blast
qed

section \<open>How a stream ends\<close>

definition mapper_sane :: "mapper \<Rightarrow> bool" where
  "mapper_sane mapper = (\<forall>f. mapper = Some f \<longrightarrow> (\<forall>e. f e \<noteq> Inr MapOther))"

lemma stream_request_decides:
  "code \<noteq> Close_NORMAL \<Longrightarrow> \<not> lt_client_closed l \<Longrightarrow>
   \<exists>k. latch_decided (stream_request_close code reason raw l) = Some k \<and> k \<noteq> Close_NORMAL"
  by (auto simp: stream_request_close_def latch_close_def latch_decided_def)

lemma stream_task_raised:
  "\<forall>c d. e \<noteq> DisconnectExc c d \<Longrightarrow>
   stream_task_end rejections mapper (Some e) l = close_stream_error rejections mapper e l"
  by (cases e) (auto simp: stream_task_end_def)

lemma close_stream_error_other:
  "\<forall>c k t. e \<noteq> StreamCloseExc c k t \<Longrightarrow>
   close_stream_error rejections mapper e l = (case safe_rejection e rejections of
        Some r \<Rightarrow> Inr (stream_request_close (rejection_close (rej_rejection r)) (rej_reason r) None l)
      | None \<Rightarrow> rbind (stream_mapped mapper e) (\<lambda>mapped.
         Inr (case mapped of
            Some x \<Rightarrow> stream_request_close Close_POLICY_VIOLATION (ec_code (err_class x) @ '': '' @ err_message x) None l
          | None \<Rightarrow> stream_request_close Close_INTERNAL_ERROR ''Internal error'' None l)))"
  by (cases e) (auto simp: close_stream_error_def)

lemma stream_request_closing: "lt_closing (stream_request_close code reason raw l)"
  by (simp add: stream_request_close_def latch_close_def)

text \<open>C13. A failure of a stream is never taken for its normal end: whatever was decided before, an
  exception other than a disconnect or an explicit normal close leaves the stream closing with an
  abnormal code while the client is there. The error mapper has to return an error or nothing; with
  any other value the failure escapes and closes nothing.\<close>

theorem failed_stream_not_normal:
  assumes "\<not> lt_client_closed l" "\<forall>c d. e \<noteq> DisconnectExc c d" "\<forall>c t. e \<noteq> StreamCloseExc c Close_NORMAL t"
  shows "(mapper_sane mapper \<longrightarrow>
      (\<exists>l' k. stream_task_end rejections mapper (Some e) l = Inr l' \<and> latch_decided l' = Some k \<and> k \<noteq> Close_NORMAL))
    \<and> (\<forall>f c t. mapper = Some f \<longrightarrow> f (PlainExc c t) = Inr MapOther \<longrightarrow> e = PlainExc c t \<longrightarrow>
         rejections = None \<longrightarrow> (\<exists>x. stream_task_end rejections mapper (Some e) l = Inl x))"
proof (intro conjI impI allI)
  assume sane: "mapper_sane mapper"
  have d: "\<exists>l' k. Inr (stream_request_close code reason None l) = (Inr l' :: exc + latch) \<and> latch_decided l' = Some k
      \<and> k \<noteq> Close_NORMAL" if "code \<noteq> Close_NORMAL" for code reason
    using stream_request_decides [OF that assms(1)] by blast
  have m: "\<exists>x. stream_mapped mapper e = Inr x"
    using sane by (auto simp: stream_mapped_def mapper_sane_def split: exc.split option.split sum.split mapper_result.split)
  show "\<exists>l' k. stream_task_end rejections mapper (Some e) l = Inr l' \<and> latch_decided l' = Some k \<and> k \<noteq> Close_NORMAL"
  proof (cases "\<exists>c k t. e = StreamCloseExc c k t")
    case True
    then show ?thesis using assms(3) d by (auto simp: stream_task_end_def close_stream_error_def)
  next
    case False
    have e: "stream_task_end rejections mapper (Some e) l = close_stream_error rejections mapper e l"
      using assms(2) by (rule stream_task_raised)
    have c: "close_stream_error rejections mapper e l = (case safe_rejection e rejections of
        Some r \<Rightarrow> Inr (stream_request_close (rejection_close (rej_rejection r)) (rej_reason r) None l)
      | None \<Rightarrow> rbind (stream_mapped mapper e) (\<lambda>mapped.
         Inr (case mapped of
            Some x \<Rightarrow> stream_request_close Close_POLICY_VIOLATION (ec_code (err_class x) @ '': '' @ err_message x) None l
          | None \<Rightarrow> stream_request_close Close_INTERNAL_ERROR ''Internal error'' None l)))"
      using False by (intro close_stream_error_other) blast
    from m obtain x where "stream_mapped mapper e = Inr x" by blast
    with d show ?thesis unfolding e c
      by (cases "safe_rejection e rejections"; cases x) simp_all
  qed
next
  fix f c t
  assume "mapper = Some f" "f (PlainExc c t) = Inr MapOther" "e = PlainExc c t" "rejections = None"
  then show "\<exists>x. stream_task_end rejections mapper (Some e) l = Inl x"
    by (simp add: stream_task_end_def close_stream_error_def safe_rejection_def stream_mapped_def)
qed

lemma failed_stream_not_normal_witness:
  "\<exists>l' k. stream_task_end None None (Some (PlainExc cls_ValueError ''no'')) (latch_init demo_stream_connection) = Inr l'
     \<and> latch_decided l' = Some k \<and> k \<noteq> Close_NORMAL"
proof -
  have "\<not> lt_client_closed (latch_init demo_stream_connection)" "mapper_sane None"
    by (simp_all add: latch_init_def mapper_sane_def)
  with failed_stream_not_normal [of "latch_init demo_stream_connection" "PlainExc cls_ValueError ''no''" None None]
  show ?thesis by simp
qed

end
