(* ===== verification/RawSockets.thy ===== *)
theory RawSockets
  imports Streams
begin

text \<open>
  Raw sockets: \<open>raw_sockets.py\<close> (\<open>RpcRawSocket\<close>) and \<open>_run_raw_socket\<close> of \<open>runtime.py\<close>.
\<close>

section \<open>The socket a handler sees\<close>

text \<open>
  \<open>rw_read\<close>, \<open>rw_received\<close> and \<open>rw_sent\<close> record what the reader took from the socket, the handler from
  its queue, and the socket from the handler.
\<close>

record raw_state =
  rw_latch :: latch
  rw_messages :: "message_type list"
  rw_limits :: rpc_limits
  rw_queue :: "frame list"
  rw_blocked :: "frame option"
  rw_reading :: bool
  rw_running :: bool
  rw_read :: "frame list"
  rw_received :: "frame list"
  rw_sent :: "frame list"

definition raw_init :: "connection \<Rightarrow> message_type list \<Rightarrow> rpc_limits \<Rightarrow> raw_state" where
  "raw_init c messages limits =
     \<lparr>rw_latch = latch_init c, rw_messages = messages, rw_limits = limits, rw_queue = [],
      rw_blocked = None, rw_reading = True, rw_running = True, rw_read = [], rw_received = [],
      rw_sent = []\<rparr>"

definition raw_closed :: "connection \<Rightarrow> bool" where
  "raw_closed c = (con_closed c \<or> con_close_code c \<noteq> None)"

fun message_type_of :: "frame \<Rightarrow> message_type" where
  "message_type_of (TextFrame s) = TextMessage"
| "message_type_of (BytesFrame s) = BinaryMessage"

definition raw_put :: "frame \<Rightarrow> raw_state \<Rightarrow> raw_state option" where
  "raw_put m s =
     (if int (length (rw_queue s)) < max_queue_size (rw_limits s)
      then Some (s\<lparr>rw_queue := rw_queue s @ [m]\<rparr>) else None)"

datatype raw_received = RawWaits | RawGot frame | RawRaises exc

definition raw_receive :: "raw_state \<Rightarrow> raw_received \<times> raw_state" where
  "raw_receive s =
     (let c = lt_con (rw_latch s) in
      if raw_closed c \<and> rw_queue s = []
      then (RawRaises (DisconnectExc cls_RpcDisconnect
              (rpc_disconnect_init
                (Inl (case con_close_code c of None \<Rightarrow> Close_NORMAL | Some k \<Rightarrow> k)) (con_close_reason c))), s)
      else
        (case rw_queue s of
           [] \<Rightarrow> (RawWaits, s)
         | m # q \<Rightarrow> (RawGot m, s\<lparr>rw_queue := q\<rparr>)))"

definition raw_take :: "raw_state \<Rightarrow> (frame \<times> raw_state) option" where
  "raw_take s = (case raw_receive s of (RawGot m, s') \<Rightarrow> Some (m, s') | _ \<Rightarrow> None)"

interpretation raw_box: inbox raw_put raw_take rw_queue "\<lambda>s. max_queue_size (rw_limits s)"
  by unfold_locales
    (auto simp: raw_put_def raw_take_def raw_receive_def Let_def split: if_splits list.splits)

text \<open>What the socket does with a message: \<open>None\<close> for a value that is neither text nor bytes.\<close>

datatype socket_answer = SocketSent | SocketGone rpc_disconnect | SocketTimedOut | SocketRaises exc

definition raw_closing_request :: "conn_close \<Rightarrow> string \<Rightarrow> raw_state \<Rightarrow> raw_state" where
  "raw_closing_request code reason s = s\<lparr>rw_latch := stream_request_close code reason None (rw_latch s)\<rparr>"

definition raw_send :: "frame option \<Rightarrow> socket_answer \<Rightarrow> raw_state \<Rightarrow> exc option \<times> raw_state" where
  "raw_send message answer s =
     (case message of
        None \<Rightarrow> (Some (type_error ''RpcRawSocket.send() expects str or bytes''), s)
      | Some m \<Rightarrow>
          if message_type_of m \<notin> set (rw_messages s)
          then (Some (type_error ''This raw socket does not send such messages''), s)
          else if raw_closed (lt_con (rw_latch s))
          then (Some (DisconnectExc cls_RpcDisconnect
                  (rpc_disconnect_init (Inl Close_NORMAL) ''The raw socket is closed'')), s)
          else
            (case answer of
               SocketSent \<Rightarrow> (None, s\<lparr>rw_sent := rw_sent s @ [m]\<rparr>)
             | SocketGone d \<Rightarrow>
                 (Some (DisconnectExc cls_RpcDisconnect d),
                  s\<lparr>rw_latch := raw_client_disconnected d (rw_latch s)\<rparr>)
             | SocketTimedOut \<Rightarrow>
                 (Some (DisconnectExc cls_RpcDisconnect
                    (rpc_disconnect_init (Inl Close_POLICY_VIOLATION) ''Client too slow'')),
                  raw_closing_request Close_POLICY_VIOLATION ''Client too slow'' s)
             | SocketRaises e \<Rightarrow> (Some e, s)))"

section \<open>How a handler fails\<close>

fun leaf_exceptions :: "exc \<Rightarrow> exc list" where
  "leaf_exceptions (GroupExc c t es) = concat (map leaf_exceptions es)"
| "leaf_exceptions (PlainExc c t) = [PlainExc c t]"
| "leaf_exceptions (RejectExc c r) = [RejectExc c r]"
| "leaf_exceptions (DisconnectExc c d) = [DisconnectExc c d]"
| "leaf_exceptions (RpcErrorExc e) = [RpcErrorExc e]"
| "leaf_exceptions (StreamCloseExc c k t) = [StreamCloseExc c k t]"

fun is_disconnect :: "exc \<Rightarrow> bool" where
  "is_disconnect (DisconnectExc c d) = True"
| "is_disconnect e = False"

definition failure_rejection :: "bound \<Rightarrow> rejections option \<Rightarrow> exc \<Rightarrow> rpc_reject option" where
  "failure_rejection closes rejections failure =
     (case (case contract_for failure closes of
              None \<Rightarrow> None
            | Some c \<Rightarrow> (case binding_reject c failure of Inl _ \<Rightarrow> None | Inr r \<Rightarrow> r)) of
        Some r \<Rightarrow> Some r
      | None \<Rightarrow> safe_rejection failure rejections)"

definition close_failure :: "bound \<Rightarrow> rejections option \<Rightarrow> exc \<Rightarrow> latch \<Rightarrow> latch" where
  "close_failure closes rejections e l =
     (case find (\<lambda>x. \<not> is_disconnect x) (leaf_exceptions e) of
        None \<Rightarrow> stream_request_close Close_NORMAL [] None l
      | Some failure \<Rightarrow>
          (case failure_rejection closes rejections failure of
             Some r \<Rightarrow> stream_request_close (rejection_close (rej_rejection r)) (rej_reason r) None l
           | None \<Rightarrow> stream_request_close Close_INTERNAL_ERROR ''Internal error'' None l))"

text \<open>How the task of the handler ends: \<open>None\<close> is a return.\<close>

definition raw_handler_end :: "bound \<Rightarrow> rejections option \<Rightarrow> exc option \<Rightarrow> latch \<Rightarrow> latch" where
  "raw_handler_end closes rejections outcome l =
     (case outcome of
        None \<Rightarrow> stream_request_close Close_NORMAL [] None l
      | Some e \<Rightarrow> close_failure closes rejections e l)"

section \<open>The reader\<close>

definition raw_stop :: "conn_close \<Rightarrow> string \<Rightarrow> raw_state \<Rightarrow> raw_state" where
  "raw_stop code reason s = (raw_closing_request code reason s)\<lparr>rw_reading := False\<rparr>"

fun message_type_name :: "message_type \<Rightarrow> string" where
  "message_type_name TextMessage = ''text''"
| "message_type_name BinaryMessage = ''binary''"

definition raw_read :: "frame \<Rightarrow> raw_state \<Rightarrow> raw_state" where
  "raw_read m s =
     (if (case max_message_bytes (rw_limits s) of
            None \<Rightarrow> False | Some n \<Rightarrow> n < int (length (frame_bytes m)))
      then raw_stop Close_MESSAGE_TOO_BIG [] s
      else if message_type_of m \<notin> set (rw_messages s)
      then raw_stop Close_PROTOCOL_ERROR (''Unsupported '' @ message_type_name (message_type_of m) @ '' message'') s
      else
        (let s' = s\<lparr>rw_read := rw_read s @ [m]\<rparr> in
         case raw_put m s' of Some t \<Rightarrow> t | None \<Rightarrow> s'\<lparr>rw_blocked := Some m\<rparr>))"

definition raw_reader_raises :: "exc \<Rightarrow> raw_state \<Rightarrow> raw_state" where
  "raw_reader_raises e s =
     (case e of
        DisconnectExc c d \<Rightarrow> s\<lparr>rw_latch := raw_client_disconnected d (rw_latch s), rw_reading := False\<rparr>
      | _ \<Rightarrow> raw_stop Close_INTERNAL_ERROR ''Internal error'' s)"

inductive raw_step :: "bound \<Rightarrow> rejections option \<Rightarrow> raw_state \<Rightarrow> raw_state \<Rightarrow> bool"
  for closes rejections where
  Read: "\<lbrakk>rw_reading s; rw_blocked s = None\<rbrakk> \<Longrightarrow> raw_step closes rejections s (raw_read m s)"
| Unblock: "\<lbrakk>rw_reading s; rw_blocked s = Some m; raw_put m s = Some s'\<rbrakk> \<Longrightarrow>
     raw_step closes rejections s (s'\<lparr>rw_blocked := None\<rparr>)"
| ReaderRaises: "rw_reading s \<Longrightarrow> raw_step closes rejections s (raw_reader_raises e s)"
| Receive: "\<lbrakk>rw_running s; raw_receive s = (RawGot m, s')\<rbrakk> \<Longrightarrow>
     raw_step closes rejections s (s'\<lparr>rw_received := rw_received s @ [m]\<rparr>)"
| Send: "\<lbrakk>rw_running s; raw_send message answer s = (r, s')\<rbrakk> \<Longrightarrow> raw_step closes rejections s s'"
| HandlerEnds: "rw_running s \<Longrightarrow>
     raw_step closes rejections s
       (s\<lparr>rw_running := False, rw_latch := raw_handler_end closes rejections outcome (rw_latch s)\<rparr>)"
| CloseRequest: "raw_step closes rejections s (raw_closing_request code reason s)"
| CancelTasks: "lt_closing (rw_latch s) \<Longrightarrow>
     raw_step closes rejections s (s\<lparr>rw_reading := False, rw_running := False\<rparr>)"

section \<open>Messages pass in order\<close>

definition raw_ok :: "message_type list \<Rightarrow> rpc_limits \<Rightarrow> raw_state \<Rightarrow> bool" where
  "raw_ok messages limits s \<longleftrightarrow>
     rw_messages s = messages \<and> rw_limits s = limits
     \<and> raw_box.flows (rw_received s) s (rw_blocked s) (rw_read s)
     \<and> (\<forall>m\<in>set (rw_read s) \<union> set (rw_sent s). message_type_of m \<in> set messages)"

lemma raw_flows: "raw_box.flows taken s blocked arrived \<longleftrightarrow>
    arrived = taken @ rw_queue s @ (case blocked of None \<Rightarrow> [] | Some i \<Rightarrow> [i])
    \<and> int (length (rw_queue s)) \<le> max 0 (max_queue_size (rw_limits s))"
  by (simp add: raw_box.flows_def)

lemma raw_ok_latch [simp]:
  "raw_ok messages limits (s\<lparr>rw_latch := l\<rparr>) = raw_ok messages limits s"
  "raw_ok messages limits (s\<lparr>rw_reading := b\<rparr>) = raw_ok messages limits s"
  "raw_ok messages limits (s\<lparr>rw_running := b\<rparr>) = raw_ok messages limits s"
  by (auto simp: raw_ok_def raw_flows)

lemma raw_ok_request: "raw_ok messages limits s \<Longrightarrow> raw_ok messages limits (raw_closing_request code reason s)"
  "raw_ok messages limits s \<Longrightarrow> raw_ok messages limits (raw_stop code reason s)"
  by (simp_all add: raw_closing_request_def raw_stop_def)

lemma raw_ok_read:
  assumes "raw_ok messages limits s" "rw_blocked s = None"
  shows "raw_ok messages limits (raw_read m s)"
proof (cases "message_type_of m \<in> set (rw_messages s)")
  case False
  then show ?thesis using raw_ok_request(2) [OF assms(1)] by (simp add: raw_read_def)
next
  case True
  have "raw_ok messages limits (case raw_put m (s\<lparr>rw_read := rw_read s @ [m]\<rparr>) of
      Some t \<Rightarrow> t | None \<Rightarrow> s\<lparr>rw_read := rw_read s @ [m], rw_blocked := Some m\<rparr>)"
    using assms True by (auto simp: raw_ok_def raw_flows raw_put_def)
  then show ?thesis using True raw_ok_request(2) [OF assms(1)] by (simp add: raw_read_def Let_def)
qed

lemma raw_send_cases:
  "raw_send message answer s = (r, s') \<Longrightarrow>
   s' = s \<or> (\<exists>l. s' = s\<lparr>rw_latch := l\<rparr>)
   \<or> (\<exists>m. message_type_of m \<in> set (rw_messages s) \<and> s' = s\<lparr>rw_sent := rw_sent s @ [m]\<rparr>)"
  unfolding raw_send_def raw_closing_request_def
  by (cases message; cases answer; simp split: if_splits; blast)

lemma raw_step_ok: "raw_step closes rejections s s' \<Longrightarrow> raw_ok messages limits s \<Longrightarrow> raw_ok messages limits s'"
proof (induction rule: raw_step.induct)
  case (Read s m)
  then show ?case by (intro raw_ok_read)
next
  case (Unblock s m s')
  then show ?case by (auto simp: raw_ok_def raw_flows raw_put_def split: if_splits)
next
  case (ReaderRaises s e)
  then show ?case by (cases e) (simp_all add: raw_reader_raises_def raw_ok_request(2))
next
  case (Receive s m s')
  then show ?case
    by (auto simp: raw_ok_def raw_flows raw_receive_def Let_def split: if_splits list.splits)
next
  case (Send s message answer r s')
  from raw_send_cases [OF Send(2)] consider "s' = s" | l where "s' = s\<lparr>rw_latch := l\<rparr>"
    | m where "message_type_of m \<in> set (rw_messages s)" "s' = s\<lparr>rw_sent := rw_sent s @ [m]\<rparr>" by blast
  then show ?case
  proof cases
    case 3
    then show ?thesis using Send(3) unfolding raw_ok_def raw_flows by auto
  qed (use Send(3) in simp_all)
qed (simp_all add: raw_ok_request(1))

lemma raw_run_ok: "(raw_step closes rejections)\<^sup>*\<^sup>* s s' \<Longrightarrow> raw_ok messages limits s \<Longrightarrow> raw_ok messages limits s'"
  by (induction rule: rtranclp_induct) (auto dest: raw_step_ok)

text \<open>C14. On every run of a raw socket, only messages of the declared types pass, in either direction;
  the handler receives what the reader took, in order and without loss, and at most
  \<open>max_queue_size\<close> messages wait.\<close>

theorem raw_messages_in_order:
  assumes "(raw_step closes rejections)\<^sup>*\<^sup>* (raw_init c messages limits) s"
  shows "(\<exists>waiting. rw_read s = rw_received s @ rw_queue s @ waiting \<and> length waiting \<le> 1)
    \<and> int (length (rw_queue s)) \<le> max 0 (max_queue_size limits)
    \<and> (\<forall>m\<in>set (rw_read s) \<union> set (rw_sent s). message_type_of m \<in> set messages)"
proof -
  have "raw_ok messages limits (raw_init c messages limits)" by (simp add: raw_ok_def raw_flows raw_init_def)
  from raw_run_ok [OF assms this] have ok: "raw_ok messages limits s" .
  then have "rw_read s = rw_received s @ rw_queue s @ (case rw_blocked s of None \<Rightarrow> [] | Some i \<Rightarrow> [i])"
    by (simp add: raw_ok_def raw_flows)
  moreover have "length (case rw_blocked s of None \<Rightarrow> [] | Some i \<Rightarrow> [i]) \<le> 1" by (simp split: option.split)
  ultimately show ?thesis using ok by (auto simp: raw_ok_def raw_flows)
qed

lemma raw_messages_in_order_witness:
  "\<exists>s. (raw_step [] None)\<^sup>*\<^sup>* (raw_init demo_stream_connection [TextMessage] default_limits) s
     \<and> rw_read s = [TextFrame ''hi''] \<and> (\<forall>m\<in>set (rw_read s). message_type_of m = TextMessage)"
proof -
  let ?s0 = "raw_init demo_stream_connection [TextMessage] default_limits"
  have "raw_step [] None ?s0 (raw_read (TextFrame ''hi'') ?s0)" by (rule raw_step.Read) (simp_all add: raw_init_def)
  then have run: "(raw_step [] None)\<^sup>*\<^sup>* ?s0 (raw_read (TextFrame ''hi'') ?s0)" by (rule r_into_rtranclp)
  have "rw_read (raw_read (TextFrame ''hi'') ?s0) = [TextFrame ''hi'']"
    by (simp add: raw_init_def raw_read_def default_limits_def raw_put_def)
  with run raw_messages_in_order [OF run] show ?thesis by (intro exI [of _ "raw_read (TextFrame ''hi'') ?s0"]) simp
qed

section \<open>How a raw socket ends\<close>

lemma leaf_exceptions_flat: "x \<in> set (leaf_exceptions e) \<Longrightarrow> leaf_exceptions x = [x]"
  by (induction e rule: leaf_exceptions.induct) auto

text \<open>A failure of a raw socket's handler, however deep in exception groups, closes the socket with
  an abnormal code while the client is there; a failure that consists of disconnects only asks for a
  normal close and so never hides a close that was decided.\<close>

theorem raw_failure_closes:
  assumes "\<not> lt_client_closed l"
  shows "((\<exists>x\<in>set (leaf_exceptions e). \<not> is_disconnect x) \<longrightarrow>
       (\<exists>k. latch_decided (close_failure closes rejections e l) = Some k \<and> k \<noteq> Close_NORMAL))
    \<and> ((\<forall>x\<in>set (leaf_exceptions e). is_disconnect x) \<longrightarrow>
       close_failure closes rejections e l = stream_request_close Close_NORMAL [] None l
       \<and> (\<forall>k. latch_decided l = Some k \<longrightarrow> close_failure closes rejections e l = l))"
proof (intro conjI impI)
  assume "\<exists>x\<in>set (leaf_exceptions e). \<not> is_disconnect x"
  then obtain failure where f: "find (\<lambda>x. \<not> is_disconnect x) (leaf_exceptions e) = Some failure"
    by (cases "find (\<lambda>x. \<not> is_disconnect x) (leaf_exceptions e)") (auto simp: find_None_iff)
  show "\<exists>k. latch_decided (close_failure closes rejections e l) = Some k \<and> k \<noteq> Close_NORMAL"
    using stream_request_decides [OF rejection_close_abnormal assms]
      stream_request_decides [of Close_INTERNAL_ERROR l, OF _ assms]
    by (simp add: close_failure_def f split: option.split)
next
  assume "\<forall>x\<in>set (leaf_exceptions e). is_disconnect x"
  then have n: "find (\<lambda>x. \<not> is_disconnect x) (leaf_exceptions e) = None" by (simp add: find_None_iff)
  then show "close_failure closes rejections e l = stream_request_close Close_NORMAL [] None l"
    by (simp add: close_failure_def)
  then show "\<forall>k. latch_decided l = Some k \<longrightarrow> close_failure closes rejections e l = l"
    by (auto simp: stream_request_close_def latch_decided_def split: if_splits)
qed

lemma raw_failure_closes_witness:
  "\<exists>k. latch_decided (close_failure [] None (GroupExc cls_Exception ''group''
        [DisconnectExc cls_RpcDisconnect (rpc_disconnect_init (Inl Close_NORMAL) []),
         PlainExc cls_ValueError ''no'']) (latch_init demo_stream_connection)) = Some k \<and> k \<noteq> Close_NORMAL"
proof -
  have "\<not> lt_client_closed (latch_init demo_stream_connection)" by (simp add: latch_init_def)
  from raw_failure_closes [OF this, of "GroupExc cls_Exception ''group''
        [DisconnectExc cls_RpcDisconnect (rpc_disconnect_init (Inl Close_NORMAL) []),
         PlainExc cls_ValueError ''no'']" "[]" None]
  show ?thesis by simp
qed

section \<open>A close followed by a send\<close>

text \<open>When the handler of an open connection closes it with an abnormal code and then sends, the send
  raises a disconnect. A raw socket still sends the close frame it was asked for; a binary stream takes
  the disconnect for the client's and sends no close frame at all.\<close>

theorem close_then_send:
  assumes "con_accepted c" "con_on_close c" "\<not> con_closed c" "con_close_code c = None" "code \<noteq> Close_NORMAL"
    and "l = stream_request_close code reason None (latch_init c)"
  shows "con_close code reason c = Inr [CallClose code reason]
    \<and> (\<exists>e. output_send (Some d) (Inr ()) (lt_con l) = Inl e \<and> is_disconnect e
          \<and> (\<forall>rejections mapper. \<exists>l'. stream_task_end rejections mapper (Some e) l = Inr l'
               \<and> lt_closing l' \<and> snd (latch_finish l') = None))
    \<and> (\<exists>e. fst (raw_send (Some m) SocketSent ((raw_init c [message_type_of m] limits)\<lparr>rw_latch := l\<rparr>)) = Some e
          \<and> is_disconnect e
          \<and> (\<forall>closes rejections. snd (latch_finish (raw_handler_end closes rejections (Some e) l)) = Some (code, reason)))"
proof (intro conjI)
  have l: "lt_closing l" "lt_code l = code" "lt_reason l = reason" "\<not> lt_client_closed l"
    "con_close_code (lt_con l) = Some code"
    using assms(6) by (simp_all add: stream_request_close_def latch_close_def latch_init_def)
  show "con_close code reason c = Inr [CallClose code reason]" using assms by (simp add: con_close_def)
  show "\<exists>e. output_send (Some d) (Inr ()) (lt_con l) = Inl e \<and> is_disconnect e
      \<and> (\<forall>rejections mapper. \<exists>l'. stream_task_end rejections mapper (Some e) l = Inr l'
           \<and> lt_closing l' \<and> snd (latch_finish l') = None)"
    using l by (simp add: output_send_def stream_task_end_def stream_client_disconnected_def
        stream_request_close_def latch_finish_def)
  have "fst (raw_send (Some m) SocketSent ((raw_init c [message_type_of m] limits)\<lparr>rw_latch := l\<rparr>)) =
      Some (DisconnectExc cls_RpcDisconnect (rpc_disconnect_init (Inl Close_NORMAL) ''The raw socket is closed''))"
    using l by (simp add: raw_send_def raw_init_def raw_closed_def)
  moreover have "snd (latch_finish (raw_handler_end closes rejections
      (Some (DisconnectExc cls_RpcDisconnect d)) l)) = Some (code, reason)" for closes rejections d
    using l assms(5) by (simp add: raw_handler_end_def close_failure_def stream_request_close_def latch_finish_def)
  ultimately show "\<exists>e. fst (raw_send (Some m) SocketSent ((raw_init c [message_type_of m] limits)\<lparr>rw_latch := l\<rparr>)) = Some e
      \<and> is_disconnect e
      \<and> (\<forall>closes rejections. snd (latch_finish (raw_handler_end closes rejections (Some e) l)) = Some (code, reason))"
    by simp
qed

lemma close_then_send_witness:
  "let c = demo_stream_connection\<lparr>con_accepted := True, con_on_close := True\<rparr>;
       l = stream_request_close Close_POLICY_VIOLATION ''owner'' None (latch_init c)
   in \<exists>e. output_send (Some ''data'') (Inr ()) (lt_con l) = Inl e \<and> is_disconnect e
      \<and> (\<forall>rejections mapper. \<exists>l'. stream_task_end rejections mapper (Some e) l = Inr l'
           \<and> lt_closing l' \<and> snd (latch_finish l') = None)"
proof -
  let ?c = "demo_stream_connection\<lparr>con_accepted := True, con_on_close := True\<rparr>"
  have "con_accepted ?c" "con_on_close ?c" "\<not> con_closed ?c" "con_close_code ?c = None"
    "Close_POLICY_VIOLATION \<noteq> Close_NORMAL"
    by (simp_all add: demo_stream_connection_def con_create_def)
  from close_then_send [OF this refl, of "''owner''" "''data''" "TextFrame []" default_limits]
  show ?thesis by (simp add: Let_def)
qed

end
