(* ===== verification/Channel.thy ===== *)
theory Channel
  imports Protocol "HOL-Library.Multiset"
begin

text \<open>
  \<open>channel.py\<close>: a channel collects declarations under a namespace and is frozen into a protocol. A
  decorator factory and its application to a function are one operation here. A channel holds its
  children, so freezing it freezes them. Names are \<open>str\<close> in UTF-8, and the character classes are ASCII
  as in the regular expressions of the code.
\<close>

section \<open>Names\<close>

definition is_name_start :: "char \<Rightarrow> bool" where
  "is_name_start c = (is_upper c \<or> is_lower c \<or> c = CHR ''_'')"

definition is_name_char :: "char \<Rightarrow> bool" where
  "is_name_char c = (is_name_start c \<or> is_digit c \<or> c = CHR ''-'')"

definition valid_segment :: "string \<Rightarrow> bool" where
  "valid_segment s = (case s of [] \<Rightarrow> False | c # cs \<Rightarrow> is_name_start c \<and> list_all is_name_char cs)"

definition valid_name :: "string \<Rightarrow> bool" where
  "valid_name s = list_all valid_segment (split_on (CHR ''.'') s)"

definition check_name :: "string \<Rightarrow> string \<Rightarrow> def_error + string" where
  "check_name s kind = (if valid_name s then Inr s else Inl (NameInvalid kind s))"

definition join_rpc_name :: "string list \<Rightarrow> string" where
  "join_rpc_name parts = join ''.'' (filter (\<lambda>p. p \<noteq> []) parts)"

definition normalize_namespace :: "string \<Rightarrow> def_error + string" where
  "normalize_namespace s = (if s = [] then Inr s else check_name s ''namespace'')"

definition request_name :: "string \<Rightarrow> string" where
  "request_name wire_name = concat (map capitalize (split_on (CHR ''.'') wire_name)) @ ''Request''"

text \<open>\<open>s.rsplit(sep, 1)[-1]\<close>.\<close>

definition after_last :: "string \<Rightarrow> string \<Rightarrow> string" where
  "after_last sep s =
     (case filter (\<lambda>i. starts_with sep (drop i s)) (rev [0..<length s]) of
        [] \<Rightarrow> s
      | i # _ \<Rightarrow> drop (i + length sep) s)"

definition is_free_function :: "pyfun \<Rightarrow> bool" where
  "is_free_function f = (CHR ''.'' \<notin> set (after_last ''<locals>.'' (fn_qualname f)))"

text \<open>The documentation of a function is what \<open>inspect.getdoc\<close> gives, in ASCII.\<close>

definition is_line_break :: "char \<Rightarrow> bool" where
  "is_line_break c = (of_char c \<in> ({10, 11, 12, 13, 28, 29, 30} :: nat set))"

definition is_space :: "char \<Rightarrow> bool" where
  "is_space c = (is_line_break c \<or> of_char c \<in> ({9, 31, 32} :: nat set))"

definition strip :: "string \<Rightarrow> string" where
  "strip s = rev (dropWhile is_space (rev (dropWhile is_space s)))"

definition docstring_summary :: "pyfun \<Rightarrow> string option" where
  "docstring_summary f =
     (case fn_doc f of
        None \<Rightarrow> None
      | Some [] \<Rightarrow> None
      | Some doc \<Rightarrow>
          (case strip (takeWhile (\<lambda>c. \<not> is_line_break c) doc) of [] \<Rightarrow> None | s \<Rightarrow> Some s))"

definition summary_of :: "string option \<Rightarrow> pyfun \<Rightarrow> string option" where
  "summary_of summary f = (case summary of Some (c # cs) \<Rightarrow> Some (c # cs) | _ \<Rightarrow> docstring_summary f)"

section \<open>Channels\<close>

record route =
  ro_name :: string
  ro_function :: pyfun
  ro_summary :: "string option"
  ro_raises :: "error_type list"
  ro_scope :: nat
  ro_timeout :: "rat option"
  ro_has_timeout :: bool
  ro_idempotent :: bool

record channel_data =
  cd_name :: string
  cd_namespace :: string
  cd_raises :: "error_type list"
  cd_scope :: nat
  cd_routes :: "route list"
  cd_events :: "notification_def list"
  cd_subscriptions :: "subscription_def list"
  cd_streams :: "stream_def list"
  cd_raw_sockets :: "raw_socket_def list"
  cd_client_methods :: "client_method_def list"
  cd_names :: "string list"
  cd_protocol :: "protocol option"

datatype channel = Channel (chan_data: channel_data) (chan_children: "channel list")

definition channel_create ::
  "string option \<Rightarrow> string option \<Rightarrow> error_decl list \<Rightarrow> nat \<Rightarrow> def_error + channel" where
  "channel_create name namespace raises scope =
     (case (name, namespace) of
        (None, None) \<Rightarrow> Inl NoNameOrNamespace
      | _ \<Rightarrow>
          rbind (normalize_namespace (case namespace of None \<Rightarrow> the name | Some ns \<Rightarrow> ns)) (\<lambda>ns.
          rbind (case name of None \<Rightarrow> Inr ns | Some n \<Rightarrow> normalize_namespace n) (\<lambda>n.
          rbind (raise_if (n = []) EmptyName) (\<lambda>_.
          rbind (map_error Declares (error_declarations raises (''RPC channel '' @ n))) (\<lambda>rs.
          Inr (Channel
            \<lparr>cd_name = n, cd_namespace = ns, cd_raises = rs, cd_scope = scope, cd_routes = [],
             cd_events = [], cd_subscriptions = [], cd_streams = [], cd_raw_sockets = [],
             cd_client_methods = [], cd_names = [], cd_protocol = None\<rparr> []))))))"

definition ensure_mutable :: "channel_data \<Rightarrow> def_error + unit" where
  "ensure_mutable d = raise_if (cd_protocol d \<noteq> None) (AlreadyFrozen (cd_name d))"

definition validate_function :: "pyfun \<Rightarrow> bool \<Rightarrow> def_error + unit" where
  "validate_function f coroutine =
     (if \<not> fn_is_function f \<or> \<not> is_free_function f then Inl NotFreeFunction
      else raise_if (coroutine \<and> fn_kind f \<noteq> CoroutineFunction) (NotAsync (fn_qualname f)))"

definition reserve_name :: "string \<Rightarrow> channel_data \<Rightarrow> def_error + channel_data" where
  "reserve_name n d =
     (if n \<in> set (cd_names d) then Inl (DuplicateRoute n)
      else Inr (d\<lparr>cd_names := cd_names d @ [n]\<rparr>))"

interpretation channel_names: registry "\<lambda>n (u :: unit). reserve_name n" cd_names
  by unfold_locales (auto simp: reserve_name_def)

section \<open>Declarations\<close>

datatype name_arg = NoName | NameStr string | NameOther

datatype timeout_arg = InheritTimeout | NoTimeout | TimeoutAfter pynum

definition bad_timeout :: "timeout_arg \<Rightarrow> bool" where
  "bad_timeout t =
     (case t of
        TimeoutAfter n \<Rightarrow>
          \<not> num_is_int_or_float n \<or> num_is_bool n \<or> \<not> num_finite n \<or> num_le_zero n
      | _ \<Rightarrow> False)"

definition timeout_value :: "timeout_arg \<Rightarrow> rat option" where
  "timeout_value t = (case t of TimeoutAfter n \<Rightarrow> Some (num_rat n) | _ \<Rightarrow> None)"

definition merged_raises :: "channel_data \<Rightarrow> error_decl list \<Rightarrow> string \<Rightarrow> def_error + error_type list" where
  "merged_raises d raises owner =
     map_error Declares (merge_error_declarations (cd_raises d) raises owner)"

text \<open>\<open>method\<close> checks a name it is given, and takes the name of the function as it is.\<close>

definition decl_method ::
  "name_arg \<Rightarrow> string option \<Rightarrow> error_decl list \<Rightarrow> timeout_arg \<Rightarrow> bool \<Rightarrow> pyfun \<Rightarrow> channel_data \<Rightarrow>
   def_error + channel_data" where
  "decl_method name summary raises t idempotent f d =
     rbind (ensure_mutable d) (\<lambda>_.
     rbind (raise_if (bad_timeout t) BadTimeout) (\<lambda>_.
     rbind (case name of
              NoName \<Rightarrow> Inr (fn_name f)
            | NameStr n \<Rightarrow> check_name n ''method name''
            | NameOther \<Rightarrow> Inl BadDecoratorArg) (\<lambda>local.
     rbind (validate_function f True) (\<lambda>_.
     let wire = join_rpc_name [cd_namespace d, local] in
     rbind (merged_raises d raises (''RPC method '' @ wire)) (\<lambda>rs.
     rbind (reserve_name wire d) (\<lambda>d'.
     Inr (d'\<lparr>cd_routes := cd_routes d' @
            [\<lparr>ro_name = wire, ro_function = f, ro_summary = summary_of summary f, ro_raises = rs,
              ro_scope = cd_scope d, ro_timeout = timeout_value t,
              ro_has_timeout = (t \<noteq> InheritTimeout), ro_idempotent = idempotent\<rparr>]\<rparr>)))))))"

text \<open>The name of any other declaration: \<open>name or function.__name__\<close>, checked.\<close>

definition local_name :: "name_arg \<Rightarrow> pyfun \<Rightarrow> string \<Rightarrow> def_error + string" where
  "local_name name f kind =
     (case name of
        NameOther \<Rightarrow> Inl BadDecoratorArg
      | NameStr (c # cs) \<Rightarrow> check_name (c # cs) kind
      | _ \<Rightarrow> check_name (fn_name f) kind)"

definition decl_event ::
  "pydantic \<Rightarrow> name_arg \<Rightarrow> ann option \<Rightarrow> string option \<Rightarrow> string \<Rightarrow> error_decl list \<Rightarrow> pyfun \<Rightarrow> channel_data \<Rightarrow>
   def_error + channel_data" where
  "decl_event py name payload summary on_error raises f d =
     rbind (ensure_mutable d) (\<lambda>_.
     rbind (raise_if (on_error \<notin> {''continue'', ''close''}) BadOnError) (\<lambda>_.
     rbind (raise_if (name = NameOther) BadDecoratorArg) (\<lambda>_.
     rbind (validate_function f False) (\<lambda>_.
     rbind (local_name name f ''event name'') (\<lambda>local.
     let wire = join_rpc_name [cd_namespace d, local] in
     rbind (merged_raises d raises (''RPC event '' @ wire)) (\<lambda>rs.
     rbind (notification_definition py wire payload f (summary_of summary f) None on_error rs) (\<lambda>n.
     rbind (reserve_name wire d) (\<lambda>d'.
     Inr (d'\<lparr>cd_events := cd_events d' @ [n]\<rparr>)))))))))"

definition decl_subscription ::
  "pydantic \<Rightarrow> name_arg \<Rightarrow> string option \<Rightarrow> error_decl list \<Rightarrow> pyfun \<Rightarrow> channel_data \<Rightarrow>
   def_error + channel_data" where
  "decl_subscription py name summary raises f d =
     rbind (ensure_mutable d) (\<lambda>_.
     rbind (raise_if (name = NameOther) BadDecoratorArg) (\<lambda>_.
     rbind (validate_function f False) (\<lambda>_.
     rbind (local_name name f ''subscription name'') (\<lambda>local.
     let wire = join_rpc_name [cd_namespace d, local] in
     rbind (merged_raises d raises (''RPC subscription '' @ wire)) (\<lambda>rs.
     rbind (subscription_definition py wire f (summary_of summary f) (cd_scope d) rs) (\<lambda>s.
     rbind (reserve_name wire d) (\<lambda>d'.
     Inr (d'\<lparr>cd_subscriptions := cd_subscriptions d' @ [s]\<rparr>))))))))"

definition decl_stream ::
  "pydantic \<Rightarrow> name_arg \<Rightarrow> string \<Rightarrow> string option \<Rightarrow> string option \<Rightarrow> pyfun \<Rightarrow> channel_data \<Rightarrow>
   def_error + channel_data" where
  "decl_stream py name content_type input_type summary f d =
     rbind (ensure_mutable d) (\<lambda>_.
     rbind (raise_if (name = NameOther) BadDecoratorArg) (\<lambda>_.
     rbind (raise_if (content_type = [] \<or> input_type = Some []) EmptyContentType) (\<lambda>_.
     rbind (validate_function f False) (\<lambda>_.
     rbind (local_name name f ''stream name'') (\<lambda>local.
     let wire = join_rpc_name [cd_namespace d, local] in
     rbind (stream_definition py wire f content_type (summary_of summary f) (cd_scope d) input_type) (\<lambda>s.
     rbind (reserve_name wire d) (\<lambda>d'.
     Inr (d'\<lparr>cd_streams := cd_streams d' @ [s]\<rparr>))))))))"

text \<open>A message type is \<open>None\<close> when it is not a \<open>RpcMessageType\<close>.\<close>

definition declared_messages :: "message_type option list \<Rightarrow> def_error + message_type list" where
  "declared_messages ms =
     (if None \<in> set ms then Inl BadMessageTypes
      else if ms = [] then Inl NoMessageTypes
      else Inr (filter (\<lambda>t. Some t \<in> set ms) [TextMessage, BinaryMessage]))"

definition decl_raw_socket ::
  "pydantic \<Rightarrow> name_arg \<Rightarrow> message_type option list \<Rightarrow> reject_item list \<Rightarrow> string option \<Rightarrow> pyfun \<Rightarrow>
   channel_data \<Rightarrow> def_error + channel_data" where
  "decl_raw_socket py name messages closes summary f d =
     rbind (ensure_mutable d) (\<lambda>_.
     rbind (raise_if (name = NameOther) BadDecoratorArg) (\<lambda>_.
     rbind (declared_messages messages) (\<lambda>types.
     rbind (validate_function f False) (\<lambda>_.
     rbind (local_name name f ''raw socket name'') (\<lambda>local.
     let wire = join_rpc_name [cd_namespace d, local] in
     rbind (map_error Declares (rejecting_contracts closes (''RPC raw socket '' @ wire))) (\<lambda>cs.
     rbind (raw_socket_definition py wire f types cs (summary_of summary f) (cd_scope d)) (\<lambda>r.
     rbind (reserve_name wire d) (\<lambda>d'.
     Inr (d'\<lparr>cd_raw_sockets := cd_raw_sockets d' @ [r]\<rparr>)))))))))"

fun is_binding_decl :: "error_decl \<Rightarrow> bool" where
  "is_binding_decl (DeclBinding c) = True"
| "is_binding_decl e = False"

definition decl_client_method ::
  "pydantic \<Rightarrow> string \<Rightarrow> ann option \<Rightarrow> ann option \<Rightarrow> error_decl list \<Rightarrow> string option \<Rightarrow> channel_data \<Rightarrow>
   def_error + channel_data" where
  "decl_client_method py name params result raises summary d =
     rbind (ensure_mutable d) (\<lambda>_.
     rbind (check_name name ''client method name'') (\<lambda>local.
     let wire = join_rpc_name [cd_namespace d, local] in
     rbind (raise_if (list_ex is_binding_decl raises) ClientBinding) (\<lambda>_.
     rbind (map_error Declares (error_declarations raises (''RPC client method '' @ wire))) (\<lambda>rs.
     rbind (client_method_definition py wire params result summary rs) (\<lambda>m.
     rbind (reserve_name wire d) (\<lambda>d'.
     Inr (d'\<lparr>cd_client_methods := cd_client_methods d' @ [m]\<rparr>)))))))"

text \<open>\<open>child\<close>: the parent with the new channel as its last child.\<close>

definition channel_child ::
  "string \<Rightarrow> error_decl list \<Rightarrow> nat option \<Rightarrow> channel \<Rightarrow> def_error + channel" where
  "channel_child name raises scope ch =
     (let d = chan_data ch in
      rbind (ensure_mutable d) (\<lambda>_.
      rbind (check_name name ''child channel name'') (\<lambda>local.
      let n = join_rpc_name [cd_name d, local] in
      rbind (merged_raises d raises (''RPC channel '' @ n)) (\<lambda>rs.
      rbind (channel_create (Some n) (Some (join_rpc_name [cd_namespace d, local])) (map DeclType rs)
               (case scope of None \<Rightarrow> cd_scope d | Some s \<Rightarrow> s)) (\<lambda>c.
      Inr (Channel d (chan_children ch @ [c])))))))"

section \<open>Freezing\<close>

definition request_names :: "method_def list \<Rightarrow> string list" where
  "request_names ms = map md_request_name ms"

text \<open>Methods that share a request name take one made of their wire name.\<close>

definition rename_requests :: "method_def list \<Rightarrow> method_def list" where
  "rename_requests ms =
     map (\<lambda>m. if 1 < count_list (request_names ms) (md_request_name m)
              then m\<lparr>md_request_name := request_name (md_name m)\<rparr> else m) ms"

definition route_definition :: "pydantic \<Rightarrow> route \<Rightarrow> def_error + method_def" where
  "route_definition py r =
     method_definition py (ro_name r) (ro_function r) (fn_name (ro_function r)) (ro_summary r)
       (ro_raises r) None (ro_scope r) (ro_timeout r) (ro_has_timeout r) (ro_idempotent r) None"

text \<open>The frozen channel keeps its protocol, and so do its children.\<close>

fun channel_freeze :: "pydantic \<Rightarrow> channel \<Rightarrow> def_error + protocol \<times> channel" where
  "channel_freeze py (Channel d cs) =
     (case cd_protocol d of
        Some p \<Rightarrow> Inr (p, Channel d cs)
      | None \<Rightarrow>
          rbind (traverse (route_definition py) (cd_routes d)) (\<lambda>own.
          rbind (traverse (\<lambda>e. notification_type_definitions py (nd_payload e)) (cd_events d)) (\<lambda>types.
          rbind (traverse (channel_freeze py) cs) (\<lambda>frozen.
          let ps = map fst frozen in
          rbind (protocol_init
              (rename_requests (own @ concat (map (\<lambda>p. dict_vals (pc_methods p)) ps)))
              (cd_events d @ concat (map (\<lambda>p. dict_vals (pc_notifications p)) ps))
              (cd_subscriptions d @ concat (map (\<lambda>p. dict_vals (pc_subscriptions p)) ps))
              (concat types @ concat (map (\<lambda>p. dict_vals (pc_notification_types p)) ps))
              (cd_streams d @ concat (map (\<lambda>p. dict_vals (pc_streams p)) ps))
              (cd_client_methods d @ concat (map (\<lambda>p. dict_vals (pc_client_methods p)) ps))
              (cd_raw_sockets d @ concat (map (\<lambda>p. dict_vals (pc_raw_sockets p)) ps)) 1) (\<lambda>p.
          Inr (p, Channel (d\<lparr>cd_protocol := Some p\<rparr>) (map snd frozen)))))))"

section \<open>Invariant of the names\<close>

definition declared_names :: "channel_data \<Rightarrow> string list" where
  "declared_names d =
     map ro_name (cd_routes d) @ map nd_name (cd_events d) @ map sd_name (cd_subscriptions d)
     @ map st_name (cd_streams d) @ map rd_name (cd_raw_sockets d) @ map cm_name (cd_client_methods d)"

text \<open>
  The reserved names are those of the declarations, each once, and each is the namespace of the
  channel with a local name that is well-formed, or the name of a method's function.
\<close>

definition local_ok :: "channel_data \<Rightarrow> string \<Rightarrow> bool" where
  "local_ok d n \<longleftrightarrow>
     (\<exists>l. n = join_rpc_name [cd_namespace d, l]
        \<and> (valid_name l \<or> (\<exists>r\<in>set (cd_routes d). ro_name r = n \<and> l = fn_name (ro_function r))))"

definition channel_ok :: "channel_data \<Rightarrow> bool" where
  "channel_ok d \<longleftrightarrow>
     distinct (cd_names d) \<and> mset (cd_names d) = mset (declared_names d)
     \<and> (\<forall>n\<in>set (cd_names d). local_ok d n)"

lemma reserve_name_Inr: "reserve_name n d = Inr d' \<longleftrightarrow> n \<notin> set (cd_names d) \<and> d' = d\<lparr>cd_names := cd_names d @ [n]\<rparr>"
  by (auto simp: reserve_name_def)

lemma check_name_Inr: "check_name s kind = Inr s' \<longleftrightarrow> s' = s \<and> valid_name s"
  by (auto simp: check_name_def)

lemma local_name_Inr: "local_name name f kind = Inr l \<Longrightarrow> valid_name l"
  by (auto simp: local_name_def check_name_Inr split: name_arg.splits list.splits)

text \<open>Each declaration adds one definition under a name that was free.\<close>

definition adds :: "channel_data \<Rightarrow> channel_data \<Rightarrow> string \<Rightarrow> bool" where
  "adds d d' n \<longleftrightarrow>
     n \<notin> set (cd_names d) \<and> cd_names d' = cd_names d @ [n] \<and> cd_namespace d' = cd_namespace d
     \<and> cd_name d' = cd_name d \<and> cd_protocol d = None \<and> cd_protocol d' = None
     \<and> mset (declared_names d') = mset (declared_names d) + {#n#}
     \<and> set (cd_routes d) \<subseteq> set (cd_routes d') \<and> local_ok d' n"

lemma adds_ok: "channel_ok d \<Longrightarrow> adds d d' n \<Longrightarrow> channel_ok d'"
  unfolding channel_ok_def adds_def local_ok_def by (auto 0 4)

lemma stream_definition_name: "stream_definition py n f ct s sc it = Inr x \<Longrightarrow> st_name x = n"
  unfolding stream_definition_def rbind_eq_Inr raise_if_eq Let_def by (auto simp: rbind_eq_Inr split: prod.splits)

lemma raw_definition_name: "raw_socket_definition py n f ms cs s sc = Inr x \<Longrightarrow> rd_name x = n"
  unfolding raw_socket_definition_def rbind_eq_Inr raise_if_eq by (auto simp: rbind_eq_Inr split: prod.splits)

lemma subscription_definition_name: "subscription_definition py n f s sc rs = Inr x \<Longrightarrow> sd_name x = n"
  unfolding subscription_definition_def rbind_eq_Inr raise_if_eq
  by (auto simp: rbind_eq_Inr split: prod.splits option.splits)

lemma notification_definition_name: "notification_definition py n p f s sv oe rs = Inr x \<Longrightarrow> nd_name x = n"
  unfolding notification_definition_def rbind_eq_Inr raise_if_eq Let_def
  by (auto simp: rbind_eq_Inr split: prod.splits)

lemma client_method_definition_name: "client_method_definition py n p r s rs = Inr x \<Longrightarrow> cm_name x = n"
  unfolding client_method_definition_def rbind_eq_Inr raise_if_eq Let_def by (auto simp: rbind_eq_Inr)

lemmas definition_names =
  stream_definition_name raw_definition_name subscription_definition_name notification_definition_name
  client_method_definition_name

lemma ensure_mutable_Inr: "ensure_mutable d = Inr u \<longleftrightarrow> cd_protocol d = None"
  by (simp add: ensure_mutable_def raise_if_eq)

lemma decl_method_adds:
  assumes "decl_method name summary raises t idem f d = Inr d'"
  shows "\<exists>n. adds d d' n"
proof -
  from assms obtain l rs where
    "cd_protocol d = None"
    "(case name of NoName \<Rightarrow> Inr (fn_name f) | NameStr n \<Rightarrow> check_name n ''method name'' | NameOther \<Rightarrow> Inl BadDecoratorArg) = Inr l"
    and new: "join_rpc_name [cd_namespace d, l] \<notin> set (cd_names d)"
    and d': "d' = d\<lparr>cd_names := cd_names d @ [join_rpc_name [cd_namespace d, l]],
      cd_routes := cd_routes d @ [\<lparr>ro_name = join_rpc_name [cd_namespace d, l], ro_function = f,
        ro_summary = summary_of summary f, ro_raises = rs, ro_scope = cd_scope d,
        ro_timeout = timeout_value t, ro_has_timeout = (t \<noteq> InheritTimeout), ro_idempotent = idem\<rparr>]\<rparr>"
    unfolding decl_method_def rbind_eq_Inr raise_if_eq Let_def ensure_mutable_Inr reserve_name_Inr by auto
  moreover from this(2) have "valid_name l \<or> l = fn_name f"
    by (auto simp: check_name_Inr split: name_arg.splits)
  ultimately show ?thesis
    by (intro exI [of _ "join_rpc_name [cd_namespace d, l]"])
      (auto simp: adds_def declared_names_def local_ok_def)
qed

text \<open>The other declarations have a checked name and add one definition that carries it.\<close>

lemma decl_adds_checked:
  assumes "cd_protocol d = None" "valid_name l" "n = join_rpc_name [cd_namespace d, l]" "n \<notin> set (cd_names d)"
    and "cd_names d' = cd_names d @ [n]" "cd_namespace d' = cd_namespace d" "cd_name d' = cd_name d"
    and "cd_protocol d' = None" "mset (declared_names d') = mset (declared_names d) + {#n#}"
    and "cd_routes d' = cd_routes d"
  shows "adds d d' n"
  using assms unfolding adds_def local_ok_def by auto

lemma decl_event_adds:
  assumes "decl_event py name payload summary oe raises f d = Inr d'"
  shows "\<exists>n. adds d d' n"
  using assms unfolding decl_event_def rbind_eq_Inr raise_if_eq Let_def ensure_mutable_Inr reserve_name_Inr
  by (elim exE conjE, intro exI, intro decl_adds_checked)
    (auto simp: declared_names_def dest: local_name_Inr definition_names)

lemma decl_subscription_adds:
  assumes "decl_subscription py name summary raises f d = Inr d'"
  shows "\<exists>n. adds d d' n"
  using assms unfolding decl_subscription_def rbind_eq_Inr raise_if_eq Let_def ensure_mutable_Inr reserve_name_Inr
  by (elim exE conjE, intro exI, intro decl_adds_checked)
    (auto simp: declared_names_def dest: local_name_Inr definition_names)

lemma decl_stream_adds:
  assumes "decl_stream py name ct it summary f d = Inr d'"
  shows "\<exists>n. adds d d' n"
  using assms unfolding decl_stream_def rbind_eq_Inr raise_if_eq Let_def ensure_mutable_Inr reserve_name_Inr
  by (elim exE conjE, intro exI, intro decl_adds_checked)
    (auto simp: declared_names_def dest: local_name_Inr definition_names)

lemma decl_raw_socket_adds:
  assumes "decl_raw_socket py name messages closes summary f d = Inr d'"
  shows "\<exists>n. adds d d' n"
  using assms unfolding decl_raw_socket_def rbind_eq_Inr raise_if_eq Let_def ensure_mutable_Inr reserve_name_Inr
  by (elim exE conjE, intro exI, intro decl_adds_checked)
    (auto simp: declared_names_def dest: local_name_Inr definition_names)

lemma decl_client_method_adds:
  assumes "decl_client_method py name params result raises summary d = Inr d'"
  shows "\<exists>n. adds d d' n"
  using assms unfolding decl_client_method_def rbind_eq_Inr raise_if_eq Let_def ensure_mutable_Inr reserve_name_Inr
  by (elim exE conjE, intro exI, intro decl_adds_checked)
    (auto simp: declared_names_def check_name_Inr dest: definition_names)

text \<open>What a channel goes through until it is frozen.\<close>

inductive decl_step :: "pydantic \<Rightarrow> channel_data \<Rightarrow> channel_data \<Rightarrow> bool" for py where
  Method: "decl_method name summary raises t idem f d = Inr d' \<Longrightarrow> decl_step py d d'"
| Event: "decl_event py name payload summary oe raises f d = Inr d' \<Longrightarrow> decl_step py d d'"
| Subscription: "decl_subscription py name summary raises f d = Inr d' \<Longrightarrow> decl_step py d d'"
| Stream: "decl_stream py name ct it summary f d = Inr d' \<Longrightarrow> decl_step py d d'"
| RawSocket: "decl_raw_socket py name messages closes summary f d = Inr d' \<Longrightarrow> decl_step py d d'"
| ClientMethod: "decl_client_method py n params result raises summary d = Inr d' \<Longrightarrow> decl_step py d d'"

lemma decl_step_adds: "decl_step py d d' \<Longrightarrow> \<exists>n. adds d d' n"
  by (induction rule: decl_step.induct)
    (blast intro: decl_method_adds decl_event_adds decl_subscription_adds decl_stream_adds
      decl_raw_socket_adds decl_client_method_adds)+

lemma decl_run_ok:
  "(decl_step py)\<^sup>*\<^sup>* d d' \<Longrightarrow> channel_ok d \<Longrightarrow>
   channel_ok d' \<and> cd_namespace d' = cd_namespace d \<and> cd_name d' = cd_name d"
proof (induction rule: rtranclp_induct)
  case base
  then show ?case by simp
next
  case (step y z)
  then obtain n where "adds y z n" by (blast dest: decl_step_adds)
  with step adds_ok show ?case by (auto simp: adds_def)
qed

lemma channel_create_Inr:
  assumes "channel_create name namespace raises scope = Inr ch"
  shows "channel_ok (chan_data ch) \<and> chan_children ch = [] \<and> cd_name (chan_data ch) \<noteq> []
    \<and> (\<forall>s\<in>{cd_name (chan_data ch), cd_namespace (chan_data ch)}. s = [] \<or> valid_name s)"
proof -
  have n: "normalize_namespace s = Inr s' \<Longrightarrow> s' = s \<and> (s = [] \<or> valid_name s)" for s s'
    by (auto simp: normalize_namespace_def check_name_Inr split: if_splits)
  show ?thesis
    using assms n
    by (auto simp: channel_create_def rbind_eq_Inr raise_if_eq channel_ok_def declared_names_def
        split: option.splits dest!: n)
qed

lemma split_join_dot:
  "split_on (CHR ''.'') (a @ CHR ''.'' # b) = split_on (CHR ''.'') a @ split_on (CHR ''.'') b"
  by (induction a) (auto split: list.splits)

lemma valid_join: "s = [] \<or> valid_name s \<Longrightarrow> valid_name l \<Longrightarrow> valid_name (join_rpc_name [s, l])"
  by (cases "l = []") (auto simp: join_rpc_name_def valid_name_def split_join_dot)

text \<open>Names of a channel: after any declarations, every reserved name belongs to exactly one
  declaration and the other way round, is the namespace of the channel with a local name, and is
  well-formed, except that a method without a name takes the name of its function unchecked; so every
  name is well-formed when the functions' names are.\<close>

theorem channel_names_reserved:
  assumes "channel_create name namespace raises scope = Inr ch"
    and "(decl_step py)\<^sup>*\<^sup>* (chan_data ch) d"
  shows "distinct (declared_names d) \<and> set (cd_names d) = set (declared_names d)
    \<and> (\<forall>n\<in>set (declared_names d). \<exists>l. n = join_rpc_name [cd_namespace (chan_data ch), l])
    \<and> ((\<forall>r\<in>set (cd_routes d). valid_name (fn_name (ro_function r))) \<longrightarrow>
         (\<forall>n\<in>set (declared_names d). valid_name n))"
proof -
  note c = channel_create_Inr [OF assms(1)]
  from decl_run_ok [OF assms(2)] c have ok: "channel_ok d" "cd_namespace d = cd_namespace (chan_data ch)" by auto
  then have m: "mset (cd_names d) = mset (declared_names d)" "distinct (cd_names d)"
    by (simp_all add: channel_ok_def)
  then have s: "set (cd_names d) = set (declared_names d)" "distinct (declared_names d)"
    by (metis set_mset_mset) (metis m mset_eq_imp_distinct_iff)
  have l: "local_ok d n" if "n \<in> set (declared_names d)" for n
    using ok(1) s(1) that by (auto simp: channel_ok_def)
  have "valid_name n" if "\<forall>r\<in>set (cd_routes d). valid_name (fn_name (ro_function r))" "n \<in> set (declared_names d)" for n
    using l [OF that(2)] that(1) c ok(2) unfolding local_ok_def by (auto intro: valid_join)
  moreover have "\<exists>l. n = join_rpc_name [cd_namespace (chan_data ch), l]" if "n \<in> set (declared_names d)" for n
    using l [OF that] ok(2) by (auto simp: local_ok_def)
  ultimately show ?thesis using s by blast
qed

definition tick_fn :: pyfun where
  "tick_fn =
     \<lparr>fn_name = ''tick'', fn_qualname = ''tick'', fn_params = [],
      fn_return = Some (AnnClass cls_NoneType), fn_kind = CoroutineFunction, fn_doc = Some ''Ticks.'',
      fn_is_function = True\<rparr>"

definition clock_channel :: channel_data where
  "clock_channel =
     \<lparr>cd_name = ''clock'', cd_namespace = ''clock'', cd_raises = [], cd_scope = 0, cd_routes = [],
      cd_events = [], cd_subscriptions = [], cd_streams = [], cd_raw_sockets = [],
      cd_client_methods = [], cd_names = [], cd_protocol = None\<rparr>"

definition clock_ticking :: channel_data where
  "clock_ticking = clock_channel\<lparr>cd_names := [''clock.tick''],
     cd_routes := [\<lparr>ro_name = ''clock.tick'', ro_function = tick_fn, ro_summary = Some ''Ticks.'', ro_raises = [],
       ro_scope = 0, ro_timeout = None, ro_has_timeout = False, ro_idempotent = True\<rparr>]\<rparr>"

lemma clock_created: "channel_create (Some ''clock'') None [] 0 = Inr (Channel clock_channel [])"
proof -
  have v: "valid_name ''clock''" by code_simp
  show ?thesis
    by (simp add: channel_create_def normalize_namespace_def check_name_def v error_declarations_def
        bind_contracts_def map_error_def clock_channel_def List.map_filter_simps)
qed

lemma clock_declared: "decl_method NoName None [] InheritTimeout True tick_fn clock_channel = Inr clock_ticking"
proof -
  have f: "is_free_function tick_fn" "summary_of None tick_fn = Some ''Ticks.''"
    "join_rpc_name [''clock'', ''tick''] = ''clock.tick''" by code_simp+
  have r: "merged_raises clock_channel [] o' = Inr []" for o'
    by (simp add: merged_raises_def merge_error_declarations_def error_declarations_def
        bind_contracts_def map_error_def clock_channel_def List.map_filter_simps)
  show ?thesis
    by (simp add: decl_method_def ensure_mutable_def bad_timeout_def validate_function_def r
        reserve_name_def timeout_value_def f f(1) [unfolded tick_fn_def] clock_ticking_def
        Let_def) (simp add: clock_channel_def tick_fn_def f)
qed

lemma channel_names_reserved_witness:
  "set (cd_names clock_ticking) = {''clock.tick''} \<and> list_all valid_name (declared_names clock_ticking)"
proof -
  have "(decl_step py)\<^sup>*\<^sup>* (chan_data (Channel clock_channel [])) clock_ticking" for py
    using decl_step.Method [OF clock_declared] by auto
  from channel_names_reserved [OF clock_created this]
  have "(\<forall>r\<in>set (cd_routes clock_ticking). valid_name (fn_name (ro_function r))) \<longrightarrow>
         (\<forall>n\<in>set (declared_names clock_ticking). valid_name n)" by blast
  moreover have "valid_name ''tick''" by code_simp
  ultimately show ?thesis by (simp add: clock_ticking_def clock_channel_def tick_fn_def list_all_iff)
qed

end
