(* ===== verification/Paths.thy ===== *)
theory Paths
  imports Utf8 Channel
begin

text \<open>
  \<open>service.py\<close>: the path templates of endpoints, which the code reads and matches with regular
  expressions. A template is read as the sequence of its characters and of its variables
  \<open>{name}\<close>; a variable matches the characters of a non-empty part without a slash, as many as possible
  first. Paths are \<open>str\<close> in UTF-8, so a match is only cut between characters.
\<close>

section \<open>Templates\<close>

type_synonym token = "char + string"

definition is_brace :: "char \<Rightarrow> bool" where
  "is_brace c = (c = CHR ''{'' \<or> c = CHR ''}'')"

text \<open>What \<open>{([^{}]+)}\<close> finds, between the characters it does not take.\<close>

function template_tokens :: "string \<Rightarrow> token list" where
  "template_tokens [] = []"
| "template_tokens (c # s) =
     (let v = takeWhile (\<lambda>x. \<not> is_brace x) s; r = dropWhile (\<lambda>x. \<not> is_brace x) s in
      if c = CHR ''{'' \<and> v \<noteq> [] \<and> take 1 r = ''}'' then Inr v # template_tokens (drop 1 r)
      else Inl c # template_tokens s)"
  by pat_completeness auto
termination
  by (relation "measure length") (auto simp: less_Suc_eq_le intro: le_trans [OF diff_le_self] length_dropWhile_le)

definition path_variables :: "string \<Rightarrow> string list" where
  "path_variables t = rights (template_tokens t)"

fun normalized :: "token list \<Rightarrow> string" where
  "normalized [] = []"
| "normalized (Inl c # ts) = c # normalized ts"
| "normalized (Inr v # ts) = ''{}'' @ normalized ts"

definition normalized_path :: "string \<Rightarrow> string" where
  "normalized_path t = normalized (template_tokens t)"

section \<open>Matching\<close>

definition newline :: string where
  "newline = [CHR 0x0A]"

definition char_boundary :: "string \<Rightarrow> bool" where
  "char_boundary s = (case s of [] \<Rightarrow> True | c # _ \<Rightarrow> \<not> (0x80 \<le> byte_of c \<and> byte_of c \<le> 0xBF))"

fun first_some :: "('a \<Rightarrow> 'b option) \<Rightarrow> 'a list \<Rightarrow> 'b option" where
  "first_some f [] = None"
| "first_some f (x # xs) = (case f x of None \<Rightarrow> first_some f xs | Some y \<Rightarrow> Some y)"

text \<open>How much a variable may take of the rest of the path, the longest part first.\<close>

definition cuts :: "string \<Rightarrow> nat list" where
  "cuts s = filter (\<lambda>n. char_boundary (drop n s))
     (rev [1..<Suc (length (takeWhile (\<lambda>c. c \<noteq> CHR ''/'') s))])"

text \<open>The end of the pattern, \<open>$\<close>, is also before a line break that ends the path.\<close>

fun match_tokens :: "token list \<Rightarrow> string \<Rightarrow> string list option" where
  "match_tokens [] s = (if s = [] \<or> s = newline then Some [] else None)"
| "match_tokens (Inl c # ts) s = (case s of [] \<Rightarrow> None | x # xs \<Rightarrow> if x = c then match_tokens ts xs else None)"
| "match_tokens (Inr v # ts) s =
     first_some (\<lambda>n. map_option ((#) (take n s)) (match_tokens ts (drop n s))) (cuts s)"

definition match_path :: "string \<Rightarrow> string \<Rightarrow> (string, string) dict option" where
  "match_path template path =
     map_option (\<lambda>vs. fold (\<lambda>(n, v). dict_set n (unquote v)) (zip (path_variables template) vs) [])
       (match_tokens (template_tokens template) path)"

section \<open>Checks of an endpoint\<close>

datatype path_error =
    InvalidPath | InvalidVariables | NoEndpointName | InvalidEndpointName | EmptySubprotocol
  | DuplicateEndpointName string | DuplicateEndpointPath string

fun has_double_slash :: "string \<Rightarrow> bool" where
  "has_double_slash (a # b # s) = (a = CHR ''/'' \<and> b = CHR ''/'' \<or> has_double_slash (b # s))"
| "has_double_slash s = False"

definition valid_path :: "string \<Rightarrow> bool" where
  "valid_path p =
     (starts_with ''/'' p \<and> \<not> (p \<noteq> ''/'' \<and> ends_with ''/'' p) \<and> CHR ''?'' \<notin> set p \<and> CHR ''#'' \<notin> set p
      \<and> \<not> has_double_slash p)"

definition valid_variable :: "string \<Rightarrow> bool" where
  "valid_variable v =
     (case v of [] \<Rightarrow> False | c # cs \<Rightarrow> is_name_start c \<and> list_all (\<lambda>x. is_name_start x \<or> is_digit x) cs)"

definition valid_variables :: "string \<Rightarrow> bool" where
  "valid_variables t =
     (distinct (path_variables t) \<and> list_all valid_variable (path_variables t)
      \<and> Inl (CHR ''{'') \<notin> set (template_tokens t))"

definition valid_endpoint_name :: "string \<Rightarrow> bool" where
  "valid_endpoint_name n =
     (case n of [] \<Rightarrow> False | c # cs \<Rightarrow> (is_upper c \<or> is_lower c) \<and> list_all is_name_char cs)"

definition derived_endpoint_name :: "string \<Rightarrow> path_error + string" where
  "derived_endpoint_name path =
     (case find (\<lambda>s. s \<noteq> [] \<and> CHR ''{'' \<notin> set s) (rev (split_on (CHR ''/'') path)) of
        None \<Rightarrow> Inl NoEndpointName | Some s \<Rightarrow> Inr s)"

definition endpoint_name :: "string option \<Rightarrow> string \<Rightarrow> path_error + string" where
  "endpoint_name name path =
     (case name of Some (c # cs) \<Rightarrow> Inr (c # cs) | _ \<Rightarrow> derived_endpoint_name path)"

text \<open>\<open>_validate_endpoint\<close> against the names and paths of the endpoints that exist.\<close>

definition validate_endpoint ::
  "(string \<times> string) list \<Rightarrow> string \<Rightarrow> string option \<Rightarrow> string option \<Rightarrow> path_error + string list" where
  "validate_endpoint known path name subprotocol =
     rbind (raise_if (\<not> valid_path path) InvalidPath) (\<lambda>_.
     rbind (raise_if (\<not> valid_variables path) InvalidVariables) (\<lambda>_.
     rbind (endpoint_name name path) (\<lambda>n.
     rbind (raise_if (\<not> valid_endpoint_name n) InvalidEndpointName) (\<lambda>_.
     rbind (raise_if (subprotocol = Some []) EmptySubprotocol) (\<lambda>_.
     rbind (raise_if (n \<in> fst ` set known) (DuplicateEndpointName n)) (\<lambda>_.
     rbind (raise_if (normalized_path path \<in> normalized_path ` snd ` set known) (DuplicateEndpointPath path)) (\<lambda>_.
     Inr (path_variables path))))))))"

section \<open>Matching is filling in\<close>

text \<open>The path a template has for given values of its variables.\<close>

fun fill :: "token list \<Rightarrow> string list \<Rightarrow> string" where
  "fill [] vs = []"
| "fill (Inl c # ts) vs = c # fill ts vs"
| "fill (Inr v # ts) [] = fill ts []"
| "fill (Inr v # ts) (x # xs) = x @ fill ts xs"

definition segment_value :: "string \<Rightarrow> bool" where
  "segment_value v = (v \<noteq> [] \<and> CHR ''/'' \<notin> set v \<and> utf8_valid v)"

text \<open>A variable that ends the template or is followed by a slash.\<close>

fun whole_segments :: "token list \<Rightarrow> bool" where
  "whole_segments [] = True"
| "whole_segments (Inl c # ts) = whole_segments ts"
| "whole_segments (Inr v # ts) = ((ts = [] \<or> hd ts = Inl CHR ''/'') \<and> whole_segments ts)"

lemma first_some_Some: "first_some f xs = Some y \<Longrightarrow> \<exists>x\<in>set xs. f x = Some y"
  by (induction xs) (auto split: option.splits)

lemma first_some_None: "first_some f xs = None \<longleftrightarrow> (\<forall>x\<in>set xs. f x = None)"
  by (induction xs) (auto split: option.splits)

lemma cuts_iff:
  "n \<in> set (cuts s) \<longleftrightarrow>
     char_boundary (drop n s) \<and> 1 \<le> n \<and> n \<le> length (takeWhile (\<lambda>c. c \<noteq> CHR ''/'') s)"
  by (auto simp: cuts_def)

lemma cut_value: "n \<in> set (cuts s) \<Longrightarrow> take n s \<noteq> [] \<and> CHR ''/'' \<notin> set (take n s)"
proof -
  assume n: "n \<in> set (cuts s)"
  let ?w = "takeWhile (\<lambda>c. c \<noteq> CHR ''/'') s"
  have "take n s = take n ?w"
    using n by (metis cuts_iff le_cases takeWhile_eq_take take_take min_def)
  with n show ?thesis
    by (auto simp: cuts_iff dest!: in_set_takeD set_takeWhileD)
qed

lemma match_tokens_sound:
  "match_tokens ts s = Some vs \<Longrightarrow>
     length vs = length (rights ts) \<and> (\<forall>v\<in>set vs. v \<noteq> [] \<and> CHR ''/'' \<notin> set v)
     \<and> (s = fill ts vs \<or> s = fill ts vs @ newline)"
proof (induction ts s arbitrary: vs rule: match_tokens.induct)
  case (1 s)
  then show ?case by (auto split: if_splits)
next
  case (2 c ts s)
  then show ?case by (auto split: list.splits if_splits)
next
  case (3 v ts s)
  then obtain n us where n: "n \<in> set (cuts s)" "match_tokens ts (drop n s) = Some us" "vs = take n s # us"
    by (auto dest!: first_some_Some)
  from 3(1) [OF n(2)] cut_value [OF n(1)] show ?case
    by (auto simp: n(3)) (metis append_assoc append_take_drop_id)+
qed

lemma segment_cut:
  assumes "segment_value v" "r = [] \<or> hd r = CHR ''/''"
  shows "first_some f (cuts (v @ r)) = (case f (length v) of None \<Rightarrow> first_some f (cuts (v @ r)) | Some y \<Rightarrow> Some y)"
proof -
  have w: "takeWhile (\<lambda>c. c \<noteq> CHR ''/'') (v @ r) = v"
    using assms by (cases r; subst takeWhile_append2) (auto simp: segment_value_def)
  have "char_boundary r" using assms(2) by (cases r) (auto simp: char_boundary_def byte_of_def)
  with w assms(1) have "\<exists>ns. cuts (v @ r) = length v # ns"
    by (simp add: cuts_def segment_value_def Suc_le_eq)
  then show ?thesis by (auto split: option.splits)
qed

lemma match_fill_segments:
  "whole_segments ts \<Longrightarrow> length vs = length (rights ts) \<Longrightarrow> list_all segment_value vs \<Longrightarrow>
   match_tokens ts (fill ts vs) = Some vs"
proof (induction ts vs rule: fill.induct)
  case (4 v ts x xs)
  have "fill ts xs = [] \<or> hd (fill ts xs) = CHR ''/''"
    using 4(2) by (cases ts) auto
  moreover have "match_tokens ts (fill ts xs) = Some xs" using 4 by simp
  ultimately show ?case
    using 4(4) by (subst fill.simps, subst match_tokens.simps, subst segment_cut) simp_all
qed simp_all

lemma utf8_boundary: "utf8_valid s \<Longrightarrow> char_boundary s"
  by (cases s) (auto simp: char_boundary_def utf8_lead_def split: option.splits if_splits)

text \<open>Any values fit their template when its own characters are ASCII, with a line break after it or not.\<close>

definition ascii_template :: "token list \<Rightarrow> bool" where
  "ascii_template ts = list_all (\<lambda>t. case t of Inl c \<Rightarrow> ascii c | Inr v \<Rightarrow> True) ts"

lemma match_fill_some:
  "ascii_template ts \<Longrightarrow> length vs = length (rights ts) \<Longrightarrow> list_all segment_value vs \<Longrightarrow>
   e = [] \<or> e = newline \<Longrightarrow> match_tokens ts (fill ts vs @ e) \<noteq> None"
proof (induction ts vs rule: fill.induct)
  case (4 v ts x xs)
  from 4 have IH: "match_tokens ts (fill ts xs @ e) \<noteq> None" by (simp add: ascii_template_def)
  have "char_boundary (fill ts xs @ e)"
  proof (cases ts)
    case Nil
    with 4(5) show ?thesis by (auto simp: char_boundary_def newline_def byte_of_def)
  next
    case (Cons t us)
    with 4(2-4) show ?thesis
    proof (cases t)
      case (Inr w)
      with Cons 4 obtain y ys where "xs = y # ys" "segment_value y" by (cases xs) auto
      with utf8_boundary [of y] Cons Inr show ?thesis
        by (auto simp: segment_value_def char_boundary_def split: list.splits)
    qed (use Cons 4 in \<open>auto simp: char_boundary_def ascii_def ascii_template_def\<close>)
  qed
  moreover have "takeWhile (\<lambda>c. c \<noteq> CHR ''/'') (x @ fill ts xs @ e) = x @ takeWhile (\<lambda>c. c \<noteq> CHR ''/'') (fill ts xs @ e)"
    using 4(4) by (auto simp: segment_value_def intro: takeWhile_append2)
  ultimately have "length x \<in> set (cuts (x @ fill ts xs @ e))"
    using 4(4) by (auto simp: cuts_iff segment_value_def Suc_le_eq)
  with IH show ?case by (auto simp: first_some_None simp del: not_None_eq intro!: bexI [of _ "length x"])
qed (auto simp: newline_def ascii_template_def)

lemma fold_dict_fresh:
  "distinct (map fst ps) \<Longrightarrow> fst ` set ps \<inter> fst ` set d = {} \<Longrightarrow>
   fold (\<lambda>(n, v). dict_set n (h v)) ps d = d @ map (\<lambda>(n, v). (n, h v)) ps"
  by (induction ps arbitrary: d) (auto simp: dict_set_fresh)

lemma match_path_zip:
  assumes "distinct (path_variables t)" "match_tokens (template_tokens t) p = Some vs"
  shows "match_path t p = Some (zip (path_variables t) (map unquote vs))"
proof -
  have "length vs = length (path_variables t)"
    using match_tokens_sound [OF assms(2)] by (simp add: path_variables_def)
  with assms(1) have "fold (\<lambda>(n, v). dict_set n (unquote v)) (zip (path_variables t) vs) [] =
      map (\<lambda>(n, v). (n, unquote v)) (zip (path_variables t) vs)"
    by (subst fold_dict_fresh) simp_all
  with assms(2) show ?thesis by (simp add: match_path_def zip_map2)
qed

section \<open>Properties\<close>

text \<open>What a path template accepts: a path only matches when it is the template with a non-empty
  part without a slash for each variable, followed at most by one line break, and the values are those
  parts, percent-decoded; and every such path does match when the template is written in ASCII.\<close>

theorem match_path_exact:
  assumes "valid_variables t"
  shows "(match_path t p = Some d \<longrightarrow>
       (\<exists>vs. length vs = length (path_variables t) \<and> (\<forall>v\<in>set vs. v \<noteq> [] \<and> CHR ''/'' \<notin> set v)
          \<and> d = zip (path_variables t) (map unquote vs)
          \<and> (p = fill (template_tokens t) vs \<or> p = fill (template_tokens t) vs @ newline)))
    \<and> (ascii_template (template_tokens t) \<and> length vs = length (path_variables t) \<and> list_all segment_value vs
         \<and> e \<in> {[], newline} \<longrightarrow> match_path t (fill (template_tokens t) vs @ e) \<noteq> None)"
proof (intro conjI impI)
  from assms have v: "distinct (path_variables t)" by (simp add: valid_variables_def)
  assume "match_path t p = Some d"
  then obtain vs where vs: "match_tokens (template_tokens t) p = Some vs" by (auto simp: match_path_def)
  from match_path_zip [OF v vs] match_tokens_sound [OF vs] \<open>match_path t p = Some d\<close>
  show "\<exists>vs. length vs = length (path_variables t) \<and> (\<forall>v\<in>set vs. v \<noteq> [] \<and> CHR ''/'' \<notin> set v)
      \<and> d = zip (path_variables t) (map unquote vs)
      \<and> (p = fill (template_tokens t) vs \<or> p = fill (template_tokens t) vs @ newline)"
    by (intro exI [of _ vs]) (simp add: path_variables_def)
next
  assume a: "ascii_template (template_tokens t) \<and> length vs = length (path_variables t) \<and> list_all segment_value vs
      \<and> e \<in> {[], newline}"
  then show "match_path t (fill (template_tokens t) vs @ e) \<noteq> None"
    using match_fill_some [of "template_tokens t" vs e] by (auto simp: match_path_def path_variables_def)
qed

definition room_path :: string where
  "room_path = ''/rooms/{room}''"

lemma match_path_exact_witness:
  "match_path room_path (''/rooms/a%20b'' @ newline) \<noteq> None"
proof -
  have t: "valid_variables room_path" "ascii_template (template_tokens room_path)"
    "length [''a%20b''] = length (path_variables room_path)" "list_all segment_value [''a%20b'']"
    "fill (template_tokens room_path) [''a%20b''] = ''/rooms/a%20b''" by code_simp+
  from match_path_exact [OF t(1), where vs = "[''a%20b'']" and e = newline] t(2-)
  show ?thesis by simp
qed

text \<open>C16. Path values read back: when every variable of a template is a whole segment, a path made by
  filling in non-empty segments matches and gives each variable its own segment, percent-decoded.\<close>

theorem path_values_roundtrip:
  assumes "valid_variables t" and "whole_segments (template_tokens t)"
    and "length vs = length (path_variables t)" and "list_all segment_value vs"
  shows "match_path t (fill (template_tokens t) vs) = Some (zip (path_variables t) (map unquote vs))"
  using assms by (intro match_path_zip match_fill_segments) (simp_all add: valid_variables_def path_variables_def)

lemma path_values_roundtrip_witness:
  "match_path ''/rooms/{room}/{seat}'' ''/rooms/a%20b/7'' = Some [(''room'', ''a b''), (''seat'', ''7'')]"
proof -
  have t: "valid_variables ''/rooms/{room}/{seat}''" "whole_segments (template_tokens ''/rooms/{room}/{seat}'')"
    "length [''a%20b'', ''7''] = length (path_variables ''/rooms/{room}/{seat}'')"
    "list_all segment_value [''a%20b'', ''7'']"
    "fill (template_tokens ''/rooms/{room}/{seat}'') [''a%20b'', ''7''] = ''/rooms/a%20b/7''"
    "zip (path_variables ''/rooms/{room}/{seat}'') (map unquote [''a%20b'', ''7'']) =
       [(''room'', ''a b''), (''seat'', ''7'')]" by code_simp+
  from path_values_roundtrip [OF t(1-4)] t(5,6) show ?thesis by simp
qed

end
