(* ===== verification/ChannelFreeze.thy ===== *)
theory ChannelFreeze
  imports Channel
begin

text \<open>
  What freezing a tree of channels gives: an abstract description, the declarations of the tree in
  preorder, which \<open>channel_freeze\<close> implements, and the names of the requests.
\<close>

section \<open>The declarations of a tree\<close>

text \<open>
  A frozen channel gives what its protocol holds, any other channel its own declarations and then
  those of its children.
\<close>

fun flat :: "(protocol \<Rightarrow> 'a list) \<Rightarrow> (channel_data \<Rightarrow> 'a list) \<Rightarrow> channel \<Rightarrow> 'a list" where
  "flat held own (Channel d cs) =
     (case cd_protocol d of Some p \<Rightarrow> held p | None \<Rightarrow> own d @ concat (map (flat held own) cs))"

type_synonym operation = "string \<times> pyfun option \<times> error_type list \<times> rat option \<times> bool \<times> bool"

definition route_operation :: "route \<Rightarrow> operation" where
  "route_operation r =
     (ro_name r, Some (ro_function r), ro_raises r, ro_timeout r, ro_has_timeout r, ro_idempotent r)"

definition method_operation :: "method_def \<Rightarrow> operation" where
  "method_operation m =
     (md_name m, md_function m, md_raises m, md_timeout m, md_has_timeout m, md_idempotent m)"

definition tree_methods :: "channel \<Rightarrow> operation list" where
  "tree_methods = flat (\<lambda>p. map method_operation (dict_vals (pc_methods p))) (\<lambda>d. map route_operation (cd_routes d))"

lemma rename_operations [simp]: "map method_operation (rename_requests ms) = map method_operation ms"
  by (simp add: rename_requests_def method_operation_def)

lemma route_definition_operation: "route_definition py r = Inr m \<Longrightarrow> method_operation m = route_operation r"
  by (auto simp: route_definition_def method_definition_def rbind_eq_Inr method_operation_def route_operation_def)

lemma traverse_map: "traverse f xs = Inr ys \<Longrightarrow> (\<And>x y. f x = Inr y \<Longrightarrow> g y = h x) \<Longrightarrow> map g ys = map h xs"
  by (induction xs arbitrary: ys) (auto simp: rbind_eq_Inr)

text \<open>A table of the frozen children, given that each child implements its description.\<close>

lemma traverse_flat:
  assumes "traverse f cs = Inr fz"
    and "\<And>c p c'. c \<in> set cs \<Longrightarrow> f c = Inr (p, c') \<Longrightarrow> g p = flat held own c"
  shows "concat (map g (map fst fz)) = concat (map (flat held own) cs)"
  using assms by (induction cs arbitrary: fz) (auto simp: rbind_eq_Inr)

lemma map_concat_vals: "map g (concat (map f xs)) = concat (map (\<lambda>x. map g (f x)) xs)"
  by (simp add: map_concat comp_def)

text \<open>How a freeze of a channel that is not frozen ends.\<close>

lemma channel_freeze_open:
  assumes "channel_freeze py (Channel d cs) = Inr (p, ch')" "cd_protocol d = None"
  obtains own types frozen where
    "traverse (route_definition py) (cd_routes d) = Inr own"
    "traverse (channel_freeze py) cs = Inr frozen"
    "ch' = Channel (d\<lparr>cd_protocol := Some p\<rparr>) (map snd frozen)"
    "protocol_ok p"
    "dict_vals (pc_methods p) = rename_requests (own @ concat (map (\<lambda>p. dict_vals (pc_methods p)) (map fst frozen)))"
    "dict_vals (pc_notifications p) = cd_events d @ concat (map (\<lambda>p. dict_vals (pc_notifications p)) (map fst frozen))"
    "dict_vals (pc_subscriptions p) = cd_subscriptions d @ concat (map (\<lambda>p. dict_vals (pc_subscriptions p)) (map fst frozen))"
    "dict_vals (pc_streams p) = cd_streams d @ concat (map (\<lambda>p. dict_vals (pc_streams p)) (map fst frozen))"
    "dict_vals (pc_client_methods p) = cd_client_methods d @ concat (map (\<lambda>p. dict_vals (pc_client_methods p)) (map fst frozen))"
    "dict_vals (pc_raw_sockets p) = cd_raw_sockets d @ concat (map (\<lambda>p. dict_vals (pc_raw_sockets p)) (map fst frozen))"
  using assms
  by (simp add: rbind_eq_Inr Let_def) (elim exE conjE, drule protocol_init_ok, blast)

lemma freeze_flat:
  assumes "channel_freeze py ch = Inr (p, ch')"
    and own: "\<And>d cs p ch' frozen. channel_freeze py (Channel d cs) = Inr (p, ch') \<Longrightarrow> cd_protocol d = None \<Longrightarrow>
      traverse (channel_freeze py) cs = Inr frozen \<Longrightarrow> g p = own d @ concat (map g (map fst frozen))"
  shows "g p = flat g own ch"
  using assms(1)
proof (induction ch arbitrary: p ch')
  case (Channel d cs)
  show ?case
  proof (cases "cd_protocol d")
    case (Some q)
    with Channel.prems have "q = p" by simp
    with Some show ?thesis by simp
  next
    case None
    with Channel.prems obtain fz where fz: "traverse (channel_freeze py) cs = Inr fz"
      by (rule channel_freeze_open) blast
    from own [OF Channel.prems None fz] traverse_flat [OF fz, of g g own] Channel.IH
    show ?thesis by (simp add: None)
  qed
qed

lemma freeze_methods:
  "channel_freeze py ch = Inr (p, ch') \<Longrightarrow> map method_operation (dict_vals (pc_methods p)) = tree_methods ch"
  unfolding tree_methods_def
proof (erule freeze_flat)
  fix d cs q ch'' frozen
  assume f: "channel_freeze py (Channel d cs) = Inr (q, ch'')" "cd_protocol d = None"
    and t: "traverse (channel_freeze py) cs = Inr frozen"
  from f obtain ms frozen' where
    o': "traverse (route_definition py) (cd_routes d) = Inr ms" "traverse (channel_freeze py) cs = Inr frozen'"
    "dict_vals (pc_methods q) = rename_requests (ms @ concat (map (\<lambda>p. dict_vals (pc_methods p)) (map fst frozen')))"
    by (rule channel_freeze_open) blast
  with t have "frozen' = frozen" by simp
  moreover have "map method_operation ms = map route_operation (cd_routes d)"
    using o'(1) route_definition_operation by (rule traverse_map)
  ultimately show "map method_operation (dict_vals (pc_methods q)) = map route_operation (cd_routes d)
      @ concat (map (\<lambda>p. map method_operation (dict_vals (pc_methods p))) (map fst frozen))"
    by (simp add: o'(3) map_concat_vals del: map_map)
qed

lemma freeze_tables:
  assumes "channel_freeze py ch = Inr (p, ch')"
  shows "dict_vals (pc_notifications p) = flat (\<lambda>p. dict_vals (pc_notifications p)) cd_events ch"
    and "dict_vals (pc_subscriptions p) = flat (\<lambda>p. dict_vals (pc_subscriptions p)) cd_subscriptions ch"
    and "dict_vals (pc_streams p) = flat (\<lambda>p. dict_vals (pc_streams p)) cd_streams ch"
    and "dict_vals (pc_client_methods p) = flat (\<lambda>p. dict_vals (pc_client_methods p)) cd_client_methods ch"
    and "dict_vals (pc_raw_sockets p) = flat (\<lambda>p. dict_vals (pc_raw_sockets p)) cd_raw_sockets ch"
  by (rule freeze_flat [OF assms], elim channel_freeze_open, assumption, simp)+

lemma freeze_again:
  assumes "channel_freeze py ch = Inr (p, ch')"
  shows "channel_freeze py ch' = Inr (p, ch') \<and> cd_protocol (chan_data ch') = Some p"
proof (cases ch)
  case (Channel d cs)
  show ?thesis
  proof (cases "cd_protocol d")
    case None
    from assms None show ?thesis unfolding Channel by (elim channel_freeze_open) auto
  next
    case (Some q)
    with assms show ?thesis by (auto simp: Channel)
  qed
qed

text \<open>Every channel of the tree keeps the protocol of its part of the tree.\<close>

fun all_frozen :: "channel \<Rightarrow> bool" where
  "all_frozen (Channel d cs) = (cd_protocol d \<noteq> None \<and> list_all all_frozen cs)"

text \<open>A channel froze its children with it, so the tree below a frozen channel is frozen.\<close>

fun frozen_down :: "channel \<Rightarrow> bool" where
  "frozen_down (Channel d cs) =
     (list_all frozen_down cs \<and> (cd_protocol d \<noteq> None \<longrightarrow> list_all all_frozen cs))"

lemma traverse_all:
  "traverse f xs = Inr ys \<Longrightarrow> \<forall>x\<in>set xs. \<forall>y. f x = Inr y \<longrightarrow> P y \<Longrightarrow> list_all P ys"
  by (induction xs arbitrary: ys) (auto simp: rbind_eq_Inr)

lemma freeze_all:
  "channel_freeze py ch = Inr (p, ch') \<Longrightarrow> frozen_down ch \<Longrightarrow> all_frozen ch'"
proof (induction ch arbitrary: p ch')
  case (Channel d cs)
  show ?case
  proof (cases "cd_protocol d")
    case (Some q)
    with Channel.prems show ?thesis by auto
  next
    case None
    with Channel.prems(1) obtain fz where
      fz: "traverse (channel_freeze py) cs = Inr fz" "ch' = Channel (d\<lparr>cd_protocol := Some p\<rparr>) (map snd fz)"
      by (rule channel_freeze_open) blast
    from fz(1) have "list_all (\<lambda>x. all_frozen (snd x)) fz"
    proof (rule traverse_all, intro ballI allI impI)
      fix c y assume "c \<in> set cs" "channel_freeze py c = Inr y"
      with Channel.IH [of c "fst y" "snd y"] Channel.prems(2) show "all_frozen (snd y)"
        by (simp add: list_all_iff)
    qed
    with fz(2) show ?thesis by (simp add: list_all_iff)
  qed
qed

section \<open>Trees that are built and frozen\<close>

text \<open>An operation on one channel of a tree, given by the positions of the children that lead to it.\<close>

fun at_channel :: "nat list \<Rightarrow> (channel \<Rightarrow> 'e + channel) \<Rightarrow> channel \<Rightarrow> ('e + channel) option" where
  "at_channel [] f ch = Some (f ch)"
| "at_channel (i # is) f (Channel d cs) =
     (if i < length cs
      then map_option (\<lambda>r. rbind r (\<lambda>c. Inr (Channel d (cs[i := c])))) (at_channel is f (cs ! i))
      else None)"

definition declare_in :: "(channel_data \<Rightarrow> def_error + channel_data) \<Rightarrow> channel \<Rightarrow> def_error + channel" where
  "declare_in decl ch = rbind (decl (chan_data ch)) (\<lambda>d. Inr (Channel d (chan_children ch)))"

definition freeze_in :: "pydantic \<Rightarrow> channel \<Rightarrow> def_error + channel" where
  "freeze_in py ch = rbind (channel_freeze py ch) (\<lambda>(p, ch'). Inr ch')"

text \<open>What a tree goes through: declarations, new children and freezes at any of its channels.\<close>

inductive tree_step :: "pydantic \<Rightarrow> channel \<Rightarrow> channel \<Rightarrow> bool" for py where
  Declare: "\<forall>d d'. decl d = Inr d' \<longrightarrow> decl_step py d d' \<Longrightarrow>
    at_channel is (declare_in decl) ch = Some (Inr ch') \<Longrightarrow> tree_step py ch ch'"
| Child: "at_channel is (channel_child name raises scope) ch = Some (Inr ch') \<Longrightarrow> tree_step py ch ch'"
| Freeze: "at_channel is (freeze_in py) ch = Some (Inr ch') \<Longrightarrow> tree_step py ch ch'"

definition keeps_frozen :: "(channel \<Rightarrow> 'e + channel) \<Rightarrow> bool" where
  "keeps_frozen f \<longleftrightarrow>
     (\<forall>c c'. frozen_down c \<longrightarrow> f c = Inr c' \<longrightarrow> frozen_down c' \<and> (all_frozen c \<longrightarrow> all_frozen c'))"

lemma list_all_update: "list_all P xs \<Longrightarrow> P x \<Longrightarrow> list_all P (xs[i := x])"
  by (auto simp: list_all_iff dest: set_update_subset_insert [THEN subsetD])

lemma at_channel_frozen:
  "at_channel is f ch = Some (Inr ch') \<Longrightarrow> keeps_frozen f \<Longrightarrow> frozen_down ch \<Longrightarrow>
   frozen_down ch' \<and> (all_frozen ch \<longrightarrow> all_frozen ch')"
proof (induction "is" f ch arbitrary: ch' rule: at_channel.induct)
  case (1 f ch)
  then show ?case by (simp add: keeps_frozen_def)
next
  case (2 i "is" f d cs)
  then obtain c where c: "i < length cs" "at_channel is f (cs ! i) = Some (Inr c)" "ch' = Channel d (cs[i := c])"
    by (auto simp: rbind_eq_Inr split: if_splits)
  from 2(4) c(1) have "frozen_down (cs ! i)" "all_frozen (Channel d cs) \<longrightarrow> all_frozen (cs ! i)"
    "cd_protocol d \<noteq> None \<longrightarrow> all_frozen (cs ! i)" by (auto simp: list_all_length)
  with 2(1) [OF c(1,2) 2(3)] 2(4) show ?case
    by (auto simp: c(3) intro: list_all_update)
qed

lemma all_frozen_down: "all_frozen ch \<Longrightarrow> frozen_down ch"
  by (induction ch) (simp add: list_all_iff)

lemma frozen_down_open: "cd_protocol d = None \<Longrightarrow> frozen_down (Channel d cs) = list_all frozen_down cs"
  by simp

lemma declare_keeps_frozen: "\<forall>d d'. decl d = Inr d' \<longrightarrow> decl_step py d d' \<Longrightarrow> keeps_frozen (declare_in decl)"
  unfolding keeps_frozen_def
proof (intro allI impI)
  fix c c' assume d: "\<forall>d d'. decl d = Inr d' \<longrightarrow> decl_step py d d'" "frozen_down c" "declare_in decl c = Inr c'"
  obtain x cs where c: "c = Channel x cs" by (cases c)
  with d(3) obtain x' where x: "decl x = Inr x'" "c' = Channel x' cs" by (auto simp: declare_in_def rbind_eq_Inr)
  with d(1) obtain n where "adds x x' n" by (blast dest: decl_step_adds)
  then have "cd_protocol x = None" "cd_protocol x' = None" by (simp_all add: adds_def)
  with d(2) show "frozen_down c' \<and> (all_frozen c \<longrightarrow> all_frozen c')" by (simp add: c x)
qed

lemma channel_create_open: "channel_create a b r s = Inr c \<Longrightarrow> cd_protocol (chan_data c) = None"
  by (auto simp: channel_create_def rbind_eq_Inr raise_if_eq split: option.splits)

lemma child_keeps_frozen: "keeps_frozen (channel_child name raises scope)"
  unfolding keeps_frozen_def
proof (intro allI impI)
  fix c c' assume d: "frozen_down c" "channel_child name raises scope c = Inr c'"
  obtain x cs where c: "c = Channel x cs" by (cases c)
  with d(2) obtain n n' s r ch where x: "cd_protocol x = None" "channel_create n n' r s = Inr ch"
    "c' = Channel x (cs @ [ch])"
    by (auto simp: channel_child_def rbind_eq_Inr ensure_mutable_Inr Let_def)
  from channel_create_Inr [OF x(2)] channel_create_open [OF x(2)] have "frozen_down ch" by (cases ch) simp
  with d(1) x show "frozen_down c' \<and> (all_frozen c \<longrightarrow> all_frozen c')" by (simp add: c)
qed

lemma freeze_keeps_frozen: "keeps_frozen (freeze_in py)"
  unfolding keeps_frozen_def freeze_in_def
  using freeze_all all_frozen_down by (auto simp: rbind_eq_Inr)

lemma tree_step_frozen: "tree_step py ch ch' \<Longrightarrow> frozen_down ch \<Longrightarrow> frozen_down ch'"
  by (induction rule: tree_step.induct)
    (blast dest: at_channel_frozen [OF _ declare_keeps_frozen] at_channel_frozen [OF _ child_keeps_frozen]
      at_channel_frozen [OF _ freeze_keeps_frozen])+

lemma tree_run_frozen:
  assumes "channel_create n ns raises scope = Inr ch0" "(tree_step py)\<^sup>*\<^sup>* ch0 ch"
  shows "frozen_down ch"
proof -
  have "frozen_down ch0"
    using channel_create_Inr [OF assms(1)] channel_create_open [OF assms(1)] by (cases ch0) simp
  with assms(2) show ?thesis by (induction rule: rtranclp_induct) (auto dest: tree_step_frozen)
qed

text \<open>C15. Freezing implements the description of a tree of channels, however the tree was
  built: the protocol holds the methods of
  the routes of the whole tree, each with its function, errors, timeout and idempotence, and the
  events, subscriptions, streams, client methods and raw sockets, a parent's before its children's, in
  the order of the declarations and no name twice. The whole tree is frozen after it, and freezing
  again gives the same protocol, while any further declaration is refused.\<close>

theorem channel_freeze_flattens:
  assumes "channel_create n ns errors scope = Inr ch0" and "(tree_step py)\<^sup>*\<^sup>* ch0 ch"
    and "channel_freeze py ch = Inr (p, ch')"
  shows "map method_operation (dict_vals (pc_methods p)) = tree_methods ch
    \<and> dict_vals (pc_notifications p) = flat (\<lambda>p. dict_vals (pc_notifications p)) cd_events ch
    \<and> dict_vals (pc_subscriptions p) = flat (\<lambda>p. dict_vals (pc_subscriptions p)) cd_subscriptions ch
    \<and> dict_vals (pc_streams p) = flat (\<lambda>p. dict_vals (pc_streams p)) cd_streams ch
    \<and> dict_vals (pc_client_methods p) = flat (\<lambda>p. dict_vals (pc_client_methods p)) cd_client_methods ch
    \<and> dict_vals (pc_raw_sockets p) = flat (\<lambda>p. dict_vals (pc_raw_sockets p)) cd_raw_sockets ch
    \<and> all_frozen ch' \<and> channel_freeze py ch' = Inr (p, ch')
    \<and> decl_method name summary raises t idem f (chan_data ch') = Inl (AlreadyFrozen (cd_name (chan_data ch')))"
  using freeze_methods [OF assms(3)] freeze_tables [OF assms(3)] freeze_all [OF assms(3)] freeze_again [OF assms(3)]
    tree_run_frozen [OF assms(1,2)]
  by (simp add: decl_method_def ensure_mutable_def)

definition zone_created :: channel_data where
  "zone_created = clock_channel\<lparr>cd_name := ''clock.zone'', cd_namespace := ''clock.zone''\<rparr>"

definition zone_channel :: channel_data where
  "zone_channel = zone_created\<lparr>cd_names := [''clock.zone.tick''],
     cd_routes := [\<lparr>ro_name = ''clock.zone.tick'', ro_function = tick_fn, ro_summary = Some ''Ticks.'', ro_raises = [],
       ro_scope = 0, ro_timeout = Some 5, ro_has_timeout = True, ro_idempotent = False\<rparr>]\<rparr>"

definition clock_tree :: channel where
  "clock_tree = Channel clock_ticking [Channel zone_channel []]"

definition plain_pydantic :: pydantic where
  "plain_pydantic =
     \<lparr>py_wire_model = (\<lambda>c. c), py_schema = (\<lambda>a. True), py_type_const = (\<lambda>c. None),
      py_path_model = (\<lambda>fs. True)\<rparr>"

definition tick_method :: "string \<Rightarrow> string option \<Rightarrow> rat option \<Rightarrow> bool \<Rightarrow> method_def" where
  "tick_method n s t i =
     \<lparr>md_name = n, md_handler_name = ''tick'', md_request_name = ''TickRequest'', md_params = None,
      md_result = AnnClass cls_NoneType, md_summary = s, md_raises = [], md_server = None,
      md_function = Some tick_fn, md_injected = [], md_scope = Some 0, md_params_parameter = None,
      md_params_origin = None, md_timeout = t, md_has_timeout = (t \<noteq> None), md_idempotent = i\<rparr>"

lemma tick_route:
  "route_definition py \<lparr>ro_name = n, ro_function = tick_fn, ro_summary = s, ro_raises = [],
     ro_scope = 0, ro_timeout = t, ro_has_timeout = (t \<noteq> None), ro_idempotent = i\<rparr> = Inr (tick_method n s t i)"
proof -
  have "pascal_case ''tick'' @ ''Request'' = ''TickRequest''" by code_simp
  moreover have "wire_annotation py (AnnClass cls_NoneType) = AnnClass cls_NoneType"
    by (simp add: issubclass_def cls_NoneType_def cls_BaseModel_def builtin_class_def)
  ultimately show ?thesis
    by (simp add: route_definition_def method_definition_def router_params_model_def split_parameters_def
        result_annotation_def tick_fn_def tick_method_def)
qed

lemma tick_check: "check_raises (n, md_raises (tick_method m s t i)) = Inr ()"
  by (simp add: check_raises_def tick_method_def bind_contracts_def List.map_filter_simps)

lemma clock_frozen:
  "\<exists>p ch'. channel_freeze py clock_tree = Inr (p, ch')
     \<and> map md_name (dict_vals (pc_methods p)) = [''clock.tick'', ''clock.zone.tick'']
     \<and> request_names (dict_vals (pc_methods p)) = [''ClockTickRequest'', ''ClockZoneTickRequest'']"
proof -
  have r: "request_name ''clock.tick'' = ''ClockTickRequest''"
    "request_name ''clock.zone.tick'' = ''ClockZoneTickRequest''" by code_simp+
  note t1 = tick_route [of _ _ _ None, simplified] and t2 = tick_route [of _ _ _ "Some 5", simplified]
  have c: "check_raises (n, md_raises (tick_method m s t i\<lparr>md_request_name := q\<rparr>)) = Inr ()" for n m s t i q
    using tick_check [of n m s t i] by (simp add: check_raises_def)
  show ?thesis
    by (simp add: clock_tree_def clock_ticking_def clock_channel_def zone_channel_def zone_created_def t1 t2
        protocol_init_def unique_def unique_step_def dict_has_iff rename_requests_def request_names_def
        Let_def c tick_check)
      (simp add: tick_method_def r)
qed

lemma nothing_raised: "error_declarations [] o' = Inr []" "merge_error_declarations [] [] o' = Inr []"
  by (simp_all add: merge_error_declarations_def error_declarations_def bind_contracts_def map_error_def
      List.map_filter_simps)

lemma zone_added: "channel_child ''zone'' [] None (Channel clock_ticking []) = Inr (Channel clock_ticking [Channel zone_created []])"
proof -
  have "valid_name ''zone''" "valid_name ''clock.zone''" "join_rpc_name [''clock'', ''zone''] = ''clock.zone''"
    by code_simp+
  then show ?thesis
    by (simp add: channel_child_def ensure_mutable_def check_name_def merged_raises_def nothing_raised map_error_def
        clock_ticking_def channel_create_def normalize_namespace_def Let_def)
      (simp add: clock_channel_def zone_created_def check_name_def nothing_raised map_error_def)
qed

lemma zone_declared: "decl_method NoName None [] (TimeoutAfter (NumInt 5)) False tick_fn zone_created = Inr zone_channel"
proof -
  have f: "is_free_function tick_fn" "summary_of None tick_fn = Some ''Ticks.''"
    "join_rpc_name [''clock.zone'', ''tick''] = ''clock.zone.tick''" by code_simp+
  have t: "\<not> bad_timeout (TimeoutAfter (NumInt 5))" by code_simp
  have k: "fn_is_function tick_fn" "fn_kind tick_fn = CoroutineFunction" "fn_name tick_fn = ''tick''"
    by (simp_all add: tick_fn_def)
  show ?thesis
    by (simp add: decl_method_def ensure_mutable_def t validate_function_def f k merged_raises_def nothing_raised
        map_error_def reserve_name_def timeout_value_def zone_channel_def zone_created_def clock_channel_def Let_def)
qed

lemma clock_tree_built: "(tree_step py)\<^sup>*\<^sup>* (Channel clock_channel []) clock_tree"
proof -
  have m: "\<forall>d d'. decl_method NoName None [] t i tick_fn d = Inr d' \<longrightarrow> decl_step py d d'" for t i
    by (blast intro: decl_step.Method)
  have "tree_step py (Channel clock_channel []) (Channel clock_ticking [])"
    by (rule tree_step.Declare [OF m, of "[]" InheritTimeout True]) (simp add: declare_in_def clock_declared)
  moreover have "tree_step py (Channel clock_ticking []) (Channel clock_ticking [Channel zone_created []])"
    by (rule tree_step.Child [of "[]" "''zone''" "[]" None]) (simp add: zone_added)
  moreover have "tree_step py (Channel clock_ticking [Channel zone_created []]) clock_tree"
    by (rule tree_step.Declare [OF m, of "[0]" "TimeoutAfter (NumInt 5)" False])
      (simp add: declare_in_def zone_declared clock_tree_def)
  ultimately show ?thesis by (meson rtranclp.rtrancl_into_rtrancl rtranclp.rtrancl_refl)
qed

lemma channel_freeze_flattens_witness:
  "\<exists>p ch'. channel_freeze plain_pydantic clock_tree = Inr (p, ch')
     \<and> map method_operation (dict_vals (pc_methods p)) =
         [(''clock.tick'', Some tick_fn, [], None, False, True),
          (''clock.zone.tick'', Some tick_fn, [], Some 5, True, False)]"
proof -
  from clock_frozen obtain p ch' where f: "channel_freeze plain_pydantic clock_tree = Inr (p, ch')" by blast
  have "tree_methods clock_tree =
      [(''clock.tick'', Some tick_fn, [], None, False, True),
       (''clock.zone.tick'', Some tick_fn, [], Some 5, True, False)]"
    by (simp add: clock_tree_def clock_ticking_def zone_channel_def zone_created_def clock_channel_def tree_methods_def
        route_operation_def)
  with channel_freeze_flattens [OF clock_created clock_tree_built f] f show ?thesis by auto
qed

section \<open>Request names\<close>

definition shared_request :: "method_def list \<Rightarrow> method_def \<Rightarrow> bool" where
  "shared_request ms m = (1 < count_list (request_names ms) (md_request_name m))"

lemma distinct_unshared: "distinct (map f (filter (\<lambda>m. \<not> 1 < count_list (map f xs) (f m)) xs))"
proof -
  have "distinct (map f (filter (\<lambda>m. \<not> 1 < N (f m)) xs))" if "\<forall>y. count_list (map f xs) y \<le> N y" for N
    using that
  proof (induction xs)
    case Nil
    then show ?case by simp
  next
    case (Cons x xs)
    have "\<forall>y. count_list (map f xs) y \<le> N y"
    proof
      fix y show "count_list (map f xs) y \<le> N y"
        using Cons.prems [rule_format, of y] by (simp split: if_splits)
    qed
    note IH = Cons.IH [OF this]
    show ?case
    proof (cases "1 < N (f x)")
      case False
      with Cons.prems [rule_format, of "f x"] have "count_list (map f xs) (f x) = 0" by simp
      then have "f x \<notin> f ` set xs" by (simp add: count_list_0_iff)
      with IH False show ?thesis by auto
    qed (use IH in simp)
  qed
  then show ?thesis by blast
qed

text \<open>C39. Request names of a protocol: \<open>freeze\<close> keeps the wire name of every method, keeps a request
  name that no other method has, and gives the methods that share one the name made of their wire
  name. The names are then unique exactly when the names made of the wire names differ from each other
  and from the names kept.\<close>

theorem request_names_renamed:
  "map md_name (rename_requests ms) = map md_name ms
   \<and> request_names (rename_requests ms) =
       map (\<lambda>m. if shared_request ms m then request_name (md_name m) else md_request_name m) ms
   \<and> (distinct (request_names (rename_requests ms)) \<longleftrightarrow>
        distinct (map (\<lambda>m. request_name (md_name m)) (filter (shared_request ms) ms))
        \<and> {request_name (md_name m) | m. m \<in> set ms \<and> shared_request ms m}
            \<inter> {md_request_name m | m. m \<in> set ms \<and> \<not> shared_request ms m} = {})"
proof (intro conjI)
  let ?f = "\<lambda>m. if shared_request ms m then request_name (md_name m) else md_request_name m"
  show "map md_name (rename_requests ms) = map md_name ms" by (simp add: rename_requests_def)
  show r: "request_names (rename_requests ms) = map ?f ms"
    by (simp add: rename_requests_def request_names_def shared_request_def)
  let ?A = "map (\<lambda>m. request_name (md_name m)) (filter (shared_request ms) ms)"
  let ?B = "map md_request_name (filter (\<lambda>m. \<not> shared_request ms m) ms)"
  have "mset (map ?f xs) = mset (map (\<lambda>m. request_name (md_name m)) (filter (shared_request ms) xs)
      @ map md_request_name (filter (\<lambda>m. \<not> shared_request ms m) xs))" for xs
    by (induction xs) auto
  then have "distinct (request_names (rename_requests ms)) = distinct (?A @ ?B)"
    unfolding r using mset_eq_imp_distinct_iff by blast
  moreover have "distinct ?B"
    using distinct_unshared [of md_request_name ms] by (simp add: shared_request_def request_names_def)
  moreover have "set ?A = {request_name (md_name m) | m. m \<in> set ms \<and> shared_request ms m}"
    "set ?B = {md_request_name m | m. m \<in> set ms \<and> \<not> shared_request ms m}" by auto
  ultimately show "distinct (request_names (rename_requests ms)) \<longleftrightarrow>
      distinct ?A \<and> {request_name (md_name m) | m. m \<in> set ms \<and> shared_request ms m}
        \<inter> {md_request_name m | m. m \<in> set ms \<and> \<not> shared_request ms m} = {}"
    by simp
qed

text \<open>A method \<open>get\<close> in two namespaces, and a method whose function is called \<open>user_get\<close>.\<close>

definition named_fn :: "string \<Rightarrow> pyfun" where
  "named_fn n = tick_fn\<lparr>fn_name := n, fn_qualname := n\<rparr>"

definition colliding_channel :: channel_data where
  "colliding_channel = clock_channel\<lparr>cd_name := ''api'', cd_namespace := [],
     cd_names := [''user.get'', ''room.get'', ''find''],
     cd_routes := map (\<lambda>(n, f). \<lparr>ro_name = n, ro_function = named_fn f, ro_summary = None, ro_raises = [],
       ro_scope = 0, ro_timeout = None, ro_has_timeout = False, ro_idempotent = False\<rparr>)
       [(''user.get'', ''get''), (''room.get'', ''get''), (''find'', ''user_get'')]\<rparr>"

lemma named_route:
  "route_definition py \<lparr>ro_name = n, ro_function = named_fn f, ro_summary = None, ro_raises = [],
     ro_scope = 0, ro_timeout = None, ro_has_timeout = False, ro_idempotent = False\<rparr> =
   Inr (tick_method n None None False\<lparr>md_handler_name := f, md_request_name := pascal_case f @ ''Request'',
     md_function := Some (named_fn f)\<rparr>)"
  using tick_route [of py n None None False]
  by (auto simp: named_fn_def tick_method_def route_definition_def method_definition_def
      router_params_model_def split_parameters_def result_annotation_def tick_fn_def rbind_eq_Inr)

text \<open>C30. Request names can still collide: three methods with different wire names, two of which share
  a request name, are frozen to methods of which two have the same request name, since the name made
  of the wire name \<open>user.get\<close> is the one of a function \<open>user_get\<close>. The schema of one request then
  replaces that of the other.\<close>

theorem request_names_collide:
  "\<exists>p ch'. channel_freeze py (Channel colliding_channel []) = Inr (p, ch')
     \<and> map md_name (dict_vals (pc_methods p)) = [''user.get'', ''room.get'', ''find'']
     \<and> request_names (dict_vals (pc_methods p)) = [''UserGetRequest'', ''RoomGetRequest'', ''UserGetRequest'']"
proof -
  have n: "pascal_case ''get'' @ ''Request'' = ''GetRequest''"
    "pascal_case ''user_get'' @ ''Request'' = ''UserGetRequest''"
    "request_name ''user.get'' = ''UserGetRequest''" "request_name ''room.get'' = ''RoomGetRequest''"
    by code_simp+
  have c: "check_raises (n, []) = Inr ()" for n
    by (simp add: check_raises_def bind_contracts_def List.map_filter_simps)
  show ?thesis
    by (simp add: colliding_channel_def clock_channel_def named_route n protocol_init_def unique_def
        unique_step_def dict_has_iff rename_requests_def request_names_def Let_def)
      (simp add: tick_method_def n c)
qed

end
