(* ===== verification/Service.thy ===== *)
theory Service
  imports Paths RpcLimits ChannelFreeze
begin

text \<open>
  \<open>service.py\<close>: a service mounts channels, binary streams and raw sockets at paths, freezes them into
  one protocol and finds the endpoint of a handshake. Channels, callbacks and middleware are
  references; \<open>world\<close> is what the references lead to. A function is its record, so the marks a decorator
  leaves on functions are a map from functions to the channel that decorated them last. What a freeze
  that fails has already frozen is not kept, and a channel below another is part of it. Left out are
  the drain, and the \<open>RuntimeWarning\<close> for error codes that share a number.
\<close>

section \<open>State\<close>

record world =
  w_channels :: "nat \<Rightarrow> channel"
  w_stream_mark :: "pyfun \<Rightarrow> nat option"
  w_raw_mark :: "pyfun \<Rightarrow> nat option"

text \<open>A socket has its channels, the fields of its path model and \<open>close_when_events_complete\<close>.\<close>

datatype endpoint_kind =
    SocketEndpoint "nat list" "string list option" bool
  | StreamEndpoint stream_def
  | RawEndpoint raw_socket_def

record endpoint =
  ep_name :: string
  ep_path :: string
  ep_kind :: endpoint_kind
  ep_error_mapper :: "nat option"
  ep_limits :: rpc_limits
  ep_subprotocol :: "string option"
  ep_summary :: "string option"
  ep_variables :: "string list"
  ep_before_accept :: "nat option"
  ep_context :: "pyclass option"
  ep_rejects :: "contract list"
  ep_middleware :: "nat list"

record service =
  sv_version :: int
  sv_error_mapper :: "nat option"
  sv_middleware :: "nat list"
  sv_limits :: rpc_limits
  sv_strict_errors :: bool
  sv_rejects :: "contract list"
  sv_endpoints :: "endpoint list"
  sv_channels :: "nat list"
  sv_mounted_streams :: "pyfun list"
  sv_mounted_raw_sockets :: "pyfun list"
  sv_protocol :: "protocol option"

datatype service_error =
    BadVersion
  | ServiceFrozen
  | PathProblem path_error
  | BadContext
  | PathModelBad
  | PathModelFields
  | NoChannels
  | NotChannels
  | ChannelMounted
  | ChannelNamesTaken
  | NotDecorated
  | MountedTwice
  | NoDefinition
  | PathParameters "string list"
  | NeedsEvents string
  | DuplicateRpcName string string string
  | DuplicateErrorCode string
  | OperationAndNamespace string
  | Definition def_error

definition definition_error :: "def_error + 'a \<Rightarrow> service_error + 'a" where
  "definition_error r = map_error Definition r"

definition declare_error :: "define_error + 'a \<Rightarrow> service_error + 'a" where
  "declare_error r = map_error (\<lambda>e. Definition (Declares e)) r"

definition service_init ::
  "int \<Rightarrow> nat option \<Rightarrow> nat list \<Rightarrow> rpc_limits option \<Rightarrow> bool \<Rightarrow> reject_item list \<Rightarrow> service_error + service" where
  "service_init version mapper middleware limits strict rejects =
     rbind (raise_if (version < 1) BadVersion) (\<lambda>_.
     rbind (declare_error (rejecting_contracts rejects ''RpcService'')) (\<lambda>cs.
     Inr \<lparr>sv_version = version, sv_error_mapper = mapper, sv_middleware = middleware,
          sv_limits = (case limits of None \<Rightarrow> default_limits | Some l \<Rightarrow> l), sv_strict_errors = strict,
          sv_rejects = cs, sv_endpoints = [], sv_channels = [], sv_mounted_streams = [],
          sv_mounted_raw_sockets = [], sv_protocol = None\<rparr>))"

section \<open>Mounting\<close>

datatype context_arg = ContextUnset | ContextClass pyclass | ContextNone | ContextOther

definition context_class :: "context_arg \<Rightarrow> pyclass option" where
  "context_class c = (case c of ContextClass k \<Rightarrow> Some k | _ \<Rightarrow> None)"

text \<open>What the three mounts have in common.\<close>

record mount_args =
  mt_path :: string
  mt_name :: "string option"
  mt_middleware :: "nat list"
  mt_limits :: "rpc_limits option"
  mt_subprotocol :: "string option"
  mt_summary :: "string option"
  mt_before_accept :: "nat option"
  mt_error_mapper :: "nat option"
  mt_context :: context_arg
  mt_rejects :: "reject_item list"

definition known_endpoints :: "service \<Rightarrow> (string \<times> string) list" where
  "known_endpoints sv = map (\<lambda>e. (ep_name e, ep_path e)) (sv_endpoints sv)"

definition begin_mount :: "mount_args \<Rightarrow> service \<Rightarrow> service_error + string list" where
  "begin_mount m sv =
     rbind (raise_if (sv_protocol sv \<noteq> None) ServiceFrozen) (\<lambda>_.
     rbind (map_error PathProblem
              (validate_endpoint (known_endpoints sv) (mt_path m) (mt_name m) (mt_subprotocol m))) (\<lambda>variables.
     rbind (raise_if (mt_context m = ContextOther) BadContext) (\<lambda>_.
     Inr variables)))"

definition quoted :: "string \<Rightarrow> string" where
  "quoted s = [CHR 0x27] @ s @ [CHR 0x27]"

text \<open>A raw socket has no error mapper.\<close>

definition finish_mount ::
  "mount_args \<Rightarrow> string list \<Rightarrow> endpoint_kind \<Rightarrow> string \<Rightarrow> service \<Rightarrow> service_error + service" where
  "finish_mount m variables kind owner sv =
     rbind (map_error PathProblem (endpoint_name (mt_name m) (mt_path m))) (\<lambda>name.
     rbind (declare_error (rejecting_contracts (mt_rejects m) (owner @ quoted (mt_path m)))) (\<lambda>cs.
     Inr (sv\<lparr>sv_endpoints := sv_endpoints sv @
       [\<lparr>ep_name = name, ep_path = mt_path m, ep_kind = kind,
         ep_error_mapper =
           (case kind of
              RawEndpoint d \<Rightarrow> None
            | _ \<Rightarrow> (case mt_error_mapper m of None \<Rightarrow> sv_error_mapper sv | e \<Rightarrow> e)),
         ep_limits = (case mt_limits m of None \<Rightarrow> sv_limits sv | Some l \<Rightarrow> l),
         ep_subprotocol = mt_subprotocol m, ep_summary = mt_summary m, ep_variables = variables,
         ep_before_accept = mt_before_accept m, ep_context = context_class (mt_context m),
         ep_rejects = cs, ep_middleware = sv_middleware sv @ mt_middleware m\<rparr>]\<rparr>)))"

datatype path_model_arg = NoPathModel | PathModelOf "string list" | PathModelOther

definition path_model_fields :: "path_model_arg \<Rightarrow> string list option" where
  "path_model_fields p = (case p of PathModelOf fs \<Rightarrow> Some fs | _ \<Rightarrow> None)"

definition channel_name :: "world \<Rightarrow> nat \<Rightarrow> string" where
  "channel_name w c = cd_name (chan_data (w_channels w c))"

text \<open>\<open>service.socket\<close>; an entry \<open>None\<close> of the channels is not an \<open>RpcChannel\<close>.\<close>

definition mount_socket ::
  "world \<Rightarrow> mount_args \<Rightarrow> nat option list \<Rightarrow> path_model_arg \<Rightarrow> bool \<Rightarrow> service \<Rightarrow> service_error + service" where
  "mount_socket w m channels pm close_when sv =
     rbind (begin_mount m sv) (\<lambda>variables.
     rbind (raise_if (pm = PathModelOther) PathModelBad) (\<lambda>_.
     rbind (raise_if (case pm of PathModelOf fs \<Rightarrow> set fs \<noteq> set variables | _ \<Rightarrow> False) PathModelFields) (\<lambda>_.
     rbind (raise_if (channels = []) NoChannels) (\<lambda>_.
     rbind (raise_if (None \<in> set channels) NotChannels) (\<lambda>_.
     let cs = map the channels in
     rbind (raise_if (list_ex (\<lambda>c. c \<in> set (sv_channels sv)) cs) ChannelMounted) (\<lambda>_.
     rbind (raise_if (\<not> distinct (map (channel_name w) (sv_channels sv @ cs))) ChannelNamesTaken) (\<lambda>_.
     rbind (finish_mount m variables (SocketEndpoint cs (path_model_fields pm) close_when) ''RPC socket '' sv) (\<lambda>sv'.
     Inr (sv'\<lparr>sv_channels := sv_channels sv' @ cs\<rparr>)))))))))"

definition add_channel :: "nat \<Rightarrow> service \<Rightarrow> service" where
  "add_channel c sv = (if c \<in> set (sv_channels sv) then sv else sv\<lparr>sv_channels := sv_channels sv @ [c]\<rparr>)"

definition missing_parameters :: "string list \<Rightarrow> string list \<Rightarrow> string list" where
  "missing_parameters parameters variables = filter (\<lambda>p. p \<notin> set variables) parameters"

text \<open>\<open>service.stream\<close>. \<open>NoDefinition\<close> is the \<open>StopIteration\<close> of \<open>next\<close>.\<close>

definition mount_stream :: "world \<Rightarrow> mount_args \<Rightarrow> pyfun \<Rightarrow> service \<Rightarrow> service_error + service" where
  "mount_stream w m f sv =
     rbind (begin_mount m sv) (\<lambda>variables.
     case w_stream_mark w f of
       None \<Rightarrow> Inl NotDecorated
     | Some c \<Rightarrow>
         rbind (raise_if (\<not> fn_is_function f) NotDecorated) (\<lambda>_.
         rbind (raise_if (f \<in> set (sv_mounted_streams sv)) MountedTwice) (\<lambda>_.
         case find (\<lambda>s. st_function s = f) (cd_streams (chan_data (w_channels w c))) of
           None \<Rightarrow> Inl NoDefinition
         | Some d \<Rightarrow>
             let missing = missing_parameters (st_path_parameters d) variables in
             rbind (raise_if (missing \<noteq> []) (PathParameters missing)) (\<lambda>_.
             rbind (finish_mount m variables (StreamEndpoint d) ''RPC stream '' sv) (\<lambda>sv'.
             Inr ((add_channel c sv')\<lparr>sv_mounted_streams := sv_mounted_streams sv' @ [f]\<rparr>))))))"

definition mount_raw_socket :: "world \<Rightarrow> mount_args \<Rightarrow> pyfun \<Rightarrow> service \<Rightarrow> service_error + service" where
  "mount_raw_socket w m f sv =
     rbind (begin_mount m sv) (\<lambda>variables.
     case w_raw_mark w f of
       None \<Rightarrow> Inl NotDecorated
     | Some c \<Rightarrow>
         rbind (raise_if (\<not> fn_is_function f) NotDecorated) (\<lambda>_.
         rbind (raise_if (f \<in> set (sv_mounted_raw_sockets sv)) MountedTwice) (\<lambda>_.
         case find (\<lambda>s. rd_function s = f) (cd_raw_sockets (chan_data (w_channels w c))) of
           None \<Rightarrow> Inl NoDefinition
         | Some d \<Rightarrow>
             let missing = missing_parameters (rd_path_parameters d) variables in
             rbind (raise_if (missing \<noteq> []) (PathParameters missing)) (\<lambda>_.
             rbind (finish_mount m variables (RawEndpoint d) ''RPC raw socket '' sv) (\<lambda>sv'.
             Inr ((add_channel c sv')\<lparr>sv_mounted_raw_sockets := sv_mounted_raw_sockets sv' @ [f]\<rparr>))))))"

section \<open>Freezing\<close>

text \<open>The lists and tables \<open>freeze\<close> fills while it goes through the endpoints, and the channels so far.\<close>

record gathered =
  ga_methods :: "method_def list"
  ga_notifications :: "notification_def list"
  ga_subscriptions :: "subscription_def list"
  ga_types :: "notification_type_def list"
  ga_streams :: "stream_def list"
  ga_raw_sockets :: "raw_socket_def list"
  ga_client_methods :: "client_method_def list"
  ga_owners :: "(string, string) dict"
  ga_errors :: "(string, error_type) dict"
  ga_channels :: "nat \<Rightarrow> channel"

definition unique_name :: "string \<Rightarrow> string \<Rightarrow> gathered \<Rightarrow> service_error + gathered" where
  "unique_name name channel g =
     (case map_of (ga_owners g) name of
        Some o' \<Rightarrow> Inl (DuplicateRpcName name o' channel)
      | None \<Rightarrow> Inr (g\<lparr>ga_owners := dict_set name channel (ga_owners g)\<rparr>))"

interpretation rpc_names: registry unique_name "\<lambda>g. dict_keys (ga_owners g)"
  by unfold_locales (auto simp: unique_name_def dict_set_fresh map_of_eq_None_iff split: option.splits)

definition enter_error :: "error_type \<Rightarrow> gathered \<Rightarrow> service_error + gathered" where
  "enter_error e g =
     (let code = ec_code (error_info e) in
      case map_of (ga_errors g) code of
        Some previous \<Rightarrow>
          if type_id previous \<noteq> type_id e then Inl (DuplicateErrorCode code)
          else Inr (g\<lparr>ga_errors := dict_set code e (ga_errors g)\<rparr>)
      | None \<Rightarrow> Inr (g\<lparr>ga_errors := dict_set code e (ga_errors g)\<rparr>))"

definition freeze_channel :: "pydantic \<Rightarrow> nat \<Rightarrow> gathered \<Rightarrow> service_error + protocol \<times> gathered" where
  "freeze_channel py c g =
     rbind (definition_error (channel_freeze py (ga_channels g c))) (\<lambda>(p, ch).
     Inr (p, g\<lparr>ga_channels := (ga_channels g)(c := ch)\<rparr>))"

text \<open>\<open>any(channel.freeze().notifications for channel in channels)\<close>.\<close>

fun any_notifications :: "pydantic \<Rightarrow> nat list \<Rightarrow> gathered \<Rightarrow> service_error + bool \<times> gathered" where
  "any_notifications py [] g = Inr (False, g)"
| "any_notifications py (c # cs) g =
     rbind (freeze_channel py c g) (\<lambda>(p, g').
       if pc_notifications p \<noteq> [] then Inr (True, g') else any_notifications py cs g')"

definition protocol_names :: "protocol \<Rightarrow> string list" where
  "protocol_names p =
     map md_name (dict_vals (pc_methods p)) @ map nd_name (dict_vals (pc_notifications p))
     @ map sd_name (dict_vals (pc_subscriptions p)) @ map cm_name (dict_vals (pc_client_methods p))"

definition protocol_raises :: "protocol \<Rightarrow> error_type list" where
  "protocol_raises p =
     concat (map md_raises (dict_vals (pc_methods p))) @ concat (map cm_raises (dict_vals (pc_client_methods p)))
     @ concat (map nd_raises (dict_vals (pc_notifications p)))
     @ concat (map sd_raises (dict_vals (pc_subscriptions p)))"

definition add_protocol :: "string \<Rightarrow> protocol \<Rightarrow> gathered \<Rightarrow> gathered" where
  "add_protocol server p g =
     g\<lparr>ga_methods := ga_methods g @ map (\<lambda>m. m\<lparr>md_server := Some server\<rparr>) (dict_vals (pc_methods p)),
       ga_notifications := ga_notifications g
         @ map (\<lambda>n. n\<lparr>nd_server := Some server\<rparr>) (dict_vals (pc_notifications p)),
       ga_subscriptions := ga_subscriptions g
         @ map (\<lambda>s. s\<lparr>sd_server := Some server\<rparr>) (dict_vals (pc_subscriptions p)),
       ga_types := ga_types g @ dict_vals (pc_notification_types p),
       ga_client_methods := ga_client_methods g
         @ map (\<lambda>m. m\<lparr>cm_server := Some server\<rparr>) (dict_vals (pc_client_methods p))\<rparr>"

definition gather_channel :: "pydantic \<Rightarrow> string \<Rightarrow> nat \<Rightarrow> gathered \<Rightarrow> service_error + gathered" where
  "gather_channel py server c g =
     rbind (freeze_channel py c g) (\<lambda>(p, g1).
     rbind (fold_res (\<lambda>n. unique_name n (cd_name (chan_data (ga_channels g1 c)))) (protocol_names p)
              (add_protocol server p g1)) (\<lambda>g2.
     fold_res enter_error (protocol_raises p) g2))"

definition gather_endpoint :: "pydantic \<Rightarrow> world \<Rightarrow> endpoint \<Rightarrow> gathered \<Rightarrow> service_error + gathered" where
  "gather_endpoint py w e g =
     (case ep_kind e of
        SocketEndpoint cs pm close_when \<Rightarrow>
          rbind (if close_when
                 then rbind (any_notifications py cs g) (\<lambda>(found, g').
                        if found then Inr g' else Inl (NeedsEvents (ep_name e)))
                 else Inr g) (\<lambda>g1.
          fold_res (gather_channel py (ep_name e)) cs g1)
      | StreamEndpoint d \<Rightarrow>
          (case w_stream_mark w (st_function d) of
             None \<Rightarrow> Inl NotDecorated
           | Some c \<Rightarrow>
               rbind (freeze_channel py c g) (\<lambda>(p, g1).
               rbind (unique_name (st_name d) (cd_name (chan_data (ga_channels g1 c))) g1) (\<lambda>g2.
               Inr (g2\<lparr>ga_streams := ga_streams g2 @ [d\<lparr>st_server := Some (ep_name e)\<rparr>]\<rparr>))))
      | RawEndpoint d \<Rightarrow>
          (case w_raw_mark w (rd_function d) of
             None \<Rightarrow> Inl NotDecorated
           | Some c \<Rightarrow>
               rbind (freeze_channel py c g) (\<lambda>(p, g1).
               rbind (unique_name (rd_name d) (cd_name (chan_data (ga_channels g1 c))) g1) (\<lambda>g2.
               Inr (g2\<lparr>ga_raw_sockets := ga_raw_sockets g2 @ [d\<lparr>rd_server := Some (ep_name e)\<rparr>]\<rparr>)))))"

definition gather_nothing :: "world \<Rightarrow> gathered" where
  "gather_nothing w =
     \<lparr>ga_methods = [], ga_notifications = [], ga_subscriptions = [], ga_types = [], ga_streams = [],
      ga_raw_sockets = [], ga_client_methods = [], ga_owners = [], ga_errors = [],
      ga_channels = w_channels w\<rparr>"

text \<open>The proper dotted prefixes of a name, and the first that is a name too.\<close>

definition name_prefixes :: "string \<Rightarrow> string list" where
  "name_prefixes n =
     (let parts = split_on (CHR ''.'') n in map (\<lambda>i. join ''.'' (take i parts)) [1..<length parts])"

definition name_clash :: "string list \<Rightarrow> string option" where
  "name_clash names = find (\<lambda>p. p \<in> set names) (concat (map name_prefixes names))"

definition service_freeze ::
  "pydantic \<Rightarrow> world \<Rightarrow> service \<Rightarrow> service_error + protocol \<times> service \<times> (nat \<Rightarrow> channel)" where
  "service_freeze py w sv =
     (case sv_protocol sv of
        Some p \<Rightarrow> Inr (p, sv, w_channels w)
      | None \<Rightarrow>
          rbind (fold_res (gather_endpoint py w) (sv_endpoints sv) (gather_nothing w)) (\<lambda>g.
          rbind (case name_clash (dict_keys (ga_owners g)) of
                   Some p \<Rightarrow> Inl (OperationAndNamespace p) | None \<Rightarrow> Inr ()) (\<lambda>_.
          rbind (definition_error (protocol_init (rename_requests (ga_methods g)) (ga_notifications g)
                   (ga_subscriptions g) (ga_types g) (ga_streams g) (ga_client_methods g)
                   (ga_raw_sockets g) (sv_version sv))) (\<lambda>p.
          Inr (p, sv\<lparr>sv_protocol := Some p\<rparr>, ga_channels g)))))"

text \<open>\<open>RpcEndpoint.protocol\<close>: what of the service is served at one socket.\<close>

definition endpoint_protocol :: "service \<Rightarrow> protocol \<Rightarrow> endpoint \<Rightarrow> service_error + protocol" where
  "endpoint_protocol sv p e =
     definition_error (protocol_init
       (filter (\<lambda>m. md_server m = Some (ep_name e)) (dict_vals (pc_methods p)))
       (filter (\<lambda>n. nd_server n = Some (ep_name e)) (dict_vals (pc_notifications p)))
       (filter (\<lambda>s. sd_server s = Some (ep_name e)) (dict_vals (pc_subscriptions p)))
       (dict_vals (pc_notification_types p)) []
       (filter (\<lambda>m. cm_server m = Some (ep_name e)) (dict_vals (pc_client_methods p))) [] (sv_version sv))"

section \<open>Finding an endpoint\<close>

definition find_endpoint :: "string \<Rightarrow> service \<Rightarrow> endpoint option" where
  "find_endpoint name sv = find (\<lambda>e. ep_name e = name) (sv_endpoints sv)"

definition has_variables :: "endpoint \<Rightarrow> bool" where
  "has_variables e = (CHR ''{'' \<in> set (ep_path e))"

text \<open>Endpoints without a variable first, and otherwise in the order of their mounts.\<close>

definition match_order :: "service \<Rightarrow> endpoint list" where
  "match_order sv = filter (\<lambda>e. \<not> has_variables e) (sv_endpoints sv) @ filter has_variables (sv_endpoints sv)"

definition endpoint_match :: "endpoint \<Rightarrow> string \<Rightarrow> (string, string) dict option" where
  "endpoint_match e path = match_path (ep_path e) path"

definition service_match :: "service \<Rightarrow> string \<Rightarrow> (endpoint \<times> (string, string) dict) option" where
  "service_match sv path =
     first_some (\<lambda>e. map_option (\<lambda>vs. (e, vs)) (endpoint_match e path)) (match_order sv)"

definition endpoint_rejections :: "service \<Rightarrow> endpoint \<Rightarrow> service_error + rejections option" where
  "endpoint_rejections sv e =
     rbind (declare_error (contract_rejections (ep_rejects e))) (\<lambda>own.
     rbind (declare_error (contract_rejections (sv_rejects sv))) (\<lambda>shared.
     Inr (chain_rejections [own, shared])))"

text \<open>What \<open>endpoint.serve\<close> hands to the connection.\<close>

record serving =
  sg_endpoint :: endpoint
  sg_error_mapper :: "nat option"
  sg_limits :: rpc_limits
  sg_before_accept :: "nat option"
  sg_rejections :: "rejections option"

definition endpoint_serve ::
  "service \<Rightarrow> endpoint \<Rightarrow> nat option \<Rightarrow> rpc_limits option \<Rightarrow> nat option \<Rightarrow> rejections option \<Rightarrow>
   service_error + serving" where
  "endpoint_serve sv e mapper limits before rs =
     rbind (endpoint_rejections sv e) (\<lambda>own.
     Inr \<lparr>sg_endpoint = e,
          sg_error_mapper = (case ep_kind e of RawEndpoint d \<Rightarrow> None
            | _ \<Rightarrow> (case mapper of None \<Rightarrow> ep_error_mapper e | m \<Rightarrow> m)),
          sg_limits = (case limits of None \<Rightarrow> ep_limits e | Some l \<Rightarrow> l),
          sg_before_accept = (case before of None \<Rightarrow> ep_before_accept e | b \<Rightarrow> b),
          sg_rejections = chain_rejections [rs, own]\<rparr>)"

datatype served = NotFound rejection string | Served serving

definition strip_root :: "string \<Rightarrow> string \<Rightarrow> string" where
  "strip_root base path =
     (if base \<noteq> [] \<and> starts_with base path
      then (case drop (length base) path of [] \<Rightarrow> ''/'' | s \<Rightarrow> s) else path)"

definition service_serve ::
  "service \<Rightarrow> handshake \<Rightarrow> string \<Rightarrow> nat option \<Rightarrow> rpc_limits option \<Rightarrow> rejections option \<Rightarrow>
   service_error + served" where
  "service_serve sv hs base mapper limits rs =
     (case service_match sv (strip_root base (hs_path hs)) of
        None \<Rightarrow> Inr (NotFound Rej_NOT_FOUND ''Not found'')
      | Some (e, values) \<Rightarrow> rbind (endpoint_serve sv e mapper limits None rs) (\<lambda>s. Inr (Served s)))"

end
