(* ===== verification/ServiceProps.thy ===== *)
theory ServiceProps
  imports Service
begin

text \<open>
  What mounting keeps of a service, which endpoint a path reaches, and the order in which a channel
  and its streams can be mounted.
\<close>

section \<open>Mounting keeps the endpoints apart\<close>

definition endpoint_ok :: "endpoint \<Rightarrow> bool" where
  "endpoint_ok e \<longleftrightarrow>
     valid_path (ep_path e) \<and> valid_variables (ep_path e) \<and> valid_endpoint_name (ep_name e)
     \<and> ep_variables e = path_variables (ep_path e)
     \<and> (case ep_kind e of
          SocketEndpoint cs pm cl \<Rightarrow> cs \<noteq> [] \<and> (case pm of None \<Rightarrow> True | Some fs \<Rightarrow> set fs = set (ep_variables e))
        | StreamEndpoint d \<Rightarrow> set (st_path_parameters d) \<subseteq> set (ep_variables e)
        | RawEndpoint d \<Rightarrow> set (rd_path_parameters d) \<subseteq> set (ep_variables e))"

definition socket_channels :: "endpoint \<Rightarrow> nat list" where
  "socket_channels e = (case ep_kind e of SocketEndpoint cs pm cl \<Rightarrow> cs | _ \<Rightarrow> [])"

definition endpoint_streams :: "endpoint \<Rightarrow> pyfun list" where
  "endpoint_streams e = (case ep_kind e of StreamEndpoint d \<Rightarrow> [st_function d] | _ \<Rightarrow> [])"

definition endpoint_raw_sockets :: "endpoint \<Rightarrow> pyfun list" where
  "endpoint_raw_sockets e = (case ep_kind e of RawEndpoint d \<Rightarrow> [rd_function d] | _ \<Rightarrow> [])"

definition service_ok :: "service \<Rightarrow> bool" where
  "service_ok sv \<longleftrightarrow>
     distinct (map ep_name (sv_endpoints sv))
     \<and> distinct (map (\<lambda>e. normalized_path (ep_path e)) (sv_endpoints sv))
     \<and> (\<forall>e\<in>set (sv_endpoints sv). endpoint_ok e)
     \<and> distinct (sv_channels sv)
     \<and> distinct (concat (map socket_channels (sv_endpoints sv)))
     \<and> set (concat (map socket_channels (sv_endpoints sv))) \<subseteq> set (sv_channels sv)
     \<and> sv_mounted_streams sv = concat (map endpoint_streams (sv_endpoints sv))
     \<and> sv_mounted_raw_sockets sv = concat (map endpoint_raw_sockets (sv_endpoints sv))
     \<and> distinct (sv_mounted_streams sv) \<and> distinct (sv_mounted_raw_sockets sv)"

lemma map_error_Inr [simp]: "map_error f r = Inr x \<longleftrightarrow> r = Inr x"
  by (auto simp: map_error_def split: sum.splits)

lemma declare_error_Inr [simp]: "declare_error r = Inr x \<longleftrightarrow> r = Inr x"
  by (simp add: declare_error_def)

lemma definition_error_Inr [simp]: "definition_error r = Inr x \<longleftrightarrow> r = Inr x"
  by (simp add: definition_error_def)

lemma option_case_Inr:
  "(case x of None \<Rightarrow> Inl e | Some c \<Rightarrow> f c) = Inr y \<longleftrightarrow> (\<exists>c. x = Some c \<and> f c = Inr y)"
  by (cases x) auto

lemma begin_mount_variables: "begin_mount m sv = Inr vars \<Longrightarrow> vars = path_variables (mt_path m)"
  by (auto simp: begin_mount_def validate_endpoint_def rbind_eq_Inr raise_if_eq)

lemma begin_mount_Inr:
  assumes "begin_mount m sv = Inr vars" "endpoint_name (mt_name m) (mt_path m) = Inr n"
  shows "valid_path (mt_path m) \<and> valid_variables (mt_path m) \<and> valid_endpoint_name n
    \<and> vars = path_variables (mt_path m) \<and> n \<notin> ep_name ` set (sv_endpoints sv) \<and> sv_protocol sv = None
    \<and> normalized_path (mt_path m) \<notin> (\<lambda>e. normalized_path (ep_path e)) ` set (sv_endpoints sv)"
  using assms unfolding begin_mount_def validate_endpoint_def rbind_eq_Inr raise_if_eq map_error_Inr
  by (auto simp: known_endpoints_def image_image rev_image_eqI)

text \<open>What a mount that succeeds has added.\<close>

definition mounts :: "mount_args \<Rightarrow> endpoint_kind \<Rightarrow> service \<Rightarrow> service \<Rightarrow> bool" where
  "mounts m kind sv sv' \<longleftrightarrow>
     (\<exists>e. sv_endpoints sv' = sv_endpoints sv @ [e] \<and> ep_kind e = kind \<and> ep_path e = mt_path m
        \<and> ep_variables e = path_variables (mt_path m) \<and> valid_path (mt_path m) \<and> valid_variables (mt_path m)
        \<and> valid_endpoint_name (ep_name e) \<and> ep_name e \<notin> ep_name ` set (sv_endpoints sv)
        \<and> normalized_path (mt_path m) \<notin> (\<lambda>e. normalized_path (ep_path e)) ` set (sv_endpoints sv))
     \<and> sv_protocol sv = None \<and> sv_protocol sv' = None"

lemma finish_mount_mounts:
  assumes "begin_mount m sv = Inr vars" "finish_mount m vars kind owner sv = Inr sv1"
  shows "mounts m kind sv sv1 \<and> sv_channels sv1 = sv_channels sv
    \<and> sv_mounted_streams sv1 = sv_mounted_streams sv \<and> sv_mounted_raw_sockets sv1 = sv_mounted_raw_sockets sv"
proof -
  from assms(2) obtain n where n: "endpoint_name (mt_name m) (mt_path m) = Inr n"
    by (auto simp: finish_mount_def rbind_eq_Inr)
  from begin_mount_Inr [OF assms(1) n] assms(2) n show ?thesis
    by (auto simp: finish_mount_def rbind_eq_Inr mounts_def)
qed

lemma mounts_update [simp]:
  "mounts m kind sv (sv'\<lparr>sv_channels := cs\<rparr>) = mounts m kind sv sv'"
  "mounts m kind sv (sv'\<lparr>sv_mounted_streams := fs\<rparr>) = mounts m kind sv sv'"
  "mounts m kind sv (sv'\<lparr>sv_mounted_raw_sockets := fs\<rparr>) = mounts m kind sv sv'"
  "mounts m kind sv (add_channel c sv') = mounts m kind sv sv'"
  by (simp_all add: mounts_def add_channel_def)

lemma add_channel_simps [simp]:
  "sv_channels (add_channel c sv) = (if c \<in> set (sv_channels sv) then sv_channels sv else sv_channels sv @ [c])"
  "sv_mounted_streams (add_channel c sv) = sv_mounted_streams sv"
  "sv_mounted_raw_sockets (add_channel c sv) = sv_mounted_raw_sockets sv"
  "sv_endpoints (add_channel c sv) = sv_endpoints sv"
  "sv_protocol (add_channel c sv) = sv_protocol sv"
  by (simp_all add: add_channel_def)

lemma mount_socket_mounts:
  assumes "mount_socket w m cs pm cw sv = Inr sv'"
  shows "\<exists>ks. mounts m (SocketEndpoint ks (path_model_fields pm) cw) sv sv' \<and> ks = map the cs \<and> ks \<noteq> []
    \<and> (\<forall>c\<in>set ks. c \<notin> set (sv_channels sv)) \<and> distinct (map (channel_name w) (sv_channels sv @ ks))
    \<and> (case path_model_fields pm of None \<Rightarrow> True | Some fs \<Rightarrow> set fs = set (path_variables (mt_path m)))
    \<and> sv_channels sv' = sv_channels sv @ ks \<and> sv_mounted_streams sv' = sv_mounted_streams sv
    \<and> sv_mounted_raw_sockets sv' = sv_mounted_raw_sockets sv"
proof -
  from assms obtain vars sv1 where b: "begin_mount m sv = Inr vars"
    "finish_mount m vars (SocketEndpoint (map the cs) (path_model_fields pm) cw) ''RPC socket '' sv = Inr sv1"
    "sv' = sv1\<lparr>sv_channels := sv_channels sv1 @ map the cs\<rparr>"
    and c: "cs \<noteq> []" "\<not> list_ex (\<lambda>c. c \<in> set (sv_channels sv)) (map the cs)"
      "distinct (map (channel_name w) (sv_channels sv @ map the cs))"
      "\<not> (case pm of PathModelOf fs \<Rightarrow> set fs \<noteq> set vars | _ \<Rightarrow> False)"
    unfolding mount_socket_def rbind_eq_Inr raise_if_eq Let_def by auto
  have "vars = path_variables (mt_path m)"
    by (rule begin_mount_variables [OF b(1)])
  with c(4) have pm: "case path_model_fields pm of None \<Rightarrow> True | Some fs \<Rightarrow> set fs = set (path_variables (mt_path m))"
    by (cases pm) (auto simp: path_model_fields_def)
  from finish_mount_mounts [OF b(1,2)] c pm show ?thesis
    by (intro exI [of _ "map the cs"]) (simp add: b(3) list_ex_iff)
qed

lemma mount_stream_mounts:
  assumes "mount_stream w m f sv = Inr sv'"
  shows "\<exists>c d. w_stream_mark w f = Some c \<and> st_function d = f \<and> mounts m (StreamEndpoint d) sv sv'
    \<and> set (st_path_parameters d) \<subseteq> set (path_variables (mt_path m))
    \<and> f \<notin> set (sv_mounted_streams sv) \<and> sv_mounted_streams sv' = sv_mounted_streams sv @ [f]
    \<and> sv_channels sv' = sv_channels (add_channel c sv) \<and> sv_mounted_raw_sockets sv' = sv_mounted_raw_sockets sv"
proof -
  from assms obtain vars c d sv1 where b: "begin_mount m sv = Inr vars"
    "finish_mount m vars (StreamEndpoint d) ''RPC stream '' sv = Inr sv1"
    "sv' = (add_channel c sv1)\<lparr>sv_mounted_streams := sv_mounted_streams sv1 @ [f]\<rparr>"
    and c: "w_stream_mark w f = Some c" "f \<notin> set (sv_mounted_streams sv)"
      "find (\<lambda>s. st_function s = f) (cd_streams (chan_data (w_channels w c))) = Some d"
      "missing_parameters (st_path_parameters d) vars = []"
    unfolding mount_stream_def rbind_eq_Inr option_case_Inr raise_if_eq Let_def by blast
  have "vars = path_variables (mt_path m)"
    by (rule begin_mount_variables [OF b(1)])
  moreover have "st_function d = f" using c(3) by (auto simp: find_Some_iff)
  ultimately show ?thesis using finish_mount_mounts [OF b(1,2)] c
    by (intro exI [of _ c] exI [of _ d]) (auto simp: b(3) missing_parameters_def filter_empty_conv)
qed

lemma mount_raw_mounts:
  assumes "mount_raw_socket w m f sv = Inr sv'"
  shows "\<exists>c d. w_raw_mark w f = Some c \<and> rd_function d = f \<and> mounts m (RawEndpoint d) sv sv'
    \<and> set (rd_path_parameters d) \<subseteq> set (path_variables (mt_path m))
    \<and> f \<notin> set (sv_mounted_raw_sockets sv) \<and> sv_mounted_raw_sockets sv' = sv_mounted_raw_sockets sv @ [f]
    \<and> sv_channels sv' = sv_channels (add_channel c sv) \<and> sv_mounted_streams sv' = sv_mounted_streams sv"
proof -
  from assms obtain vars c d sv1 where b: "begin_mount m sv = Inr vars"
    "finish_mount m vars (RawEndpoint d) ''RPC raw socket '' sv = Inr sv1"
    "sv' = (add_channel c sv1)\<lparr>sv_mounted_raw_sockets := sv_mounted_raw_sockets sv1 @ [f]\<rparr>"
    and c: "w_raw_mark w f = Some c" "f \<notin> set (sv_mounted_raw_sockets sv)"
      "find (\<lambda>s. rd_function s = f) (cd_raw_sockets (chan_data (w_channels w c))) = Some d"
      "missing_parameters (rd_path_parameters d) vars = []"
    unfolding mount_raw_socket_def rbind_eq_Inr option_case_Inr raise_if_eq Let_def by blast
  have "vars = path_variables (mt_path m)"
    by (rule begin_mount_variables [OF b(1)])
  moreover have "rd_function d = f" using c(3) by (auto simp: find_Some_iff)
  ultimately show ?thesis using finish_mount_mounts [OF b(1,2)] c
    by (intro exI [of _ c] exI [of _ d]) (auto simp: b(3) missing_parameters_def filter_empty_conv)
qed

inductive mount_step :: "world \<Rightarrow> service \<Rightarrow> service \<Rightarrow> bool" for w where
  Socket: "mount_socket w m cs pm cw sv = Inr sv' \<Longrightarrow> mount_step w sv sv'"
| Stream: "mount_stream w m f sv = Inr sv' \<Longrightarrow> mount_step w sv sv'"
| RawSocket: "mount_raw_socket w m f sv = Inr sv' \<Longrightarrow> mount_step w sv sv'"

lemma mounts_ok:
  assumes "service_ok sv" "mounts m kind sv sv'" "endpoint_ok (last (sv_endpoints sv'))"
    and "distinct (sv_channels sv')" "set (sv_channels sv) \<subseteq> set (sv_channels sv')"
    and "(case kind of SocketEndpoint ks pm cl \<Rightarrow>
           distinct ks \<and> set ks \<inter> set (sv_channels sv) = {} \<and> set ks \<subseteq> set (sv_channels sv') | _ \<Rightarrow> True)"
    and "sv_mounted_streams sv' = sv_mounted_streams sv
           @ (case kind of StreamEndpoint d \<Rightarrow> [st_function d] | _ \<Rightarrow> [])"
    and "sv_mounted_raw_sockets sv' = sv_mounted_raw_sockets sv
           @ (case kind of RawEndpoint d \<Rightarrow> [rd_function d] | _ \<Rightarrow> [])"
    and "distinct (sv_mounted_streams sv')" "distinct (sv_mounted_raw_sockets sv')"
  shows "service_ok sv'"
proof -
  from assms(2) obtain e where e: "sv_endpoints sv' = sv_endpoints sv @ [e]" "ep_kind e = kind"
    "ep_name e \<notin> ep_name ` set (sv_endpoints sv)" "ep_path e = mt_path m"
    "normalized_path (mt_path m) \<notin> (\<lambda>e. normalized_path (ep_path e)) ` set (sv_endpoints sv)"
    unfolding mounts_def by blast
  have k: "distinct (socket_channels e)" "set (socket_channels e) \<inter> set (sv_channels sv) = {}"
    "set (socket_channels e) \<subseteq> set (sv_channels sv')"
    using assms(6) e(2) by (simp_all add: socket_channels_def split: endpoint_kind.splits)
  have s: "sv_mounted_streams sv' = sv_mounted_streams sv @ endpoint_streams e"
    "sv_mounted_raw_sockets sv' = sv_mounted_raw_sockets sv @ endpoint_raw_sockets e"
    using assms(7,8) e(2) by (simp_all add: endpoint_streams_def endpoint_raw_sockets_def)
  have o': "set (concat (map socket_channels (sv_endpoints sv))) \<subseteq> set (sv_channels sv)"
    using assms(1) by (simp add: service_ok_def)
  show ?thesis
    using assms(1,3,4,5,9,10) e k s o' unfolding service_ok_def by auto
qed

lemma mounts_endpoint_ok:
  assumes "mounts m kind sv sv'"
    and "case kind of
          SocketEndpoint cs pm cl \<Rightarrow> cs \<noteq> []
            \<and> (case pm of None \<Rightarrow> True | Some fs \<Rightarrow> set fs = set (path_variables (mt_path m)))
        | StreamEndpoint d \<Rightarrow> set (st_path_parameters d) \<subseteq> set (path_variables (mt_path m))
        | RawEndpoint d \<Rightarrow> set (rd_path_parameters d) \<subseteq> set (path_variables (mt_path m))"
  shows "endpoint_ok (last (sv_endpoints sv'))"
  using assms by (auto simp: mounts_def endpoint_ok_def split: endpoint_kind.splits option.splits)

lemma service_ok_distinct:
  "service_ok sv \<Longrightarrow>
     distinct (sv_channels sv) \<and> distinct (sv_mounted_streams sv) \<and> distinct (sv_mounted_raw_sockets sv)"
  unfolding service_ok_def by blast

lemma mount_step_ok: "mount_step w sv sv' \<Longrightarrow> service_ok sv \<Longrightarrow> service_ok sv'"
proof (induction rule: mount_step.induct)
  case (Socket m cs pm cw sv sv')
  from mount_socket_mounts [OF this(1)] obtain ks where k:
    "mounts m (SocketEndpoint ks (path_model_fields pm) cw) sv sv'" "ks \<noteq> []"
    "\<forall>c\<in>set ks. c \<notin> set (sv_channels sv)" "distinct (map (channel_name w) (sv_channels sv @ ks))"
    "case path_model_fields pm of None \<Rightarrow> True | Some fs \<Rightarrow> set fs = set (path_variables (mt_path m))"
    "sv_channels sv' = sv_channels sv @ ks" "sv_mounted_streams sv' = sv_mounted_streams sv"
    "sv_mounted_raw_sockets sv' = sv_mounted_raw_sockets sv" by blast
  have d: "distinct (sv_channels sv @ ks)" using k(4) unfolding distinct_map by blast
  have "endpoint_ok (last (sv_endpoints sv'))" using k(2,5) by (intro mounts_endpoint_ok [OF k(1)]) simp
  from mounts_ok [OF Socket(2) k(1) this] d k(2-) service_ok_distinct [OF Socket(2)] show ?case by auto
next
  case (Stream m f sv sv')
  from mount_stream_mounts [OF this(1)] obtain c d where k: "mounts m (StreamEndpoint d) sv sv'" "st_function d = f"
    "set (st_path_parameters d) \<subseteq> set (path_variables (mt_path m))" "f \<notin> set (sv_mounted_streams sv)"
    "sv_mounted_streams sv' = sv_mounted_streams sv @ [f]" "sv_channels sv' = sv_channels (add_channel c sv)"
    "sv_mounted_raw_sockets sv' = sv_mounted_raw_sockets sv" by blast
  have "endpoint_ok (last (sv_endpoints sv'))" using k(3) by (intro mounts_endpoint_ok [OF k(1)]) simp
  from mounts_ok [OF Stream(2) k(1) this] k(2-) service_ok_distinct [OF Stream(2)] show ?case
    by (simp split: if_splits) blast
next
  case (RawSocket m f sv sv')
  from mount_raw_mounts [OF this(1)] obtain c d where k: "mounts m (RawEndpoint d) sv sv'" "rd_function d = f"
    "set (rd_path_parameters d) \<subseteq> set (path_variables (mt_path m))" "f \<notin> set (sv_mounted_raw_sockets sv)"
    "sv_mounted_raw_sockets sv' = sv_mounted_raw_sockets sv @ [f]" "sv_channels sv' = sv_channels (add_channel c sv)"
    "sv_mounted_streams sv' = sv_mounted_streams sv" by blast
  have "endpoint_ok (last (sv_endpoints sv'))" using k(3) by (intro mounts_endpoint_ok [OF k(1)]) simp
  from mounts_ok [OF RawSocket(2) k(1) this] k(2-) service_ok_distinct [OF RawSocket(2)] show ?case
    by (simp split: if_splits) blast
qed

lemma mount_run_ok: "(mount_step w)\<^sup>*\<^sup>* sv sv' \<Longrightarrow> service_ok sv \<Longrightarrow> service_ok sv'"
  by (induction rule: rtranclp_induct) (auto dest: mount_step_ok)

lemma service_init_ok: "service_init v em mw l st rs = Inr sv \<Longrightarrow> service_ok sv"
  by (auto simp: service_init_def rbind_eq_Inr service_ok_def)

text \<open>C17. Mounted endpoints: whatever is mounted on a new service, the endpoints have distinct, valid names
  and paths that stay distinct when their variables lose their names, the fields of a path model and
  the parameters of a stream or raw socket are variables of the path, no channel is mounted at two
  sockets, and no stream or raw socket is mounted twice.\<close>

theorem service_mounts_ok:
  assumes "service_init v em mw l st rs = Inr sv0" and "(mount_step w)\<^sup>*\<^sup>* sv0 sv"
  shows "distinct (map ep_name (sv_endpoints sv))
    \<and> distinct (map (\<lambda>e. normalized_path (ep_path e)) (sv_endpoints sv))
    \<and> (\<forall>e\<in>set (sv_endpoints sv). endpoint_ok e)
    \<and> distinct (concat (map socket_channels (sv_endpoints sv)))
    \<and> distinct (concat (map endpoint_streams (sv_endpoints sv)))
    \<and> distinct (concat (map endpoint_raw_sockets (sv_endpoints sv)))
    \<and> (\<forall>e\<in>set (sv_endpoints sv). find_endpoint (ep_name e) sv = Some e)"
proof -
  from mount_run_ok [OF assms(2) service_init_ok [OF assms(1)]] have ok: "service_ok sv" .
  then have d: "distinct (map ep_name (sv_endpoints sv))" by (simp add: service_ok_def)
  have "\<forall>e\<in>set es. find (\<lambda>e'. ep_name e' = ep_name e) es = Some e" if "distinct (map ep_name es)" for es
    using that by (induction es) (auto simp: rev_image_eqI)
  from this [OF d] ok show ?thesis unfolding service_ok_def find_endpoint_def by auto
qed

text \<open>A service with the channel of the clock at a socket, and one with a stream of it as well.\<close>

definition ticks_fn :: pyfun where
  "ticks_fn = tick_fn\<lparr>fn_name := ''ticks'', fn_qualname := ''ticks'', fn_kind := AsyncGenFunction,
     fn_return := Some (AnnAsyncIter (AnnClass cls_bytes))\<rparr>"

definition ticks_stream :: stream_def where
  "ticks_stream =
     \<lparr>st_name = ''clock.ticks'', st_function = ticks_fn, st_content_type = ''application/octet-stream'',
      st_summary = None, st_injected = [], st_scope = 0, st_server = None, st_direction = ServerToClient,
      st_input_content_type = None, st_path_parameters = [], st_path_model = None\<rparr>"

definition clock_world :: world where
  "clock_world =
     \<lparr>w_channels = (\<lambda>c. Channel (clock_ticking\<lparr>cd_names := [''clock.tick'', ''clock.ticks''],
        cd_streams := [ticks_stream]\<rparr>) []),
      w_stream_mark = (\<lambda>f. if f = ticks_fn then Some 0 else None), w_raw_mark = (\<lambda>f. None)\<rparr>"

definition plain_mount :: "string \<Rightarrow> mount_args" where
  "plain_mount p =
     \<lparr>mt_path = p, mt_name = None, mt_middleware = [], mt_limits = None, mt_subprotocol = None,
      mt_summary = None, mt_before_accept = None, mt_error_mapper = None, mt_context = ContextUnset,
      mt_rejects = []\<rparr>"

definition empty_service :: service where
  "empty_service =
     \<lparr>sv_version = 1, sv_error_mapper = None, sv_middleware = [], sv_limits = default_limits,
      sv_strict_errors = False, sv_rejects = [], sv_endpoints = [], sv_channels = [],
      sv_mounted_streams = [], sv_mounted_raw_sockets = [], sv_protocol = None\<rparr>"

definition plain_endpoint :: "string \<Rightarrow> string \<Rightarrow> endpoint_kind \<Rightarrow> endpoint" where
  "plain_endpoint n p k =
     \<lparr>ep_name = n, ep_path = p, ep_kind = k, ep_error_mapper = None, ep_limits = default_limits,
      ep_subprotocol = None, ep_summary = None, ep_variables = [], ep_before_accept = None,
      ep_context = None, ep_rejects = [], ep_middleware = []\<rparr>"

definition socket_service :: service where
  "socket_service = empty_service\<lparr>sv_channels := [0],
     sv_endpoints := [plain_endpoint ''rpc'' ''/rpc'' (SocketEndpoint [0] None False)]\<rparr>"

definition clock_service :: service where
  "clock_service = socket_service\<lparr>sv_mounted_streams := [ticks_fn],
     sv_endpoints := sv_endpoints socket_service @ [plain_endpoint ''ticks'' ''/ticks'' (StreamEndpoint ticks_stream)]\<rparr>"

definition stream_service :: service where
  "stream_service = empty_service\<lparr>sv_channels := [0], sv_mounted_streams := [ticks_fn],
     sv_endpoints := [plain_endpoint ''ticks'' ''/ticks'' (StreamEndpoint ticks_stream)]\<rparr>"

lemma no_rejects: "rejecting_contracts [] o' = Inr []"
  by (simp add: rejecting_contracts_def bind_contracts_def)

lemma empty_service_init: "service_init 1 None [] None False [] = Inr empty_service"
  by (simp add: service_init_def declare_error_def map_error_def no_rejects empty_service_def)

lemma clock_paths:
  "valid_path ''/rpc''" "valid_variables ''/rpc''" "derived_endpoint_name ''/rpc'' = Inr ''rpc''"
  "valid_endpoint_name ''rpc''" "path_variables ''/rpc'' = []" "normalized_path ''/rpc'' = ''/rpc''"
  "valid_path ''/ticks''" "valid_variables ''/ticks''" "derived_endpoint_name ''/ticks'' = Inr ''ticks''"
  "valid_endpoint_name ''ticks''" "path_variables ''/ticks'' = []" "normalized_path ''/ticks'' = ''/ticks''"
  by code_simp+

lemmas mount_simps =
  begin_mount_def validate_endpoint_def finish_mount_def endpoint_name_def plain_mount_def clock_paths
  known_endpoints_def map_error_def declare_error_def no_rejects context_class_def path_model_fields_def
  add_channel_def plain_endpoint_def

lemma socket_mounted:
  "mount_socket clock_world (plain_mount ''/rpc'') [Some 0] NoPathModel False empty_service = Inr socket_service"
  by (simp add: mount_socket_def mount_simps empty_service_def socket_service_def Let_def)

lemma stream_mounted:
  "sv \<in> {socket_service, empty_service} \<Longrightarrow>
   mount_stream clock_world (plain_mount ''/ticks'') ticks_fn sv =
     Inr (if sv = empty_service then stream_service else clock_service)"
proof -
  have d: "missing_parameters (st_path_parameters ticks_stream) [] = []" "st_function ticks_stream = ticks_fn"
    "fn_is_function ticks_fn" "socket_service \<noteq> empty_service"
    by (simp_all add: ticks_stream_def missing_parameters_def ticks_fn_def tick_fn_def socket_service_def empty_service_def)
  then show "sv \<in> {socket_service, empty_service} \<Longrightarrow> ?thesis"
    by (auto simp: mount_stream_def mount_simps clock_world_def socket_service_def clock_service_def
        stream_service_def Let_def) (simp_all add: empty_service_def)
qed

lemma service_mounts_ok_witness: "find_endpoint ''ticks'' clock_service \<noteq> None \<and> service_ok clock_service"
proof -
  have run: "(mount_step clock_world)\<^sup>*\<^sup>* empty_service clock_service"
    using mount_step.Socket [OF socket_mounted] mount_step.Stream [OF stream_mounted [of socket_service]]
    by (auto simp: socket_service_def empty_service_def)
  have "plain_endpoint ''ticks'' ''/ticks'' (StreamEndpoint ticks_stream) \<in> set (sv_endpoints clock_service)"
    by (simp add: clock_service_def)
  with service_mounts_ok [OF empty_service_init run]
  have "find_endpoint ''ticks'' clock_service \<noteq> None" by (auto simp: plain_endpoint_def)
  with mount_run_ok [OF run service_init_ok [OF empty_service_init]] show ?thesis by blast
qed

section \<open>The endpoint of a path\<close>

lemma service_match_Some:
  "service_match sv path = Some (e, d) \<Longrightarrow> e \<in> set (sv_endpoints sv) \<and> endpoint_match e path = Some d"
  unfolding service_match_def match_order_def by (drule first_some_Some) auto

lemma service_match_None:
  "service_match sv path = None \<longleftrightarrow> (\<forall>e\<in>set (sv_endpoints sv). endpoint_match e path = None)"
  unfolding service_match_def match_order_def first_some_None by auto

lemma first_some_append:
  "first_some f (xs @ ys) = (case first_some f xs of None \<Rightarrow> first_some f ys | Some y \<Rightarrow> Some y)"
  by (induction xs) (auto split: option.splits)

text \<open>A template without a variable is its own and only path, up to a line break at the end.\<close>

lemma tokens_char: "CHR ''{'' \<notin> set t \<Longrightarrow> template_tokens t = map Inl t"
  by (induction t) auto

lemma normalized_plain: "CHR ''{'' \<notin> set t \<Longrightarrow> normalized_path t = t"
proof -
  have "normalized (map Inl s) = s" for s by (induction s) auto
  then show "CHR ''{'' \<notin> set t \<Longrightarrow> ?thesis" by (simp add: normalized_path_def tokens_char)
qed

lemma static_match:
  assumes "CHR ''{'' \<notin> set t"
  shows "match_path t p = (if p = t \<or> p = t @ newline then Some [] else None)"
proof -
  have "match_tokens (map Inl s) p = (if p = s \<or> p = s @ newline then Some [] else None)" for s p
    by (induction s arbitrary: p) (auto split: list.splits)
  moreover have "rights (map Inl s) = []" for s :: string by (induction s) auto
  ultimately show ?thesis using assms by (simp add: match_path_def tokens_char path_variables_def)
qed

text \<open>C23. The endpoint of a path: \<open>RpcService.match\<close> answers with a mounted endpoint whose template
  matches, with the values of that match, and with nothing exactly when no template matches. An
  endpoint without variables comes before every endpoint with variables, and a path that is the path
  of such an endpoint reaches that endpoint, unless it ends in a line break.\<close>

theorem service_match_static:
  assumes "service_init v em mw l st rs = Inr sv0" and "(mount_step w)\<^sup>*\<^sup>* sv0 sv"
  shows "(service_match sv path = None \<longleftrightarrow> (\<forall>e\<in>set (sv_endpoints sv). match_path (ep_path e) path = None))
    \<and> (service_match sv path = Some (e, d) \<longrightarrow> e \<in> set (sv_endpoints sv) \<and> match_path (ep_path e) path = Some d
         \<and> (has_variables e \<longrightarrow>
              (\<forall>e'\<in>set (sv_endpoints sv). match_path (ep_path e') path \<noteq> None \<longrightarrow> has_variables e')))
    \<and> (e \<in> set (sv_endpoints sv) \<and> \<not> has_variables e \<and> \<not> ends_with newline (ep_path e) \<longrightarrow>
         service_match sv (ep_path e) = Some (e, []))"
proof (intro conjI impI)
  show "service_match sv path = None \<longleftrightarrow> (\<forall>e\<in>set (sv_endpoints sv). match_path (ep_path e) path = None)"
    unfolding service_match_None endpoint_match_def ..
next
  assume m: "service_match sv path = Some (e, d)"
  from service_match_Some [OF m] show "e \<in> set (sv_endpoints sv)" "match_path (ep_path e) path = Some d"
    by (simp_all add: endpoint_match_def)
  assume v: "has_variables e"
  show "\<forall>e'\<in>set (sv_endpoints sv). match_path (ep_path e') path \<noteq> None \<longrightarrow> has_variables e'"
  proof (intro ballI impI, rule ccontr)
    fix e' assume e': "e' \<in> set (sv_endpoints sv)" "match_path (ep_path e') path \<noteq> None" "\<not> has_variables e'"
    let ?f = "\<lambda>e. map_option (\<lambda>vs. (e, vs)) (endpoint_match e path)"
    have "first_some ?f (filter (\<lambda>e. \<not> has_variables e) (sv_endpoints sv)) \<noteq> None"
      using e' unfolding first_some_None by (auto simp: endpoint_match_def)
    then obtain y where y: "first_some ?f (filter (\<lambda>e. \<not> has_variables e) (sv_endpoints sv)) = Some y" by blast
    from first_some_Some [OF this] have "\<not> has_variables (fst y)" by auto
    moreover have "y = (e, d)" using m y by (simp add: service_match_def match_order_def first_some_append)
    ultimately show False using v by simp
  qed
next
  assume a: "e \<in> set (sv_endpoints sv) \<and> \<not> has_variables e \<and> \<not> ends_with newline (ep_path e)"
  let ?f = "\<lambda>e'. map_option (\<lambda>vs. (e', vs)) (endpoint_match e' (ep_path e))"
  let ?static = "filter (\<lambda>e. \<not> has_variables e) (sv_endpoints sv)"
  from mount_run_ok [OF assms(2) service_init_ok [OF assms(1)]]
  have d: "distinct (map (\<lambda>e. normalized_path (ep_path e)) (sv_endpoints sv))" by (simp add: service_ok_def)
  have only: "e' = e" if "e' \<in> set ?static" "?f e' \<noteq> None" for e'
  proof -
    from that a have "ep_path e = ep_path e'"
      by (auto simp: endpoint_match_def static_match has_variables_def ends_with_iff split: if_splits)
    with inj_onD [of "\<lambda>e. normalized_path (ep_path e)" "set (sv_endpoints sv)" e' e] d a that
    show ?thesis by (simp add: distinct_map)
  qed
  have "?f e = Some (e, [])" using a by (simp add: endpoint_match_def static_match has_variables_def)
  then have "first_some ?f ?static \<noteq> None" using a unfolding first_some_None by auto
  then obtain y where y: "first_some ?f ?static = Some y" by blast
  from first_some_Some [OF this] only \<open>?f e = Some (e, [])\<close> have "y = (e, [])" by fastforce
  with y show "service_match sv (ep_path e) = Some (e, [])"
    by (simp add: service_match_def match_order_def first_some_append)
qed

lemma clock_run: "(mount_step clock_world)\<^sup>*\<^sup>* empty_service clock_service"
  using mount_step.Socket [OF socket_mounted] mount_step.Stream [OF stream_mounted [of socket_service]]
  by (auto simp: socket_service_def empty_service_def)

lemma service_match_static_witness:
  "\<exists>e. service_match clock_service ''/ticks'' = Some (e, []) \<and> ep_name e = ''ticks''"
proof -
  let ?e = "plain_endpoint ''ticks'' ''/ticks'' (StreamEndpoint ticks_stream)"
  have "?e \<in> set (sv_endpoints clock_service) \<and> \<not> has_variables ?e \<and> \<not> ends_with newline (ep_path ?e)"
    "ep_path ?e = ''/ticks''" "ep_name ?e = ''ticks''"
    by (simp_all add: clock_service_def has_variables_def plain_endpoint_def ends_with_def starts_with_def newline_def)
  with service_match_static [OF empty_service_init clock_run, where e = ?e] show ?thesis by metis
qed

section \<open>The order of mounts\<close>

text \<open>Mount order: once a stream or a raw socket of a channel is mounted, the service refuses every
  socket that serves the channel, while a stream of a channel can be mounted after its socket; so the
  same mounts are accepted in one order and refused in the other.\<close>

theorem mount_order_matters:
  assumes "mount_stream w m f sv = Inr sv1 \<and> w_stream_mark w f = Some c
      \<or> mount_raw_socket w m f sv = Inr sv1 \<and> w_raw_mark w f = Some c"
    and "mount_socket w m' cs pm cw sv1 = Inr sv2"
  shows "Some c \<notin> set cs"
proof -
  have "c \<in> set (sv_channels sv1)"
    using assms(1) by (auto dest!: mount_stream_mounts mount_raw_mounts)
  with mount_socket_mounts [OF assms(2)] show ?thesis by force
qed

lemma mount_order_matters_witness:
  "(\<exists>sv1 sv2. mount_socket clock_world (plain_mount ''/rpc'') [Some 0] NoPathModel False empty_service = Inr sv1
      \<and> mount_stream clock_world (plain_mount ''/ticks'') ticks_fn sv1 = Inr sv2)
   \<and> (\<exists>sv1. mount_stream clock_world (plain_mount ''/ticks'') ticks_fn empty_service = Inr sv1
      \<and> (\<forall>sv2. mount_socket clock_world (plain_mount ''/rpc'') [Some 0] NoPathModel False sv1 \<noteq> Inr sv2))"
proof -
  have m: "w_stream_mark clock_world ticks_fn = Some 0" by (simp add: clock_world_def)
  from stream_mounted [of empty_service]
  have s: "mount_stream clock_world (plain_mount ''/ticks'') ticks_fn empty_service = Inr stream_service" by simp
  with m mount_order_matters [OF disjI1 [OF conjI [OF s m]]] socket_mounted stream_mounted [of socket_service]
  show ?thesis by fastforce
qed

end
