(* ===== verification/ServiceFreeze.thy ===== *)
theory ServiceFreeze
  imports ServiceProps
begin

text \<open>
  What freezing a service guarantees: the names and error codes of all its operations do not clash,
  and every operation belongs to the endpoint it was mounted at.
\<close>

section \<open>What freezing gathers\<close>

definition gathered_names :: "gathered \<Rightarrow> string list" where
  "gathered_names g =
     map md_name (ga_methods g) @ map nd_name (ga_notifications g) @ map sd_name (ga_subscriptions g)
     @ map cm_name (ga_client_methods g) @ map st_name (ga_streams g) @ map rd_name (ga_raw_sockets g)"

definition gathered_raises :: "gathered \<Rightarrow> error_type set" where
  "gathered_raises g =
     (\<Union>m\<in>set (ga_methods g). set (md_raises m)) \<union> (\<Union>m\<in>set (ga_client_methods g). set (cm_raises m))
     \<union> (\<Union>n\<in>set (ga_notifications g). set (nd_raises n)) \<union> (\<Union>s\<in>set (ga_subscriptions g). set (sd_raises s))"

definition gathered_servers :: "gathered \<Rightarrow> string option set" where
  "gathered_servers g =
     md_server ` set (ga_methods g) \<union> nd_server ` set (ga_notifications g)
     \<union> sd_server ` set (ga_subscriptions g) \<union> cm_server ` set (ga_client_methods g)
     \<union> st_server ` set (ga_streams g) \<union> rd_server ` set (ga_raw_sockets g)"

abbreviation code_of :: "error_type \<Rightarrow> string" where
  "code_of e \<equiv> ec_code (error_info e)"

text \<open>Every error of the set is the one its code is known for.\<close>

definition errors_known :: "(string, error_type) dict \<Rightarrow> error_type set \<Rightarrow> bool" where
  "errors_known d E \<longleftrightarrow> (\<forall>e\<in>E. \<exists>e'. map_of d (code_of e) = Some e' \<and> type_id e' = type_id e)"

definition gathered_ok :: "string set \<Rightarrow> gathered \<Rightarrow> bool" where
  "gathered_ok S g \<longleftrightarrow>
     distinct (dict_keys (ga_owners g)) \<and> mset (dict_keys (ga_owners g)) = mset (gathered_names g)
     \<and> errors_known (ga_errors g) (gathered_raises g) \<and> gathered_servers g \<subseteq> Some ` S"

lemma unique_name_Inr:
  "unique_name n c g = Inr g' \<longleftrightarrow>
     n \<notin> set (dict_keys (ga_owners g)) \<and> g' = g\<lparr>ga_owners := ga_owners g @ [(n, c)]\<rparr>"
  by (auto simp: unique_name_def map_of_eq_None_iff dict_set_fresh split: option.splits)
    (auto simp: map_of_eq_None_iff [symmetric])

lemma unique_names_Inr:
  "fold_res (\<lambda>n. unique_name n c) ns g = Inr g' \<Longrightarrow> distinct (dict_keys (ga_owners g)) \<Longrightarrow>
   g' = g\<lparr>ga_owners := ga_owners g @ map (\<lambda>n. (n, c)) ns\<rparr> \<and> distinct (dict_keys (ga_owners g) @ ns)"
proof (induction ns arbitrary: g)
  case Nil
  then show ?case by simp
next
  case (Cons n ns)
  then obtain g1 where g1: "unique_name n c g = Inr g1" "fold_res (\<lambda>n. unique_name n c) ns g1 = Inr g'"
    by (auto simp: rbind_eq_Inr)
  from g1(1) Cons.prems(2) have "distinct (dict_keys (ga_owners g1))" by (auto simp: unique_name_Inr)
  from Cons.IH [OF g1(2) this] g1(1) Cons.prems(2) show ?case by (auto simp: unique_name_Inr)
qed

lemma enter_error_Inr:
  assumes "enter_error e g = Inr g'" "errors_known (ga_errors g) E"
  shows "(\<exists>d. g' = g\<lparr>ga_errors := d\<rparr>) \<and> errors_known (ga_errors g') (insert e E)"
  using assms by (auto simp: enter_error_def errors_known_def Let_def dict_simps split: option.splits if_splits)
    fastforce+

lemma enter_errors_Inr:
  "fold_res enter_error es g = Inr g' \<Longrightarrow> errors_known (ga_errors g) E \<Longrightarrow>
   (\<exists>d. g' = g\<lparr>ga_errors := d\<rparr>) \<and> errors_known (ga_errors g') (set es \<union> E)"
proof (induction es arbitrary: g E)
  case Nil
  then show ?case by (auto intro: exI [of _ "ga_errors g"])
next
  case (Cons e es)
  then obtain g1 where g1: "enter_error e g = Inr g1" "fold_res enter_error es g1 = Inr g'"
    by (auto simp: rbind_eq_Inr)
  from enter_error_Inr [OF g1(1) Cons.prems(2)] Cons.IH [OF g1(2)] show ?case by fastforce
qed

lemma freeze_channel_Inr: "freeze_channel py c g = Inr (p, g') \<Longrightarrow> \<exists>f. g' = g\<lparr>ga_channels := f\<rparr>"
  by (auto simp: freeze_channel_def rbind_eq_Inr)

lemma gathered_ok_channels [simp]: "gathered_ok S (g\<lparr>ga_channels := f\<rparr>) = gathered_ok S g"
  by (simp add: gathered_ok_def gathered_names_def gathered_raises_def gathered_servers_def)

lemma any_notifications_Inr: "any_notifications py cs g = Inr (b, g') \<Longrightarrow> \<exists>f. g' = g\<lparr>ga_channels := f\<rparr>"
proof (induction cs arbitrary: g)
  case Nil
  then show ?case by (auto intro: exI [of _ "ga_channels g"])
next
  case (Cons c cs)
  then obtain p g1 where g1: "freeze_channel py c g = Inr (p, g1)"
    "(if pc_notifications p \<noteq> [] then Inr (True, g1) else any_notifications py cs g1) = Inr (b, g')"
    by (auto simp: rbind_eq_Inr)
  from freeze_channel_Inr [OF g1(1)] g1(2) Cons.IH [of g1] show ?case by (auto split: if_splits)
qed

lemma gathered_tables [simp]:
  "gathered_names (g\<lparr>ga_owners := o', ga_errors := d\<rparr>) = gathered_names g"
  "gathered_raises (g\<lparr>ga_owners := o', ga_errors := d\<rparr>) = gathered_raises g"
  "gathered_servers (g\<lparr>ga_owners := o', ga_errors := d\<rparr>) = gathered_servers g"
  by (simp_all add: gathered_names_def gathered_raises_def gathered_servers_def)

lemma add_protocol_names: "mset (gathered_names (add_protocol s p g)) = mset (gathered_names g) + mset (protocol_names p)"
  by (simp add: gathered_names_def add_protocol_def protocol_names_def comp_def)

lemma add_protocol_raises: "gathered_raises (add_protocol s p g) = set (protocol_raises p) \<union> gathered_raises g"
  by (simp add: gathered_raises_def add_protocol_def protocol_raises_def image_image) blast

lemma add_protocol_servers: "gathered_servers (add_protocol s p g) \<subseteq> insert (Some s) (gathered_servers g)"
  by (auto simp: gathered_servers_def add_protocol_def)

lemma add_protocol_tables [simp]:
  "ga_owners (add_protocol s p g) = ga_owners g" "ga_errors (add_protocol s p g) = ga_errors g"
  by (simp_all add: add_protocol_def)

lemma gather_channel_ok:
  assumes "gather_channel py s c g = Inr g'" "gathered_ok S g" "s \<in> S"
  shows "gathered_ok S g'"
proof -
  let ?c = "\<lambda>g. cd_name (chan_data (ga_channels g c))"
  from assms(1) obtain p g1 g2 where g: "freeze_channel py c g = Inr (p, g1)"
    "fold_res (\<lambda>n. unique_name n (?c g1)) (protocol_names p) (add_protocol s p g1) = Inr g2"
    "fold_res enter_error (protocol_raises p) g2 = Inr g'"
    by (auto simp: gather_channel_def rbind_eq_Inr)
  from freeze_channel_Inr [OF g(1)] assms(2) have ok: "gathered_ok S g1" by auto
  then have d: "distinct (dict_keys (ga_owners (add_protocol s p g1)))" by (simp add: gathered_ok_def)
  note u = unique_names_Inr [OF g(2) d]
  have k: "errors_known (ga_errors g2) (gathered_raises g1)" using u ok by (simp add: gathered_ok_def)
  from enter_errors_Inr [OF g(3) k] obtain es where
    es: "g' = g2\<lparr>ga_errors := es\<rparr>" "errors_known es (set (protocol_raises p) \<union> gathered_raises g1)" by auto
  from u have g': "g' = (add_protocol s p g1)\<lparr>ga_owners := ga_owners g1 @ map (\<lambda>n. (n, ?c g1)) (protocol_names p),
      ga_errors := es\<rparr>" and dn: "distinct (dict_keys (ga_owners g1) @ protocol_names p)" by (simp_all add: es(1))
  have "gathered_servers g' \<subseteq> Some ` S"
    using add_protocol_servers [of s p g1] ok assms(3) unfolding g' by (auto simp: gathered_ok_def)
  moreover have "errors_known (ga_errors g') (gathered_raises g')"
    using es(2) unfolding g' by (simp add: add_protocol_raises)
  moreover have "mset (dict_keys (ga_owners g')) = mset (gathered_names g')"
    using ok unfolding g' by (simp add: add_protocol_names gathered_ok_def comp_def)
  moreover have "distinct (dict_keys (ga_owners g'))"
    using dn unfolding g' by (simp add: comp_def)
  ultimately show ?thesis by (simp add: gathered_ok_def)
qed

lemma gather_endpoint_ok:
  assumes "gather_endpoint py w e g = Inr g'" "gathered_ok S g" "ep_name e \<in> S"
  shows "gathered_ok S g'"
proof (cases "ep_kind e")
  case (SocketEndpoint cs pm cw)
  with assms(1) obtain g1 where g1: "(\<exists>f. g1 = g\<lparr>ga_channels := f\<rparr>)"
    "fold_res (gather_channel py (ep_name e)) cs g1 = Inr g'"
    by (cases cw)
      (auto simp: gather_endpoint_def rbind_eq_Inr split: if_splits dest!: any_notifications_Inr,
        metis gathered.update_convs(10) gathered.surjective)
  from g1(1) assms(2) have "gathered_ok S g1" by auto
  with g1(2) show ?thesis
    by (rule fold_res_invariant) (use assms(3) gather_channel_ok in blast)
next
  case (StreamEndpoint d)
  with assms(1) obtain p c g1 g2 where g: "freeze_channel py c g = Inr (p, g1)"
    "unique_name (st_name d) (cd_name (chan_data (ga_channels g1 c))) g1 = Inr g2"
    "g' = g2\<lparr>ga_streams := ga_streams g2 @ [d\<lparr>st_server := Some (ep_name e)\<rparr>]\<rparr>"
    by (auto simp: gather_endpoint_def option_case_Inr rbind_eq_Inr)
  from freeze_channel_Inr [OF g(1)] assms(2) have "gathered_ok S g1" by auto
  with g(2) assms(3) show ?thesis
    by (auto simp: g(3) gathered_ok_def unique_name_Inr gathered_names_def gathered_raises_def gathered_servers_def)
next
  case (RawEndpoint d)
  with assms(1) obtain p c g1 g2 where g: "freeze_channel py c g = Inr (p, g1)"
    "unique_name (rd_name d) (cd_name (chan_data (ga_channels g1 c))) g1 = Inr g2"
    "g' = g2\<lparr>ga_raw_sockets := ga_raw_sockets g2 @ [d\<lparr>rd_server := Some (ep_name e)\<rparr>]\<rparr>"
    by (auto simp: gather_endpoint_def option_case_Inr rbind_eq_Inr)
  from freeze_channel_Inr [OF g(1)] assms(2) have "gathered_ok S g1" by auto
  with g(2) assms(3) show ?thesis
    by (auto simp: g(3) gathered_ok_def unique_name_Inr gathered_names_def gathered_raises_def gathered_servers_def)
qed

lemma gather_all_ok:
  assumes "fold_res (gather_endpoint py w) es (gather_nothing w) = Inr g"
  shows "gathered_ok (ep_name ` set es) g"
proof -
  have "gathered_ok (ep_name ` set es) (gather_nothing w)"
    by (simp add: gathered_ok_def gather_nothing_def gathered_names_def gathered_raises_def
        gathered_servers_def errors_known_def)
  with assms show ?thesis by (rule fold_res_invariant) (auto intro: gather_endpoint_ok)
qed

section \<open>The frozen service\<close>

definition service_names :: "protocol \<Rightarrow> string list" where
  "service_names p =
     protocol_names p @ map st_name (dict_vals (pc_streams p)) @ map rd_name (dict_vals (pc_raw_sockets p))"

lemma join_dot: "xs \<noteq> [] \<Longrightarrow> ys \<noteq> [] \<Longrightarrow> join ''.'' (xs @ ys) = join ''.'' xs @ CHR ''.'' # join ''.'' ys"
proof (induction xs)
  case (Cons x xs)
  then show ?case by (cases xs) (auto simp: join_cons)
qed simp

text \<open>The prefixes of a name are what is before one of its dots.\<close>

lemma name_prefixes_iff: "m \<in> set (name_prefixes n) \<longleftrightarrow> (\<exists>r. n = m @ CHR ''.'' # r)"
proof
  assume "m \<in> set (name_prefixes n)"
  then obtain i where i: "1 \<le> i" "i < length (split_on (CHR ''.'') n)"
    "m = join ''.'' (take i (split_on (CHR ''.'') n))" by (auto simp: name_prefixes_def Let_def)
  then have "n = m @ CHR ''.'' # join ''.'' (drop i (split_on (CHR ''.'') n))"
    using join_dot [of "take i (split_on (CHR ''.'') n)" "drop i (split_on (CHR ''.'') n)"]
    by (simp add: join_split)
  then show "\<exists>r. n = m @ CHR ''.'' # r" ..
next
  assume "\<exists>r. n = m @ CHR ''.'' # r"
  then obtain r where r: "n = m @ CHR ''.'' # r" ..
  then have "split_on (CHR ''.'') n = split_on (CHR ''.'') m @ split_on (CHR ''.'') r"
    by (simp add: split_join_dot)
  moreover have "1 \<le> length (split_on (CHR ''.'') x)" for x
    using split_on_ne [of "CHR ''.''" x] by (cases "split_on (CHR ''.'') x") simp_all
  ultimately show "m \<in> set (name_prefixes n)"
    by (auto simp: name_prefixes_def Let_def join_split intro!: image_eqI [of _ _ "length (split_on (CHR ''.'') m)"])
qed

lemma service_freeze_open:
  assumes "service_freeze py w sv = Inr (p, sv', chs)" "sv_protocol sv = None"
  obtains g where "fold_res (gather_endpoint py w) (sv_endpoints sv) (gather_nothing w) = Inr g"
    "name_clash (dict_keys (ga_owners g)) = None"
    "protocol_init (rename_requests (ga_methods g)) (ga_notifications g) (ga_subscriptions g) (ga_types g)
       (ga_streams g) (ga_client_methods g) (ga_raw_sockets g) (sv_version sv) = Inr p"
    "sv' = sv\<lparr>sv_protocol := Some p\<rparr>" "chs = ga_channels g"
  using assms by (auto simp: service_freeze_def rbind_eq_Inr split: option.splits)

lemma rename_raises [simp]:
  "map md_raises (rename_requests ms) = map md_raises ms" "map md_name (rename_requests ms) = map md_name ms"
  "map md_server (rename_requests ms) = map md_server ms"
  by (simp_all add: rename_requests_def)

lemma rename_server: "m \<in> set (rename_requests ms) \<Longrightarrow> md_server m \<in> md_server ` set ms"
  by (auto simp: rename_requests_def split: if_splits)

lemma mount_step_open: "mount_step w sv sv' \<Longrightarrow> sv_protocol sv = None"
  by (induction rule: mount_step.induct)
    (blast dest: mount_socket_mounts mount_stream_mounts mount_raw_mounts mounts_def [THEN iffD1])+

text \<open>C18. A frozen service: no two of its methods, events, subscriptions, client methods, streams and raw
  sockets have the same name, none has a name that is a namespace of another, and errors with the same
  code are the same error; after it, nothing can be mounted, and freezing again gives the same
  protocol.\<close>

theorem service_freeze_names:
  assumes "service_freeze py w sv = Inr (p, sv', chs)" and "sv_protocol sv = None"
  shows "distinct (service_names p)
    \<and> (\<forall>m\<in>set (service_names p). \<forall>n\<in>set (service_names p). \<forall>r. n \<noteq> m @ CHR ''.'' # r)
    \<and> (\<forall>e\<in>set (protocol_raises p). \<forall>f\<in>set (protocol_raises p). code_of e = code_of f \<longrightarrow> type_id e = type_id f)
    \<and> service_freeze py w' sv' = Inr (p, sv', w_channels w') \<and> \<not> mount_step w' sv' sv''"
proof -
  from assms obtain g where g: "fold_res (gather_endpoint py w) (sv_endpoints sv) (gather_nothing w) = Inr g"
    "name_clash (dict_keys (ga_owners g)) = None"
    "protocol_init (rename_requests (ga_methods g)) (ga_notifications g) (ga_subscriptions g) (ga_types g)
       (ga_streams g) (ga_client_methods g) (ga_raw_sockets g) (sv_version sv) = Inr p"
    and sv': "sv' = sv\<lparr>sv_protocol := Some p\<rparr>" by (rule service_freeze_open)
  note ok = gather_all_ok [OF g(1)] and tables = protocol_init_ok [OF g(3)]
  have n: "mset (service_names p) = mset (gathered_names g)"
    using tables by (simp add: service_names_def protocol_names_def gathered_names_def)
  then have s: "set (service_names p) = set (dict_keys (ga_owners g))" "distinct (service_names p)"
    using ok mset_eq_setD mset_eq_imp_distinct_iff unfolding gathered_ok_def by metis+
  have "\<forall>n\<in>set (service_names p). \<forall>m\<in>set (name_prefixes n). m \<notin> set (service_names p)"
    using g(2) unfolding name_clash_def s(1) by (auto simp: find_None_iff)
  then have "\<forall>m\<in>set (service_names p). \<forall>n\<in>set (service_names p). \<forall>r. n \<noteq> m @ CHR ''.'' # r"
    using name_prefixes_iff by blast
  moreover have "set (protocol_raises p) = gathered_raises g"
    using tables unfolding protocol_raises_def gathered_raises_def by auto
  then have "\<forall>e\<in>set (protocol_raises p). \<forall>f\<in>set (protocol_raises p). code_of e = code_of f \<longrightarrow> type_id e = type_id f"
    using ok unfolding gathered_ok_def errors_known_def by (metis option.inject)
  moreover have "\<not> mount_step w' sv' sv''"
    using mount_step_open [of w' sv' sv''] by (auto simp: sv')
  moreover have "service_freeze py w' sv' = Inr (p, sv', w_channels w')" by (simp add: service_freeze_def sv')
  ultimately show ?thesis using s(2) by (intro conjI)
qed

section \<open>The protocol of a socket\<close>

lemma protocol_init_Inr:
  "(\<exists>p. protocol_init ms ns ss ts sts cs rs v = Inr p) \<longleftrightarrow>
     distinct (map md_name ms) \<and> distinct (map nd_name ns) \<and> distinct (map sd_name ss) \<and> distinct (map nt_name ts)
     \<and> distinct (map st_name sts) \<and> distinct (map cm_name cs) \<and> distinct (map rd_name rs)
     \<and> (\<forall>op \<in> set (map (\<lambda>m. (md_name m, md_raises m)) ms @ map (\<lambda>m. (nd_name m, nd_raises m)) ns
          @ map (\<lambda>m. (sd_name m, sd_raises m)) ss). check_raises op = Inr ())"
  (is "?l \<longleftrightarrow> ?r")
proof -
  have t: "(\<exists>ys. traverse check_raises xs = Inr ys) \<longleftrightarrow> (\<forall>x\<in>set xs. check_raises x = Inr ())" for xs
    by (induction xs) (auto simp: rbind_eq_Inr)
  show ?thesis unfolding protocol_init_def rbind_eq_Inr unique_Inr t [symmetric] by (auto simp: comp_def)
qed

text \<open>The protocols of the sockets: in a frozen service every operation belongs to exactly one mounted
  endpoint, and the protocol of each endpoint exists and holds exactly the methods, events,
  subscriptions and client methods of that endpoint, in order, with its streams and raw sockets left
  out.\<close>

theorem endpoint_protocols_partition:
  assumes "service_init v em mw l st rs = Inr sv0" and "(mount_step w)\<^sup>*\<^sup>* sv0 sv"
    and "service_freeze py w sv = Inr (p, sv', chs)" and "sv_protocol sv = None"
  shows "(\<forall>m\<in>set (dict_vals (pc_methods p)). \<exists>!e. e \<in> set (sv_endpoints sv') \<and> md_server m = Some (ep_name e))
    \<and> (\<forall>e\<in>set (sv_endpoints sv'). \<exists>q. endpoint_protocol sv' p e = Inr q
        \<and> dict_vals (pc_methods q) = filter (\<lambda>m. md_server m = Some (ep_name e)) (dict_vals (pc_methods p))
        \<and> dict_vals (pc_notifications q) = filter (\<lambda>n. nd_server n = Some (ep_name e)) (dict_vals (pc_notifications p))
        \<and> dict_vals (pc_subscriptions q) = filter (\<lambda>s. sd_server s = Some (ep_name e)) (dict_vals (pc_subscriptions p))
        \<and> dict_vals (pc_client_methods q) = filter (\<lambda>m. cm_server m = Some (ep_name e)) (dict_vals (pc_client_methods p))
        \<and> pc_streams q = [] \<and> pc_raw_sockets q = [])"
proof (intro conjI ballI)
  from assms(3,4) obtain g where g: "fold_res (gather_endpoint py w) (sv_endpoints sv) (gather_nothing w) = Inr g"
    "protocol_init (rename_requests (ga_methods g)) (ga_notifications g) (ga_subscriptions g) (ga_types g)
       (ga_streams g) (ga_client_methods g) (ga_raw_sockets g) (sv_version sv) = Inr p"
    and sv': "sv' = sv\<lparr>sv_protocol := Some p\<rparr>" by (rule service_freeze_open)
  note ok = gather_all_ok [OF g(1)] and tables = protocol_init_ok [OF g(2)]
  from service_mounts_ok [OF assms(1,2)] have names: "inj_on ep_name (set (sv_endpoints sv))"
    by (simp add: distinct_map)
  {
    fix m assume "m \<in> set (dict_vals (pc_methods p))"
    then have "md_server m \<in> gathered_servers g"
      using tables rename_server [of m "ga_methods g"] by (simp add: gathered_servers_def)
    with ok obtain e where e: "e \<in> set (sv_endpoints sv)" "md_server m = Some (ep_name e)"
      by (auto simp: gathered_ok_def)
    with names show "\<exists>!e. e \<in> set (sv_endpoints sv') \<and> md_server m = Some (ep_name e)"
      by (auto simp: sv' inj_on_def intro!: ex1I [of _ e])
  next
    fix e assume "e \<in> set (sv_endpoints sv')"
    let ?f = "\<lambda>srv. filter (\<lambda>m. srv m = Some (ep_name e))"
    have "\<exists>q. protocol_init (?f md_server (rename_requests (ga_methods g))) (?f nd_server (ga_notifications g))
        (?f sd_server (ga_subscriptions g)) (ga_types g) [] (?f cm_server (ga_client_methods g)) [] (sv_version sv) = Inr q"
      unfolding protocol_init_Inr
      using protocol_init_Inr [THEN iffD1, OF exI, OF g(2)] by (auto simp: distinct_map_filter)
    then obtain q where q: "protocol_init (?f md_server (rename_requests (ga_methods g)))
        (?f nd_server (ga_notifications g)) (?f sd_server (ga_subscriptions g)) (ga_types g) []
        (?f cm_server (ga_client_methods g)) [] (sv_version sv) = Inr q" ..
    from protocol_init_ok [OF q] show "\<exists>q. endpoint_protocol sv' p e = Inr q
        \<and> dict_vals (pc_methods q) = ?f md_server (dict_vals (pc_methods p))
        \<and> dict_vals (pc_notifications q) = ?f nd_server (dict_vals (pc_notifications p))
        \<and> dict_vals (pc_subscriptions q) = ?f sd_server (dict_vals (pc_subscriptions p))
        \<and> dict_vals (pc_client_methods q) = ?f cm_server (dict_vals (pc_client_methods p))
        \<and> pc_streams q = [] \<and> pc_raw_sockets q = []"
      using tables by (intro exI [of _ q]) (simp add: endpoint_protocol_def sv' q)
  }
qed

section \<open>The clock, frozen\<close>

definition clock_protocol :: protocol where
  "clock_protocol =
     \<lparr>pc_version = 1, pc_methods = [(''clock.tick'', tick_method ''clock.tick'' (Some ''Ticks.'') None True)],
      pc_notifications = [], pc_subscriptions = [], pc_notification_types = [],
      pc_streams = [(''clock.ticks'', ticks_stream)], pc_client_methods = [], pc_raw_sockets = []\<rparr>"

definition frozen_clock :: channel where
  "frozen_clock = Channel (clock_ticking\<lparr>cd_names := [''clock.tick'', ''clock.ticks''],
     cd_streams := [ticks_stream], cd_protocol := Some clock_protocol\<rparr>) []"

lemma clock_channel_frozen:
  "channel_freeze py (w_channels clock_world 0) = Inr (clock_protocol, frozen_clock)"
  "channel_freeze py frozen_clock = Inr (clock_protocol, frozen_clock)"
proof -
  have s: "st_name ticks_stream = ''clock.ticks''" by (simp add: ticks_stream_def)
  note t = tick_route [of _ _ _ None, simplified]
  have r: "rename_requests [tick_method n s None i] = [tick_method n s None i]" for n s i
    by (simp add: rename_requests_def request_names_def)
  have n: "md_name (tick_method n s t i) = n" for n s t i by (simp add: tick_method_def)
  show "channel_freeze py (w_channels clock_world 0) = Inr (clock_protocol, frozen_clock)"
    by (simp add: clock_world_def clock_ticking_def clock_channel_def t r protocol_init_def
        unique_def unique_step_def dict_has_iff Let_def tick_check s n frozen_clock_def clock_protocol_def)
  show "channel_freeze py frozen_clock = Inr (clock_protocol, frozen_clock)"
    by (simp add: frozen_clock_def)
qed

definition served_clock :: protocol where
  "served_clock = clock_protocol\<lparr>
     pc_methods := [(''clock.tick'', tick_method ''clock.tick'' (Some ''Ticks.'') None True\<lparr>md_server := Some ''rpc''\<rparr>)],
     pc_streams := [(''clock.ticks'', ticks_stream\<lparr>st_server := Some ''ticks''\<rparr>)]\<rparr>"

lemma clock_service_frozen:
  "service_freeze py clock_world clock_service =
     Inr (served_clock, clock_service\<lparr>sv_protocol := Some served_clock\<rparr>, (w_channels clock_world)(0 := frozen_clock))"
proof -
  have c: "name_clash [''clock.tick'', ''clock.ticks''] = None" by code_simp
  have m: "protocol_names clock_protocol = [''clock.tick'']" "protocol_raises clock_protocol = []"
    by (simp_all add: protocol_names_def protocol_raises_def clock_protocol_def tick_method_def)
  have g1: "gather_channel py ''rpc'' 0 (gather_nothing clock_world) =
      Inr (gather_nothing clock_world\<lparr>ga_methods := [tick_method ''clock.tick'' (Some ''Ticks.'') None True\<lparr>md_server := Some ''rpc''\<rparr>],
        ga_owners := [(''clock.tick'', ''clock'')], ga_channels := (w_channels clock_world)(0 := frozen_clock)\<rparr>)"
    by (simp add: gather_channel_def freeze_channel_def gather_nothing_def clock_channel_frozen definition_error_def
        map_error_def m add_protocol_def unique_name_def)
      (simp add: clock_protocol_def frozen_clock_def clock_ticking_def clock_channel_def)
  have k: "w_stream_mark clock_world ticks_fn = Some 0" "st_function ticks_stream = ticks_fn"
    "st_name ticks_stream = ''clock.ticks''" by (simp_all add: clock_world_def ticks_stream_def)
  have g: "fold_res (gather_endpoint py clock_world) (sv_endpoints clock_service) (gather_nothing clock_world) =
      Inr (gather_nothing clock_world\<lparr>ga_methods := [tick_method ''clock.tick'' (Some ''Ticks.'') None True\<lparr>md_server := Some ''rpc''\<rparr>],
        ga_streams := [ticks_stream\<lparr>st_server := Some ''ticks''\<rparr>],
        ga_owners := [(''clock.tick'', ''clock''), (''clock.ticks'', ''clock'')],
        ga_channels := (w_channels clock_world)(0 := frozen_clock)\<rparr>)"
    by (simp add: clock_service_def socket_service_def plain_endpoint_def gather_endpoint_def g1 k
        freeze_channel_def clock_channel_frozen definition_error_def map_error_def unique_name_def)
      (simp add: gather_nothing_def frozen_clock_def clock_ticking_def clock_channel_def)
  have r: "rename_requests [tick_method n s None i\<lparr>md_server := v\<rparr>] = [tick_method n s None i\<lparr>md_server := v\<rparr>]" for n s i v
    by (simp add: rename_requests_def request_names_def)
  have n: "md_name (tick_method n s t i\<lparr>md_server := v\<rparr>) = n"
    "check_raises (n, md_raises (tick_method m s t i\<lparr>md_server := v\<rparr>)) = Inr ()" for n m s t i v
    using tick_check [of n m s t i] by (simp_all add: tick_method_def)
  have v: "sv_protocol clock_service = None" "sv_version clock_service = 1"
    by (simp_all add: clock_service_def socket_service_def empty_service_def)
  show ?thesis
    by (simp add: service_freeze_def v g [unfolded gather_nothing_def, simplified] c r definition_error_def
        map_error_def protocol_init_def unique_def unique_step_def dict_has_iff n k(3) gather_nothing_def tick_check
        served_clock_def clock_protocol_def)
qed

lemma service_freeze_names_witness:
  "service_names served_clock = [''clock.tick'', ''clock.ticks''] \<and> distinct (service_names served_clock)"
proof -
  have "sv_protocol clock_service = None" by (simp add: clock_service_def socket_service_def empty_service_def)
  from service_freeze_names [OF clock_service_frozen this] show ?thesis
    by (simp add: service_names_def protocol_names_def served_clock_def clock_protocol_def tick_method_def ticks_stream_def)
qed

lemma endpoint_protocols_partition_witness:
  "\<exists>e q. e \<in> set (sv_endpoints clock_service) \<and> ep_name e = ''rpc''
     \<and> endpoint_protocol (clock_service\<lparr>sv_protocol := Some served_clock\<rparr>) served_clock e = Inr q
     \<and> map md_name (dict_vals (pc_methods q)) = [''clock.tick'']"
proof -
  let ?e = "plain_endpoint ''rpc'' ''/rpc'' (SocketEndpoint [0] None False)"
  have c: "sv_protocol clock_service = None" "?e \<in> set (sv_endpoints clock_service)" "ep_name ?e = ''rpc''"
    by (simp_all add: clock_service_def socket_service_def empty_service_def plain_endpoint_def)
  moreover have "map md_name (filter (\<lambda>m. md_server m = Some ''rpc'') (dict_vals (pc_methods served_clock))) = [''clock.tick'']"
    by (simp add: served_clock_def tick_method_def)
  moreover from c(2) endpoint_protocols_partition
    [OF empty_service_init clock_run clock_service_frozen c(1), THEN conjunct2, THEN bspec, of ?e]
  obtain q where "endpoint_protocol (clock_service\<lparr>sv_protocol := Some served_clock\<rparr>) served_clock ?e = Inr q"
    "dict_vals (pc_methods q) = filter (\<lambda>m. md_server m = Some (ep_name ?e)) (dict_vals (pc_methods served_clock))"
    by auto
  ultimately show ?thesis by (intro exI [of _ ?e] exI [of _ q]) simp
qed

end
