(* ===== verification/IrTypes.thy ===== *)
theory IrTypes
  imports Pyobj Utf8
begin

text \<open>
  \<open>codegen/ir.py\<close>, first part: the data model of a generated client, and how the nodes of a JSON
  Schema are lowered into type expressions. A document is decoded JSON. Where the code raises
  \<open>UnsupportedSchemaError\<close> the model has \<open>Unsupported\<close>; any other exception, which a document that is
  not of the expected shape provokes (\<open>KeyError\<close>, \<open>TypeError\<close>, \<open>AttributeError\<close>), is \<open>Crash\<close>. Members of a
  document that the code only hands on stay JSON.
\<close>

section \<open>Results\<close>

datatype ir_problem =
    NoRequestSchema string
  | ErrorWithoutCode
  | NotArray string
  | EntryNotObject string
  | NoEntryName string
  | DuplicateEntry string string
  | NoEntryUrl string string
  | BadDirection string
  | OutputContentType string
  | InputContentType string
  | BadFrameType string
  | BadMessageList string
  | BadSubprotocols string
  | BadVariables string
  | StreamAndSocket "string list"
  | UndeclaredServers "string list"
  | MultipleServers string
  | BadTransport string
  | UnknownApiRoot string
  | UnknownApiNames "string list"
  | ApiPathsCollide "string list" "string list" "string list"
  | IdentifierTwice string string string string

datatype ir_error = Unsupported ir_problem | Crash

definition unsupported_if :: "bool \<Rightarrow> ir_problem \<Rightarrow> ir_error + unit" where
  "unsupported_if b p = raise_if b (Unsupported p)"

lemma unsupported_if_Inr [simp]: "unsupported_if b p = Inr u \<longleftrightarrow> \<not> b"
  by (simp add: unsupported_if_def raise_if_eq)

section \<open>Reading a document\<close>

text \<open>\<open>value.get(key)\<close>, \<open>value.get(key, default)\<close>, \<open>value[key]\<close> and \<open>key in value\<close>.\<close>

fun get_opt :: "string \<Rightarrow> json \<Rightarrow> ir_error + json option" where
  "get_opt k (JObj m) = Inr (map_of m k)"
| "get_opt k j = Inl Crash"

definition get_or :: "string \<Rightarrow> json \<Rightarrow> json \<Rightarrow> ir_error + json" where
  "get_or k d j = rbind (get_opt k j) (\<lambda>v. Inr (case v of None \<Rightarrow> d | Some x \<Rightarrow> x))"

definition get_req :: "string \<Rightarrow> json \<Rightarrow> ir_error + json" where
  "get_req k j = rbind (get_opt k j) (\<lambda>v. case v of None \<Rightarrow> Inl Crash | Some x \<Rightarrow> Inr x)"

fun as_str :: "json \<Rightarrow> ir_error + string" where
  "as_str (JStr s) = Inr s"
| "as_str j = Inl Crash"

fun obj_items :: "json \<Rightarrow> ir_error + (string \<times> json) list" where
  "obj_items (JObj m) = Inr m"
| "obj_items j = Inl Crash"

text \<open>The characters of a \<open>str\<close>, each with its continuation bytes, and what \<open>for x in value\<close> goes through.\<close>

definition is_cont :: "char \<Rightarrow> bool" where
  "is_cont c = (0x80 \<le> byte_of c \<and> byte_of c \<le> 0xBF)"

function utf8_chars :: "string \<Rightarrow> string list" where
  "utf8_chars [] = []"
| "utf8_chars (c # s) = (c # takeWhile is_cont s) # utf8_chars (dropWhile is_cont s)"
  by pat_completeness auto
termination
  by (relation "measure length") (auto simp: less_Suc_eq_le length_dropWhile_le)

fun py_iter :: "json \<Rightarrow> ir_error + json list" where
  "py_iter (JArr xs) = Inr xs"
| "py_iter (JStr s) = Inr (map JStr (utf8_chars s))"
| "py_iter (JObj m) = Inr (map (\<lambda>p. JStr (fst p)) m)"
| "py_iter j = Inl Crash"

text \<open>\<open>bool(value)\<close>; the text of a float is its \<open>repr\<close>, of which zero has no digit but zeros.\<close>

fun truthy :: "json \<Rightarrow> bool" where
  "truthy JNull = False"
| "truthy (JBool b) = b"
| "truthy (JInt i) = (i \<noteq> 0)"
| "truthy (JFloat s) = list_ex (\<lambda>c. is_digit c \<and> c \<noteq> CHR ''0'' \<or> is_lower c) (takeWhile (\<lambda>c. c \<noteq> CHR ''e'') s)"
| "truthy (JStr s) = (s \<noteq> [])"
| "truthy (JArr xs) = (xs \<noteq> [])"
| "truthy (JObj m) = (m \<noteq> [])"

text \<open>\<open>value.rsplit("/", 1)[-1]\<close>.\<close>

definition last_segment :: "string \<Rightarrow> string" where
  "last_segment s = last (split_on (CHR ''/'') s)"

section \<open>Type expressions\<close>

datatype primitive =
    PrimString | PrimInteger | PrimNumber | PrimBoolean | PrimNull | PrimUuid | PrimDatetime | PrimAny

datatype type_expr =
    PrimitiveType primitive
  | LiteralType json
  | EnumLiteralType string string
  | NamedType string
  | ListType type_expr
  | MapType type_expr
  | UnionType "type_expr list" "json option"

fun named_types :: "type_expr \<Rightarrow> string list" where
  "named_types (NamedType n) = [n]"
| "named_types (EnumLiteralType e m) = [e]"
| "named_types (ListType t) = named_types t"
| "named_types (MapType t) = named_types t"
| "named_types (UnionType ts d) = concat (map named_types ts)"
| "named_types t = []"

definition ref_name :: "json \<Rightarrow> ir_error + string" where
  "ref_name schema = rbind (get_req ''$ref'' schema) (\<lambda>r. rbind (as_str r) (\<lambda>s. Inr (last_segment s)))"

definition string_format :: "json option \<Rightarrow> ir_error + primitive" where
  "string_format f =
     (case f of
        Some (JArr xs) \<Rightarrow> Inl Crash
      | Some (JObj m) \<Rightarrow> Inl Crash
      | Some (JStr s) \<Rightarrow>
          Inr (if s = ''uuid'' then PrimUuid else if s = ''date-time'' then PrimDatetime else PrimString)
      | _ \<Rightarrow> Inr PrimString)"

definition scalar_type :: "json option \<Rightarrow> ir_error + primitive" where
  "scalar_type t =
     (case t of
        Some (JArr xs) \<Rightarrow> Inl Crash
      | Some (JObj m) \<Rightarrow> Inl Crash
      | Some (JStr s) \<Rightarrow>
          Inr (if s = ''integer'' then PrimInteger else if s = ''number'' then PrimNumber
               else if s = ''boolean'' then PrimBoolean else if s = ''null'' then PrimNull else PrimAny)
      | _ \<Rightarrow> Inr PrimAny)"

definition literal_types :: "json list \<Rightarrow> type_expr" where
  "literal_types vs = (case map LiteralType vs of [t] \<Rightarrow> t | ts \<Rightarrow> UnionType ts None)"

definition variants_of :: "(string \<times> json) list \<Rightarrow> json" where
  "variants_of m =
     (case map_of m ''anyOf'' of
        Some v \<Rightarrow> if truthy v then v else (case map_of m ''oneOf'' of None \<Rightarrow> JNull | Some w \<Rightarrow> w)
      | None \<Rightarrow> (case map_of m ''oneOf'' of None \<Rightarrow> JNull | Some w \<Rightarrow> w))"

definition discriminator_of :: "(string \<times> json) list \<Rightarrow> ir_error + json option" where
  "discriminator_of m = rbind (get_or ''discriminator'' (JObj []) (JObj m)) (get_opt ''propertyName'')"

lemma json_member_size: "map_of m k = Some v \<Longrightarrow> size v < size (JObj m)"
proof (induction m)
  case (Cons p m)
  then show ?case by (cases p) (auto split: if_splits)
qed simp

lemma json_item_size: "x \<in> set xs \<Longrightarrow> size x < size (JArr xs)"
  by (induction xs) auto

lemma variants_size: "variants_of m = JArr xs \<Longrightarrow> x \<in> set xs \<Longrightarrow> size x < size (JObj m)"
proof -
  assume v: "variants_of m = JArr xs" "x \<in> set xs"
  then obtain k where "map_of m k = Some (JArr xs)"
    by (auto simp: variants_of_def split: option.splits if_splits)
  from json_member_size [OF this] json_item_size [OF v(2)] show ?thesis by simp
qed

text \<open>
  The variants of a union that are not an array are iterated too, but then each of them is a string,
  whose lowering raises, as anything that is neither a boolean nor an object.
\<close>

function type_expression :: "json \<Rightarrow> ir_error + type_expr" where
  "type_expression (JBool b) = Inr (PrimitiveType PrimAny)"
| "type_expression (JObj m) =
     (case map_of m ''$ref'' of
        Some r \<Rightarrow> rbind (ref_name (JObj m)) (\<lambda>n. Inr (NamedType n))
      | None \<Rightarrow>
     (case map_of m ''const'' of
        Some v \<Rightarrow> Inr (LiteralType v)
      | None \<Rightarrow>
     (case map_of m ''enum'' of
        Some v \<Rightarrow> rbind (py_iter v) (\<lambda>vs. Inr (literal_types vs))
      | None \<Rightarrow>
        if truthy (variants_of m) then
          (case variants_of m of
             JArr vs \<Rightarrow>
               rbind (traverse type_expression vs) (\<lambda>ts.
               rbind (discriminator_of m) (\<lambda>d. Inr (UnionType ts d)))
           | _ \<Rightarrow> Inl Crash)
        else if map_of m ''type'' = Some (JStr ''string'') then
          rbind (string_format (map_of m ''format'')) (\<lambda>p. Inr (PrimitiveType p))
        else if map_of m ''type'' = Some (JStr ''array'') then
          (case map_of m ''items'' of
             None \<Rightarrow> Inr (ListType (PrimitiveType PrimAny))
           | Some s \<Rightarrow> rbind (type_expression s) (\<lambda>t. Inr (ListType t)))
        else if map_of m ''type'' = Some (JStr ''object'') then
          (case map_of m ''additionalProperties'' of
             None \<Rightarrow> Inr (MapType (PrimitiveType PrimAny))
           | Some s \<Rightarrow> rbind (type_expression s) (\<lambda>t. Inr (MapType t)))
        else rbind (scalar_type (map_of m ''type'')) (\<lambda>p. Inr (PrimitiveType p)))))"
| "type_expression JNull = Inl Crash"
| "type_expression (JInt i) = Inl Crash"
| "type_expression (JFloat s) = Inl Crash"
| "type_expression (JStr s) = Inl Crash"
| "type_expression (JArr xs) = Inl Crash"
  by pat_completeness auto
termination
  by (relation "measure size") (auto intro: json_member_size [simplified] variants_size [simplified])

end
