(* ===== verification/PathTree.thy ===== *)
theory PathTree
  imports Prelude "HOL-Library.Sublist"
begin

text \<open>
  The nested dictionaries in which the code generator groups what has a dotted path: each node has what
  it was created with, the items that end there, and its children in the order of their creation. The
  trees of \<open>codegen/ir.py\<close> and \<open>codegen/names.py\<close> are instances.
\<close>

section \<open>Trees\<close>

datatype ('m, 'x) ptree = PNode (node_meta: 'm) (node_items: "'x list") (node_children: "(string \<times> ('m, 'x) ptree) list")

type_synonym ('m, 'x) forest = "(string, ('m, 'x) ptree) dict"

text \<open>
  Going down a path with \<open>setdefault\<close>, and appending the item at its end. A node is made by \<open>mk\<close> from
  its depth.
\<close>

fun put_path :: "(nat \<Rightarrow> 'm) \<Rightarrow> 'x \<Rightarrow> string list \<Rightarrow> ('m, 'x) forest \<Rightarrow> ('m, 'x) forest" where
  "put_path mk x [] f = f"
| "put_path mk x (s # ss) f =
     (let child = (case map_of f s of Some t \<Rightarrow> t | None \<Rightarrow> PNode (mk 0) [] []) in
      dict_set s
        (PNode (node_meta child) (if ss = [] then node_items child @ [x] else node_items child)
           (put_path (\<lambda>i. mk (Suc i)) x ss (node_children child)))
        f)"

fun get_path :: "string list \<Rightarrow> ('m, 'x) forest \<Rightarrow> ('m \<times> 'x list) option" where
  "get_path [] f = None"
| "get_path (s # ss) f =
     (case map_of f s of
        None \<Rightarrow> None
      | Some t \<Rightarrow> if ss = [] then Some (node_meta t, node_items t) else get_path ss (node_children t))"

text \<open>All nodes with their paths, a node before its children.\<close>

fun walk_node :: "string list \<Rightarrow> string \<Rightarrow> ('m, 'x) ptree \<Rightarrow> (string list \<times> 'm \<times> 'x list) list" where
  "walk_node parent s (PNode m xs cs) =
     (parent @ [s], m, xs) # concat (map (\<lambda>(k, t). walk_node (parent @ [s]) k t) cs)"

definition walk_forest :: "string list \<Rightarrow> ('m, 'x) forest \<Rightarrow> (string list \<times> 'm \<times> 'x list) list" where
  "walk_forest parent f = concat (map (\<lambda>(k, t). walk_node parent k t) f)"

lemma walk_node_forest: "walk_node parent s (PNode m xs cs) = (parent @ [s], m, xs) # walk_forest (parent @ [s]) cs"
  by (simp add: walk_forest_def)

lemma walk_forest_simps [simp]:
  "walk_forest parent [] = []"
  "walk_forest parent ((s, t) # f) = walk_node parent s t @ walk_forest parent f"
  by (simp_all add: walk_forest_def)

fun tree_ok :: "('m, 'x) ptree \<Rightarrow> bool" where
  "tree_ok (PNode m xs cs) = (distinct (map fst cs) \<and> list_all (\<lambda>(k, t). tree_ok t) cs)"

definition forest_ok :: "('m, 'x) forest \<Rightarrow> bool" where
  "forest_ok f = (distinct (map fst f) \<and> list_all (\<lambda>(k, t). tree_ok t) f)"

lemma tree_ok_node: "tree_ok t = forest_ok (node_children t)"
  by (cases t) (simp add: forest_ok_def)

lemma forest_ok_Nil [simp]: "forest_ok []" by (simp add: forest_ok_def)

lemma forest_ok_child: "forest_ok f \<Longrightarrow> map_of f s = Some t \<Longrightarrow> forest_ok (node_children t)"
proof -
  assume "forest_ok f" "map_of f s = Some t"
  then have "tree_ok t" unfolding forest_ok_def list_all_iff by (auto dest: map_of_SomeD)
  then show ?thesis by (simp add: tree_ok_node)
qed

lemma forest_ok_set: "forest_ok f \<Longrightarrow> tree_ok t \<Longrightarrow> forest_ok (dict_set s t f)"
proof -
  assume f: "forest_ok f" "tree_ok t"
  have "set (dict_set s t f) \<subseteq> insert (s, t) (set f)" by (induction f) auto
  with f have "\<forall>p\<in>set (dict_set s t f). tree_ok (snd p)"
    unfolding forest_ok_def list_all_iff by fastforce
  with f(1) show ?thesis unfolding forest_ok_def list_all_iff by (auto intro: distinct_dict_set)
qed

definition child_at :: "(nat \<Rightarrow> 'm) \<Rightarrow> string \<Rightarrow> ('m, 'x) forest \<Rightarrow> ('m, 'x) ptree" where
  "child_at mk s f = (case map_of f s of Some t \<Rightarrow> t | None \<Rightarrow> PNode (mk 0) [] [])"

lemma put_path_Cons:
  "put_path mk x (s # ss) f =
     dict_set s
       (PNode (node_meta (child_at mk s f))
         (if ss = [] then node_items (child_at mk s f) @ [x] else node_items (child_at mk s f))
         (put_path (\<lambda>i. mk (Suc i)) x ss (node_children (child_at mk s f)))) f"
  by (simp add: child_at_def Let_def)

declare put_path.simps(2) [simp del]

lemma child_at_ok: "forest_ok f \<Longrightarrow> forest_ok (node_children (child_at mk s f))"
  by (auto simp: child_at_def dest: forest_ok_child split: option.splits)

lemma put_path_ok: "forest_ok f \<Longrightarrow> forest_ok (put_path mk x p f)"
proof (induction p arbitrary: mk f)
  case (Cons s ss)
  from Cons.IH [OF child_at_ok [OF Cons.prems]] Cons.prems show ?case
    unfolding put_path_Cons by (intro forest_ok_set) (simp_all add: tree_ok_node)
qed simp

section \<open>What a node holds after an insertion\<close>

lemma get_path_put:
  "get_path (r # rs) (put_path mk x (s # ss) f) =
     (if r \<noteq> s then get_path (r # rs) f
      else if rs = [] then
        Some (node_meta (child_at mk s f),
          if ss = [] then node_items (child_at mk s f) @ [x] else node_items (child_at mk s f))
      else get_path rs (put_path (\<lambda>i. mk (Suc i)) x ss (node_children (child_at mk s f))))"
  by (simp add: put_path_Cons dict_simps)

lemma get_path_child:
  "get_path (s # ss) f =
     (if ss = [] then map_option (\<lambda>t. (node_meta t, node_items t)) (map_of f s)
      else get_path ss (node_children (child_at mk s f)))"
  by (cases ss; cases "map_of f s") (simp_all add: child_at_def)

declare get_path.simps(2) [simp del]

lemma child_at_new: "map_of f s = None \<Longrightarrow> child_at mk s f = PNode (mk 0) [] []"
  and child_at_old: "map_of f s = Some t \<Longrightarrow> child_at mk s f = t"
  by (simp_all add: child_at_def)

text \<open>The nodes on the way are made if they are missing, and the item is added to the last.\<close>

lemma get_put_path:
  "p \<noteq> [] \<Longrightarrow> get_path q (put_path mk x p f) =
     (if q = p then
        Some (case get_path p f of None \<Rightarrow> (mk (length p - 1), [x]) | Some (m, xs) \<Rightarrow> (m, xs @ [x]))
      else if q \<noteq> [] \<and> strict_prefix q p then
        Some (case get_path q f of None \<Rightarrow> (mk (length q - 1), []) | Some mx \<Rightarrow> mx)
      else get_path q f)"
proof (induction p arbitrary: mk f q)
  case (Cons s ss)
  show ?case
  proof (cases q)
    case Nil
    then show ?thesis by simp
  next
    case q: (Cons r rs)
    show ?thesis
    proof (cases "r = s \<and> rs \<noteq> [] \<and> ss \<noteq> []")
      case True
      then have len: "Suc (length ss - 1) = length ss" "Suc (length rs - 1) = length rs" by (simp_all add: Suc_diff_Suc)
      with True Cons.IH [of rs "\<lambda>i. mk (Suc i)" "node_children (child_at mk s f)"] show ?thesis
        by (auto simp: len q get_path_put get_path_child [of s _ f mk] strict_prefix_def split: option.splits)
    next
      case False
      then show ?thesis
        by (cases "map_of f s"; cases "ss = []"; cases "rs = []")
          (auto simp: q get_path_put get_path_child [of s _ f mk] child_at_new child_at_old strict_prefix_def)
    qed
  qed
qed simp

section \<open>Trees that are built from items\<close>

definition build_tree :: "('x \<Rightarrow> nat \<Rightarrow> 'm) \<Rightarrow> ('x \<Rightarrow> string list) \<Rightarrow> 'x list \<Rightarrow> ('m, 'x) forest" where
  "build_tree mk path xs = fold (\<lambda>x. put_path (mk x) x (path x)) xs []"

lemma build_tree_ok: "forest_ok (build_tree mk path xs)"
proof -
  have "forest_ok f \<Longrightarrow> forest_ok (fold (\<lambda>x. put_path (mk x) x (path x)) xs f)" for f
    by (induction xs arbitrary: f) (auto intro: put_path_ok)
  then show ?thesis by (simp add: build_tree_def)
qed

text \<open>
  There is a node for every beginning of a path, made by the first item that has it, and it holds the
  items with exactly that path, in their order.
\<close>

lemma get_build_tree:
  assumes "q \<noteq> []"
  shows "get_path q (build_tree mk path xs) =
    (case filter (\<lambda>x. prefix q (path x)) xs of
       [] \<Rightarrow> None
     | x # _ \<Rightarrow> Some (mk x (length q - 1), filter (\<lambda>x. path x = q) xs))"
proof (induction xs rule: rev_induct)
  case Nil
  with assms show ?case by (cases q) (simp_all add: build_tree_def get_path.simps)
next
  case (snoc x xs)
  have step: "build_tree mk path (xs @ [x]) = put_path (mk x) x (path x) (build_tree mk path xs)"
    by (simp add: build_tree_def)
  have none: "filter (\<lambda>y. path y = q) xs = []" if "filter (\<lambda>y. prefix q (path y)) xs = []"
    using that by (auto simp: filter_empty_conv)
  show ?case
  proof (cases "prefix q (path x)")
    case False
    then have "path x \<noteq> q" "\<not> strict_prefix q (path x)" by (auto simp: strict_prefix_def)
    then have "get_path q (put_path (mk x) x (path x) (build_tree mk path xs)) = get_path q (build_tree mk path xs)"
      by (cases "path x = []") (simp_all add: get_put_path)
    with snoc False \<open>path x \<noteq> q\<close> show ?thesis by (simp add: step split: list.splits)
  next
    case True
    then have p: "path x \<noteq> []" using assms by auto
    show ?thesis
    proof (cases "path x = q")
      case eq: True
      then show ?thesis using snoc none True
        by (simp add: step get_put_path [OF assms] split: list.splits)
    next
      case neq: False
      then have "strict_prefix q (path x)" using True by (simp add: strict_prefix_def)
      then show ?thesis using snoc none True neq assms
        by (auto simp: step get_put_path [OF p] split: list.splits)
    qed
  qed
qed

section \<open>Walking\<close>

lemma walk_node_prefix: "n \<in> set (walk_node parent s t) \<Longrightarrow> prefix (parent @ [s]) (fst n)"
proof (induction parent s t rule: walk_node.induct)
  case (1 parent s m xs cs)
  show ?case
  proof (cases "n = (parent @ [s], m, xs)")
    case False
    with 1(2) obtain k t where "(k, t) \<in> set cs" "n \<in> set (walk_node (parent @ [s]) k t)" by auto
    with 1(1) [of "(k, t)" k t] have "prefix ((parent @ [s]) @ [k]) (fst n)" by simp
    then show ?thesis by (rule append_prefixD)
  qed simp
qed

lemma walk_node_iff:
  "tree_ok t \<Longrightarrow>
   (q, m, xs) \<in> set (walk_node parent s t) \<longleftrightarrow>
     (\<exists>r. q = parent @ s # r
        \<and> (if r = [] then m = node_meta t \<and> xs = node_items t else get_path r (node_children t) = Some (m, xs)))"
proof (induction t arbitrary: parent s)
  case (PNode n ys cs)
  have d: "distinct (map fst cs)" using PNode.prems by simp
  have IH: "(q, m, xs) \<in> set (walk_node (parent @ [s]) k u) \<longleftrightarrow>
      (\<exists>r. q = (parent @ [s]) @ k # r
        \<and> (if r = [] then m = node_meta u \<and> xs = node_items u else get_path r (node_children u) = Some (m, xs)))"
    if "(k, u) \<in> set cs" for k u
  proof -
    have "tree_ok u" using PNode.prems that by (auto simp: list_all_iff)
    then show ?thesis by (intro PNode.IH [OF that]) simp_all
  qed
  have "(q, m, xs) \<in> set (walk_forest (parent @ [s]) cs) \<longleftrightarrow>
      (\<exists>k u. map_of cs k = Some u \<and> (q, m, xs) \<in> set (walk_node (parent @ [s]) k u))"
    unfolding walk_forest_def using d by (auto simp: map_of_eq_Some_iff)
  also have "\<dots> \<longleftrightarrow> (\<exists>r. r \<noteq> [] \<and> q = parent @ s # r \<and> get_path r cs = Some (m, xs))"
  proof
    assume "\<exists>k u. map_of cs k = Some u \<and> (q, m, xs) \<in> set (walk_node (parent @ [s]) k u)"
    then obtain k u where u: "map_of cs k = Some u" "(q, m, xs) \<in> set (walk_node (parent @ [s]) k u)" by blast
    then have "(k, u) \<in> set cs" by (simp add: map_of_SomeD)
    from u(2) [unfolded IH [OF this]] obtain r where
      "q = parent @ s # k # r" "if r = [] then m = node_meta u \<and> xs = node_items u else get_path r (node_children u) = Some (m, xs)"
      by auto
    with u(1) show "\<exists>r. r \<noteq> [] \<and> q = parent @ s # r \<and> get_path r cs = Some (m, xs)"
      by (intro exI [of _ "k # r"]) (auto simp: get_path.simps split: if_splits)
  next
    assume "\<exists>r. r \<noteq> [] \<and> q = parent @ s # r \<and> get_path r cs = Some (m, xs)"
    then obtain k r where r: "q = parent @ s # k # r" "get_path (k # r) cs = Some (m, xs)"
      by (metis list.exhaust)
    then obtain u where u: "map_of cs k = Some u" by (auto simp: get_path.simps split: option.splits)
    then have "(k, u) \<in> set cs" by (simp add: map_of_SomeD)
    from IH [OF this] r u show "\<exists>k u. map_of cs k = Some u \<and> (q, m, xs) \<in> set (walk_node (parent @ [s]) k u)"
      by (intro exI [of _ k] exI [of _ u]) (auto simp: get_path.simps split: if_splits)
  qed
  finally have c: "(q, m, xs) \<in> set (walk_forest (parent @ [s]) cs) \<longleftrightarrow>
      (\<exists>r. r \<noteq> [] \<and> q = parent @ s # r \<and> get_path r cs = Some (m, xs))" .
  show ?case unfolding walk_node_forest set_simps insert_iff c by auto
qed

lemma get_path_Some:
  "get_path (k # r) f = Some (m, xs) \<longleftrightarrow>
     (\<exists>u. map_of f k = Some u
        \<and> (if r = [] then m = node_meta u \<and> xs = node_items u else get_path r (node_children u) = Some (m, xs)))"
  by (cases "map_of f k") (auto simp: get_path.simps)

lemma walk_forest_iff:
  assumes "forest_ok f"
  shows "(q, m, xs) \<in> set (walk_forest parent f) \<longleftrightarrow> (\<exists>r. r \<noteq> [] \<and> q = parent @ r \<and> get_path r f = Some (m, xs))"
proof -
  have "(q, m, xs) \<in> set (walk_forest parent f) \<longleftrightarrow>
      (\<exists>k u. map_of f k = Some u \<and> (q, m, xs) \<in> set (walk_node parent k u))"
    unfolding walk_forest_def using assms by (auto simp: forest_ok_def map_of_eq_Some_iff)
  also have "\<dots> \<longleftrightarrow> (\<exists>k u. map_of f k = Some u \<and> (\<exists>r. q = parent @ k # r
      \<and> (if r = [] then m = node_meta u \<and> xs = node_items u else get_path r (node_children u) = Some (m, xs))))"
  proof -
    have "(map_of f k = Some u \<and> (q, m, xs) \<in> set (walk_node parent k u)) =
        (map_of f k = Some u \<and> (\<exists>r. q = parent @ k # r
          \<and> (if r = [] then m = node_meta u \<and> xs = node_items u else get_path r (node_children u) = Some (m, xs))))" for k u
    proof (cases "map_of f k = Some u")
      case True
      then have "tree_ok u" using forest_ok_child [OF assms] by (simp add: tree_ok_node)
      with True show ?thesis by (simp add: walk_node_iff)
    qed simp
    then show ?thesis by (simp only:)
  qed
  also have "\<dots> \<longleftrightarrow> (\<exists>k r. q = parent @ k # r \<and> get_path (k # r) f = Some (m, xs))"
    unfolding get_path_Some by blast
  also have "\<dots> \<longleftrightarrow> (\<exists>r. r \<noteq> [] \<and> q = parent @ r \<and> get_path r f = Some (m, xs))"
    by (metis list.exhaust list.distinct(1))
  finally show ?thesis .
qed

lemma distinct_walk_step:
  "distinct (map fst cs) \<Longrightarrow> \<forall>(k, t)\<in>set cs. distinct (map fst (walk_node parent k t)) \<Longrightarrow>
   distinct (map fst (walk_forest parent cs))"
proof (induction cs)
  case (Cons c cs)
  obtain k t where c: "c = (k, t)" by (cases c)
  have "fst n \<noteq> fst n'" if "n \<in> set (walk_node parent k t)" "n' \<in> set (walk_forest parent cs)" for n n'
  proof
    assume eq: "fst n = fst n'"
    from that(2) obtain k' t' where k': "(k', t') \<in> set cs" "n' \<in> set (walk_node parent k' t')"
      by (auto simp: walk_forest_def)
    have "prefix (parent @ [k]) (fst n)" "prefix (parent @ [k']) (fst n)"
      using walk_node_prefix [OF that(1)] walk_node_prefix [OF k'(2)] eq by simp_all
    then have "k = k'" by (auto simp: prefix_def)
    with k'(1) Cons.prems(1) c show False by (auto simp: rev_image_eqI)
  qed
  then have "fst ` set (walk_node parent k t) \<inter> fst ` set (walk_forest parent cs) = {}" by blast
  with Cons c show ?case by simp
qed simp

lemma distinct_walk_node: "tree_ok t \<Longrightarrow> distinct (map fst (walk_node parent s t))"
proof (induction t arbitrary: parent s)
  case (PNode m xs cs)
  have "distinct (map fst (walk_forest (parent @ [s]) cs))"
  proof (rule distinct_walk_step)
    show "distinct (map fst cs)" using PNode.prems by simp
    show "\<forall>(k, t)\<in>set cs. distinct (map fst (walk_node (parent @ [s]) k t))"
      using PNode.IH PNode.prems by (fastforce simp: list_all_iff)
  qed
  moreover have "\<forall>n\<in>set (walk_forest (parent @ [s]) cs). fst n \<noteq> parent @ [s]"
    by (auto simp: walk_forest_def prefix_def dest!: walk_node_prefix)
  ultimately show ?case unfolding walk_node_forest by auto
qed

lemma distinct_walk_forest: "forest_ok f \<Longrightarrow> distinct (map fst (walk_forest parent f))"
  by (rule distinct_walk_step) (auto simp: forest_ok_def list_all_iff intro: distinct_walk_node)

text \<open>The nodes of a built tree: their paths, without repetition, and what they hold.\<close>

lemma walk_build_tree:
  "distinct (map fst (walk_forest [] (build_tree mk path xs)))"
  "(q, m, ys) \<in> set (walk_forest [] (build_tree mk path xs)) \<longleftrightarrow>
     q \<noteq> [] \<and> (\<exists>x zs. filter (\<lambda>x. prefix q (path x)) xs = x # zs \<and> m = mk x (length q - 1))
     \<and> ys = filter (\<lambda>x. path x = q) xs"
proof -
  show "distinct (map fst (walk_forest [] (build_tree mk path xs)))"
    by (rule distinct_walk_forest [OF build_tree_ok])
  show "(q, m, ys) \<in> set (walk_forest [] (build_tree mk path xs)) \<longleftrightarrow>
     q \<noteq> [] \<and> (\<exists>x zs. filter (\<lambda>x. prefix q (path x)) xs = x # zs \<and> m = mk x (length q - 1))
     \<and> ys = filter (\<lambda>x. path x = q) xs"
    unfolding walk_forest_iff [OF build_tree_ok]
    by (cases "q = []") (auto simp: get_build_tree split: list.splits)
qed

end
