(* ===== verification/Ir.thy ===== *)
theory Ir
  imports IrTypes PathTree
begin

text \<open>
  \<open>codegen/ir.py\<close>, second part: lowering an OpenRPC document into the model of a client. A default
  value is \<open>Some\<close> when there is one. Identifiers are made in ASCII: other characters count as letters and
  keep their case. Values that Python compares or collects in sets are compared as JSON. The names of
  operations have no segment that begins with a dollar sign, which the code keeps for its own keys.
\<close>

section \<open>Declarations\<close>

record enum_member =
  em_name :: string
  em_value :: json

record field_decl =
  fd_name :: string
  fd_type :: type_expr
  fd_required :: bool
  fd_default :: "json option"

datatype client_decl =
    EnumDecl string "enum_member list" bool
  | ModelDecl string "field_decl list" bool
  | AliasDecl string type_expr

fun decl_name :: "client_decl \<Rightarrow> string" where
  "decl_name (EnumDecl n ms i) = n"
| "decl_name (ModelDecl n fs c) = n"
| "decl_name (AliasDecl n t) = n"

definition identifier_char :: "char \<Rightarrow> bool" where
  "identifier_char c = (is_upper c \<or> is_lower c \<or> is_digit c \<or> c = CHR ''_'' \<or> 128 \<le> byte_of c)"

text \<open>\<open>_member_name\<close>: a Boolean is an integer.\<close>

fun member_name :: "json \<Rightarrow> ir_error + string" where
  "member_name (JInt i) =
     Inr (''VALUE_'' @ (if i < 0 then ''NEG_'' else []) @ int_str \<bar>i\<bar>)"
| "member_name (JBool b) = Inr (''VALUE_'' @ (if b then ''1'' else ''0''))"
| "member_name (JStr s) =
     (let ident = map (\<lambda>c. if identifier_char c then c else CHR ''_'') s in
      Inr (map to_upper (if ident \<noteq> [] \<and> is_digit (hd ident) then CHR ''_'' # ident else ident)))"
| "member_name j = Inl Crash"

fun is_integral :: "json \<Rightarrow> bool" where
  "is_integral (JInt i) = True"
| "is_integral (JBool b) = True"
| "is_integral j = False"

definition enum_declaration :: "string \<Rightarrow> json \<Rightarrow> ir_error + client_decl" where
  "enum_declaration name schema =
     rbind (get_req ''enum'' schema) (\<lambda>v.
     rbind (py_iter v) (\<lambda>values.
     rbind (traverse (\<lambda>x. rbind (member_name x) (\<lambda>n. Inr \<lparr>em_name = n, em_value = x\<rparr>)) values) (\<lambda>ms.
     Inr (EnumDecl name ms (list_all is_integral values)))))"

text \<open>\<open>set(value)\<close>, which raises for what cannot be hashed.\<close>

definition py_set :: "json \<Rightarrow> ir_error + json list" where
  "py_set j =
     rbind (py_iter j) (\<lambda>xs. if list_ex (\<lambda>x. case x of JArr _ \<Rightarrow> True | JObj _ \<Rightarrow> True | _ \<Rightarrow> False) xs
                             then Inl Crash else Inr xs)"

definition lower_field :: "string \<Rightarrow> json \<Rightarrow> bool \<Rightarrow> type_expr option \<Rightarrow> ir_error + field_decl" where
  "lower_field name schema required discriminator =
     (case (discriminator, name = ''type'') of
        (Some t, True) \<Rightarrow> Inr \<lparr>fd_name = name, fd_type = t, fd_required = True, fd_default = Some JNull\<rparr>
      | _ \<Rightarrow>
          (case schema of
             JObj m \<Rightarrow>
               rbind (type_expression schema) (\<lambda>t.
               Inr \<lparr>fd_name = name, fd_type = t, fd_required = required, fd_default = map_of m ''default''\<rparr>)
           | _ \<Rightarrow> Inl Crash))"

definition type_field_first :: "(string \<times> json) list \<Rightarrow> (string \<times> json) list" where
  "type_field_first ps = filter (\<lambda>p. fst p = ''type'') ps @ filter (\<lambda>p. fst p \<noteq> ''type'') ps"

definition is_false :: "json option \<Rightarrow> bool" where
  "is_false j = (j = Some (JBool False))"

definition lower_model :: "string \<Rightarrow> json \<Rightarrow> (string, type_expr) dict \<Rightarrow> ir_error + client_decl" where
  "lower_model name schema discriminators =
     rbind (get_or ''required'' (JArr []) schema) (\<lambda>r.
     rbind (py_set r) (\<lambda>required.
     rbind (get_or ''properties'' (JObj []) schema) (\<lambda>p.
     rbind (obj_items p) (\<lambda>ps.
     rbind (traverse (\<lambda>(n, s). lower_field n s (JStr n \<in> set required) (map_of discriminators name))
              (type_field_first ps)) (\<lambda>fs.
     rbind (get_opt ''additionalProperties'' schema) (\<lambda>a.
     Inr (ModelDecl name fs (is_false a))))))))"

text \<open>Enumerations and objects in the order of the document, and after them the aliases.\<close>

definition has_member :: "string \<Rightarrow> json \<Rightarrow> ir_error + bool" where
  "has_member k j = rbind (get_opt k j) (\<lambda>v. Inr (v \<noteq> None))"

definition schema_declaration ::
  "(string, type_expr) dict \<Rightarrow> string \<times> json \<Rightarrow> ir_error + (client_decl + client_decl)" where
  "schema_declaration discriminators ns =
     (let (name, schema) = ns in
      rbind (has_member ''enum'' schema) (\<lambda>e.
      if e then rbind (enum_declaration name schema) (\<lambda>d. Inr (Inl d))
      else rbind (get_opt ''type'' schema) (\<lambda>t.
        if t = Some (JStr ''object'') then rbind (lower_model name schema discriminators) (\<lambda>d. Inr (Inl d))
        else rbind (type_expression schema) (\<lambda>t. Inr (Inr (AliasDecl name t))))))"

fun left_list :: "('a + 'b) list \<Rightarrow> 'a list" where
  "left_list [] = []"
| "left_list (Inl x # xs) = x # left_list xs"
| "left_list (Inr y # xs) = left_list xs"

fun right_list :: "('a + 'b) list \<Rightarrow> 'b list" where
  "right_list [] = []"
| "right_list (Inl x # xs) = right_list xs"
| "right_list (Inr y # xs) = y # right_list xs"

definition schema_declarations ::
  "(string \<times> json) list \<Rightarrow> (string, type_expr) dict \<Rightarrow> ir_error + client_decl list" where
  "schema_declarations schemas discriminators =
     rbind (traverse (schema_declaration discriminators) schemas) (\<lambda>ds. Inr (left_list ds @ right_list ds))"

text \<open>\<open>_discriminators\<close>: an enumeration for every alias that is discriminated by \<open>type\<close>.\<close>

definition discriminator_member ::
  "string \<Rightarrow> string \<times> json \<Rightarrow> ir_error + enum_member \<times> string \<times> type_expr" where
  "discriminator_member enum_name vr =
     (let (value, reference) = vr in
      rbind (member_name (JStr value)) (\<lambda>member.
      rbind (as_str reference) (\<lambda>r.
      Inr (\<lparr>em_name = member, em_value = JStr value\<rparr>, last_segment r, EnumLiteralType enum_name member))))"

fun discriminators ::
  "(string \<times> json) list \<Rightarrow> client_decl list \<Rightarrow> (string, type_expr) dict \<Rightarrow>
   ir_error + client_decl list \<times> (string, type_expr) dict" where
  "discriminators [] enums lits = Inr (enums, lits)"
| "discriminators ((alias_name, schema) # rest) enums lits =
     rbind (get_or ''discriminator'' JNull schema) (\<lambda>d.
     if \<not> truthy d then discriminators rest enums lits
     else rbind (get_opt ''propertyName'' d) (\<lambda>p.
       if p \<noteq> Some (JStr ''type'') then discriminators rest enums lits
       else rbind (get_req ''mapping'' d) (\<lambda>m.
         rbind (obj_items m) (\<lambda>entries.
         rbind (traverse (discriminator_member (alias_name @ ''Type'')) entries) (\<lambda>ms.
         discriminators rest (enums @ [EnumDecl (alias_name @ ''Type'') (map fst ms) False])
           (fold (\<lambda>(e, n, t). dict_set n t) ms lits))))))"

section \<open>Operations\<close>

record param_decl =
  pa_name :: json
  pa_type :: type_expr
  pa_required :: bool
  pa_default :: "json option"

record fault_decl =
  fa_rpc_code :: json
  fa_code :: string
  fa_message :: json
  fa_details :: "type_expr option"

record route_decl =
  rr_rpc_name :: string
  rr_operation :: string
  rr_path :: "string list"
  rr_member :: string
  rr_params :: "param_decl list"
  rr_params_model :: "string option"
  rr_result :: type_expr
  rr_summary :: json
  rr_description :: json
  rr_tags :: "json list"
  rr_errors :: "fault_decl list"
  rr_server :: "json option"
  rr_deprecated :: bool
  rr_idempotent :: bool

text \<open>\<open>*path, operation = name.split(".")\<close>.\<close>

definition name_path :: "string \<Rightarrow> string list" where
  "name_path n = butlast (split_on (CHR ''.'') n)"

definition name_operation :: "string \<Rightarrow> string" where
  "name_operation n = last (split_on (CHR ''.'') n)"

text \<open>The default of a parameter is read from a schema that must be an object.\<close>

definition lower_parameter :: "json \<Rightarrow> ir_error + param_decl" where
  "lower_parameter p =
     rbind (get_req ''schema'' p) (\<lambda>schema.
     rbind (get_req ''name'' p) (\<lambda>name.
     rbind (type_expression schema) (\<lambda>t.
     rbind (get_or ''required'' JNull p) (\<lambda>r.
     rbind (get_opt ''default'' schema) (\<lambda>d.
     Inr \<lparr>pa_name = name, pa_type = t, pa_required = truthy r, pa_default = d\<rparr>)))))"

definition lower_details :: "json option \<Rightarrow> ir_error + type_expr option" where
  "lower_details d =
     (case d of
        None \<Rightarrow> Inr None
      | Some JNull \<Rightarrow> Inr None
      | Some s \<Rightarrow> rbind (type_expression s) (\<lambda>t. Inr (Some t)))"

definition lower_error :: "json \<Rightarrow> ir_error + fault_decl" where
  "lower_error e =
     rbind (get_opt ''x-rpckit-code'' e) (\<lambda>c.
     case c of
       Some (JStr code) \<Rightarrow>
         rbind (unsupported_if (code = []) ErrorWithoutCode) (\<lambda>_.
         rbind (get_opt ''x-rpckit-details-schema'' e) (\<lambda>d.
         rbind (get_req ''code'' e) (\<lambda>rpc_code.
         rbind (get_req ''message'' e) (\<lambda>message.
         rbind (lower_details d) (\<lambda>details.
         Inr \<lparr>fa_rpc_code = rpc_code, fa_code = code, fa_message = message, fa_details = details\<rparr>)))))
     | _ \<Rightarrow> Inl (Unsupported ErrorWithoutCode))"

definition lower_errors :: "json \<Rightarrow> ir_error + fault_decl list" where
  "lower_errors j =
     rbind (get_or ''errors'' (JArr []) j) (\<lambda>es. rbind (py_iter es) (\<lambda>xs. traverse lower_error xs))"

definition lower_tags :: "json \<Rightarrow> ir_error + json list" where
  "lower_tags j =
     rbind (get_or ''tags'' (JArr []) j) (\<lambda>ts. rbind (py_iter ts) (\<lambda>xs. traverse (get_req ''name'') xs))"

text \<open>\<open>_server_reference\<close>: strings and objects have a length too, and the name \<open>null\<close> is no server.\<close>

definition server_reference :: "json \<Rightarrow> string \<Rightarrow> ir_error + json option" where
  "server_reference j owner =
     rbind (get_or ''servers'' (JArr []) j) (\<lambda>s.
     rbind (py_iter s) (\<lambda>xs.
     rbind (unsupported_if (1 < length xs) (MultipleServers owner)) (\<lambda>_.
     case (s, xs) of
       (_, []) \<Rightarrow> Inr None
     | (JArr _, x # _) \<Rightarrow> rbind (get_req ''name'' x) (\<lambda>n. Inr (if n = JNull then None else Some n))
     | _ \<Rightarrow> Inl Crash)))"

text \<open>The reference to the model of the parameters; \<open>null\<close> stands for none.\<close>

definition model_reference :: "json option \<Rightarrow> ir_error + string option" where
  "model_reference s =
     (case s of
        None \<Rightarrow> Inr None
      | Some JNull \<Rightarrow> Inr None
      | Some r \<Rightarrow> rbind (ref_name r) (\<lambda>n. Inr (Some n)))"

definition lower_route :: "json \<Rightarrow> ir_error + route_decl" where
  "lower_route m =
     rbind (has_member ''x-rpc-request-schema'' m) (\<lambda>known.
     rbind (get_req ''name'' m) (\<lambda>nm.
     rbind (if known then as_str nm else Inl (Unsupported (NoRequestSchema (case nm of JStr n \<Rightarrow> n | _ \<Rightarrow> [])))) (\<lambda>name.
     rbind (get_opt ''x-rpc-params-schema'' m) (\<lambda>params_schema.
     rbind (member_name (JStr name)) (\<lambda>member.
     rbind (get_or ''params'' (JArr []) m) (\<lambda>ps.
     rbind (py_iter ps) (\<lambda>ps'.
     rbind (traverse lower_parameter ps') (\<lambda>params.
     rbind (model_reference params_schema) (\<lambda>params_model.
     rbind (get_req ''result'' m) (\<lambda>r.
     rbind (get_req ''schema'' r) (\<lambda>rs.
     rbind (type_expression rs) (\<lambda>result.
     rbind (get_or ''summary'' (JStr []) m) (\<lambda>summary.
     rbind (get_or ''description'' (JStr []) m) (\<lambda>description.
     rbind (lower_tags m) (\<lambda>tags.
     rbind (lower_errors m) (\<lambda>errors.
     rbind (server_reference m (''Method '' @ name)) (\<lambda>server.
     rbind (get_or ''deprecated'' (JBool False) m) (\<lambda>deprecated.
     rbind (get_opt ''x-rpc-idempotent'' m) (\<lambda>idempotent.
     Inr \<lparr>rr_rpc_name = name, rr_operation = name_operation name, rr_path = name_path name,
          rr_member = member, rr_params = params, rr_params_model = params_model, rr_result = result,
          rr_summary = summary, rr_description = description, rr_tags = tags, rr_errors = errors,
          rr_server = server, rr_deprecated = truthy deprecated,
          rr_idempotent = (idempotent = Some (JBool True))\<rparr>)))))))))))))))))))"

end
