(* ===== verification/IrBuild.thy ===== *)
theory IrBuild
  imports Ir
begin

text \<open>
  \<open>codegen/ir.py\<close>, third part: events, servers, binary streams and raw sockets of a document, the tree
  of its namespaces, the declarations a client needs, and \<open>build_ir\<close> as a whole.
\<close>

section \<open>Events\<close>

record event_decl =
  ev_rpc_name :: string
  ev_operation :: string
  ev_path :: "string list"
  ev_payload :: type_expr
  ev_message :: type_expr
  ev_summary :: json
  ev_server :: "json option"
  ev_subscription :: bool
  ev_params_model :: "string option"
  ev_params :: "param_decl list"
  ev_errors :: "fault_decl list"

definition lower_notification :: "json \<Rightarrow> ir_error + event_decl" where
  "lower_notification n =
     rbind (get_req ''name'' n) (\<lambda>nm.
     rbind (as_str nm) (\<lambda>name.
     rbind (rbind (get_req ''payload'' n) type_expression) (\<lambda>payload.
     rbind (rbind (get_req ''message'' n) type_expression) (\<lambda>message.
     rbind (get_or ''summary'' (JStr []) n) (\<lambda>summary.
     rbind (lower_errors n) (\<lambda>errors.
     rbind (server_reference n (''Notification '' @ name)) (\<lambda>server.
     Inr \<lparr>ev_rpc_name = name, ev_operation = name_operation name, ev_path = name_path name,
          ev_payload = payload, ev_message = message, ev_summary = summary, ev_server = server,
          ev_subscription = False, ev_params_model = None, ev_params = [], ev_errors = errors\<rparr>)))))))"

text \<open>The parameters of a subscription are the properties of its model.\<close>

definition model_members :: "json \<Rightarrow> string option \<Rightarrow> ir_error + (string \<times> json) list \<times> json list" where
  "model_members schemas params_model =
     (case params_model of
        None \<Rightarrow> Inr ([], [])
      | Some n \<Rightarrow>
          rbind (get_req n schemas) (\<lambda>s.
          rbind (get_or ''properties'' (JObj []) s) (\<lambda>p.
          rbind (get_or ''required'' (JArr []) s) (\<lambda>r.
          rbind (py_set r) (\<lambda>required.
          rbind (obj_items p) (\<lambda>ps. Inr (ps, required)))))))"

definition lower_subscription :: "json \<Rightarrow> json \<Rightarrow> ir_error + event_decl" where
  "lower_subscription schemas s =
     rbind (get_req ''name'' s) (\<lambda>nm.
     rbind (as_str nm) (\<lambda>name.
     rbind (get_opt ''params'' s) (\<lambda>params_schema.
     rbind (model_reference params_schema) (\<lambda>params_model.
     rbind (model_members schemas params_model) (\<lambda>(properties, required).
     rbind (rbind (get_req ''payload'' s) type_expression) (\<lambda>payload.
     rbind (get_or ''summary'' (JStr []) s) (\<lambda>summary.
     rbind (server_reference s (''Subscription '' @ name)) (\<lambda>server.
     rbind (lower_errors s) (\<lambda>errors.
     rbind (traverse (\<lambda>(n, m). lower_parameter (JObj [(''name'', JStr n), (''schema'', m),
              (''required'', JBool (JStr n \<in> set required))])) properties) (\<lambda>params.
     Inr \<lparr>ev_rpc_name = name, ev_operation = name_operation name, ev_path = name_path name,
          ev_payload = payload, ev_message = PrimitiveType PrimAny, ev_summary = summary,
          ev_server = server, ev_subscription = True, ev_params_model = params_model,
          ev_params = params, ev_errors = errors\<rparr>))))))))))"

definition lower_notifications :: "json \<Rightarrow> json \<Rightarrow> ir_error + event_decl list" where
  "lower_notifications doc schemas =
     rbind (get_or ''x-rpc-notifications'' (JArr []) doc) (\<lambda>n.
     rbind (py_iter n) (\<lambda>ns.
     rbind (traverse lower_notification ns) (\<lambda>events.
     rbind (get_or ''x-rpc-subscriptions'' (JArr []) doc) (\<lambda>s.
     rbind (py_iter s) (\<lambda>ss.
     rbind (traverse (lower_subscription schemas) ss) (\<lambda>subscriptions.
     Inr (events @ subscriptions)))))))"

section \<open>Servers\<close>

record variable_decl =
  va_name :: string
  va_default :: json
  va_description :: json
  va_enum :: "json list"

record transport_decl =
  tr_type :: string
  tr_encoding :: "json option"
  tr_subprotocols :: "string list"
  tr_options :: "(string \<times> json) list"

record server_decl =
  se_name :: json
  se_url :: json
  se_summary :: json
  se_description :: json
  se_variables :: "variable_decl list"
  se_transport :: "transport_decl option"

definition lower_variable :: "string \<times> json \<Rightarrow> ir_error + variable_decl" where
  "lower_variable nv =
     (let (name, v) = nv in
      rbind (get_req ''default'' v) (\<lambda>d.
      rbind (get_or ''description'' (JStr []) v) (\<lambda>t.
      rbind (get_or ''enum'' (JArr []) v) (\<lambda>e.
      rbind (py_iter e) (\<lambda>es.
      Inr \<lparr>va_name = name, va_default = d, va_description = t, va_enum = es\<rparr>)))))"

fun str_items :: "json list \<Rightarrow> string list option" where
  "str_items [] = Some []"
| "str_items (JStr s # xs) = map_option ((#) s) (str_items xs)"
| "str_items (x # xs) = None"

definition is_absent :: "json option \<Rightarrow> bool" where
  "is_absent j = (j = None \<or> j = Some JNull)"

text \<open>\<open>_transport\<close> of a server; a JSON array is the only list a document has.\<close>

definition lower_transport :: "json option \<Rightarrow> string \<Rightarrow> ir_error + transport_decl option" where
  "lower_transport value owner =
     (if is_absent value then Inr None
      else case value of
        Some (JObj m) \<Rightarrow>
          (case map_of m ''type'' of
             Some (JStr (c # cs)) \<Rightarrow>
               (let encoding = map_of m ''messageEncoding'' in
                rbind (unsupported_if (\<not> (is_absent encoding \<or> (case encoding of Some (JStr s) \<Rightarrow> True | _ \<Rightarrow> False)))
                         (BadTransport owner)) (\<lambda>_.
                rbind (case map_of m ''subprotocols'' of
                         None \<Rightarrow> Inr []
                       | Some (JArr xs) \<Rightarrow>
                           (case str_items xs of None \<Rightarrow> Inl (Unsupported (BadTransport owner)) | Some ss \<Rightarrow> Inr ss)
                       | _ \<Rightarrow> Inl (Unsupported (BadTransport owner))) (\<lambda>subprotocols.
                rbind (unsupported_if (c # cs = ''websocket'' \<and> encoding \<noteq> Some (JStr ''json'')) (BadTransport owner)) (\<lambda>_.
                Inr (Some \<lparr>tr_type = c # cs, tr_encoding = encoding, tr_subprotocols = subprotocols,
                  tr_options = filter (\<lambda>p. fst p \<notin> {''type'', ''messageEncoding'', ''subprotocols''}) m\<rparr>)))))
           | _ \<Rightarrow> Inl (Unsupported (BadTransport owner)))
      | _ \<Rightarrow> Inl (Unsupported (BadTransport owner)))"

definition json_text :: "json \<Rightarrow> string" where
  "json_text j = (case j of JStr s \<Rightarrow> s | _ \<Rightarrow> [])"

definition lower_server :: "json \<Rightarrow> ir_error + server_decl" where
  "lower_server s =
     rbind (get_req ''name'' s) (\<lambda>name.
     rbind (get_req ''url'' s) (\<lambda>url.
     rbind (get_or ''summary'' (JStr []) s) (\<lambda>summary.
     rbind (get_or ''description'' (JStr []) s) (\<lambda>description.
     rbind (get_or ''variables'' (JObj []) s) (\<lambda>v.
     rbind (obj_items v) (\<lambda>vs.
     rbind (traverse lower_variable vs) (\<lambda>variables.
     rbind (get_opt ''x-rpckit-transport'' s) (\<lambda>t.
     rbind (lower_transport t (json_text name)) (\<lambda>transport.
     Inr \<lparr>se_name = name, se_url = url, se_summary = summary, se_description = description,
          se_variables = variables, se_transport = transport\<rparr>)))))))))"

definition lower_servers :: "json \<Rightarrow> ir_error + server_decl list" where
  "lower_servers doc =
     rbind (get_or ''servers'' (JArr []) doc) (\<lambda>s. rbind (py_iter s) (\<lambda>ss. traverse lower_server ss))"

section \<open>Binary streams and raw sockets\<close>

record stream_decl =
  sr_rpc_name :: string
  sr_operation :: string
  sr_path :: "string list"
  sr_url :: string
  sr_content_type :: "string option"
  sr_summary :: json
  sr_description :: json
  sr_tags :: "json list"
  sr_variables :: "variable_decl list"
  sr_subprotocols :: "string list"
  sr_direction :: string
  sr_input_content_type :: "string option"
  sr_call_variables :: "variable_decl list"

record socket_decl =
  so_rpc_name :: string
  so_operation :: string
  so_path :: "string list"
  so_url :: string
  so_message_types :: "string list"
  so_summary :: json
  so_description :: json
  so_variables :: "variable_decl list"
  so_subprotocols :: "string list"
  so_call_variables :: "variable_decl list"

definition lower_subprotocols :: "(string \<times> json) list \<Rightarrow> string \<Rightarrow> ir_error + string list" where
  "lower_subprotocols m owner =
     (case map_of m ''subprotocols'' of
        None \<Rightarrow> Inr []
      | Some (JArr xs) \<Rightarrow>
          (case str_items xs of
             Some ss \<Rightarrow> if [] \<in> set ss then Inl (Unsupported (BadSubprotocols owner)) else Inr ss
           | None \<Rightarrow> Inl (Unsupported (BadSubprotocols owner)))
      | _ \<Rightarrow> Inl (Unsupported (BadSubprotocols owner)))"

definition url_variables :: "(string \<times> json) list \<Rightarrow> string \<Rightarrow> ir_error + variable_decl list" where
  "url_variables m owner =
     (case map_of m ''variables'' of
        None \<Rightarrow> Inr []
      | Some (JObj vs) \<Rightarrow> traverse lower_variable vs
      | _ \<Rightarrow> Inl (Unsupported (BadVariables owner)))"

definition entry_name :: "string \<Rightarrow> (string \<times> json) list \<Rightarrow> ir_error + string" where
  "entry_name kind m =
     (case map_of m ''name'' of Some (JStr (c # cs)) \<Rightarrow> Inr (c # cs) | _ \<Rightarrow> Inl (Unsupported (NoEntryName kind)))"

definition entry_url :: "string \<Rightarrow> string \<Rightarrow> (string \<times> json) list \<Rightarrow> ir_error + string" where
  "entry_url kind name m =
     (case map_of m ''url'' of Some (JStr (c # cs)) \<Rightarrow> Inr (c # cs) | _ \<Rightarrow> Inl (Unsupported (NoEntryUrl kind name)))"

definition stream_direction_text :: "string \<Rightarrow> (string \<times> json) list \<Rightarrow> ir_error + string" where
  "stream_direction_text name m =
     (case map_of m ''direction'' of
        Some (JStr d) \<Rightarrow>
          if d \<in> {''server-to-client'', ''client-to-server'', ''bidirectional''} then Inr d
          else Inl (Unsupported (BadDirection name))
      | _ \<Rightarrow> Inl (Unsupported (BadDirection name)))"

text \<open>The content types: none in a direction that has no data, and a default for the output.\<close>

definition output_type :: "string \<Rightarrow> string \<Rightarrow> json option \<Rightarrow> ir_error + string option" where
  "output_type name direction c =
     (if direction = ''client-to-server''
      then (if is_absent c then Inr None else Inl (Unsupported (OutputContentType name)))
      else (case c of
              None \<Rightarrow> Inr (Some ''application/octet-stream'')
            | Some j \<Rightarrow>
                if \<not> truthy j then Inr (Some ''application/octet-stream'')
                else (case j of JStr s \<Rightarrow> Inr (Some s) | _ \<Rightarrow> Inl (Unsupported (OutputContentType name)))))"

definition input_type :: "string \<Rightarrow> string \<Rightarrow> json option \<Rightarrow> ir_error + string option" where
  "input_type name direction c =
     (if direction = ''server-to-client''
      then (if is_absent c then Inr None else Inl (Unsupported (InputContentType name)))
      else (case c of Some (JStr (d # ds)) \<Rightarrow> Inr (Some (d # ds)) | _ \<Rightarrow> Inl (Unsupported (InputContentType name))))"

definition call_variables :: "string list \<Rightarrow> variable_decl list \<Rightarrow> variable_decl list" where
  "call_variables server_variables declared = filter (\<lambda>v. va_name v \<notin> set server_variables) declared"

definition lower_stream :: "string list \<Rightarrow> json \<Rightarrow> string list \<Rightarrow> ir_error + stream_decl" where
  "lower_stream server_variables value names =
     (case value of
        JObj m \<Rightarrow>
          rbind (entry_name ''Binary stream'' m) (\<lambda>name.
          rbind (unsupported_if (name \<in> set names) (DuplicateEntry ''binary stream'' name)) (\<lambda>_.
          rbind (entry_url ''Binary stream'' name m) (\<lambda>url.
          rbind (stream_direction_text name m) (\<lambda>direction.
          rbind (output_type name direction (map_of m ''contentType'')) (\<lambda>content_type.
          rbind (input_type name direction (map_of m ''inputContentType'')) (\<lambda>input_content_type.
          rbind (unsupported_if (case map_of m ''frameType'' of None \<Rightarrow> False | Some f \<Rightarrow> f \<noteq> JStr ''binary'')
                   (BadFrameType name)) (\<lambda>_.
          rbind (lower_subprotocols m name) (\<lambda>subprotocols.
          rbind (url_variables m name) (\<lambda>declared.
          rbind (get_or ''summary'' (JStr []) value) (\<lambda>summary.
          rbind (get_or ''description'' (JStr []) value) (\<lambda>description.
          rbind (lower_tags value) (\<lambda>tags.
          Inr \<lparr>sr_rpc_name = name, sr_operation = name_operation name, sr_path = name_path name, sr_url = url,
               sr_content_type = content_type, sr_summary = summary, sr_description = description,
               sr_tags = tags, sr_variables = declared, sr_subprotocols = subprotocols,
               sr_direction = direction, sr_input_content_type = input_content_type,
               sr_call_variables = call_variables server_variables declared\<rparr>))))))))))))
      | _ \<Rightarrow> Inl (Unsupported (EntryNotObject ''Binary stream'')))"

text \<open>An array of entries with distinct names.\<close>

definition lower_entry ::
  "(json \<Rightarrow> string list \<Rightarrow> ir_error + 'd) \<Rightarrow> ('d \<Rightarrow> string) \<Rightarrow> json \<Rightarrow> 'd list \<Rightarrow> ir_error + 'd list" where
  "lower_entry lower name value ds = rbind (lower value (map name ds)) (\<lambda>d. Inr (ds @ [d]))"

definition lower_entries ::
  "string \<Rightarrow> (json \<Rightarrow> string list \<Rightarrow> ir_error + 'd) \<Rightarrow> ('d \<Rightarrow> string) \<Rightarrow> json \<Rightarrow> ir_error + 'd list" where
  "lower_entries key lower name doc =
     rbind (get_or key (JArr []) doc) (\<lambda>v.
     case v of
       JArr values \<Rightarrow> fold_res (lower_entry lower name) values []
     | _ \<Rightarrow> Inl (Unsupported (NotArray key)))"

definition lower_streams :: "json \<Rightarrow> string list \<Rightarrow> ir_error + stream_decl list" where
  "lower_streams doc server_variables =
     lower_entries ''x-rpckit-binary-streams'' (lower_stream server_variables) sr_rpc_name doc"

definition message_list :: "string \<Rightarrow> json option \<Rightarrow> ir_error + string list" where
  "message_list name v =
     (case v of
        None \<Rightarrow> Inr [''text'', ''binary'']
      | Some (JArr xs) \<Rightarrow>
          (case str_items xs of
             Some ss \<Rightarrow>
               if ss = [] \<or> \<not> set ss \<subseteq> {''text'', ''binary''} \<or> \<not> distinct ss
               then Inl (Unsupported (BadMessageList name)) else Inr ss
           | None \<Rightarrow> Inl (Unsupported (BadMessageList name)))
      | _ \<Rightarrow> Inl (Unsupported (BadMessageList name)))"

definition lower_socket :: "string list \<Rightarrow> json \<Rightarrow> string list \<Rightarrow> ir_error + socket_decl" where
  "lower_socket server_variables value names =
     (case value of
        JObj m \<Rightarrow>
          rbind (entry_name ''Raw socket'' m) (\<lambda>name.
          rbind (unsupported_if (name \<in> set names) (DuplicateEntry ''raw socket'' name)) (\<lambda>_.
          rbind (entry_url ''Raw socket'' name m) (\<lambda>url.
          rbind (message_list name (map_of m ''messageTypes'')) (\<lambda>message_types.
          rbind (url_variables m name) (\<lambda>declared.
          rbind (get_or ''summary'' (JStr []) value) (\<lambda>summary.
          rbind (get_or ''description'' (JStr []) value) (\<lambda>description.
          rbind (lower_subprotocols m name) (\<lambda>subprotocols.
          Inr \<lparr>so_rpc_name = name, so_operation = name_operation name, so_path = name_path name, so_url = url,
               so_message_types = message_types, so_summary = summary, so_description = description,
               so_variables = declared, so_subprotocols = subprotocols,
               so_call_variables = call_variables server_variables declared\<rparr>))))))))
      | _ \<Rightarrow> Inl (Unsupported (EntryNotObject ''Raw socket'')))"

definition lower_sockets :: "json \<Rightarrow> string list \<Rightarrow> ir_error + socket_decl list" where
  "lower_sockets doc server_variables =
     lower_entries ''x-rpckit-raw-sockets'' (lower_socket server_variables) so_rpc_name doc"

end
