(* ===== verification/IrClient.thy ===== *)
theory IrClient
  imports IrBuild
begin

text \<open>
  \<open>codegen/ir.py\<close>, last part: the tree of namespaces, the declarations that a client reaches from its
  own surface, and \<open>build_ir\<close>.
\<close>

section \<open>The tree of namespaces\<close>

datatype api_item = RouteItem route_decl | StreamItem stream_decl | SocketItem socket_decl

fun item_path :: "api_item \<Rightarrow> string list" where
  "item_path (RouteItem r) = rr_path r"
| "item_path (StreamItem s) = sr_path s"
| "item_path (SocketItem s) = so_path s"

fun item_routes :: "api_item list \<Rightarrow> route_decl list" where
  "item_routes [] = []"
| "item_routes (RouteItem r # xs) = r # item_routes xs"
| "item_routes (x # xs) = item_routes xs"

fun item_streams :: "api_item list \<Rightarrow> stream_decl list" where
  "item_streams [] = []"
| "item_streams (StreamItem r # xs) = r # item_streams xs"
| "item_streams (x # xs) = item_streams xs"

fun item_sockets :: "api_item list \<Rightarrow> socket_decl list" where
  "item_sockets [] = []"
| "item_sockets (SocketItem r # xs) = r # item_sockets xs"
| "item_sockets (x # xs) = item_sockets xs"

datatype api_node =
  ApiNode (an_segment: string) (an_path: "string list") (an_operations: "route_decl list")
    (an_streams: "stream_decl list") (an_sockets: "socket_decl list") (an_children: "api_node list")

fun make_node :: "string list \<Rightarrow> string \<Rightarrow> (unit, api_item) ptree \<Rightarrow> api_node" where
  "make_node parent s (PNode m xs cs) =
     ApiNode s (parent @ [s]) (item_routes xs) (item_streams xs) (item_sockets xs)
       (map (\<lambda>(k, t). make_node (parent @ [s]) k t) cs)"

definition api_items ::
  "route_decl list \<Rightarrow> stream_decl list \<Rightarrow> socket_decl list \<Rightarrow> api_item list" where
  "api_items routes streams sockets = map RouteItem routes @ map StreamItem streams @ map SocketItem sockets"

definition api_tree :: "route_decl list \<Rightarrow> stream_decl list \<Rightarrow> socket_decl list \<Rightarrow> api_node list" where
  "api_tree routes streams sockets =
     map (\<lambda>(k, t). make_node [] k t) (build_tree (\<lambda>x i. ()) item_path (api_items routes streams sockets))"

fun walk_api :: "api_node \<Rightarrow> api_node list" where
  "walk_api (ApiNode s p rs ss os cs) = ApiNode s p rs ss os cs # concat (map walk_api cs)"

section \<open>The declarations a client reaches\<close>

fun dependencies :: "client_decl \<Rightarrow> string list" where
  "dependencies (ModelDecl n fs c) = concat (map (\<lambda>f. named_types (fd_type f)) fs)"
| "dependencies (AliasDecl n t) = named_types t"
| "dependencies (EnumDecl n ms i) = []"

text \<open>\<open>by_name\<close>: of two declarations with one name, the last.\<close>

definition decl_table :: "client_decl list \<Rightarrow> (string, client_decl) dict" where
  "decl_table ds = fold (\<lambda>d. dict_set (decl_name d) d) ds []"

text \<open>
  The loop over \<open>pending\<close>: \<open>pop\<close> takes the last entry. The order in which Python gives the members of
  a set is not fixed; here it is that of the type expressions.
\<close>

function reach_loop ::
  "(string, client_decl) dict \<Rightarrow> string list \<Rightarrow> string list \<Rightarrow> string list" where
  "reach_loop table keep pending =
     (if pending = [] then keep
      else
        let name = last pending; rest = butlast pending in
        if name \<in> set keep then reach_loop table keep rest
        else
          case map_of table name of
            None \<Rightarrow> reach_loop table keep rest
          | Some d \<Rightarrow>
              reach_loop table (keep @ [name])
                (rest @ filter (\<lambda>n. dict_has n table \<and> n \<notin> set (keep @ [name])) (dependencies d)))"
  by pat_completeness auto
termination
proof (relation "measures [\<lambda>(t, k, p). card (fst ` set t - set k), \<lambda>(t, k, p). length p]", goal_cases)
  case 1
  then show ?case by simp
next
  case (2 table keep pending name rest)
  then show ?case by (intro measures_lesseq measures_less) simp_all
next
  case (3 table keep pending name rest)
  then show ?case by (intro measures_lesseq measures_less) simp_all
next
  case (4 table keep pending name rest d)
  then have "fst ` set table - set (keep @ [name]) \<subset> fst ` set table - set keep"
    using map_of_SomeD [of table name d] by (auto simp: rev_image_eqI)
  then have "card (fst ` set table - set (keep @ [name])) < card (fst ` set table - set keep)"
    by (intro psubset_card_mono) simp_all
  then show ?case by (intro measures_less) simp
qed

declare reach_loop.simps [simp del]

definition reachable :: "client_decl list \<Rightarrow> string list \<Rightarrow> client_decl list" where
  "reachable ds roots =
     (let table = decl_table ds;
          keep = reach_loop table [] (filter (\<lambda>n. dict_has n table) roots)
      in filter (\<lambda>d. decl_name d \<in> set keep) ds)"

definition opt_list :: "'a option \<Rightarrow> 'a list" where
  "opt_list x = (case x of None \<Rightarrow> [] | Some y \<Rightarrow> [y])"

definition fault_types :: "fault_decl list \<Rightarrow> string list" where
  "fault_types es = concat (map (\<lambda>e. concat (map named_types (opt_list (fa_details e)))) es)"

definition param_types :: "param_decl list \<Rightarrow> string list" where
  "param_types ps = concat (map (\<lambda>p. named_types (pa_type p)) ps)"

definition route_roots :: "route_decl \<Rightarrow> string list" where
  "route_roots r =
     opt_list (rr_params_model r) @ named_types (rr_result r) @ param_types (rr_params r)
     @ fault_types (rr_errors r)"

definition event_roots :: "event_decl \<Rightarrow> string list" where
  "event_roots e =
     fault_types (ev_errors e) @ named_types (ev_payload e) @ named_types (ev_message e)
     @ opt_list (ev_params_model e) @ param_types (ev_params e)"

definition surface_roots :: "route_decl list \<Rightarrow> event_decl list \<Rightarrow> string list" where
  "surface_roots routes events = fromkeys (concat (map route_roots routes) @ concat (map event_roots events))"

section \<open>The client\<close>

text \<open>The version is the member of the document, of which the code takes \<open>str\<close>.\<close>

record client_ir =
  ir_title :: json
  ir_version :: json
  ir_protocol_version :: "json option"
  ir_heartbeat :: bool
  ir_request_metadata :: bool
  ir_servers :: "server_decl list"
  ir_declarations :: "client_decl list"
  ir_root_operations :: "route_decl list"
  ir_api :: "api_node list"
  ir_notifications :: "event_decl list"
  ir_streams :: "stream_decl list"
  ir_client_methods :: "route_decl list"
  ir_sockets :: "socket_decl list"

definition ir_operations :: "client_ir \<Rightarrow> route_decl list" where
  "ir_operations ir = ir_root_operations ir @ concat (map an_operations (concat (map walk_api (ir_api ir))))"

definition undeclared_servers :: "route_decl list \<Rightarrow> event_decl list \<Rightarrow> server_decl list \<Rightarrow> json list" where
  "undeclared_servers routes events servers =
     filter (\<lambda>s. s \<notin> se_name ` set servers)
       (concat (map (\<lambda>r. opt_list (rr_server r)) routes) @ concat (map (\<lambda>e. opt_list (ev_server e)) events))"

definition hashable :: "json \<Rightarrow> bool" where
  "hashable j = (case j of JArr xs \<Rightarrow> False | JObj m \<Rightarrow> False | _ \<Rightarrow> True)"

text \<open>Names that are no strings cannot be joined in the message.\<close>

definition validate_servers :: "route_decl list \<Rightarrow> event_decl list \<Rightarrow> server_decl list \<Rightarrow> ir_error + unit" where
  "validate_servers routes events servers =
     (if \<not> list_all (\<lambda>s. hashable (se_name s)) servers then Inl Crash
      else case undeclared_servers routes events servers of
        [] \<Rightarrow> Inr ()
      | missing \<Rightarrow>
          (case str_items missing of None \<Rightarrow> Inl Crash | Some ss \<Rightarrow> Inl (Unsupported (UndeclaredServers ss))))"

definition is_heartbeat :: "json option \<Rightarrow> bool" where
  "is_heartbeat h =
     (case h of
        Some (JObj m) \<Rightarrow>
          set (map fst m) = {''method'', ''params'', ''result''} \<and> map_of m ''method'' = Some (JStr ''$/ping'')
          \<and> map_of m ''params'' = Some (JObj []) \<and> map_of m ''result'' = Some JNull
      | _ \<Rightarrow> False)"

definition is_metadata_capability :: "json option \<Rightarrow> bool" where
  "is_metadata_capability c =
     (case c of
        Some (JObj m) \<Rightarrow>
          set (map fst m) = {''version'', ''location'', ''member'', ''maxBytes'', ''allowedKeys''}
          \<and> map_of m ''version'' = Some (JInt 1) \<and> map_of m ''location'' = Some (JStr ''envelope'')
          \<and> map_of m ''member'' = Some (JStr ''meta'') \<and> map_of m ''maxBytes'' = Some (JInt 4096)
          \<and> map_of m ''allowedKeys'' = Some (JArr (map JStr [''traceparent'', ''tracestate'', ''baggage'']))
      | _ \<Rightarrow> False)"

definition document_routes :: "json \<Rightarrow> ir_error + route_decl list" where
  "document_routes doc = rbind (rbind (get_or ''methods'' (JArr []) doc) py_iter) (traverse lower_route)"

definition build_ir :: "json \<Rightarrow> ir_error + client_ir" where
  "build_ir doc =
     rbind (rbind (get_or ''components'' (JObj []) doc) (get_or ''schemas'' (JObj []))) (\<lambda>schemas_json.
     rbind (obj_items schemas_json) (\<lambda>schemas.
     rbind (discriminators schemas [] []) (\<lambda>(enums, literals).
     rbind (get_or ''info'' (JObj []) doc) (\<lambda>info.
     rbind (document_routes doc) (\<lambda>routes.
     rbind (lower_servers doc) (\<lambda>servers.
     let server_variables = concat (map (\<lambda>s. map va_name (se_variables s)) servers) in
     rbind (lower_streams doc server_variables) (\<lambda>streams.
     rbind (lower_sockets doc server_variables) (\<lambda>sockets.
     let both = filter (\<lambda>n. n \<in> set (map so_rpc_name sockets)) (map sr_rpc_name streams) in
     rbind (unsupported_if (both \<noteq> []) (StreamAndSocket both)) (\<lambda>_.
     let api = api_tree (filter (\<lambda>r. rr_path r \<noteq> []) routes) (filter (\<lambda>s. sr_path s \<noteq> []) streams)
                 (filter (\<lambda>s. so_path s \<noteq> []) sockets) in
     rbind (lower_notifications doc schemas_json) (\<lambda>events.
     rbind (rbind (rbind (get_or ''x-rpc-client-methods'' (JArr []) doc) py_iter) (traverse lower_route)) (\<lambda>client_methods.
     rbind (validate_servers (routes @ client_methods) events servers) (\<lambda>_.
     rbind (schema_declarations schemas literals) (\<lambda>ds.
     rbind (get_or ''title'' (JStr ''RPC'') info) (\<lambda>title.
     rbind (get_or ''version'' (JStr ''0.0.0'') info) (\<lambda>version.
     rbind (get_opt ''x-rpc-protocol-version'' doc) (\<lambda>protocol_version.
     rbind (get_opt ''x-rpc-heartbeat'' doc) (\<lambda>heartbeat.
     rbind (get_opt ''x-rpc-request-metadata'' doc) (\<lambda>metadata.
     Inr \<lparr>ir_title = title, ir_version = version, ir_protocol_version = protocol_version,
          ir_heartbeat = is_heartbeat heartbeat, ir_request_metadata = is_metadata_capability metadata,
          ir_servers = servers,
          ir_declarations = reachable (enums @ ds) (surface_roots (routes @ client_methods) events),
          ir_root_operations = filter (\<lambda>r. rr_path r = []) routes, ir_api = api,
          ir_notifications = events, ir_streams = streams, ir_client_methods = client_methods,
          ir_sockets = sockets\<rparr>))))))))))))))))))"

end
