(* ===== verification/Names.thy ===== *)
theory Names
  imports IrTypes
begin

text \<open>
  \<open>codegen/names.py\<close>: how the names of a contract become identifiers, and the check that two names do not
  become the same one. The two substitutions of \<open>_words\<close> put an underscore between two capitals of which
  a small letter follows the second, and between a small letter or digit and a capital.
\<close>

section \<open>Words\<close>

definition word_char :: "char \<Rightarrow> bool" where
  "word_char c = (is_upper c \<or> is_lower c \<or> is_digit c)"

fun split_acronyms :: "string \<Rightarrow> string" where
  "split_acronyms (a # b # c # s) =
     (if is_upper a \<and> is_upper b \<and> is_lower c then a # CHR ''_'' # split_acronyms (b # c # s)
      else a # split_acronyms (b # c # s))"
| "split_acronyms s = s"

fun split_humps :: "string \<Rightarrow> string" where
  "split_humps (a # b # s) =
     (if (is_lower a \<or> is_digit a) \<and> is_upper b then a # CHR ''_'' # split_humps (b # s)
      else a # split_humps (b # s))"
| "split_humps s = s"

text \<open>\<open>re.split\<close> at what is no letter or digit, without the empty parts.\<close>

function word_parts :: "string \<Rightarrow> string list" where
  "word_parts s =
     (case dropWhile (\<lambda>c. \<not> word_char c) s of
        [] \<Rightarrow> []
      | c # t \<Rightarrow> (c # takeWhile word_char t) # word_parts (dropWhile word_char t))"
  by pat_completeness auto
termination
proof (relation "measure length")
  fix s c t
  assume d: "dropWhile (\<lambda>c. \<not> word_char c) s = c # t"
  have "length (dropWhile word_char t) < length (c # t)" by (simp add: less_Suc_eq_le length_dropWhile_le)
  also have "length (c # t) \<le> length s" unfolding d [symmetric] by (rule length_dropWhile_le)
  finally show "(dropWhile word_char t, s) \<in> measure length" by simp
qed simp

declare word_parts.simps [simp del]

definition words :: "string \<Rightarrow> string list" where
  "words s = word_parts (split_humps (split_acronyms s))"

definition snake_case :: "string \<Rightarrow> string" where
  "snake_case s = join ''_'' (map (map to_lower) (words s))"

definition camel_case :: "string \<Rightarrow> string" where
  "camel_case s =
     (case words s of [] \<Rightarrow> [] | first # rest \<Rightarrow> map to_lower first @ concat (map capitalize rest))"

definition pascal_name :: "string \<Rightarrow> string" where
  "pascal_name s = concat (map capitalize (words s))"

section \<open>The words of a name\<close>

lemma word_parts_Nil: "word_parts [] = []"
  by (subst word_parts.simps) simp

lemma word_parts_step:
  "dropWhile (\<lambda>c. \<not> word_char c) s = c # t \<Longrightarrow>
   word_parts s = (c # takeWhile word_char t) # word_parts (dropWhile word_char t)"
  and word_parts_done: "dropWhile (\<lambda>c. \<not> word_char c) s = [] \<Longrightarrow> word_parts s = []"
  by (subst word_parts.simps, simp only: list.case)+

lemma word_parts_chars: "w \<in> set (word_parts s) \<Longrightarrow> w \<noteq> [] \<and> list_all word_char w"
proof (induction s rule: word_parts.induct)
  case (1 s)
  show ?case
  proof (cases "dropWhile (\<lambda>c. \<not> word_char c) s")
    case Nil
    with 1(2) show ?thesis by (simp add: word_parts_done)
  next
    case (Cons c t)
    have "word_char c" using hd_dropWhile [of "\<lambda>c. \<not> word_char c" s] unfolding Cons by simp
    moreover have "list_all word_char (takeWhile word_char t)" unfolding list_all_iff by (blast dest: set_takeWhileD)
    moreover have "w = c # takeWhile word_char t \<or> w \<in> set (word_parts (dropWhile word_char t))"
      using 1(2) by (simp add: word_parts_step [OF Cons])
    ultimately show ?thesis using 1(1) [OF Cons] by (elim disjE) simp_all
  qed
qed

lemma words_chars: "w \<in> set (words s) \<Longrightarrow> w \<noteq> [] \<and> list_all word_char w"
  unfolding words_def by (rule word_parts_chars)

lemma word_parts_word: "w \<noteq> [] \<Longrightarrow> list_all word_char w \<Longrightarrow> word_parts w = [w]"
proof -
  assume "w \<noteq> []" "list_all word_char w"
  then obtain c t where c: "w = c # t" "word_char c" "list_all word_char t" by (cases w) auto
  then have t: "takeWhile word_char t = t" "dropWhile word_char t = []" by (simp_all add: list_all_iff)
  have "dropWhile (\<lambda>c. \<not> word_char c) w = c # t" using c by simp
  from word_parts_step [OF this] c t show ?thesis by (simp only: word_parts_Nil)
qed

lemma word_parts_sep:
  "w \<noteq> [] \<Longrightarrow> list_all word_char w \<Longrightarrow> word_parts (w @ CHR ''_'' # s) = w # word_parts s"
proof -
  have u: "\<not> word_char (CHR ''_'')" by (simp add: word_char_def char_classes)
  assume w: "w \<noteq> []" "list_all word_char w"
  then obtain c t where c: "w = c # t" "word_char c" "list_all word_char t" by (cases w) auto
  have "takeWhile word_char (t @ CHR ''_'' # s) = t" "dropWhile word_char (t @ CHR ''_'' # s) = CHR ''_'' # s"
    using c(3) u by (auto simp: list_all_iff takeWhile_append dropWhile_append)
  moreover have "word_parts (CHR ''_'' # s) = word_parts s"
    by (subst (1 2) word_parts.simps) (simp add: u)
  moreover have "dropWhile (\<lambda>c. \<not> word_char c) (w @ CHR ''_'' # s) = c # (t @ CHR ''_'' # s)" using c by simp
  ultimately show ?thesis using c by (simp add: word_parts_step)
qed

lemma word_parts_join:
  "\<forall>w\<in>set ws. w \<noteq> [] \<and> list_all word_char w \<Longrightarrow> word_parts (join ''_'' ws) = ws"
proof (induction ws)
  case (Cons w ws)
  then show ?case
    by (cases "ws = []") (auto simp: join_cons word_parts_word word_parts_sep)
qed (simp add: word_parts_Nil)

text \<open>Text without capitals has no other boundaries.\<close>

lemma split_acronyms_small: "list_all (\<lambda>c. \<not> is_upper c) s \<Longrightarrow> split_acronyms s = s"
  by (induction s rule: split_acronyms.induct) auto

lemma split_humps_small: "list_all (\<lambda>c. \<not> is_upper c) s \<Longrightarrow> split_humps s = s"
  by (induction s rule: split_humps.induct) auto

lemma word_char_to_lower: "word_char c \<Longrightarrow> word_char (to_lower c)"
  by (cases "is_upper c") (simp_all add: word_char_def)

lemma join_chars: "set (join sep ws) \<subseteq> set sep \<union> \<Union> (set ` set ws)"
  by (induction sep ws rule: join.induct) auto

lemma words_snake: "words (snake_case s) = map (map to_lower) (words s)"
proof -
  let ?ws = "map (map to_lower) (words s)"
  have "list_all (\<lambda>c. \<not> is_upper c) (join ''_'' ?ws)"
    using join_chars [of "''_''" ?ws] to_lower_not_upper
    by (fastforce simp: list_all_iff char_classes)
  then have "words (snake_case s) = word_parts (join ''_'' ?ws)"
    by (simp add: words_def snake_case_def split_acronyms_small split_humps_small)
  also have "\<dots> = ?ws"
    by (rule word_parts_join) (auto simp: list_all_iff word_char_to_lower dest: words_chars)
  finally show ?thesis .
qed

lemma to_lower_twice [simp]: "to_lower (to_lower c) = to_lower c"
  by (simp add: to_lower_not_upper)

lemma to_upper_lower: "word_char c \<Longrightarrow> to_upper (to_lower c) = to_upper c"
  by (auto simp: word_char_def to_upper_def to_lower_def char_classes)

lemma capitalize_lower: "list_all word_char w \<Longrightarrow> capitalize (map to_lower w) = capitalize w"
  by (cases w) (simp_all add: to_upper_lower comp_def)

text \<open>The snake case of a name is a normal form of it: it is its own snake case, and the camel case and the
  Pascal case of a name are those of its snake case. So two names with one snake case agree in every
  spelling.\<close>

theorem case_conversions:
  "snake_case (snake_case s) = snake_case s
   \<and> camel_case (snake_case s) = camel_case s
   \<and> pascal_name (snake_case s) = pascal_name s"
proof -
  have c: "map (capitalize \<circ> map to_lower) ws = map capitalize ws" if "set ws \<subseteq> set (words s)" for ws
    using that words_chars by (auto simp: capitalize_lower subset_iff)
  have "snake_case (snake_case s) = snake_case s"
    unfolding snake_case_def [of "snake_case s"] words_snake by (simp add: snake_case_def comp_def)
  moreover have "pascal_name (snake_case s) = pascal_name s"
    by (simp only: pascal_name_def words_snake map_map c [OF subset_refl])
  moreover have "camel_case (snake_case s) = camel_case s"
  proof (cases "words s")
    case (Cons w ws)
    then show ?thesis using c [of ws, unfolded Cons, OF set_subset_Cons]
      by (simp only: camel_case_def words_snake list.simps list.case map_map) (simp only: comp_def to_lower_twice)
  qed (simp add: camel_case_def words_snake)
  ultimately show ?thesis by blast
qed

section \<open>Distinct identifiers\<close>

text \<open>\<open>assert_unique_names\<close>: one source may come twice.\<close>

definition enter_identifier ::
  "string \<Rightarrow> string \<times> string \<Rightarrow> (string, string) dict \<Rightarrow> ir_error + (string, string) dict" where
  "enter_identifier owner si m =
     (let (source, ident) = si in
      case map_of m ident of
        Some previous \<Rightarrow>
          if previous \<noteq> source then Inl (Unsupported (IdentifierTwice owner previous source ident))
          else Inr (dict_set ident source m)
      | None \<Rightarrow> Inr (dict_set ident source m))"

definition assert_unique_names :: "string \<Rightarrow> (string \<times> string) list \<Rightarrow> ir_error + unit" where
  "assert_unique_names owner vs = rbind (fold_res (enter_identifier owner) vs []) (\<lambda>_. Inr ())"

end
