(* ===== verification/Views.thy ===== *)
theory Views
  imports IrClient Names
begin

text \<open>
  \<open>codegen/names.py\<close>: the views of a client, in which \<open>api_root\<close> is taken off the paths and \<open>api_names\<close>
  renames namespaces. The views of operations, events and streams have the same nodes but for the name of
  what they hold, so they are one datatype here; a name of \<open>api_names\<close> that matched is returned instead of
  being entered into a set.
\<close>

section \<open>Visible paths\<close>

definition api_root_path :: "string option \<Rightarrow> string list" where
  "api_root_path r = (case r of None \<Rightarrow> [] | Some s \<Rightarrow> if s = [] then [] else split_on (CHR ''.'') s)"

definition visible_source :: "string list \<Rightarrow> string list \<Rightarrow> string list" where
  "visible_source base p = (if base \<noteq> [] \<and> take (length base) p = base then drop (length base) p else p)"

definition api_name :: "string list \<Rightarrow> string list \<Rightarrow> nat \<Rightarrow> (string, string) dict \<Rightarrow> string \<times> string option" where
  "api_name source visible i aliases =
     (let root_length = length source - length visible;
          original_prefix = join ''.'' (take (root_length + i + 1) source);
          visible_prefix = join ''.'' (take (i + 1) visible);
          segment = visible ! i
      in case List.find (\<lambda>k. dict_has k aliases) [original_prefix, visible_prefix, segment] of
           None \<Rightarrow> (segment, None)
         | Some k \<Rightarrow> (case map_of aliases k of None \<Rightarrow> (segment, None) | Some n \<Rightarrow> (n, Some k)))"

definition api_names_of ::
  "string list \<Rightarrow> (string, string) dict \<Rightarrow> string list \<Rightarrow> (string \<times> string option) list" where
  "api_names_of base aliases p =
     (let v = visible_source base p in map (\<lambda>i. api_name p v i aliases) [0..<length v])"

definition visible_path :: "string list \<Rightarrow> (string, string) dict \<Rightarrow> string list \<Rightarrow> string list" where
  "visible_path base aliases p = map fst (api_names_of base aliases p)"

definition matched_names :: "string list \<Rightarrow> (string, string) dict \<Rightarrow> string list \<Rightarrow> string list" where
  "matched_names base aliases p = List.map_filter snd (api_names_of base aliases p)"

section \<open>The tree of a view\<close>

text \<open>What is projected: its visible path, its path in the contract, and itself.\<close>

type_synonym 'x projected = "string list \<times> string list \<times> 'x"

definition source_at :: "'x projected \<Rightarrow> nat \<Rightarrow> string list" where
  "source_at x i = (let (visible, source, _) = x in take (length source - length visible + i + 1) source)"

datatype 'x view_node =
  ViewNode (vn_segment: string) (vn_path: "string list") (vn_source: "string list") (vn_items: "'x list")
    (vn_children: "'x view_node list")

fun make_view :: "string list \<Rightarrow> string \<Rightarrow> (string list, 'x projected) ptree \<Rightarrow> 'x view_node" where
  "make_view parent s (PNode m xs cs) =
     ViewNode s (parent @ [s]) m (map (\<lambda>(v, p, x). x) xs) (map (\<lambda>(k, t). make_view (parent @ [s]) k t) cs)"

definition view_tree :: "'x projected list \<Rightarrow> 'x view_node list" where
  "view_tree xs = map (\<lambda>(k, t). make_view [] k t) (build_tree source_at fst xs)"

definition project :: "(string list \<Rightarrow> string list) \<Rightarrow> ('x \<Rightarrow> string list) \<Rightarrow> 'x list \<Rightarrow> 'x projected list" where
  "project visible path xs = map (\<lambda>x. (visible (path x), path x, x)) (filter (\<lambda>x. visible (path x) \<noteq> []) xs)"

section \<open>Operations\<close>

record api_view =
  av_root :: "route_decl list"
  av_nodes :: "route_decl view_node list"

fun root_exists :: "api_node list \<Rightarrow> string list \<Rightarrow> bool" where
  "root_exists nodes [] = True"
| "root_exists nodes (s # ss) =
     (case List.find (\<lambda>n. an_segment n = s) nodes of
        None \<Rightarrow> False
      | Some n \<Rightarrow> root_exists (an_children n) ss)"

text \<open>No two namespaces of the contract become one.\<close>

definition enter_visible ::
  "string list \<times> string list \<Rightarrow> (string list, string list) dict \<Rightarrow> ir_error + (string list, string list) dict" where
  "enter_visible vs m =
     (let (visible, source) = vs in
      case map_of m visible of
        Some previous \<Rightarrow>
          if previous \<noteq> source then Inl (Unsupported (ApiPathsCollide previous source visible))
          else Inr (dict_set visible source m)
      | None \<Rightarrow> Inr (dict_set visible source m))"

definition visible_prefixes :: "'x projected \<Rightarrow> (string list \<times> string list) list" where
  "visible_prefixes x =
     (let (visible, source, _) = x; offset = length source - length visible in
      map (\<lambda>n. (take n visible, take (offset + n) source)) [1..<length visible + 1])"

definition view_api :: "client_ir \<Rightarrow> string option \<Rightarrow> (string, string) dict \<Rightarrow> ir_error + api_view" where
  "view_api ir api_root aliases =
     (let base = api_root_path api_root;
          root_there = root_exists (ir_api ir) base
            \<or> list_ex (\<lambda>e. take (length base) (ev_path e) = base) (ir_notifications ir) in
      rbind (unsupported_if (base \<noteq> [] \<and> ([] \<in> set base \<or> \<not> root_there))
               (UnknownApiRoot (join ''.'' base))) (\<lambda>_.
      let routes = filter (\<lambda>r. rr_path r \<noteq> []) (ir_operations ir);
          visible = visible_path base aliases;
          matched = concat (map (\<lambda>r. matched_names base aliases (rr_path r)) routes)
            @ concat (map (\<lambda>e. matched_names base aliases (ev_path e)) (ir_notifications ir));
          unknown = filter (\<lambda>k. k \<notin> set matched) (map fst aliases);
          projected = project visible rr_path routes in
      rbind (unsupported_if (unknown \<noteq> []) (UnknownApiNames unknown)) (\<lambda>_.
      rbind (fold_res enter_visible (concat (map visible_prefixes projected)) []) (\<lambda>_.
      Inr \<lparr>av_root = ir_root_operations ir @ filter (\<lambda>r. visible (rr_path r) = []) routes,
           av_nodes = view_tree projected\<rparr>))))"

section \<open>Events\<close>

record event_view =
  evv_root :: "event_decl list"
  evv_nodes :: "event_decl view_node list"

definition view_events :: "client_ir \<Rightarrow> string option \<Rightarrow> (string, string) dict \<Rightarrow> event_view" where
  "view_events ir api_root aliases =
     (let visible = visible_path (api_root_path api_root) aliases in
      \<lparr>evv_root = filter (\<lambda>e. visible (ev_path e) = []) (ir_notifications ir),
       evv_nodes = view_tree (project visible ev_path (ir_notifications ir))\<rparr>)"

section \<open>The client\<close>

datatype stream_item = BinaryItem stream_decl | RawItem socket_decl

fun stream_path :: "stream_item \<Rightarrow> string list" where
  "stream_path (BinaryItem s) = sr_path s"
| "stream_path (RawItem s) = so_path s"

fun binary_items :: "stream_item list \<Rightarrow> stream_decl list" where
  "binary_items [] = []"
| "binary_items (BinaryItem s # xs) = s # binary_items xs"
| "binary_items (RawItem s # xs) = binary_items xs"

fun raw_items :: "stream_item list \<Rightarrow> socket_decl list" where
  "raw_items [] = []"
| "raw_items (BinaryItem s # xs) = raw_items xs"
| "raw_items (RawItem s # xs) = s # raw_items xs"

datatype namespace_node =
  NamespaceNode (ns_segment: string) (ns_path: "string list") (ns_source: "string list")
    (ns_operations: "route_decl list") (ns_notifications: "event_decl list") (ns_streams: "stream_decl list")
    (ns_sockets: "socket_decl list") (ns_children: "namespace_node list")

text \<open>\<open>{node.segment: node for node in nodes}\<close>: the last of two with one segment.\<close>

definition by_segment :: "'x view_node list \<Rightarrow> (string, 'x view_node) dict" where
  "by_segment ns = fold (\<lambda>n. dict_set (vn_segment n) n) ns []"

definition items_of :: "'x view_node option \<Rightarrow> 'x list" where
  "items_of n = (case n of None \<Rightarrow> [] | Some v \<Rightarrow> vn_items v)"

definition children_of :: "'x view_node option \<Rightarrow> 'x view_node list" where
  "children_of n = (case n of None \<Rightarrow> [] | Some v \<Rightarrow> vn_children v)"

definition place_of ::
  "'a view_node option \<Rightarrow> 'b view_node option \<Rightarrow> 'c view_node option \<Rightarrow> string list \<times> string list" where
  "place_of r e s =
     (case r of Some v \<Rightarrow> (vn_path v, vn_source v)
      | None \<Rightarrow> (case e of Some v \<Rightarrow> (vn_path v, vn_source v)
        | None \<Rightarrow> (case s of Some v \<Rightarrow> (vn_path v, vn_source v) | None \<Rightarrow> ([], []))))"

definition view_segments ::
  "'a view_node list \<Rightarrow> 'b view_node list \<Rightarrow> 'c view_node list \<Rightarrow> string list" where
  "view_segments rs es ss =
     fromkeys (map fst (by_segment rs) @ map fst (by_segment es) @ map fst (by_segment ss))"

lemma by_segment_step: "by_segment (ns @ [n]) = dict_set (vn_segment n) n (by_segment ns)"
  by (simp add: by_segment_def)

lemma by_segment_keys: "set (map fst (by_segment ns)) = vn_segment ` set ns"
proof (induction ns rule: rev_induct)
  case (snoc n ns)
  then show ?case unfolding by_segment_step dict_set_keys by auto
qed (simp add: by_segment_def)

lemma by_segment_in: "map_of (by_segment ns) s = Some n \<Longrightarrow> n \<in> set ns"
  by (induction ns rule: rev_induct)
    (auto simp: by_segment_step by_segment_def [of "[]"] dict_simps split: if_splits)

text \<open>The nodes below a segment are fewer than those beside it.\<close>

definition nodes_size :: "'x view_node list \<Rightarrow> nat" where
  "nodes_size ns = size_list (size_view_node (\<lambda>x. 0)) ns"

lemma children_size:
  "nodes_size (children_of (map_of (by_segment ns) s)) \<le> nodes_size ns
   \<and> (s \<in> set (map fst (by_segment ns)) \<longrightarrow> nodes_size (children_of (map_of (by_segment ns) s)) < nodes_size ns)"
proof (cases "map_of (by_segment ns) s")
  case None
  then have "s \<notin> set (map fst (by_segment ns))" by (simp add: map_of_eq_None_iff)
  with None show ?thesis by (simp add: children_of_def nodes_size_def)
next
  case (Some n)
  then have "n \<in> set ns" by (rule by_segment_in)
  then have "size_view_node (\<lambda>x. 0) n < nodes_size ns"
    unfolding nodes_size_def by (induction ns) auto
  moreover have "nodes_size (vn_children n) < size_view_node (\<lambda>x. 0) n"
    by (cases n) (simp add: nodes_size_def)
  ultimately show ?thesis using Some by (simp add: children_of_def)
qed

function merge_nodes ::
  "route_decl view_node list \<Rightarrow> event_decl view_node list \<Rightarrow> stream_item view_node list \<Rightarrow> namespace_node list" where
  "merge_nodes rs es ss =
     map (\<lambda>s.
       let r = map_of (by_segment rs) s; e = map_of (by_segment es) s; t = map_of (by_segment ss) s;
           (path, source) = place_of r e t in
       NamespaceNode s path source (items_of r) (items_of e) (binary_items (items_of t)) (raw_items (items_of t))
         (merge_nodes (children_of r) (children_of e) (children_of t)))
     (view_segments rs es ss)"
  by pat_completeness auto
termination
proof (relation "measure (\<lambda>(rs, es, ss). nodes_size rs + nodes_size es + nodes_size ss)", goal_cases)
  case (2 rs es ss s r e t p path source)
  then have "s \<in> set (map fst (by_segment rs)) \<union> set (map fst (by_segment es)) \<union> set (map fst (by_segment ss))"
    by (auto simp: view_segments_def)
  with children_size [of rs s] children_size [of es s] children_size [of ss s] 2 show ?case
    by (auto simp only: in_measure case_prod_conv)
qed simp

declare merge_nodes.simps [simp del]

record client_view =
  cv_operations :: "route_decl list"
  cv_notifications :: "event_decl list"
  cv_streams :: "stream_decl list"
  cv_nodes :: "namespace_node list"
  cv_sockets :: "socket_decl list"

definition view_client :: "client_ir \<Rightarrow> string option \<Rightarrow> (string, string) dict \<Rightarrow> ir_error + client_view" where
  "view_client ir api_root aliases =
     rbind (view_api ir api_root aliases) (\<lambda>routes.
     let events = view_events ir api_root aliases;
         visible = visible_source (api_root_path api_root);
         streams = map BinaryItem (ir_streams ir) @ map RawItem (ir_sockets ir);
         root_streams = filter (\<lambda>s. visible (stream_path s) = []) streams in
     Inr \<lparr>cv_operations = av_root routes, cv_notifications = evv_root events,
          cv_streams = binary_items root_streams,
          cv_nodes = merge_nodes (av_nodes routes) (evv_nodes events) (view_tree (project visible stream_path streams)),
          cv_sockets = raw_items root_streams\<rparr>)"

end
