(* ===== verification/IrProps.thy ===== *)
theory IrProps
  imports IrClient "HOL-Library.Multiset"
begin

text \<open>
  What lowering a document guarantees: the declarations that are kept, the tree of namespaces, and the
  references of the resulting client.
\<close>

section \<open>Reachable declarations\<close>

definition depends_on :: "(string, client_decl) dict \<Rightarrow> string \<Rightarrow> string \<Rightarrow> bool" where
  "depends_on table n m \<longleftrightarrow>
     (\<exists>d. map_of table n = Some d \<and> m \<in> set (dependencies d) \<and> dict_has m table)"

lemma reach_loop_done: "reach_loop table keep [] = keep"
  by (simp add: reach_loop.simps)

lemma reach_loop_known:
  "n \<in> set keep \<or> map_of table n = None \<Longrightarrow> reach_loop table keep (rest @ [n]) = reach_loop table keep rest"
  by (subst reach_loop.simps) (auto split: option.splits)

lemma reach_loop_new:
  "n \<notin> set keep \<Longrightarrow> map_of table n = Some d \<Longrightarrow>
   reach_loop table keep (rest @ [n]) = reach_loop table (keep @ [n])
     (rest @ filter (\<lambda>m. dict_has m table \<and> m \<notin> set (keep @ [n])) (dependencies d))"
  by (subst reach_loop.simps) simp

text \<open>Everything the loop keeps is reached, and what is kept at the end is closed.\<close>

lemma reach_loop_sound:
  "n \<in> set (reach_loop table keep pending) \<Longrightarrow>
   n \<in> set keep \<or> (\<exists>r\<in>set pending. dict_has r table \<and> (depends_on table)\<^sup>*\<^sup>* r n)"
proof (induction table keep pending rule: reach_loop.induct)
  case (1 table keep pending)
  show ?case
  proof (cases pending rule: rev_cases)
    case Nil
    with 1(4) show ?thesis by (simp add: reach_loop_done)
  next
    case (snoc rest m)
    consider (known) "m \<in> set keep" | (lost) "m \<notin> set keep" "map_of table m = None"
      | (new) d where "m \<notin> set keep" "map_of table m = Some d" by (cases "map_of table m") auto
    then show ?thesis
    proof cases
      case known
      with 1(1) 1(4) snoc show ?thesis by (auto simp: reach_loop_known)
    next
      case lost
      with 1(2) 1(4) snoc show ?thesis by (auto simp: reach_loop_known)
    next
      case new
      with 1(3) 1(4) snoc have "n \<in> set (keep @ [m]) \<or>
          (\<exists>r\<in>set (rest @ filter (\<lambda>k. dict_has k table \<and> k \<notin> set (keep @ [m])) (dependencies d)).
             dict_has r table \<and> (depends_on table)\<^sup>*\<^sup>* r n)"
        by (simp add: reach_loop_new)
      moreover have "dict_has m table" using new(2) by (simp add: dict_has_map_of)
      moreover have "depends_on table m k" if "k \<in> set (dependencies d)" "dict_has k table" for k
        using new(2) that by (auto simp: depends_on_def)
      ultimately show ?thesis using snoc by (auto intro: converse_rtranclp_into_rtranclp)
    qed
  qed
qed

definition closed_upto :: "(string, client_decl) dict \<Rightarrow> string set \<Rightarrow> string set \<Rightarrow> bool" where
  "closed_upto table K P \<longleftrightarrow> (\<forall>n\<in>K. \<forall>m. depends_on table n m \<longrightarrow> m \<in> K \<union> P)"

lemma reach_loop_closed:
  "closed_upto table (set keep) (set pending) \<Longrightarrow>
   closed_upto table (set (reach_loop table keep pending)) {}
   \<and> set keep \<union> {n \<in> set pending. dict_has n table} \<subseteq> set (reach_loop table keep pending)"
proof (induction table keep pending rule: reach_loop.induct)
  case (1 table keep pending)
  show ?case
  proof (cases pending rule: rev_cases)
    case Nil
    with 1(4) show ?thesis by (simp add: reach_loop_done)
  next
    case (snoc rest m)
    consider (known) "m \<in> set keep" | (lost) "m \<notin> set keep" "map_of table m = None"
      | (new) d where "m \<notin> set keep" "map_of table m = Some d" by (cases "map_of table m") auto
    then show ?thesis
    proof cases
      case known
      with 1(4) snoc have "closed_upto table (set keep) (set rest)" by (auto simp: closed_upto_def)
      with 1(1) known snoc show ?thesis by (auto simp: reach_loop_known)
    next
      case lost
      with 1(4) snoc have c: "closed_upto table (set keep) (set rest)"
        by (fastforce simp: closed_upto_def depends_on_def dict_has_map_of)
      have "closed_upto table (set (reach_loop table keep rest)) {}
          \<and> set keep \<union> {n \<in> set rest. dict_has n table} \<subseteq> set (reach_loop table keep rest)"
        by (rule 1(2) [of m rest]) (use lost snoc c in simp_all)
      with lost snoc show ?thesis by (auto simp: reach_loop_known dict_has_map_of)
    next
      case new
      let ?p = "rest @ filter (\<lambda>k. dict_has k table \<and> k \<notin> set (keep @ [m])) (dependencies d)"
      have c: "closed_upto table (set (keep @ [m])) (set ?p)"
        using 1(4) snoc new(2) by (auto simp: closed_upto_def depends_on_def)
      have "closed_upto table (set (reach_loop table (keep @ [m]) ?p)) {}
          \<and> set (keep @ [m]) \<union> {n \<in> set ?p. dict_has n table} \<subseteq> set (reach_loop table (keep @ [m]) ?p)"
        by (rule 1(3) [of m rest d]) (use new snoc c in simp_all)
      with new snoc show ?thesis by (auto simp: reach_loop_new)
    qed
  qed
qed

lemma reach_loop_exact:
  "set (reach_loop table [] pending) = {n. \<exists>r\<in>set pending. dict_has r table \<and> (depends_on table)\<^sup>*\<^sup>* r n}"
proof (intro equalityI subsetI)
  fix n assume "n \<in> set (reach_loop table [] pending)"
  from reach_loop_sound [OF this] show "n \<in> {n. \<exists>r\<in>set pending. dict_has r table \<and> (depends_on table)\<^sup>*\<^sup>* r n}"
    by simp
next
  fix n assume "n \<in> {n. \<exists>r\<in>set pending. dict_has r table \<and> (depends_on table)\<^sup>*\<^sup>* r n}"
  then obtain r where r: "r \<in> set pending" "dict_has r table" "(depends_on table)\<^sup>*\<^sup>* r n" by blast
  from reach_loop_closed [of table "[]" pending]
  have c: "closed_upto table (set (reach_loop table [] pending)) {}" "r \<in> set (reach_loop table [] pending)"
    using r(1,2) by (auto simp: closed_upto_def)
  from r(3) c show "n \<in> set (reach_loop table [] pending)"
    by (induction rule: rtranclp_induct) (auto simp: closed_upto_def)
qed

text \<open>C19. The declarations of a client: the loop over the pending names ends for every table, cyclic ones
  included, and a declaration is kept exactly when a type of the surface leads to it through the
  declarations; so whatever a kept declaration depends on is kept if it is declared.\<close>

theorem declarations_reached:
  "(d \<in> set (reachable ds roots) \<longleftrightarrow>
      d \<in> set ds \<and> (\<exists>r\<in>set roots. dict_has r (decl_table ds) \<and> (depends_on (decl_table ds))\<^sup>*\<^sup>* r (decl_name d)))
   \<and> (d \<in> set (reachable ds roots) \<longrightarrow> depends_on (decl_table ds) (decl_name d) (decl_name d') \<longrightarrow> d' \<in> set ds \<longrightarrow>
        d' \<in> set (reachable ds roots))"
proof -
  have r: "d \<in> set (reachable ds roots) \<longleftrightarrow>
      d \<in> set ds \<and> (\<exists>r\<in>set roots. dict_has r (decl_table ds) \<and> (depends_on (decl_table ds))\<^sup>*\<^sup>* r (decl_name d))" for d
    by (auto simp: reachable_def Let_def reach_loop_exact)
  then show ?thesis by (auto intro: rtranclp.rtrancl_into_rtrancl)
qed

definition list_model :: "string \<Rightarrow> string \<Rightarrow> client_decl" where
  "list_model n next' =
     ModelDecl n [\<lparr>fd_name = ''next'', fd_type = NamedType next', fd_required = False, fd_default = None\<rparr>] True"

lemma declarations_reached_witness:
  "list_model ''B'' ''A'' \<in> set (reachable [list_model ''A'' ''B'', list_model ''B'' ''A'', list_model ''C'' ''A''] [''A''])"
proof -
  let ?ds = "[list_model ''A'' ''B'', list_model ''B'' ''A'', list_model ''C'' ''A'']"
  have t: "decl_table ?ds = [(''A'', list_model ''A'' ''B''), (''B'', list_model ''B'' ''A''), (''C'', list_model ''C'' ''A'')]"
    by (simp add: decl_table_def list_model_def)
  have "depends_on (decl_table ?ds) ''A'' ''B''"
    unfolding t by (simp add: depends_on_def list_model_def dict_has_def)
  then have "list_model ''B'' ''A'' \<in> set ?ds \<and> (\<exists>r\<in>set [''A'']. dict_has r (decl_table ?ds)
      \<and> (depends_on (decl_table ?ds))\<^sup>*\<^sup>* r (decl_name (list_model ''B'' ''A'')))"
    unfolding t by (simp add: dict_has_def list_model_def r_into_rtranclp)
  with declarations_reached [of "list_model ''B'' ''A''" ?ds "[''A'']"] show ?thesis by blast
qed

section \<open>The tree of namespaces\<close>

lemma item_lists_append:
  "item_routes (xs @ ys) = item_routes xs @ item_routes ys"
  "item_streams (xs @ ys) = item_streams xs @ item_streams ys"
  "item_sockets (xs @ ys) = item_sockets xs @ item_sockets ys"
proof -
  show "item_routes (xs @ ys) = item_routes xs @ item_routes ys" by (induction xs rule: item_routes.induct) auto
  show "item_streams (xs @ ys) = item_streams xs @ item_streams ys" by (induction xs rule: item_streams.induct) auto
  show "item_sockets (xs @ ys) = item_sockets xs @ item_sockets ys" by (induction xs rule: item_sockets.induct) auto
qed

lemma item_lists_map:
  "item_routes (filter P (map RouteItem rs)) = filter (\<lambda>r. P (RouteItem r)) rs"
  "item_routes (filter P (map StreamItem ss)) = []" "item_routes (filter P (map SocketItem os)) = []"
  "item_streams (filter P (map RouteItem rs)) = []"
  "item_streams (filter P (map StreamItem ss)) = filter (\<lambda>r. P (StreamItem r)) ss"
  "item_streams (filter P (map SocketItem os)) = []"
  "item_sockets (filter P (map RouteItem rs)) = []" "item_sockets (filter P (map StreamItem ss)) = []"
  "item_sockets (filter P (map SocketItem os)) = filter (\<lambda>r. P (SocketItem r)) os"
  by (induction rs; simp) (induction ss; simp; fail | induction os; simp; fail | induction rs; simp; fail)+

definition node_view :: "api_node \<Rightarrow> string list \<times> route_decl list \<times> stream_decl list \<times> socket_decl list" where
  "node_view n = (an_path n, an_operations n, an_streams n, an_sockets n)"

definition item_view ::
  "string list \<times> unit \<times> api_item list \<Rightarrow> string list \<times> route_decl list \<times> stream_decl list \<times> socket_decl list" where
  "item_view x = (case x of (p, m, xs) \<Rightarrow> (p, item_routes xs, item_streams xs, item_sockets xs))"

lemma walk_make_node: "map node_view (walk_api (make_node parent s t)) = map item_view (walk_node parent s t)"
proof (induction parent s t rule: make_node.induct)
  case (1 parent s m xs cs)
  have "map node_view (concat (map walk_api (map (\<lambda>(k, t). make_node (parent @ [s]) k t) cs))) =
      map item_view (concat (map (\<lambda>(k, t). walk_node (parent @ [s]) k t) cs))"
    unfolding map_concat map_map by (intro arg_cong [where f = concat] map_cong) (auto simp: 1)
  then show ?case by (simp add: node_view_def [of "ApiNode _ _ _ _ _ _"] item_view_def [of "(_, _, xs)"])
qed

definition api_nodes :: "route_decl list \<Rightarrow> stream_decl list \<Rightarrow> socket_decl list \<Rightarrow> api_node list" where
  "api_nodes routes streams sockets = concat (map walk_api (api_tree routes streams sockets))"

lemma api_nodes_view:
  "map node_view (api_nodes rs ss os) =
     map item_view (walk_forest [] (build_tree (\<lambda>x i. ()) item_path (api_items rs ss os)))"
  by (simp add: api_nodes_def api_tree_def walk_forest_def map_concat comp_def split_def walk_make_node)

lemma api_nodes_paths:
  "map an_path (api_nodes rs ss os) =
     map fst (walk_forest [] (build_tree (\<lambda>x i. ()) item_path (api_items rs ss os)))"
proof -
  have "map fst (map node_view (api_nodes rs ss os)) =
      map fst (map item_view (walk_forest [] (build_tree (\<lambda>x i. ()) item_path (api_items rs ss os))))"
    by (simp only: api_nodes_view)
  then show ?thesis by (simp add: comp_def node_view_def item_view_def split_def)
qed

lemma api_tree_distinct: "distinct (map an_path (api_nodes rs ss os))"
  unfolding api_nodes_paths by (rule walk_build_tree)

lemma api_tree_holds:
  assumes "n \<in> set (api_nodes rs ss os)"
  shows "an_operations n = filter (\<lambda>r. rr_path r = an_path n) rs
    \<and> an_streams n = filter (\<lambda>s. sr_path s = an_path n) ss
    \<and> an_sockets n = filter (\<lambda>s. so_path s = an_path n) os"
proof -
  let ?w = "walk_forest [] (build_tree (\<lambda>x i. ()) item_path (api_items rs ss os))"
  from assms have "node_view n \<in> set (map item_view ?w)" unfolding api_nodes_view [symmetric] by simp
  then obtain q m ys where q: "(q, m, ys) \<in> set ?w" "node_view n = item_view (q, m, ys)" by auto
  from q(1) have "ys = filter (\<lambda>x. item_path x = q) (api_items rs ss os)" unfolding walk_build_tree by blast
  with q(2) show ?thesis
    by (simp add: node_view_def item_view_def api_items_def item_lists_append item_lists_map)
qed

lemma api_tree_paths:
  "p \<in> an_path ` set (api_nodes rs ss os) \<longleftrightarrow>
     p \<noteq> [] \<and> (\<exists>q \<in> rr_path ` set rs \<union> sr_path ` set ss \<union> so_path ` set os. prefix p q)"
proof -
  let ?w = "walk_forest [] (build_tree (\<lambda>x i. ()) item_path (api_items rs ss os))"
  have "p \<in> an_path ` set (api_nodes rs ss os) \<longleftrightarrow> (\<exists>m ys. (p, m, ys) \<in> set ?w)"
    unfolding set_map [symmetric] api_nodes_paths by force
  also have "\<dots> \<longleftrightarrow> p \<noteq> [] \<and> filter (\<lambda>x. prefix p (item_path x)) (api_items rs ss os) \<noteq> []"
    unfolding walk_build_tree by (cases "filter (\<lambda>x. prefix p (item_path x)) (api_items rs ss os)") auto
  also have "\<dots> \<longleftrightarrow> p \<noteq> [] \<and> (\<exists>q \<in> rr_path ` set rs \<union> sr_path ` set ss \<union> so_path ` set os. prefix p q)"
    by (auto simp: filter_empty_conv api_items_def)
  finally show ?thesis .
qed

text \<open>The namespaces of a client: no two nodes of the tree have the same path, there is a node for a path
  exactly when an operation, stream or raw socket is at or below it, and the node holds exactly the
  operations, streams and raw sockets of that path, in the order of the document.\<close>

theorem api_tree_exact:
  "distinct (map an_path (api_nodes rs ss os))
   \<and> (n \<in> set (api_nodes rs ss os) \<longrightarrow>
        an_operations n = filter (\<lambda>r. rr_path r = an_path n) rs
        \<and> an_streams n = filter (\<lambda>s. sr_path s = an_path n) ss
        \<and> an_sockets n = filter (\<lambda>s. so_path s = an_path n) os)
   \<and> (p \<in> an_path ` set (api_nodes rs ss os) \<longleftrightarrow>
        p \<noteq> [] \<and> (\<exists>q \<in> rr_path ` set rs \<union> sr_path ` set ss \<union> so_path ` set os. prefix p q))"
  using api_tree_distinct [of rs ss os] api_tree_holds [of n rs ss os] api_tree_paths [of p rs ss os] by blast

definition user_get :: route_decl where
  "user_get =
     \<lparr>rr_rpc_name = ''users.get'', rr_operation = ''get'', rr_path = [''users''], rr_member = ''USERS_GET'',
      rr_params = [], rr_params_model = None, rr_result = PrimitiveType PrimNull, rr_summary = JStr [],
      rr_description = JStr [], rr_tags = [], rr_errors = [], rr_server = Some (JStr ''rpc''),
      rr_deprecated = False, rr_idempotent = True\<rparr>"

lemma api_tree_exact_witness:
  "\<exists>n. n \<in> set (api_nodes [user_get] [] []) \<and> an_path n = [''users''] \<and> an_operations n = [user_get]"
proof -
  have "rr_path user_get = [''users'']" by (simp add: user_get_def)
  then have "[''users''] \<in> an_path ` set (api_nodes [user_get] [] [])"
    using api_tree_exact [of "[user_get]" "[]" "[]" _ "[''users'']"] by simp
  then obtain n where n: "n \<in> set (api_nodes [user_get] [] [])" "an_path n = [''users'']" by auto
  with api_tree_exact [of "[user_get]" "[]" "[]" n] \<open>rr_path user_get = [''users'']\<close> show ?thesis by auto
qed

end
