(* ===== verification/IrConsistent.thy ===== *)
theory IrConsistent
  imports IrProps
begin

text \<open>
  The references of a lowered client: every server that something names is declared, the names of streams
  and raw sockets are distinct, and every operation of the document is a method of exactly one namespace.
\<close>

section \<open>The client as a whole\<close>

lemma mset_filter_paths:
  "distinct ps \<Longrightarrow> \<forall>x\<in>set xs. f x \<in> set ps \<Longrightarrow> mset (concat (map (\<lambda>p. filter (\<lambda>x. f x = p) xs) ps)) = mset xs"
proof (induction xs)
  case (Cons x xs)
  have "mset (concat (map (\<lambda>p. filter (\<lambda>y. f y = p) (x # xs)) qs)) =
      mset (concat (map (\<lambda>p. filter (\<lambda>y. f y = p) xs) qs)) + (if f x \<in> set qs then {#x#} else {#})"
    if "distinct qs" for qs
    using that by (induction qs) auto
  from this [OF Cons.prems(1)] Cons show ?case by simp
next
  case Nil
  have "concat (map (\<lambda>p. []) ps) = []" by (induction ps) simp_all
  then show ?case by simp
qed

lemma api_nodes_operations:
  assumes "\<forall>r\<in>set rs. rr_path r \<noteq> []"
  shows "mset (concat (map an_operations (api_nodes rs ss os))) = mset rs"
proof -
  have "map an_operations (api_nodes rs ss os) =
      map (\<lambda>p. filter (\<lambda>r. rr_path r = p) rs) (map an_path (api_nodes rs ss os))"
    using api_tree_holds by auto
  moreover have "\<forall>r\<in>set rs. rr_path r \<in> set (map an_path (api_nodes rs ss os))"
    using assms by (simp add: api_tree_paths) blast
  moreover have "distinct (map an_path (api_nodes rs ss os))" by (rule api_tree_distinct)
  ultimately show ?thesis by (simp add: mset_filter_paths del: map_map)
qed

definition server_names :: "client_ir \<Rightarrow> json set" where
  "server_names ir = se_name ` set (ir_servers ir)"

definition server_variable_names :: "client_ir \<Rightarrow> string list" where
  "server_variable_names ir = concat (map (\<lambda>s. map va_name (se_variables s)) (ir_servers ir))"

lemma build_ir_parts:
  assumes "build_ir doc = Inr ir"
  obtains routes u where
    "document_routes doc = Inr routes"
    "lower_streams doc (server_variable_names ir) = Inr (ir_streams ir)"
    "lower_sockets doc (server_variable_names ir) = Inr (ir_sockets ir)"
    "filter (\<lambda>n. n \<in> set (map so_rpc_name (ir_sockets ir))) (map sr_rpc_name (ir_streams ir)) = []"
    "ir_root_operations ir = filter (\<lambda>r. rr_path r = []) routes"
    "ir_api ir = api_tree (filter (\<lambda>r. rr_path r \<noteq> []) routes) (filter (\<lambda>s. sr_path s \<noteq> []) (ir_streams ir))
       (filter (\<lambda>s. so_path s \<noteq> []) (ir_sockets ir))"
    "validate_servers (routes @ ir_client_methods ir) (ir_notifications ir) (ir_servers ir) = Inr u"
  using assms unfolding build_ir_def Let_def server_variable_names_def
  apply (simp only: rbind_eq_Inr case_prod_beta sum.inject unsupported_if_Inr not_not)
  apply (elim exE conjE)
  apply hypsubst
  apply (rule that)
  apply assumption
  apply (simp_all only: client_ir.simps server_variable_names_def)
  done

lemma validate_servers_Inr:
  assumes "validate_servers rs es ss = Inr u"
  shows "(\<forall>r\<in>set rs. \<forall>s. rr_server r = Some s \<longrightarrow> s \<in> se_name ` set ss)
    \<and> (\<forall>e\<in>set es. \<forall>s. ev_server e = Some s \<longrightarrow> s \<in> se_name ` set ss)"
proof -
  from assms have "undeclared_servers rs es ss = []"
    by (auto simp: validate_servers_def split: if_splits list.splits option.splits)
  then show ?thesis
    by (fastforce simp: undeclared_servers_def opt_list_def filter_empty_conv split: option.splits)
qed

lemma filter_partition: "mset (filter P xs) + mset (filter (\<lambda>x. \<not> P x) xs) = mset xs"
  by (induction xs) auto

lemma ir_operations_routes:
  assumes "build_ir doc = Inr ir" "document_routes doc = Inr routes"
  shows "mset (ir_operations ir) = mset routes"
proof -
  let ?rs = "filter (\<lambda>r. rr_path r \<noteq> []) routes"
  obtain u where r: "ir_root_operations ir = filter (\<lambda>r. rr_path r = []) routes"
    "ir_api ir = api_tree ?rs (filter (\<lambda>s. sr_path s \<noteq> []) (ir_streams ir))
       (filter (\<lambda>s. so_path s \<noteq> []) (ir_sockets ir))"
    using assms by (auto elim: build_ir_parts)
  have "mset (concat (map an_operations (concat (map walk_api (ir_api ir))))) = mset ?rs"
    unfolding r(2) api_nodes_def [symmetric] by (rule api_nodes_operations) simp
  then show ?thesis by (simp add: ir_operations_def r(1) filter_partition)
qed

section \<open>Streams and raw sockets\<close>

definition content_types_fit :: "stream_decl \<Rightarrow> bool" where
  "content_types_fit s \<longleftrightarrow>
     sr_direction s \<in> {''server-to-client'', ''client-to-server'', ''bidirectional''}
     \<and> (sr_content_type s = None \<longleftrightarrow> sr_direction s = ''client-to-server'')
     \<and> (sr_input_content_type s = None \<longleftrightarrow> sr_direction s = ''server-to-client'')"

lemma output_type_fits: "output_type n d c = Inr t \<Longrightarrow> (t = None \<longleftrightarrow> d = ''client-to-server'')"
  by (auto simp: output_type_def split: if_splits option.splits json.splits)

lemma input_type_fits: "input_type n d c = Inr t \<Longrightarrow> (t = None \<longleftrightarrow> d = ''server-to-client'')"
  by (auto simp: input_type_def split: if_splits option.splits json.splits list.splits)

lemma stream_direction_fits:
  "stream_direction_text n m = Inr d \<Longrightarrow> d \<in> {''server-to-client'', ''client-to-server'', ''bidirectional''}"
  by (auto simp: stream_direction_text_def split: if_splits option.splits json.splits)

lemma lower_stream_Inr:
  assumes "lower_stream vs v names = Inr s"
  shows "sr_rpc_name s \<notin> set names \<and> content_types_fit s \<and> sr_call_variables s = call_variables vs (sr_variables s)"
proof -
  from assms obtain m where "v = JObj m" by (cases v) (simp_all add: lower_stream_def)
  from assms show ?thesis
    apply (simp only: \<open>v = JObj m\<close> lower_stream_def json.simps rbind_eq_Inr unsupported_if_Inr sum.inject)
    apply (elim exE conjE)
    apply (drule stream_direction_fits output_type_fits input_type_fits)+
    apply hypsubst
    apply (simp only: stream_decl.simps content_types_fit_def)
    apply simp
    done
qed

lemma lower_socket_Inr:
  assumes "lower_socket vs v names = Inr s"
  shows "so_rpc_name s \<notin> set names \<and> so_call_variables s = call_variables vs (so_variables s)"
proof -
  from assms obtain m where "v = JObj m" by (cases v) (simp_all add: lower_socket_def)
  with assms show ?thesis
    by (auto simp only: lower_socket_def json.simps rbind_eq_Inr unsupported_if_Inr sum.inject socket_decl.simps)
qed

text \<open>The entries of an array: distinct names, and what holds of each.\<close>

lemma lower_entries_Inr:
  assumes "lower_entries key lower name doc = Inr ds"
    and "\<And>v names d. lower v names = Inr d \<Longrightarrow> name d \<notin> set names \<and> P d"
  shows "distinct (map name ds) \<and> list_all P ds"
proof -
  from assms(1) obtain v where "get_or key (JArr []) doc = Inr v" by (auto simp: lower_entries_def rbind_eq_Inr)
  with assms(1) obtain entries where "fold_res (lower_entry lower name) entries [] = Inr ds"
    by (cases v) (simp_all add: lower_entries_def)
  then show ?thesis
  proof (rule fold_res_invariant [where P = "\<lambda>ds. distinct (map name ds) \<and> list_all P ds"])
    fix v ds1 ds2
    assume "distinct (map name ds1) \<and> list_all P ds1" "lower_entry lower name v ds1 = Inr ds2"
    with assms(2) show "distinct (map name ds2) \<and> list_all P ds2"
      by (fastforce simp: lower_entry_def rbind_eq_Inr)
  qed simp
qed

text \<open>C20. A client that \<open>build_ir\<close> returns is consistent: every server that an operation, a method of the
  client or an event names is declared; the operations of its namespaces together are the methods of the
  document; names of streams and raw sockets are distinct and no name is both; a stream has a content type
  exactly in the directions that carry data; and a caller passes the variables of a URL that no server
  declares.\<close>

theorem client_model_consistent:
  assumes "build_ir doc = Inr ir"
  shows "(\<forall>r \<in> set (ir_operations ir @ ir_client_methods ir). \<forall>s. rr_server r = Some s \<longrightarrow> s \<in> server_names ir)
    \<and> (\<forall>e \<in> set (ir_notifications ir). \<forall>s. ev_server e = Some s \<longrightarrow> s \<in> server_names ir)
    \<and> (\<exists>routes. document_routes doc = Inr routes \<and> mset (ir_operations ir) = mset routes)
    \<and> distinct (map sr_rpc_name (ir_streams ir) @ map so_rpc_name (ir_sockets ir))
    \<and> list_all content_types_fit (ir_streams ir)
    \<and> list_all (\<lambda>s. sr_call_variables s = call_variables (server_variable_names ir) (sr_variables s)) (ir_streams ir)
    \<and> list_all (\<lambda>s. so_call_variables s = call_variables (server_variable_names ir) (so_variables s)) (ir_sockets ir)"
proof -
  obtain routes u where r: "document_routes doc = Inr routes"
    "lower_streams doc (server_variable_names ir) = Inr (ir_streams ir)"
    "lower_sockets doc (server_variable_names ir) = Inr (ir_sockets ir)"
    "filter (\<lambda>n. n \<in> set (map so_rpc_name (ir_sockets ir))) (map sr_rpc_name (ir_streams ir)) = []"
    "validate_servers (routes @ ir_client_methods ir) (ir_notifications ir) (ir_servers ir) = Inr u"
    using assms by (rule build_ir_parts)
  have ops: "mset (ir_operations ir) = mset routes" by (rule ir_operations_routes [OF assms r(1)])
  then have "set (ir_operations ir) = set routes" by (rule mset_eq_setD)
  with validate_servers_Inr [OF r(5)]
  have servers: "(\<forall>r \<in> set (ir_operations ir @ ir_client_methods ir). \<forall>s. rr_server r = Some s \<longrightarrow> s \<in> server_names ir)
    \<and> (\<forall>e \<in> set (ir_notifications ir). \<forall>s. ev_server e = Some s \<longrightarrow> s \<in> server_names ir)"
    by (simp add: server_names_def)
  have streams: "distinct (map sr_rpc_name (ir_streams ir)) \<and> list_all (\<lambda>s. content_types_fit s
      \<and> sr_call_variables s = call_variables (server_variable_names ir) (sr_variables s)) (ir_streams ir)"
    by (rule lower_entries_Inr [OF r(2) [unfolded lower_streams_def]]) (rule lower_stream_Inr)
  have sockets: "distinct (map so_rpc_name (ir_sockets ir))
      \<and> list_all (\<lambda>s. so_call_variables s = call_variables (server_variable_names ir) (so_variables s)) (ir_sockets ir)"
    by (rule lower_entries_Inr [OF r(3) [unfolded lower_sockets_def]]) (rule lower_socket_Inr)
  have "set (map sr_rpc_name (ir_streams ir)) \<inter> set (map so_rpc_name (ir_sockets ir)) = {}"
    using r(4) by (auto simp: filter_empty_conv)
  with streams sockets have "distinct (map sr_rpc_name (ir_streams ir) @ map so_rpc_name (ir_sockets ir))"
    by (simp only: distinct_append)
  with servers streams sockets r(1) ops show ?thesis by (intro conjI) (auto simp only: list_all_iff)
qed

definition users_document :: json where
  "users_document =
     JObj [(''methods'', JArr [JObj [(''name'', JStr ''users.get''), (''x-rpc-request-schema'', JObj []),
             (''result'', JObj [(''schema'', JObj [(''type'', JStr ''null'')])]),
             (''servers'', JArr [JObj [(''name'', JStr ''rpc'')]])]]),
           (''servers'', JArr [JObj [(''name'', JStr ''rpc''), (''url'', JStr ''/rpc'')]])]"

lemma users_client: "\<exists>ir. build_ir users_document = Inr ir \<and> length (ir_operations ir) = 1"
proof -
  have "(case build_ir users_document of Inl e \<Rightarrow> False | Inr ir \<Rightarrow> length (ir_operations ir) = 1)"
    by code_simp
  then show ?thesis by (auto split: sum.splits)
qed

lemma client_model_consistent_witness:
  "\<exists>ir r. build_ir users_document = Inr ir \<and> ir_operations ir = [r]
     \<and> (\<exists>routes. document_routes users_document = Inr routes \<and> mset (ir_operations ir) = mset routes)"
proof -
  obtain ir where ir: "build_ir users_document = Inr ir" "length (ir_operations ir) = 1" using users_client by blast
  then obtain r where "ir_operations ir = [r]" by (auto simp: length_Suc_conv)
  with ir client_model_consistent [OF ir(1)] show ?thesis by blast
qed

end
