(* ===== verification/ViewProps.thy ===== *)
theory ViewProps
  imports Views IrConsistent
begin

text \<open>
  What the views of a client hold: everything of the contract once, at its visible path, and under one
  namespace only operations of one namespace of the contract.
\<close>

section \<open>The nodes of one view\<close>

fun walk_view :: "'x view_node \<Rightarrow> (string list \<times> string list \<times> 'x list) list" where
  "walk_view (ViewNode s p m xs cs) = (p, m, xs) # concat (map walk_view cs)"

fun rooted :: "string list \<Rightarrow> 'x view_node \<Rightarrow> bool" where
  "rooted parent (ViewNode s p m xs cs) =
     (p = parent @ [s] \<and> distinct (map vn_segment cs) \<and> list_all (rooted p) cs)"

definition rooted_nodes :: "string list \<Rightarrow> 'x view_node list \<Rightarrow> bool" where
  "rooted_nodes parent ns \<longleftrightarrow> distinct (map vn_segment ns) \<and> list_all (rooted parent) ns"

lemma rooted_node:
  "rooted parent n \<longleftrightarrow> vn_path n = parent @ [vn_segment n] \<and> rooted_nodes (vn_path n) (vn_children n)"
  by (cases n) (simp add: rooted_nodes_def)

definition plain_item :: "'x projected \<Rightarrow> 'x" where
  "plain_item x = (case x of (v, p, y) \<Rightarrow> y)"

lemma walk_make_view:
  "walk_view (make_view parent s t) = map (\<lambda>(q, m, xs). (q, m, map plain_item xs)) (walk_node parent s t)"
proof (induction parent s t rule: make_view.induct)
  case (1 parent s m xs cs)
  have "concat (map walk_view (map (\<lambda>(k, t). make_view (parent @ [s]) k t) cs)) =
      map (\<lambda>(q, m, xs). (q, m, map plain_item xs)) (concat (map (\<lambda>(k, t). walk_node (parent @ [s]) k t) cs))"
    unfolding map_concat map_map by (intro arg_cong [where f = concat] map_cong) (auto simp: 1)
  then show ?case by (simp add: plain_item_def [abs_def])
qed

lemma rooted_make_view: "tree_ok t \<Longrightarrow> rooted parent (make_view parent s t) \<and> vn_segment (make_view parent s t) = s"
proof (induction parent s t rule: make_view.induct)
  case (1 parent s m xs cs)
  have "map vn_segment (map (\<lambda>(k, t). make_view (parent @ [s]) k t) cs) = map fst cs"
    using 1 by (auto simp: list_all_iff)
  with 1 show ?case by (auto simp: list_all_iff simp del: map_map)
qed

lemma rooted_view_tree: "rooted_nodes [] (view_tree xs)"
proof -
  let ?f = "build_tree source_at fst xs"
  have f: "distinct (map fst ?f)" "list_all (\<lambda>(k, t). tree_ok t) ?f"
    using build_tree_ok [of source_at fst xs] by (simp_all add: forest_ok_def)
  then have s: "map vn_segment (view_tree xs) = map fst ?f"
    by (auto simp: view_tree_def list_all_iff rooted_make_view)
  have "list_all (rooted []) (view_tree xs)"
    using f(2) by (auto simp: view_tree_def list_all_iff rooted_make_view)
  with f(1) show ?thesis unfolding rooted_nodes_def s by blast
qed

section \<open>What a view holds\<close>

definition view_entries :: "('x \<Rightarrow> 'y) \<Rightarrow> 'x view_node list \<Rightarrow> (string list \<times> 'y) list" where
  "view_entries tag ns =
     concat (map (\<lambda>(p, m, xs). map (\<lambda>x. (p, tag x)) xs) (concat (map walk_view ns)))"

lemma view_entries_simps [simp]:
  "view_entries tag [] = []"
  "view_entries tag (n # ns) =
     map (\<lambda>x. (vn_path n, tag x)) (vn_items n) @ view_entries tag (vn_children n) @ view_entries tag ns"
  by (simp_all add: view_entries_def) (cases n; simp)

lemma walk_view_tree:
  "concat (map walk_view (view_tree xs)) =
     map (\<lambda>(q, m, ys). (q, m, map plain_item ys)) (walk_forest [] (build_tree source_at fst xs))"
  by (simp add: view_tree_def walk_forest_def map_concat comp_def split_def walk_make_view)

lemma view_entries_tree:
  assumes "\<forall>x\<in>set xs. fst x \<noteq> []"
  shows "mset (view_entries tag (view_tree xs)) = mset (map (\<lambda>x. (fst x, tag (plain_item x))) xs)"
proof -
  let ?w = "walk_forest [] (build_tree source_at fst xs)"
  let ?h = "\<lambda>x. (fst x, tag (plain_item x))"
  have "view_entries tag (view_tree xs) = concat (map (\<lambda>(q, m, ys). map (\<lambda>x. (q, tag (plain_item x))) ys) ?w)"
    unfolding view_entries_def walk_view_tree by (simp add: comp_def split_def)
  also have "\<dots> = concat (map (\<lambda>(q, m, ys). map ?h (filter (\<lambda>x. fst x = q) xs)) ?w)"
    by (intro arg_cong [where f = concat] map_cong refl) (auto simp: walk_build_tree)
  also have "\<dots> = map ?h (concat (map (\<lambda>q. filter (\<lambda>x. fst x = q) xs) (map fst ?w)))"
    by (simp add: map_concat comp_def split_def)
  finally have "mset (view_entries tag (view_tree xs)) =
      image_mset ?h (mset (concat (map (\<lambda>q. filter (\<lambda>x. fst x = q) xs) (map fst ?w))))"
    by (simp only: mset_map)
  moreover have "mset (concat (map (\<lambda>q. filter (\<lambda>x. fst x = q) xs) (map fst ?w))) = mset xs"
  proof (rule mset_filter_paths)
    show "distinct (map fst ?w)" by (rule walk_build_tree)
    show "\<forall>x\<in>set xs. fst x \<in> set (map fst ?w)"
    proof
      fix x assume x: "x \<in> set xs"
      then have "filter (\<lambda>y. prefix (fst x) (fst y)) xs \<noteq> []" by (auto simp: filter_empty_conv)
      then obtain y ys where "filter (\<lambda>y. prefix (fst x) (fst y)) xs = y # ys" by (meson neq_Nil_conv)
      then have "(fst x, source_at y (length (fst x) - 1), filter (\<lambda>y. fst y = fst x) xs) \<in> set ?w"
        using assms x by (auto simp: walk_build_tree)
      then show "fst x \<in> set (map fst ?w)" by force
    qed
  qed
  ultimately show ?thesis by simp
qed

section \<open>Merging the views\<close>

fun ns_walk :: "namespace_node \<Rightarrow> namespace_node list" where
  "ns_walk (NamespaceNode s p m rs es ss os cs) = NamespaceNode s p m rs es ss os cs # concat (map ns_walk cs)"

datatype entry = OperationEntry route_decl | EventEntry event_decl | StreamEntry stream_item

definition node_entries :: "namespace_node \<Rightarrow> (string list \<times> entry) list" where
  "node_entries n =
     map (Pair (ns_path n)) (map OperationEntry (ns_operations n) @ map EventEntry (ns_notifications n)
       @ map (StreamEntry \<circ> BinaryItem) (ns_streams n) @ map (StreamEntry \<circ> RawItem) (ns_sockets n))"

definition ns_entries :: "namespace_node list \<Rightarrow> (string list \<times> entry) list" where
  "ns_entries ns = concat (map node_entries (concat (map ns_walk ns)))"

lemma ns_entries_simps [simp]:
  "ns_entries [] = []"
  "ns_entries (n # ns) = node_entries n @ ns_entries (ns_children n) @ ns_entries ns"
  by (simp_all add: ns_entries_def) (cases n; simp)

lemma ns_entries_map: "ns_entries (map f xs) = concat (map (\<lambda>x. node_entries (f x) @ ns_entries (ns_children (f x))) xs)"
  by (induction xs) simp_all

lemma split_items: "mset xs = image_mset BinaryItem (mset (binary_items xs)) + image_mset RawItem (mset (raw_items xs))"
  by (induction xs rule: binary_items.induct) simp_all

lemma by_segment_distinct:
  "distinct (map vn_segment ns) \<Longrightarrow> by_segment ns = map (\<lambda>n. (vn_segment n, n)) ns"
proof (induction ns rule: rev_induct)
  case (snoc n ns)
  then show ?case unfolding by_segment_step by (subst dict_set_fresh) (auto simp: image_image)
qed (simp add: by_segment_def)

lemma by_segment_hit:
  assumes "rooted_nodes parent ns" "map_of (by_segment ns) s = Some n"
  shows "vn_path n = parent @ [s] \<and> rooted_nodes (parent @ [s]) (vn_children n)"
proof -
  have d: "distinct (map vn_segment ns)" "list_all (rooted parent) ns" using assms(1) by (simp_all add: rooted_nodes_def)
  with assms(2) have "n \<in> set ns" "vn_segment n = s"
    by (auto simp: by_segment_distinct dest!: map_of_SomeD)
  moreover from this d(2) have "rooted parent n" by (simp add: list_all_iff)
  ultimately show ?thesis unfolding rooted_node by (elim conjE) (simp only: simp_thms)
qed

lemma children_rooted:
  "rooted_nodes parent ns \<Longrightarrow> rooted_nodes (parent @ [s]) (children_of (map_of (by_segment ns) s))"
  by (cases "map_of (by_segment ns) s") (auto simp: children_of_def rooted_nodes_def [of _ "[]"] dest: by_segment_hit)

text \<open>Of every segment the node and what is below it.\<close>

definition segment_entries :: "('x \<Rightarrow> 'y) \<Rightarrow> string list \<Rightarrow> 'x view_node option \<Rightarrow> (string list \<times> 'y) list" where
  "segment_entries tag p n = map (\<lambda>x. (p, tag x)) (items_of n) @ view_entries tag (children_of n)"

lemma sum_segments:
  assumes "rooted_nodes parent ns" "distinct S" "vn_segment ` set ns \<subseteq> set S"
  shows "mset (concat (map (\<lambda>s. segment_entries tag (parent @ [s]) (map_of (by_segment ns) s)) S))
    = mset (view_entries tag ns)"
  using assms
proof (induction ns arbitrary: S)
  case Nil
  have "concat (map (\<lambda>s. []) S) = []" by (induction S) simp_all
  then show ?case by (simp add: by_segment_def segment_entries_def items_of_def children_of_def)
next
  case (Cons n ns)
  have d: "distinct (map vn_segment (n # ns))" "vn_path n = parent @ [vn_segment n]" "rooted_nodes parent ns"
    using Cons.prems(1) by (simp_all add: rooted_nodes_def rooted_node)
  obtain S1 S2 where S: "S = S1 @ vn_segment n # S2" using Cons.prems(3) by (auto dest: split_list)
  have b: "map_of (by_segment (n # ns)) s = (if s = vn_segment n then Some n else map_of (by_segment ns) s)" for s
    using d(1) by (simp add: by_segment_distinct del: distinct.simps) (auto simp: by_segment_distinct)
  let ?g = "\<lambda>ns. map (\<lambda>s. segment_entries tag (parent @ [s]) (map_of (by_segment ns) s))"
  have out: "?g (n # ns) S1 = ?g ns S1" "?g (n # ns) S2 = ?g ns S2"
    using Cons.prems(2) unfolding S by (auto simp: b)
  have "map_of (by_segment ns) (vn_segment n) = None"
    using d(1) by (auto simp: by_segment_distinct map_of_eq_None_iff)
  then have "segment_entries tag (parent @ [vn_segment n]) (map_of (by_segment ns) (vn_segment n)) = []"
    by (simp add: segment_entries_def items_of_def children_of_def)
  moreover have "vn_segment ` set ns \<subseteq> set S" using Cons.prems(3) by simp
  then have "mset (concat (?g ns S)) = mset (view_entries tag ns)" by (rule Cons.IH [OF d(3) Cons.prems(2)])
  ultimately have rest: "mset (concat (?g ns S1)) + mset (concat (?g ns S2)) = mset (view_entries tag ns)"
    unfolding S by simp
  have "?g (n # ns) S = ?g ns S1 @ segment_entries tag (parent @ [vn_segment n]) (Some n) # ?g ns S2"
    unfolding S by (simp only: map_append list.map out) (simp only: b refl if_True)
  then have "mset (concat (?g (n # ns) S)) =
      mset (segment_entries tag (parent @ [vn_segment n]) (Some n)) + (mset (concat (?g ns S1)) + mset (concat (?g ns S2)))"
    by simp
  also have "\<dots> = mset (view_entries tag (n # ns))"
    unfolding rest by (simp add: segment_entries_def items_of_def children_of_def d(2))
  finally show ?case .
qed

text \<open>A merged tree has the entries of the three.\<close>

lemma place_of_rooted:
  assumes "rooted_nodes parent rs" "rooted_nodes parent es" "rooted_nodes parent ss"
    and "s \<in> set (view_segments rs es ss)"
  shows "fst (place_of (map_of (by_segment rs) s) (map_of (by_segment es) s) (map_of (by_segment ss) s)) = parent @ [s]"
proof -
  have "map_of (by_segment rs) s \<noteq> None \<or> map_of (by_segment es) s \<noteq> None \<or> map_of (by_segment ss) s \<noteq> None"
    using assms(4) by (auto simp: view_segments_def map_of_eq_None_iff)
  with assms(1-3) [THEN by_segment_hit] show ?thesis
    by (auto simp: place_of_def split: option.splits)
qed

lemma concat_mset_add:
  "(\<And>x. x \<in> set xs \<Longrightarrow> mset (f x) = mset (g x) + mset (h x)) \<Longrightarrow>
   mset (concat (map f xs)) = mset (concat (map g xs)) + mset (concat (map h xs))"
  by (induction xs) (simp_all add: ac_simps)

lemma merge_entries:
  "rooted_nodes parent rs \<Longrightarrow> rooted_nodes parent es \<Longrightarrow> rooted_nodes parent ss \<Longrightarrow>
   mset (ns_entries (merge_nodes rs es ss)) =
     mset (view_entries OperationEntry rs)
     + (mset (view_entries EventEntry es) + mset (view_entries StreamEntry ss))"
proof (induction rs es ss arbitrary: parent rule: merge_nodes.induct)
  case (1 rs es ss)
  let ?S = "view_segments rs es ss"
  let ?r = "map_of (by_segment rs)" and ?e = "map_of (by_segment es)" and ?t = "map_of (by_segment ss)"
  let ?R = "\<lambda>s. segment_entries OperationEntry (parent @ [s]) (?r s)"
  let ?E = "\<lambda>s. segment_entries EventEntry (parent @ [s]) (?e s)"
  let ?T = "\<lambda>s. segment_entries StreamEntry (parent @ [s]) (?t s)"
  define f where "f s = (let (path, source) = place_of (?r s) (?e s) (?t s) in
       NamespaceNode s path source (items_of (?r s)) (items_of (?e s)) (binary_items (items_of (?t s)))
         (raw_items (items_of (?t s))) (merge_nodes (children_of (?r s)) (children_of (?e s)) (children_of (?t s))))" for s
  have m: "merge_nodes rs es ss = map f ?S" by (subst merge_nodes.simps) (simp add: f_def [abs_def] Let_def)
  have step: "mset (node_entries (f s) @ ns_entries (ns_children (f s))) = mset (?R s) + (mset (?E s) + mset (?T s))"
    if s: "s \<in> set ?S" for s
  proof -
    obtain src where p: "place_of (?r s) (?e s) (?t s) = (parent @ [s], src)"
      using place_of_rooted [OF 1(2) 1(3) 1(4) s] by (metis prod.collapse)
    have "mset (ns_entries (ns_children (f s))) = mset (view_entries OperationEntry (children_of (?r s)))
        + (mset (view_entries EventEntry (children_of (?e s))) + mset (view_entries StreamEntry (children_of (?t s))))"
      using 1(1) [OF s refl refl refl p [symmetric] refl
          children_rooted [OF 1(2)] children_rooted [OF 1(3)] children_rooted [OF 1(4)]]
      by (simp add: f_def p)
    moreover have "mset (node_entries (f s)) =
        image_mset (\<lambda>x. (parent @ [s], OperationEntry x)) (mset (items_of (?r s)))
        + (image_mset (\<lambda>x. (parent @ [s], EventEntry x)) (mset (items_of (?e s)))
          + image_mset (\<lambda>x. (parent @ [s], StreamEntry x)) (mset (items_of (?t s))))"
      unfolding split_items [of "items_of (?t s)"]
      by (simp add: node_entries_def f_def p image_mset.compositionality comp_def)
    ultimately show ?thesis by (simp add: segment_entries_def ac_simps)
  qed
  have "mset (ns_entries (merge_nodes rs es ss)) =
      mset (concat (map ?R ?S)) + mset (concat (map (\<lambda>s. ?E s @ ?T s) ?S))"
    unfolding m ns_entries_map by (rule concat_mset_add) (subst step, assumption, simp)
  also have "mset (concat (map (\<lambda>s. ?E s @ ?T s) ?S)) = mset (concat (map ?E ?S)) + mset (concat (map ?T ?S))"
    by (rule concat_mset_add) simp
  finally have e: "mset (ns_entries (merge_nodes rs es ss)) =
      mset (concat (map ?R ?S)) + (mset (concat (map ?E ?S)) + mset (concat (map ?T ?S)))" .
  have "distinct ?S" by (simp add: view_segments_def)
  moreover have "vn_segment ` set rs \<subseteq> set ?S" "vn_segment ` set es \<subseteq> set ?S" "vn_segment ` set ss \<subseteq> set ?S"
    by (auto simp: view_segments_def by_segment_keys [simplified])
  ultimately show ?case unfolding e using 1(2-4) by (simp add: sum_segments)
qed

section \<open>The client view\<close>

definition view_roots :: "client_view \<Rightarrow> entry list" where
  "view_roots v =
     map OperationEntry (cv_operations v) @ map EventEntry (cv_notifications v)
     @ map (StreamEntry \<circ> BinaryItem) (cv_streams v) @ map (StreamEntry \<circ> RawItem) (cv_sockets v)"

definition client_entries :: "client_view \<Rightarrow> (string list \<times> entry) list" where
  "client_entries v = map (Pair []) (view_roots v) @ ns_entries (cv_nodes v)"

lemma split_visible:
  "mset (map (\<lambda>x. ([], tag x)) (filter (\<lambda>x. vis (path x) = []) xs))
   + mset (map (\<lambda>x. (vis (path x), tag x)) (filter (\<lambda>x. vis (path x) \<noteq> []) xs))
   = mset (map (\<lambda>x. (vis (path x), tag x)) xs)"
  by (induction xs) simp_all

lemma projected_entries:
  "mset (map (\<lambda>x. ([], tag x)) (filter (\<lambda>x. vis (path x) = []) xs))
   + mset (view_entries tag (view_tree (project vis path xs)))
   = mset (map (\<lambda>x. (vis (path x), tag x)) xs)"
proof -
  have "mset (view_entries tag (view_tree (project vis path xs))) =
      mset (map (\<lambda>x. (fst x, tag (plain_item x))) (project vis path xs))"
    by (rule view_entries_tree) (auto simp: project_def)
  also have "map (\<lambda>x. (fst x, tag (plain_item x))) (project vis path xs) =
      map (\<lambda>x. (vis (path x), tag x)) (filter (\<lambda>x. vis (path x) \<noteq> []) xs)"
    by (simp add: project_def plain_item_def)
  finally have "mset (view_entries tag (view_tree (project vis path xs))) =
      mset (map (\<lambda>x. (vis (path x), tag x)) (filter (\<lambda>x. vis (path x) \<noteq> []) xs))" .
  then show ?thesis by (simp only: split_visible)
qed

lemma split_paths:
  "mset (map f (filter (\<lambda>r. rr_path r = []) rs)) + mset (map f (filter (\<lambda>r. rr_path r \<noteq> []) rs)) = mset (map f rs)"
  by (induction rs) simp_all

lemma view_api_Inr:
  assumes "view_api ir api_root aliases = Inr v"
  shows "let vis = visible_path (api_root_path api_root) aliases;
           routes = filter (\<lambda>r. rr_path r \<noteq> []) (ir_operations ir);
           xs = project vis rr_path routes in
         av_root v = ir_root_operations ir @ filter (\<lambda>r. vis (rr_path r) = []) routes
         \<and> av_nodes v = view_tree xs
         \<and> (\<exists>m. fold_res enter_visible (concat (map visible_prefixes xs)) [] = Inr m)"
  using assms by (auto simp: view_api_def Let_def rbind_eq_Inr)

lemma build_ir_operations:
  assumes "build_ir doc = Inr ir" "document_routes doc = Inr routes"
  shows "ir_root_operations ir = filter (\<lambda>r. rr_path r = []) routes"
    and "mset (filter (\<lambda>r. rr_path r \<noteq> []) (ir_operations ir)) = mset (filter (\<lambda>r. rr_path r \<noteq> []) routes)"
proof -
  show "ir_root_operations ir = filter (\<lambda>r. rr_path r = []) routes"
    using assms by (auto elim: build_ir_parts)
  show "mset (filter (\<lambda>r. rr_path r \<noteq> []) (ir_operations ir)) = mset (filter (\<lambda>r. rr_path r \<noteq> []) routes)"
    using ir_operations_routes [OF assms] by (simp only: mset_filter)
qed

lemma visible_path_Nil: "visible_path base aliases [] = []"
  by (simp add: visible_path_def api_names_of_def visible_source_def)

text \<open>C21. The client that is rendered has every operation, event, binary stream and raw socket of the document
  exactly once, in the namespace of its visible path: the path without \<open>api_root\<close>, renamed by \<open>api_names\<close>
  for operations and events, and not renamed for streams and raw sockets.\<close>

theorem client_view_exact:
  assumes "build_ir doc = Inr ir" "document_routes doc = Inr routes"
    and "view_client ir api_root aliases = Inr v"
  shows "mset (client_entries v) =
     mset (map (\<lambda>r. (visible_path (api_root_path api_root) aliases (rr_path r), OperationEntry r)) routes)
     + mset (map (\<lambda>e. (visible_path (api_root_path api_root) aliases (ev_path e), EventEntry e)) (ir_notifications ir))
     + mset (map (\<lambda>s. (visible_source (api_root_path api_root) (stream_path s), StreamEntry s))
         (map BinaryItem (ir_streams ir) @ map RawItem (ir_sockets ir)))"
proof -
  let ?vis = "visible_path (api_root_path api_root) aliases" and ?src = "visible_source (api_root_path api_root)"
  let ?rs = "filter (\<lambda>r. rr_path r \<noteq> []) (ir_operations ir)"
  let ?ss = "map BinaryItem (ir_streams ir) @ map RawItem (ir_sockets ir)"
  let ?root = "filter (\<lambda>s. ?src (stream_path s) = []) ?ss"
  let ?tr = "view_tree (project ?vis rr_path ?rs)" and ?te = "view_tree (project ?vis ev_path (ir_notifications ir))"
    and ?ts = "view_tree (project ?src stream_path ?ss)"
  obtain a where a: "view_api ir api_root aliases = Inr a"
    "v = \<lparr>cv_operations = av_root a, cv_notifications = evv_root (view_events ir api_root aliases),
       cv_streams = binary_items ?root,
       cv_nodes = merge_nodes (av_nodes a) (evv_nodes (view_events ir api_root aliases)) ?ts,
       cv_sockets = raw_items ?root\<rparr>"
    using assms(3) by (auto simp: view_client_def Let_def rbind_eq_Inr)
  have r: "av_root a = ir_root_operations ir @ filter (\<lambda>r. ?vis (rr_path r) = []) ?rs" "av_nodes a = ?tr"
    using view_api_Inr [OF a(1)] by (simp_all add: Let_def)
  have e: "evv_root (view_events ir api_root aliases) = filter (\<lambda>e. ?vis (ev_path e) = []) (ir_notifications ir)"
    "evv_nodes (view_events ir api_root aliases) = ?te"
    by (simp_all add: view_events_def Let_def)
  have nodes: "mset (ns_entries (cv_nodes v)) = mset (view_entries OperationEntry ?tr)
      + (mset (view_entries EventEntry ?te) + mset (view_entries StreamEntry ?ts))"
    using merge_entries [of "[]" ?tr ?te ?ts] by (simp only: a(2) r(2) e client_view.simps rooted_view_tree simp_thms)
  have roots: "mset (map (Pair []) (view_roots v)) =
      mset (map (\<lambda>r. ([], OperationEntry r)) (ir_root_operations ir))
      + mset (map (\<lambda>r. ([], OperationEntry r)) (filter (\<lambda>r. ?vis (rr_path r) = []) ?rs))
      + mset (map (\<lambda>e. ([], EventEntry e)) (filter (\<lambda>e. ?vis (ev_path e) = []) (ir_notifications ir)))
      + mset (map (\<lambda>s. ([], StreamEntry s)) ?root)"
    unfolding mset_map split_items [of ?root]
    by (simp add: a(2) r(1) e view_roots_def image_mset.compositionality comp_def)
  have ops: "mset (map (\<lambda>r. ([], OperationEntry r)) (ir_root_operations ir)) + mset (map (\<lambda>r. (?vis (rr_path r), OperationEntry r)) ?rs)
      = mset (map (\<lambda>r. (?vis (rr_path r), OperationEntry r)) routes)"
  proof -
    have "mset (map (\<lambda>r. (?vis (rr_path r), OperationEntry r)) ?rs)
        = mset (map (\<lambda>r. (?vis (rr_path r), OperationEntry r)) (filter (\<lambda>r. rr_path r \<noteq> []) routes))"
      using build_ir_operations(2) [OF assms(1,2)] by (metis mset_map)
    moreover have "map (\<lambda>r. ([], OperationEntry r)) (ir_root_operations ir)
        = map (\<lambda>r. (?vis (rr_path r), OperationEntry r)) (filter (\<lambda>r. rr_path r = []) routes)"
      unfolding build_ir_operations(1) [OF assms(1,2)] by (auto simp: visible_path_Nil)
    ultimately show ?thesis by (simp only: split_paths)
  qed
  show ?thesis
    unfolding client_entries_def mset_append nodes roots ops [symmetric]
      projected_entries [of OperationEntry ?vis rr_path ?rs, symmetric]
      projected_entries [of EventEntry ?vis ev_path "ir_notifications ir", symmetric]
      projected_entries [of StreamEntry ?src stream_path ?ss, symmetric]
    by (simp only: ac_simps)
qed

lemma users_view:
  "\<exists>ir r v. build_ir users_document = Inr ir \<and> document_routes users_document = Inr [r]
     \<and> view_client ir None [(''users'', ''accounts'')] = Inr v \<and> rr_path r = [''users'']
     \<and> ir_notifications ir = [] \<and> ir_streams ir = [] \<and> ir_sockets ir = []"
proof -
  have "(case build_ir users_document of Inl e \<Rightarrow> False
      | Inr ir \<Rightarrow> (case view_api ir None [(''users'', ''accounts'')] of Inl e \<Rightarrow> False | Inr v \<Rightarrow> True)
         \<and> length (ir_notifications ir) + length (ir_streams ir) + length (ir_sockets ir) = 0)"
    by code_simp
  moreover have "(case document_routes users_document of Inr [r] \<Rightarrow> rr_path r = [''users''] | _ \<Rightarrow> False)"
    by code_simp
  ultimately show ?thesis by (auto simp: view_client_def Let_def split: sum.splits list.splits)
qed

lemma users_visible: "visible_path (api_root_path None) [(''users'', ''accounts'')] [''users''] = [''accounts'']"
  by code_simp

lemma client_view_exact_witness:
  "\<exists>ir r v. build_ir users_document = Inr ir \<and> view_client ir None [(''users'', ''accounts'')] = Inr v
     \<and> rr_path r = [''users''] \<and> mset (client_entries v) = {#([''accounts''], OperationEntry r)#}"
proof -
  obtain ir r v where u: "build_ir users_document = Inr ir" "document_routes users_document = Inr [r]"
    "view_client ir None [(''users'', ''accounts'')] = Inr v" "rr_path r = [''users'']"
    "ir_notifications ir = []" "ir_streams ir = []" "ir_sockets ir = []"
    using users_view by blast
  then have "mset (client_entries v) = {#([''accounts''], OperationEntry r)#}"
    using client_view_exact [OF u(1-3)] by (simp add: users_visible)
  with u show ?thesis by blast
qed

section \<open>Namespaces are not joined\<close>

lemma enter_visible_kept:
  "fold_res enter_visible vs m = Inr m' \<Longrightarrow>
   (\<forall>v s. map_of m v = Some s \<longrightarrow> map_of m' v = Some s) \<and> (\<forall>(v, s)\<in>set vs. map_of m' v = Some s)"
proof (induction vs arbitrary: m)
  case (Cons x vs)
  obtain v s where x: "x = (v, s)" by (cases x)
  from Cons.prems obtain m1 where m1: "enter_visible x m = Inr m1" "fold_res enter_visible vs m1 = Inr m'"
    by (auto simp: rbind_eq_Inr)
  have "map_of m1 v = Some s" "map_of m u = Some t \<Longrightarrow> map_of m1 u = Some t" for u t
    using m1(1) by (auto simp: x enter_visible_def dict_simps split: option.splits if_splits)
  with Cons.IH [OF m1(2)] show ?case by (auto simp: x)
qed simp

lemma visible_prefixes_at:
  "0 < n \<Longrightarrow> n \<le> length (fst x) \<Longrightarrow> (take n (fst x), source_at x (n - 1)) \<in> set (visible_prefixes x)"
  by (cases x) (auto simp: visible_prefixes_def source_at_def Let_def intro!: image_eqI [where x = n])

text \<open>In the view of the operations that is accepted, a node has operations of one namespace of the contract
  only: all have the path that the node gives as its source, and the node is at their visible path.\<close>

theorem operations_keep_namespace:
  assumes "view_api ir api_root aliases = Inr v"
    and "(p, source, rs) \<in> set (concat (map walk_view (av_nodes v)))"
  shows "list_all (\<lambda>r. rr_path r = source
     \<and> visible_path (api_root_path api_root) aliases (rr_path r) = p) rs"
proof -
  let ?vis = "visible_path (api_root_path api_root) aliases"
  let ?xs = "project ?vis rr_path (filter (\<lambda>r. rr_path r \<noteq> []) (ir_operations ir))"
  have v: "av_nodes v = view_tree ?xs" using view_api_Inr [OF assms(1)] by (simp add: Let_def)
  obtain m where "fold_res enter_visible (concat (map visible_prefixes ?xs)) [] = Inr m"
    using view_api_Inr [OF assms(1)] by (auto simp: Let_def)
  then have m: "\<forall>(u, s)\<in>set (concat (map visible_prefixes ?xs)). map_of m u = Some s"
    by (blast dest: enter_visible_kept)
  have at: "map_of m (take n (fst x)) = Some (source_at x (n - 1))"
    if "x \<in> set ?xs" "0 < n" "n \<le> length (fst x)" for x n
  proof -
    have "(take n (fst x), source_at x (n - 1)) \<in> set (concat (map visible_prefixes ?xs))"
      unfolding set_concat set_map using that(1) visible_prefixes_at [OF that(2,3)] by blast
    with m show ?thesis by blast
  qed
  from assms(2) obtain ys where w: "(p, source, ys) \<in> set (walk_forest [] (build_tree source_at fst ?xs))"
    "rs = map plain_item ys" unfolding v walk_view_tree by auto
  from w(1) obtain x zs where f: "p \<noteq> []" "filter (\<lambda>x. prefix p (fst x)) ?xs = x # zs"
    "source = source_at x (length p - 1)" "ys = filter (\<lambda>x. fst x = p) ?xs"
    unfolding walk_build_tree by blast
  have "x \<in> set (filter (\<lambda>x. prefix p (fst x)) ?xs)" unfolding f(2) by simp
  then have x: "x \<in> set ?xs" "prefix p (fst x)" by simp_all
  then have "take (length p) (fst x) = p" "length p \<le> length (fst x)" by (auto simp: prefix_def)
  with at [OF x(1), of "length p"] f(1,3) have s: "map_of m p = Some source" by simp
  have "rr_path r = source \<and> ?vis (rr_path r) = p" if "r \<in> set rs" for r
  proof -
    from that w(2) f(4) obtain y where y: "y \<in> set ?xs" "fst y = p" "r = plain_item y" by auto
    then have r: "y = (p, rr_path r, r)" "?vis (rr_path r) = p" by (auto simp: project_def plain_item_def)
    have "length p \<le> length (rr_path r)"
      using r(2) by (auto simp: visible_path_def api_names_of_def visible_source_def Let_def)
    then have "source_at y (length p - 1) = rr_path r" using r(1) f(1) by (simp add: source_at_def)
    with at [OF y(1), of "length p"] y(2) f(1) s r(2) show ?thesis by simp
  qed
  then show ?thesis unfolding list_all_iff by blast
qed

lemma users_api_view:
  "\<exists>ir v r. build_ir users_document = Inr ir \<and> view_api ir None [(''users'', ''accounts'')] = Inr v
     \<and> concat (map walk_view (av_nodes v)) = [([''accounts''], [''users''], [r])]"
proof -
  have "(case build_ir users_document of Inl e \<Rightarrow> False
      | Inr ir \<Rightarrow> (case view_api ir None [(''users'', ''accounts'')] of Inl e \<Rightarrow> False
          | Inr v \<Rightarrow> map (\<lambda>(p, s, rs). (p, s, length rs)) (concat (map walk_view (av_nodes v)))
              = [([''accounts''], [''users''], 1)]))"
    by code_simp
  then show ?thesis by (auto simp: length_Suc_conv split: sum.splits)
qed

lemma operations_keep_namespace_witness:
  "\<exists>ir v r. view_api ir None [(''users'', ''accounts'')] = Inr v
     \<and> ([''accounts''], [''users''], [r]) \<in> set (concat (map walk_view (av_nodes v)))
     \<and> rr_path r = [''users'']"
proof -
  obtain ir v r where u: "view_api ir None [(''users'', ''accounts'')] = Inr v"
    "concat (map walk_view (av_nodes v)) = [([''accounts''], [''users''], [r])]"
    using users_api_view by blast
  then have m: "([''accounts''], [''users''], [r]) \<in> set (concat (map walk_view (av_nodes v)))" by simp
  from operations_keep_namespace [OF u(1) m] have "rr_path r = [''users'']" by simp
  with u(1) m show ?thesis by blast
qed

end
