(* ===== verification/Contract.thy ===== *)
theory Contract
  imports Service Names
begin

text \<open>
  \<open>schema/components.py\<close>, \<open>schema/openrpc.py\<close> and \<open>contract.py\<close>: the OpenRPC document of a protocol, and the
  contract of a service. The JSON Schema of a type comes from Pydantic: \<open>schema_library\<close> has what the
  code asks of it, that is the name of a type, the definitions of a list of types, the schema of a type,
  whether the schema of a model requires a member, the check of the wire names of models (a walk over fields
  that only Pydantic knows) and the JSON number of a timeout.
\<close>

section \<open>Types and their schemas\<close>

record schema_library =
  sl_name :: "ann \<Rightarrow> string option"
  sl_definitions :: "(string \<times> ann) list \<Rightarrow> (string \<times> json) list"
  sl_schema :: "ann \<Rightarrow> json"
  sl_required :: "ann \<Rightarrow> bool"
  sl_wire_names_unique :: "ann list \<Rightarrow> bool"
  sl_number :: "rat \<Rightarrow> json"

datatype contract_error =
    TypeWithoutName
  | DuplicateSchema string
  | WireNameTwice
  | UnknownSchema string
  | ServerWithoutName
  | DuplicateServer string
  | UndeclaredReferences "(string \<times> string \<times> string) list"
  | EmptyTitle
  | BadBaseUrl
  | UnusedVariables "string list"
  | BadVariable
  | CloseWithoutRejection
  | ServiceProblem service_error

definition type_name :: "schema_library \<Rightarrow> ann \<Rightarrow> contract_error + string" where
  "type_name sl a = (case sl_name sl a of None \<Rightarrow> Inl TypeWithoutName | Some n \<Rightarrow> Inr n)"

definition schema_ref :: "string \<Rightarrow> json" where
  "schema_ref n = JObj [(''$ref'', JStr (''#/components/schemas/'' @ n))]"

definition definition_ref :: "string \<Rightarrow> json" where
  "definition_ref n = JObj [(''$ref'', JStr (''#/$defs/'' @ n))]"

fun rewrite_refs :: "json \<Rightarrow> json" where
  "rewrite_refs (JObj m) = JObj (map (\<lambda>(k, v). (k, rewrite_refs v)) m)"
| "rewrite_refs (JArr xs) = JArr (map rewrite_refs xs)"
| "rewrite_refs (JStr s) =
     JStr (if starts_with ''#/$defs/'' s then ''#/components/schemas/'' @ remove_prefix ''#/$defs/'' s else s)"
| "rewrite_refs j = j"

section \<open>Components\<close>

definition add_annotation ::
  "schema_library \<Rightarrow> ann \<Rightarrow> (string, ann) dict \<Rightarrow> contract_error + (string, ann) dict" where
  "add_annotation sl a m =
     rbind (type_name sl a) (\<lambda>n.
     case map_of m n of
       Some existing \<Rightarrow> if existing \<noteq> a then Inl (DuplicateSchema n) else Inr (dict_set n a m)
     | None \<Rightarrow> Inr (dict_set n a m))"

text \<open>The types of a result that have a definition: models and aliases, also inside of other types.\<close>

fun result_types :: "ann \<Rightarrow> ann list" where
  "result_types (AnnAlias a) = [AnnAlias a]"
| "result_types (AnnClass c) = (if is_model (AnnClass c) then [AnnClass c] else [])"
| "result_types (AnnInject a) = result_types a"
| "result_types (AnnAnnotated a ms) = result_types a"
| "result_types (AnnUnion as) = concat (map result_types as)"
| "result_types (AnnAsyncIter a) = result_types a"
| "result_types (AnnList a) = result_types a"
| "result_types (AnnSet a) = result_types a"
| "result_types (AnnFrozenSet a) = result_types a"
| "result_types (AnnDict a b) = result_types a @ result_types b"
| "result_types (AnnTuple as) = concat (map result_types as)"
| "result_types (AnnOther n) = []"

definition some_list :: "'a option \<Rightarrow> 'a list" where
  "some_list x = (case x of None \<Rightarrow> [] | Some y \<Rightarrow> [y])"

definition raise_types :: "error_type list \<Rightarrow> ann list" where
  "raise_types es = map AnnClass (concat (map (\<lambda>e. some_list (ec_details_type (error_info e))) es))"

definition protocol_types :: "protocol \<Rightarrow> ann list" where
  "protocol_types p =
     concat (map (\<lambda>m. some_list (md_params m) @ result_types (md_result m)) (dict_vals (pc_methods p)))
     @ map nd_payload (dict_vals (pc_notifications p))
     @ concat (map (\<lambda>s. some_list (sd_params s) @ [sd_payload s]) (dict_vals (pc_subscriptions p)))
     @ map (\<lambda>t. AnnClass (nt_payload t)) (dict_vals (pc_notification_types p))
     @ concat (map (\<lambda>m. some_list (cm_params m) @ result_types (cm_result m)) (dict_vals (pc_client_methods p)))
     @ raise_types (concat (map md_raises (dict_vals (pc_methods p))))
     @ raise_types (concat (map cm_raises (dict_vals (pc_client_methods p))))
     @ raise_types (concat (map nd_raises (dict_vals (pc_notifications p))))
     @ raise_types (concat (map sd_raises (dict_vals (pc_subscriptions p))))"

definition annotations :: "schema_library \<Rightarrow> protocol \<Rightarrow> contract_error + (string, ann) dict" where
  "annotations sl p = fold_res (add_annotation sl) (protocol_types p) []"

definition notification_schema_name :: "string \<Rightarrow> string" where
  "notification_schema_name n = concat (map capitalize (word_parts n)) @ ''Notification''"

definition client_method_schema_name :: "string \<Rightarrow> string" where
  "client_method_schema_name n = concat (map capitalize (word_parts n)) @ ''ClientMethod''"

definition described :: "string option \<Rightarrow> (string \<times> json) list" where
  "described summary = map (\<lambda>s. (''summary'', JStr s)) (some_list summary)"

definition string_const :: "string \<Rightarrow> json" where
  "string_const s = JObj [(''const'', JStr s), (''type'', JStr ''string'')]"

definition id_schema :: json where
  "id_schema = JObj [(''anyOf'', JArr (map (\<lambda>t. JObj [(''type'', JStr t)]) [''string'', ''integer'', ''null''])),
     (''default'', JNull)]"

definition meta_schema :: json where
  "meta_schema =
     JObj [(''type'', JStr ''object''),
           (''additionalProperties'', JObj [(''type'', JStr ''string''), (''maxLength'', JInt 4096)]),
           (''propertyNames'', JObj [(''enum'', JArr (map JStr [''traceparent'', ''tracestate'', ''baggage'']))]),
           (''maxProperties'', JInt 3), (''x-rpc-max-bytes'', JInt 4096)]"

definition request_schema ::
  "schema_library \<Rightarrow> string \<Rightarrow> string \<Rightarrow> ann option \<Rightarrow> string option \<Rightarrow> contract_error + json" where
  "request_schema sl name title params summary =
     rbind (case params of
              None \<Rightarrow> Inr (JObj [(''additionalProperties'', JBool False), (''type'', JStr ''object'')], [])
            | Some a \<Rightarrow> rbind (type_name sl a) (\<lambda>n.
                Inr (definition_ref n, if sl_required sl a then [''params''] else []))) (\<lambda>(params_schema, more).
     Inr (JObj ([(''additionalProperties'', JBool False), (''type'', JStr ''object''), (''title'', JStr title),
       (''properties'', JObj [(''jsonrpc'', string_const ''2.0''), (''id'', id_schema), (''method'', string_const name),
          (''params'', params_schema), (''meta'', meta_schema)]),
       (''required'', JArr (map JStr ([''jsonrpc'', ''method''] @ more)))]
       @ map (\<lambda>s. (''description'', JStr s)) (some_list summary))))"

definition notification_schema :: "schema_library \<Rightarrow> notification_def \<Rightarrow> string \<Rightarrow> contract_error + json" where
  "notification_schema sl n schema_name =
     rbind (type_name sl (nd_payload n)) (\<lambda>payload.
     Inr (JObj ([(''additionalProperties'', JBool False), (''type'', JStr ''object''), (''title'', JStr schema_name),
       (''properties'', JObj [(''jsonrpc'', string_const ''2.0''), (''method'', string_const (nd_name n)),
          (''params'', definition_ref payload)]),
       (''required'', JArr (map JStr [''jsonrpc'', ''method'', ''params'']))]
       @ map (\<lambda>s. (''description'', JStr s)) (some_list (nd_summary n)))))"

type_synonym definitions = "(string, json) dict"

definition add_method_schema :: "schema_library \<Rightarrow> method_def \<Rightarrow> definitions \<Rightarrow> contract_error + definitions" where
  "add_method_schema sl m ds =
     rbind (request_schema sl (md_name m) (md_request_name m) (md_params m) (md_summary m)) (\<lambda>s.
     Inr (dict_set (md_request_name m) s ds))"

definition add_client_method_schema ::
  "schema_library \<Rightarrow> client_method_def \<Rightarrow> definitions \<Rightarrow> contract_error + definitions" where
  "add_client_method_schema sl m ds =
     (let n = client_method_schema_name (cm_name m) in
      rbind (raise_if (dict_has n ds) (DuplicateSchema n)) (\<lambda>_.
      rbind (request_schema sl (cm_name m) n (cm_params m) (cm_summary m)) (\<lambda>s. Inr (dict_set n s ds))))"

definition add_notification_schema ::
  "schema_library \<Rightarrow> notification_def \<Rightarrow> definitions \<Rightarrow> contract_error + definitions" where
  "add_notification_schema sl m ds =
     (let n = notification_schema_name (nd_name m) in
      rbind (notification_schema sl m n) (\<lambda>s. Inr (dict_set n s ds)))"

definition components :: "schema_library \<Rightarrow> protocol \<Rightarrow> contract_error + definitions" where
  "components sl p =
     rbind (annotations sl p) (\<lambda>as.
     rbind (raise_if (\<not> sl_wire_names_unique sl (dict_vals as)) WireNameTwice) (\<lambda>_.
     rbind (fold_res (add_method_schema sl) (dict_vals (pc_methods p)) (sl_definitions sl as)) (\<lambda>ds.
     rbind (fold_res (add_client_method_schema sl) (dict_vals (pc_client_methods p)) ds) (\<lambda>ds.
     fold_res (add_notification_schema sl) (dict_vals (pc_notifications p)) ds))))"

section \<open>The document\<close>

type_synonym lookup = "(string, json) dict"

text \<open>\<open>_server_lookup\<close>: a server of a contract is an object.\<close>

definition enter_server :: "(string \<times> json) list \<Rightarrow> lookup \<Rightarrow> contract_error + lookup" where
  "enter_server server m =
     (case map_of server ''name'' of
        Some (JStr (c # cs)) \<Rightarrow>
          if dict_has (c # cs) m then Inl (DuplicateServer (c # cs)) else Inr (dict_set (c # cs) (JObj server) m)
      | _ \<Rightarrow> Inl ServerWithoutName)"

definition server_lookup :: "(string \<times> json) list list \<Rightarrow> contract_error + lookup" where
  "server_lookup servers = fold_res enter_server servers []"

text \<open>Every kind of operation with its name and its server.\<close>

definition server_references :: "protocol \<Rightarrow> (string \<times> string \<times> string) list" where
  "server_references p =
     concat (map (\<lambda>m. map (\<lambda>s. (''method'', md_name m, s)) (some_list (md_server m))) (dict_vals (pc_methods p)))
     @ concat (map (\<lambda>m. map (\<lambda>s. (''notification'', nd_name m, s)) (some_list (nd_server m))) (dict_vals (pc_notifications p)))
     @ concat (map (\<lambda>m. map (\<lambda>s. (''subscription'', sd_name m, s)) (some_list (sd_server m))) (dict_vals (pc_subscriptions p)))
     @ concat (map (\<lambda>m. map (\<lambda>s. (''client method'', cm_name m, s)) (some_list (cm_server m)))
         (dict_vals (pc_client_methods p)))"

definition check_references :: "protocol \<Rightarrow> lookup \<Rightarrow> contract_error + unit" where
  "check_references p servers =
     (case filter (\<lambda>(k, n, s). \<not> dict_has s servers) (server_references p) of
        [] \<Rightarrow> Inr ()
      | missing \<Rightarrow> Inl (UndeclaredReferences missing))"

definition with_server :: "string option \<Rightarrow> lookup \<Rightarrow> (string \<times> json) list" where
  "with_server server servers =
     (case server of
        None \<Rightarrow> []
      | Some s \<Rightarrow> [(''servers'', JArr (some_list (map_of servers s)))])"

definition error_document :: "schema_library \<Rightarrow> error_type \<Rightarrow> contract_error + json" where
  "error_document sl e =
     (let c = error_info e;
          base = [(''code'', JInt (ec_rpc_code c)), (''message'', JStr (ec_message c)), (''x-rpckit-code'', JStr (ec_code c))] in
      case ec_details_type c of
        None \<Rightarrow> Inr (JObj base)
      | Some d \<Rightarrow> rbind (type_name sl (AnnClass d)) (\<lambda>n.
          Inr (JObj (base @ [(''x-rpckit-details-schema'', schema_ref n)]))))"

definition raises_member :: "schema_library \<Rightarrow> error_type list \<Rightarrow> contract_error + (string \<times> json) list" where
  "raises_member sl es =
     (if es = [] then Inr [] else rbind (traverse (error_document sl) es) (\<lambda>ds. Inr [(''errors'', JArr ds)]))"

text \<open>A schema whose \<open>properties\<close> are no object, which Pydantic does not make, has none here.\<close>

definition model_properties :: "json \<Rightarrow> (string \<times> json) list" where
  "model_properties s = (case obj_get s ''properties'' of Some (JObj m) \<Rightarrow> m | _ \<Rightarrow> [])"

definition model_required :: "json \<Rightarrow> json list" where
  "model_required s = (case obj_get s ''required'' of Some (JArr xs) \<Rightarrow> xs | _ \<Rightarrow> [])"

definition params_document :: "schema_library \<Rightarrow> definitions \<Rightarrow> ann option \<Rightarrow> contract_error + json list" where
  "params_document sl schemas params =
     (case params of
        None \<Rightarrow> Inr []
      | Some a \<Rightarrow>
          rbind (type_name sl a) (\<lambda>n.
          case map_of schemas n of
            None \<Rightarrow> Inl (UnknownSchema n)
          | Some s \<Rightarrow>
              Inr (map (\<lambda>(k, member). JObj [(''name'', JStr k), (''required'', JBool (JStr k \<in> set (model_required s))),
                     (''schema'', member)]) (model_properties s))))"

definition result_schema :: "schema_library \<Rightarrow> definitions \<Rightarrow> ann \<Rightarrow> json" where
  "result_schema sl schemas result =
     (let schema = rewrite_refs (case sl_schema sl result of JObj m \<Rightarrow> JObj (dict_del ''$defs'' m) | j \<Rightarrow> j) in
      case sl_name sl result of
        Some n \<Rightarrow> if dict_has n schemas then schema_ref n else schema
      | None \<Rightarrow> schema)"

definition params_schema_member :: "schema_library \<Rightarrow> ann option \<Rightarrow> contract_error + (string \<times> json) list" where
  "params_schema_member sl params =
     (case params of
        None \<Rightarrow> Inr []
      | Some a \<Rightarrow> rbind (type_name sl a) (\<lambda>n. Inr [(''x-rpc-params-schema'', schema_ref n)]))"

definition result_member :: "schema_library \<Rightarrow> definitions \<Rightarrow> ann \<Rightarrow> json" where
  "result_member sl schemas a = JObj [(''name'', JStr ''result''), (''schema'', result_schema sl schemas a)]"

definition method_document :: "schema_library \<Rightarrow> definitions \<Rightarrow> lookup \<Rightarrow> method_def \<Rightarrow> contract_error + json" where
  "method_document sl schemas servers m =
     rbind (params_document sl schemas (md_params m)) (\<lambda>params.
     rbind (params_schema_member sl (md_params m)) (\<lambda>params_schema.
     rbind (raises_member sl (md_raises m)) (\<lambda>errors.
     Inr (JObj ([(''name'', JStr (md_name m))]
       @ (if md_idempotent m then [(''x-rpc-idempotent'', JBool True)] else [])
       @ (if md_has_timeout m
          then [(''x-rpc-request-timeout'', case md_timeout m of None \<Rightarrow> JNull | Some t \<Rightarrow> sl_number sl t)] else [])
       @ described (md_summary m)
       @ [(''paramStructure'', JStr ''by-name''), (''params'', JArr params),
          (''result'', result_member sl schemas (md_result m)),
          (''x-rpc-request-schema'', schema_ref (md_request_name m))]
       @ params_schema @ errors @ with_server (md_server m) servers)))))"

definition client_method_document ::
  "schema_library \<Rightarrow> definitions \<Rightarrow> lookup \<Rightarrow> client_method_def \<Rightarrow> contract_error + json" where
  "client_method_document sl schemas servers m =
     rbind (params_document sl schemas (cm_params m)) (\<lambda>params.
     rbind (params_schema_member sl (cm_params m)) (\<lambda>params_schema.
     rbind (raises_member sl (cm_raises m)) (\<lambda>errors.
     Inr (JObj ([(''name'', JStr (cm_name m))] @ described (cm_summary m)
       @ [(''paramStructure'', JStr ''by-name''), (''params'', JArr params),
          (''result'', result_member sl schemas (cm_result m)),
          (''x-rpc-request-schema'', schema_ref (client_method_schema_name (cm_name m)))]
       @ params_schema @ errors @ with_server (cm_server m) servers)))))"

definition notification_document :: "schema_library \<Rightarrow> lookup \<Rightarrow> notification_def \<Rightarrow> contract_error + json" where
  "notification_document sl servers n =
     rbind (type_name sl (nd_payload n)) (\<lambda>payload.
     rbind (raises_member sl (nd_raises n)) (\<lambda>errors.
     Inr (JObj ([(''name'', JStr (nd_name n)), (''payload'', schema_ref payload),
        (''message'', schema_ref (notification_schema_name (nd_name n)))]
       @ errors @ with_server (nd_server n) servers @ described (nd_summary n)))))"

definition subscription_document :: "schema_library \<Rightarrow> lookup \<Rightarrow> subscription_def \<Rightarrow> contract_error + json" where
  "subscription_document sl servers s =
     rbind (case sd_params s of None \<Rightarrow> Inr JNull | Some a \<Rightarrow> rbind (type_name sl a) (\<lambda>n. Inr (schema_ref n))) (\<lambda>params.
     rbind (type_name sl (sd_payload s)) (\<lambda>payload.
     rbind (raises_member sl (sd_raises s)) (\<lambda>errors.
     Inr (JObj ([(''name'', JStr (sd_name s)), (''subscribe'', JStr (sd_name s @ ''.subscribe'')),
        (''unsubscribe'', JStr (sd_name s @ ''.unsubscribe'')), (''params'', params), (''payload'', schema_ref payload)]
       @ errors @ with_server (sd_server s) servers @ described (sd_summary s))))))"

definition type_document :: "schema_library \<Rightarrow> notification_type_def \<Rightarrow> contract_error + json" where
  "type_document sl t =
     rbind (type_name sl (AnnClass (nt_payload t))) (\<lambda>n.
     Inr (JObj [(''name'', JStr (nt_name t)), (''payload'', schema_ref n)]))"

definition heartbeat_document :: json where
  "heartbeat_document = JObj [(''method'', JStr ''$/ping''), (''params'', JObj []), (''result'', JNull)]"

definition metadata_document :: json where
  "metadata_document =
     JObj [(''version'', JInt 1), (''location'', JStr ''envelope''), (''member'', JStr ''meta''), (''maxBytes'', JInt 4096),
           (''allowedKeys'', JArr (map JStr [''traceparent'', ''tracestate'', ''baggage'']))]"

definition cancellation_document :: json where
  "cancellation_document =
     JObj [(''method'', JStr ''$/cancelRequest''), (''notification'', JBool True),
           (''params'', JObj [(''type'', JStr ''object''),
              (''properties'', JObj [(''id'', JObj [(''type'', JArr [JStr ''integer'', JStr ''string''])])]),
              (''required'', JArr [JStr ''id'']), (''additionalProperties'', JBool False)]),
           (''error'', JObj [(''code'', JInt (-32800)), (''x-rpckit-code'', JStr ''request_cancelled'')])]"

type_synonym object = "(string \<times> json) list"

definition render_openrpc ::
  "schema_library \<Rightarrow> protocol \<Rightarrow> string \<Rightarrow> string \<Rightarrow> object list \<Rightarrow> object list \<Rightarrow> object list \<Rightarrow> contract_error + json" where
  "render_openrpc sl p title descr servers streams sockets =
     rbind (server_lookup servers) (\<lambda>lookup.
     rbind (check_references p lookup) (\<lambda>_.
     rbind (components sl p) (\<lambda>ds.
     let schemas = map (\<lambda>(k, v). (k, rewrite_refs v)) ds in
     rbind (traverse (method_document sl schemas lookup) (dict_vals (pc_methods p))) (\<lambda>methods.
     rbind (traverse (notification_document sl lookup) (dict_vals (pc_notifications p))) (\<lambda>notifications.
     rbind (traverse (subscription_document sl lookup) (dict_vals (pc_subscriptions p))) (\<lambda>subscriptions.
     rbind (traverse (type_document sl) (dict_vals (pc_notification_types p))) (\<lambda>types.
     rbind (traverse (client_method_document sl schemas lookup) (dict_vals (pc_client_methods p))) (\<lambda>client_methods.
     Inr (JObj (
       [(''openrpc'', JStr ''1.4.1''),
        (''info'', JObj [(''title'', JStr title), (''version'', JStr (int_str (pc_version p) @ ''.0.0'')),
           (''description'', JStr descr)]),
        (''servers'', JArr (map JObj servers)), (''methods'', JArr methods),
        (''components'', JObj [(''schemas'', JObj schemas)]), (''x-rpc-protocol-version'', JInt (pc_version p)),
        (''x-rpc-heartbeat'', heartbeat_document), (''x-rpc-request-metadata'', metadata_document),
        (''x-rpc-request-cancellation'', cancellation_document), (''x-rpc-notifications'', JArr notifications),
        (''x-rpc-subscriptions'', JArr subscriptions), (''x-rpc-notification-types'', JArr types)]
       @ (if client_methods = [] then [] else [(''x-rpc-client-methods'', JArr client_methods)])
       @ (if streams = [] then [] else [(''x-rpckit-binary-streams'', JArr (map JObj streams))])
       @ (if sockets = [] then [] else [(''x-rpckit-raw-sockets'', JArr (map JObj sockets))])))))))))))"

end
