(* ===== verification/ServiceContract.thy ===== *)
theory ServiceContract
  imports Contract ServiceFreeze
begin

text \<open>
  \<open>contract.py\<close>: the contract of a service, that is its protocol and, as members of the document, its servers,
  binary streams and raw sockets. The base URL is a string, and the variables are made by \<open>ServerVariable\<close>.
\<close>

section \<open>Variables\<close>

record server_variable =
  vb_default :: string
  vb_description :: "string option"
  vb_enum :: "string list"

definition server_variable_init :: "string \<Rightarrow> string option \<Rightarrow> string list \<Rightarrow> contract_error + server_variable" where
  "server_variable_init d t e =
     rbind (raise_if (e \<noteq> [] \<and> d \<notin> set e) BadVariable) (\<lambda>_.
     Inr \<lparr>vb_default = d, vb_description = t, vb_enum = e\<rparr>)"

definition variable_document :: "server_variable \<Rightarrow> json" where
  "variable_document v =
     JObj ([(''default'', JStr (vb_default v))]
       @ map (\<lambda>t. (''description'', JStr t)) (some_list (vb_description v))
       @ (if vb_enum v = [] then [] else [(''enum'', JArr (map JStr (vb_enum v)))]))"

section \<open>Contracts\<close>

record rpc_contract =
  ko_protocol :: protocol
  ko_title :: string
  ko_description :: string
  ko_servers :: "object list"
  ko_streams :: "object list"
  ko_sockets :: "object list"

definition contract_init ::
  "protocol \<Rightarrow> string \<Rightarrow> string \<Rightarrow> object list \<Rightarrow> object list \<Rightarrow> object list \<Rightarrow> contract_error + rpc_contract" where
  "contract_init p title descr servers streams sockets =
     rbind (raise_if (title = []) EmptyTitle) (\<lambda>_.
     Inr \<lparr>ko_protocol = p, ko_title = title, ko_description = descr, ko_servers = servers,
          ko_streams = streams, ko_sockets = sockets\<rparr>)"

definition to_openrpc :: "schema_library \<Rightarrow> rpc_contract \<Rightarrow> contract_error + json" where
  "to_openrpc sl k =
     render_openrpc sl (ko_protocol k) (ko_title k) (ko_description k) (ko_servers k) (ko_streams k) (ko_sockets k)"

section \<open>The contract of a service\<close>

definition rstrip_slash :: "string \<Rightarrow> string" where
  "rstrip_slash s = rev (dropWhile (\<lambda>c. c = CHR ''/'') (rev s))"

definition websocket_base :: "string \<Rightarrow> contract_error + string" where
  "websocket_base u =
     rbind (raise_if (u = [] \<or> \<not> list_ex (\<lambda>p. starts_with p u) [''http://'', ''https://'', ''ws://'', ''wss://'', ''{''])
              BadBaseUrl) (\<lambda>_.
     Inr (rstrip_slash
       (if starts_with ''https://'' u then ''wss://'' @ remove_prefix ''https://'' u
        else if starts_with ''http://'' u then ''ws://'' @ remove_prefix ''http://'' u else u)))"

text \<open>Text that is there and not empty.\<close>

definition given :: "string option \<Rightarrow> string option" where
  "given s = (case s of Some (c # cs) \<Rightarrow> Some (c # cs) | _ \<Rightarrow> None)"

definition summary_member :: "string option \<Rightarrow> object" where
  "summary_member s = map (\<lambda>t. (''summary'', JStr t)) (some_list (given s))"

definition first_given :: "string option \<Rightarrow> string option \<Rightarrow> string option" where
  "first_given a b = (case given a of None \<Rightarrow> b | s \<Rightarrow> s)"

definition subprotocol_member :: "endpoint \<Rightarrow> object" where
  "subprotocol_member e = map (\<lambda>t. (''subprotocols'', JArr [JStr t])) (some_list (given (ep_subprotocol e)))"

definition variables_member :: "(string, server_variable) dict \<Rightarrow> string \<Rightarrow> object" where
  "variables_member supplied url =
     (let names = fromkeys (path_variables url) in
      if names = [] then []
      else [(''variables'', JObj (map (\<lambda>n. (n, variable_document
               (case map_of supplied n of
                  None \<Rightarrow> \<lparr>vb_default = ''{'' @ n @ ''}'', vb_description = None, vb_enum = []\<rparr>
                | Some v \<Rightarrow> v))) names))])"

definition server_member :: "(string, server_variable) dict \<Rightarrow> string \<Rightarrow> endpoint \<Rightarrow> object" where
  "server_member supplied url e =
     [(''name'', JStr (ep_name e)), (''url'', JStr url),
      (''x-rpckit-transport'', JObj ([(''type'', JStr ''websocket''), (''messageEncoding'', JStr ''json''),
         (''frameType'', JStr ''text'')] @ subprotocol_member e))]
     @ summary_member (ep_summary e) @ variables_member supplied url"

fun direction_value :: "stream_direction \<Rightarrow> string" where
  "direction_value ServerToClient = ''server-to-client''"
| "direction_value ClientToServer = ''client-to-server''"
| "direction_value Bidirectional = ''bidirectional''"

definition stream_member :: "(string, server_variable) dict \<Rightarrow> string \<Rightarrow> endpoint \<Rightarrow> stream_def \<Rightarrow> object" where
  "stream_member supplied url e s =
     [(''name'', JStr (st_name s)), (''url'', JStr url), (''direction'', JStr (direction_value (st_direction s)))]
     @ (if st_direction s \<noteq> ClientToServer then [(''contentType'', JStr (st_content_type s))] else [])
     @ map (\<lambda>t. (''inputContentType'', JStr t)) (some_list (st_input_content_type s))
     @ [(''frameType'', JStr ''binary'')] @ summary_member (first_given (st_summary s) (ep_summary e))
     @ variables_member supplied url @ subprotocol_member e"

fun message_value :: "message_type \<Rightarrow> string" where
  "message_value TextMessage = ''text''"
| "message_value BinaryMessage = ''binary''"

definition close_document :: "contract \<Rightarrow> contract_error + json" where
  "close_document b =
     (case ct_rejection b of
        None \<Rightarrow> Inl CloseWithoutRejection
      | Some r \<Rightarrow>
          Inr (JObj ([(''code'', JInt (rejection_close_code r)), (''x-rpckit-code'', JStr (ec_code (ct_error b)))]
            @ (case ct_message b of MsgFun f \<Rightarrow> [] | _ \<Rightarrow> [(''reason'', JStr (close_reason (ec_message (ct_error b))))]))))"

definition socket_member ::
  "(string, server_variable) dict \<Rightarrow> string \<Rightarrow> endpoint \<Rightarrow> raw_socket_def \<Rightarrow> contract_error + object" where
  "socket_member supplied url e d =
     rbind (traverse close_document (rd_closes d)) (\<lambda>closes.
     Inr ([(''name'', JStr (rd_name d)), (''url'', JStr url),
           (''messageTypes'', JArr (map (\<lambda>m. JStr (message_value m)) (rd_messages d)))]
       @ summary_member (first_given (rd_summary d) (ep_summary e))
       @ variables_member supplied url @ subprotocol_member e
       @ (if closes = [] then [] else [(''closes'', JArr closes)])))"

text \<open>The servers, streams and raw sockets so far.\<close>

record members =
  mb_servers :: "object list"
  mb_streams :: "object list"
  mb_sockets :: "object list"

definition add_endpoint ::
  "(string, server_variable) dict \<Rightarrow> string \<Rightarrow> endpoint \<Rightarrow> members \<Rightarrow> contract_error + members" where
  "add_endpoint supplied base e mb =
     (let url = base @ ep_path e in
      case ep_kind e of
        SocketEndpoint cs pm cw \<Rightarrow> Inr (mb\<lparr>mb_servers := mb_servers mb @ [server_member supplied url e]\<rparr>)
      | StreamEndpoint s \<Rightarrow> Inr (mb\<lparr>mb_streams := mb_streams mb @ [stream_member supplied url e s]\<rparr>)
      | RawEndpoint d \<Rightarrow>
          rbind (socket_member supplied url e d) (\<lambda>r. Inr (mb\<lparr>mb_sockets := mb_sockets mb @ [r]\<rparr>)))"

definition service_error :: "service_error + 'a \<Rightarrow> contract_error + 'a" where
  "service_error r = (case r of Inl e \<Rightarrow> Inl (ServiceProblem e) | Inr x \<Rightarrow> Inr x)"

definition contract_from_service ::
  "pydantic \<Rightarrow> world \<Rightarrow> service \<Rightarrow> string \<Rightarrow> string \<Rightarrow> string \<Rightarrow> (string, server_variable) dict \<Rightarrow>
   contract_error + rpc_contract \<times> service \<times> (nat \<Rightarrow> channel)" where
  "contract_from_service py w sv title base_url descr supplied =
     rbind (websocket_base base_url) (\<lambda>base.
     rbind (fold_res (add_endpoint supplied base) (sv_endpoints sv)
              \<lparr>mb_servers = [], mb_streams = [], mb_sockets = []\<rparr>) (\<lambda>mb.
     let used = concat (map (\<lambda>e. path_variables (base @ ep_path e)) (sv_endpoints sv));
         unused = filter (\<lambda>n. n \<notin> set used) (dict_keys supplied) in
     rbind (raise_if (unused \<noteq> []) (UnusedVariables unused)) (\<lambda>_.
     rbind (service_error (service_freeze py w sv)) (\<lambda>(p, sv', channels).
     rbind (contract_init p title descr (mb_servers mb) (mb_streams mb) (mb_sockets mb)) (\<lambda>k.
     Inr (k, sv', channels))))))"

end
