(* ===== verification/ContractProps.thy ===== *)
theory ContractProps
  imports ServiceContract IrConsistent
begin

text \<open>
  From the contract to the client: what \<open>build_ir\<close> reads from the document that \<open>render_openrpc\<close> writes is
  what the protocol declares, and the contract of a service names no server that it does not have.
\<close>

section \<open>The members of a rendered operation\<close>

lemma map_of_append_case: "map_of (xs @ ys) k = (case map_of xs k of None \<Rightarrow> map_of ys k | Some v \<Rightarrow> Some v)"
  by (induction xs) auto

lemma described_get: "map_of (described s) k = (if k = ''summary'' then map_option JStr s else None)"
  by (cases s) (auto simp: described_def some_list_def)

lemma with_server_get:
  "map_of (with_server s servers) k =
     (if k = ''servers'' then map_option (\<lambda>n. JArr (some_list (map_of servers n))) s else None)"
  by (cases s) (auto simp: with_server_def)

lemma raises_member_get:
  assumes "raises_member sl es = Inr m"
  shows "(k \<noteq> ''errors'' \<longrightarrow> map_of m k = None)
    \<and> (\<exists>ds. traverse (error_document sl) es = Inr ds \<and> map_of m ''errors'' = (if es = [] then None else Some (JArr ds)))"
  using assms by (auto simp: raises_member_def rbind_eq_Inr split: if_splits)

lemma params_schema_get:
  assumes "params_schema_member sl a = Inr m"
  shows "(k \<noteq> ''x-rpc-params-schema'' \<longrightarrow> map_of m k = None)
    \<and> (case a of None \<Rightarrow> m = [] | Some t \<Rightarrow> \<exists>n. sl_name sl t = Some n \<and> m = [(''x-rpc-params-schema'', schema_ref n)])"
  using assms by (auto simp: params_schema_member_def type_name_def rbind_eq_Inr split: option.splits)

text \<open>What a client reads of an operation.\<close>

definition operation_members ::
  "json \<Rightarrow> string \<Rightarrow> json \<Rightarrow> bool \<Rightarrow> string option \<Rightarrow> json list \<Rightarrow> string option \<Rightarrow> lookup \<Rightarrow> bool" where
  "operation_members d name params idem params_model errors server servers \<longleftrightarrow>
     (\<exists>m. d = JObj m \<and> map_of m ''name'' = Some (JStr name) \<and> map_of m ''params'' = Some params
        \<and> map_of m ''x-rpc-idempotent'' = (if idem then Some (JBool True) else None)
        \<and> map_of m ''x-rpc-params-schema'' = map_option schema_ref params_model
        \<and> map_of m ''errors'' = (if errors = [] then None else Some (JArr errors))
        \<and> map_of m ''servers'' = map_option (\<lambda>n. JArr (some_list (map_of servers n))) server
        \<and> map_of m ''tags'' = None \<and> map_of m ''deprecated'' = None)"

lemma method_document_members:
  assumes "method_document sl schemas servers m = Inr d"
  shows "\<exists>params ds. operation_members d (md_name m) (JArr params) (md_idempotent m)
      (Option.bind (md_params m) (sl_name sl)) ds (md_server m) servers
    \<and> params_document sl schemas (md_params m) = Inr params
    \<and> traverse (error_document sl) (md_raises m) = Inr ds"
proof -
  from assms obtain params ps es where
    p: "params_document sl schemas (md_params m) = Inr params"
      "params_schema_member sl (md_params m) = Inr ps" "raises_member sl (md_raises m) = Inr es" and
    d: "d = JObj ([(''name'', JStr (md_name m))]
       @ (if md_idempotent m then [(''x-rpc-idempotent'', JBool True)] else [])
       @ (if md_has_timeout m
          then [(''x-rpc-request-timeout'', case md_timeout m of None \<Rightarrow> JNull | Some t \<Rightarrow> sl_number sl t)] else [])
       @ described (md_summary m)
       @ [(''paramStructure'', JStr ''by-name''), (''params'', JArr params),
          (''result'', result_member sl schemas (md_result m)),
          (''x-rpc-request-schema'', schema_ref (md_request_name m))]
       @ ps @ es @ with_server (md_server m) servers)"
    unfolding method_document_def by (auto simp only: rbind_eq_Inr sum.inject)
  from raises_member_get [OF p(3)] obtain ds where
    e: "traverse (error_document sl) (md_raises m) = Inr ds"
      "map_of es ''errors'' = (if md_raises m = [] then None else Some (JArr ds))" by blast
  have "ds = [] \<longleftrightarrow> md_raises m = []" using traverse_Inr_length [OF e(1)] by auto
  moreover note ex = conjunct1 [OF raises_member_get [OF p(3)], rule_format]
  moreover note px = conjunct1 [OF params_schema_get [OF p(2)], rule_format]
  moreover have "map_of ps ''x-rpc-params-schema'' = map_option schema_ref (Option.bind (md_params m) (sl_name sl))"
    using conjunct2 [OF params_schema_get [OF p(2)]] by (cases "md_params m") auto
  ultimately have "operation_members d (md_name m) (JArr params) (md_idempotent m)
      (Option.bind (md_params m) (sl_name sl)) ds (md_server m) servers"
    unfolding operation_members_def d
    by (simp add: map_of_append_case described_get with_server_get e(2) del: map_of_append split: option.split)
  with p(1) e(1) show ?thesis by blast
qed

lemma client_method_members:
  assumes "client_method_document sl schemas servers m = Inr d"
  shows "\<exists>params ds. operation_members d (cm_name m) (JArr params) False
      (Option.bind (cm_params m) (sl_name sl)) ds (cm_server m) servers
    \<and> params_document sl schemas (cm_params m) = Inr params
    \<and> traverse (error_document sl) (cm_raises m) = Inr ds"
proof -
  from assms obtain params ps es where
    p: "params_document sl schemas (cm_params m) = Inr params"
      "params_schema_member sl (cm_params m) = Inr ps" "raises_member sl (cm_raises m) = Inr es" and
    d: "d = JObj ([(''name'', JStr (cm_name m))] @ described (cm_summary m)
       @ [(''paramStructure'', JStr ''by-name''), (''params'', JArr params),
          (''result'', result_member sl schemas (cm_result m)),
          (''x-rpc-request-schema'', schema_ref (client_method_schema_name (cm_name m)))]
       @ ps @ es @ with_server (cm_server m) servers)"
    unfolding client_method_document_def by (auto simp only: rbind_eq_Inr sum.inject)
  from raises_member_get [OF p(3)] obtain ds where
    e: "traverse (error_document sl) (cm_raises m) = Inr ds"
      "map_of es ''errors'' = (if cm_raises m = [] then None else Some (JArr ds))" by blast
  have "ds = [] \<longleftrightarrow> cm_raises m = []" using traverse_Inr_length [OF e(1)] by auto
  moreover note ex = conjunct1 [OF raises_member_get [OF p(3)], rule_format]
  moreover note px = conjunct1 [OF params_schema_get [OF p(2)], rule_format]
  moreover have "map_of ps ''x-rpc-params-schema'' = map_option schema_ref (Option.bind (cm_params m) (sl_name sl))"
    using conjunct2 [OF params_schema_get [OF p(2)]] by (cases "cm_params m") auto
  ultimately have "operation_members d (cm_name m) (JArr params) False
      (Option.bind (cm_params m) (sl_name sl)) ds (cm_server m) servers"
    unfolding operation_members_def d
    by (simp add: map_of_append_case described_get with_server_get e(2) del: map_of_append split: option.split)
  with p(1) e(1) show ?thesis by blast
qed

section \<open>Reading an operation\<close>

lemma lower_error_document:
  assumes "error_document sl e = Inr d" "lower_error d = Inr f"
  shows "fa_code f = ec_code (error_info e) \<and> fa_rpc_code f = JInt (ec_rpc_code (error_info e))
    \<and> fa_message f = JStr (ec_message (error_info e)) \<and> (fa_details f = None \<longleftrightarrow> ec_details_type (error_info e) = None)"
proof (cases "ec_details_type (error_info e)")
  case None
  with assms(1) have "d = JObj [(''code'', JInt (ec_rpc_code (error_info e))),
      (''message'', JStr (ec_message (error_info e))), (''x-rpckit-code'', JStr (ec_code (error_info e)))]"
    by (simp add: error_document_def Let_def)
  with assms(2) None show ?thesis
    by (auto simp: lower_error_def rbind_eq_Inr get_req_def lower_details_def)
next
  case (Some c)
  with assms(1) obtain n where "d = JObj [(''code'', JInt (ec_rpc_code (error_info e))),
      (''message'', JStr (ec_message (error_info e))), (''x-rpckit-code'', JStr (ec_code (error_info e))),
      (''x-rpckit-details-schema'', schema_ref n)]"
    by (auto simp: error_document_def Let_def rbind_eq_Inr)
  with assms(2) Some show ?thesis
    by (auto simp: lower_error_def rbind_eq_Inr get_req_def lower_details_def schema_ref_def)
qed

definition same_error :: "error_type \<Rightarrow> fault_decl \<Rightarrow> bool" where
  "same_error e f \<longleftrightarrow>
     fa_code f = ec_code (error_info e) \<and> fa_rpc_code f = JInt (ec_rpc_code (error_info e))
     \<and> fa_message f = JStr (ec_message (error_info e)) \<and> (fa_details f = None \<longleftrightarrow> ec_details_type (error_info e) = None)"

text \<open>Going through a list twice.\<close>

lemma traverse_traverse:
  assumes "traverse f xs = Inr ys" "traverse g ys = Inr zs"
    and "\<And>x y z. x \<in> set xs \<Longrightarrow> f x = Inr y \<Longrightarrow> g y = Inr z \<Longrightarrow> P x z"
  shows "list_all2 P xs zs"
  using assms by (induction xs arbitrary: ys zs) (auto simp: rbind_eq_Inr)

lemma lower_errors_document:
  assumes "map_of m ''errors'' = (if ds = [] then None else Some (JArr ds))"
    and "traverse (error_document sl) es = Inr ds" "lower_errors (JObj m) = Inr fs"
  shows "list_all2 same_error es fs"
proof -
  have "traverse lower_error ds = Inr fs"
    using assms(1,3) by (auto simp: lower_errors_def get_or_def rbind_eq_Inr split: if_splits)
  with assms(2) show ?thesis
    by (rule traverse_traverse) (use lower_error_document in \<open>auto simp: same_error_def\<close>)
qed

text \<open>The servers of a lookup have the name under which they are found.\<close>

definition lookup_ok :: "lookup \<Rightarrow> bool" where
  "lookup_ok servers \<longleftrightarrow>
     (\<forall>n s. map_of servers n = Some s \<longrightarrow> (\<exists>m. s = JObj m \<and> map_of m ''name'' = Some (JStr n)))"

lemma server_lookup_ok: "server_lookup ss = Inr servers \<Longrightarrow> lookup_ok servers"
  unfolding server_lookup_def
  by (erule fold_res_invariant)
    (auto simp: lookup_ok_def enter_server_def dict_simps split: option.splits json.splits list.splits if_splits)

lemma server_reference_found:
  assumes "lookup_ok servers" "map_of m ''servers'' = map_option (\<lambda>n. JArr (some_list (map_of servers n))) server"
    and "\<And>n. server = Some n \<Longrightarrow> dict_has n servers" and "server_reference (JObj m) owner = Inr s"
  shows "s = map_option JStr server"
proof (cases server)
  case None
  with assms(2,4) show ?thesis by (auto simp: server_reference_def get_or_def rbind_eq_Inr)
next
  case (Some n)
  with assms(3) obtain j where "map_of servers n = Some j" by (auto simp: dict_has_map_of)
  moreover from this assms(1) obtain o' where "j = JObj o'" "map_of o' ''name'' = Some (JStr n)"
    by (auto simp: lookup_ok_def)
  ultimately show ?thesis using assms(2,4) Some
    by (auto simp: server_reference_def get_or_def get_req_def some_list_def rbind_eq_Inr)
qed

definition same_operation ::
  "string \<Rightarrow> string option \<Rightarrow> bool \<Rightarrow> error_type list \<Rightarrow> route_decl \<Rightarrow> bool" where
  "same_operation name server idem raises r \<longleftrightarrow>
     rr_rpc_name r = name \<and> rr_path r = name_path name \<and> rr_operation r = name_operation name
     \<and> rr_server r = map_option JStr server \<and> rr_idempotent r = idem \<and> list_all2 same_error raises (rr_errors r)"

lemma lower_route_members:
  assumes "operation_members d name (JArr params) idem pm ds server servers"
    and "traverse (error_document sl) es = Inr ds" "lookup_ok servers"
    and "\<And>n. server = Some n \<Longrightarrow> dict_has n servers" and "lower_route d = Inr r"
  shows "same_operation name server idem es r \<and> traverse lower_parameter params = Inr (rr_params r)"
proof -
  from assms(1) obtain m where m: "d = JObj m" "map_of m ''name'' = Some (JStr name)"
    "map_of m ''params'' = Some (JArr params)" "map_of m ''x-rpc-idempotent'' = (if idem then Some (JBool True) else None)"
    "map_of m ''errors'' = (if ds = [] then None else Some (JArr ds))"
    "map_of m ''servers'' = map_option (\<lambda>n. JArr (some_list (map_of servers n))) server"
    by (auto simp: operation_members_def)
  have g: "get_req ''name'' (JObj m) = Inr (JStr name)" "get_or ''params'' (JArr []) (JObj m) = Inr (JArr params)"
    "map_of m ''x-rpc-idempotent'' = Some (JBool True) \<longleftrightarrow> idem"
    by (simp_all add: get_req_def get_or_def m)
  from assms(5) obtain fs s owner where
    r: "lower_errors (JObj m) = Inr fs" "server_reference (JObj m) owner = Inr s"
      "traverse lower_parameter params = Inr (rr_params r)"
      "rr_rpc_name r = name" "rr_operation r = name_operation name" "rr_path r = name_path name" "rr_errors r = fs"
      "rr_server r = s" "rr_idempotent r = idem"
    unfolding lower_route_def m(1)
    by (auto simp: rbind_eq_Inr g split: if_splits)
  from lower_errors_document [OF m(5) assms(2) r(1)] server_reference_found [OF assms(3) m(6) assms(4) r(2)] r
  show ?thesis by (simp add: same_operation_def)
qed

section \<open>Reading the document\<close>

lemma lower_notification_name:
  assumes "map_of m ''name'' = Some (JStr name)"
    and "map_of m ''servers'' = map_option (\<lambda>n. JArr (some_list (map_of servers n))) server"
    and "lookup_ok servers" "\<And>n. server = Some n \<Longrightarrow> dict_has n servers" "lower_notification (JObj m) = Inr e"
  shows "ev_rpc_name e = name \<and> \<not> ev_subscription e \<and> ev_server e = map_option JStr server"
proof -
  have g: "get_req ''name'' (JObj m) = Inr (JStr name)" by (simp add: get_req_def assms(1))
  from assms(5) obtain owner where "server_reference (JObj m) owner = Inr (ev_server e)"
    "ev_rpc_name e = name" "\<not> ev_subscription e"
    by (auto simp: lower_notification_def rbind_eq_Inr g)
  with server_reference_found [OF assms(3,2,4)] show ?thesis by blast
qed

lemma lower_subscription_name:
  assumes "map_of m ''name'' = Some (JStr name)"
    and "map_of m ''servers'' = map_option (\<lambda>n. JArr (some_list (map_of servers n))) server"
    and "lookup_ok servers" "\<And>n. server = Some n \<Longrightarrow> dict_has n servers" "lower_subscription schemas (JObj m) = Inr e"
  shows "ev_rpc_name e = name \<and> ev_subscription e \<and> ev_server e = map_option JStr server"
proof -
  have g: "get_req ''name'' (JObj m) = Inr (JStr name)" by (simp add: get_req_def assms(1))
  from assms(5) obtain owner where "server_reference (JObj m) owner = Inr (ev_server e)"
    "ev_rpc_name e = name" "ev_subscription e"
    by (auto simp: lower_subscription_def rbind_eq_Inr g)
  with server_reference_found [OF assms(3,2,4)] show ?thesis by blast
qed

lemma notification_document_members:
  assumes "notification_document sl servers n = Inr d"
  shows "\<exists>m. d = JObj m \<and> map_of m ''name'' = Some (JStr (nd_name n))
    \<and> map_of m ''servers'' = map_option (\<lambda>n. JArr (some_list (map_of servers n))) (nd_server n)"
proof -
  from assms obtain payload es where p: "raises_member sl (nd_raises n) = Inr es"
    "d = JObj ([(''name'', JStr (nd_name n)), (''payload'', schema_ref payload),
        (''message'', schema_ref (notification_schema_name (nd_name n)))]
       @ es @ with_server (nd_server n) servers @ described (nd_summary n))"
    unfolding notification_document_def by (auto simp only: rbind_eq_Inr sum.inject)
  note ex = conjunct1 [OF raises_member_get [OF p(1)], rule_format]
  show ?thesis unfolding p(2)
    by (simp add: map_of_append_case described_get with_server_get ex del: map_of_append split: option.split)
qed

lemma subscription_document_members:
  assumes "subscription_document sl servers n = Inr d"
  shows "\<exists>m. d = JObj m \<and> map_of m ''name'' = Some (JStr (sd_name n))
    \<and> map_of m ''servers'' = map_option (\<lambda>n. JArr (some_list (map_of servers n))) (sd_server n)"
proof -
  from assms obtain params payload es where p: "raises_member sl (sd_raises n) = Inr es"
    "d = JObj ([(''name'', JStr (sd_name n)), (''subscribe'', JStr (sd_name n @ ''.subscribe'')),
        (''unsubscribe'', JStr (sd_name n @ ''.unsubscribe'')), (''params'', params), (''payload'', schema_ref payload)]
       @ es @ with_server (sd_server n) servers @ described (sd_summary n))"
    unfolding subscription_document_def by (auto simp only: rbind_eq_Inr sum.inject)
  note ex = conjunct1 [OF raises_member_get [OF p(1)], rule_format]
  show ?thesis unfolding p(2)
    by (simp add: map_of_append_case described_get with_server_get ex del: map_of_append split: option.split)
qed

text \<open>The parts of a rendered document.\<close>

lemma render_openrpc_parts:
  assumes "render_openrpc sl p title descr servers streams sockets = Inr doc"
  obtains lookup ds ms ns ss cs where
    "server_lookup servers = Inr lookup" "check_references p lookup = Inr ()" "components sl p = Inr ds"
    "traverse (method_document sl (map (\<lambda>(k, v). (k, rewrite_refs v)) ds) lookup) (dict_vals (pc_methods p)) = Inr ms"
    "traverse (notification_document sl lookup) (dict_vals (pc_notifications p)) = Inr ns"
    "traverse (subscription_document sl lookup) (dict_vals (pc_subscriptions p)) = Inr ss"
    "traverse (client_method_document sl (map (\<lambda>(k, v). (k, rewrite_refs v)) ds) lookup)
       (dict_vals (pc_client_methods p)) = Inr cs"
    "get_or ''methods'' (JArr []) doc = Inr (JArr ms)" "get_or ''x-rpc-notifications'' (JArr []) doc = Inr (JArr ns)"
    "get_or ''x-rpc-subscriptions'' (JArr []) doc = Inr (JArr ss)"
    "get_or ''x-rpc-client-methods'' (JArr []) doc = Inr (JArr cs)"
    "get_or ''servers'' (JArr []) doc = Inr (JArr (map JObj servers))"
    "get_or ''x-rpckit-binary-streams'' (JArr []) doc = Inr (JArr (map JObj streams))"
    "get_or ''x-rpckit-raw-sockets'' (JArr []) doc = Inr (JArr (map JObj sockets))"
    "get_opt ''x-rpc-heartbeat'' doc = Inr (Some heartbeat_document)"
    "get_opt ''x-rpc-request-metadata'' doc = Inr (Some metadata_document)"
proof -
  from assms obtain lookup u ds ms ns ss ts cs where p:
    "server_lookup servers = Inr lookup" "check_references p lookup = Inr u" "components sl p = Inr ds"
    "traverse (method_document sl (map (\<lambda>(k, v). (k, rewrite_refs v)) ds) lookup) (dict_vals (pc_methods p)) = Inr ms"
    "traverse (notification_document sl lookup) (dict_vals (pc_notifications p)) = Inr ns"
    "traverse (subscription_document sl lookup) (dict_vals (pc_subscriptions p)) = Inr ss"
    "traverse (client_method_document sl (map (\<lambda>(k, v). (k, rewrite_refs v)) ds) lookup)
       (dict_vals (pc_client_methods p)) = Inr cs" and
    doc: "doc = JObj (
       [(''openrpc'', JStr ''1.4.1''),
        (''info'', JObj [(''title'', JStr title), (''version'', JStr (int_str (pc_version p) @ ''.0.0'')),
           (''description'', JStr descr)]),
        (''servers'', JArr (map JObj servers)), (''methods'', JArr ms),
        (''components'', JObj [(''schemas'', JObj (map (\<lambda>(k, v). (k, rewrite_refs v)) ds))]),
        (''x-rpc-protocol-version'', JInt (pc_version p)),
        (''x-rpc-heartbeat'', heartbeat_document), (''x-rpc-request-metadata'', metadata_document),
        (''x-rpc-request-cancellation'', cancellation_document), (''x-rpc-notifications'', JArr ns),
        (''x-rpc-subscriptions'', JArr ss), (''x-rpc-notification-types'', JArr ts)]
       @ (if cs = [] then [] else [(''x-rpc-client-methods'', JArr cs)])
       @ (if streams = [] then [] else [(''x-rpckit-binary-streams'', JArr (map JObj streams))])
       @ (if sockets = [] then [] else [(''x-rpckit-raw-sockets'', JArr (map JObj sockets))]))"
    unfolding render_openrpc_def Let_def by (auto simp only: rbind_eq_Inr sum.inject)
  show thesis
    by (rule that [OF p(1) _ p(3-7)])
      (use p(2) in \<open>simp_all add: doc get_or_def map_of_append_case del: map_of_append split: option.split if_split\<close>)
qed

lemma build_ir_lowers:
  assumes "build_ir doc = Inr ir"
  obtains schemas cs cxs h m where
    "lower_notifications doc schemas = Inr (ir_notifications ir)" "lower_servers doc = Inr (ir_servers ir)"
    "get_or ''x-rpc-client-methods'' (JArr []) doc = Inr cs" "py_iter cs = Inr cxs"
    "traverse lower_route cxs = Inr (ir_client_methods ir)"
    "get_opt ''x-rpc-heartbeat'' doc = Inr h" "ir_heartbeat ir = is_heartbeat h"
    "get_opt ''x-rpc-request-metadata'' doc = Inr m" "ir_request_metadata ir = is_metadata_capability m"
  using assms unfolding build_ir_def Let_def
  apply (simp only: rbind_eq_Inr case_prod_beta sum.inject unsupported_if_Inr not_not)
  apply (elim exE conjE)
  apply (rule that)
  apply (simp_all only: client_ir.simps)
  apply (assumption | rule refl | erule subst, simp only: client_ir.simps)+
  done

lemma check_references_Inr:
  "check_references p servers = Inr u \<Longrightarrow> (k, n, s) \<in> set (server_references p) \<Longrightarrow> dict_has s servers"
  by (auto simp: check_references_def filter_empty_conv split: list.splits)

lemma references_in:
  "m \<in> set (dict_vals (pc_methods p)) \<Longrightarrow> md_server m = Some s \<Longrightarrow> (''method'', md_name m, s) \<in> set (server_references p)"
  "n \<in> set (dict_vals (pc_notifications p)) \<Longrightarrow> nd_server n = Some s \<Longrightarrow>
    (''notification'', nd_name n, s) \<in> set (server_references p)"
  "b \<in> set (dict_vals (pc_subscriptions p)) \<Longrightarrow> sd_server b = Some s \<Longrightarrow>
    (''subscription'', sd_name b, s) \<in> set (server_references p)"
  "c \<in> set (dict_vals (pc_client_methods p)) \<Longrightarrow> cm_server c = Some s \<Longrightarrow>
    (''client method'', cm_name c, s) \<in> set (server_references p)"
  by (force simp: server_references_def some_list_def)+

text \<open>Streams and raw sockets keep their names.\<close>

lemma fold_entries_names:
  assumes "fold_res (lower_entry low nm) (map JObj os) acc = Inr ds"
    and "\<And>m names d. low (JObj m) names = Inr d \<Longrightarrow> map_of m ''name'' = Some (JStr (nm d))"
  shows "\<exists>new. ds = acc @ new \<and> map (\<lambda>x. map_of x ''name'') os = map (\<lambda>d. Some (JStr (nm d))) new"
  using assms(1)
proof (induction os arbitrary: acc)
  case (Cons x os)
  from Cons.prems obtain d where d: "low (JObj x) (map nm acc) = Inr d"
    "fold_res (lower_entry low nm) (map JObj os) (acc @ [d]) = Inr ds"
    by (auto simp: rbind_eq_Inr lower_entry_def [of low nm "JObj x" acc])
  from Cons.IH [OF d(2)] obtain new where "ds = (acc @ [d]) @ new"
    "map (\<lambda>x. map_of x ''name'') os = map (\<lambda>d. Some (JStr (nm d))) new" by blast
  with assms(2) [OF d(1)] show ?case by (intro exI [of _ "d # new"]) simp
qed simp

lemma lower_entries_names:
  assumes "lower_entries key low nm doc = Inr ds" "get_or key (JArr []) doc = Inr (JArr (map JObj os))"
    and "\<And>m names d. low (JObj m) names = Inr d \<Longrightarrow> map_of m ''name'' = Some (JStr (nm d))"
  shows "map (\<lambda>x. map_of x ''name'') os = map (\<lambda>d. Some (JStr (nm d))) ds"
proof -
  have "fold_res (lower_entry low nm) (map JObj os) [] = Inr ds"
    using assms(1,2) by (auto simp: lower_entries_def rbind_eq_Inr)
  then show ?thesis using fold_entries_names [where acc = "[]"] assms(3) by fastforce
qed

lemma lower_stream_name: "lower_stream vs (JObj m) names = Inr s \<Longrightarrow> map_of m ''name'' = Some (JStr (sr_rpc_name s))"
  by (auto simp only: lower_stream_def json.simps rbind_eq_Inr sum.inject stream_decl.simps)
    (simp add: entry_name_def split: option.splits json.splits list.splits)

lemma lower_socket_name: "lower_socket vs (JObj m) names = Inr s \<Longrightarrow> map_of m ''name'' = Some (JStr (so_rpc_name s))"
  by (auto simp only: lower_socket_def json.simps rbind_eq_Inr sum.inject socket_decl.simps)
    (simp add: entry_name_def split: option.splits json.splits list.splits)

lemma lower_servers_names:
  assumes "lower_servers doc = Inr ss" "get_or ''servers'' (JArr []) doc = Inr (JArr (map JObj os))"
  shows "map (\<lambda>s. Some (se_name s)) ss = map (\<lambda>x. map_of x ''name'') os"
proof -
  have "traverse lower_server (map JObj os) = Inr ss"
    using assms by (auto simp: lower_servers_def rbind_eq_Inr)
  then show ?thesis
    by (induction os arbitrary: ss)
      (auto simp: rbind_eq_Inr lower_server_def get_req_def split: option.splits)
qed

text \<open>Events: the notifications and after them the subscriptions.\<close>

definition event_view_of :: "event_decl \<Rightarrow> string \<times> bool \<times> json option" where
  "event_view_of e = (ev_rpc_name e, ev_subscription e, ev_server e)"

lemma traverse_same:
  assumes "traverse f xs = Inr ys" "traverse g ys = Inr zs"
    and "\<And>x y z. x \<in> set xs \<Longrightarrow> f x = Inr y \<Longrightarrow> g y = Inr z \<Longrightarrow> h z = k x"
  shows "map h zs = map k xs"
  using assms by (induction xs arbitrary: ys zs) (auto simp: rbind_eq_Inr)

lemma events_of_document:
  assumes "lower_notifications doc schemas = Inr es" "lookup_ok servers" "check_references p servers = Inr u"
    and "traverse (notification_document sl servers) (dict_vals (pc_notifications p)) = Inr ns"
    and "traverse (subscription_document sl servers) (dict_vals (pc_subscriptions p)) = Inr ss"
    and "get_or ''x-rpc-notifications'' (JArr []) doc = Inr (JArr ns)"
    and "get_or ''x-rpc-subscriptions'' (JArr []) doc = Inr (JArr ss)"
  shows "map event_view_of es =
     map (\<lambda>n. (nd_name n, False, map_option JStr (nd_server n))) (dict_vals (pc_notifications p))
     @ map (\<lambda>s. (sd_name s, True, map_option JStr (sd_server s))) (dict_vals (pc_subscriptions p))"
proof -
  from assms(1,6,7) obtain es1 es2 where e: "traverse lower_notification ns = Inr es1"
    "traverse (lower_subscription schemas) ss = Inr es2" "es = es1 @ es2"
    by (auto simp: lower_notifications_def rbind_eq_Inr)
  have "map event_view_of es1 = map (\<lambda>n. (nd_name n, False, map_option JStr (nd_server n))) (dict_vals (pc_notifications p))"
  proof (rule traverse_same [OF assms(4) e(1)])
    fix n d z assume n: "n \<in> set (dict_vals (pc_notifications p))" "notification_document sl servers n = Inr d"
      "lower_notification d = Inr z"
    from notification_document_members [OF n(2)] obtain m where m: "d = JObj m"
      "map_of m ''name'' = Some (JStr (nd_name n))"
      "map_of m ''servers'' = map_option (\<lambda>n. JArr (some_list (map_of servers n))) (nd_server n)" by blast
    have "dict_has s servers" if "nd_server n = Some s" for s
      using check_references_Inr [OF assms(3) references_in(2) [OF n(1) that]] .
    from lower_notification_name [OF m(2,3) assms(2) this n(3) [unfolded m(1)]]
    show "event_view_of z = (nd_name n, False, map_option JStr (nd_server n))" by (simp add: event_view_of_def)
  qed
  moreover have "map event_view_of es2 = map (\<lambda>s. (sd_name s, True, map_option JStr (sd_server s))) (dict_vals (pc_subscriptions p))"
  proof (rule traverse_same [OF assms(5) e(2)])
    fix n d z assume n: "n \<in> set (dict_vals (pc_subscriptions p))" "subscription_document sl servers n = Inr d"
      "lower_subscription schemas d = Inr z"
    from subscription_document_members [OF n(2)] obtain m where m: "d = JObj m"
      "map_of m ''name'' = Some (JStr (sd_name n))"
      "map_of m ''servers'' = map_option (\<lambda>n. JArr (some_list (map_of servers n))) (sd_server n)" by blast
    have "dict_has s servers" if "sd_server n = Some s" for s
      using check_references_Inr [OF assms(3) references_in(3) [OF n(1) that]] .
    from lower_subscription_name [OF m(2,3) assms(2) this n(3) [unfolded m(1)]]
    show "event_view_of z = (sd_name n, True, map_option JStr (sd_server n))" by (simp add: event_view_of_def)
  qed
  ultimately show ?thesis by (simp add: e(3))
qed

text \<open>C22. From the contract to the client and back: the client of a contract has one operation for every method of
  the protocol, in their order, with its name, server, idempotence and errors; the methods it answers
  are the client methods; its events are the notifications and after them the subscriptions, at their
  servers; its servers, streams and raw sockets have the names of the contract; and it knows of the heartbeat
  and of request metadata.\<close>

theorem contract_roundtrip:
  assumes "to_openrpc sl k = Inr doc" and "build_ir doc = Inr ir"
  shows "(\<exists>routes. document_routes doc = Inr routes \<and> mset (ir_operations ir) = mset routes
      \<and> list_all2 (\<lambda>m. same_operation (md_name m) (md_server m) (md_idempotent m) (md_raises m))
           (dict_vals (pc_methods (ko_protocol k))) routes)
    \<and> list_all2 (\<lambda>m. same_operation (cm_name m) (cm_server m) False (cm_raises m))
        (dict_vals (pc_client_methods (ko_protocol k))) (ir_client_methods ir)
    \<and> map event_view_of (ir_notifications ir) =
        map (\<lambda>n. (nd_name n, False, map_option JStr (nd_server n))) (dict_vals (pc_notifications (ko_protocol k)))
        @ map (\<lambda>s. (sd_name s, True, map_option JStr (sd_server s))) (dict_vals (pc_subscriptions (ko_protocol k)))
    \<and> map (\<lambda>s. Some (se_name s)) (ir_servers ir) = map (\<lambda>x. map_of x ''name'') (ko_servers k)
    \<and> map (\<lambda>s. Some (JStr (sr_rpc_name s))) (ir_streams ir) = map (\<lambda>x. map_of x ''name'') (ko_streams k)
    \<and> map (\<lambda>s. Some (JStr (so_rpc_name s))) (ir_sockets ir) = map (\<lambda>x. map_of x ''name'') (ko_sockets k)
    \<and> ir_heartbeat ir \<and> ir_request_metadata ir"
proof -
  let ?p = "ko_protocol k"
  from assms(1) [unfolded to_openrpc_def] obtain servers ds ms ns ss cs where d:
    "server_lookup (ko_servers k) = Inr servers" "check_references ?p servers = Inr ()" "components sl ?p = Inr ds"
    "traverse (method_document sl (map (\<lambda>(k, v). (k, rewrite_refs v)) ds) servers) (dict_vals (pc_methods ?p)) = Inr ms"
    "traverse (notification_document sl servers) (dict_vals (pc_notifications ?p)) = Inr ns"
    "traverse (subscription_document sl servers) (dict_vals (pc_subscriptions ?p)) = Inr ss"
    "traverse (client_method_document sl (map (\<lambda>(k, v). (k, rewrite_refs v)) ds) servers)
       (dict_vals (pc_client_methods ?p)) = Inr cs"
    "get_or ''methods'' (JArr []) doc = Inr (JArr ms)" "get_or ''x-rpc-notifications'' (JArr []) doc = Inr (JArr ns)"
    "get_or ''x-rpc-subscriptions'' (JArr []) doc = Inr (JArr ss)"
    "get_or ''x-rpc-client-methods'' (JArr []) doc = Inr (JArr cs)"
    "get_or ''servers'' (JArr []) doc = Inr (JArr (map JObj (ko_servers k)))"
    "get_or ''x-rpckit-binary-streams'' (JArr []) doc = Inr (JArr (map JObj (ko_streams k)))"
    "get_or ''x-rpckit-raw-sockets'' (JArr []) doc = Inr (JArr (map JObj (ko_sockets k)))"
    "get_opt ''x-rpc-heartbeat'' doc = Inr (Some heartbeat_document)"
    "get_opt ''x-rpc-request-metadata'' doc = Inr (Some metadata_document)"
    by (rule render_openrpc_parts)
  note ok = server_lookup_ok [OF d(1)]
  obtain routes u where r: "document_routes doc = Inr routes"
    "lower_streams doc (server_variable_names ir) = Inr (ir_streams ir)"
    "lower_sockets doc (server_variable_names ir) = Inr (ir_sockets ir)"
    using assms(2) by (rule build_ir_parts)
  obtain schemas cv cxs h mm where b:
    "lower_notifications doc schemas = Inr (ir_notifications ir)" "lower_servers doc = Inr (ir_servers ir)"
    "get_or ''x-rpc-client-methods'' (JArr []) doc = Inr cv" "py_iter cv = Inr cxs"
    "traverse lower_route cxs = Inr (ir_client_methods ir)"
    "get_opt ''x-rpc-heartbeat'' doc = Inr h" "ir_heartbeat ir = is_heartbeat h"
    "get_opt ''x-rpc-request-metadata'' doc = Inr mm" "ir_request_metadata ir = is_metadata_capability mm"
    using assms(2) by (rule build_ir_lowers)
  have "traverse lower_route ms = Inr routes" using r(1) d(8) by (auto simp: document_routes_def rbind_eq_Inr)
  with d(4) have methods: "list_all2 (\<lambda>m. same_operation (md_name m) (md_server m) (md_idempotent m) (md_raises m))
      (dict_vals (pc_methods ?p)) routes"
  proof (rule traverse_traverse)
    fix m x r assume m: "m \<in> set (dict_vals (pc_methods ?p))"
      "method_document sl (map (\<lambda>(k, v). (k, rewrite_refs v)) ds) servers m = Inr x" "lower_route x = Inr r"
    from method_document_members [OF m(2)] lower_route_members [OF _ _ ok _ m(3)]
      check_references_Inr [OF d(2) references_in(1) [OF m(1)]]
    show "same_operation (md_name m) (md_server m) (md_idempotent m) (md_raises m) r" by blast
  qed
  have "traverse lower_route cs = Inr (ir_client_methods ir)" using b(3-5) d(11) by auto
  with d(7) have client_methods: "list_all2 (\<lambda>m. same_operation (cm_name m) (cm_server m) False (cm_raises m))
      (dict_vals (pc_client_methods ?p)) (ir_client_methods ir)"
  proof (rule traverse_traverse)
    fix m x r assume m: "m \<in> set (dict_vals (pc_client_methods ?p))"
      "client_method_document sl (map (\<lambda>(k, v). (k, rewrite_refs v)) ds) servers m = Inr x" "lower_route x = Inr r"
    from client_method_members [OF m(2)] lower_route_members [OF _ _ ok _ m(3)]
      check_references_Inr [OF d(2) references_in(4) [OF m(1)]]
    show "same_operation (cm_name m) (cm_server m) False (cm_raises m) r" by blast
  qed
  note events = events_of_document [OF b(1) ok d(2,5,6,9,10)]
  note streams = lower_entries_names [OF r(2) [unfolded lower_streams_def] d(13) lower_stream_name]
  note sockets = lower_entries_names [OF r(3) [unfolded lower_sockets_def] d(14) lower_socket_name]
  have "ir_heartbeat ir" "ir_request_metadata ir"
    using b(6-9) d(15,16) by (auto simp: is_heartbeat_def is_metadata_capability_def heartbeat_document_def metadata_document_def)
  with r(1) methods ir_operations_routes [OF assms(2) r(1)] client_methods events
    lower_servers_names [OF b(2) d(12)] streams sockets
  show ?thesis by (intro conjI) (blast | simp only:)+
qed

end
