(* ===== verification/ContractService.thy ===== *)
theory ContractService
  imports ContractProps
begin

text \<open>
  The contract of a service that was built by mounting: its servers are its sockets, every operation names one
  of them, and its streams and raw sockets are those mounted. An example, and how the schema of a request
  replaces a model of the same name.
\<close>

section \<open>Operations belong to sockets\<close>

definition operation_servers :: "gathered \<Rightarrow> string option set" where
  "operation_servers g =
     md_server ` set (ga_methods g) \<union> nd_server ` set (ga_notifications g)
     \<union> sd_server ` set (ga_subscriptions g) \<union> cm_server ` set (ga_client_methods g)"

lemma operation_servers_keep:
  "unique_name n c g = Inr g' \<Longrightarrow> operation_servers g' = operation_servers g"
  "enter_error e g = Inr g' \<Longrightarrow> operation_servers g' = operation_servers g"
  "freeze_channel py ch g = Inr (p, g') \<Longrightarrow> operation_servers g' = operation_servers g"
  "any_notifications py cs g = Inr (b, g') \<Longrightarrow> operation_servers g' = operation_servers g"
  by (auto simp: unique_name_Inr enter_error_def Let_def operation_servers_def
      dest!: freeze_channel_Inr any_notifications_Inr split: option.splits if_splits)

definition is_socket :: "endpoint \<Rightarrow> bool" where
  "is_socket e = (case ep_kind e of SocketEndpoint cs pm cw \<Rightarrow> True | _ \<Rightarrow> False)"

definition socket_names :: "endpoint list \<Rightarrow> string list" where
  "socket_names es = map ep_name (filter is_socket es)"

lemma gather_channel_servers:
  assumes "gather_channel py s c g = Inr g'" "operation_servers g \<subseteq> X" "Some s \<in> X"
  shows "operation_servers g' \<subseteq> X"
proof -
  from assms(1) obtain p g1 g2 where g: "freeze_channel py c g = Inr (p, g1)"
    "fold_res (\<lambda>n. unique_name n (cd_name (chan_data (ga_channels g1 c)))) (protocol_names p) (add_protocol s p g1) = Inr g2"
    "fold_res enter_error (protocol_raises p) g2 = Inr g'"
    by (auto simp: gather_channel_def rbind_eq_Inr)
  have "operation_servers (add_protocol s p g1) \<subseteq> insert (Some s) (operation_servers g1)"
    by (auto simp: operation_servers_def add_protocol_def)
  then have "operation_servers (add_protocol s p g1) \<subseteq> X"
    using operation_servers_keep(3) [OF g(1)] assms(2,3) by blast
  with g(2) have "operation_servers g2 \<subseteq> X" by (rule fold_res_invariant) (simp add: operation_servers_keep(1))
  with g(3) show ?thesis by (rule fold_res_invariant) (simp add: operation_servers_keep(2))
qed

lemma gather_endpoint_servers:
  assumes "gather_endpoint py w e g = Inr g'" "operation_servers g \<subseteq> X" "is_socket e \<Longrightarrow> Some (ep_name e) \<in> X"
  shows "operation_servers g' \<subseteq> X"
proof (cases "ep_kind e")
  case (SocketEndpoint cs pm cw)
  with assms(1) obtain g1 where g1: "operation_servers g1 = operation_servers g"
    "fold_res (gather_channel py (ep_name e)) cs g1 = Inr g'"
    by (cases cw) (auto simp: gather_endpoint_def rbind_eq_Inr split: if_splits dest: operation_servers_keep(4))
  have s: "Some (ep_name e) \<in> X" using assms(3) SocketEndpoint by (simp add: is_socket_def)
  from g1(1) assms(2) have "operation_servers g1 \<subseteq> X" by simp
  with g1(2) show ?thesis by (rule fold_res_invariant) (use gather_channel_servers s in blast)
next
  case (StreamEndpoint d)
  with assms(1) obtain p c g1 g2 where g: "freeze_channel py c g = Inr (p, g1)"
    "unique_name (st_name d) (cd_name (chan_data (ga_channels g1 c))) g1 = Inr g2"
    "g' = g2\<lparr>ga_streams := ga_streams g2 @ [d\<lparr>st_server := Some (ep_name e)\<rparr>]\<rparr>"
    by (auto simp: gather_endpoint_def option_case_Inr rbind_eq_Inr)
  with assms(2) operation_servers_keep(1) [OF g(2)] operation_servers_keep(3) [OF g(1)] show ?thesis
    by (simp add: operation_servers_def)
next
  case (RawEndpoint d)
  with assms(1) obtain p c g1 g2 where g: "freeze_channel py c g = Inr (p, g1)"
    "unique_name (rd_name d) (cd_name (chan_data (ga_channels g1 c))) g1 = Inr g2"
    "g' = g2\<lparr>ga_raw_sockets := ga_raw_sockets g2 @ [d\<lparr>rd_server := Some (ep_name e)\<rparr>]\<rparr>"
    by (auto simp: gather_endpoint_def option_case_Inr rbind_eq_Inr)
  with assms(2) operation_servers_keep(1) [OF g(2)] operation_servers_keep(3) [OF g(1)] show ?thesis
    by (simp add: operation_servers_def)
qed

lemma frozen_servers:
  assumes "service_freeze py w sv = Inr (p, sv', chs)" "sv_protocol sv = None" "(k, n, s) \<in> set (server_references p)"
  shows "s \<in> set (socket_names (sv_endpoints sv))"
proof -
  let ?X = "Some ` set (socket_names (sv_endpoints sv))"
  from assms(1,2) obtain g where g: "fold_res (gather_endpoint py w) (sv_endpoints sv) (gather_nothing w) = Inr g"
    "protocol_init (rename_requests (ga_methods g)) (ga_notifications g) (ga_subscriptions g) (ga_types g)
       (ga_streams g) (ga_client_methods g) (ga_raw_sockets g) (sv_version sv) = Inr p"
    by (rule service_freeze_open)
  have "operation_servers (gather_nothing w) \<subseteq> ?X" by (simp add: operation_servers_def gather_nothing_def)
  with g(1) have ops: "operation_servers g \<subseteq> ?X"
  proof (rule fold_res_invariant)
    fix e g1 g2
    assume e: "e \<in> set (sv_endpoints sv)" "operation_servers g1 \<subseteq> ?X" "gather_endpoint py w e g1 = Inr g2"
    show "operation_servers g2 \<subseteq> ?X"
      by (rule gather_endpoint_servers [OF e(3,2)]) (use e(1) in \<open>simp add: socket_names_def\<close>)
  qed
  have "Some s \<in> operation_servers g"
    using assms(3) protocol_init_ok [OF g(2)] rename_server [of _ "ga_methods g"]
    by (fastforce simp: server_references_def operation_servers_def some_list_def split: option.splits)
  with ops show ?thesis by blast
qed

section \<open>The members of a service contract\<close>

lemma add_endpoints_servers:
  "fold_res (add_endpoint supplied base) es mb = Inr mb' \<Longrightarrow>
     map (\<lambda>o'. map_of o' ''name'') (mb_servers mb') =
       map (\<lambda>o'. map_of o' ''name'') (mb_servers mb) @ map (\<lambda>n. Some (JStr n)) (socket_names es)"
  by (induction es arbitrary: mb)
    (auto simp: rbind_eq_Inr add_endpoint_def Let_def socket_names_def is_socket_def server_member_def
      split: endpoint_kind.splits)

lemma enter_servers_total:
  assumes "map (\<lambda>x. map_of x ''name'') os = map (\<lambda>n. Some (JStr n)) ns"
    and "distinct ns" "[] \<notin> set ns" "set ns \<inter> fst ` set m = {}"
  shows "\<exists>m'. fold_res enter_server os m = Inr m' \<and> fst ` set m' = fst ` set m \<union> set ns"
  using assms
proof (induction ns arbitrary: os m)
  case (Cons n ns)
  then obtain x xs c cs where x: "os = x # xs" "map_of x ''name'' = Some (JStr n)" "n = c # cs"
    by (cases os; cases n) auto
  have f: "n \<notin> fst ` set m" using Cons.prems(4) by auto
  then have e: "enter_server x m = Inr (m @ [(n, JObj x)])"
    using x(2) by (simp add: enter_server_def x(3) dict_has_iff dict_set_fresh)
  have "\<exists>m'. fold_res enter_server xs (m @ [(n, JObj x)]) = Inr m'
      \<and> fst ` set m' = fst ` set (m @ [(n, JObj x)]) \<union> set ns"
    by (rule Cons.IH) (use Cons.prems x in auto)
  then show ?case by (auto simp: x(1) e)
qed simp

lemma service_ok_mounted:
  assumes "service_init v em mw l st rs = Inr sv0" "(mount_step w)\<^sup>*\<^sup>* sv0 sv"
  shows "distinct (map ep_name (sv_endpoints sv)) \<and> (\<forall>e\<in>set (sv_endpoints sv). endpoint_ok e)"
  using mount_run_ok [OF assms(2) service_init_ok [OF assms(1)]] by (simp add: service_ok_def)


section \<open>The contract of the clock\<close>

definition clock_contract :: rpc_contract where
  "clock_contract =
     \<lparr>ko_protocol = served_clock, ko_title = ''Clock'', ko_description = ''Time.'',
      ko_servers = [[(''name'', JStr ''rpc''), (''url'', JStr ''wss://clock.test/rpc''),
        (''x-rpckit-transport'', JObj [(''type'', JStr ''websocket''), (''messageEncoding'', JStr ''json''),
           (''frameType'', JStr ''text'')])]],
      ko_streams = [[(''name'', JStr ''clock.ticks''), (''url'', JStr ''wss://clock.test/ticks''),
        (''direction'', JStr ''server-to-client''), (''contentType'', JStr ''application/octet-stream''),
        (''frameType'', JStr ''binary'')]], ko_sockets = []\<rparr>"

lemma clock_contract_made:
  "contract_from_service py clock_world clock_service ''Clock'' ''https://clock.test/'' ''Time.'' [] =
     Inr (clock_contract, clock_service\<lparr>sv_protocol := Some served_clock\<rparr>, (w_channels clock_world)(0 := frozen_clock))"
proof -
  have b: "websocket_base ''https://clock.test/'' = Inr ''wss://clock.test''" by code_simp
  have e: "fold_res (add_endpoint [] ''wss://clock.test'') (sv_endpoints clock_service)
      \<lparr>mb_servers = [], mb_streams = [], mb_sockets = []\<rparr> =
    Inr \<lparr>mb_servers = ko_servers clock_contract, mb_streams = ko_streams clock_contract, mb_sockets = []\<rparr>"
    by code_simp
  show ?thesis
    unfolding contract_from_service_def b clock_service_frozen
    by (simp add: e service_error_def contract_init_def clock_contract_def)
qed

text \<open>A schema library without models.\<close>

definition plain_schemas :: schema_library where
  "plain_schemas =
     \<lparr>sl_name = (\<lambda>a. case a of AnnClass c \<Rightarrow> Some (cls_name c) | _ \<Rightarrow> None), sl_definitions = (\<lambda>as. []),
      sl_schema = (\<lambda>a. JObj [(''type'', JStr ''null'')]), sl_required = (\<lambda>a. False),
      sl_wire_names_unique = (\<lambda>as. True), sl_number = (\<lambda>q. JFloat [])\<rparr>"

definition clock_document :: json where
  "clock_document =
JObj
       [(''openrpc'', JStr ''1.4.1''),
        (''info'',
         JObj
          [(''title'', JStr ''Clock''), (''version'', JStr ''1.0.0''),
           (''description'', JStr ''Time.'')]),
        (''servers'',
         JArr
          [JObj
            [(''name'', JStr ''rpc''),
             (''url'', JStr ''wss://clock.test/rpc''),
             (''x-rpckit-transport'',
              JObj
               [(''type'', JStr ''websocket''),
                (''messageEncoding'', JStr ''json''),
                (''frameType'', JStr ''text'')])]]),
        (''methods'',
         JArr
          [JObj
            [(''name'', JStr ''clock.tick''),
             (''x-rpc-idempotent'', JBool True),
             (''summary'', JStr ''Ticks.''),
             (''paramStructure'', JStr ''by-name''), (''params'', JArr []),
             (''result'',
              JObj
               [(''name'', JStr ''result''),
                (''schema'', JObj [(''type'', JStr ''null'')])]),
             (''x-rpc-request-schema'',
              JObj [(''$ref'', JStr ''#/components/schemas/TickRequest'')]),
             (''servers'',
              JArr
               [JObj
                 [(''name'', JStr ''rpc''),
                  (''url'', JStr ''wss://clock.test/rpc''),
                  (''x-rpckit-transport'',
                   JObj
                    [(''type'', JStr ''websocket''),
                     (''messageEncoding'', JStr ''json''),
                     (''frameType'', JStr ''text'')])]])]]),
        (''components'',
         JObj
          [(''schemas'',
            JObj
             [(''TickRequest'',
               JObj
                [(''additionalProperties'', JBool False),
                 (''type'', JStr ''object''),
                 (''title'', JStr ''TickRequest''),
                 (''properties'',
                  JObj
                   [(''jsonrpc'',
                     JObj
                      [(''const'', JStr ''2.0''),
                       (''type'', JStr ''string'')]),
                    (''id'',
                     JObj
                      [(''anyOf'',
                        JArr
                         [JObj [(''type'', JStr ''string'')],
                          JObj [(''type'', JStr ''integer'')],
                          JObj [(''type'', JStr ''null'')]]),
                       (''default'', JNull)]),
                    (''method'',
                     JObj
                      [(''const'', JStr ''clock.tick''),
                       (''type'', JStr ''string'')]),
                    (''params'',
                     JObj
                      [(''additionalProperties'', JBool False),
                       (''type'', JStr ''object'')]),
                    (''meta'',
                     JObj
                      [(''type'', JStr ''object''),
                       (''additionalProperties'',
                        JObj
                         [(''type'', JStr ''string''),
                          (''maxLength'', JInt 4096)]),
                       (''propertyNames'',
                        JObj
                         [(''enum'',
                           JArr
                            [JStr ''traceparent'', JStr ''tracestate'',
                             JStr ''baggage''])]),
                       (''maxProperties'', JInt 3),
                       (''x-rpc-max-bytes'', JInt 4096)])]),
                 (''required'', JArr [JStr ''jsonrpc'', JStr ''method'']),
                 (''description'', JStr ''Ticks.'')])])]),
        (''x-rpc-protocol-version'', JInt 1),
        (''x-rpc-heartbeat'',
         JObj
          [(''method'', JStr ''$/ping''), (''params'', JObj []),
           (''result'', JNull)]),
        (''x-rpc-request-metadata'',
         JObj
          [(''version'', JInt 1), (''location'', JStr ''envelope''),
           (''member'', JStr ''meta''), (''maxBytes'', JInt 4096),
           (''allowedKeys'',
            JArr
             [JStr ''traceparent'', JStr ''tracestate'',
              JStr ''baggage''])]),
        (''x-rpc-request-cancellation'',
         JObj
          [(''method'', JStr ''$/cancelRequest''),
           (''notification'', JBool True),
           (''params'',
            JObj
             [(''type'', JStr ''object''),
              (''properties'',
               JObj
                [(''id'',
                  JObj
                   [(''type'',
                     JArr [JStr ''integer'', JStr ''string''])])]),
              (''required'', JArr [JStr ''id'']),
              (''additionalProperties'', JBool False)]),
           (''error'',
            JObj
             [(''code'', JInt (- 32800)),
              (''x-rpckit-code'', JStr ''request_cancelled'')])]),
        (''x-rpc-notifications'', JArr []),
        (''x-rpc-subscriptions'', JArr []),
        (''x-rpc-notification-types'', JArr []),
        (''x-rpckit-binary-streams'',
         JArr
          [JObj
            [(''name'', JStr ''clock.ticks''),
             (''url'', JStr ''wss://clock.test/ticks''),
             (''direction'', JStr ''server-to-client''),
             (''contentType'', JStr ''application/octet-stream''),
             (''frameType'', JStr ''binary'')]])]"

lemma clock_rendered: "to_openrpc plain_schemas clock_contract = Inr clock_document"
  by code_simp

lemma clock_client: "\<exists>ir. build_ir clock_document = Inr ir"
proof -
  have "(case build_ir clock_document of Inl e \<Rightarrow> False | Inr ir \<Rightarrow> True)" by code_simp
  then show ?thesis by (auto split: sum.splits)
qed

lemma contract_roundtrip_witness:
  "\<exists>ir r. to_openrpc plain_schemas clock_contract = Inr clock_document \<and> build_ir clock_document = Inr ir
     \<and> mset (ir_operations ir) = {#r#} \<and> rr_rpc_name r = ''clock.tick'' \<and> rr_server r = Some (JStr ''rpc'')
     \<and> rr_idempotent r \<and> map sr_rpc_name (ir_streams ir) = [''clock.ticks'']"
proof -
  obtain ir where d: "to_openrpc plain_schemas clock_contract = Inr clock_document" "build_ir clock_document = Inr ir"
    using clock_client clock_rendered by blast
  have p: "dict_vals (pc_methods (ko_protocol clock_contract)) =
      [tick_method ''clock.tick'' (Some ''Ticks.'') None True\<lparr>md_server := Some ''rpc''\<rparr>]"
    "map (\<lambda>x. map_of x ''name'') (ko_streams clock_contract) = [Some (JStr ''clock.ticks'')]"
    by (simp_all add: clock_contract_def served_clock_def clock_protocol_def)
  note c = contract_roundtrip [OF d, unfolded p]
  from conjunct1 [OF c] obtain routes where r: "mset (ir_operations ir) = mset routes"
    "list_all2 (\<lambda>m. same_operation (md_name m) (md_server m) (md_idempotent m) (md_raises m))
       [tick_method ''clock.tick'' (Some ''Ticks.'') None True\<lparr>md_server := Some ''rpc''\<rparr>] routes"
    by (elim exE conjE)
  from c have streams: "map (\<lambda>s. Some (JStr (sr_rpc_name s))) (ir_streams ir) = [Some (JStr ''clock.ticks'')]"
    by (elim conjE)
  from r(2) obtain x where "routes = [x]" "rr_rpc_name x = ''clock.tick''" "rr_server x = Some (JStr ''rpc'')" "rr_idempotent x"
    by (auto simp: list_all2_Cons1 same_operation_def tick_method_def)
  with d r(1) streams show ?thesis by (intro exI [of _ ir] exI [of _ x]) auto
qed


section \<open>A model with the name of a request\<close>

lemma components_method:
  assumes "components sl p = Inr ds" and "m \<in> set (dict_vals (pc_methods p))"
    and "distinct (map md_request_name (dict_vals (pc_methods p)))"
    and "md_request_name m \<notin> client_method_schema_name ` cm_name ` set (dict_vals (pc_client_methods p))"
    and "md_request_name m \<notin> notification_schema_name ` nd_name ` set (dict_vals (pc_notifications p))"
  shows "\<exists>s. request_schema sl (md_name m) (md_request_name m) (md_params m) (md_summary m) = Inr s
    \<and> map_of ds (md_request_name m) = Some s"
proof -
  let ?n = "md_request_name m"
  let ?ok = "\<lambda>ds. \<exists>s. request_schema sl (md_name m) ?n (md_params m) (md_summary m) = Inr s \<and> map_of ds ?n = Some s"
  from assms(1) obtain as d1 d2 where d:
    "fold_res (add_method_schema sl) (dict_vals (pc_methods p)) (sl_definitions sl as) = Inr d1"
    "fold_res (add_client_method_schema sl) (dict_vals (pc_client_methods p)) d1 = Inr d2"
    "fold_res (add_notification_schema sl) (dict_vals (pc_notifications p)) d2 = Inr ds"
    by (auto simp: components_def rbind_eq_Inr)
  obtain ms1 ms2 where ms: "dict_vals (pc_methods p) = ms1 @ m # ms2" using assms(2) by (meson split_list)
  then have fresh: "md_request_name m \<notin> md_request_name ` set ms2" using assms(3) by simp
  from d(1) obtain e1 e2 where e: "add_method_schema sl m e1 = Inr e2" "fold_res (add_method_schema sl) ms2 e2 = Inr d1"
    unfolding ms by (auto simp: fold_res_append rbind_eq_Inr)
  have "?ok e2" using e(1) by (auto simp: add_method_schema_def rbind_eq_Inr dict_simps)
  with e(2) have "?ok d1"
  proof (rule fold_res_invariant)
    fix x s s' assume "x \<in> set ms2" "?ok s" "add_method_schema sl x s = Inr s'"
    moreover have "md_request_name x \<noteq> ?n" using fresh calculation(1) by (metis imageI)
    ultimately show "?ok s'" by (auto simp: add_method_schema_def rbind_eq_Inr dict_simps)
  qed
  with d(2) have "?ok d2"
  proof (rule fold_res_invariant)
    fix x s s' assume "x \<in> set (dict_vals (pc_client_methods p))" "?ok s" "add_client_method_schema sl x s = Inr s'"
    moreover have "client_method_schema_name (cm_name x) \<noteq> ?n" using assms(4) calculation(1) by (metis imageI)
    ultimately show "?ok s'" by (auto simp: add_client_method_schema_def rbind_eq_Inr dict_simps Let_def)
  qed
  with d(3) show ?thesis
  proof (rule fold_res_invariant)
    fix x s s' assume "x \<in> set (dict_vals (pc_notifications p))" "?ok s" "add_notification_schema sl x s = Inr s'"
    moreover have "notification_schema_name (nd_name x) \<noteq> ?n" using assms(5) calculation(1) by (metis imageI)
    ultimately show "?ok s'" by (auto simp: add_notification_schema_def rbind_eq_Inr dict_simps Let_def)
  qed
qed

lemma request_schema_properties:
  "request_schema sl name title params summary = Inr s \<Longrightarrow>
   map fst (model_properties (rewrite_refs s)) = [''jsonrpc'', ''id'', ''method'', ''params'', ''meta'']"
  by (auto simp: request_schema_def rbind_eq_Inr model_properties_def split: option.splits)

text \<open>C28. The schema of a request replaces a model of its name: when the model of the parameters of a method is
  named like its request, which is the name of the function with \<open>Request\<close>, the document lists the
  members of the JSON-RPC envelope as the parameters of the method, and rendering reports nothing.\<close>

theorem params_model_replaced:
  assumes "components sl p = Inr ds" and "m \<in> set (dict_vals (pc_methods p))"
    and "distinct (map md_request_name (dict_vals (pc_methods p)))"
    and "md_request_name m \<notin> client_method_schema_name ` cm_name ` set (dict_vals (pc_client_methods p))"
    and "md_request_name m \<notin> notification_schema_name ` nd_name ` set (dict_vals (pc_notifications p))"
    and "md_params m = Some a" and "sl_name sl a = Some (md_request_name m)"
  shows "\<exists>ps. params_document sl (map (\<lambda>(k, v). (k, rewrite_refs v)) ds) (md_params m) = Inr ps
    \<and> map (\<lambda>d. obj_get d ''name'') ps = map (Some \<circ> JStr) [''jsonrpc'', ''id'', ''method'', ''params'', ''meta'']"
proof -
  from components_method [OF assms(1-5)] obtain s where
    s: "request_schema sl (md_name m) (md_request_name m) (md_params m) (md_summary m) = Inr s"
      "map_of ds (md_request_name m) = Some s" by blast
  have "map_of (map (\<lambda>(k, v). (k, rewrite_refs v)) ds) (md_request_name m) = Some (rewrite_refs s)"
    using s(2) by (simp add: map_of_map)
  then have "\<exists>ps. params_document sl (map (\<lambda>(k, v). (k, rewrite_refs v)) ds) (md_params m) = Inr ps
      \<and> map (\<lambda>d. obj_get d ''name'') ps = map (Some \<circ> JStr) (map fst (model_properties (rewrite_refs s)))"
    by (simp add: params_document_def assms(6,7) type_name_def split_def)
  then show ?thesis unfolding request_schema_properties [OF s(1)] .
qed

text \<open>A function \<open>tick\<close> whose parameters are the model \<open>TickRequest\<close>.\<close>

definition tick_model :: ann where
  "tick_model = AnnClass \<lparr>cls_id = 900, cls_name = ''TickRequest'', cls_mro = [900]\<rparr>"

definition tick_protocol :: protocol where
  "tick_protocol = clock_protocol\<lparr>
     pc_methods := [(''clock.tick'', tick_method ''clock.tick'' None None True\<lparr>md_params := Some tick_model\<rparr>)]\<rparr>"

lemma tick_components: "\<exists>ds. components plain_schemas tick_protocol = Inr ds"
proof -
  have "(case components plain_schemas tick_protocol of Inl e \<Rightarrow> False | Inr ds \<Rightarrow> True)" by code_simp
  then show ?thesis by (auto split: sum.splits)
qed

lemma params_model_replaced_witness:
  "\<exists>ds ps. components plain_schemas tick_protocol = Inr ds
     \<and> params_document plain_schemas (map (\<lambda>(k, v). (k, rewrite_refs v)) ds) (Some tick_model) = Inr ps
     \<and> map (\<lambda>d. obj_get d ''name'') ps = map (Some \<circ> JStr) [''jsonrpc'', ''id'', ''method'', ''params'', ''meta'']"
proof -
  let ?m = "tick_method ''clock.tick'' None None True\<lparr>md_params := Some tick_model\<rparr>"
  obtain ds where ds: "components plain_schemas tick_protocol = Inr ds" using tick_components by blast
  have p: "dict_vals (pc_methods tick_protocol) = [?m]" "dict_vals (pc_client_methods tick_protocol) = []"
    "dict_vals (pc_notifications tick_protocol) = []" "md_params ?m = Some tick_model"
    "sl_name plain_schemas tick_model = Some (md_request_name ?m)"
    by (simp_all add: tick_protocol_def clock_protocol_def plain_schemas_def tick_model_def tick_method_def)
  from params_model_replaced [OF ds, of ?m tick_model] p ds show ?thesis by (auto simp only: p) simp_all
qed

end
