(* ===== verification/Drain.thy ===== *)
theory Drain
  imports Pyobj
begin

text \<open>
  \<open>drain.py\<close>: the shared shutdown of a service. \<open>RpcDrain\<close> knows the sessions that are served; draining refuses
  new ones, asks every session to finish, stops those that have not after nine tenths of the timeout, and
  waits for their tasks up to the deadline. A session has its connection (the close that is decided on it),
  the graceful shutdown \<open>begin\<close> that the runtime leaves, its two events and its task. The steps are those of
  the event loop; time only passes, at any rate, so that the loop may be late.
\<close>

section \<open>Sessions\<close>

text \<open>\<open>dn_begun\<close>: the graceful shutdown was started, \<open>dn_failed\<close>: and it raised; \<open>dn_grace_done\<close>: the task that runs
  \<open>finish\<close> for the session is done.\<close>

record drain_session =
  dn_connected :: bool
  dn_close :: "(conn_close \<times> string) option"
  dn_begin :: bool
  dn_ready :: bool
  dn_finished :: bool
  dn_begun :: bool
  dn_failed :: bool
  dn_grace_done :: bool
  dn_cancelled :: bool
  dn_task_done :: bool

definition session_new :: drain_session where
  "session_new =
     \<lparr>dn_connected = False, dn_close = None, dn_begin = False, dn_ready = False, dn_finished = False,
      dn_begun = False, dn_failed = False, dn_grace_done = False, dn_cancelled = False, dn_task_done = False\<rparr>"

text \<open>The runtime enters the connection; a session of a stream or raw socket is ready then.\<close>

definition session_connect :: "bool \<Rightarrow> drain_session \<Rightarrow> drain_session" where
  "session_connect is_rpc s = (if is_rpc then s\<lparr>dn_connected := True\<rparr> else s\<lparr>dn_connected := True, dn_ready := True\<rparr>)"

definition session_begin :: "drain_session \<Rightarrow> drain_session" where
  "session_begin s = s\<lparr>dn_begin := True, dn_ready := True\<rparr>"

definition session_exit :: "drain_session \<Rightarrow> drain_session" where
  "session_exit s = s\<lparr>dn_finished := True, dn_ready := True\<rparr>"

text \<open>\<open>finish\<close> waits for \<open>ready\<close>, starts \<open>begin\<close> unless the session is over, and waits for \<open>finished\<close>.\<close>

definition finish_starts :: "drain_session \<Rightarrow> bool" where
  "finish_starts s = (dn_ready s \<and> \<not> dn_finished s \<and> dn_begin s \<and> \<not> dn_begun s)"

definition finish_over :: "drain_session \<Rightarrow> bool" where
  "finish_over s = (dn_ready s \<and> dn_finished s \<or> dn_failed s)"

definition session_stop :: "drain_session \<Rightarrow> drain_session" where
  "session_stop s =
     (let s' = (if dn_connected s \<and> dn_close s = None
                then s\<lparr>dn_close := Some (Close_SERVICE_RESTART, ''Server restarting'')\<rparr> else s)
      in s'\<lparr>dn_cancelled := True\<rparr>)"

section \<open>The coordinator\<close>

text \<open>\<open>Draining\<close>: the task of \<open>_drain\<close> is created, with its timeout, but has not run yet.\<close>

datatype drain_phase =
    Serving
  | Draining rat
  | Grace "nat list" rat rat
  | Cleanup "nat list" rat
  | Drained "nat list" bool

record rpc_drain =
  dr_sessions :: "nat list"
  dr_table :: "nat \<Rightarrow> drain_session"
  dr_phase :: drain_phase
  dr_now :: rat

definition drain_init :: "rat \<Rightarrow> rpc_drain" where
  "drain_init now = \<lparr>dr_sessions = [], dr_table = (\<lambda>i. session_new), dr_phase = Serving, dr_now = now\<rparr>"

definition is_draining :: "rpc_drain \<Rightarrow> bool" where
  "is_draining d = (dr_phase d \<noteq> Serving)"

definition connection_count :: "rpc_drain \<Rightarrow> nat" where
  "connection_count d = length (dr_sessions d)"

text \<open>\<open>_session\<close>: entering it, with the identity of the new session, and leaving it.\<close>

definition session_enter :: "nat \<Rightarrow> rpc_drain \<Rightarrow> (rejection \<times> string) + rpc_drain" where
  "session_enter i d =
     (if is_draining d then Inl (Rej_UNAVAILABLE, ''Server restarting'')
      else Inr (d\<lparr>dr_sessions := dr_sessions d @ [i], dr_table := (dr_table d)(i := session_new)\<rparr>))"

definition update_session :: "nat \<Rightarrow> (drain_session \<Rightarrow> drain_session) \<Rightarrow> rpc_drain \<Rightarrow> rpc_drain" where
  "update_session i f d = d\<lparr>dr_table := (dr_table d)(i := f (dr_table d i))\<rparr>"

definition session_leave :: "nat \<Rightarrow> rpc_drain \<Rightarrow> rpc_drain" where
  "session_leave i d = update_session i session_exit (d\<lparr>dr_sessions := remove1 i (dr_sessions d)\<rparr>)"

datatype drain_error = DrainTimeoutError | DrainTypeError

definition drain_start :: "pynum \<Rightarrow> rpc_drain \<Rightarrow> drain_error + rpc_drain" where
  "drain_start timeout d =
     (if timeout = NotNumeric then Inl DrainTypeError
      else if num_is_bool timeout \<or> \<not> num_finite timeout \<or> num_rat timeout < 0 then Inl DrainTimeoutError
      else Inr (if is_draining d then d else d\<lparr>dr_phase := Draining (num_rat timeout)\<rparr>))"

text \<open>The parts of \<open>_drain\<close>, between the places where it waits.\<close>

definition drain_run :: "rpc_drain \<Rightarrow> rpc_drain" where
  "drain_run d =
     (case dr_phase d of
        Draining t \<Rightarrow> d\<lparr>dr_phase := Grace (dr_sessions d) (dr_now d + t * (9 / 10)) (dr_now d + t)\<rparr>
      | _ \<Rightarrow> d)"

definition grace_over :: "rpc_drain \<Rightarrow> bool" where
  "grace_over d =
     (case dr_phase d of
        Grace ss g t \<Rightarrow> list_all (\<lambda>i. dn_grace_done (dr_table d i)) ss \<or> g \<le> dr_now d
      | _ \<Rightarrow> False)"

definition stop_sessions :: "nat list \<Rightarrow> (nat \<Rightarrow> drain_session) \<Rightarrow> nat \<Rightarrow> drain_session" where
  "stop_sessions ss = fold (\<lambda>i f. if dn_finished (f i) then f else f(i := session_stop (f i))) ss"

definition drain_stop :: "rpc_drain \<Rightarrow> rpc_drain" where
  "drain_stop d =
     (case dr_phase d of
        Grace ss g t \<Rightarrow> d\<lparr>dr_table := stop_sessions ss (dr_table d), dr_phase := Cleanup ss t\<rparr>
      | _ \<Rightarrow> d)"

text \<open>A session's work is its own task and the one that runs \<open>finish\<close>.\<close>

definition work_done :: "drain_session \<Rightarrow> bool" where
  "work_done s = (dn_task_done s \<and> dn_grace_done s)"

definition cleanup_over :: "rpc_drain \<Rightarrow> bool" where
  "cleanup_over d =
     (case dr_phase d of
        Cleanup ss t \<Rightarrow> list_all (\<lambda>i. work_done (dr_table d i)) ss \<or> t \<le> dr_now d
      | _ \<Rightarrow> False)"

text \<open>The tasks still pending are cancelled, with a warning.\<close>

definition drain_end :: "rpc_drain \<Rightarrow> rpc_drain" where
  "drain_end d =
     (case dr_phase d of
        Cleanup ss t \<Rightarrow>
          (let pending = filter (\<lambda>i. \<not> work_done (dr_table d i)) ss in
           d\<lparr>dr_table := (\<lambda>i. if i \<in> set pending \<and> \<not> dn_task_done (dr_table d i) then (dr_table d i)\<lparr>dn_cancelled := True\<rparr> else dr_table d i),
             dr_phase := Drained ss (pending \<noteq> [])\<rparr>)
      | _ \<Rightarrow> d)"

definition snapshot :: "rpc_drain \<Rightarrow> nat list" where
  "snapshot d = (case dr_phase d of Grace ss g t \<Rightarrow> ss | Cleanup ss t \<Rightarrow> ss | Drained ss w \<Rightarrow> ss | _ \<Rightarrow> [])"

section \<open>Steps\<close>

inductive drain_step :: "rpc_drain \<Rightarrow> rpc_drain \<Rightarrow> bool" where
  Enter: "dr_table d i = session_new \<Longrightarrow> i \<notin> set (dr_sessions d) \<Longrightarrow> session_enter i d = Inr d' \<Longrightarrow> drain_step d d'"
| Connect: "i \<in> set (dr_sessions d) \<Longrightarrow> drain_step d (update_session i (session_connect is_rpc) d)"
| Begin: "i \<in> set (dr_sessions d) \<Longrightarrow> drain_step d (update_session i session_begin d)"
| Decide: "dn_connected (dr_table d i) \<Longrightarrow> dn_close (dr_table d i) = None \<Longrightarrow>
    drain_step d (update_session i (\<lambda>s. s\<lparr>dn_close := Some c\<rparr>) d)"
| Leave: "i \<in> set (dr_sessions d) \<Longrightarrow> drain_step d (session_leave i d)"
| TaskDone: "dn_finished (dr_table d i) \<Longrightarrow> drain_step d (update_session i (\<lambda>s. s\<lparr>dn_task_done := True\<rparr>) d)"
| Start: "drain_start timeout d = Inr d' \<Longrightarrow> drain_step d d'"
| Run: "dr_phase d = Draining t \<Longrightarrow> drain_step d (drain_run d)"
| Finish: "dr_phase d = Grace ss g t \<Longrightarrow> i \<in> set ss \<Longrightarrow> finish_starts (dr_table d i) \<Longrightarrow>
    drain_step d (update_session i (\<lambda>s. s\<lparr>dn_begun := True\<rparr>) d)"
| Fail: "dn_begun (dr_table d i) \<Longrightarrow> drain_step d (update_session i (\<lambda>s. s\<lparr>dn_failed := True\<rparr>) d)"
| GraceDone: "finish_over (dr_table d i) \<or> (\<exists>t. dr_phase d = Cleanup ss t) \<Longrightarrow>
    drain_step d (update_session i (\<lambda>s. s\<lparr>dn_grace_done := True\<rparr>) d)"
| Stop: "grace_over d \<Longrightarrow> drain_step d (drain_stop d)"
| End: "cleanup_over d \<Longrightarrow> drain_step d (drain_end d)"
| Tick: "0 \<le> q \<Longrightarrow> drain_step d (d\<lparr>dr_now := dr_now d + q\<rparr>)"

inductive_cases drain_stepE: "drain_step d d'"

section \<open>What draining guarantees\<close>

text \<open>Sessions and tasks never become less finished; sessions of the snapshot are handled when draining is over.\<close>

definition session_handled :: "drain_session \<Rightarrow> bool" where
  "session_handled s \<longleftrightarrow> dn_finished s \<or> dn_cancelled s"

definition drain_ok :: "rpc_drain \<Rightarrow> bool" where
  "drain_ok d \<longleftrightarrow>
     distinct (dr_sessions d)
     \<and> list_all (\<lambda>i. \<not> dn_finished (dr_table d i)) (dr_sessions d)
     \<and> (case dr_phase d of
          Draining t \<Rightarrow> 0 \<le> t
        | Grace ss g t \<Rightarrow> set (dr_sessions d) \<subseteq> set ss \<and> list_all (\<lambda>i. i \<in> set (dr_sessions d) \<or> dn_finished (dr_table d i)) ss
            \<and> g \<le> t
        | Cleanup ss t \<Rightarrow> set (dr_sessions d) \<subseteq> set ss \<and> list_all (\<lambda>i. session_handled (dr_table d i)) ss
            \<and> list_all (\<lambda>i. i \<in> set (dr_sessions d) \<or> dn_finished (dr_table d i)) ss
        | Drained ss w \<Rightarrow> set (dr_sessions d) \<subseteq> set ss \<and> list_all (\<lambda>i. session_handled (dr_table d i)) ss
            \<and> (w \<or> list_all (\<lambda>i. work_done (dr_table d i)) ss)
        | Serving \<Rightarrow> True)
     \<and> (\<forall>i. dn_task_done (dr_table d i) \<longrightarrow> dn_finished (dr_table d i))
     \<and> (\<forall>i. dn_close (dr_table d i) \<noteq> None \<longrightarrow> dn_connected (dr_table d i))"

lemma stop_sessions_other: "i \<notin> set ss \<Longrightarrow> stop_sessions ss f i = f i"
  by (induction ss arbitrary: f) (simp_all add: stop_sessions_def)

lemma session_stop_simps [simp]:
  "dn_finished (session_stop s) = dn_finished s" "dn_cancelled (session_stop s)"
  "dn_connected (session_stop s) = dn_connected s" "dn_grace_done (session_stop s) = dn_grace_done s" "dn_task_done (session_stop s) = dn_task_done s"
  "dn_close (session_stop s) = (if dn_connected s \<and> dn_close s = None
     then Some (Close_SERVICE_RESTART, ''Server restarting'') else dn_close s)"
  by (simp_all add: session_stop_def)

text \<open>Stopping leaves what is finished as it is, and of the others it stops those of the list.\<close>

lemma stop_sessions_at:
  "dn_finished (stop_sessions ss f i) = dn_finished (f i) \<and> dn_task_done (stop_sessions ss f i) = dn_task_done (f i)
   \<and> dn_grace_done (stop_sessions ss f i) = dn_grace_done (f i)
   \<and> dn_connected (stop_sessions ss f i) = dn_connected (f i)
   \<and> (dn_finished (f i) \<longrightarrow> stop_sessions ss f i = f i)
   \<and> (dn_close (stop_sessions ss f i) = dn_close (f i) \<or> dn_close (f i) = None \<and> dn_connected (f i)
        \<and> dn_close (stop_sessions ss f i) = Some (Close_SERVICE_RESTART, ''Server restarting''))
   \<and> (dn_cancelled (f i) \<longrightarrow> dn_cancelled (stop_sessions ss f i))
   \<and> (dn_close (f i) \<noteq> None \<longrightarrow> dn_close (stop_sessions ss f i) = dn_close (f i))"
proof (induction ss arbitrary: f)
  case (Cons j ss)
  let ?f = "if dn_finished (f j) then f else f(j := session_stop (f j))"
  have e: "stop_sessions (j # ss) f = stop_sessions ss ?f" by (simp add: stop_sessions_def)
  show ?case unfolding e using Cons.IH [of ?f] by (cases "i = j") (auto split: if_splits)
qed (simp add: stop_sessions_def)

lemma stop_sessions_in:
  "i \<in> set ss \<Longrightarrow> \<not> dn_finished (f i) \<Longrightarrow> dn_cancelled (stop_sessions ss f i)
     \<and> (dn_connected (f i) \<longrightarrow> dn_close (stop_sessions ss f i) \<noteq> None)"
proof (induction ss arbitrary: f)
  case (Cons j ss)
  let ?f = "if dn_finished (f j) then f else f(j := session_stop (f j))"
  have e: "stop_sessions (j # ss) f = stop_sessions ss ?f" by (simp add: stop_sessions_def)
  show ?case
  proof (cases "i = j")
    case True
    with Cons.prems have "?f i = session_stop (f i)" by simp
    with Cons.prems stop_sessions_at [of ss ?f i] show ?thesis unfolding e by (auto split: if_splits)
  next
    case False
    with Cons.prems have "i \<in> set ss" "?f i = f i" by auto
    with Cons.IH [of ?f] Cons.prems show ?thesis unfolding e by simp
  qed
qed simp

text \<open>What every step of one session keeps.\<close>

definition session_le :: "drain_session \<Rightarrow> drain_session \<Rightarrow> bool" where
  "session_le s s' \<longleftrightarrow>
     (dn_finished s \<longrightarrow> dn_finished s') \<and> (dn_cancelled s \<longrightarrow> dn_cancelled s')
     \<and> (dn_task_done s \<longrightarrow> dn_task_done s') \<and> (dn_grace_done s \<longrightarrow> dn_grace_done s') \<and> (dn_connected s \<longrightarrow> dn_connected s')
     \<and> (dn_close s \<noteq> None \<longrightarrow> dn_close s' = dn_close s)"

lemma drain_ok_update:
  assumes "drain_ok d" "session_le (dr_table d i) s"
    and "dn_finished s = dn_finished (dr_table d i)"
    and "dn_task_done s \<longrightarrow> dn_finished s" "dn_close s \<noteq> None \<longrightarrow> dn_connected s"
  shows "drain_ok (update_session i (\<lambda>_. s) d)"
proof -
  have h: "session_handled (dr_table d i) \<Longrightarrow> session_handled s"
    using assms(2,3) by (auto simp: session_handled_def session_le_def)
  have t: "work_done (dr_table d i) \<Longrightarrow> work_done s" using assms(2) by (simp add: session_le_def work_done_def)
  show ?thesis
    using assms(1,3-5) h t
    by (cases "dr_phase d") (auto simp: drain_ok_def update_session_def list_all_iff)
qed

lemma drain_ok_enter:
  assumes "drain_ok d" "dr_table d i = session_new" "i \<notin> set (dr_sessions d)" "session_enter i d = Inr d'"
  shows "drain_ok d'"
  using assms by (auto simp: drain_ok_def session_enter_def is_draining_def session_new_def list_all_iff split: if_splits)

lemma drain_ok_leave:
  assumes "drain_ok d" "i \<in> set (dr_sessions d)"
  shows "drain_ok (session_leave i d)"
  using assms
  by (cases "dr_phase d")
    (auto simp: drain_ok_def session_leave_def update_session_def session_exit_def list_all_iff session_handled_def
      work_done_def dest: notin_set_remove1)

lemma drain_ok_stop: "drain_ok d \<Longrightarrow> drain_ok (drain_stop d)"
proof (cases "dr_phase d")
  case (Grace ss g t)
  assume ok: "drain_ok d"
  have "session_handled (stop_sessions ss (dr_table d) i)" if "i \<in> set ss" for i
    using stop_sessions_in [OF that, of "dr_table d"] stop_sessions_at [of ss "dr_table d" i]
    by (cases "dn_finished (dr_table d i)") (auto simp: session_handled_def)
  moreover have "dn_close (stop_sessions ss (dr_table d) i) \<noteq> None \<longrightarrow> dn_connected (stop_sessions ss (dr_table d) i)" for i
    using stop_sessions_at [of ss "dr_table d" i] ok by (auto simp: drain_ok_def)
  ultimately show ?thesis
    using ok Grace stop_sessions_at [of ss "dr_table d"]
    by (simp add: drain_ok_def drain_stop_def list_all_iff)
qed (simp_all add: drain_stop_def)

lemma drain_ok_end: "drain_ok d \<Longrightarrow> drain_ok (drain_end d)"
proof (cases "dr_phase d")
  case (Cleanup ss t)
  assume "drain_ok d"
  with Cleanup show ?thesis
    by (auto simp: drain_ok_def drain_end_def list_all_iff session_handled_def Let_def filter_empty_conv work_done_def)
qed (simp_all add: drain_end_def)

lemma drain_ok_run: "drain_ok d \<Longrightarrow> dr_phase d = Draining t \<Longrightarrow> drain_ok (drain_run d)"
  by (simp add: drain_ok_def drain_run_def list_all_iff)

lemma update_session_const: "update_session i f d = update_session i (\<lambda>_. f (dr_table d i)) d"
  by (simp add: update_session_def)

lemma drain_ok_step: "drain_step d d' \<Longrightarrow> drain_ok d \<Longrightarrow> drain_ok d'"
proof (induction rule: drain_step.induct)
  case (Enter d i d')
  then show ?case by (blast intro: drain_ok_enter)
next
  case (Connect i d is_rpc)
  then show ?case
    by (subst update_session_const)
      (rule drain_ok_update; auto simp: session_le_def session_connect_def drain_ok_def)
next
  case (Begin i d)
  then show ?case
    by (subst update_session_const)
      (rule drain_ok_update; auto simp: session_le_def session_begin_def drain_ok_def)
next
  case (Decide d i c)
  then show ?case
    by (subst update_session_const) (rule drain_ok_update; auto simp: session_le_def drain_ok_def)
next
  case (Leave i d)
  then show ?case by (blast intro: drain_ok_leave)
next
  case (TaskDone d i)
  then show ?case
    by (subst update_session_const) (rule drain_ok_update; auto simp: session_le_def drain_ok_def)
next
  case (Start timeout d d')
  then show ?case
    by (auto simp: drain_start_def is_draining_def drain_ok_def list_all_iff split: if_splits)
next
  case (Run d t)
  then show ?case by (blast intro: drain_ok_run)
next
  case (Finish d ss g t i)
  then show ?case
    by (subst update_session_const) (rule drain_ok_update; auto simp: session_le_def drain_ok_def)
next
  case (Fail d i)
  then show ?case
    by (subst update_session_const) (rule drain_ok_update; auto simp: session_le_def drain_ok_def)
next
  case (GraceDone d i ss)
  then show ?case
    by (subst update_session_const) (rule drain_ok_update; auto simp: session_le_def drain_ok_def)
next
  case (Stop d)
  then show ?case by (blast intro: drain_ok_stop)
next
  case (End d)
  then show ?case by (blast intro: drain_ok_end)
next
  case (Tick q d)
  then show ?case by (cases "dr_phase d") (auto simp: drain_ok_def)
qed

lemma drain_reachable_ok: "drain_step\<^sup>*\<^sup>* (drain_init now) d \<Longrightarrow> drain_ok d"
  by (induction rule: rtranclp_induct) (simp_all add: drain_ok_step, simp add: drain_ok_def drain_init_def session_new_def)

lemma drain_step_one_way:
  "drain_step d d' \<Longrightarrow> is_draining d \<Longrightarrow> is_draining d' \<and> set (dr_sessions d') \<subseteq> set (dr_sessions d)"
  by (induction rule: drain_step.induct)
    (auto simp: session_enter_def is_draining_def update_session_def session_leave_def drain_start_def drain_run_def
      drain_stop_def drain_end_def Let_def split: if_splits drain_phase.splits dest: notin_set_remove1 subsetD [OF set_remove1_subset])

lemma drain_ends:
  assumes "dr_phase d = Cleanup ss t" "t \<le> dr_now d"
  shows "\<exists>w. drain_step d (drain_end d) \<and> dr_phase (drain_end d) = Drained ss w"
proof -
  have "cleanup_over d" using assms by (simp add: cleanup_over_def)
  then have "drain_step d (drain_end d)" by (rule End)
  moreover have "\<exists>w. dr_phase (drain_end d) = Drained ss w" using assms(1) by (simp add: drain_end_def Let_def)
  ultimately show ?thesis by blast
qed

text \<open>C27. Draining is one-way: once \<open>drain\<close> was called with a valid timeout, every handshake is refused as
  unavailable, whatever happens afterwards, and no session is added; a call with another timeout does not
  change the drain under way.\<close>

theorem draining_refuses:
  assumes "drain_step\<^sup>*\<^sup>* (drain_init now) d" and "is_draining d" and "drain_step\<^sup>*\<^sup>* d d'"
  shows "session_enter i d' = Inl (Rej_UNAVAILABLE, ''Server restarting'')
    \<and> set (dr_sessions d') \<subseteq> set (dr_sessions d) \<and> connection_count d' \<le> connection_count d
    \<and> (drain_start timeout d' = Inr d'' \<longrightarrow> d'' = d')"
proof -
  from assms(3,2) have s: "is_draining d' \<and> set (dr_sessions d') \<subseteq> set (dr_sessions d)"
    by (induction rule: rtranclp_induct) (auto dest: drain_step_one_way)
  have "distinct (dr_sessions d)" "distinct (dr_sessions d')"
    using drain_reachable_ok assms(1) rtranclp_trans [OF assms(1,3)] by (simp_all add: drain_ok_def)
  with s have "length (dr_sessions d') \<le> length (dr_sessions d)"
    by (metis List.finite_set card_mono distinct_card)
  with s show ?thesis by (auto simp: session_enter_def connection_count_def drain_start_def split: if_splits)
qed

text \<open>C24. A drain comes to its end: at the deadline it ends whatever the sessions do, within two steps; in the
  grace period a tenth of the timeout is left for cleaning up; and when it has ended, every session that was
  served when it began has finished or has had its task cancelled, with the warning given unless all
  tasks are done.\<close>

theorem drain_completes:
  assumes "drain_step\<^sup>*\<^sup>* (drain_init now) d"
  shows "(\<forall>ss g t. dr_phase d = Grace ss g t \<longrightarrow> t \<le> dr_now d \<longrightarrow>
        (\<exists>d1 d2 w. drain_step d d1 \<and> drain_step d1 d2 \<and> dr_phase d2 = Drained ss w))
    \<and> (\<forall>ss t. dr_phase d = Cleanup ss t \<longrightarrow> t \<le> dr_now d \<longrightarrow> (\<exists>d1 w. drain_step d d1 \<and> dr_phase d1 = Drained ss w))
    \<and> (\<forall>t. dr_phase d = Draining t \<longrightarrow>
        (\<exists>d1. drain_step d d1 \<and> dr_phase d1 = Grace (dr_sessions d) (dr_now d + t * (9 / 10)) (dr_now d + t)))
    \<and> (\<forall>ss w. dr_phase d = Drained ss w \<longrightarrow>
        set (dr_sessions d) \<subseteq> set ss \<and> list_all (\<lambda>i. session_handled (dr_table d i)) ss
        \<and> (w \<or> list_all (\<lambda>i. work_done (dr_table d i)) ss))"
proof (intro conjI allI impI)
  note ok = drain_reachable_ok [OF assms]
  fix ss g t assume p: "dr_phase d = Grace ss g t" "t \<le> dr_now d"
  have "g \<le> t" using ok p(1) by (simp add: drain_ok_def)
  with p have "drain_step d (drain_stop d)" by (intro Stop) (simp add: grace_over_def)
  moreover have "dr_phase (drain_stop d) = Cleanup ss t" "dr_now (drain_stop d) = dr_now d"
    using p(1) by (simp_all add: drain_stop_def)
  with drain_ends p(2) have "\<exists>w. drain_step (drain_stop d) (drain_end (drain_stop d)) \<and> dr_phase (drain_end (drain_stop d)) = Drained ss w"
    by simp
  ultimately show "\<exists>d1 d2 w. drain_step d d1 \<and> drain_step d1 d2 \<and> dr_phase d2 = Drained ss w" by blast
next
  fix ss t assume "dr_phase d = Cleanup ss t" "t \<le> dr_now d"
  with drain_ends show "\<exists>d1 w. drain_step d d1 \<and> dr_phase d1 = Drained ss w" by blast
next
  fix t assume t: "dr_phase d = Draining t"
  then have "drain_step d (drain_run d)" by (rule Run)
  with t show "\<exists>d1. drain_step d d1 \<and> dr_phase d1 = Grace (dr_sessions d) (dr_now d + t * (9 / 10)) (dr_now d + t)"
    by (intro exI [of _ "drain_run d"]) (simp add: drain_run_def)
next
  fix ss w assume "dr_phase d = Drained ss w"
  with drain_reachable_ok [OF assms]
  show "set (dr_sessions d) \<subseteq> set ss" "list_all (\<lambda>i. session_handled (dr_table d i)) ss"
    "w \<or> list_all (\<lambda>i. work_done (dr_table d i)) ss" by (simp_all add: drain_ok_def)
qed

text \<open>Stopping a session keeps a close that is decided already: at the end of the grace period every unfinished
  session of the drain is cancelled, a connection without a decided close is closed for the restart, and
  finished sessions and decided closes stay as they are.\<close>

lemma drain_stop_effect:
  assumes "dr_phase d = Grace ss g t" and "i \<in> set ss"
  shows "(if dn_finished (dr_table d i) then dr_table (drain_stop d) i = dr_table d i
     else dn_cancelled (dr_table (drain_stop d) i)
       \<and> dn_close (dr_table (drain_stop d) i) =
           (if dn_connected (dr_table d i) \<and> dn_close (dr_table d i) = None
            then Some (Close_SERVICE_RESTART, ''Server restarting'') else dn_close (dr_table d i)))"
  using assms stop_sessions_at [of ss "dr_table d" i] stop_sessions_in [OF assms(2), of "dr_table d"]
  by (auto simp: drain_stop_def)

section \<open>A drain\<close>

text \<open>One session, which does not finish: it is stopped and the drain ends with a warning.\<close>

definition one_served :: rpc_drain where
  "one_served =
     \<lparr>dr_sessions = [0], dr_table = (\<lambda>i. session_new), dr_phase = Serving, dr_now = 0\<rparr>"

definition one_draining :: rpc_drain where
  "one_draining =
     \<lparr>dr_sessions = [0], dr_table = (\<lambda>i. session_new), dr_phase = Draining 2, dr_now = 0\<rparr>"

definition one_in_grace :: "rat \<Rightarrow> rpc_drain" where
  "one_in_grace now =
     \<lparr>dr_sessions = [0], dr_table = (\<lambda>i. session_new), dr_phase = Grace [0] (9 / 5) 2, dr_now = now\<rparr>"

lemma one_served_step: "drain_step (drain_init 0) one_served"
proof (rule Enter [of _ 0])
  show "session_enter 0 (drain_init 0) = Inr one_served"
    by (simp add: session_enter_def is_draining_def drain_init_def one_served_def fun_upd_idem)
qed (simp_all add: drain_init_def)

lemma one_draining_step: "drain_step one_served one_draining"
  by (rule Start [of "NumInt 2"]) (simp add: drain_start_def is_draining_def one_served_def one_draining_def)

lemma one_grace_step: "drain_step one_draining (one_in_grace 0)"
proof -
  have "drain_run one_draining = one_in_grace 0" by (simp add: drain_run_def one_draining_def one_in_grace_def)
  with Run [of one_draining 2] show ?thesis by (simp add: one_draining_def)
qed

lemma one_tick_step: "drain_step (one_in_grace 0) (one_in_grace 2)"
  using Tick [of 2 "one_in_grace 0"] by (simp add: one_in_grace_def)

lemma one_draining_run: "drain_step\<^sup>*\<^sup>* (drain_init 0) one_draining"
  using one_served_step one_draining_step by (meson r_into_rtranclp rtranclp_trans)

lemma one_grace_run: "drain_step\<^sup>*\<^sup>* one_draining (one_in_grace 2)"
  using one_grace_step one_tick_step by (meson r_into_rtranclp rtranclp_trans)

lemma draining_refuses_witness:
  "session_enter 1 (one_in_grace 2) = Inl (Rej_UNAVAILABLE, ''Server restarting'')"
proof -
  have "is_draining one_draining" by (simp add: is_draining_def one_draining_def)
  from draining_refuses [OF one_draining_run this one_grace_run] show ?thesis by blast
qed

lemma drain_completes_witness:
  "\<exists>d1 d2 w. drain_step (one_in_grace 2) d1 \<and> drain_step d1 d2 \<and> dr_phase d2 = Drained [0] w"
proof -
  have r: "drain_step\<^sup>*\<^sup>* (drain_init 0) (one_in_grace 2)" using one_draining_run one_grace_run by (rule rtranclp_trans)
  have p: "dr_phase (one_in_grace 2) = Grace [0] (9 / 5) 2" "2 \<le> dr_now (one_in_grace 2)"
    by (simp_all add: one_in_grace_def)
  from conjunct1 [OF drain_completes [OF r], rule_format, OF p] show ?thesis .
qed

end
