(* ===== verification/Resolvers.thy ===== *)
theory Resolvers
  imports Server
begin

text \<open>
  \<open>dependencies.py\<close>: the resolvers that handlers get their injected arguments from. The resolvers of the user are
  given by the record \<open>resolvers\<close>: what each resolves, and what its \<open>enter_scope\<close> and \<open>enter_connection\<close> yield,
  where it has them. Only the entry of a scope is modelled here; its exit is the resolver's own.
\<close>

section \<open>Resolvers\<close>

datatype 'o provider =
    EmptyResolver
  | FunctionResolver "pyclass \<Rightarrow> exc + 'o"
  | UserResolver nat
  | ContextResolver "'o provider" "(pyclass, 'o) dict"

record 'o resolvers =
  us_resolve :: "nat \<Rightarrow> pyclass \<Rightarrow> exc + 'o"
  us_scope :: "nat \<Rightarrow> (exc + nat) option"
  us_connection :: "nat \<Rightarrow> ((pyclass, 'o) dict \<Rightarrow> exc + nat) option"

text \<open>A value of the context is found before the resolver is asked. The value of a function is awaited when it is
  awaitable.\<close>

primrec resolve_in :: "'o resolvers \<Rightarrow> 'o provider \<Rightarrow> pyclass \<Rightarrow> exc + 'o" where
  "resolve_in us EmptyResolver d =
     Inl (PlainExc (builtin_class 44 ''LookupError'' [2, 1, 0])
       (''No RPC resolver is configured for dependency '' @ cls_name d))"
| "resolve_in us (FunctionResolver f) d = f d"
| "resolve_in us (UserResolver n) d = us_resolve us n d"
| "resolve_in us (ContextResolver p vs) d =
     (case map_of vs d of Some x \<Rightarrow> Inr x | None \<Rightarrow> resolve_in us p d)"

datatype 'o resolver_like =
  ResolverUnset | ResolverUser nat | ResolverContext "'o provider" "(pyclass, 'o) dict"
| ResolverFunction "pyclass \<Rightarrow> exc + 'o" | ResolverOther

definition as_resolver :: "'o resolver_like \<Rightarrow> exc + 'o provider" where
  "as_resolver r =
     (case r of
        ResolverUnset \<Rightarrow> Inr EmptyResolver
      | ResolverUser n \<Rightarrow> Inr (UserResolver n)
      | ResolverContext p vs \<Rightarrow> Inr (ContextResolver p vs)
      | ResolverFunction f \<Rightarrow> Inr (FunctionResolver f)
      | ResolverOther \<Rightarrow> Inl (type_error ''resolver must implement resolve() or be callable''))"

section \<open>Context values and scopes\<close>

datatype 'o context_like = ContextNotGiven | ContextMapping "(pyclass, 'o) dict" | ContextObject pyclass 'o

definition context_values :: "'o context_like \<Rightarrow> (pyclass, 'o) dict" where
  "context_values c =
     (case c of ContextNotGiven \<Rightarrow> [] | ContextMapping m \<Rightarrow> m | ContextObject k x \<Rightarrow> [(k, x)])"

definition with_values :: "'o provider \<Rightarrow> (pyclass, 'o) dict \<Rightarrow> 'o provider" where
  "with_values p vs = (if vs = [] then p else ContextResolver p vs)"

definition resolver_with_context :: "'o resolver_like \<Rightarrow> 'o context_like \<Rightarrow> exc + 'o provider" where
  "resolver_with_context r c = rbind (as_resolver r) (\<lambda>p. Inr (with_values p (context_values c)))"

text \<open>A context resolver enters the scope of what is below it and keeps its values; it has no \<open>enter_connection\<close>.\<close>

primrec call_scope :: "'o resolvers \<Rightarrow> 'o provider \<Rightarrow> exc + 'o provider" where
  "call_scope us EmptyResolver = Inr EmptyResolver"
| "call_scope us (FunctionResolver f) = Inr (FunctionResolver f)"
| "call_scope us (UserResolver n) =
     (case us_scope us n of None \<Rightarrow> Inr (UserResolver n) | Some r \<Rightarrow> rbind r (\<lambda>m. Inr (UserResolver m)))"
| "call_scope us (ContextResolver p vs) = rbind (call_scope us p) (\<lambda>p'. Inr (ContextResolver p' vs))"

definition connection_scope :: "'o resolvers \<Rightarrow> 'o provider \<Rightarrow> 'o context_like \<Rightarrow> exc + 'o provider" where
  "connection_scope us p c =
     (let vs = context_values c in
      case (case p of UserResolver n \<Rightarrow> us_connection us n | _ \<Rightarrow> None) of
        None \<Rightarrow> Inr (with_values p vs)
      | Some enter \<Rightarrow> rbind (enter vs) (\<lambda>m. Inr (with_values (UserResolver m) vs)))"

section \<open>What handlers get\<close>

lemma with_values_resolve:
  "resolve_in us (with_values p vs) d = (case map_of vs d of Some x \<Rightarrow> Inr x | None \<Rightarrow> resolve_in us p d)"
  by (cases vs) (simp_all add: with_values_def)

primrec call_scopes :: "'o resolvers \<Rightarrow> nat \<Rightarrow> 'o provider \<Rightarrow> exc + 'o provider" where
  "call_scopes us 0 p = Inr p"
| "call_scopes us (Suc n) p = rbind (call_scope us p) (call_scopes us n)"

lemma call_scopes_context:
  "call_scopes us n (ContextResolver p vs) = Inr q \<Longrightarrow>
   \<exists>p'. call_scopes us n p = Inr p' \<and> q = ContextResolver p' vs"
  by (induction n arbitrary: p) (auto simp: rbind_eq_Inr)

text \<open>Whatever scopes are entered, a handler gets the value of the context, and only without one the resolver's.\<close>

lemma context_values_win:
  assumes "connection_scope us p c = Inr q" "call_scopes us n q = Inr q'" "map_of (context_values c) d = Some x"
  shows "resolve_in us q' d = Inr x"
proof -
  from assms(1,3) obtain p0 where "q = ContextResolver p0 (context_values c)"
    by (auto simp: connection_scope_def with_values_def Let_def rbind_eq_Inr split: option.splits if_splits)
  with call_scopes_context assms(2) obtain p' where "q' = ContextResolver p' (context_values c)" by blast
  with assms(3) show ?thesis by simp
qed

end
