(* ===== verification/Handshake.thy ===== *)
theory Handshake
  imports Service RawSockets Resolvers
begin

text \<open>
  \<open>runtime.py\<close>: a connection from its handshake to its end, around the run of the connection that \<open>Runtime\<close>,
  \<open>Streams\<close> and \<open>RawSockets\<close> model. \<open>_prepare\<close> answers the handshake; \<open>_accepted\<close> and the \<open>except\<close> and
  \<open>finally\<close> clauses of \<open>_run_rpc_endpoint\<close>, \<open>_run_stream_endpoint\<close> and \<open>_run_raw_socket\<close> close the socket.
  Only cancellation is modelled among the exceptions that are no \<open>Exception\<close>; \<open>socket.close\<close> raises nothing but
  the \<open>RpcDisconnect\<close> that is suppressed.
\<close>

section \<open>Answering a handshake\<close>

datatype socket_action =
    Accepting "string option"
  | Rejecting rejection string "(string, string) dict option"
  | Closing conn_close string

text \<open>What is told to the scope of the connection middleware: \<open>_record_error\<close> and \<open>_record_rejection\<close>.\<close>

datatype recorded = NoteError exc | NoteRejection rejection

datatype 'o hook = HookValues "(pyclass, 'o) dict option" | HookRaises exc | HookCancelled

text \<open>
  The arguments of the serving and what happens to it. \<open>ar_path_model\<close>: the class of the path model with its
  validation, where \<open>None\<close> is a \<open>ValidationError\<close>, which yields the model and its fields; \<open>ar_connection\<close>: the
  \<open>RpcConnection\<close> as a value for handlers; \<open>ar_expiry\<close>: whether a value is an \<open>RpcConnectionExpiry\<close>, which
  was validated when it was made; \<open>ar_accept\<close> and \<open>ar_reject\<close>: what the socket raises; \<open>ar_draining\<close>: the
  service drains when the hook has returned.
\<close>

record 'o arrival =
  ar_resolver :: "'o resolver_like"
  ar_context :: "'o context_like"
  ar_path_model :: "(pyclass \<times> ((string, string) dict \<Rightarrow> exc + ('o \<times> (string, 'o) dict) option)) option"
  ar_before_accept :: "(handshake \<Rightarrow> 'o hook) option"
  ar_rejections :: "rejections option"
  ar_connection :: 'o
  ar_expiry :: "'o \<Rightarrow> rat option"
  ar_accept :: "exc option"
  ar_reject :: "exc option"
  ar_draining :: bool

datatype 'o prepared =
    Refused
  | Ready connection "'o provider" "(pyclass, 'o) dict" "(string, 'o) dict"
  | PrepareRaises exc
  | PrepareCancelled
  | NotFrozen service_error

definition cls_RpcConnection :: pyclass where
  "cls_RpcConnection = builtin_class 45 ''RpcConnection'' [0]"

definition cls_RpcConnectionExpiry :: pyclass where
  "cls_RpcConnectionExpiry = builtin_class 46 ''RpcConnectionExpiry'' [0]"

text \<open>The path parameters of the handshake, or else those of the endpoint's path.\<close>

definition handshake_params :: "endpoint \<Rightarrow> handshake \<Rightarrow> (string, string) dict" where
  "handshake_params e hs =
     (if hs_path_params hs \<noteq> [] then hs_path_params hs
      else case endpoint_match e (hs_path hs) of Some vs \<Rightarrow> vs | None \<Rightarrow> [])"

type_synonym 'o answer = "socket_action list \<times> recorded list \<times> 'o prepared"

definition refuse :: "'o arrival \<Rightarrow> recorded list \<Rightarrow> rejection \<Rightarrow> string \<Rightarrow> (string, string) dict option \<Rightarrow> 'o answer" where
  "refuse ar notes r reason headers =
     ([Rejecting r reason headers], notes @ [NoteRejection r],
      case ar_reject ar of None \<Rightarrow> Refused | Some e \<Rightarrow> PrepareRaises e)"

text \<open>After the hook: the expiry, the drain and the accept.\<close>

definition finish_handshake ::
  "rat \<Rightarrow> rat \<Rightarrow> endpoint \<Rightarrow> 'o arrival \<Rightarrow> 'o provider \<Rightarrow> connection \<Rightarrow> (pyclass, 'o) dict \<Rightarrow> (string, 'o) dict \<Rightarrow>
   'o answer" where
  "finish_handshake clock wall e ar p c vs path_values =
     (let expiry = (case map_of vs cls_RpcConnectionExpiry of Some x \<Rightarrow> ar_expiry ar x | None \<Rightarrow> None);
          c' = (case expiry of Some t \<Rightarrow> arm_expiry clock wall (c\<lparr>con_expires_at := Some t\<rparr>) | None \<Rightarrow> c) in
      if ar_draining ar then refuse ar [] Rej_UNAVAILABLE ''Server restarting'' None
      else
        ([Accepting (ep_subprotocol e)], [],
         case ar_accept ar of
           None \<Rightarrow> Ready (con_accept clock wall c') p vs path_values
         | Some x \<Rightarrow> PrepareRaises x))"

definition hook_rejection :: "'o arrival \<Rightarrow> exc \<Rightarrow> rpc_reject" where
  "hook_rejection ar x =
     (case safe_rejection x (ar_rejections ar) of
        Some r \<Rightarrow> r
      | None \<Rightarrow> \<lparr>rej_rejection = Rej_INTERNAL_ERROR, rej_reason = ''Internal error'', rej_headers = None\<rparr>)"

definition run_hook ::
  "rat \<Rightarrow> rat \<Rightarrow> endpoint \<Rightarrow> handshake \<Rightarrow> 'o arrival \<Rightarrow> 'o provider \<Rightarrow> connection \<Rightarrow> (pyclass, 'o) dict \<Rightarrow>
   (string, 'o) dict \<Rightarrow> 'o answer" where
  "run_hook clock wall e hs ar p c vs path_values =
     (case (case ar_before_accept ar of None \<Rightarrow> HookValues None | Some f \<Rightarrow> f hs) of
        HookValues new \<Rightarrow>
          finish_handshake clock wall e ar p c
            (case new of None \<Rightarrow> vs | Some m \<Rightarrow> fold (\<lambda>(k, x). dict_set k x) m vs) path_values
      | HookRaises x \<Rightarrow>
          (let r = hook_rejection ar x in
           refuse ar [NoteError x] (rej_rejection r) (rej_reason r) (rej_headers r))
      | HookCancelled \<Rightarrow> ([], [], PrepareCancelled))"

definition check_path ::
  "rat \<Rightarrow> rat \<Rightarrow> endpoint \<Rightarrow> handshake \<Rightarrow> 'o arrival \<Rightarrow> 'o provider \<Rightarrow> connection \<Rightarrow> (pyclass, 'o) dict \<Rightarrow> 'o answer" where
  "check_path clock wall e hs ar p c vs =
     (case ar_path_model ar of
        None \<Rightarrow> run_hook clock wall e hs ar p c vs []
      | Some (k, validate) \<Rightarrow>
          (case validate (handshake_params e hs) of
             Inl x \<Rightarrow> ([], [], PrepareRaises x)
           | Inr None \<Rightarrow> refuse ar [] Rej_NOT_FOUND ''Invalid path variable'' None
           | Inr (Some (parsed, path_values)) \<Rightarrow>
               run_hook clock wall e hs ar p c (dict_set k parsed vs) path_values))"

definition prepare ::
  "pydantic \<Rightarrow> Service.world \<Rightarrow> rat \<Rightarrow> rat \<Rightarrow> service \<Rightarrow> endpoint \<Rightarrow> handshake \<Rightarrow> 'o arrival \<Rightarrow> 'o answer" where
  "prepare py w clock wall sv e hs ar =
     (case service_freeze py w sv of
        Inl x \<Rightarrow> ([], [], NotFrozen x)
      | Inr _ \<Rightarrow>
          (case as_resolver (ar_resolver ar) of
             Inl x \<Rightarrow> ([], [], PrepareRaises x)
           | Inr p \<Rightarrow>
               (let c = con_create (ep_name e) hs (Some (handshake_params e hs));
                    vs = dict_set cls_RpcConnection (ar_connection ar) (context_values (ar_context ar)) in
                if ep_subprotocol e \<noteq> None \<and> the (ep_subprotocol e) \<notin> set (hs_subprotocols hs)
                then refuse ar [] Rej_PROTOCOL_ERROR ''Unsupported subprotocol'' None
                else check_path clock wall e hs ar p c vs)))"

lemmas prepare_defs = prepare_def check_path_def run_hook_def finish_handshake_def refuse_def

section \<open>Closing the socket\<close>

text \<open>How the body of a connection ends; \<open>ExitCancelled True\<close>: by the expiry of the connection while it starts.\<close>

datatype run_exit = ExitReturned | ExitRaised exc | ExitCancelled bool

text \<open>The clauses around the body of each kind of connection. An RPC connection has no clause for exceptions.\<close>

definition run_end ::
  "endpoint_kind \<Rightarrow> rejections option \<Rightarrow> mapper \<Rightarrow> bound \<Rightarrow> run_exit \<Rightarrow> latch \<Rightarrow> latch \<times> run_exit" where
  "run_end kind rejections mapper closes x l =
     (case x of
        ExitReturned \<Rightarrow> (l, ExitReturned)
      | ExitCancelled b \<Rightarrow> (latch_cancelled l, ExitCancelled b)
      | ExitRaised e \<Rightarrow>
          (case kind of
             SocketEndpoint cs pm cw \<Rightarrow> (l, ExitRaised e)
           | StreamEndpoint s \<Rightarrow>
               (case close_stream_error rejections mapper e l of
                  Inl e' \<Rightarrow> (l, ExitRaised e')
                | Inr l' \<Rightarrow> (l', ExitReturned))
           | RawEndpoint d \<Rightarrow> (close_failure closes rejections e l, ExitReturned)))"

definition finish_run :: "latch \<times> run_exit \<Rightarrow> connection \<times> socket_action list \<times> run_exit" where
  "finish_run r =
     (case latch_finish (fst r) of
        (l, close) \<Rightarrow> (lt_con l, (case close of None \<Rightarrow> [] | Some (k, reason) \<Rightarrow> [Closing k reason]), snd r))"

text \<open>\<open>_accepted\<close>, with the state of the connection when its body is left.\<close>

definition exit_code :: "run_exit \<Rightarrow> connection \<Rightarrow> conn_close option" where
  "exit_code x c =
     (if con_closed c \<or> con_close_code c \<noteq> None then con_close_code c
      else case x of
             ExitReturned \<Rightarrow> None
           | ExitRaised e \<Rightarrow> Some Close_INTERNAL_ERROR
           | ExitCancelled expired \<Rightarrow> if expired then None else Some Close_SHUTDOWN)"

definition leave_accepted :: "run_exit \<Rightarrow> connection \<Rightarrow> connection \<times> socket_action list \<times> run_exit" where
  "leave_accepted x c0 =
     (let c = c0\<lparr>con_close_code := exit_code x c0, con_startup := None\<rparr>;
          x' = (if x = ExitCancelled True then ExitReturned else x) in
      if con_closed c then (c, [], x')
      else (mark_closed c,
            [Closing (case con_close_code c of None \<Rightarrow> Close_NORMAL | Some k \<Rightarrow> k) (con_close_reason c)], x'))"

text \<open>
  The body of \<open>_accepted\<close> either is left before the connection runs, or runs it with a latch of its own.
\<close>

datatype course = LeftEarly connection run_exit | Ran latch run_exit

definition serve_accepted ::
  "endpoint_kind \<Rightarrow> rejections option \<Rightarrow> mapper \<Rightarrow> bound \<Rightarrow> course \<Rightarrow> connection \<times> socket_action list \<times> run_exit" where
  "serve_accepted kind rejections mapper closes k =
     (case k of
        LeftEarly c x \<Rightarrow> leave_accepted x c
      | Ran l x \<Rightarrow>
          (case finish_run (run_end kind rejections mapper closes x l) of
             (c, sent, x') \<Rightarrow>
               (case leave_accepted x' c of (c', sent', x'') \<Rightarrow> (c', sent @ sent', x''))))"

section \<open>Every handshake is answered once\<close>

lemma refuse_cases:
  "refuse ar notes r reason headers = (sent, told, result) \<Longrightarrow>
   sent = [Rejecting r reason headers] \<and> told = notes @ [NoteRejection r]
   \<and> (result = Refused \<and> ar_reject ar = None \<or> (\<exists>x. ar_reject ar = Some x \<and> result = PrepareRaises x))"
  by (auto simp: refuse_def split: option.splits)

definition answered :: "endpoint \<Rightarrow> 'o arrival \<Rightarrow> 'o answer \<Rightarrow> bool" where
  "answered e ar a =
     (case a of (sent, told, result) \<Rightarrow>
        (case result of
           Ready c p vs path_values \<Rightarrow>
             sent = [Accepting (ep_subprotocol e)] \<and> told = [] \<and> con_accepted c \<and> \<not> con_closed c
             \<and> (con_timer c \<noteq> None) = (con_expires_at c \<noteq> None) \<and> \<not> ar_draining ar
         | Refused \<Rightarrow>
             (\<exists>r reason headers. sent = [Rejecting r reason headers] \<and> NoteRejection r = last told
                \<and> length (filter (\<lambda>n. \<exists>r. n = NoteRejection r) told) = 1)
         | PrepareRaises x \<Rightarrow>
             length sent \<le> 1 \<and> (sent = [] \<or> ar_accept ar = Some x \<or> ar_reject ar = Some x)
         | PrepareCancelled \<Rightarrow> sent = [] \<and> told = []
         | NotFrozen x \<Rightarrow> sent = [] \<and> told = []))"

lemma answered_refuse:
  "filter (\<lambda>n. \<exists>r. n = NoteRejection r) notes = [] \<Longrightarrow> answered e ar (refuse ar notes r reason headers)"
  by (auto simp: answered_def refuse_def split: option.split)

lemma answered_finish:
  "\<not> con_closed c \<Longrightarrow> answered e ar (finish_handshake clock wall e ar p c vs path_values)"
proof (cases "ar_draining ar")
  case True
  then show ?thesis by (simp add: finish_handshake_def Let_def answered_refuse)
next
  case False
  assume "\<not> con_closed c"
  with False show ?thesis
    by (auto simp: finish_handshake_def Let_def con_accept_def arm_expiry_def answered_def split: option.split)
qed

lemma answered_hook: "\<not> con_closed c \<Longrightarrow> answered e ar (run_hook clock wall e hs ar p c vs path_values)"
  by (auto simp: run_hook_def Let_def answered_refuse answered_finish split: option.split hook.split)
    (simp_all add: answered_def)

lemma answered_path: "\<not> con_closed c \<Longrightarrow> answered e ar (check_path clock wall e hs ar p c vs)"
  by (auto simp: check_path_def answered_refuse answered_hook split: option.split sum.split)
    (simp_all add: answered_def)

lemma con_create_open: "\<not> con_closed (con_create n hs ps)"
  by (simp add: con_create_def)

lemma prepare_answered: "answered e ar (prepare py w clock wall sv e hs ar)"
  by (auto simp: prepare_def Let_def answered_refuse answered_path con_create_open split: sum.split)
    (simp_all add: answered_def)

text \<open>A handshake is answered at most once, and exactly once when the serving goes on or the client is refused: a
  connection that is served was accepted with the subprotocol of the endpoint, which the client offered, while
  the service did not drain, and its expiry timer is armed exactly when it has an expiry; for a refused one the
  rejection that was sent is the one that was recorded, once. Otherwise the freeze, the resolver, the path
  model, the hook or the socket itself raised.\<close>

theorem handshake_answered_once:
  "answered e ar (prepare py w clock wall sv e hs ar)
   \<and> (case prepare py w clock wall sv e hs ar of
        (sent, told, Ready c p vs path_values) \<Rightarrow> ep_subprotocol e \<in> insert None (Some ` set (hs_subprotocols hs))
      | _ \<Rightarrow> True)"
proof
  show "answered e ar (prepare py w clock wall sv e hs ar)" by (rule prepare_answered)
  have "ep_subprotocol e \<in> insert None (Some ` set (hs_subprotocols hs))"
    if "prepare py w clock wall sv e hs ar = (sent, told, Ready c p vs path_values)" for sent told c p vs path_values
    using that
    by (cases "ep_subprotocol e") (auto simp: prepare_def Let_def refuse_def split: sum.splits if_splits option.splits)
  then show "case prepare py w clock wall sv e hs ar of
        (sent, told, Ready c p vs path_values) \<Rightarrow> ep_subprotocol e \<in> insert None (Some ` set (hs_subprotocols hs))
      | _ \<Rightarrow> True"
    by (auto split: prod.split prepared.split)
qed

section \<open>Every connection is closed once\<close>

definition course_ok :: "course \<Rightarrow> bool" where
  "course_ok k =
     (case k of
        LeftEarly c x \<Rightarrow> \<not> con_closed c
      | Ran l x \<Rightarrow>
          \<not> con_closed (lt_con l)
          \<and> (if lt_closing l then latch_ok l
             else lt_code l = Close_NORMAL \<and> lt_reason l = [] \<and> con_close_code (lt_con l) = None
               \<and> con_close_reason (lt_con l) = []))"

definition client_left :: "course \<Rightarrow> bool" where
  "client_left k = (case k of LeftEarly c x \<Rightarrow> False | Ran l x \<Rightarrow> lt_client_closed l)"

lemma stream_request_keeps:
  "lt_client_closed (stream_request_close code reason raw l) = lt_client_closed l"
  "con_closed (lt_con (stream_request_close code reason raw l)) = con_closed (lt_con l)"
  by (simp_all add: stream_request_close_def latch_close_def)

lemma course_ok_request: "course_ok (Ran l x) \<Longrightarrow> course_ok (Ran (stream_request_close code reason raw l) y)"
  by (auto simp: course_ok_def stream_request_close_def latch_close_def latch_ok_def)

lemma course_ok_cancelled: "course_ok (Ran l x) \<Longrightarrow>
  (let l' = latch_cancelled l in \<not> con_closed (lt_con l') \<and> con_close_code (lt_con l') = Some (lt_code l')
     \<and> con_close_reason (lt_con l') = lt_reason l')"
  by (simp add: course_ok_def latch_cancelled_def Let_def)

lemma close_stream_error_request:
  "close_stream_error rejections mapper e l = Inr l' \<Longrightarrow> \<exists>code reason. l' = stream_request_close code reason None l"
  by (auto simp: close_stream_error_def rbind_eq_Inr split: exc.splits option.splits)

lemma close_failure_request: "\<exists>code reason. close_failure closes rejections e l = stream_request_close code reason None l"
  by (auto simp: close_failure_def split: option.split)

text \<open>After the clauses of the body: the latch agrees with the connection.\<close>

lemma run_end_agrees:
  assumes "course_ok (Ran l x)"
  shows "case run_end kind rejections mapper closes x l of (l', x') \<Rightarrow>
     \<not> con_closed (lt_con l') \<and> lt_client_closed l' = lt_client_closed l
     \<and> lt_code l' = (case con_close_code (lt_con l') of None \<Rightarrow> Close_NORMAL | Some k \<Rightarrow> k)
     \<and> lt_reason l' = con_close_reason (lt_con l')"
proof -
  have agree: "\<not> con_closed (lt_con l') \<and> lt_code l' = (case con_close_code (lt_con l') of None \<Rightarrow> Close_NORMAL | Some k \<Rightarrow> k)
     \<and> lt_reason l' = con_close_reason (lt_con l')" if "course_ok (Ran l' y)" for l' y
    using that by (auto simp: course_ok_def latch_ok_def split: if_splits)
  have r: "course_ok (Ran (stream_request_close code reason None l) x)" for code reason
    using assms by (rule course_ok_request)
  show ?thesis
  proof (cases x)
    case ExitReturned
    then show ?thesis using agree [OF assms] by (simp add: run_end_def)
  next
    case (ExitCancelled b)
    then show ?thesis using course_ok_cancelled [OF assms]
      by (simp add: run_end_def Let_def latch_cancelled_def)
  next
    case (ExitRaised e)
    obtain code reason where f: "close_failure closes rejections e l = stream_request_close code reason None l"
      using close_failure_request by blast
    show ?thesis
    proof (cases kind)
      case (SocketEndpoint cs pm cw)
      then show ?thesis using agree [OF assms] by (simp add: run_end_def ExitRaised)
    next
      case (StreamEndpoint s)
      show ?thesis
      proof (cases "close_stream_error rejections mapper e l")
        case (Inl e')
        then show ?thesis using agree [OF assms] by (simp add: run_end_def ExitRaised StreamEndpoint)
      next
        case (Inr l')
        with close_stream_error_request obtain code reason where "l' = stream_request_close code reason None l" by blast
        with Inr show ?thesis using agree [OF r]
          by (simp add: run_end_def ExitRaised StreamEndpoint stream_request_keeps)
      qed
    next
      case (RawEndpoint d)
      then show ?thesis using agree [OF r] f by (simp add: run_end_def ExitRaised stream_request_keeps)
    qed
  qed
qed

lemma serve_accepted_closes:
  assumes "course_ok k"
  shows "case serve_accepted kind rejections mapper closes k of (c, sent, x) \<Rightarrow>
     con_closed c \<and> con_timer c = None \<and> con_startup c = None \<and> x \<noteq> ExitCancelled True
     \<and> sent = (if client_left k then []
               else [Closing (case con_close_code c of None \<Rightarrow> Close_NORMAL | Some q \<Rightarrow> q) (con_close_reason c)])"
proof (cases k)
  case (LeftEarly c x)
  with assms show ?thesis
    by (simp add: serve_accepted_def leave_accepted_def course_ok_def client_left_def mark_closed_def Let_def)
next
  case (Ran l x)
  obtain l' x' where e: "run_end kind rejections mapper closes x l = (l', x')" by fastforce
  from run_end_agrees [of l x kind rejections mapper closes] assms Ran e
  have a: "\<not> con_closed (lt_con l')" "lt_client_closed l' = lt_client_closed l"
    "lt_code l' = (case con_close_code (lt_con l') of None \<Rightarrow> Close_NORMAL | Some k \<Rightarrow> k)"
    "lt_reason l' = con_close_reason (lt_con l')" by auto
  then show ?thesis
    by (simp add: serve_accepted_def Ran e finish_run_def latch_finish_def leave_accepted_def exit_code_def mark_closed_def
        client_left_def Let_def)
qed


text \<open>A connection that was just accepted, and the course of an RPC connection that the client closed.\<close>

definition accepted_connection :: connection where
  "accepted_connection =
     con_accept 0 0 (con_create ''chat'' \<lparr>hs_path = ''/chat'', hs_headers = [], hs_query = [], hs_path_params = [],
       hs_subprotocols = [], hs_client = None\<rparr> None)"

definition expired_course :: course where
  "expired_course = LeftEarly (fst (con_expire (accepted_connection\<lparr>con_startup := Some 0\<rparr>))) (ExitCancelled True)"


lemma no_failure_rejection: "failure_rejection [] None (PlainExc k t) = None"
proof -
  have "contract_for (PlainExc k t) [] = None"
    by (auto simp: contract_for_def dict_has_def find_None_iff split: option.split)
  then show ?thesis by (simp add: failure_rejection_def safe_rejection_def)
qed

text \<open>C33. When the connection scope of an RPC endpoint fails on entry (the resolver's \<open>enter_connection\<close> raises), the
  clauses around the body close the socket normally, with code 1000 and no reason, and the connection has no
  close code; the same failure before the body or on a raw socket closes it with an internal error.\<close>

theorem failed_scope_closes_normally:
  "let c = con_accept clock wall (con_create n hs ps); e = PlainExc k t in
   (\<exists>c'. serve_accepted (SocketEndpoint cs pm cw) rejections mapper closes (Ran (latch_init c) (ExitRaised e))
       = (c', [Closing Close_NORMAL []], ExitRaised e) \<and> con_close_code c' = None)
   \<and> (\<exists>c'. serve_accepted (SocketEndpoint cs pm cw) rejections mapper closes (LeftEarly c (ExitRaised e))
       = (c', [Closing Close_INTERNAL_ERROR []], ExitRaised e) \<and> con_close_code c' = Some Close_INTERNAL_ERROR)
   \<and> (\<exists>c'. serve_accepted (RawEndpoint d) None None [] (Ran (latch_init c) (ExitRaised e))
       = (c', [Closing Close_INTERNAL_ERROR ''Internal error''], ExitReturned)
         \<and> con_close_code c' = Some Close_INTERNAL_ERROR)"
  by (simp add: Let_def serve_accepted_def run_end_def finish_run_def latch_finish_def leave_accepted_def exit_code_def
      mark_closed_def latch_init_def con_accept_def con_create_def arm_expiry_def close_failure_def
      no_failure_rejection stream_request_close_def latch_close_def)

end
