(* ===== verification/Middleware.thy ===== *)
theory Middleware
  imports Handshake
begin

text \<open>
  \<open>middleware.py\<close>, \<open>_activity.py\<close> and the request scope of \<open>server.py\<close>: what is called around a connection, a
  stream and a request, and the outcomes it is told. A middleware is given by what entering and leaving its
  scope raises. Durations are left out, and of the exceptions that are no \<open>Exception\<close> only cancellation is modelled.
\<close>

section \<open>Scopes\<close>

datatype caught = CaughtExc exc | CaughtCancel

datatype 'r body = Done 'r | Fails caught

text \<open>\<open>mw_enter\<close>: what making and entering the scope raises; \<open>mw_exit\<close>: what leaving it with an error raises.\<close>

record middleware =
  mw_id :: nat
  mw_enter :: "caught option"
  mw_exit :: "caught option \<Rightarrow> caught option"

text \<open>The scopes that were entered, and the interruption that stopped the loop.\<close>

fun enter_scopes :: "middleware list \<Rightarrow> middleware list \<times> caught option" where
  "enter_scopes [] = ([], None)"
| "enter_scopes (m # ms) =
     (case mw_enter m of
        None \<Rightarrow> (case enter_scopes ms of (entered, stop) \<Rightarrow> (m # entered, stop))
      | Some (CaughtExc x) \<Rightarrow> enter_scopes ms
      | Some CaughtCancel \<Rightarrow> ([], Some CaughtCancel))"

text \<open>Exceptions of the exits are logged; an interruption is kept, the last one.\<close>

fun exit_all :: "caught option \<Rightarrow> middleware list \<Rightarrow> caught option \<Rightarrow> caught option" where
  "exit_all err [] interrupted = interrupted"
| "exit_all err (m # ms) interrupted =
     exit_all err ms (case mw_exit m err of Some CaughtCancel \<Rightarrow> Some CaughtCancel | _ \<Rightarrow> interrupted)"

record 'r scope_run =
  sp_result :: "'r body"
  sp_entered :: "nat list"
  sp_ran :: bool
  sp_left :: "(nat \<times> caught option) list"

definition body_error :: "'r body \<Rightarrow> caught option" where
  "body_error b = (case b of Done r \<Rightarrow> None | Fails c \<Rightarrow> Some c)"

definition middleware_scope :: "middleware list \<Rightarrow> 'r body \<Rightarrow> 'r scope_run" where
  "middleware_scope ms b =
     (case enter_scopes ms of
        (entered, stop) \<Rightarrow>
          (let outcome = (case stop of None \<Rightarrow> b | Some c \<Rightarrow> Fails c);
               err = body_error outcome;
               interrupted = exit_all err (rev entered) None in
           \<lparr>sp_result = (case (err, interrupted) of (None, Some c) \<Rightarrow> Fails c | _ \<Rightarrow> outcome),
            sp_entered = map mw_id entered, sp_ran = (stop = None),
            sp_left = map (\<lambda>m. (mw_id m, err)) (rev entered)\<rparr>))"

text \<open>\<open>_Activity.emit\<close>: the callbacks that middleware has are called in order, with every exception logged, until one
  is cancelled. \<open>None\<close>: there is no such callback.\<close>

fun emit :: "(nat \<times> caught option option) list \<Rightarrow> nat list \<times> caught option" where
  "emit [] = ([], None)"
| "emit ((i, None) # cs) = emit cs"
| "emit ((i, Some (Some CaughtCancel)) # cs) = ([i], Some CaughtCancel)"
| "emit ((i, Some r) # cs) = (case emit cs of (called, stop) \<Rightarrow> (i # called, stop))"

section \<open>Requests\<close>

record 'o request_outcome =
  ro_response :: "'o response option"
  ro_error :: "caught option"
  ro_cancelled :: bool
  ro_code :: "string option"

text \<open>\<open>_failure_response\<close> and \<open>_dispatch_request\<close> with the outcome they leave on the scope.\<close>

definition failure_scoped ::
  "'o Server.world \<Rightarrow> 'o server \<Rightarrow> json \<Rightarrow> exc \<Rightarrow> error_type list \<Rightarrow>
   (exc + 'o response option) \<times> 'o request_outcome option" where
  "failure_scoped w sv raw error declared =
     (case rpc_error_for w sv error (raw_request_method raw) declared of
        Inl x \<Rightarrow> (Inl x, None)
      | Inr mapped \<Rightarrow>
          (let r = (if looks_like_notification raw then None else Some (RpcFailure (raw_request_id raw) mapped)) in
           (Inr r, Some \<lparr>ro_response = r, ro_error = Some (CaughtExc error),
              ro_cancelled = exc_isinstance error (ec_class (err_class err_cancelled)),
              ro_code = Some (int_str (ec_rpc_code (err_class mapped)))\<rparr>)))"

definition dispatch_scoped ::
  "'o Server.world \<Rightarrow> 'o server \<Rightarrow> exc option \<Rightarrow> json \<Rightarrow>
   (exc + 'o response option) \<times> 'o request_outcome option" where
  "dispatch_scoped w sv failure raw =
     (case failure of
        Some e \<Rightarrow> failure_scoped w sv raw e []
      | None \<Rightarrow>
          (case parse_request w (sv_protocol sv) raw of
             Inl e \<Rightarrow> failure_scoped w sv raw e []
           | Inr iv \<Rightarrow>
               (case execute w (sv_resolver sv) iv of
                  Inl e \<Rightarrow> failure_scoped w sv raw e (md_raises (iv_method iv))
                | Inr result \<Rightarrow>
                    (let r = (if expects_response (iv_request iv)
                              then Some (RpcSuccess (env_id (iv_request iv)) result (ann_id (md_result (iv_method iv))))
                              else None) in
                     (Inr r, Some \<lparr>ro_response = r, ro_error = None, ro_cancelled = False, ro_code = None\<rparr>)))))"

text \<open>\<open>_request_scope\<close> completes the outcome; the default one is that of \<open>_middleware_scope\<close>.\<close>

definition complete_outcome :: "caught option \<Rightarrow> 'o request_outcome option \<Rightarrow> 'o request_outcome" where
  "complete_outcome c previous =
     (case previous of
        None \<Rightarrow> \<lparr>ro_response = None, ro_error = c, ro_cancelled = (c = Some CaughtCancel), ro_code = None\<rparr>
      | Some p \<Rightarrow>
          p\<lparr>ro_error := (case ro_error p of None \<Rightarrow> c | e \<Rightarrow> e), ro_cancelled := (c = Some CaughtCancel \<or> ro_cancelled p)\<rparr>)"

definition handle_scoped ::
  "'o Server.world \<Rightarrow> 'o server \<Rightarrow> middleware list \<Rightarrow> exc option \<Rightarrow> json \<Rightarrow>
   'o response option scope_run \<times> 'o request_outcome" where
  "handle_scoped w sv ms failure raw =
     (case dispatch_scoped w sv failure raw of
        (r, previous) \<Rightarrow>
          (let b = (case r of Inr x \<Rightarrow> Done x | Inl e \<Rightarrow> Fails (CaughtExc e));
               run = middleware_scope ms b in
           (run,
            if sp_ran run then complete_outcome (body_error b) previous
            else complete_outcome (Some CaughtCancel) None)))"

section \<open>Connections\<close>

text \<open>
  \<open>_ServingState\<close>: the endpoint by its name, the socket and the middleware by their identities.
\<close>

record serving_state =
  sg_name :: string
  sg_socket :: nat
  sg_chain :: "nat list"
  sg_error :: "caught option"
  sg_disconnect :: "caught option"
  sg_rejection :: "rejection option"
  sg_accepted :: bool
  sg_cancelled :: bool

definition serving_new :: "string \<Rightarrow> nat \<Rightarrow> nat list \<Rightarrow> serving_state" where
  "serving_new n socket chain =
     \<lparr>sg_name = n, sg_socket = socket, sg_chain = chain, sg_error = None, sg_disconnect = None,
      sg_rejection = None, sg_accepted = False, sg_cancelled = False\<rparr>"

definition record_error :: "caught \<Rightarrow> serving_state \<Rightarrow> serving_state" where
  "record_error c st0 =
     (let st = (if c = CaughtCancel then st0\<lparr>sg_cancelled := True\<rparr> else st0) in
      if Some c \<noteq> sg_disconnect st \<and> (sg_error st = None \<or> sg_error st = Some CaughtCancel)
         \<and> (case c of CaughtExc e \<Rightarrow> \<not> is_disconnect e | CaughtCancel \<Rightarrow> True)
      then st\<lparr>sg_error := Some c\<rparr> else st)"

definition record_rejection :: "rejection \<Rightarrow> serving_state \<Rightarrow> serving_state" where
  "record_rejection r st = st\<lparr>sg_rejection := Some r\<rparr>"

fun record_note :: "recorded \<Rightarrow> serving_state \<Rightarrow> serving_state" where
  "record_note (NoteError e) st = record_error (CaughtExc e) st"
| "record_note (NoteRejection r) st = record_rejection r st"

text \<open>\<open>_serving_scope\<close>: which middleware is entered for a connection. A scope of the same endpoint and socket is
  extended by what it does not have.\<close>

datatype plan = Reuse | Extend "nat list" | Uninstrumented | Fresh "nat list"

definition serving_plan :: "serving_state option \<Rightarrow> string \<Rightarrow> nat \<Rightarrow> nat list \<Rightarrow> nat list \<Rightarrow> plan" where
  "serving_plan active n socket middleware own =
     (let fresh = (if middleware @ own = [] then Uninstrumented else Fresh (middleware @ own)) in
      case active of
        None \<Rightarrow> fresh
      | Some st \<Rightarrow>
          if sg_socket st = socket \<and> sg_name st = n
          then (case filter (\<lambda>i. i \<notin> set (sg_chain st)) middleware of [] \<Rightarrow> Reuse | new \<Rightarrow> Extend new)
          else fresh)"

definition entered_by :: "plan \<Rightarrow> nat list" where
  "entered_by p = (case p of Reuse \<Rightarrow> [] | Extend new \<Rightarrow> new | Uninstrumented \<Rightarrow> [] | Fresh chain \<Rightarrow> chain)"

definition chain_within :: "serving_state option \<Rightarrow> plan \<Rightarrow> nat list" where
  "chain_within active p =
     (case p of
        Fresh chain \<Rightarrow> chain
      | Uninstrumented \<Rightarrow> []
      | _ \<Rightarrow> (case active of None \<Rightarrow> [] | Some st \<Rightarrow> sg_chain st) @ entered_by p)"

record connection_outcome =
  oc_accepted :: bool
  oc_rejection :: "rejection option"
  oc_close_code :: "conn_close option"
  oc_raw_code :: "int option"
  oc_error :: "caught option"
  oc_cancelled :: bool

definition serving_finish :: "connection option \<Rightarrow> serving_state \<Rightarrow> connection_outcome" where
  "serving_finish c st =
     \<lparr>oc_accepted = sg_accepted st, oc_rejection = sg_rejection st,
      oc_close_code = (case c of None \<Rightarrow> None | Some k \<Rightarrow> con_close_code k),
      oc_raw_code = (case c of None \<Rightarrow> None | Some k \<Rightarrow> con_raw_code k),
      oc_error = sg_error st, oc_cancelled = sg_cancelled st\<rparr>"

text \<open>\<open>serve_endpoint\<close> and its two siblings in the scope: the handshake, and for a connection that is ready its
  course, with what the run recorded. \<open>service_exc\<close> is the exception of a service error. The exception that leaves the serving is recorded last.\<close>

definition exit_caught :: "run_exit \<Rightarrow> caught option" where
  "exit_caught x =
     (case x of ExitReturned \<Rightarrow> None | ExitRaised e \<Rightarrow> Some (CaughtExc e) | ExitCancelled b \<Rightarrow> Some CaughtCancel)"

definition note_exit :: "caught option \<Rightarrow> serving_state \<Rightarrow> serving_state" where
  "note_exit c st = (case c of None \<Rightarrow> st | Some e \<Rightarrow> record_error e st)"

definition serve_observed ::
  "(service_error \<Rightarrow> exc) \<Rightarrow> endpoint_kind \<Rightarrow> rejections option \<Rightarrow> mapper \<Rightarrow> bound \<Rightarrow> 'o answer \<Rightarrow>
   (connection \<Rightarrow> course \<times> exc list) \<Rightarrow> serving_state \<Rightarrow> socket_action list \<times> connection_outcome" where
  "serve_observed service_exc kind rejections mapper closes a run st0 =
     (case a of (sent, told, result) \<Rightarrow>
        let st = fold record_note told st0 in
        (case result of
           Refused \<Rightarrow> (sent, serving_finish None st)
         | PrepareRaises x \<Rightarrow> (sent, serving_finish None (record_error (CaughtExc x) st))
         | PrepareCancelled \<Rightarrow> (sent, serving_finish None (record_error CaughtCancel st))
         | NotFrozen x \<Rightarrow> (sent, serving_finish None (record_error (CaughtExc (service_exc x)) st))
         | Ready c p vs path_values \<Rightarrow>
             (case run c of (k, later) \<Rightarrow>
                (case serve_accepted kind rejections mapper closes k of (c', sent', x) \<Rightarrow>
                   (sent @ sent',
                    serving_finish (Some c')
                      (note_exit (exit_caught x) (fold (\<lambda>e. record_error (CaughtExc e)) later (st\<lparr>sg_accepted := True\<rparr>))))))))"

section \<open>What middleware can and cannot do\<close>

definition quiet :: "middleware \<Rightarrow> bool" where
  "quiet m \<longleftrightarrow> mw_enter m \<noteq> Some CaughtCancel \<and> (\<forall>e. mw_exit m e \<noteq> Some CaughtCancel)"

lemma exit_all_cases: "exit_all err ms i \<in> {i, Some CaughtCancel}"
proof (induction ms arbitrary: i)
  case (Cons m ms)
  define j where "j = (case mw_exit m err of Some CaughtCancel \<Rightarrow> Some CaughtCancel | _ \<Rightarrow> i)"
  have "j \<in> {i, Some CaughtCancel}" by (simp add: j_def split: option.split caught.split)
  moreover have "exit_all err (m # ms) i = exit_all err ms j" by (simp add: j_def)
  ultimately show ?case using Cons.IH [of j] by force
qed simp

lemma exit_all_quiet: "list_all quiet ms \<Longrightarrow> exit_all err ms i = i"
proof (induction ms)
  case (Cons m ms)
  then have "mw_exit m err \<noteq> Some CaughtCancel" by (simp add: quiet_def)
  then have "(case mw_exit m err of Some CaughtCancel \<Rightarrow> Some CaughtCancel | _ \<Rightarrow> i) = i"
    by (cases "mw_exit m err") (simp_all split: caught.split)
  with Cons show ?case by simp
qed simp

lemma enter_scopes_stop: "snd (enter_scopes ms) \<in> {None, Some CaughtCancel}"
  by (induction ms rule: enter_scopes.induct) (auto split: option.split caught.split prod.split)

lemma enter_scopes_quiet:
  "list_all quiet ms \<Longrightarrow> enter_scopes ms = (filter (\<lambda>m. mw_enter m = None) ms, None)"
proof (induction ms)
  case (Cons m ms)
  then have m: "mw_enter m \<noteq> Some CaughtCancel" "enter_scopes ms = (filter (\<lambda>m. mw_enter m = None) ms, None)"
    by (simp_all add: quiet_def)
  show ?case
  proof (cases "mw_enter m")
    case (Some c)
    with m show ?thesis by (cases c) simp_all
  qed (simp add: m)
qed simp

lemma enter_scopes_prefix:
  "\<exists>n. fst (enter_scopes ms) = filter (\<lambda>m. mw_enter m = None) (take n ms) \<and> (snd (enter_scopes ms) = None \<longrightarrow> n = length ms)"
proof (induction ms)
  case (Cons m ms)
  obtain entered stop where e: "enter_scopes ms = (entered, stop)" by fastforce
  with Cons obtain n where n: "entered = filter (\<lambda>m. mw_enter m = None) (take n ms)" "stop = None \<longrightarrow> n = length ms"
    by auto
  consider "mw_enter m = None" | x where "mw_enter m = Some (CaughtExc x)" | "mw_enter m = Some CaughtCancel"
    by (metis caught.exhaust not_None_eq)
  then show ?case
  proof cases
    case 1
    with e n(2) show ?thesis unfolding n(1) by (intro exI [of _ "Suc n"]) simp
  next
    case 2
    with e n(2) show ?thesis unfolding n(1) by (intro exI [of _ "Suc n"]) simp
  next
    case 3
    then show ?thesis by (intro exI [of _ 0]) simp
  qed
qed simp

text \<open>C26. Middleware is balanced and cannot change what it wraps: the scopes that are left are exactly those that were
  entered, in reverse order, each once and with the error of the body; those entered are the ones whose entry
  succeeded, up to an interruption, in their order, and the body runs unless an entry was cancelled. The result
  is that of the body: no exception of a middleware replaces it or hides a failure; only a cancellation while
  a scope is left replaces the result of a body that did not fail.\<close>

theorem middleware_balanced:
  "let run = middleware_scope ms b; err = body_error (if sp_ran run then b else Fails CaughtCancel) in
   sp_left run = map (\<lambda>i. (i, err)) (rev (sp_entered run))
   \<and> (\<exists>n. sp_entered run = map mw_id (filter (\<lambda>m. mw_enter m = None) (take n ms)) \<and> (if sp_ran run then n = length ms else True))
   \<and> sp_result run \<in> {if sp_ran run then b else Fails CaughtCancel}
       \<union> (if err = None then {Fails CaughtCancel} else {})
   \<and> (if list_all quiet ms then sp_ran run \<and> sp_result run = b else True)"
proof -
  obtain entered stop where e: "enter_scopes ms = (entered, stop)" by fastforce
  have s: "stop = None \<or> stop = Some CaughtCancel" using enter_scopes_stop [of ms] e by auto
  obtain n where n: "entered = filter (\<lambda>m. mw_enter m = None) (take n ms)" "stop = None \<Longrightarrow> n = length ms"
    using enter_scopes_prefix [of ms] e by auto
  have q: "stop = None \<and> exit_all c (rev entered) None = None" if "list_all quiet ms" for c
    using that enter_scopes_quiet [OF that] e by (auto intro: exit_all_quiet simp: list_all_iff)
  have i: "exit_all c (rev entered) None = None \<or> exit_all c (rev entered) None = Some CaughtCancel" for c
    using exit_all_cases [of c "rev entered" None] by auto
  let ?b = "if stop = None then b else Fails CaughtCancel"
  have res: "(case (body_error ?b, exit_all (body_error ?b) (rev entered) None) of
      (None, Some c) \<Rightarrow> Fails c | _ \<Rightarrow> ?b) \<in> {?b} \<union> (if body_error ?b = None then {Fails CaughtCancel} else {})"
    using i [of "body_error ?b"] by (auto split: option.split)
  have run: "middleware_scope ms b =
     \<lparr>sp_result = (case (body_error ?b, exit_all (body_error ?b) (rev entered) None) of (None, Some c) \<Rightarrow> Fails c | _ \<Rightarrow> ?b),
      sp_entered = map mw_id entered, sp_ran = (stop = None), sp_left = map (\<lambda>m. (mw_id m, body_error ?b)) (rev entered)\<rparr>"
    using s by (elim disjE) (simp_all add: middleware_scope_def e Let_def cong del: option.case_cong_weak)
  show ?thesis
    using res n q by (auto simp: run Let_def rev_map split: option.splits)
qed

text \<open>Instrumented dispatching answers like the plain one. An outcome tells the truth about a response: it carries it,
  names an error code exactly when it carries an exception, and the code is that of the failure that is sent.\<close>

definition outcome_tells :: "'o response option \<Rightarrow> 'o request_outcome \<Rightarrow> bool" where
  "outcome_tells r p \<longleftrightarrow>
     ro_response p = r \<and> (ro_code p = None) = (ro_error p = None)
     \<and> (case r of Some (RpcFailure i e) \<Rightarrow> ro_code p = Some (int_str (ec_rpc_code (err_class e))) | _ \<Rightarrow> True)"

lemma failure_scoped_cases:
  "fst (failure_scoped w sv raw error declared) = failure_response w sv raw error declared
   \<and> (\<forall>r. failure_response w sv raw error declared = Inr r \<longrightarrow>
        (\<exists>p. snd (failure_scoped w sv raw error declared) = Some p \<and> outcome_tells r p))"
  by (cases "rpc_error_for w sv error (raw_request_method raw) declared")
    (auto simp: failure_scoped_def failure_response_def outcome_tells_def Let_def)

lemma dispatch_scoped_cases:
  "fst (dispatch_scoped w sv failure raw) = dispatch_request w sv failure raw
   \<and> (\<forall>r. dispatch_request w sv failure raw = Inr r \<longrightarrow>
        (\<exists>p. snd (dispatch_scoped w sv failure raw) = Some p \<and> outcome_tells r p))"
proof (cases failure)
  case (Some e)
  then show ?thesis using failure_scoped_cases by (simp add: dispatch_scoped_def dispatch_request_def)
next
  case None
  show ?thesis
  proof (cases "parse_request w (Server.server.sv_protocol sv) raw")
    case (Inl e)
    with None show ?thesis using failure_scoped_cases by (simp add: dispatch_scoped_def dispatch_request_def)
  next
    case (Inr iv)
    show ?thesis
    proof (cases "execute w (sv_resolver sv) iv")
      case (Inl e)
      with None Inr show ?thesis using failure_scoped_cases by (simp add: dispatch_scoped_def dispatch_request_def)
    next
      case (Inr x)
      with None \<open>parse_request w (Server.server.sv_protocol sv) raw = Inr iv\<close> show ?thesis
        by (simp add: dispatch_scoped_def dispatch_request_def Let_def outcome_tells_def)
    qed
  qed
qed

lemma complete_outcome_kept [simp]: "complete_outcome None (Some p) = p"
  by (cases p) (auto simp: complete_outcome_def split: option.split)

text \<open>C27. Middleware does not change the answer to a request, and is told the truth about it: unless a scope is cancelled,
  the response with middleware is the one without, the outcome carries this very response, it names an error
  code exactly when it carries an exception, and the code is the one of the failure that is sent.\<close>

theorem instrumentation_transparent:
  assumes "server_ok sv" and "list_all quiet ms"
  shows "\<exists>r. dispatch_request w sv failure raw = Inr r
    \<and> (case handle_scoped w sv ms failure raw of (run, outcome) \<Rightarrow> sp_result run = Done r \<and> outcome_tells r outcome)"
proof -
  from dispatch_request_answers [OF assms(1)] obtain r where r: "dispatch_request w sv failure raw = Inr r" by blast
  obtain p where p: "dispatch_scoped w sv failure raw = (Inr r, Some p)" "outcome_tells r p"
    using dispatch_scoped_cases [of w sv failure raw] r by (cases "dispatch_scoped w sv failure raw") auto
  have "sp_ran (middleware_scope ms (Done r)) \<and> sp_result (middleware_scope ms (Done r)) = Done r"
    using assms(2) by (simp add: middleware_scope_def enter_scopes_quiet body_error_def exit_all_quiet list_all_iff)
  moreover have "outcome_tells r (complete_outcome (body_error (Done r)) (Some p))"
    using p(2) by (simp add: body_error_def)
  ultimately show ?thesis using r p(1) by (simp add: handle_scoped_def Let_def)
qed

text \<open>A middleware whose scope fails when it is left, around the request of \<open>Server\<close>.\<close>

definition failing_middleware :: middleware where
  "failing_middleware =
     \<lparr>mw_id = 0, mw_enter = None, mw_exit = (\<lambda>_. Some (CaughtExc (PlainExc cls_ValueError ''exit'')))\<rparr>"

lemma instrumentation_transparent_witness:
  "\<exists>r. dispatch_request ping_world ping_server None ping_request = Inr r
     \<and> sp_result (fst (handle_scoped ping_world ping_server [failing_middleware] None ping_request)) = Done r"
proof -
  have "list_all quiet [failing_middleware]" by (simp add: quiet_def failing_middleware_def)
  from instrumentation_transparent [OF ping_server_ok this, of ping_world None ping_request] show ?thesis
    by (auto simp: case_prod_beta)
qed

section \<open>What the connection middleware is told\<close>

lemma record_keeps:
  "sg_accepted (record_error c st) = sg_accepted st" "sg_rejection (record_error c st) = sg_rejection st"
  "sg_accepted (record_note n st) = sg_accepted st" "sg_accepted (note_exit x st) = sg_accepted st"
  "sg_rejection (note_exit x st) = sg_rejection st"
  by (cases n; auto simp: record_error_def record_rejection_def note_exit_def Let_def split: option.split)+

lemma record_errors_keep:
  "sg_accepted (fold (\<lambda>e. record_error (CaughtExc e)) es st) = sg_accepted st
   \<and> sg_rejection (fold (\<lambda>e. record_error (CaughtExc e)) es st) = sg_rejection st"
  by (induction es arbitrary: st) (simp_all add: record_keeps)

lemma record_notes_accepted: "sg_accepted (fold record_note ns st) = sg_accepted st"
  by (induction ns arbitrary: st) (simp_all add: record_keeps)

lemma prepare_notes:
  "prepare py w clock wall sv e hs ar = (sent, told, result) \<Longrightarrow>
   sg_rejection (fold record_note told (serving_new n socket chain)) =
     (case sent of [Rejecting r reason headers] \<Rightarrow> Some r | _ \<Rightarrow> None)"
  by (auto simp: prepare_defs Let_def serving_new_def record_rejection_def record_keeps
      split: sum.splits option.splits if_splits hook.splits prod.splits)

text \<open>What is sent before a connection runs.\<close>

lemma prepare_sends:
  assumes "prepare py w clock wall sv e hs ar = (sent, told, result)"
  shows "\<forall>k reason. Closing k reason \<notin> set sent"
    and "length sent \<le> 1" and "result = Ready c p vs path_values \<Longrightarrow> sent = [Accepting (ep_subprotocol e)] \<and> told = []"
  using prepare_answered [of e ar py w clock wall sv hs] assms
  by (auto simp: answered_def prepare_defs Let_def split: sum.splits option.splits if_splits hook.splits prod.splits)

lemma sent_rejection:
  "length sent \<le> 1 \<Longrightarrow>
   ((case sent of [Rejecting r reason headers] \<Rightarrow> Some r | _ \<Rightarrow> None) = Some q)
     = (\<exists>reason headers. Rejecting q reason headers \<in> set sent)"
  by (cases sent; cases "hd sent") (auto split: list.splits socket_action.splits)

text \<open>C28. The outcome that connection middleware is given is true to what the client saw: it says that the connection was
  accepted exactly when the handshake was, it names a rejection exactly when that rejection was sent (or tried),
  and a close frame is only sent on an accepted connection and has the close code of the outcome, or the normal
  one when the outcome has none.\<close>

theorem outcome_truthful:
  assumes "\<And>c. course_ok (fst (run c))"
  shows "case serve_observed service_exc kind rejections mapper closes (prepare py w clock wall sv e hs ar) run
      (serving_new n socket chain) of (sent, oc) \<Rightarrow>
      oc_accepted oc = (case prepare py w clock wall sv e hs ar of (_, _, Ready c p vs path_values) \<Rightarrow> True | _ \<Rightarrow> False)
    \<and> (\<forall>r. (oc_rejection oc = Some r) = (\<exists>reason headers. Rejecting r reason headers \<in> set sent))
    \<and> (\<forall>k reason. Closing k reason \<in> set sent \<longrightarrow>
         oc_accepted oc \<and> k = (case oc_close_code oc of None \<Rightarrow> Close_NORMAL | Some q \<Rightarrow> q))"
proof -
  obtain sent told result where a: "prepare py w clock wall sv e hs ar = (sent, told, result)" by (metis prod_cases3)
  note keep = record_keeps record_notes_accepted record_errors_keep serving_finish_def
  have rej: "(sg_rejection (fold record_note told (serving_new n socket chain)) = Some r)
      = (\<exists>reason headers. Rejecting r reason headers \<in> set sent)" for r
    unfolding prepare_notes [OF a] by (rule sent_rejection [OF prepare_sends(2) [OF a]])
  have new: "\<not> sg_accepted (serving_new n socket chain)" by (simp add: serving_new_def)
  show ?thesis
  proof (cases result)
    case (Ready c p vs path_values)
    then have s: "sent = [Accepting (ep_subprotocol e)]" "told = []" using prepare_sends(3) [OF a] by auto
    obtain k later where k: "run c = (k, later)" by fastforce
    then have "course_ok k" using assms [of c] by simp
    obtain c' sent' x where x: "serve_accepted kind rejections mapper closes k = (c', sent', x)" by (metis prod_cases3)
    from serve_accepted_closes [OF \<open>course_ok k\<close>, of kind rejections mapper closes] x
    have "sent' = (if client_left k then []
        else [Closing (case con_close_code c' of None \<Rightarrow> Close_NORMAL | Some q \<Rightarrow> q) (con_close_reason c')])" by simp
    then show ?thesis
      using rej new by (simp add: serve_observed_def a Ready s k x keep Let_def serving_new_def)
  next
    case Refused
    then show ?thesis using rej new prepare_sends(1) [OF a] by (simp add: serve_observed_def a keep Let_def)
  next
    case (PrepareRaises y)
    then show ?thesis using rej new prepare_sends(1) [OF a] by (simp add: serve_observed_def a keep Let_def)
  next
    case PrepareCancelled
    then show ?thesis using rej new prepare_sends(1) [OF a] by (simp add: serve_observed_def a keep Let_def)
  next
    case (NotFrozen y)
    then show ?thesis using rej new prepare_sends(1) [OF a] by (simp add: serve_observed_def a keep Let_def)
  qed
qed

text \<open>An endpoint of a frozen service, with a connection that is left at once.\<close>

definition chat_endpoint :: endpoint where
  "chat_endpoint =
     \<lparr>ep_name = ''chat'', ep_path = ''/chat'', ep_kind = SocketEndpoint [] None False, ep_error_mapper = None,
      ep_limits = default_limits, ep_subprotocol = None, ep_summary = None, ep_variables = [],
      ep_before_accept = None, ep_context = None, ep_rejects = [], ep_middleware = []\<rparr>"

definition chat_service :: service where
  "chat_service =
     \<lparr>sv_version = 1, sv_error_mapper = None, sv_middleware = [], sv_limits = default_limits, sv_strict_errors = False,
      sv_rejects = [], sv_endpoints = [chat_endpoint], sv_channels = [], sv_mounted_streams = [],
      sv_mounted_raw_sockets = [], sv_protocol = Some ping_protocol\<rparr>"

definition chat_arrival :: "string arrival" where
  "chat_arrival =
     \<lparr>ar_resolver = ResolverUnset, ar_context = ContextNotGiven, ar_path_model = None, ar_before_accept = None,
      ar_rejections = None, ar_connection = ''connection'', ar_expiry = (\<lambda>_. None), ar_accept = None,
      ar_reject = None, ar_draining = True\<rparr>"

lemma outcome_truthful_witness:
  "\<forall>py w. \<exists>sent oc. serve_observed (\<lambda>_. type_error []) (SocketEndpoint [] None False) None None []
       (prepare py w 0 0 chat_service chat_endpoint (con_handshake accepted_connection) chat_arrival)
       (\<lambda>c. (LeftEarly accepted_connection ExitReturned, [])) (serving_new ''chat'' 0 [1]) = (sent, oc)
     \<and> \<not> oc_accepted oc \<and> oc_rejection oc = Some Rej_UNAVAILABLE"
proof (intro allI)
  fix py w
  let ?a = "prepare py w 0 0 chat_service chat_endpoint (con_handshake accepted_connection) chat_arrival"
  let ?s = "serve_observed (\<lambda>_. type_error []) (SocketEndpoint [] None False) None None [] ?a
       (\<lambda>c. (LeftEarly accepted_connection ExitReturned, [])) (serving_new ''chat'' 0 [1])"
  have a: "?a = ([Rejecting Rej_UNAVAILABLE ''Server restarting'' None], [NoteRejection Rej_UNAVAILABLE], Refused)"
    by (simp add: prepare_defs chat_service_def chat_endpoint_def chat_arrival_def service_freeze_def as_resolver_def Let_def)
  have s: "fst ?s = [Rejecting Rej_UNAVAILABLE ''Server restarting'' None]" by (simp add: serve_observed_def a Let_def)
  have "course_ok (fst (LeftEarly accepted_connection ExitReturned, [] :: exc list))"
    by (simp add: course_ok_def accepted_connection_def con_accept_def con_create_def arm_expiry_def)
  from outcome_truthful [where run = "\<lambda>c. (LeftEarly accepted_connection ExitReturned, [])", OF this,
      where service_exc = "\<lambda>_. type_error []" and kind = "SocketEndpoint [] None False" and rejections = None
      and mapper = None and closes = "[]" and py = py and w = w and clock = 0 and wall = 0 and sv = chat_service
      and e = chat_endpoint and hs = "con_handshake accepted_connection" and ar = chat_arrival and n = "''chat''"
      and socket = 0 and chain = "[1]"] s
  show "\<exists>sent oc. ?s = (sent, oc) \<and> \<not> oc_accepted oc \<and> oc_rejection oc = Some Rej_UNAVAILABLE"
    by (cases ?s) (auto simp: a)
qed

end
