(* ===== verification/Events.thy ===== *)
theory Events
  imports Handshake
begin

text \<open>
  \<open>_event_source\<close> and \<open>events\<close> of \<open>runtime.py\<close>: the notifications of an RPC connection. An event source is an
  asynchronous generator of the user; it is given by the payloads it has yielded and by how it goes on. What
  Pydantic and the codec make of a payload is a parameter. \<open>send\<close> waits for room in the outgoing queue, which
  \<open>Runtime\<close> models; it raises nothing but a cancellation.
\<close>

section \<open>One source\<close>

datatype source_end = SourceOpen | SourceReturns | SourceRaises exc | SourceCancelled

text \<open>\<open>SourceEnded None\<close>: the task of the source returned; \<open>Some e\<close>: it raised.\<close>

datatype source_result = SourceRunning | SourceEnded "exc option" | SourceInterrupted

text \<open>The loop over the payloads: what is sent, and the exception of an invalid payload that ends the loop.\<close>

fun event_messages :: "('p \<Rightarrow> exc + string) \<Rightarrow> bool \<Rightarrow> 'p list \<Rightarrow> string list \<times> exc option" where
  "event_messages encode strict [] = ([], None)"
| "event_messages encode strict (p # ps) =
     (case encode p of
        Inr m \<Rightarrow> (case event_messages encode strict ps of (ms, x) \<Rightarrow> (m # ms, x))
      | Inl e \<Rightarrow> if strict then ([], Some e) else event_messages encode strict ps)"

text \<open>The handler of exceptions: the exception that leaves it, if any.\<close>

definition reject_exc :: "rpc_reject \<Rightarrow> exc" where
  "reject_exc r = RejectExc (builtin_class 47 ''RpcReject'' [2, 1, 0]) r"

definition rejecting :: "rejection \<Rightarrow> string \<Rightarrow> exc" where
  "rejecting r reason = reject_exc \<lparr>rej_rejection = r, rej_reason = reason, rej_headers = None\<rparr>"

definition event_binding :: "notification_def \<Rightarrow> exc \<Rightarrow> exc + rpc_reject option" where
  "event_binding n e =
     (case bind_contracts (List.map_filter contract_of (nd_raises n)) ''RPC error bindings'' of
        Inl _ \<Rightarrow> Inl (Server.definition_error ''RPC error bindings'')
      | Inr bound \<Rightarrow>
          (case contract_for e bound of
             None \<Rightarrow> Inr None
           | Some c \<Rightarrow>
               (case binding_reject c e of
                  Inl x \<Rightarrow> Inl (rejecting Rej_INTERNAL_ERROR ''Internal error'')
                | Inr r \<Rightarrow> Inr r)))"

definition event_failure ::
  "'o Server.world \<Rightarrow> 'o server \<Rightarrow> rejections option \<Rightarrow> notification_def \<Rightarrow> exc \<Rightarrow> exc option" where
  "event_failure w sv rejections n e =
     (case event_binding n e of
        Inl x \<Rightarrow> Some x
      | Inr (Some r) \<Rightarrow> Some (reject_exc r)
      | Inr None \<Rightarrow>
          (case safe_rejection e rejections of
             Some r \<Rightarrow> Some (reject_exc r)
           | None \<Rightarrow>
               (case rpc_error_for w sv e (Some (nd_name n)) (nd_raises n) of
                  Inl x \<Rightarrow> Some x
                | Inr mapped \<Rightarrow>
                    if nd_on_error n = ''close''
                    then Some (rejecting
                           (if issubclass (ec_class (err_class mapped)) (ec_class (err_class err_internal))
                            then Rej_INTERNAL_ERROR else Rej_FORBIDDEN) (err_message mapped))
                    else None)))"

definition event_source ::
  "'o Server.world \<Rightarrow> 'o server \<Rightarrow> 'o resolver \<Rightarrow> rejections option \<Rightarrow> ('p \<Rightarrow> exc + string) \<Rightarrow> notification_def \<Rightarrow>
   'p list \<Rightarrow> source_end \<Rightarrow> string list \<times> source_result" where
  "event_source w sv resolver rejections encode n ps final =
     (case resolve_arguments resolver (nd_injected n) of
        Inl e \<Rightarrow> ([], SourceEnded (event_failure w sv rejections n e))
      | Inr args \<Rightarrow>
          (case event_messages encode (nd_on_error n = ''close'') ps of
             (ms, Some e) \<Rightarrow> (ms, SourceEnded (event_failure w sv rejections n e))
           | (ms, None) \<Rightarrow>
               (ms, case final of
                      SourceOpen \<Rightarrow> SourceRunning
                    | SourceReturns \<Rightarrow> SourceEnded None
                    | SourceRaises e \<Rightarrow> SourceEnded (event_failure w sv rejections n e)
                    | SourceCancelled \<Rightarrow> SourceInterrupted)))"

section \<open>All sources of a connection\<close>

text \<open>How \<open>gather\<close> over the tasks ends: \<open>first\<close> is the exception of the first task that failed.\<close>

definition events_close :: "rejections option \<Rightarrow> bool \<Rightarrow> exc option \<Rightarrow> latch \<Rightarrow> latch" where
  "events_close rejections close_when first l =
     (case first of
        Some e \<Rightarrow>
          (case safe_rejection e rejections of
             Some r \<Rightarrow> rpc_request_close (rejection_close (rej_rejection r)) (rej_reason r) None l
           | None \<Rightarrow> rpc_request_close Close_INTERNAL_ERROR ''Internal error'' None l)
      | None \<Rightarrow> if close_when then rpc_request_close Close_NORMAL [] None l else l)"

text \<open>The sources of a connection with the order in which their tasks ended; each can end once.\<close>

datatype gathered_events = StillRunning | AllDone | FirstFailure exc

fun gather_results :: "source_result list \<Rightarrow> gathered_events" where
  "gather_results [] = AllDone"
| "gather_results (SourceEnded (Some e) # rs) = FirstFailure e"
| "gather_results (SourceEnded None # rs) = gather_results rs"
| "gather_results (SourceRunning # rs) =
     (case gather_results rs of FirstFailure e \<Rightarrow> FirstFailure e | _ \<Rightarrow> StillRunning)"
| "gather_results (SourceInterrupted # rs) =
     (case gather_results rs of FirstFailure e \<Rightarrow> FirstFailure e | _ \<Rightarrow> StillRunning)"

definition events_turn :: "rejections option \<Rightarrow> bool \<Rightarrow> source_result list \<Rightarrow> latch \<Rightarrow> latch" where
  "events_turn rejections close_when rs l =
     (case gather_results rs of
        StillRunning \<Rightarrow> l
      | AllDone \<Rightarrow> events_close rejections close_when None l
      | FirstFailure e \<Rightarrow> events_close rejections close_when (Some e) l)"

section \<open>What a client sees of a source\<close>

text \<open>Everything before the first invalid payload is sent, or every valid payload when the event continues.\<close>

lemma event_messages_exact:
  "event_messages encode strict ps =
     (if strict
      then (map (projr \<circ> encode) (takeWhile (\<lambda>p. \<not> isl (encode p)) ps),
            map_option (projl \<circ> encode) (find (\<lambda>p. isl (encode p)) ps))
      else (map (projr \<circ> encode) (filter (\<lambda>p. \<not> isl (encode p)) ps), None))"
  by (induction ps) (auto split: sum.splits simp: case_prod_beta comp_def)

text \<open>C37. The notifications a source sends are its payloads, encoded, in their order: with \<open>on_error="continue"\<close> exactly
  the valid ones, and then the source goes on as its generator does; with \<open>on_error="close"\<close> those before the
  first invalid one, which ends the source like a failure of the generator; a source whose arguments cannot be
  resolved sends nothing and ends like a failure.\<close>

theorem event_source_exact:
  "event_source w sv resolver rejections encode n ps final =
     (let fails = (\<lambda>e. SourceEnded (event_failure w sv rejections n e));
          goes_on = (case final of SourceOpen \<Rightarrow> SourceRunning | SourceReturns \<Rightarrow> SourceEnded None
             | SourceRaises e \<Rightarrow> fails e | SourceCancelled \<Rightarrow> SourceInterrupted) in
      case resolve_arguments resolver (nd_injected n) of
        Inl e \<Rightarrow> ([], fails e)
      | Inr args \<Rightarrow>
          if nd_on_error n = ''close''
          then (map (projr \<circ> encode) (takeWhile (\<lambda>p. \<not> isl (encode p)) ps),
                case find (\<lambda>p. isl (encode p)) ps of Some p \<Rightarrow> fails (projl (encode p)) | None \<Rightarrow> goes_on)
          else (map (projr \<circ> encode) (filter (\<lambda>p. \<not> isl (encode p)) ps), goes_on))"
  by (auto simp: event_source_def event_messages_exact Let_def split: sum.split option.split)

lemma event_failure_strict:
  "raises_ok (nd_raises n) \<Longrightarrow> nd_on_error n = ''close'' \<Longrightarrow> event_failure w sv rejections n e \<noteq> None"
  by (auto simp: event_failure_def split: sum.split option.split)

lemma event_failure_None:
  "event_failure w sv rejections n e = None \<Longrightarrow>
   nd_on_error n \<noteq> ''close'' \<and> event_binding n e = Inr None \<and> safe_rejection e rejections = None"
  by (auto simp: event_failure_def split: sum.splits option.splits if_splits)

lemma events_close_abnormal:
  "\<not> lt_closing l \<Longrightarrow> \<exists>k. latch_decided (events_close rejections cw (Some e) l) = Some k \<and> k \<noteq> Close_NORMAL"
  by (auto simp: events_close_def rpc_request_close_def latch_close_def latch_decided_def split: option.split)


text \<open>An event whose failures of one class reject the client.\<close>

definition kicked_binding :: contract where
  "kicked_binding = refused_binding\<lparr>ct_rejection := Some Rej_FORBIDDEN\<rparr>"

definition tick_event :: notification_def where
  "tick_event =
     \<lparr>nd_name = ''tick'', nd_payload = AnnClass cls_BaseModel, nd_summary = None, nd_server = None, nd_function = Some ping_fn,
      nd_injected = [], nd_on_error = ''continue'', nd_raises = [BoundError kicked_binding]\<rparr>"


end
