(* ===== verification/Graceful.thy ===== *)
theory Graceful
  imports Events RuntimeProps
begin

text \<open>
  \<open>graceful\<close> of \<open>_run_rpc_endpoint\<close> in \<open>runtime.py\<close>: how one RPC connection ends when the service drains, which is
  the \<open>begin\<close> of its session in \<open>Drain\<close>. Its parts between two waits are the phases; the connection goes on
  with the steps of \<open>Runtime\<close> in between. The queue counts a message as long as its send is not done.
\<close>

section \<open>Phases\<close>

text \<open>The phases carry the response tasks that are waited for, by their keys.\<close>

datatype graceful_phase =
    NotBegun
  | StoppingEvents
  | AwaitingTasks "nat list"
  | AwaitingSubscriptions
  | StoppingReader "nat list"
  | Flushing
  | GracefulDone

record 'o graceful =
  gr_run :: "'o rstate"
  gr_phase :: graceful_phase
  gr_events :: bool
  gr_subscriptions :: nat

definition collector_keys :: "'o rstate \<Rightarrow> nat list" where
  "collector_keys rs = dict_keys (rs_collectors rs)"

definition tasks_gone :: "nat list \<Rightarrow> 'o rstate \<Rightarrow> bool" where
  "tasks_gone ks rs = list_all (\<lambda>k. k \<notin> set (collector_keys rs)) ks"

text \<open>\<open>None\<close>: the phase still waits.\<close>

definition graceful_turn :: "'o graceful \<Rightarrow> 'o graceful option" where
  "graceful_turn g =
     (let rs = gr_run g in
      case gr_phase g of
        NotBegun \<Rightarrow> Some (g\<lparr>gr_phase := StoppingEvents\<rparr>)
      | StoppingEvents \<Rightarrow> if gr_events g then None else Some (g\<lparr>gr_phase := AwaitingTasks (collector_keys rs)\<rparr>)
      | AwaitingTasks ks \<Rightarrow> if tasks_gone ks rs then Some (g\<lparr>gr_phase := AwaitingSubscriptions\<rparr>) else None
      | AwaitingSubscriptions \<Rightarrow>
          if gr_subscriptions g = 0
          then Some (g\<lparr>gr_run := rs\<lparr>rs_reading := False\<rparr>, gr_phase := StoppingReader (collector_keys rs)\<rparr>)
          else None
      | StoppingReader ks \<Rightarrow> if tasks_gone ks rs then Some (g\<lparr>gr_phase := Flushing\<rparr>) else None
      | Flushing \<Rightarrow>
          if rs_outgoing rs = [] \<or> closing rs
          then Some (g\<lparr>gr_run := request_close Close_SERVICE_RESTART ''Server restarting'' rs, gr_phase := GracefulDone\<rparr>)
          else None
      | GracefulDone \<Rightarrow> None)"

text \<open>Steps: of the shutdown, of the connection, of its event sources and of its subscriptions, which only end once
  nothing new is read.\<close>

inductive graceful_step ::
  "(nat option \<Rightarrow> 'o \<Rightarrow> exc + json) \<Rightarrow> 'o Server.world \<Rightarrow> 'o server \<Rightarrow> (string \<Rightarrow> json option) \<Rightarrow> 'o \<Rightarrow>
   'o graceful \<Rightarrow> 'o graceful \<Rightarrow> bool" for dump w sv loads none where
  Turn: "graceful_turn g = Some g' \<Longrightarrow> graceful_step dump w sv loads none g g'"
| Connection: "rt_step dump w sv loads none (gr_run g) rs \<Longrightarrow> graceful_step dump w sv loads none g (g\<lparr>gr_run := rs\<rparr>)"
| EventsEnd: "graceful_step dump w sv loads none g (g\<lparr>gr_events := False\<rparr>)"
| Subscribe: "rs_reading (gr_run g) \<Longrightarrow>
    graceful_step dump w sv loads none g (g\<lparr>gr_subscriptions := gr_subscriptions g + 1\<rparr>)"
| Unsubscribe: "graceful_step dump w sv loads none g (g\<lparr>gr_subscriptions := gr_subscriptions g - 1\<rparr>)"

definition graceful_init :: "connection \<Rightarrow> rpc_limits \<Rightarrow> client_method_def list \<Rightarrow> 'o graceful" where
  "graceful_init c limits ms =
     \<lparr>gr_run = runtime_init c limits ms, gr_phase = NotBegun, gr_events = True, gr_subscriptions = 0\<rparr>"

section \<open>Nothing is lost\<close>

lemma request_close_keeps:
  "rs_collectors (request_close code reason rs) = rs_collectors rs"
  "rs_reading (request_close code reason rs) = rs_reading rs"
  by (simp_all add: request_close_def)

lemma dict_del_keys: "set (map fst (filter (\<lambda>p. fst p \<noteq> k) d)) \<subseteq> set (map fst d)"
  by auto

lemma drop_collector_keeps:
  "set (collector_keys (drop_collector k rs)) \<subseteq> set (collector_keys rs)" "rs_reading (drop_collector k rs) = rs_reading rs"
  by (auto simp: drop_collector_def collector_keys_def)

lemma run_collector_keeps:
  "set (collector_keys (run_collector dump w sv which k rs)) \<subseteq> set (collector_keys rs)
   \<and> rs_reading (run_collector dump w sv which k rs) = rs_reading rs"
proof (cases "map_of (rs_collectors rs) k")
  case (Some c)
  then have "k \<in> set (dict_keys (rs_collectors rs))" by (force dest: map_of_SomeD)
  then have "set (dict_keys (dict_set k x (rs_collectors rs))) \<subseteq> set (dict_keys (rs_collectors rs))" for x
    by (auto simp: dict_set_keys)
  with Some drop_collector_keeps [of k rs] show ?thesis
    by (auto simp: run_collector_def internal_close_def request_close_keeps collector_keys_def split: sum.split option.split)
qed (simp add: run_collector_def)

text \<open>Without the reader no response task is added.\<close>

lemma rt_step_no_reader:
  "rt_step dump w sv loads none rs rs' \<Longrightarrow> \<not> rs_reading rs \<Longrightarrow>
   set (collector_keys rs') \<subseteq> set (collector_keys rs) \<and> \<not> rs_reading rs'"
proof (induction rule: rt_step.induct)
  case (Start cid rs c)
  then show ?case by (simp add: start_call_def collector_keys_def split: option.split)
next
  case (FinishCall cid rs c result)
  then show ?case by (simp add: finish_call_def collector_keys_def)
next
  case (CallDone cid rs c)
  then show ?case by (simp add: call_done_def collector_keys_def)
next
  case (Collect rs k which)
  then show ?case using run_collector_keeps by blast
next
  case (PutCollected rs k)
  then show ?case using drop_collector_keeps [of k]
    by (auto simp: put_collected_def put_message_def collector_keys_def drop_collector_def split: option.split collector.split)
next
  case (PutTimeout rs k)
  then show ?case
    by (auto simp: put_timeout_def slow_client_def request_close_keeps collector_keys_def drop_collector_def
        split: option.split collector.split)
next
  case (CancelCollector rs k)
  then show ?case using drop_collector_keeps by blast
next
  case (PutMessage rs m)
  then show ?case by (simp add: put_message_def collector_keys_def)
next
  case (CloseRequest rs code reason)
  then show ?case by (simp add: request_close_keeps collector_keys_def)
qed (simp_all add: collector_keys_def)

definition graceful_ok :: "'o graceful \<Rightarrow> bool" where
  "graceful_ok g \<longleftrightarrow>
     (case gr_phase g of
        StoppingReader ks \<Rightarrow> \<not> rs_reading (gr_run g) \<and> set (collector_keys (gr_run g)) \<subseteq> set ks
      | Flushing \<Rightarrow> \<not> rs_reading (gr_run g) \<and> rs_collectors (gr_run g) = []
      | _ \<Rightarrow> True)"

lemma tasks_gone_all: "tasks_gone ks rs \<Longrightarrow> fst ` set (rs_collectors rs) \<subseteq> set ks \<Longrightarrow> rs_collectors rs = []"
  by (cases "rs_collectors rs") (auto simp: tasks_gone_def collector_keys_def list_all_iff)

lemma graceful_step_ok: "graceful_step dump w sv loads none g g' \<Longrightarrow> graceful_ok g \<Longrightarrow> graceful_ok g'"
proof (induction rule: graceful_step.induct)
  case (Turn g g')
  then show ?case
    by (cases "gr_phase g") (auto simp: graceful_turn_def graceful_ok_def Let_def collector_keys_def split: if_splits
        dest: tasks_gone_all)
next
  case (Connection g rs)
  show ?case
  proof (cases "gr_phase g")
    case (StoppingReader ks)
    with Connection rt_step_no_reader [OF Connection.hyps] show ?thesis by (auto simp: graceful_ok_def)
  next
    case Flushing
    with Connection have "\<not> rs_reading (gr_run g)" "rs_collectors (gr_run g) = []" by (simp_all add: graceful_ok_def)
    with rt_step_no_reader [OF Connection.hyps] have "\<not> rs_reading rs" "collector_keys rs = []"
      by (simp_all add: collector_keys_def)
    with Flushing show ?thesis by (simp add: graceful_ok_def collector_keys_def)
  qed (simp_all add: graceful_ok_def)
qed (auto simp: graceful_ok_def split: graceful_phase.splits)

lemma graceful_run_ok:
  "(graceful_step dump w sv loads none)\<^sup>*\<^sup>* (graceful_init c limits ms) g \<Longrightarrow> graceful_ok g"
proof (induction rule: rtranclp_induct)
  case base
  show ?case by (simp add: graceful_ok_def graceful_init_def)
next
  case (step g g')
  then show ?case by (blast intro: graceful_step_ok)
qed

text \<open>C30. A graceful shutdown loses nothing: when it decides how the connection ends, either the connection is closing
  already, or no response is outstanding, everything that was queued has been sent, and the reader has
  stopped, so that every frame that was read has been answered; then the connection is closed for the restart
  of the server, whatever is requested later.\<close>

theorem graceful_loses_nothing:
  assumes "(graceful_step dump w sv loads none)\<^sup>*\<^sup>* (graceful_init c limits ms) g"
    and "graceful_turn g = Some g'" and "gr_phase g' = GracefulDone"
  shows "closing (gr_run g)
    \<or> rs_collectors (gr_run g) = [] \<and> rs_outgoing (gr_run g) = [] \<and> \<not> rs_reading (gr_run g)
      \<and> latch_decided (rs_latch (gr_run g')) = Some Close_SERVICE_RESTART
      \<and> rs_latch (request_close code reason (gr_run g')) = rs_latch (gr_run g')"
proof -
  have p: "gr_phase g = Flushing"
    using assms(2,3) by (cases "gr_phase g") (auto simp: graceful_turn_def Let_def split: if_splits)
  from graceful_run_ok [OF assms(1)] p have "\<not> rs_reading (gr_run g)" "rs_collectors (gr_run g) = []"
    by (simp_all add: graceful_ok_def)
  with assms(2) p show ?thesis
    by (auto simp: graceful_turn_def Let_def request_close_def closing_def rpc_request_close_def latch_close_def
        latch_decided_def split: if_splits)
qed

text \<open>A shutdown of a connection without requests.\<close>

lemma graceful_loses_nothing_witness:
  "\<exists>g g'. (graceful_step demo_dump ping_world ping_server demo_loads [])\<^sup>*\<^sup>* (graceful_init demo_connection default_limits []) g
     \<and> graceful_turn g = Some g' \<and> latch_decided (rs_latch (gr_run g')) = Some Close_SERVICE_RESTART"
proof -
  let ?step = "graceful_step demo_dump ping_world ping_server demo_loads []"
  define g0 :: "string graceful" where "g0 = graceful_init demo_connection default_limits []"
  define g1 where "g1 = g0\<lparr>gr_phase := StoppingEvents\<rparr>"
  define g2 where "g2 = g1\<lparr>gr_events := False\<rparr>"
  define g3 where "g3 = g2\<lparr>gr_phase := AwaitingTasks []\<rparr>"
  define g4 where "g4 = g3\<lparr>gr_phase := AwaitingSubscriptions\<rparr>"
  define g5 where "g5 = g4\<lparr>gr_run := (gr_run g4)\<lparr>rs_reading := False\<rparr>, gr_phase := StoppingReader []\<rparr>"
  define g6 where "g6 = g5\<lparr>gr_phase := Flushing\<rparr>"
  define g7 where "g7 = g6\<lparr>gr_run := request_close Close_SERVICE_RESTART ''Server restarting'' (gr_run g6),
      gr_phase := GracefulDone\<rparr>"
  note defs = g0_def g1_def g2_def g3_def g4_def g5_def g6_def graceful_init_def runtime_init_def
  have s1: "?step g0 g1" by (rule Turn) (simp add: graceful_turn_def defs)
  have s2: "?step g1 g2" unfolding g2_def by (rule EventsEnd)
  have s3: "?step g2 g3" by (rule Turn) (simp add: graceful_turn_def defs collector_keys_def)
  have s4: "?step g3 g4" by (rule Turn) (simp add: graceful_turn_def defs tasks_gone_def)
  have s5: "?step g4 g5" by (rule Turn) (simp add: graceful_turn_def defs collector_keys_def Let_def)
  have s6: "?step g5 g6" by (rule Turn) (simp add: graceful_turn_def defs tasks_gone_def)
  have t: "graceful_turn g6 = Some g7" by (simp add: graceful_turn_def g7_def Let_def) (simp add: defs)
  have r: "?step\<^sup>*\<^sup>* g0 g6" using s1 s2 s3 s4 s5 s6 by (meson rtranclp.rtrancl_into_rtrancl rtranclp.rtrancl_refl)
  have "\<not> closing (gr_run g6)" by (simp add: defs closing_def latch_init_def)
  with graceful_loses_nothing [OF r [unfolded g0_def] t] have "latch_decided (rs_latch (gr_run g7)) = Some Close_SERVICE_RESTART"
    by (simp add: g7_def)
  with r t show ?thesis unfolding g0_def by blast
qed

end
