(* ===== verification/InMemory.thy ===== *)
theory InMemory
  imports Runtime
begin

text \<open>
  \<open>testing.py\<close>: the in-memory socket that tests serve connections on, with the faults of its two directions
  (\<open>SocketFaults\<close>). A send waits at the gate of its direction, then for the delay of its frame, and then puts
  the frame into the queue of the other side, holds it back or swallows it; the places where it waits are where
  other operations run. \<open>la_delivered\<close> and \<open>la_received\<close> log what was sent and what was received.
\<close>

section \<open>One direction\<close>

datatype queue_item = QueuedFrame frame | Disconnected

datatype send_stage = AtGate | Delayed

record lane =
  la_drop_after :: "int option"
  la_drop_when :: "frame \<Rightarrow> bool"
  la_code :: "conn_close + int"
  la_reason :: string
  la_delay :: "frame \<Rightarrow> rat"
  la_half_open :: bool
  la_sent :: nat
  la_gate :: bool
  la_holding :: bool
  la_held :: "frame list"
  la_queue :: "queue_item list"
  la_pending :: "(frame \<times> send_stage) list"
  la_delivered :: "frame list"
  la_received :: "frame list"

datatype fault_error = NegativeDropAfter | NegativeDelay

text \<open>The delay of the arguments is a number or a function of the frame.\<close>

definition faults_init ::
  "int option \<Rightarrow> (frame \<Rightarrow> bool) option \<Rightarrow> conn_close + int \<Rightarrow> string \<Rightarrow> rat + (frame \<Rightarrow> rat) \<Rightarrow> bool \<Rightarrow> fault_error + lane" where
  "faults_init drop_after drop_when code reason delay half_open =
     rbind (raise_if (case drop_after of None \<Rightarrow> False | Some n \<Rightarrow> n < 0) NegativeDropAfter) (\<lambda>_.
     rbind (raise_if (case delay of Inl q \<Rightarrow> q < 0 | Inr f \<Rightarrow> False) NegativeDelay) (\<lambda>_.
     Inr \<lparr>la_drop_after = drop_after, la_drop_when = (case drop_when of None \<Rightarrow> (\<lambda>_. False) | Some p \<Rightarrow> p),
          la_code = code, la_reason = reason, la_delay = (case delay of Inl q \<Rightarrow> (\<lambda>_. q) | Inr f \<Rightarrow> f),
          la_half_open = half_open, la_sent = 0, la_gate = True, la_holding = False, la_held = [],
          la_queue = [], la_pending = [], la_delivered = [], la_received = []\<rparr>))"

definition faults_hold :: "lane \<Rightarrow> lane" where
  "faults_hold la = la\<lparr>la_holding := True\<rparr>"

text \<open>What is held is put into the queue, unless the socket is closed, where nothing is held.\<close>

definition faults_release :: "lane \<Rightarrow> lane" where
  "faults_release la =
     la\<lparr>la_holding := False, la_held := [], la_queue := la_queue la @ map QueuedFrame (la_held la)\<rparr>"

definition faults_block :: "lane \<Rightarrow> lane" where
  "faults_block la = la\<lparr>la_gate := False\<rparr>"

definition faults_unblock :: "lane \<Rightarrow> lane" where
  "faults_unblock la = la\<lparr>la_gate := True\<rparr>"

definition faults_close :: "lane \<Rightarrow> lane" where
  "faults_close la = la\<lparr>la_held := [], la_gate := True\<rparr>"

section \<open>The socket\<close>

text \<open>The lanes: \<open>False\<close> from the client to the server, \<open>True\<close> from the server to the client.\<close>

record memory_socket =
  ms_lanes :: "bool \<Rightarrow> lane"
  ms_disconnect :: "rpc_disconnect option"
  ms_accepted :: bool
  ms_subprotocol :: "string option"
  ms_rejection :: "(rejection \<times> string) option"
  ms_closed :: "(conn_close \<times> string) option"

definition socket_new :: "lane \<Rightarrow> lane \<Rightarrow> memory_socket" where
  "socket_new from_client from_server =
     \<lparr>ms_lanes = (\<lambda>d. if d then from_server else from_client), ms_disconnect = None, ms_accepted = False,
      ms_subprotocol = None, ms_rejection = None, ms_closed = None\<rparr>"

definition update_lane :: "bool \<Rightarrow> (lane \<Rightarrow> lane) \<Rightarrow> memory_socket \<Rightarrow> memory_socket" where
  "update_lane d f s = s\<lparr>ms_lanes := (ms_lanes s)(d := f (ms_lanes s d))\<rparr>"

definition socket_disconnect :: "rpc_disconnect \<Rightarrow> memory_socket \<Rightarrow> memory_socket" where
  "socket_disconnect e s =
     (if ms_disconnect s \<noteq> None then s
      else s\<lparr>ms_disconnect := Some e,
             ms_lanes := (\<lambda>d. (faults_close (ms_lanes s d))\<lparr>la_queue := la_queue (ms_lanes s d) @ [Disconnected]\<rparr>)\<rparr>)"

text \<open>\<open>_check_open\<close> raises a disconnect with the code as it was received.\<close>

definition check_open :: "memory_socket \<Rightarrow> rpc_disconnect option" where
  "check_open s =
     map_option (\<lambda>e. rpc_disconnect_init (case dis_raw e of None \<Rightarrow> Inl (dis_code e) | Some n \<Rightarrow> Inr n) (dis_reason e))
       (ms_disconnect s)"

definition socket_accept :: "string option \<Rightarrow> memory_socket \<Rightarrow> rpc_disconnect + memory_socket" where
  "socket_accept sub s =
     (case check_open s of Some e \<Rightarrow> Inl e | None \<Rightarrow> Inr (s\<lparr>ms_accepted := True, ms_subprotocol := sub\<rparr>))"

definition socket_reject :: "rejection \<Rightarrow> string \<Rightarrow> memory_socket \<Rightarrow> memory_socket" where
  "socket_reject r reason s =
     socket_disconnect (rpc_disconnect_init (Inr (rejection_close_code r)) reason) (s\<lparr>ms_rejection := Some (r, reason)\<rparr>)"

definition socket_close :: "conn_close \<Rightarrow> string \<Rightarrow> memory_socket \<Rightarrow> memory_socket" where
  "socket_close k reason s =
     socket_disconnect (rpc_disconnect_init (Inl k) reason)
       (if ms_closed s = None then s\<lparr>ms_closed := Some (k, reason)\<rparr> else s)"

section \<open>Sending and receiving\<close>

datatype send_result = Sent | SendWaits | SendRaises rpc_disconnect | SendDelayError

definition lane_disconnect :: "bool \<Rightarrow> memory_socket \<Rightarrow> memory_socket" where
  "lane_disconnect d s =
     socket_disconnect (rpc_disconnect_init (la_code (ms_lanes s d)) (la_reason (ms_lanes s d))) s"

text \<open>\<open>_send\<close> behind its delay: what the direction does with the frame, and the drop after it.\<close>

definition lane_deliver :: "frame \<Rightarrow> lane \<Rightarrow> lane" where
  "lane_deliver f la =
     (if la_half_open la then la
      else if la_holding la then la\<lparr>la_held := la_held la @ [f]\<rparr>
      else la\<lparr>la_queue := la_queue la @ [QueuedFrame f]\<rparr>)
     \<lparr>la_sent := la_sent la + 1, la_delivered := la_delivered la @ (if la_half_open la then [] else [f])\<rparr>"

definition deliver :: "bool \<Rightarrow> frame \<Rightarrow> memory_socket \<Rightarrow> memory_socket" where
  "deliver d f s =
     (let s1 = update_lane d (lane_deliver f) s in
      case la_drop_after (ms_lanes s1 d) of
        Some n \<Rightarrow> if n \<le> int (la_sent (ms_lanes s1 d)) then lane_disconnect d s1 else s1
      | None \<Rightarrow> s1)"

definition raise_closed :: "memory_socket \<Rightarrow> send_result \<Rightarrow> send_result" where
  "raise_closed s r = (case check_open s of Some e \<Rightarrow> SendRaises e | None \<Rightarrow> r)"

text \<open>Behind the gate.\<close>

definition send_on :: "bool \<Rightarrow> frame \<Rightarrow> memory_socket \<Rightarrow> send_result \<times> memory_socket" where
  "send_on d f s =
     (let la = ms_lanes s d in
      if la_drop_after la = Some 0 \<or> la_drop_when la f
      then (let s' = lane_disconnect d s in (raise_closed s' Sent, s'))
      else if la_delay la f < 0 then (SendDelayError, s)
      else if la_delay la f \<noteq> 0 then (SendWaits, update_lane d (\<lambda>la. la\<lparr>la_pending := la_pending la @ [(f, Delayed)]\<rparr>) s)
      else (Sent, deliver d f s))"

definition socket_send :: "bool \<Rightarrow> frame \<Rightarrow> memory_socket \<Rightarrow> send_result \<times> memory_socket" where
  "socket_send d f s =
     (case check_open s of
        Some e \<Rightarrow> (SendRaises e, s)
      | None \<Rightarrow>
          if \<not> la_gate (ms_lanes s d)
          then (SendWaits, update_lane d (\<lambda>la. la\<lparr>la_pending := la_pending la @ [(f, AtGate)]\<rparr>) s)
          else send_on d f s)"

text \<open>A waiting send goes on: when the gate is open, when its delay is over, or when the socket is closed.\<close>

definition resume_send :: "bool \<Rightarrow> frame \<times> send_stage \<Rightarrow> memory_socket \<Rightarrow> send_result \<times> memory_socket" where
  "resume_send d p s =
     (let s' = update_lane d (\<lambda>la. la\<lparr>la_pending := remove1 p (la_pending la)\<rparr>) s in
      case check_open s' of
        Some e \<Rightarrow> (SendRaises e, s')
      | None \<Rightarrow> (case p of (f, AtGate) \<Rightarrow> send_on d f s' | (f, Delayed) \<Rightarrow> (Sent, deliver d f s')))"

datatype receive_result = ReceiveWaits | ReceivedFrame frame | ReceiveRaises rpc_disconnect | ReceiveBroken

definition socket_receive :: "bool \<Rightarrow> memory_socket \<Rightarrow> receive_result \<times> memory_socket" where
  "socket_receive d s =
     (case la_queue (ms_lanes s d) of
        [] \<Rightarrow> (case check_open s of Some e \<Rightarrow> (ReceiveRaises e, s) | None \<Rightarrow> (ReceiveWaits, s))
      | QueuedFrame f # q \<Rightarrow>
          (ReceivedFrame f, update_lane d (\<lambda>la. la\<lparr>la_queue := q, la_received := la_received la @ [f]\<rparr>) s)
      | Disconnected # q \<Rightarrow>
          (case check_open s of
             Some e \<Rightarrow> (ReceiveRaises e, update_lane d (\<lambda>la. la\<lparr>la_queue := q\<rparr>) s)
           | None \<Rightarrow> (ReceiveBroken, update_lane d (\<lambda>la. la\<lparr>la_queue := q\<rparr>) s)))"

section \<open>Steps\<close>

inductive memory_step :: "memory_socket \<Rightarrow> memory_socket \<Rightarrow> bool" where
  Send: "memory_step s (snd (socket_send d f s))"
| Resume: "p \<in> set (la_pending (ms_lanes s d)) \<Longrightarrow> snd p = AtGate \<longrightarrow> la_gate (ms_lanes s d) \<Longrightarrow>
    memory_step s (snd (resume_send d p s))"
| Receive: "memory_step s (snd (socket_receive d s))"
| Accept: "socket_accept sub s = Inr s' \<Longrightarrow> memory_step s s'"
| Reject: "memory_step s (socket_reject r reason s)"
| Close: "memory_step s (socket_close k reason s)"
| Disconnect: "memory_step s (socket_disconnect (rpc_disconnect_init k reason) s)"
| Hold: "memory_step s (update_lane d faults_hold s)"
| Release: "memory_step s (update_lane d faults_release s)"
| Block: "memory_step s (update_lane d faults_block s)"
| Unblock: "memory_step s (update_lane d faults_unblock s)"

section \<open>What arrives\<close>

text \<open>
  A lane is sound: while the socket is open, what was delivered is what was received, what is queued and what is
  held, in this order, and the queue has no end marker; afterwards nothing is held, the marker comes last in
  the queue, and what was received and is queued is a prefix of what was delivered.
\<close>

definition queued_frames :: "lane \<Rightarrow> frame list" where
  "queued_frames la = List.map_filter (\<lambda>i. case i of QueuedFrame f \<Rightarrow> Some f | Disconnected \<Rightarrow> None) (la_queue la)"

definition lane_open :: "lane \<Rightarrow> bool" where
  "lane_open la \<longleftrightarrow>
     Disconnected \<notin> set (la_queue la) \<and> la_delivered la = la_received la @ queued_frames la @ la_held la
     \<and> (la_holding la \<or> la_held la = [])"

definition lane_closed :: "lane \<Rightarrow> bool" where
  "lane_closed la \<longleftrightarrow>
     la_held la = [] \<and> Disconnected \<notin> set (butlast (la_queue la))
     \<and> prefix (la_received la @ queued_frames la) (la_delivered la)"

definition lane_ok :: "bool \<Rightarrow> lane \<Rightarrow> bool" where
  "lane_ok opened la = (if opened then lane_open la else lane_closed la)"

definition socket_ok :: "memory_socket \<Rightarrow> bool" where
  "socket_ok s \<longleftrightarrow>
     (\<forall>d. lane_ok (ms_disconnect s = None) (ms_lanes s d))
     \<and> (ms_disconnect s = None \<longrightarrow> ms_closed s = None \<and> ms_rejection s = None)"

lemma queued_frames_append: "queued_frames (la\<lparr>la_queue := q @ q'\<rparr>)
    = queued_frames (la\<lparr>la_queue := q\<rparr>) @ queued_frames (la\<lparr>la_queue := q'\<rparr>)"
  by (simp add: queued_frames_def List.map_filter_def)

lemma queued_frames_map: "queued_frames (la\<lparr>la_queue := map QueuedFrame fs\<rparr>) = fs"
  by (induction fs) (simp_all add: queued_frames_def List.map_filter_def)

lemma queued_frames_same: "la_queue la' = la_queue la \<Longrightarrow> queued_frames la' = queued_frames la"
  by (simp add: queued_frames_def)

text \<open>Operations on a lane that leave its frames alone.\<close>

lemma lane_ok_same:
  assumes "la_queue la' = la_queue la" "la_held la' = la_held la" "la_delivered la' = la_delivered la"
    "la_received la' = la_received la"
    "la_holding la \<Longrightarrow> la_holding la'"
  shows "lane_ok opened la \<Longrightarrow> lane_ok opened la'"
  using assms queued_frames_same [OF assms(1)]
  by (auto simp: lane_ok_def lane_open_def lane_closed_def split: if_splits)

lemma lane_ok_release: "lane_ok opened la \<Longrightarrow> lane_ok opened (faults_release la)"
proof (cases opened)
  case True
  assume "lane_ok opened la"
  with True have o: "Disconnected \<notin> set (la_queue la)" "la_delivered la = la_received la @ queued_frames la @ la_held la"
    by (simp_all add: lane_ok_def lane_open_def)
  have "queued_frames (faults_release la) = queued_frames la @ la_held la"
    using queued_frames_map [of "la_held la" la]
    by (simp add: faults_release_def queued_frames_def List.map_filter_def)
  with o True show ?thesis by (auto simp: lane_ok_def lane_open_def) (auto simp: faults_release_def)
next
  case False
  assume "lane_ok opened la"
  with False have "la_held la = []" by (simp add: lane_ok_def lane_closed_def)
  with False \<open>lane_ok opened la\<close> show ?thesis
    by (simp add: lane_ok_def lane_closed_def faults_release_def queued_frames_def)
qed

lemma lane_ok_disconnect:
  "lane_open la \<Longrightarrow> lane_closed ((faults_close la)\<lparr>la_queue := la_queue la @ [Disconnected]\<rparr>)"
  by (auto simp: lane_open_def lane_closed_def faults_close_def queued_frames_def List.map_filter_def)

lemma lane_open_deliver: "lane_open la \<Longrightarrow> lane_open (lane_deliver f la)"
  by (auto simp: lane_deliver_def lane_open_def queued_frames_def List.map_filter_def)

lemma update_lane_simps [simp]:
  "ms_disconnect (update_lane d f s) = ms_disconnect s" "ms_closed (update_lane d f s) = ms_closed s"
  "ms_rejection (update_lane d f s) = ms_rejection s"
  "ms_lanes (update_lane d f s) d' = (if d' = d then f (ms_lanes s d) else ms_lanes s d')"
  by (simp_all add: update_lane_def)

lemma socket_ok_update:
  "socket_ok s \<Longrightarrow> (\<And>opened. lane_ok opened (ms_lanes s d) \<Longrightarrow> lane_ok opened (f (ms_lanes s d))) \<Longrightarrow>
   socket_ok (update_lane d f s)"
  by (auto simp: socket_ok_def)

lemma socket_ok_disconnect:
  assumes "\<forall>d. lane_ok (ms_disconnect s = None) (ms_lanes s d)"
  shows "socket_ok (socket_disconnect e s)"
  using assms lane_ok_disconnect by (auto simp: socket_ok_def socket_disconnect_def lane_ok_def)

lemma lane_disconnect_ok: "socket_ok s \<Longrightarrow> socket_ok (lane_disconnect d s)"
  unfolding lane_disconnect_def by (intro socket_ok_disconnect) (simp add: socket_ok_def)

lemma deliver_ok:
  assumes "socket_ok s" "check_open s = None"
  shows "socket_ok (deliver d f s)"
proof -
  have o: "ms_disconnect s = None" using assms(2) by (simp add: check_open_def)
  have k: "socket_ok (update_lane d (lane_deliver f) s)"
    using assms(1) o lane_open_deliver by (simp add: socket_ok_def lane_ok_def)
  then have "socket_ok (lane_disconnect d (update_lane d (lane_deliver f) s))" by (rule lane_disconnect_ok)
  with k show ?thesis unfolding deliver_def Let_def by (simp split: option.split)
qed

lemma pending_ok: "socket_ok s \<Longrightarrow> socket_ok (update_lane d (\<lambda>la. la\<lparr>la_pending := f la\<rparr>) s)"
  by (rule socket_ok_update) (auto elim: lane_ok_same [rotated -1])

lemma send_on_ok: "socket_ok s \<Longrightarrow> check_open s = None \<Longrightarrow> socket_ok (snd (send_on d f s))"
  using deliver_ok [of s d f] pending_ok [of s d] lane_disconnect_ok [of s d] by (simp add: send_on_def Let_def)

lemma socket_send_ok: "socket_ok s \<Longrightarrow> socket_ok (snd (socket_send d f s))"
  using send_on_ok [of s d f] pending_ok [of s d] by (simp add: socket_send_def split: option.split)

lemma resume_send_ok: "socket_ok s \<Longrightarrow> socket_ok (snd (resume_send d p s))"
  using send_on_ok deliver_ok pending_ok [of s d]
  by (auto simp: resume_send_def Let_def split: option.split prod.split send_stage.split)

lemma socket_receive_ok: "socket_ok s \<Longrightarrow> socket_ok (snd (socket_receive d s))"
proof (cases "la_queue (ms_lanes s d)")
  case (Cons i q)
  assume ok: "socket_ok s"
  have "socket_ok (update_lane d (\<lambda>la. la\<lparr>la_queue := q, la_received := la_received la @ (case i of QueuedFrame f \<Rightarrow> [f] | Disconnected \<Rightarrow> [])\<rparr>) s)"
    by (rule socket_ok_update [OF ok])
      (cases i; auto simp: lane_ok_def lane_open_def lane_closed_def queued_frames_def List.map_filter_def Cons
        split: if_splits)
  then show ?thesis
    by (cases i) (auto simp: socket_receive_def Cons split: option.split)
qed (simp add: socket_receive_def split: option.split)

lemma lane_ok_faults:
  "lane_ok opened la \<Longrightarrow> lane_ok opened (faults_hold la)" "lane_ok opened la \<Longrightarrow> lane_ok opened (faults_block la)"
  "lane_ok opened la \<Longrightarrow> lane_ok opened (faults_unblock la)"
  by (auto simp: faults_hold_def faults_block_def faults_unblock_def elim: lane_ok_same [rotated -1])

lemma memory_step_ok: "memory_step s s' \<Longrightarrow> socket_ok s \<Longrightarrow> socket_ok s'"
proof (induction rule: memory_step.induct)
  case (Accept sub s s')
  then show ?case by (auto simp: socket_accept_def socket_ok_def split: option.splits)
next
  case (Reject s r reason)
  show ?case
  proof (cases "ms_disconnect s")
    case None
    with Reject show ?thesis unfolding socket_reject_def by (intro socket_ok_disconnect) (simp add: socket_ok_def)
  next
    case (Some e)
    with Reject show ?thesis by (simp add: socket_reject_def socket_disconnect_def socket_ok_def)
  qed
next
  case (Close s k reason)
  show ?case
  proof (cases "ms_disconnect s")
    case None
    with Close show ?thesis unfolding socket_close_def by (intro socket_ok_disconnect) (simp add: socket_ok_def)
  next
    case (Some e)
    with Close show ?thesis by (simp add: socket_close_def socket_disconnect_def socket_ok_def)
  qed
next
  case (Disconnect s k reason)
  then show ?case by (intro socket_ok_disconnect) (simp add: socket_ok_def)
qed (blast intro: socket_send_ok resume_send_ok socket_receive_ok socket_ok_update lane_ok_faults lane_ok_release)+

text \<open>A closed socket delivers nothing, and what closed it stays.\<close>

definition closed_with :: "rpc_disconnect \<Rightarrow> (bool \<Rightarrow> frame list) \<Rightarrow> memory_socket \<Rightarrow> bool" where
  "closed_with e delivered s \<longleftrightarrow> ms_disconnect s = Some e \<and> (\<forall>d. la_delivered (ms_lanes s d) = delivered d)"

lemma closed_check: "closed_with e delivered s \<Longrightarrow> check_open s \<noteq> None"
  by (simp add: closed_with_def check_open_def)

lemma memory_step_closed: "memory_step s s' \<Longrightarrow> closed_with e delivered s \<Longrightarrow> closed_with e delivered s'"
proof (induction rule: memory_step.induct)
  case (Send s d f)
  then show ?case by (auto simp: socket_send_def dest: closed_check split: option.split)
next
  case (Resume p s d)
  have "closed_with e delivered (update_lane d (\<lambda>la. la\<lparr>la_pending := remove1 p (la_pending la)\<rparr>) s)"
    using Resume.prems by (simp add: closed_with_def)
  with closed_check [OF this] show ?case by (auto simp: resume_send_def Let_def split: option.split)
next
  case (Receive s d)
  then show ?case by (auto simp: socket_receive_def closed_with_def split: list.split queue_item.split option.split)
next
  case (Accept sub s s')
  then show ?case by (auto simp: socket_accept_def dest: closed_check split: option.splits)
qed (auto simp: closed_with_def socket_reject_def socket_close_def socket_disconnect_def faults_hold_def
    faults_release_def faults_block_def faults_unblock_def)

lemma socket_new_ok:
  assumes "faults_init n1 p1 c1 r1 q1 h1 = Inr a" "faults_init n2 p2 c2 r2 q2 h2 = Inr b"
  shows "socket_ok (socket_new a b)"
  using assms by (auto simp: faults_init_def rbind_eq_Inr raise_if_eq socket_new_def socket_ok_def lane_ok_def lane_open_def
      queued_frames_def List.map_filter_def)

text \<open>The in-memory socket neither reorders, duplicates nor invents frames, whatever its faults and whoever waits:
  in each direction, what was received and what is queued is a prefix of what was delivered, and while the
  socket is open the rest is what is held back, so that nothing is lost; a receiver that reads the end marker
  always gets the disconnect. Once the socket is closed, nothing is delivered any more and the reason stays the
  first one, whoever closes it again.\<close>

theorem memory_socket_order:
  assumes "faults_init n1 p1 c1 r1 q1 h1 = Inr a" and "faults_init n2 p2 c2 r2 q2 h2 = Inr b"
    and "memory_step\<^sup>*\<^sup>* (socket_new a b) s" and "memory_step\<^sup>*\<^sup>* s s'"
  shows "prefix (la_received (ms_lanes s d) @ queued_frames (ms_lanes s d)) (la_delivered (ms_lanes s d))
    \<and> fst (socket_receive d s) \<noteq> ReceiveBroken
    \<and> (case ms_disconnect s of
         None \<Rightarrow> la_delivered (ms_lanes s d)
           = la_received (ms_lanes s d) @ queued_frames (ms_lanes s d) @ la_held (ms_lanes s d)
       | Some e \<Rightarrow> ms_disconnect s' = Some e \<and> la_delivered (ms_lanes s' d) = la_delivered (ms_lanes s d))"
proof -
  from assms(3) socket_new_ok [OF assms(1,2)] have ok: "socket_ok s"
    by (induction rule: rtranclp_induct) (auto intro: memory_step_ok)
  have "closed_with e (\<lambda>d. la_delivered (ms_lanes s d)) s'" if "ms_disconnect s = Some e" for e
    using assms(4)
  proof (induction rule: rtranclp_induct)
    case base
    show ?case using that by (simp add: closed_with_def)
  next
    case (step y z)
    then show ?case by (blast intro: memory_step_closed)
  qed
  moreover have "prefix (la_received (ms_lanes s d) @ queued_frames (ms_lanes s d)) (la_delivered (ms_lanes s d))"
    using ok by (auto simp: socket_ok_def lane_ok_def lane_open_def lane_closed_def split: if_splits)
  moreover have "fst (socket_receive d s) \<noteq> ReceiveBroken"
  proof (cases "ms_disconnect s")
    case None
    with ok have "Disconnected \<notin> set (la_queue (ms_lanes s d))" by (simp add: socket_ok_def lane_ok_def lane_open_def)
    then show ?thesis by (auto simp: socket_receive_def split: list.split queue_item.split option.split)
  qed (auto simp: socket_receive_def check_open_def split: list.split queue_item.split)
  moreover have "la_delivered (ms_lanes s d) = la_received (ms_lanes s d) @ queued_frames (ms_lanes s d) @ la_held (ms_lanes s d)"
    if "ms_disconnect s = None"
    using ok that by (simp add: socket_ok_def lane_ok_def lane_open_def)
  ultimately show ?thesis by (auto simp: closed_with_def split: option.split)
qed

text \<open>A frame that is held back, released and then received.\<close>

definition plain_lane :: lane where
  "plain_lane =
     \<lparr>la_drop_after = None, la_drop_when = (\<lambda>_. False), la_code = Inr 1006, la_reason = [], la_delay = (\<lambda>_. 0),
      la_half_open = False, la_sent = 0, la_gate = True, la_holding = False, la_held = [], la_queue = [],
      la_pending = [], la_delivered = [], la_received = []\<rparr>"

definition held_socket :: memory_socket where
  "held_socket = snd (socket_send True (TextFrame ''hello'') (update_lane True faults_hold (socket_new plain_lane plain_lane)))"

lemma memory_socket_order_witness:
  "la_delivered (ms_lanes held_socket True) = [TextFrame ''hello''] \<and> fst (socket_receive True held_socket) = ReceiveWaits
   \<and> la_delivered (ms_lanes held_socket True)
     = la_received (ms_lanes held_socket True) @ queued_frames (ms_lanes held_socket True) @ la_held (ms_lanes held_socket True)"
proof -
  have i: "faults_init None None (Inr 1006) [] (Inl 0) False = Inr plain_lane"
    by (simp add: faults_init_def plain_lane_def)
  have "memory_step (socket_new plain_lane plain_lane) (update_lane True faults_hold (socket_new plain_lane plain_lane))"
    by (rule Hold)
  moreover have "memory_step (update_lane True faults_hold (socket_new plain_lane plain_lane)) held_socket"
    unfolding held_socket_def by (rule Send)
  ultimately have r: "memory_step\<^sup>*\<^sup>* (socket_new plain_lane plain_lane) held_socket"
    by (meson r_into_rtranclp rtranclp_trans)
  have s: "la_delivered (ms_lanes held_socket True) = [TextFrame ''hello'']" "ms_disconnect held_socket = None"
    "fst (socket_receive True held_socket) = ReceiveWaits"
    by (simp_all add: held_socket_def socket_send_def send_on_def check_open_def socket_new_def faults_hold_def plain_lane_def
        deliver_def lane_deliver_def socket_receive_def)
  with memory_socket_order [OF i i r rtranclp.rtrancl_refl, of True] show ?thesis by simp
qed

end
