(* ===== verification/FastApi.thy ===== *)
theory FastApi
  imports Middleware
begin

text \<open>
  \<open>integrations/fastapi.py\<close>: endpoints as WebSocket routes of a FastAPI router. Starlette's \<open>WebSocket\<close> is a
  parameter: what it holds (\<open>web_scope\<close>), what a call of it raises (\<open>web_result\<close>) and its class; what is sent
  on it is listed (\<open>web_sent\<close>). FastAPI calls a route's dependencies in their order and then its handler.
\<close>

section \<open>The socket\<close>

datatype web_sent =
    WebAccept "string option"
  | WebText string
  | WebBytes string
  | WebClose int string
  | WebDenial int string "(string, string) dict"

text \<open>\<open>WebDisconnect\<close>: a \<open>WebSocketDisconnect\<close> of a code and a reason, with what \<open>str\<close> makes of it.\<close>

datatype web_result = WebOk | WebDisconnect int "string option" string | WebRaises exc

definition cls_WebSocketDisconnect :: pyclass where
  "cls_WebSocketDisconnect = builtin_class 52 ''WebSocketDisconnect'' [2, 1, 0]"

definition web_exc :: "web_result \<Rightarrow> exc option" where
  "web_exc r =
     (case r of WebOk \<Rightarrow> None | WebDisconnect code reason shown \<Rightarrow> Some (PlainExc cls_WebSocketDisconnect shown)
      | WebRaises e \<Rightarrow> Some e)"

record web_scope =
  wb_path :: string
  wb_headers :: "(string, string) dict"
  wb_query :: "(string, string) dict"
  wb_path_params :: "(string, string) dict"
  wb_subprotocols :: "string list option"
  wb_client :: "(string \<times> int) option"
  wb_extensions :: "string list option"

definition web_handshake :: "web_scope \<Rightarrow> handshake" where
  "web_handshake ws =
     \<lparr>hs_path = wb_path ws, hs_headers = headers_init (wb_headers ws), hs_query = wb_query ws,
      hs_path_params = wb_path_params ws,
      hs_subprotocols = (case wb_subprotocols ws of None \<Rightarrow> [] | Some ps \<Rightarrow> ps), hs_client = wb_client ws\<rparr>"

fun http_status :: "rejection \<Rightarrow> int" where
  "http_status Rej_UNAUTHORIZED = 401"
| "http_status Rej_FORBIDDEN = 403"
| "http_status Rej_NOT_FOUND = 404"
| "http_status Rej_PROTOCOL_ERROR = 400"
| "http_status Rej_UNAVAILABLE = 503"
| "http_status Rej_INTERNAL_ERROR = 500"

definition denies_over_http :: "web_scope \<Rightarrow> bool" where
  "denies_over_http ws =
     (''websocket.http.response'' \<in> set (case wb_extensions ws of None \<Rightarrow> [] | Some es \<Rightarrow> es))"

definition web_reject :: "web_scope \<Rightarrow> rejection \<Rightarrow> string \<Rightarrow> (string, string) dict option \<Rightarrow> web_sent" where
  "web_reject ws r reason headers =
     (if denies_over_http ws
      then WebDenial (http_status r) reason (case headers of None \<Rightarrow> [] | Some h \<Rightarrow> h)
      else WebClose (rejection_close_code r) (close_reason reason))"

text \<open>The methods of \<open>FastApiSocket\<close> that the handshake and the end of a connection call. They raise what the
  \<open>WebSocket\<close> raises; only the two sends translate its disconnect.\<close>

fun web_action :: "web_scope \<Rightarrow> socket_action \<Rightarrow> web_sent" where
  "web_action ws (Accepting subprotocol) = WebAccept subprotocol"
| "web_action ws (Rejecting r reason headers) = web_reject ws r reason headers"
| "web_action ws (Closing k reason) = WebClose (close_code_of k) (close_reason reason)"

definition web_send_raises :: "web_result \<Rightarrow> exc option" where
  "web_send_raises r =
     (case r of
        WebDisconnect code reason shown \<Rightarrow>
          Some (DisconnectExc cls_RpcDisconnect
                  (rpc_disconnect_init (Inr code) (case reason of None \<Rightarrow> [] | Some s \<Rightarrow> s)))
      | _ \<Rightarrow> web_exc r)"

fun web_send :: "frame \<Rightarrow> web_result \<Rightarrow> web_sent \<times> exc option" where
  "web_send (TextFrame s) r = (WebText s, web_send_raises r)"
| "web_send (BytesFrame s) r = (WebBytes s, web_send_raises r)"

text \<open>A received message: keys that may be absent, or present with \<open>None\<close>.\<close>

datatype web_message =
    WebDisconnected "int option" "string option option"
  | WebReceived "string option" "string option option"

definition web_receive :: "web_message \<Rightarrow> exc + frame option" where
  "web_receive m =
     (case m of
        WebDisconnected code reason \<Rightarrow>
          Inl (DisconnectExc cls_RpcDisconnect
                (rpc_disconnect_init (Inr (case code of None \<Rightarrow> 1000 | Some n \<Rightarrow> if n = 0 then 1000 else n))
                   (case reason of None \<Rightarrow> [] | Some None \<Rightarrow> ''None'' | Some (Some s) \<Rightarrow> s)))
      | WebReceived message payload \<Rightarrow>
          (case message of
             Some s \<Rightarrow> Inr (Some (TextFrame s))
           | None \<Rightarrow>
               (case payload of
                  None \<Rightarrow> Inr (Some (BytesFrame []))
                | Some None \<Rightarrow> Inr None
                | Some (Some b) \<Rightarrow> Inr (Some (BytesFrame b)))))"

section \<open>Failures around a handler\<close>

text \<open>
  \<open>_reject_failures\<close>: the dependency around the context and the handler of a route. \<open>st\<close>: the serving state,
  where the scope of the connection middleware is active on this \<open>WebSocket\<close>; \<open>c\<close>: its connection. The result:
  what is sent, what is raised again, the state and the connection.
\<close>

datatype app_state = AppConnecting | AppConnected | AppOther

definition close_with :: "conn_close \<Rightarrow> connection option \<Rightarrow> connection option" where
  "close_with k c = map_option (\<lambda>x. x\<lparr>con_close_code := Some k\<rparr>) c"

definition reject_failures ::
  "rejections option \<Rightarrow> web_scope \<Rightarrow> app_state \<Rightarrow> exc \<Rightarrow> web_result \<Rightarrow> serving_state option \<Rightarrow> connection option \<Rightarrow>
   web_sent list \<times> exc option \<times> serving_state option \<times> connection option" where
  "reject_failures rejections ws app e answer st0 c =
     (let st = map_option (record_error (CaughtExc e)) st0 in
      case safe_rejection e rejections of
        None \<Rightarrow> ([], Some e, st, c)
      | Some r \<Rightarrow>
          (case app of
             AppConnecting \<Rightarrow>
               ([web_reject ws (rej_rejection r) (rej_reason r) (rej_headers r)], web_exc answer,
                map_option (record_rejection (rej_rejection r)) st, c)
           | AppConnected \<Rightarrow>
               ([WebClose (close_code_of (rejection_close (rej_rejection r))) (close_reason (rej_reason r))],
                web_exc answer, st,
                if st0 = None then c else close_with (rejection_close (rej_rejection r)) c)
           | AppOther \<Rightarrow> ([], None, st, c)))"

section \<open>Routes\<close>

text \<open>An endpoint is the name it has in its service; \<open>hosted\<close> adds the service, by a number and by its value.\<close>

record hosted =
  ho_id :: nat
  ho_service :: service
  ho_endpoint :: endpoint

definition hosted_key :: "hosted \<Rightarrow> nat \<times> string" where
  "hosted_key h = (ho_id h, ep_name (ho_endpoint h))"

datatype fa_error =
    ResolverAndFactory
  | HostedService service_error
  | RoutesDeclare define_error
  | ContextNotFunction
  | ContextNeedsClass
  | AlreadyMounted string
  | ContextMismatch string string string
  | OutsidePrefix string string
  | HandlerNotAsync
  | HandlerParamKind string
  | HandlerDependency def_error
  | HandlerInjectsSubclass string string
  | HandlerNeedsInject string string

text \<open>What a route calls: the handler that serves the endpoint, or the user's with its injected parameters, the
  names that carry the \<open>WebSocket\<close> and the context, and the parameters FastAPI provides.\<close>

record custom_call =
  cu_function :: pyfun
  cu_injected :: "injected list"
  cu_parameters :: "param list"
  cu_websocket :: string
  cu_context :: string

datatype route_handler = Serves | Calls custom_call

datatype dependency = MiddlewareOf "nat list" bool | RejectsFailures "rejections option"

record web_route =
  wr_path :: string
  wr_name :: string
  wr_endpoint :: hosted
  wr_handler :: route_handler
  wr_dependencies :: "dependency list"

section \<open>\<open>RpcRoutes\<close>\<close>

text \<open>A resolver that makes a resolver per \<open>WebSocket\<close>, or a resolver of any other kind.\<close>

datatype 'o resolver_choice = PerWebSocket nat | PerRouter "'o resolver_like"

text \<open>The context function: its number, whether it is a class or not callable, and its return annotation.\<close>

record context_fn =
  cf_id :: nat
  cf_callable :: bool
  cf_return :: "ann option"

record 'o routes =
  rr_prefix :: string
  rr_resolver :: "'o resolver_like"
  rr_web_resolver :: "nat option"
  rr_context_type :: "pyclass option"
  rr_context :: "(nat \<times> nat option) option"
  rr_rejections :: "rejections option"
  rr_error_mapper :: "nat option"
  rr_limits :: "rpc_limits option"
  rr_middleware :: "nat list"
  rr_mounted :: "(nat \<times> string) list"
  rr_routes :: "web_route list"

text \<open>\<open>_context_type\<close>: \<open>get_type_hints\<close> drops \<open>Annotated\<close>; \<open>object\<close> and \<open>NoneType\<close> are no context.\<close>

definition context_type :: "context_fn \<Rightarrow> fa_error + pyclass" where
  "context_type f =
     rbind (raise_if (\<not> cf_callable f) ContextNotFunction) (\<lambda>_.
       case (case cf_return f of Some a \<Rightarrow> Some (strip_annotated a) | None \<Rightarrow> None) of
         Some (AnnClass c) \<Rightarrow>
           if cls_id c = 0 \<or> cls_id c = cls_id cls_NoneType then Inl ContextNeedsClass else Inr c
       | _ \<Rightarrow> Inl ContextNeedsClass)"

definition routes_init ::
  "string \<Rightarrow> context_fn option \<Rightarrow> 'o resolver_choice \<Rightarrow> reject_item list \<Rightarrow> rejections option \<Rightarrow> nat list \<Rightarrow>
   nat option \<Rightarrow> rpc_limits option \<Rightarrow> fa_error + 'o routes" where
  "routes_init base context resolver rejects rejections middleware mapper limits =
     rbind (case context of None \<Rightarrow> Inr None | Some f \<Rightarrow> rbind (context_type f) (\<lambda>k. Inr (Some k))) (\<lambda>k.
     rbind (map_error RoutesDeclare (rejecting_contracts rejects ''RpcRoutes'')) (\<lambda>cs.
     rbind (map_error RoutesDeclare (contract_rejections cs)) (\<lambda>declared.
     let web = (case resolver of PerWebSocket n \<Rightarrow> Some n | PerRouter r \<Rightarrow> None) in
     Inr \<lparr>rr_prefix = base, rr_resolver = (case resolver of PerWebSocket n \<Rightarrow> ResolverUnset | PerRouter r \<Rightarrow> r),
          rr_web_resolver = web, rr_context_type = k,
          rr_context = map_option (\<lambda>f. (cf_id f, web)) context,
          rr_rejections = chain_rejections [rejections, declared], rr_error_mapper = mapper,
          rr_limits = limits, rr_middleware = middleware, rr_mounted = [], rr_routes = []\<rparr>)))"

definition context_name :: "pyclass option \<Rightarrow> string" where
  "context_name k = (case k of None \<Rightarrow> ''none'' | Some c \<Rightarrow> cls_name c)"

definition context_fits :: "pyclass option \<Rightarrow> pyclass option \<Rightarrow> bool" where
  "context_fits provided declared =
     (case (provided, declared) of
        (None, None) \<Rightarrow> True
      | (Some p, Some d) \<Rightarrow> issubclass p d
      | _ \<Rightarrow> False)"

definition check_context :: "'o routes \<Rightarrow> endpoint \<Rightarrow> fa_error + unit" where
  "check_context rr e =
     raise_if (\<not> context_fits (rr_context_type rr) (ep_context e))
       (ContextMismatch (ep_name e) (context_name (ep_context e)) (context_name (rr_context_type rr)))"

definition route_path :: "string \<Rightarrow> string \<Rightarrow> fa_error + string" where
  "route_path base path =
     rbind (raise_if (\<not> starts_with base path \<or> take 1 (drop (length base) path) \<notin> {[], ''/''})
              (OutsidePrefix path base)) (\<lambda>_.
     Inr (drop (length base) path))"

section \<open>Handlers of the user\<close>

text \<open>\<open>_parameter_name\<close>: underscores until no parameter has the name.\<close>

function free_name :: "string list \<Rightarrow> string \<Rightarrow> string" where
  "free_name names n = (if n \<in> set names then free_name names (CHR ''_'' # n) else n)"
  by auto

termination free_name
proof (relation "measure (\<lambda>(names, n). card {m \<in> set names. length n \<le> length m})")
  fix names :: "string list" and n
  assume n: "n \<in> set names"
  then have "n \<in> {m \<in> set names. length n \<le> length m} - {m \<in> set names. length (CHR ''_'' # n) \<le> length m}" by simp
  moreover have "{m \<in> set names. length (CHR ''_'' # n) \<le> length m} \<subseteq> {m \<in> set names. length n \<le> length m}" by auto
  ultimately have "{m \<in> set names. length (CHR ''_'' # n) \<le> length m} \<subset> {m \<in> set names. length n \<le> length m}" by blast
  then have "card {m \<in> set names. length (CHR ''_'' # n) \<le> length m} < card {m \<in> set names. length n \<le> length m}"
    by (intro psubset_card_mono) simp_all
  then show "((names, CHR ''_'' # n), (names, n)) \<in> measure (\<lambda>(names, n). card {m \<in> set names. length n \<le> length m})"
    by simp
qed simp

declare free_name.simps [simp del]

definition cls_unannotated :: pyclass where
  "cls_unannotated = builtin_class 53 ''_empty'' [0]"

definition base_class :: "ann option \<Rightarrow> pyclass option" where
  "base_class a =
     (case a of
        None \<Rightarrow> Some cls_unannotated
      | Some x \<Rightarrow> (case strip_annotated x of AnnClass c \<Rightarrow> Some c | _ \<Rightarrow> None))"

text \<open>
  The loop of \<open>_custom_handler\<close> over the parameters: what is injected, what FastAPI provides, and the last parameter
  that is the \<open>WebSocket\<close>, a class given by \<open>web\<close>.
\<close>

type_synonym custom_scan = "injected list \<times> param list \<times> string option"

definition scan_injected :: "pyclass option \<Rightarrow> param \<Rightarrow> injected \<Rightarrow> custom_scan \<Rightarrow> fa_error + custom_scan" where
  "scan_injected declared p i acc =
     (case acc of (injected, provided, websocket) \<Rightarrow>
     rbind (case declared of
              None \<Rightarrow> Inr ()
            | Some k \<Rightarrow> raise_if (cls_id (ij_dependency i) \<noteq> cls_id k \<and> issubclass (ij_dependency i) k)
                         (HandlerInjectsSubclass (pr_name p) (cls_name k))) (\<lambda>_.
     Inr (injected @ [i], provided, websocket)))"

definition scan_provided :: "pyclass \<Rightarrow> pyclass option \<Rightarrow> param \<Rightarrow> custom_scan \<Rightarrow> fa_error + custom_scan" where
  "scan_provided web declared p acc =
     (case acc of (injected, provided, websocket) \<Rightarrow>
     let base = base_class (pr_ann p) in
     rbind (case (declared, base) of
              (Some k, Some c) \<Rightarrow> raise_if (issubclass c k) (HandlerNeedsInject (pr_name p) (cls_name k))
            | _ \<Rightarrow> Inr ()) (\<lambda>_.
     Inr (injected, provided @ [p],
          if map_option cls_id base = Some (cls_id web) then Some (pr_name p) else websocket)))"

definition scan_parameter :: "pyclass \<Rightarrow> pyclass option \<Rightarrow> param \<Rightarrow> custom_scan \<Rightarrow> fa_error + custom_scan" where
  "scan_parameter web declared p acc =
     rbind (raise_if (pr_kind p \<in> {PositionalOnly, VarPositional, VarKeyword}) (HandlerParamKind (pr_name p))) (\<lambda>_.
     rbind (case pr_ann p of None \<Rightarrow> Inr None
            | Some a \<Rightarrow> map_error HandlerDependency (injected_parameter (pr_name p) a)) (\<lambda>d.
     case d of Some i \<Rightarrow> scan_injected declared p i acc | None \<Rightarrow> scan_provided web declared p acc))"

definition added_parameter :: "string \<Rightarrow> ann \<Rightarrow> param" where
  "added_parameter n a = \<lparr>pr_name = n, pr_kind = KeywordOnly, pr_ann = Some a, pr_default = False\<rparr>"

text \<open>The annotation of the context's parameter, \<open>Annotated[Any, Depends(context)]\<close>, is \<open>depends\<close>.\<close>

definition custom_handler ::
  "pyclass \<Rightarrow> ann \<Rightarrow> 'o routes \<Rightarrow> endpoint \<Rightarrow> pyfun \<Rightarrow> fa_error + custom_call" where
  "custom_handler web depends rr e f =
     rbind (raise_if (fn_kind f \<noteq> CoroutineFunction) HandlerNotAsync) (\<lambda>_.
     rbind (fold_res (scan_parameter web (ep_context e)) (fn_params f) ([], [], None)) (\<lambda>(injected, provided, websocket).
     let names = map pr_name (fn_params f);
         ws = (case websocket of Some n \<Rightarrow> n | None \<Rightarrow> free_name names ''_rpckit_websocket'');
         ctx = free_name names ''_rpckit_context'' in
     Inr \<lparr>cu_function = f, cu_injected = injected,
          cu_parameters =
            provided @ (if websocket = None then [added_parameter ws (AnnClass web)] else [])
            @ (if rr_context rr \<noteq> None then [added_parameter ctx depends] else []),
          cu_websocket = ws, cu_context = ctx\<rparr>))"

section \<open>Mounting\<close>

definition route_dependencies :: "'o routes \<Rightarrow> endpoint \<Rightarrow> bool \<Rightarrow> rejections option \<Rightarrow> dependency list" where
  "route_dependencies rr e custom own =
     (if rr_middleware rr \<noteq> [] \<or> ep_middleware e \<noteq> [] then [MiddlewareOf (rr_middleware rr) custom] else [])
     @ [RejectsFailures (chain_rejections [rr_rejections rr, own])]"

definition mount_route ::
  "pyclass \<Rightarrow> ann \<Rightarrow> 'o routes \<Rightarrow> hosted \<Rightarrow> pyfun option \<Rightarrow> fa_error + 'o routes" where
  "mount_route web depends rr h custom =
     (let e = ho_endpoint h in
     rbind (raise_if (hosted_key h \<in> set (rr_mounted rr)) (AlreadyMounted (ep_name e))) (\<lambda>_.
     rbind (check_context rr e) (\<lambda>_.
     rbind (map_error HostedService (endpoint_rejections (ho_service h) e)) (\<lambda>own.
     rbind (route_path (rr_prefix rr) (ep_path e)) (\<lambda>path.
     rbind (case custom of None \<Rightarrow> Inr Serves
            | Some f \<Rightarrow> rbind (custom_handler web depends rr e f) (\<lambda>c. Inr (Calls c))) (\<lambda>handler.
     Inr (rr\<lparr>rr_routes := rr_routes rr @
                [\<lparr>wr_path = path, wr_name = ep_name e, wr_endpoint = h, wr_handler = handler,
                  wr_dependencies = route_dependencies rr e (custom \<noteq> None) own\<rparr>],
             rr_mounted := rr_mounted rr @ [hosted_key h]\<rparr>)))))))"

text \<open>\<open>create_router\<close>: a route per endpoint of the frozen service, with the middleware around it where there is any.\<close>

record router_route =
  ru_path :: string
  ru_name :: string
  ru_endpoint :: endpoint
  ru_boundary :: "nat list option"

definition create_router ::
  "pydantic \<Rightarrow> Service.world \<Rightarrow> service \<Rightarrow> bool \<Rightarrow> bool \<Rightarrow> nat list \<Rightarrow> fa_error + router_route list" where
  "create_router py w sv resolver_given factory_given middleware =
     rbind (raise_if (resolver_given \<and> factory_given) ResolverAndFactory) (\<lambda>_.
     rbind (map_error HostedService (service_freeze py w sv)) (\<lambda>(p, sv', channels).
     Inr (map (\<lambda>e. \<lparr>ru_path = ep_path e, ru_name = ep_name e, ru_endpoint = e,
                     ru_boundary = (if middleware \<noteq> [] \<or> ep_middleware e \<noteq> [] then Some middleware else None)\<rparr>)
            (sv_endpoints sv'))))"

section \<open>Serving a route\<close>

text \<open>What the handler of a route passes on: the resolver, per \<open>WebSocket\<close> where the routes have one (\<open>for_web\<close>),
  and the context under the class that the endpoint declares.\<close>

record 'o web_serving =
  wa_resolver :: "'o resolver_like"
  wa_context :: "'o context_like"
  wa_serving :: serving

definition routes_resolver :: "(nat \<Rightarrow> 'o resolver_like) \<Rightarrow> 'o routes \<Rightarrow> 'o resolver_like" where
  "routes_resolver for_web rr = (case rr_web_resolver rr of Some n \<Rightarrow> for_web n | None \<Rightarrow> rr_resolver rr)"

definition declared_context :: "endpoint \<Rightarrow> 'o \<Rightarrow> 'o context_like" where
  "declared_context e x = (case ep_context e of None \<Rightarrow> ContextNotGiven | Some k \<Rightarrow> ContextMapping [(k, x)])"

definition serve_route ::
  "(nat \<Rightarrow> 'o resolver_like) \<Rightarrow> 'o routes \<Rightarrow> service \<Rightarrow> endpoint \<Rightarrow> 'o \<Rightarrow> service_error + 'o web_serving" where
  "serve_route for_web rr sv e x =
     rbind (endpoint_serve sv e (rr_error_mapper rr) (rr_limits rr) None (rr_rejections rr)) (\<lambda>s.
     Inr \<lparr>wa_resolver = routes_resolver for_web rr, wa_context = declared_context e x, wa_serving = s\<rparr>)"

text \<open>The handler of the user: it gets what FastAPI provides, without the parameters that were added, and what is
  injected. \<open>none\<close> is Python's \<open>None\<close>.\<close>

definition provided_arguments :: "custom_call \<Rightarrow> (string, 'o) dict \<Rightarrow> (string, 'o) dict" where
  "provided_arguments cu given =
     (if cu_websocket cu \<notin> set (map pr_name (fn_params (cu_function cu)))
      then dict_del (cu_websocket cu) given else given)"

definition custom_arguments ::
  "'o resolvers \<Rightarrow> (nat \<Rightarrow> 'o resolver_like) \<Rightarrow> 'o \<Rightarrow> 'o routes \<Rightarrow> endpoint \<Rightarrow> custom_call \<Rightarrow> (string, 'o) dict \<Rightarrow>
   exc + (string, 'o) dict" where
  "custom_arguments us for_web none rr e cu given =
     (let args = provided_arguments cu given;
          x = (case map_of args (cu_context cu) of None \<Rightarrow> none | Some v \<Rightarrow> v) in
     rbind (as_resolver (routes_resolver for_web rr)) (\<lambda>p.
     rbind (connection_scope us p (declared_context e x)) (\<lambda>scoped.
     fold_res (\<lambda>i vs. rbind (resolve_in us scoped (ij_dependency i)) (\<lambda>v. Inr (dict_set (ij_name i) v vs)))
       (cu_injected cu) (dict_del (cu_context cu) args))))"

text \<open>\<open>_middleware_dependency\<close>: a new socket in the scope of the middleware; without any, nothing is kept in the
  scope of the \<open>WebSocket\<close>. \<open>serve_websocket\<close> then serves on the socket of that scope, or on a new one.\<close>

definition web_scope_state :: "serving_state option \<Rightarrow> string \<Rightarrow> nat \<Rightarrow> nat list \<Rightarrow> nat list \<Rightarrow> serving_state option" where
  "web_scope_state active n socket middleware own =
     (case serving_plan active n socket middleware own of
        Uninstrumented \<Rightarrow> None
      | Fresh chain \<Rightarrow> Some (serving_new n socket chain)
      | Reuse \<Rightarrow> active
      | Extend new \<Rightarrow> map_option (\<lambda>st. st\<lparr>sg_chain := sg_chain st @ new\<rparr>) active)"

definition serve_socket :: "serving_state option \<Rightarrow> string \<Rightarrow> nat \<Rightarrow> nat" where
  "serve_socket kept n fresh =
     (case kept of Some st \<Rightarrow> if sg_name st = n then sg_socket st else fresh | None \<Rightarrow> fresh)"

text \<open>A cancelled serving returns: Starlette cancels its task after a disconnect.\<close>

fun serve_websocket_exit :: "run_exit \<Rightarrow> run_exit" where
  "serve_websocket_exit (ExitCancelled b) = ExitReturned"
| "serve_websocket_exit x = x"

section \<open>The connection of a user's handler\<close>

text \<open>
  \<open>_custom_connection\<close>: what the wrapped \<open>send\<close> and \<open>receive\<close> of the \<open>WebSocket\<close> see. \<open>cc_connection\<close>: the
  connection it made; \<open>cc_served\<close>: a serving inside has put its own connection into the scope; \<open>cc_opened\<close>: how often
  \<open>connection_opened\<close> was notified.
\<close>

record custom_state =
  cc_connection :: "connection option"
  cc_served :: bool
  cc_serving :: serving_state
  cc_opened :: nat

datatype custom_event =
    SentAccept
  | SentClose int string
  | SentOther
  | SendDisconnects int string
  | ReceivedDisconnect int string
  | ReceivedOther
  | ServedInside

definition custom_disconnected :: "int \<Rightarrow> string \<Rightarrow> custom_state \<Rightarrow> custom_state" where
  "custom_disconnected code reason s =
     s\<lparr>cc_connection := map_option (\<lambda>c.
         if con_closed c then c
         else (let d = rpc_disconnect_init (Inr code) reason in
               c\<lparr>con_close_code := Some (dis_code d), con_raw_code := dis_raw d,
                 con_close_reason := dis_reason d, con_closed := True\<rparr>)) (cc_connection s)\<rparr>"

definition custom_step :: "web_scope \<Rightarrow> custom_event \<Rightarrow> custom_state \<Rightarrow> custom_state" where
  "custom_step ws ev s =
     (case ev of
        SentAccept \<Rightarrow>
          if cc_connection s = None \<and> \<not> cc_served s
          then s\<lparr>cc_connection := Some ((con_create (sg_name (cc_serving s)) (web_handshake ws) None)\<lparr>con_accepted := True\<rparr>),
                 cc_serving := (cc_serving s)\<lparr>sg_accepted := True\<rparr>, cc_opened := Suc (cc_opened s)\<rparr>
          else s
      | SentClose code reason \<Rightarrow> custom_disconnected code reason s
      | SentOther \<Rightarrow> s
      | SendDisconnects code reason \<Rightarrow> custom_disconnected code reason s
      | ReceivedDisconnect code reason \<Rightarrow> custom_disconnected code reason s
      | ReceivedOther \<Rightarrow> s
      | ServedInside \<Rightarrow> s\<lparr>cc_served := True\<rparr>)"

datatype custom_exit = CustomReturns | CustomDisconnects int string exc | CustomFails caught

definition custom_leave :: "custom_exit \<Rightarrow> custom_state \<Rightarrow> custom_state" where
  "custom_leave x s0 =
     (let s = (case x of
           CustomReturns \<Rightarrow> s0
         | CustomDisconnects code reason e \<Rightarrow>
             custom_disconnected code reason
               (s0\<lparr>cc_serving := (cc_serving s0)\<lparr>sg_disconnect := Some (CaughtExc e),
                     sg_error := (if sg_error (cc_serving s0) = Some (CaughtExc e) then None
                                  else sg_error (cc_serving s0))\<rparr>\<rparr>)
         | CustomFails c \<Rightarrow>
             s0\<lparr>cc_connection := map_option (\<lambda>k.
                  if con_closed k then k
                  else k\<lparr>con_close_code := Some (if c = CaughtCancel then Close_SHUTDOWN else Close_INTERNAL_ERROR)\<rparr>)
                  (cc_connection s0)\<rparr>) in
      s\<lparr>cc_connection := map_option (\<lambda>k. k\<lparr>con_closed := True\<rparr>) (cc_connection s)\<rparr>)"

end
