(* ===== verification/FastApiProps.thy ===== *)
theory FastApiProps
  imports FastApi ServiceProps
begin

text \<open>
  What the routes of \<open>FastApi\<close> guarantee: their paths and contexts, that a failure is answered alike wherever it is
  caught, what a handler of the user is called with, and what its connection records.
\<close>

section \<open>Mounted routes\<close>

lemma route_path_Inr:
  "route_path base path = Inr r \<longleftrightarrow> path = base @ r \<and> take 1 r \<in> {[], ''/''}"
proof
  assume "route_path base path = Inr r"
  then show "path = base @ r \<and> take 1 r \<in> {[], ''/''}"
    by (auto simp: route_path_def result_simps starts_with_def) (metis append_take_drop_id)+
next
  assume "path = base @ r \<and> take 1 r \<in> {[], ''/''}"
  then show "route_path base path = Inr r" by (auto simp: route_path_def starts_with_def)
qed

definition mount_routes ::
  "pyclass \<Rightarrow> ann \<Rightarrow> (hosted \<times> pyfun option) list \<Rightarrow> 'o routes \<Rightarrow> fa_error + 'o routes" where
  "mount_routes web depends ms rr = fold_res (\<lambda>(h, f) rr. mount_route web depends rr h f) ms rr"

definition route_ok :: "'o routes \<Rightarrow> web_route \<Rightarrow> bool" where
  "route_ok rr r \<longleftrightarrow>
     rr_prefix rr @ wr_path r = ep_path (ho_endpoint (wr_endpoint r)) \<and> take 1 (wr_path r) \<in> {[], ''/''}
     \<and> context_fits (rr_context_type rr) (ep_context (ho_endpoint (wr_endpoint r)))
     \<and> (\<exists>own. endpoint_rejections (ho_service (wr_endpoint r)) (ho_endpoint (wr_endpoint r)) = Inr own
           \<and> last (wr_dependencies r) = RejectsFailures (chain_rejections [rr_rejections rr, own]))"

definition same_settings :: "'o routes \<Rightarrow> 'o routes \<Rightarrow> bool" where
  "same_settings a b \<longleftrightarrow> a\<lparr>rr_mounted := [], rr_routes := []\<rparr> = b\<lparr>rr_mounted := [], rr_routes := []\<rparr>"

lemma same_settings_fields:
  assumes "same_settings a b"
  shows "rr_prefix a = rr_prefix b" "rr_context_type a = rr_context_type b" "rr_rejections a = rr_rejections b"
    "rr_context a = rr_context b" "rr_resolver a = rr_resolver b" "rr_web_resolver a = rr_web_resolver b"
    "rr_error_mapper a = rr_error_mapper b" "rr_limits a = rr_limits b" "rr_middleware a = rr_middleware b"
  using assms by (auto simp: same_settings_def dest: arg_cong [where f = rr_prefix] arg_cong [where f = rr_context_type]
      arg_cong [where f = rr_rejections] arg_cong [where f = rr_context] arg_cong [where f = rr_resolver]
      arg_cong [where f = rr_web_resolver] arg_cong [where f = rr_error_mapper] arg_cong [where f = rr_limits]
      arg_cong [where f = rr_middleware])

lemma route_ok_same: "same_settings a b \<Longrightarrow> route_ok a = route_ok b"
  by (rule ext) (simp add: route_ok_def same_settings_fields)

lemma mount_route_parts:
  assumes "mount_route web depends rr h f = Inr rr'"
  obtains own path handler u where "hosted_key h \<notin> set (rr_mounted rr)" "check_context rr (ho_endpoint h) = Inr u"
    "endpoint_rejections (ho_service h) (ho_endpoint h) = Inr own"
    "route_path (rr_prefix rr) (ep_path (ho_endpoint h)) = Inr path"
    "(case f of None \<Rightarrow> Inr Serves
      | Some g \<Rightarrow> rbind (custom_handler web depends rr (ho_endpoint h) g) (\<lambda>c. Inr (Calls c))) = Inr handler"
    "rr' = rr\<lparr>rr_routes := rr_routes rr @
                [\<lparr>wr_path = path, wr_name = ep_name (ho_endpoint h), wr_endpoint = h, wr_handler = handler,
                  wr_dependencies = route_dependencies rr (ho_endpoint h) (f \<noteq> None) own\<rparr>],
             rr_mounted := rr_mounted rr @ [hosted_key h]\<rparr>"
  using assms unfolding mount_route_def Let_def rbind_eq_Inr raise_if_eq map_error_Inr sum.inject
  by (elim exE conjE) (rule that, auto)

lemma mount_route_Inr:
  assumes "mount_route web depends rr h f = Inr rr'"
  obtains r where "rr_routes rr' = rr_routes rr @ [r]" "rr_mounted rr' = rr_mounted rr @ [hosted_key h]"
    "same_settings rr' rr" "wr_endpoint r = h" "hosted_key h \<notin> set (rr_mounted rr)" "route_ok rr r"
proof -
  from assms show thesis
  proof (rule mount_route_parts)
    fix own path handler u
    assume p: "hosted_key h \<notin> set (rr_mounted rr)" "check_context rr (ho_endpoint h) = Inr u"
      "endpoint_rejections (ho_service h) (ho_endpoint h) = Inr own"
      "route_path (rr_prefix rr) (ep_path (ho_endpoint h)) = Inr path"
    define r where "r = \<lparr>wr_path = path, wr_name = ep_name (ho_endpoint h), wr_endpoint = h, wr_handler = handler,
                  wr_dependencies = route_dependencies rr (ho_endpoint h) (f \<noteq> None) own\<rparr>"
    assume rr': "rr' = rr\<lparr>rr_routes := rr_routes rr @
                [\<lparr>wr_path = path, wr_name = ep_name (ho_endpoint h), wr_endpoint = h, wr_handler = handler,
                  wr_dependencies = route_dependencies rr (ho_endpoint h) (f \<noteq> None) own\<rparr>],
             rr_mounted := rr_mounted rr @ [hosted_key h]\<rparr>"
    show thesis
    proof (rule that [of r])
      show "route_ok rr r"
        using p by (auto simp: r_def route_ok_def route_path_Inr check_context_def raise_if_eq route_dependencies_def)
    qed (use p rr' in \<open>simp_all add: same_settings_def r_def\<close>)
  qed
qed

lemma mount_routes_ok:
  assumes "mount_routes web depends ms rr = Inr rr'"
    "list_all (route_ok rr) (rr_routes rr)" "distinct (rr_mounted rr)"
    "map (hosted_key \<circ> wr_endpoint) (rr_routes rr) = rr_mounted rr"
  shows "same_settings rr' rr \<and> list_all (route_ok rr') (rr_routes rr') \<and> distinct (rr_mounted rr')
    \<and> map (hosted_key \<circ> wr_endpoint) (rr_routes rr') = rr_mounted rr'
    \<and> map wr_endpoint (rr_routes rr') = map wr_endpoint (rr_routes rr) @ map fst ms"
  using assms
proof (induction ms arbitrary: rr)
  case Nil
  then show ?case by (simp add: mount_routes_def same_settings_def)
next
  case (Cons m ms)
  obtain h f where m: "m = (h, f)" by (cases m)
  from Cons.prems(1) obtain r1 where r1: "mount_route web depends rr h f = Inr r1"
    and rest: "mount_routes web depends ms r1 = Inr rr'"
    by (auto simp: mount_routes_def m rbind_eq_Inr)
  from mount_route_Inr [OF r1] obtain r where r: "rr_routes r1 = rr_routes rr @ [r]"
      "rr_mounted r1 = rr_mounted rr @ [hosted_key h]" "same_settings r1 rr" "wr_endpoint r = h"
      "hosted_key h \<notin> set (rr_mounted rr)" "route_ok rr r" by blast
  have "list_all (route_ok r1) (rr_routes r1)"
    using Cons.prems(2) r route_ok_same [OF r(3)] by simp
  moreover have "distinct (rr_mounted r1)" using Cons.prems(3) r by simp
  moreover have "map (hosted_key \<circ> wr_endpoint) (rr_routes r1) = rr_mounted r1"
    using Cons.prems(4) r by (simp add: comp_def)
  ultimately have "same_settings rr' r1 \<and> list_all (route_ok rr') (rr_routes rr') \<and> distinct (rr_mounted rr')
    \<and> map (hosted_key \<circ> wr_endpoint) (rr_routes rr') = rr_mounted rr'
    \<and> map wr_endpoint (rr_routes rr') = map wr_endpoint (rr_routes r1) @ map fst ms"
    using Cons.IH [OF rest] by blast
  with r show ?case by (auto simp: m same_settings_def comp_def)
qed

text \<open>C31. The routes of an \<open>RpcRoutes\<close> are the endpoints mounted on it, in order and each once; every route lies at
  the path that its endpoint declares, below the prefix of the router and cut at a segment, its context is of the
  declared class, and its innermost dependency rejects with the policies of the routes and then of the endpoint.\<close>

theorem routes_serve_their_endpoints:
  assumes "routes_init base context resolver rejects rejections middleware mapper limits = Inr rr0"
    and "mount_routes web depends ms rr0 = Inr rr"
  shows "map wr_endpoint (rr_routes rr) = map fst ms \<and> distinct (map (\<lambda>m. hosted_key (fst m)) ms)
    \<and> rr_prefix rr = base \<and> list_all (route_ok rr) (rr_routes rr)"
proof -
  from assms(1) have rr0: "rr_routes rr0 = []" "rr_mounted rr0 = []" "rr_prefix rr0 = base"
    by (auto simp: routes_init_def Let_def result_simps)
  from mount_routes_ok [OF assms(2)] rr0 have ok: "same_settings rr rr0" "list_all (route_ok rr) (rr_routes rr)"
      "distinct (map (hosted_key \<circ> wr_endpoint) (rr_routes rr))" "map wr_endpoint (rr_routes rr) = map fst ms"
    by simp_all
  have "map (hosted_key \<circ> wr_endpoint) (rr_routes rr) = map hosted_key (map wr_endpoint (rr_routes rr))" by simp
  also have "\<dots> = map (\<lambda>m. hosted_key (fst m)) ms" unfolding ok(4) by simp
  finally show ?thesis using ok rr0(3) by (simp add: same_settings_fields)
qed

definition chat_hosted :: hosted where
  "chat_hosted = \<lparr>ho_id = 0, ho_service = chat_service, ho_endpoint = chat_endpoint\<rparr>"

definition chat_routes :: "string routes" where
  "chat_routes =
     \<lparr>rr_prefix = ''/chat'', rr_resolver = ResolverUnset, rr_web_resolver = None, rr_context_type = None,
      rr_context = None, rr_rejections = None, rr_error_mapper = None, rr_limits = None, rr_middleware = [0],
      rr_mounted = [], rr_routes = []\<rparr>"

lemma chat_routes_made:
  "routes_init ''/chat'' None (PerRouter (ResolverUnset :: string resolver_like)) [] None [0] None None = Inr chat_routes"
  by (simp add: routes_init_def chat_routes_def rejecting_contracts_def contract_rejections_def bind_contracts_def
      chain_rejections_def map_error_def Let_def)

lemma chat_mounted:
  "mount_routes web depends [(chat_hosted, None)] chat_routes =
     Inr (chat_routes\<lparr>rr_mounted := [(0, ''chat'')],
            rr_routes := [\<lparr>wr_path = [], wr_name = ''chat'', wr_endpoint = chat_hosted, wr_handler = Serves,
                           wr_dependencies = [MiddlewareOf [0] False, RejectsFailures None]\<rparr>]\<rparr>)"
  by (simp add: mount_routes_def mount_route_def check_context_def context_fits_def route_path_def starts_with_def
      route_dependencies_def hosted_key_def chat_hosted_def chat_routes_def chat_endpoint_def chat_service_def
      endpoint_rejections_def declare_error_def contract_rejections_def bind_contracts_def chain_rejections_def
      map_error_def Let_def)

theorem routes_serve_their_endpoints_witness:
  "map wr_path (case mount_routes cls_WebSocketDisconnect (AnnOther 0) [(chat_hosted, None)] chat_routes of
       Inr rr \<Rightarrow> rr_routes rr | Inl _ \<Rightarrow> []) = [[]]
   \<and> map wr_endpoint (case mount_routes cls_WebSocketDisconnect (AnnOther 0) [(chat_hosted, None)] chat_routes of
       Inr rr \<Rightarrow> rr_routes rr | Inl _ \<Rightarrow> []) = [chat_hosted]"
  using routes_serve_their_endpoints [OF chat_routes_made chat_mounted] by (simp add: chat_mounted)

section \<open>Handlers of the user\<close>

lemma free_name_underscores: "\<exists>k. free_name names n = replicate k CHR ''_'' @ n"
proof (induction names n rule: free_name.induct)
  case (1 names n)
  show ?case
  proof (cases "n \<in> set names")
    case True
    with 1 obtain k where "free_name names (CHR ''_'' # n) = replicate k CHR ''_'' @ CHR ''_'' # n" by blast
    with True have "free_name names n = replicate (Suc k) CHR ''_'' @ n"
      by (simp add: free_name.simps replicate_app_Cons_same)
    then show ?thesis by blast
  next
    case False
    then have "free_name names n = replicate 0 CHR ''_'' @ n" by (simp add: free_name.simps)
    then show ?thesis by blast
  qed
qed

lemma free_name_fresh: "free_name names n \<notin> set names"
proof (induction names n rule: free_name.induct)
  case (1 names n)
  then show ?case by (subst free_name.simps) simp
qed

lemma added_names_differ: "free_name names ''_rpckit_websocket'' \<noteq> free_name names' ''_rpckit_context''"
proof
  assume e: "free_name names ''_rpckit_websocket'' = free_name names' ''_rpckit_context''"
  obtain j k where "free_name names ''_rpckit_websocket'' = replicate j CHR ''_'' @ ''_rpckit_websocket''"
    "free_name names' ''_rpckit_context'' = replicate k CHR ''_'' @ ''_rpckit_context''"
    using free_name_underscores by metis
  with e have "take 2 (rev (replicate j CHR ''_'' @ ''_rpckit_websocket'')) = take 2 (rev (replicate k CHR ''_'' @ ''_rpckit_context''))"
    by simp
  then show False by (simp add: numeral_2_eq_2)
qed

definition scan_names :: "custom_scan \<Rightarrow> string multiset" where
  "scan_names acc = (case acc of (injected, provided, websocket) \<Rightarrow> mset (map ij_name injected) + mset (map pr_name provided))"

definition scan_ok :: "custom_scan \<Rightarrow> bool" where
  "scan_ok acc = (case acc of (injected, provided, websocket) \<Rightarrow>
     case websocket of None \<Rightarrow> True | Some n \<Rightarrow> n \<in> pr_name ` set provided)"

lemma injected_parameter_name: "injected_parameter n a = Inr (Some i) \<Longrightarrow> ij_name i = n"
  by (induction n a rule: injected_parameter.induct) (auto split: if_splits ann.splits)

lemma scan_injected_step:
  assumes "scan_injected declared p i acc = Inr acc'" "scan_ok acc" "ij_name i = pr_name p"
  shows "scan_names acc' = scan_names acc + {#pr_name p#} \<and> scan_ok acc'"
  using assms by (cases acc) (auto simp: scan_injected_def scan_names_def scan_ok_def rbind_eq_Inr)

lemma scan_provided_step:
  assumes "scan_provided web declared p acc = Inr acc'" "scan_ok acc"
  shows "scan_names acc' = scan_names acc + {#pr_name p#} \<and> scan_ok acc'"
  using assms
  by (cases acc) (auto simp: scan_provided_def scan_names_def scan_ok_def rbind_eq_Inr Let_def split: option.splits if_splits)

lemma scan_parameter_step:
  assumes "scan_parameter web declared p acc = Inr acc'" "scan_ok acc"
  shows "scan_names acc' = scan_names acc + {#pr_name p#} \<and> scan_ok acc'"
proof -
  from assms(1) obtain d where d: "(case pr_ann p of None \<Rightarrow> Inr None
            | Some a \<Rightarrow> map_error HandlerDependency (injected_parameter (pr_name p) a)) = Inr d"
    and next_step: "(case d of Some i \<Rightarrow> scan_injected declared p i acc | None \<Rightarrow> scan_provided web declared p acc) = Inr acc'"
    unfolding scan_parameter_def rbind_eq_Inr by blast
  show ?thesis
  proof (cases d)
    case None
    with next_step have "scan_provided web declared p acc = Inr acc'" by simp
    then show ?thesis using assms(2) by (rule scan_provided_step)
  next
    case (Some i)
    with d have "ij_name i = pr_name p" by (auto intro: injected_parameter_name split: option.splits)
    moreover from Some next_step have "scan_injected declared p i acc = Inr acc'" by simp
    ultimately show ?thesis using assms(2) by (intro scan_injected_step)
  qed
qed

lemma scan_parameters:
  "fold_res (scan_parameter web declared) ps acc = Inr acc' \<Longrightarrow> scan_ok acc \<Longrightarrow>
   scan_names acc' = scan_names acc + mset (map pr_name ps) \<and> scan_ok acc'"
proof (induction ps arbitrary: acc)
  case Nil
  then show ?case by simp
next
  case (Cons p ps)
  from Cons.prems(1) obtain acc1 where a: "scan_parameter web declared p acc = Inr acc1"
      "fold_res (scan_parameter web declared) ps acc1 = Inr acc'" by (auto simp: rbind_eq_Inr)
  from scan_parameter_step [OF a(1) Cons.prems(2)] Cons.IH [OF a(2)] show ?case by simp
qed

lemma custom_handler_Inr:
  assumes "custom_handler web depends rr e f = Inr cu"
  obtains provided :: "param list" and websocket where
    "mset (map ij_name (cu_injected cu)) + mset (map pr_name provided) = mset (map pr_name (fn_params f))"
    "case websocket of None \<Rightarrow> cu_websocket cu = free_name (map pr_name (fn_params f)) ''_rpckit_websocket''
       | Some n \<Rightarrow> cu_websocket cu = n \<and> n \<in> pr_name ` set provided"
    "cu_context cu = free_name (map pr_name (fn_params f)) ''_rpckit_context''" "cu_function cu = f"
    "map pr_name (cu_parameters cu) = map pr_name provided @ (if websocket = None then [cu_websocket cu] else [])
       @ (if rr_context rr \<noteq> None then [cu_context cu] else [])"
proof -
  from assms obtain injected provided websocket where
    scan: "fold_res (scan_parameter web (ep_context e)) (fn_params f) ([], [], None) = Inr (injected, provided, websocket)"
    and cu: "cu = \<lparr>cu_function = f, cu_injected = injected,
          cu_parameters =
            provided @ (if websocket = None
              then [added_parameter (case websocket of Some n \<Rightarrow> n | None \<Rightarrow> free_name (map pr_name (fn_params f)) ''_rpckit_websocket'')
                      (AnnClass web)] else [])
            @ (if rr_context rr \<noteq> None
               then [added_parameter (free_name (map pr_name (fn_params f)) ''_rpckit_context'') depends] else []),
          cu_websocket = (case websocket of Some n \<Rightarrow> n | None \<Rightarrow> free_name (map pr_name (fn_params f)) ''_rpckit_websocket''),
          cu_context = free_name (map pr_name (fn_params f)) ''_rpckit_context''\<rparr>"
    unfolding custom_handler_def rbind_eq_Inr Let_def by auto
  from scan_parameters [OF scan] have
    "scan_names (injected, provided, websocket) = mset (map pr_name (fn_params f)) \<and> scan_ok (injected, provided, websocket)"
    by (simp add: scan_ok_def scan_names_def)
  then show thesis
    by (intro that [of provided websocket])
      (auto simp: cu scan_names_def scan_ok_def added_parameter_def split: option.splits)
qed

text \<open>The injected values are set one after the other.\<close>

lemma injected_fold:
  assumes "fold_res (\<lambda>i vs. rbind (g (ij_dependency i)) (\<lambda>v. Inr (dict_set (ij_name i) v vs))) is vs = Inr vs'"
    "distinct (map ij_name is)"
  shows "set (map fst vs') = set (map fst vs) \<union> set (map ij_name is)
    \<and> (distinct (map fst vs) \<longrightarrow> distinct (map fst vs'))
    \<and> (\<forall>n. n \<notin> set (map ij_name is) \<longrightarrow> map_of vs' n = map_of vs n)
    \<and> (\<forall>i \<in> set is. \<exists>v. g (ij_dependency i) = Inr v \<and> map_of vs' (ij_name i) = Some v)"
  using assms
proof (induction "is" arbitrary: vs)
  case Nil
  then show ?case by simp
next
  case (Cons i "is")
  from Cons.prems(1) obtain v where v: "g (ij_dependency i) = Inr v"
      "fold_res (\<lambda>i vs. rbind (g (ij_dependency i)) (\<lambda>v. Inr (dict_set (ij_name i) v vs))) is
         (dict_set (ij_name i) v vs) = Inr vs'" by (auto simp: rbind_eq_Inr)
  have "ij_name i \<notin> set (map ij_name is)" using Cons.prems(2) by auto
  moreover have "set (map fst (dict_set (ij_name i) v vs)) = insert (ij_name i) (set (map fst vs))"
    by (auto simp: dict_simps)
  ultimately show ?case using Cons.IH [OF v(2)] Cons.prems(2) v(1)
    by (auto simp: dict_simps distinct_dict_set)
qed

text \<open>What is left of the arguments that FastAPI provides, before the injected ones are added.\<close>

lemma provided_arguments_kept:
  assumes made: "custom_handler web depends rr e f = Inr cu"
    and names: "distinct (map pr_name (fn_params f))"
    and given: "map fst given = map pr_name (cu_parameters cu)"
  obtains provided :: "string set" where
    "distinct (map ij_name (cu_injected cu))" "distinct (map pr_name (cu_parameters cu))"
    "set (map pr_name (fn_params f)) = set (map ij_name (cu_injected cu)) \<union> provided"
    "cu_context cu \<notin> set (map pr_name (fn_params f))" "cu_function cu = f"
    "set (map fst (dict_del (cu_context cu) (provided_arguments cu given))) = provided"
    "map_of (provided_arguments cu given) (cu_context cu) = map_of given (cu_context cu)"
proof -
  let ?names = "map pr_name (fn_params f)"
  from made obtain provided :: "param list" and websocket where
    split: "mset (map ij_name (cu_injected cu)) + mset (map pr_name provided) = mset ?names"
    and ws: "case websocket of None \<Rightarrow> cu_websocket cu = free_name ?names ''_rpckit_websocket''
       | Some n \<Rightarrow> cu_websocket cu = n \<and> n \<in> pr_name ` set provided"
    and ctx: "cu_context cu = free_name ?names ''_rpckit_context''" and f: "cu_function cu = f"
    and params: "map pr_name (cu_parameters cu) = map pr_name provided @ (if websocket = None then [cu_websocket cu] else [])
       @ (if rr_context rr \<noteq> None then [cu_context cu] else [])"
    by (rule custom_handler_Inr)
  define P where "P = set (map pr_name provided)"
  have d: "distinct (map ij_name (cu_injected cu) @ map pr_name provided)"
    using names split by (metis mset_append mset_eq_imp_distinct_iff)
  have sets: "set ?names = set (map ij_name (cu_injected cu)) \<union> P"
    using split unfolding P_def by (metis mset_append set_append set_mset_mset)
  have c: "cu_context cu \<notin> set ?names" unfolding ctx by (rule free_name_fresh)
  have w: "cu_websocket cu \<in> P \<and> websocket \<noteq> None
      \<or> cu_websocket cu \<notin> set ?names \<and> cu_websocket cu \<noteq> cu_context cu \<and> websocket = None"
    using ws free_name_fresh [of ?names "''_rpckit_websocket''"] added_names_differ [of ?names ?names]
    by (cases websocket) (auto simp: ctx P_def)
  have dp: "distinct (map pr_name (cu_parameters cu))" using d c w sets by (auto simp: params P_def)
  have "fst ` set given = P \<union> (if websocket = None then {cu_websocket cu} else {})
      \<union> (if rr_context rr \<noteq> None then {cu_context cu} else {})"
    using arg_cong [where f = set, OF given] unfolding params P_def by (cases websocket; cases "rr_context rr") auto
  moreover have "fst ` set (provided_arguments cu given) =
      (if cu_websocket cu \<notin> set ?names then fst ` set given - {cu_websocket cu} else fst ` set given)"
    by (auto simp: provided_arguments_def f AList.delete_eq)
  ultimately have "fst ` set (provided_arguments cu given) - {cu_context cu} = P - {cu_context cu}"
    using w sets by (cases websocket) (auto simp del: list.set_map)
  moreover have "fst ` set (dict_del (cu_context cu) (provided_arguments cu given)) =
      fst ` set (provided_arguments cu given) - {cu_context cu}" by (auto simp: AList.delete_eq)
  ultimately have "set (map fst (dict_del (cu_context cu) (provided_arguments cu given))) = P"
    using c sets by auto
  moreover have "map_of (provided_arguments cu given) (cu_context cu) = map_of given (cu_context cu)"
    using w sets by (auto simp: provided_arguments_def f dict_simps)
  ultimately show thesis using that [of P] d dp sets c f by simp
qed

text \<open>C32. A handler of the user is called with exactly its own parameters: those that FastAPI provides have the values
  that it provided, whatever names the user chose; an injected parameter of the endpoint's context class has the
  context; and the parameters that FastAPI sees have distinct names.\<close>

theorem custom_handler_arguments:
  assumes made: "custom_handler web depends rr e f = Inr cu"
    and names: "distinct (map pr_name (fn_params f))"
    and given: "map fst given = map pr_name (cu_parameters cu)"
    and called: "custom_arguments us for_web none rr e cu given = Inr args"
  shows "distinct (map pr_name (cu_parameters cu))
    \<and> set (map fst args) = set (map pr_name (fn_params f)) \<and> distinct (map fst args)
    \<and> (\<forall>n \<in> set (map pr_name (fn_params f)) - set (map ij_name (cu_injected cu)). map_of args n = map_of given n)
    \<and> (\<forall>i \<in> set (cu_injected cu). ep_context e = Some (ij_dependency i) \<longrightarrow>
          map_of args (ij_name i) = Some (case map_of given (cu_context cu) of None \<Rightarrow> none | Some x \<Rightarrow> x))"
proof -
  let ?names = "map pr_name (fn_params f)"
  define kept where "kept = provided_arguments cu given"
  from made names given obtain P where k: "distinct (map ij_name (cu_injected cu))"
    "distinct (map pr_name (cu_parameters cu))" "set ?names = set (map ij_name (cu_injected cu)) \<union> P"
    "cu_context cu \<notin> set ?names" "cu_function cu = f" "set (map fst (dict_del (cu_context cu) kept)) = P"
    "map_of kept (cu_context cu) = map_of given (cu_context cu)"
    unfolding kept_def by (rule provided_arguments_kept)
  define x where "x = (case map_of given (cu_context cu) of None \<Rightarrow> none | Some v \<Rightarrow> v)"
  from called obtain p scoped where scope: "connection_scope us p (declared_context e x) = Inr scoped"
    and fold: "fold_res (\<lambda>i vs. rbind (resolve_in us scoped (ij_dependency i)) (\<lambda>v. Inr (dict_set (ij_name i) v vs)))
       (cu_injected cu) (dict_del (cu_context cu) kept) = Inr args"
    using k(7) by (auto simp: custom_arguments_def kept_def x_def Let_def rbind_eq_Inr)
  note filled = injected_fold [OF fold k(1), unfolded k(6)]
  have dg: "distinct (map fst args)"
    using filled k(2) given by (simp add: kept_def provided_arguments_def dict_simps del: map_map)
  have same: "map_of args n = map_of given n"
    if "n \<in> set ?names" "n \<notin> set (map ij_name (cu_injected cu))" for n
  proof -
    from that(1) k(4) have "n \<noteq> cu_context cu" by metis
    moreover from that(1) have "map_of kept n = map_of given n" unfolding kept_def provided_arguments_def k(5)
      by (cases "n = cu_websocket cu") (auto simp: dict_simps simp del: list.set_map)
    ultimately show ?thesis using that(2) filled by (simp add: dict_simps)
  qed
  have ctx: "map_of args (ij_name i) = Some x"
    if i: "i \<in> set (cu_injected cu)" "ep_context e = Some (ij_dependency i)" for i
  proof -
    have "resolve_in us scoped (ij_dependency i) = Inr x"
      using scope i(2) by (intro context_values_win [of us p "declared_context e x" scoped 0])
        (simp_all add: declared_context_def context_values_def)
    with filled i(1) show ?thesis by fastforce
  qed
  show ?thesis
    using k(2,3) filled dg same ctx unfolding x_def by blast
qed

definition cls_Member :: pyclass where
  "cls_Member = builtin_class 60 ''Member'' [0]"

definition member_endpoint :: endpoint where
  "member_endpoint = chat_endpoint\<lparr>ep_context := Some cls_Member\<rparr>"

definition member_routes :: "string routes" where
  "member_routes = chat_routes\<lparr>rr_context_type := Some cls_Member, rr_context := Some (0, None)\<rparr>"

definition member_handler :: pyfun where
  "member_handler =
     \<lparr>fn_name = ''talk'', fn_qualname = ''talk'',
      fn_params = [\<lparr>pr_name = ''_rpckit_context'', pr_kind = KeywordOnly, pr_ann = None, pr_default = False\<rparr>,
                   \<lparr>pr_name = ''member'', pr_kind = KeywordOnly, pr_ann = Some (AnnInject (AnnClass cls_Member)),
                    pr_default = False\<rparr>],
      fn_return = None, fn_kind = CoroutineFunction, fn_doc = None, fn_is_function = True\<rparr>"

definition member_call :: custom_call where
  "member_call =
     \<lparr>cu_function = member_handler, cu_injected = [\<lparr>ij_name = ''member'', ij_dependency = cls_Member\<rparr>],
      cu_parameters =
        [\<lparr>pr_name = ''_rpckit_context'', pr_kind = KeywordOnly, pr_ann = None, pr_default = False\<rparr>,
         added_parameter ''_rpckit_websocket'' (AnnClass cls_WebSocketDisconnect),
         added_parameter ''__rpckit_context'' (AnnOther 0)],
      cu_websocket = ''_rpckit_websocket'', cu_context = ''__rpckit_context''\<rparr>"

lemma member_call_made:
  "custom_handler cls_WebSocketDisconnect (AnnOther 0) member_routes member_endpoint member_handler = Inr member_call"
  by (simp add: custom_handler_def member_handler_def member_call_def member_endpoint_def member_routes_def
      scan_parameter_def scan_injected_def scan_provided_def base_class_def map_error_def free_name.simps
      cls_unannotated_def cls_Member_def cls_WebSocketDisconnect_def builtin_class_def issubclass_def Let_def)

definition member_given :: "(string, string) dict" where
  "member_given =
     [(''_rpckit_context'', ''topic''), (''_rpckit_websocket'', ''socket''), (''__rpckit_context'', ''Ada'')]"

definition no_resolvers :: "string resolvers" where
  "no_resolvers = \<lparr>us_resolve = (\<lambda>n d. Inr []), us_scope = (\<lambda>n. None), us_connection = (\<lambda>n. None)\<rparr>"

lemma member_called:
  "custom_arguments no_resolvers (\<lambda>n. ResolverUnset) ''None'' member_routes member_endpoint member_call member_given =
     Inr [(''_rpckit_context'', ''topic''), (''member'', ''Ada'')]"
  by (simp add: custom_arguments_def provided_arguments_def member_call_def member_handler_def member_given_def
      member_routes_def member_endpoint_def chat_routes_def routes_resolver_def as_resolver_def connection_scope_def
      declared_context_def context_values_def with_values_def Let_def)

theorem custom_handler_arguments_witness:
  "set (map fst [(''_rpckit_context'', ''topic''), (''member'', ''Ada'')]) = set (map pr_name (fn_params member_handler))
   \<and> map_of [(''_rpckit_context'', ''topic''), (''member'', ''Ada'')] ''member'' = map_of member_given ''__rpckit_context''"
proof -
  have "distinct (map pr_name (fn_params member_handler))" by (simp add: member_handler_def)
  moreover have "map fst member_given = map pr_name (cu_parameters member_call)"
    by (simp add: member_given_def member_call_def added_parameter_def)
  ultimately show ?thesis
    using custom_handler_arguments [OF member_call_made _ _ member_called]
    by (simp add: member_call_def member_given_def member_endpoint_def)
qed

section \<open>Failures\<close>

text \<open>A failure that the policies of the routes or of the endpoint cover is answered alike wherever it happens:
  before the accept the dependency of the route sends what the handshake sends for a failing hook, afterwards it
  closes as a failing stream does; any other failure sends nothing and is raised again.\<close>

theorem failures_answered_alike:
  assumes "mount_route web depends rr h f = Inr rr'"
    and "serve_route for_web rr' (ho_service h) (ho_endpoint h) x = Inr s"
    and "last (wr_dependencies (last (rr_routes rr'))) = RejectsFailures rejections"
  shows "case safe_rejection err rejections of
      None \<Rightarrow> fst (reject_failures rejections ws app err answer st c) = []
        \<and> fst (snd (reject_failures rejections ws app err answer st c)) = Some err
    | Some r \<Rightarrow>
        fst (reject_failures rejections ws AppConnecting err answer st c) =
          map (web_action ws) (fst (run_hook clock wall e hs
            (ar\<lparr>ar_rejections := sg_rejections (wa_serving s), ar_before_accept := Some (\<lambda>_. HookRaises err)\<rparr>) p k vs pv))
        \<and> (\<exists>l. close_stream_error (sg_rejections (wa_serving s)) mapper err (latch_init k) = Inr l
            \<and> (fst (reject_failures rejections ws AppConnected err answer st c) =
                [web_action ws (Closing (lt_code l) (lt_reason l))]
               \<or> (\<exists>kl cl reason. err = StreamCloseExc kl cl reason)))"
proof -
  from assms(1) obtain own path handler u where own: "endpoint_rejections (ho_service h) (ho_endpoint h) = Inr own"
    and rr': "rr' = rr\<lparr>rr_routes := rr_routes rr @
                [\<lparr>wr_path = path, wr_name = ep_name (ho_endpoint h), wr_endpoint = h, wr_handler = handler,
                  wr_dependencies = route_dependencies rr (ho_endpoint h) (f \<noteq> None) own\<rparr>],
             rr_mounted := rr_mounted rr @ [hosted_key h]\<rparr>"
    by (rule mount_route_parts)
  from assms(3) have rs: "rejections = chain_rejections [rr_rejections rr, own]"
    by (simp add: rr' route_dependencies_def)
  with assms(2) own have s: "sg_rejections (wa_serving s) = rejections"
    by (auto simp: serve_route_def endpoint_serve_def rr')
  show ?thesis
    by (auto simp: reject_failures_def s run_hook_def hook_rejection_def refuse_def close_stream_error_def
        stream_request_close_def latch_init_def latch_close_def Let_def split: option.split exc.split)
qed

definition guarded_routes :: "string routes" where
  "guarded_routes = chat_routes\<lparr>rr_rejections := Some (RMap [(cls_TypeError, Rej_FORBIDDEN)])\<rparr>"

definition guarded_mounted :: "string routes" where
  "guarded_mounted =
     guarded_routes\<lparr>rr_mounted := [(0, ''chat'')],
       rr_routes := [\<lparr>wr_path = [], wr_name = ''chat'', wr_endpoint = chat_hosted, wr_handler = Serves,
                      wr_dependencies = [MiddlewareOf [0] False,
                        RejectsFailures (Some (RMap [(cls_TypeError, Rej_FORBIDDEN)]))]\<rparr>]\<rparr>"

lemmas chat_route_defs =
  check_context_def context_fits_def route_path_def starts_with_def route_dependencies_def hosted_key_def
  chat_hosted_def chat_routes_def chat_endpoint_def chat_service_def endpoint_rejections_def declare_error_def
  contract_rejections_def bind_contracts_def chain_rejections_def map_error_def Let_def

lemma guarded_route_mounted:
  "mount_route web depends guarded_routes chat_hosted None = Inr guarded_mounted"
  by (simp add: mount_route_def guarded_routes_def guarded_mounted_def chat_route_defs)

lemma guarded_route_served:
  "serve_route (\<lambda>n. ResolverUnset) guarded_mounted (ho_service chat_hosted) (ho_endpoint chat_hosted) [] =
     Inr \<lparr>wa_resolver = ResolverUnset, wa_context = ContextNotGiven,
          wa_serving = \<lparr>sg_endpoint = chat_endpoint, sg_error_mapper = None, sg_limits = default_limits,
            sg_before_accept = None, sg_rejections = Some (RMap [(cls_TypeError, Rej_FORBIDDEN)])\<rparr>\<rparr>"
  by (simp add: serve_route_def endpoint_serve_def guarded_mounted_def guarded_routes_def routes_resolver_def
      declared_context_def chat_route_defs)

lemma guarded_rejection:
  "safe_rejection (type_error ''no'') (Some (RMap [(cls_TypeError, Rej_FORBIDDEN)])) =
     Some \<lparr>rej_rejection = Rej_FORBIDDEN, rej_reason = ''no'', rej_headers = None\<rparr>"
  by (simp add: safe_rejection_def type_error_def mapped_rejection_def exc_isinstance_def issubclass_def
      cls_TypeError_def builtin_class_def)

definition plain_web :: web_scope where
  "plain_web =
     \<lparr>wb_path = ''/chat'', wb_headers = [], wb_query = [], wb_path_params = [], wb_subprotocols = None,
      wb_client = None, wb_extensions = None\<rparr>"

theorem failures_answered_alike_witness:
  "fst (reject_failures (Some (RMap [(cls_TypeError, Rej_FORBIDDEN)])) plain_web AppConnecting (type_error ''no'')
      WebOk None None) = [WebClose 1008 (close_reason ''no'')]"
proof -
  have "last (wr_dependencies (last (rr_routes guarded_mounted))) =
      RejectsFailures (Some (RMap [(cls_TypeError, Rej_FORBIDDEN)]))"
    by (simp add: guarded_mounted_def)
  from failures_answered_alike [OF guarded_route_mounted guarded_route_served this,
      where err = "type_error ''no''" and ws = plain_web and answer = WebOk and st = None and c = None
        and ar = chat_arrival]
  show ?thesis
    by (simp add: guarded_rejection run_hook_def hook_rejection_def refuse_def web_reject_def denies_over_http_def
        plain_web_def rejection_close_code_def Let_def)
qed

section \<open>The connection of a user's handler\<close>

definition custom_run :: "web_scope \<Rightarrow> custom_event list \<Rightarrow> custom_state \<Rightarrow> custom_state" where
  "custom_run ws evs s = fold (custom_step ws) evs s"

definition custom_start :: "serving_state \<Rightarrow> custom_state" where
  "custom_start st = \<lparr>cc_connection = None, cc_served = False, cc_serving = st, cc_opened = 0\<rparr>"

text \<open>The events that end a connection.\<close>

fun end_of :: "custom_event \<Rightarrow> (int \<times> string) option" where
  "end_of (SentClose code reason) = Some (code, reason)"
| "end_of (SendDisconnects code reason) = Some (code, reason)"
| "end_of (ReceivedDisconnect code reason) = Some (code, reason)"
| "end_of ev = None"

fun exit_of :: "custom_exit \<Rightarrow> conn_close option" where
  "exit_of CustomReturns = None"
| "exit_of (CustomDisconnects code reason e) = Some (dis_code (rpc_disconnect_init (Inr code) reason))"
| "exit_of (CustomFails c) = Some (if c = CaughtCancel then Close_SHUTDOWN else Close_INTERNAL_ERROR)"

definition accepts :: "custom_event list \<Rightarrow> bool" where
  "accepts evs = (SentAccept \<in> set (takeWhile (\<lambda>ev. ev \<noteq> ServedInside) evs))"

lemma custom_run_simps [simp]:
  "custom_run ws [] s = s"
  "custom_run ws (ev # evs) s = custom_run ws evs (custom_step ws ev s)"
  by (simp_all add: custom_run_def)

lemma custom_run_closed:
  "cc_connection s = Some c \<Longrightarrow> con_closed c \<Longrightarrow>
   cc_connection (custom_run ws evs s) = Some c \<and> cc_opened (custom_run ws evs s) = cc_opened s"
proof (induction evs arbitrary: s)
  case (Cons ev evs)
  have "cc_connection (custom_step ws ev s) = Some c \<and> cc_opened (custom_step ws ev s) = cc_opened s"
    using Cons.prems by (cases ev) (simp_all add: custom_step_def custom_disconnected_def)
  with Cons show ?case by simp
qed simp

lemma custom_run_open:
  "cc_connection s = Some c \<Longrightarrow> \<not> con_closed c \<Longrightarrow>
   (\<exists>c'. cc_connection (custom_run ws evs s) = Some c' \<and> con_accepted c' = con_accepted c
      \<and> (case first_some end_of evs of
           None \<Rightarrow> c' = c
         | Some (code, reason) \<Rightarrow> con_closed c' \<and> con_close_code c' = Some (dis_code (rpc_disconnect_init (Inr code) reason))))
   \<and> cc_opened (custom_run ws evs s) = cc_opened s"
proof (induction evs arbitrary: s)
  case (Cons ev evs)
  show ?case
  proof (cases "end_of ev")
    case None
    then have "cc_connection (custom_step ws ev s) = Some c" "cc_opened (custom_step ws ev s) = cc_opened s"
      using Cons.prems by (cases ev; simp add: custom_step_def)+
    with Cons.IH [of "custom_step ws ev s"] Cons.prems(2) None show ?thesis by simp
  next
    case (Some p)
    then obtain code reason where p: "end_of ev = Some (code, reason)" by (cases p) simp
    then have "custom_step ws ev s = custom_disconnected code reason s" by (cases ev) (simp_all add: custom_step_def)
    then obtain c' where c': "cc_connection (custom_step ws ev s) = Some c'" "con_closed c'"
        "con_accepted c' = con_accepted c" "cc_opened (custom_step ws ev s) = cc_opened s"
        "con_close_code c' = Some (dis_code (rpc_disconnect_init (Inr code) reason))"
      using Cons.prems by (simp add: custom_disconnected_def Let_def)
    from custom_run_closed [OF c'(1,2)] c' p show ?thesis by simp
  qed
qed simp

lemma custom_run_served:
  "cc_connection s = None \<Longrightarrow> cc_served s \<Longrightarrow>
   cc_connection (custom_run ws evs s) = None \<and> cc_opened (custom_run ws evs s) = cc_opened s"
proof (induction evs arbitrary: s)
  case (Cons ev evs)
  have "cc_connection (custom_step ws ev s) = None \<and> cc_served (custom_step ws ev s)
      \<and> cc_opened (custom_step ws ev s) = cc_opened s"
    using Cons.prems by (cases ev) (simp_all add: custom_step_def custom_disconnected_def)
  with Cons show ?case by simp
qed simp

definition run_seen :: "custom_event list \<Rightarrow> connection option \<Rightarrow> bool" where
  "run_seen evs r =
     (case r of
        None \<Rightarrow> \<not> accepts evs
      | Some c \<Rightarrow> accepts evs \<and> con_accepted c
          \<and> (case first_some end_of (dropWhile (\<lambda>ev. ev \<noteq> SentAccept) evs) of
               None \<Rightarrow> \<not> con_closed c \<and> con_close_code c = None
             | Some (code, reason) \<Rightarrow>
                 con_closed c \<and> con_close_code c = Some (dis_code (rpc_disconnect_init (Inr code) reason))))"

lemma custom_run_seen:
  "cc_connection s = None \<Longrightarrow> \<not> cc_served s \<Longrightarrow>
   run_seen evs (cc_connection (custom_run ws evs s))
   \<and> cc_opened (custom_run ws evs s) = cc_opened s + (if accepts evs then 1 else 0)"
proof (induction evs arbitrary: s)
  case Nil
  then show ?case by (simp add: run_seen_def accepts_def)
next
  case (Cons ev evs)
  consider "ev = SentAccept" | "ev = ServedInside" | "ev \<noteq> SentAccept" "ev \<noteq> ServedInside" by blast
  then show ?case
  proof cases
    case 1
    define s1 where "s1 = custom_step ws SentAccept s"
    obtain c where c: "cc_connection s1 = Some c" "\<not> con_closed c" "con_accepted c" "con_close_code c = None"
        "cc_opened s1 = Suc (cc_opened s)"
      using Cons.prems by (simp add: s1_def custom_step_def con_create_def)
    from custom_run_open [OF c(1,2), of ws evs] c 1 show ?thesis
      by (auto simp: run_seen_def accepts_def s1_def [symmetric] split: option.splits)
  next
    case 2
    then have "cc_connection (custom_step ws ev s) = None" "cc_served (custom_step ws ev s)"
        "cc_opened (custom_step ws ev s) = cc_opened s"
      using Cons.prems by (simp_all add: custom_step_def)
    from custom_run_served [OF this(1,2), of ws evs] this(3) 2 show ?thesis
      by (simp add: run_seen_def accepts_def)
  next
    case 3
    then have "cc_connection (custom_step ws ev s) = None" "\<not> cc_served (custom_step ws ev s)"
        "cc_opened (custom_step ws ev s) = cc_opened s"
      using Cons.prems by (cases ev; simp add: custom_step_def custom_disconnected_def)+
    moreover from 3 have "run_seen (ev # evs) = run_seen evs" "accepts (ev # evs) = accepts evs"
      by (auto simp: run_seen_def accepts_def fun_eq_iff split: option.splits)
    ultimately show ?thesis using Cons.IH [of "custom_step ws ev s"] by simp
  qed
qed

text \<open>C40. A handler of the user has a connection exactly when it accepted the \<open>WebSocket\<close> itself, which is told once.
  However the handler ends, that connection is then closed, with the code of the first close or disconnect after the
  accept, or else with the code of the way in which the handler ended.\<close>

theorem custom_connection_recorded:
  "cc_opened (custom_leave x (custom_run ws evs (custom_start st))) = (if accepts evs then 1 else 0)
   \<and> (case cc_connection (custom_leave x (custom_run ws evs (custom_start st))) of
        None \<Rightarrow> \<not> accepts evs
      | Some c \<Rightarrow> accepts evs \<and> con_accepted c \<and> con_closed c
          \<and> con_close_code c =
              (case first_some end_of (dropWhile (\<lambda>ev. ev \<noteq> SentAccept) evs) of
                 None \<Rightarrow> exit_of x
               | Some (code, reason) \<Rightarrow> Some (dis_code (rpc_disconnect_init (Inr code) reason))))"
proof -
  define s where "s = custom_run ws evs (custom_start st)"
  have "run_seen evs (cc_connection s)" "cc_opened s = (if accepts evs then 1 else 0)"
    unfolding s_def using custom_run_seen [of "custom_start st" evs ws] by (simp_all add: custom_start_def)
  then show ?thesis unfolding s_def [symmetric]
    by (cases x) (auto simp: run_seen_def custom_leave_def custom_disconnected_def Let_def split: option.splits)
qed

section \<open>Middleware around a route\<close>

text \<open>The serving inside a route enters no middleware again: it reuses the scope that the dependency of the route
  entered on a socket of its own, unless the user's handler serves with middleware of its own.\<close>

lemma route_middleware_once:
  assumes "web_scope_state active n socket middleware own = Some st" "\<forall>a. active = Some a \<longrightarrow> sg_socket a \<noteq> socket"
  shows "serve_socket (Some st) n fresh = socket \<and> sg_chain st = middleware @ own
    \<and> serving_plan (Some st) n (serve_socket (Some st) n fresh) [] own = Reuse"
  using assms
  by (auto simp: web_scope_state_def serving_plan_def serve_socket_def serving_new_def Let_def split: option.splits if_splits)

end
