(* ===== verification/Dishka.thy ===== *)
theory Dishka
  imports FastApiProps
begin

text \<open>
  \<open>integrations/dishka.py\<close>: the resolver over a container of Dishka and the parameters of a dependency function. Containers
  are parameters: one has a scope, or none that can be read, and opening it gives a child of the next scope or of a given one.
\<close>

datatype dishka_scope = ScopeApp | ScopeSession | ScopeOther string

record container =
  dk_id :: nat
  dk_scope :: "dishka_scope option"

type_synonym 'c open_container = "container \<Rightarrow> dishka_scope option \<Rightarrow> 'c \<Rightarrow> exc + container"

datatype dishka_error = NotTheAppContainer dishka_scope | ContainerRaised exc

text \<open>\<open>DishkaResolver.enter_connection\<close> and \<open>enter_scope\<close>: the resolver is given by its container.\<close>

definition dishka_enter_connection :: "(pyclass \<times> nat) list open_container \<Rightarrow> container \<Rightarrow> (pyclass \<times> nat) list \<Rightarrow> dishka_error + container" where
  "dishka_enter_connection open_child c vs =
     (case dk_scope c of
        Some s \<Rightarrow>
          if s \<noteq> ScopeApp then Inl (NotTheAppContainer s)
          else map_error ContainerRaised (open_child c (Some ScopeSession) vs)
      | None \<Rightarrow> map_error ContainerRaised (open_child c (Some ScopeSession) vs))"

definition dishka_enter_scope :: "(pyclass \<times> nat) list open_container \<Rightarrow> container \<Rightarrow> dishka_error + container" where
  "dishka_enter_scope open_child c = map_error ContainerRaised (open_child c None [])"

section \<open>Dependencies\<close>

text \<open>\<open>get_type_hints\<close> without extras takes \<open>Annotated\<close> off.\<close>

fun bare_hint :: "ann \<Rightarrow> ann" where
  "bare_hint (AnnAnnotated a ms) = bare_hint a"
| "bare_hint a = a"

definition websocket_parameter :: "pyclass \<Rightarrow> param list \<Rightarrow> string option" where
  "websocket_parameter web ps =
     (case filter (\<lambda>p. map_option bare_hint (pr_ann p) = Some (AnnClass web)) ps of [] \<Rightarrow> None | p # qs \<Rightarrow> Some (pr_name p))"

text \<open>\<open>Dishka.dependency\<close>: the parameter from which the container is read, and the parameters that are added.\<close>

definition dishka_dependency :: "pyclass \<Rightarrow> param list \<Rightarrow> string \<times> param list" where
  "dishka_dependency web ps =
     (case websocket_parameter web ps of
        Some n \<Rightarrow> (n, [])
      | None \<Rightarrow> (let n = free_name (map pr_name ps) ''_rpckit_websocket'' in (n, [added_parameter n (AnnClass web)])))"

text \<open>The container is always read from a parameter of the injected function that is the WebSocket, and the parameters keep
  distinct names.\<close>

theorem dishka_dependency_names:
  assumes "distinct (map pr_name ps)"
  shows "case dishka_dependency web ps of (n, added) \<Rightarrow>
    distinct (map pr_name (ps @ added))
    \<and> (\<exists>p \<in> set (ps @ added). pr_name p = n \<and> map_option bare_hint (pr_ann p) = Some (AnnClass web))"
proof (cases "websocket_parameter web ps")
  case None
  then show ?thesis using assms free_name_fresh [of "map pr_name ps" "''_rpckit_websocket''"]
    by (simp add: dishka_dependency_def Let_def added_parameter_def)
next
  case (Some n)
  then obtain p qs where f: "filter (\<lambda>p. map_option bare_hint (pr_ann p) = Some (AnnClass web)) ps = p # qs" "pr_name p = n"
    by (auto simp: websocket_parameter_def split: list.splits)
  then have "p \<in> set ps \<and> map_option bare_hint (pr_ann p) = Some (AnnClass web)"
    using filter_eq_ConsD [OF f(1)] by auto
  then show ?thesis using assms Some f(2) by (auto simp: dishka_dependency_def)
qed

text \<open>A connection scope is only opened on the container of the application, or on one whose scope cannot be read.\<close>

lemma dishka_connection_scope:
  "dishka_enter_connection open_child c cs = Inr c' \<Longrightarrow> dk_scope c \<in> {None, Some ScopeApp}"
  by (auto simp: dishka_enter_connection_def split: option.splits if_splits)

end
