(* ===== verification/Telemetry.thy ===== *)
theory Telemetry
  imports Middleware
begin

text \<open>
  \<open>integrations/opentelemetry.py\<close>: the middleware \<open>OpenTelemetry\<close>, with what it tells the instruments and the tracer as a
  log. What OpenTelemetry does with its contexts is a parameter; durations are left out. A scope is a step that enters
  it, with the frame of its generator, and a step that leaves it; the exit restores the context of the caller, so
  contexts are passed explicitly to the body.
\<close>

section \<open>Attributes\<close>

datatype attribute = AttrText string | AttrFlag bool

type_synonym attributes = "(string, attribute) dict"

datatype instrument =
    RpcCalls | RpcActive | RpcDuration
  | Connections | ConnectionsActive | ConnectionsDuration
  | StreamsTotal | StreamsActive | StreamsDuration
  | StreamFrames | StreamBytes | Notifications | SlowConsumers

fun rejection_value :: "rejection \<Rightarrow> string" where
  "rejection_value Rej_UNAUTHORIZED = ''unauthorized''"
| "rejection_value Rej_FORBIDDEN = ''forbidden''"
| "rejection_value Rej_NOT_FOUND = ''not_found''"
| "rejection_value Rej_PROTOCOL_ERROR = ''protocol_error''"
| "rejection_value Rej_UNAVAILABLE = ''unavailable''"
| "rejection_value Rej_INTERNAL_ERROR = ''internal_error''"

fun close_value :: "conn_close \<Rightarrow> string" where
  "close_value Close_NORMAL = ''normal''"
| "close_value Close_SHUTDOWN = ''shutdown''"
| "close_value Close_SERVICE_RESTART = ''service_restart''"
| "close_value Close_PROTOCOL_ERROR = ''protocol_error''"
| "close_value Close_POLICY_VIOLATION = ''policy_violation''"
| "close_value Close_MESSAGE_TOO_BIG = ''message_too_big''"
| "close_value Close_INTERNAL_ERROR = ''internal_error''"
| "close_value Close_TRY_AGAIN_LATER = ''try_again_later''"
| "close_value Close_OTHER = ''other''"

definition close_error :: "conn_close option \<Rightarrow> string option" where
  "close_error close =
     (case close of
        None \<Rightarrow> None
      | Some c \<Rightarrow> if c \<in> {Close_NORMAL, Close_SHUTDOWN, Close_SERVICE_RESTART} then None else Some (close_value c))"

definition close_attributes :: "attributes \<Rightarrow> conn_close option \<Rightarrow> attributes" where
  "close_attributes a close =
     dict_set ''rpckit.close'' (AttrText (case close of None \<Rightarrow> ''unknown'' | Some c \<Rightarrow> close_value c)) a"

text \<open>\<open>_endpoint_attributes\<close> of the name and the path of an endpoint.\<close>

definition endpoint_attributes :: "(string \<times> string) option \<Rightarrow> attributes" where
  "endpoint_attributes e =
     (case e of None \<Rightarrow> [] | Some (n, p) \<Rightarrow> [(''rpckit.endpoint'', AttrText n), (''rpckit.route'', AttrText p)])"

record telemetry_connection =
  ks_endpoint :: "string \<times> string"
  ks_headers :: "(string \<times> string) list"

record request_scope =
  qs_notification :: bool
  qs_method :: "string option"
  qs_endpoint :: "(string \<times> string) option"
  qs_metadata :: "(string, string) dict option"

record stream_scope =
  ss_endpoint :: "string \<times> string"
  ss_stream :: string
  ss_direction :: string

definition stream_attributes :: "stream_scope \<Rightarrow> attributes" where
  "stream_attributes s =
     endpoint_attributes (Some (ss_endpoint s))
     @ [(''rpckit.stream'', AttrText (ss_stream s)), (''rpckit.stream.direction'', AttrText (ss_direction s))]"

definition request_attributes :: "request_scope \<Rightarrow> attributes" where
  "request_attributes s =
     [(''rpc.system.name'', AttrText ''jsonrpc''), (''jsonrpc.protocol.version'', AttrText ''2.0''),
      (''rpckit.notification'', AttrFlag (qs_notification s))]
     @ (case qs_method s of None \<Rightarrow> [] | Some m \<Rightarrow> [(''rpc.method'', AttrText m)])
     @ endpoint_attributes (qs_endpoint s)"

section \<open>The library\<close>

text \<open>Contexts of OpenTelemetry: whether the current span of one is valid, extraction from headers, of the trace context and
  of baggage, injection, and a context with a span in it.\<close>

record 'p otel_lib =
  ol_valid :: "'p \<Rightarrow> bool"
  ol_extract :: "(string, string) dict \<Rightarrow> 'p"
  ol_trace :: "(string, string) dict \<Rightarrow> 'p"
  ol_baggage :: "(string, string) dict \<Rightarrow> 'p \<Rightarrow> 'p"
  ol_inject :: "'p \<Rightarrow> (string, string) dict \<Rightarrow> (string, string) dict"
  ol_inject_baggage :: "'p \<Rightarrow> (string, string) dict \<Rightarrow> (string, string) dict"
  ol_with_span :: "'p \<Rightarrow> nat \<Rightarrow> 'p"
  ol_span_valid :: "nat \<Rightarrow> bool"

record telemetry =
  tm_tracing :: bool
  tm_metrics :: bool
  tm_connection_spans :: bool
  tm_baggage :: bool
  tm_record_exceptions :: bool
  tm_exclude :: "(telemetry_connection + request_scope \<Rightarrow> bool) option"

text \<open>The context variables: the context of OpenTelemetry and the two of the middleware.\<close>

record 'p otel_context =
  ox_current :: 'p
  ox_excluded :: bool
  ox_connection_span :: "nat option"

datatype span_kind = SpanServer | SpanInternal

record 'p span_log =
  sn_name :: string
  sn_kind :: span_kind
  sn_attributes :: attributes
  sn_parent :: 'p
  sn_links :: "nat list"
  sn_failed :: bool
  sn_exceptions :: "caught list"
  sn_ended :: bool

record 'p otel_log =
  og_adds :: "(instrument \<times> int \<times> attributes) list"
  og_records :: "(instrument \<times> attributes) list"
  og_spans :: "'p span_log list"

definition trace_metadata ::
  "'p otel_lib \<Rightarrow> bool \<Rightarrow> 'p otel_context \<Rightarrow> metadata_error + (string, string) dict" where
  "trace_metadata lib include_baggage cx =
     (let carrier = ol_inject lib (ox_current cx) [];
          carrier' = (if include_baggage then ol_inject_baggage lib (ox_current cx) carrier else carrier) in
      validate_metadata (JObj (map (\<lambda>(k, v). (k, JStr v)) carrier')))"

definition remote_context :: "'p otel_lib \<Rightarrow> (string, string) dict \<Rightarrow> bool \<Rightarrow> 'p" where
  "remote_context lib carrier include_baggage =
     (let parent = ol_trace lib carrier in if include_baggage then ol_baggage lib carrier parent else parent)"

section \<open>Instruments and spans\<close>

definition add_metric :: "telemetry \<Rightarrow> instrument \<Rightarrow> int \<Rightarrow> attributes \<Rightarrow> 'p otel_log \<Rightarrow> 'p otel_log" where
  "add_metric t i n a g = (if tm_metrics t then g\<lparr>og_adds := og_adds g @ [(i, n, a)]\<rparr> else g)"

definition record_metric :: "telemetry \<Rightarrow> instrument \<Rightarrow> attributes \<Rightarrow> 'p otel_log \<Rightarrow> 'p otel_log" where
  "record_metric t i a g = (if tm_metrics t then g\<lparr>og_records := og_records g @ [(i, a)]\<rparr> else g)"

text \<open>\<open>_span\<close>: entering attaches the parent, if there is one, and starts the span in it as the current one; without
  tracing there is no span.\<close>

definition span_enter ::
  "'p otel_lib \<Rightarrow> telemetry \<Rightarrow> string \<Rightarrow> span_kind \<Rightarrow> attributes \<Rightarrow> 'p option \<Rightarrow> nat list \<Rightarrow> 'p otel_context \<Rightarrow> 'p otel_log \<Rightarrow>
   nat option \<times> 'p otel_context \<times> 'p otel_log" where
  "span_enter lib t n k a parent links cx g =
     (let base = (case parent of None \<Rightarrow> ox_current cx | Some p \<Rightarrow> p);
          i = length (og_spans g) in
      if \<not> tm_tracing t then (None, cx\<lparr>ox_current := base\<rparr>, g)
      else (Some i, cx\<lparr>ox_current := ol_with_span lib base i\<rparr>,
            g\<lparr>og_spans := og_spans g @
               [\<lparr>sn_name = n, sn_kind = k, sn_attributes = a, sn_parent = base, sn_links = links, sn_failed = False,
                 sn_exceptions = [], sn_ended = False\<rparr>]\<rparr>))"

definition on_span :: "nat option \<Rightarrow> ('p span_log \<Rightarrow> 'p span_log) \<Rightarrow> 'p otel_log \<Rightarrow> 'p otel_log" where
  "on_span s f g =
     (case s of None \<Rightarrow> g | Some i \<Rightarrow> g\<lparr>og_spans := (og_spans g)[i := f (og_spans g ! i)]\<rparr>)"

definition span_attribute :: "string \<Rightarrow> attribute \<Rightarrow> 'p span_log \<Rightarrow> 'p span_log" where
  "span_attribute k v s = s\<lparr>sn_attributes := dict_set k v (sn_attributes s)\<rparr>"

definition span_exit :: "nat option \<Rightarrow> 'p otel_log \<Rightarrow> 'p otel_log" where
  "span_exit s g = on_span s (\<lambda>x. x\<lparr>sn_ended := True\<rparr>) g"

definition error_name :: "caught \<Rightarrow> string" where
  "error_name c = (case c of CaughtExc e \<Rightarrow> cls_name (exc_class e) | CaughtCancel \<Rightarrow> ''CancelledError'')"

definition finish :: "telemetry \<Rightarrow> caught option \<Rightarrow> bool \<Rightarrow> string option \<Rightarrow> 'p span_log \<Rightarrow> 'p span_log" where
  "finish t err cancelled error_type s =
     (let s1 = (if cancelled then span_attribute ''rpckit.cancelled'' (AttrFlag True) s else s) in
      if error_type \<noteq> None \<or> (err \<noteq> None \<and> err \<noteq> Some CaughtCancel) then
        let s2 = span_attribute ''error.type''
              (AttrText (case error_type of Some (c # e) \<Rightarrow> c # e | _ \<Rightarrow> (case err of Some x \<Rightarrow> error_name x | None \<Rightarrow> ''NoneType'')))
              (s1\<lparr>sn_failed := True\<rparr>) in
        (case err of
           Some x \<Rightarrow> if tm_record_exceptions t then s2\<lparr>sn_exceptions := sn_exceptions s2 @ [x]\<rparr> else s2
         | None \<Rightarrow> s2)
      else s1)"

section \<open>Connections\<close>

datatype frame = Skipped | Instrumented attributes "nat option"

definition connection_headers :: "telemetry \<Rightarrow> (string \<times> string) list \<Rightarrow> (string, string) dict" where
  "connection_headers t hs =
     (let d = fold (\<lambda>(k, v). dict_set (map to_lower k) v) hs [] in
      if tm_baggage t then d else dict_del ''baggage'' d)"

definition connection_enter ::
  "'p otel_lib \<Rightarrow> telemetry \<Rightarrow> telemetry_connection \<Rightarrow> 'p otel_context \<Rightarrow> 'p otel_log \<Rightarrow> frame \<times> 'p otel_context \<times> 'p otel_log" where
  "connection_enter lib t sc cx g =
     (if (case tm_exclude t of None \<Rightarrow> False | Some f \<Rightarrow> f (Inl sc)) then (Skipped, cx\<lparr>ox_excluded := True\<rparr>, g)
      else
        let parent = (if ol_valid lib (ox_current cx) then ox_current cx
                      else ol_extract lib (connection_headers t (ks_headers sc)));
            cx1 = cx\<lparr>ox_excluded := False, ox_current := parent\<rparr>;
            a = endpoint_attributes (Some (ks_endpoint sc));
            (s, cx2, g') = (if tm_connection_spans t
                            then span_enter lib t (''WS '' @ snd (ks_endpoint sc)) SpanServer a None [] cx1 g
                            else (None, cx1, g)) in
        (Instrumented a s, cx2\<lparr>ox_connection_span := s\<rparr>, g'))"

definition connection_label :: "connection_outcome \<Rightarrow> string" where
  "connection_label oc =
     (case oc_rejection oc of
        Some r \<Rightarrow> rejection_value r
      | None \<Rightarrow> if oc_accepted oc then ''accepted'' else ''failed'')"

definition connection_exit ::
  "telemetry \<Rightarrow> frame \<Rightarrow> connection_outcome option \<Rightarrow> 'p otel_log \<Rightarrow> 'p otel_log" where
  "connection_exit t fr outcome g =
     (case fr of
        Skipped \<Rightarrow> g
      | Instrumented a s \<Rightarrow>
          span_exit s (case outcome of
            None \<Rightarrow> g
          | Some oc \<Rightarrow>
              let error_type = (case oc_rejection oc of Some r \<Rightarrow> Some (rejection_value r) | None \<Rightarrow> close_error (oc_close_code oc));
                  g1 = on_span s (finish t (oc_error oc) (oc_cancelled oc) error_type) g;
                  result = dict_set ''rpckit.outcome'' (AttrText (connection_label oc)) a in
              if \<not> oc_accepted oc then add_metric t Connections 1 result g1
              else record_metric t ConnectionsDuration (close_attributes result (oc_close_code oc))
                     (add_metric t ConnectionsActive (- 1) a g1)))"

text \<open>\<open>connection_opened\<close>: \<open>serving\<close> is the scope of \<open>_current_serving\<close>.\<close>

definition connection_opened ::
  "telemetry \<Rightarrow> 'p otel_context \<Rightarrow> telemetry_connection option \<Rightarrow> 'p otel_log \<Rightarrow> 'p otel_log" where
  "connection_opened t cx serving g =
     (case serving of
        None \<Rightarrow> g
      | Some sc \<Rightarrow>
          if ox_excluded cx then g
          else let a = endpoint_attributes (Some (ks_endpoint sc)) in
            add_metric t Connections 1 (dict_set ''rpckit.outcome'' (AttrText ''accepted'') a)
              (add_metric t ConnectionsActive 1 a g))"

section \<open>Requests and streams\<close>

definition request_enter ::
  "'p otel_lib \<Rightarrow> telemetry \<Rightarrow> request_scope \<Rightarrow> 'p otel_context \<Rightarrow> 'p otel_log \<Rightarrow> frame \<times> 'p otel_context \<times> 'p otel_log" where
  "request_enter lib t sc cx g =
     (if ox_excluded cx \<or> (case tm_exclude t of None \<Rightarrow> False | Some f \<Rightarrow> f (Inr sc)) then (Skipped, cx, g)
      else
        let a = request_attributes sc;
            n = (case qs_method sc of None \<Rightarrow> ''RPC'' | Some m \<Rightarrow> m);
            parent = map_option (\<lambda>m. remote_context lib m (tm_baggage t)) (qs_metadata sc);
            links = (case (qs_metadata sc, ox_connection_span cx) of
                       (Some m, Some i) \<Rightarrow> if ol_span_valid lib i then [i] else []
                     | _ \<Rightarrow> []);
            (s, cx', g') = span_enter lib t n SpanServer a parent links cx (add_metric t RpcActive 1 a g) in
        (Instrumented a s, cx', g'))"

definition request_label :: "'o request_outcome \<Rightarrow> string" where
  "request_label ro =
     (if ro_cancelled ro then ''cancelled''
      else if ro_error ro \<noteq> None \<or> ro_code ro \<noteq> None then ''error'' else ''success'')"

definition request_exit ::
  "telemetry \<Rightarrow> frame \<Rightarrow> 'o request_outcome option \<Rightarrow> 'p otel_log \<Rightarrow> 'p otel_log" where
  "request_exit t fr outcome g =
     (case fr of
        Skipped \<Rightarrow> g
      | Instrumented a s \<Rightarrow>
          let g1 = add_metric t RpcActive (- 1) a g in
          span_exit s (case outcome of
            None \<Rightarrow> g1
          | Some ro \<Rightarrow>
              let g2 = on_span s (finish t (ro_error ro) (ro_cancelled ro) (ro_code ro)) g1;
                  g3 = (case ro_code ro of
                          None \<Rightarrow> g2
                        | Some c \<Rightarrow> on_span s (span_attribute ''rpc.response.status_code'' (AttrText c)) g2);
                  result = dict_set ''rpckit.outcome'' (AttrText (request_label ro)) a in
              record_metric t RpcDuration result (add_metric t RpcCalls 1 result g3)))"

record stream_outcome =
  st_close_code :: "conn_close option"
  st_error :: "caught option"
  st_cancelled :: bool

definition stream_enter ::
  "'p otel_lib \<Rightarrow> telemetry \<Rightarrow> stream_scope \<Rightarrow> 'p otel_context \<Rightarrow> 'p otel_log \<Rightarrow> frame \<times> 'p otel_context \<times> 'p otel_log" where
  "stream_enter lib t sc cx g =
     (if ox_excluded cx then (Skipped, cx, g)
      else
        let a = stream_attributes sc;
            (s, cx', g') = span_enter lib t (ss_stream sc) SpanInternal a None [] cx (add_metric t StreamsActive 1 a g) in
        (Instrumented a s, cx', g'))"

definition stream_exit :: "telemetry \<Rightarrow> frame \<Rightarrow> stream_outcome option \<Rightarrow> 'p otel_log \<Rightarrow> 'p otel_log" where
  "stream_exit t fr outcome g =
     (case fr of
        Skipped \<Rightarrow> g
      | Instrumented a s \<Rightarrow>
          let g1 = add_metric t StreamsActive (- 1) a g in
          span_exit s (case outcome of
            None \<Rightarrow> g1
          | Some oc \<Rightarrow>
              let g2 = on_span s (finish t (st_error oc) (st_cancelled oc) (close_error (st_close_code oc))) g1;
                  result = close_attributes a (st_close_code oc) in
              record_metric t StreamsDuration result (add_metric t StreamsTotal 1 result g2)))"

text \<open>\<open>_stream_scope\<close> of the middleware gives the outcome of a stream: the close code of its connection and what the serving
  state, if there is one, recorded.\<close>

definition stream_finish :: "connection \<Rightarrow> serving_state option \<Rightarrow> stream_outcome" where
  "stream_finish c state =
     \<lparr>st_close_code = con_close_code c, st_error = (case state of None \<Rightarrow> None | Some st \<Rightarrow> sg_error st),
      st_cancelled = (case state of None \<Rightarrow> False | Some st \<Rightarrow> sg_cancelled st)\<rparr>"

section \<open>Activity\<close>

definition stream_frame ::
  "telemetry \<Rightarrow> 'p otel_context \<Rightarrow> telemetry_connection option \<Rightarrow> string \<Rightarrow> int \<Rightarrow> 'p otel_log \<Rightarrow> 'p otel_log" where
  "stream_frame t cx serving direction bytes g =
     (case serving of
        None \<Rightarrow> g
      | Some sc \<Rightarrow>
          if ox_excluded cx then g
          else let a = dict_set ''rpckit.direction'' (AttrText direction) (endpoint_attributes (Some (ks_endpoint sc))) in
            add_metric t StreamBytes bytes a (add_metric t StreamFrames 1 a g))"

definition stream_frame_sent :: "telemetry \<Rightarrow> 'p otel_context \<Rightarrow> telemetry_connection option \<Rightarrow> int \<Rightarrow> 'p otel_log \<Rightarrow> 'p otel_log" where
  "stream_frame_sent t cx serving bytes g = stream_frame t cx serving ''outbound'' bytes g"

definition stream_frame_received :: "telemetry \<Rightarrow> 'p otel_context \<Rightarrow> telemetry_connection option \<Rightarrow> int \<Rightarrow> 'p otel_log \<Rightarrow> 'p otel_log" where
  "stream_frame_received t cx serving bytes g = stream_frame t cx serving ''inbound'' bytes g"

definition notification_sent :: "telemetry \<Rightarrow> 'p otel_context \<Rightarrow> string \<Rightarrow> 'p otel_log \<Rightarrow> 'p otel_log" where
  "notification_sent t cx n g =
     (if ox_excluded cx then g else add_metric t Notifications 1 [(''rpc.method'', AttrText n)] g)"

definition slow_consumer_closed ::
  "telemetry \<Rightarrow> 'p otel_context \<Rightarrow> telemetry_connection option \<Rightarrow> 'p otel_log \<Rightarrow> 'p otel_log" where
  "slow_consumer_closed t cx serving g =
     (case serving of
        None \<Rightarrow> g
      | Some sc \<Rightarrow> if ox_excluded cx then g else add_metric t SlowConsumers 1 (endpoint_attributes (Some (ks_endpoint sc))) g)"

end
