(* ===== verification/TelemetryProps.thy ===== *)
theory TelemetryProps
  imports Telemetry "HOL-Library.Multiset"
begin

text \<open>
  Telemetry is balanced: whatever connections, requests and streams are open at once and in whatever order they end, every
  gauge shows what is open and the spans that are not ended are those of the open scopes.
\<close>

section \<open>Gauges\<close>

definition gauge :: "instrument \<Rightarrow> attributes \<Rightarrow> 'p otel_log \<Rightarrow> int" where
  "gauge i a g = sum_list (map (\<lambda>(j, n, b). if j = i \<and> b = a then n else 0) (og_adds g))"

definition open_spans :: "'p otel_log \<Rightarrow> nat set" where
  "open_spans g = {k. k < length (og_spans g) \<and> \<not> sn_ended (og_spans g ! k)}"

lemma gauge_add [simp]:
  "gauge i a (add_metric t j n b g) = gauge i a g + (if tm_metrics t \<and> j = i \<and> b = a then n else 0)"
  by (simp add: gauge_def add_metric_def)

lemma gauge_record [simp]: "gauge i a (record_metric t j b g) = gauge i a g"
  by (simp add: gauge_def record_metric_def)

lemma gauge_span [simp]: "gauge i a (on_span s f g) = gauge i a g" "gauge i a (span_exit s g) = gauge i a g"
  by (simp_all add: gauge_def on_span_def span_exit_def split: option.split)

lemma open_spans_metric [simp]:
  "open_spans (add_metric t j n b g) = open_spans g" "open_spans (record_metric t j b g) = open_spans g"
  by (simp_all add: open_spans_def add_metric_def record_metric_def)

lemma spans_metric [simp]:
  "og_spans (add_metric t j n b g) = og_spans g" "og_spans (record_metric t j b g) = og_spans g"
  by (simp_all add: add_metric_def record_metric_def)

lemma open_spans_on:
  "(\<And>x. sn_ended (f x) = sn_ended x) \<Longrightarrow> open_spans (on_span s f g) = open_spans g"
proof (cases s)
  case (Some i)
  assume f: "\<And>x. sn_ended (f x) = sn_ended x"
  have "sn_ended ((og_spans g)[i := f (og_spans g ! i)] ! k) = sn_ended (og_spans g ! k)" if "k < length (og_spans g)" for k
    using that by (cases "i = k") (simp_all add: f)
  then show ?thesis by (auto simp: open_spans_def on_span_def Some)
qed (simp add: on_span_def)

lemma ended_kept [simp]: "sn_ended (finish t err c e x) = sn_ended x" "sn_ended (span_attribute k v x) = sn_ended x"
  by (auto simp: finish_def span_attribute_def Let_def split: option.split)

lemma open_spans_finish [simp]:
  "open_spans (on_span s (finish t err c e) g) = open_spans g" "open_spans (on_span s (span_attribute k v) g) = open_spans g"
  by (simp_all add: open_spans_on)

lemma open_spans_exit [simp]: "open_spans (span_exit s g) = open_spans g - set_option s"
proof (cases s)
  case (Some i)
  have "sn_ended ((og_spans g)[i := (og_spans g ! i)\<lparr>sn_ended := True\<rparr>] ! k) = (k = i \<or> sn_ended (og_spans g ! k))"
    if "k < length (og_spans g)" for k
    using that by (cases "i = k") simp_all
  then show ?thesis by (auto simp: open_spans_def span_exit_def on_span_def Some)
qed (simp add: span_exit_def on_span_def)

section \<open>Scopes that are open\<close>

datatype 'p open_scope =
    OpenConnection frame "'p otel_context" telemetry_connection bool
  | OpenRequest frame
  | OpenStream frame

fun frame_span :: "frame \<Rightarrow> nat option" where
  "frame_span Skipped = None"
| "frame_span (Instrumented a s) = s"

fun scope_frame :: "'p open_scope \<Rightarrow> frame" where
  "scope_frame (OpenConnection fr cx sc b) = fr"
| "scope_frame (OpenRequest fr) = fr"
| "scope_frame (OpenStream fr) = fr"

text \<open>What one open scope adds to a gauge: a connection from when it was announced.\<close>

fun shown :: "instrument \<Rightarrow> attributes \<Rightarrow> 'p open_scope \<Rightarrow> bool" where
  "shown i a (OpenConnection (Instrumented b s) cx sc announced) = (i = ConnectionsActive \<and> b = a \<and> announced)"
| "shown i a (OpenRequest (Instrumented b s)) = (i = RpcActive \<and> b = a)"
| "shown i a (OpenStream (Instrumented b s)) = (i = StreamsActive \<and> b = a)"
| "shown i a s = False"

text \<open>The calls that the server makes, in any interleaving: a connection is announced at most once, and the outcome that
  its scope is left with says that it was accepted if it was announced.\<close>

inductive telemetry_step ::
  "'p otel_lib \<Rightarrow> telemetry \<Rightarrow> 'p otel_log \<times> 'p open_scope multiset \<Rightarrow> 'p otel_log \<times> 'p open_scope multiset \<Rightarrow> bool"
  for lib :: "'p otel_lib" and t :: telemetry where
  Connect: "connection_enter lib t sc cx g = (fr, cx', g') \<Longrightarrow>
    telemetry_step lib t (g, M) (g', add_mset (OpenConnection fr cx' sc False) M)"
| Announce:
    "telemetry_step lib t (g, add_mset (OpenConnection fr cx sc False) M)
       (connection_opened t cx (Some sc) g, add_mset (OpenConnection fr cx sc True) M)"
| Disconnect: "(case outcome of None \<Rightarrow> False | Some oc \<Rightarrow> oc_accepted oc) = b \<Longrightarrow>
    telemetry_step lib t (g, add_mset (OpenConnection fr cx sc b) M) (connection_exit t fr outcome g, M)"
| Request: "request_enter lib t rq cx g = (fr, cx', g') \<Longrightarrow>
    telemetry_step lib t (g, M) (g', add_mset (OpenRequest fr) M)"
| Answer: "telemetry_step lib t (g, add_mset (OpenRequest fr) M) (request_exit t fr (ro :: string request_outcome option) g, M)"
| Stream: "stream_enter lib t st cx g = (fr, cx', g') \<Longrightarrow>
    telemetry_step lib t (g, M) (g', add_mset (OpenStream fr) M)"
| StreamEnd: "telemetry_step lib t (g, add_mset (OpenStream fr) M) (stream_exit t fr so g, M)"
| Frame: "telemetry_step lib t (g, M) (stream_frame t cx serving direction bytes g, M)"
| Notify: "telemetry_step lib t (g, M) (notification_sent t cx n g, M)"
| SlowConsumer: "telemetry_step lib t (g, M) (slow_consumer_closed t cx serving g, M)"

definition scope_ok :: "'p open_scope \<Rightarrow> bool" where
  "scope_ok s =
     (case s of
        OpenConnection fr cx sc b \<Rightarrow>
          (case fr of
             Skipped \<Rightarrow> ox_excluded cx
           | Instrumented a k \<Rightarrow> \<not> ox_excluded cx \<and> a = endpoint_attributes (Some (ks_endpoint sc)))
      | _ \<Rightarrow> True)"

definition scope_spans :: "'p open_scope multiset \<Rightarrow> nat multiset" where
  "scope_spans M = \<Sum>\<^sub># (image_mset (\<lambda>s. case frame_span (scope_frame s) of None \<Rightarrow> {#} | Some k \<Rightarrow> {#k#}) M)"

definition gauges_ok :: "telemetry \<Rightarrow> 'p otel_log \<Rightarrow> 'p open_scope multiset \<Rightarrow> bool" where
  "gauges_ok t g M \<longleftrightarrow>
     (\<forall>i \<in> {ConnectionsActive, RpcActive, StreamsActive}. \<forall>a.
        gauge i a g = (if tm_metrics t then int (size {#s \<in># M. shown i a s#}) else 0))"

definition telemetry_ok :: "telemetry \<Rightarrow> 'p otel_log \<times> 'p open_scope multiset \<Rightarrow> bool" where
  "telemetry_ok t c \<longleftrightarrow>
     (case c of (g, M) \<Rightarrow>
        gauges_ok t g M \<and> mset_set (open_spans g) = scope_spans M \<and> (\<forall>s \<in># M. scope_ok s))"

lemma scope_spans_add:
  "scope_spans (add_mset s M)
   = scope_spans M + (case frame_span (scope_frame s) of None \<Rightarrow> {#} | Some k \<Rightarrow> {#k#})"
  by (simp add: scope_spans_def)

lemma finite_open_spans [simp]: "finite (open_spans g)"
  by (simp add: open_spans_def)

lemma span_enter_spans:
  "span_enter lib t n k a parent links cx g = (s, cx', g') \<Longrightarrow>
   gauge i b g' = gauge i b g \<and> ox_excluded cx' = ox_excluded cx
   \<and> mset_set (open_spans g') = mset_set (open_spans g) + (case s of None \<Rightarrow> {#} | Some k \<Rightarrow> {#k#})"
proof -
  assume e: "span_enter lib t n k a parent links cx g = (s, cx', g')"
  have "open_spans g' = insert (length (og_spans g)) (open_spans g)" if "s = Some (length (og_spans g))"
    using e that by (auto simp: span_enter_def Let_def open_spans_def nth_append split: if_splits)
  moreover have "length (og_spans g) \<notin> open_spans g" by (simp add: open_spans_def)
  ultimately show ?thesis using e by (auto simp: span_enter_def Let_def gauge_def split: if_splits)
qed

lemma mset_set_minus:
  "mset_set (open_spans g) = N + (case s of None \<Rightarrow> {#} | Some k \<Rightarrow> {#k#}) \<Longrightarrow>
   mset_set (open_spans g - set_option s) = N"
proof (cases s)
  case (Some k)
  assume m: "mset_set (open_spans g) = N + (case s of None \<Rightarrow> {#} | Some k \<Rightarrow> {#k#})"
  then have "k \<in># mset_set (open_spans g)" by (simp add: Some)
  then have "k \<in> open_spans g" by simp
  with m show ?thesis by (simp add: Some mset_set_Diff)
qed simp

text \<open>What each operation does to the gauges and the spans.\<close>

definition frame_spans :: "frame \<Rightarrow> nat multiset" where
  "frame_spans fr = (case frame_span fr of None \<Rightarrow> {#} | Some k \<Rightarrow> {#k#})"

definition shown_by :: "telemetry \<Rightarrow> instrument \<Rightarrow> attributes \<Rightarrow> 'p open_scope \<Rightarrow> int" where
  "shown_by t i a s = (if tm_metrics t \<and> shown i a s then 1 else 0)"

definition entered :: "telemetry \<Rightarrow> 'p open_scope \<Rightarrow> 'p otel_log \<Rightarrow> 'p otel_log \<Rightarrow> bool" where
  "entered t s g g' \<longleftrightarrow>
     scope_ok s \<and> mset_set (open_spans g') = mset_set (open_spans g) + frame_spans (scope_frame s)
     \<and> (\<forall>i \<in> {ConnectionsActive, RpcActive, StreamsActive}. \<forall>a. gauge i a g' = gauge i a g + shown_by t i a s)"

definition left_scope :: "telemetry \<Rightarrow> 'p open_scope \<Rightarrow> 'p otel_log \<Rightarrow> 'p otel_log \<Rightarrow> bool" where
  "left_scope t s g g' \<longleftrightarrow>
     open_spans g' = open_spans g - set_option (frame_span (scope_frame s))
     \<and> (\<forall>i \<in> {ConnectionsActive, RpcActive, StreamsActive}. \<forall>a. gauge i a g' = gauge i a g - shown_by t i a s)"

lemma connection_enter_ok:
  assumes "connection_enter lib t sc cx g = (fr, cx', g')"
  shows "entered t (OpenConnection fr cx' sc False) g g'"
proof (cases fr)
  case Skipped
  then show ?thesis using assms
    by (auto simp: connection_enter_def entered_def scope_ok_def frame_spans_def shown_by_def Let_def split: if_splits prod.splits)
next
  case (Instrumented a s)
  then have *: "\<not> ox_excluded cx' \<and> a = endpoint_attributes (Some (ks_endpoint sc))
      \<and> mset_set (open_spans g') = mset_set (open_spans g) + (case s of None \<Rightarrow> {#} | Some k \<Rightarrow> {#k#})
      \<and> (\<forall>i b. gauge i b g' = gauge i b g)"
    using assms span_enter_spans by (fastforce simp: connection_enter_def Let_def split: if_splits prod.splits)
  then show ?thesis by (simp add: entered_def scope_ok_def frame_spans_def shown_by_def Instrumented)
qed

lemma request_enter_ok:
  assumes "request_enter lib t rq cx g = (fr, cx', g')"
  shows "entered t (OpenRequest fr) g g'"
proof (cases fr)
  case Skipped
  then show ?thesis using assms
    by (auto simp: request_enter_def entered_def scope_ok_def frame_spans_def shown_by_def Let_def split: if_splits prod.splits)
next
  case (Instrumented a s)
  then obtain n k b parent links cx0 where "span_enter lib t n k b parent links cx0 (add_metric t RpcActive 1 a g) = (s, cx', g')"
    using assms by (auto simp: request_enter_def Let_def split: if_splits prod.splits)
  from span_enter_spans [OF this] show ?thesis
    by (simp add: entered_def scope_ok_def frame_spans_def shown_by_def Instrumented)
qed

lemma stream_enter_ok:
  assumes "stream_enter lib t st cx g = (fr, cx', g')"
  shows "entered t (OpenStream fr) g g'"
proof (cases fr)
  case Skipped
  then show ?thesis using assms
    by (auto simp: stream_enter_def entered_def scope_ok_def frame_spans_def shown_by_def Let_def split: if_splits prod.splits)
next
  case (Instrumented a s)
  then obtain n k b parent links cx0 where "span_enter lib t n k b parent links cx0 (add_metric t StreamsActive 1 a g) = (s, cx', g')"
    using assms by (auto simp: stream_enter_def Let_def split: if_splits prod.splits)
  from span_enter_spans [OF this] show ?thesis
    by (simp add: entered_def scope_ok_def frame_spans_def shown_by_def Instrumented)
qed

lemma connection_exit_ok:
  "(case outcome of None \<Rightarrow> False | Some oc \<Rightarrow> oc_accepted oc) = b \<Longrightarrow>
   left_scope t (OpenConnection fr cx sc b) g (connection_exit t fr outcome g)"
  by (cases fr) (auto simp: connection_exit_def left_scope_def shown_by_def Let_def split: option.split)

lemma request_exit_ok: "left_scope t (OpenRequest fr) g (request_exit t fr ro g)"
  by (cases fr) (auto simp: request_exit_def left_scope_def shown_by_def Let_def split: option.split)

lemma stream_exit_ok: "left_scope t (OpenStream fr) g (stream_exit t fr so g)"
  by (cases fr) (auto simp: stream_exit_def left_scope_def shown_by_def Let_def split: option.split)

lemma gauges_more:
  "gauges_ok t g M \<Longrightarrow> (\<forall>i \<in> {ConnectionsActive, RpcActive, StreamsActive}. \<forall>a. gauge i a g' = gauge i a g + shown_by t i a s) \<Longrightarrow>
   gauges_ok t g' (add_mset s M)"
  by (simp add: gauges_ok_def shown_by_def)

lemma gauges_fewer:
  "gauges_ok t g (add_mset s M) \<Longrightarrow> (\<forall>i \<in> {ConnectionsActive, RpcActive, StreamsActive}. \<forall>a. gauge i a g' = gauge i a g - shown_by t i a s) \<Longrightarrow>
   gauges_ok t g' M"
  by (auto simp: gauges_ok_def shown_by_def)

lemma entered_ok: "telemetry_ok t (g, M) \<Longrightarrow> entered t s g g' \<Longrightarrow> telemetry_ok t (g', add_mset s M)"
  unfolding telemetry_ok_def entered_def by (auto intro: gauges_more simp: scope_spans_add frame_spans_def)

lemma left_ok: "telemetry_ok t (g, add_mset s M) \<Longrightarrow> left_scope t s g g' \<Longrightarrow> telemetry_ok t (g', M)"
  unfolding telemetry_ok_def left_scope_def
  by (auto intro: gauges_fewer mset_set_minus simp: scope_spans_add)

lemma opened_ok:
  assumes "telemetry_ok t (g, add_mset (OpenConnection fr cx sc False) M)"
  shows "telemetry_ok t (connection_opened t cx (Some sc) g, add_mset (OpenConnection fr cx sc True) M)"
proof (cases fr)
  case Skipped
  then show ?thesis using assms
    by (auto simp: telemetry_ok_def gauges_ok_def connection_opened_def scope_ok_def scope_spans_add Let_def)
next
  case (Instrumented a s)
  then show ?thesis using assms
    by (auto simp: telemetry_ok_def gauges_ok_def connection_opened_def scope_ok_def scope_spans_add Let_def)
qed

lemma activity_ok:
  assumes "telemetry_ok t (g, M)" "open_spans g' = open_spans g"
    "\<And>i a. i \<in> {ConnectionsActive, RpcActive, StreamsActive} \<Longrightarrow> gauge i a g' = gauge i a g"
  shows "telemetry_ok t (g', M)"
  using assms by (auto simp: telemetry_ok_def gauges_ok_def)

lemma telemetry_step_ok: "telemetry_step lib t c c' \<Longrightarrow> telemetry_ok t c \<Longrightarrow> telemetry_ok t c'"
proof (induction rule: telemetry_step.induct)
  case Connect
  then show ?case using entered_ok connection_enter_ok by blast
next
  case Announce
  then show ?case by (rule opened_ok)
next
  case Disconnect
  then show ?case using left_ok connection_exit_ok by blast
next
  case Request
  then show ?case using entered_ok request_enter_ok by blast
next
  case Answer
  then show ?case using left_ok request_exit_ok by blast
next
  case Stream
  then show ?case using entered_ok stream_enter_ok by blast
next
  case StreamEnd
  then show ?case using left_ok stream_exit_ok by blast
next
  case Frame
  then show ?case by (rule activity_ok) (auto simp: stream_frame_def Let_def split: option.split)
next
  case Notify
  then show ?case by (rule activity_ok) (auto simp: notification_sent_def)
next
  case SlowConsumer
  then show ?case by (rule activity_ok) (auto simp: slow_consumer_closed_def split: option.split)
qed

definition no_telemetry :: "'p otel_log" where
  "no_telemetry = \<lparr>og_adds = [], og_records = [], og_spans = []\<rparr>"

lemma telemetry_run_ok:
  "(telemetry_step lib t)\<^sup>*\<^sup>* (no_telemetry, {#}) c \<Longrightarrow> telemetry_ok t c"
proof (induction rule: rtranclp_induct)
  case base
  then show ?case by (simp add: telemetry_ok_def gauges_ok_def no_telemetry_def gauge_def open_spans_def scope_spans_def)
qed (rule telemetry_step_ok)


text \<open>Each connection that is not excluded is counted once, with what became of it.\<close>

definition connection_counts :: "'p otel_log \<Rightarrow> (int \<times> attributes) list" where
  "connection_counts g = map snd (filter (\<lambda>x. fst x = Connections) (og_adds g))"

lemma counts_simps:
  "connection_counts (add_metric t j n b g) = connection_counts g @ (if tm_metrics t \<and> j = Connections then [(n, b)] else [])"
  "connection_counts (record_metric t j b g) = connection_counts g"
  "connection_counts (on_span s f g) = connection_counts g" "connection_counts (span_exit s g) = connection_counts g"
  by (simp_all add: connection_counts_def add_metric_def record_metric_def on_span_def span_exit_def split: option.split)

lemma span_enter_counts:
  "span_enter lib t n k a parent links cx g = (s, cx', g') \<Longrightarrow> connection_counts g' = connection_counts g"
  by (auto simp: span_enter_def connection_counts_def Let_def split: if_splits)

theorem connection_counted_once:
  assumes e: "connection_enter lib t sc cx g = (fr, cx', g1)"
    and g2: "g2 = (if oc_accepted oc then connection_opened t cx' (Some sc) g1 else g1)"
    and metrics: "tm_metrics t" and accepted: "oc_accepted oc \<Longrightarrow> oc_rejection oc = None"
  shows "connection_counts (connection_exit t fr (Some oc) g2)
    = connection_counts g
      @ (if fr = Skipped then []
         else [(1, dict_set ''rpckit.outcome'' (AttrText (connection_label oc)) (endpoint_attributes (Some (ks_endpoint sc))))])"
proof (cases fr)
  case Skipped
  moreover have "scope_ok (OpenConnection fr cx' sc False)" using connection_enter_ok [OF e] by (simp add: entered_def)
  ultimately show ?thesis using e
    by (auto simp: scope_ok_def g2 connection_opened_def connection_exit_def connection_enter_def Let_def split: if_splits prod.splits)
next
  case (Instrumented a s)
  moreover have "scope_ok (OpenConnection fr cx' sc False)" using connection_enter_ok [OF e] by (simp add: entered_def)
  moreover have "connection_counts g1 = connection_counts g"
    using e Instrumented by (auto simp: connection_enter_def Let_def dest: span_enter_counts split: if_splits prod.splits)
  ultimately show ?thesis using metrics accepted
    by (auto simp: scope_ok_def g2 connection_opened_def connection_exit_def counts_simps connection_label_def Let_def)
qed

section \<open>A run\<close>

definition demo_lib :: "nat otel_lib" where
  "demo_lib =
     \<lparr>ol_valid = (\<lambda>p. p = 0), ol_extract = (\<lambda>d. length d), ol_trace = (\<lambda>d. length d), ol_baggage = (\<lambda>d p. p),
      ol_inject = (\<lambda>p d. d), ol_inject_baggage = (\<lambda>p d. d), ol_with_span = (\<lambda>p i. i), ol_span_valid = (\<lambda>i. True)\<rparr>"

definition demo_telemetry :: telemetry where
  "demo_telemetry =
     \<lparr>tm_tracing = True, tm_metrics = True, tm_connection_spans = True, tm_baggage = False, tm_record_exceptions = False,
      tm_exclude = None\<rparr>"

definition demo_scope :: telemetry_connection where
  "demo_scope = \<lparr>ks_endpoint = (''chat'', ''/chat''), ks_headers = [(''Traceparent'', ''00-1'')]\<rparr>"

definition demo_context :: "nat otel_context" where
  "demo_context = \<lparr>ox_current = 1, ox_excluded = False, ox_connection_span = None\<rparr>"


text \<open>An announcement that is missed, since a callback before it was cancelled, leaves the gauge below zero.\<close>

theorem missed_announcement:
  assumes "tm_metrics t" "oc_accepted oc" "connection_enter lib t sc cx g = (Instrumented a s, cx', g1)"
  shows "gauge ConnectionsActive a (connection_exit t (Instrumented a s) (Some oc) g1) = gauge ConnectionsActive a g - 1"
proof -
  have "gauge ConnectionsActive a g1 = gauge ConnectionsActive a g"
    using connection_enter_ok [OF assms(3)] by (simp add: entered_def shown_by_def)
  then show ?thesis using assms(1, 2) by (simp add: connection_exit_def Let_def)
qed

end
