(* ===== verification/Writer.thy ===== *)
theory Writer
  imports Pyobj Utf8
begin

text \<open>
  \<open>codegen/writer.py\<close> and the manifest of \<open>codegen/__init__.py\<close>: writing the rendered files of a client below an output
  directory, and deleting what the previous manifest lists and the new files do not have. A path is the list of its
  parts; the file system maps resolved paths to files and directories, and \<open>resolve\<close> follows symbolic links, which
  no operation changes. Files hold bytes; other processes do not touch the tree meanwhile.
\<close>

section \<open>The file system\<close>

type_synonym path = "string list"

datatype node = FileNode string | DirNode

type_synonym disk = "(path, node) dict"

datatype write_error = UnsafePath string | OsFailure | NotUtf8

definition is_file :: "disk \<Rightarrow> path \<Rightarrow> bool" where
  "is_file d p = (case map_of d p of Some (FileNode c) \<Rightarrow> True | _ \<Rightarrow> False)"

definition is_dir :: "disk \<Rightarrow> path \<Rightarrow> bool" where
  "is_dir d p = (p = [] \<or> map_of d p = Some DirNode)"

text \<open>\<open>read_text\<close> with universal newlines.\<close>

fun universal :: "string \<Rightarrow> string" where
  "universal [] = []"
| "universal (c # s) =
     (if c = CHR 0x0D then CHR 0x0A # (case s of [] \<Rightarrow> [] | e # r \<Rightarrow> if e = CHR 0x0A then universal r else universal s)
      else c # universal s)"

definition read_text :: "disk \<Rightarrow> path \<Rightarrow> write_error + string" where
  "read_text d p =
     (case map_of d p of
        Some (FileNode b) \<Rightarrow> if utf8_valid b then Inr (universal b) else Inl NotUtf8
      | _ \<Rightarrow> Inl OsFailure)"

text \<open>\<open>mkdir(parents=True, exist_ok=True)\<close>: \<open>None\<close> where a file is in the way.\<close>

fun mkdirs :: "path \<Rightarrow> path \<Rightarrow> disk \<Rightarrow> disk option" where
  "mkdirs done [] d = Some d"
| "mkdirs done (x # xs) d =
     (case map_of d (done @ [x]) of
        None \<Rightarrow> mkdirs (done @ [x]) xs (dict_set (done @ [x]) DirNode d)
      | Some DirNode \<Rightarrow> mkdirs (done @ [x]) xs d
      | Some (FileNode c) \<Rightarrow> None)"

definition write_file :: "path \<Rightarrow> string \<Rightarrow> disk \<Rightarrow> disk option" where
  "write_file p c d =
     (if p = [] \<or> map_of d p = Some DirNode \<or> \<not> is_dir d (butlast p) then None
      else Some (dict_set p (FileNode c) d))"

text \<open>\<open>rmdir\<close> of a directory that has entries fails.\<close>

definition rmdir :: "path \<Rightarrow> disk \<Rightarrow> disk option" where
  "rmdir p d =
     (if map_of d p = Some DirNode \<and> \<not> list_ex (\<lambda>q. strict_prefix p q) (dict_keys d) then Some (dict_del p d) else None)"

section \<open>Relative paths\<close>

text \<open>\<open>Path(s).parts\<close> of a POSIX path.\<close>

definition path_parts :: "string \<Rightarrow> path" where
  "path_parts s = filter (\<lambda>p. p \<notin> {[], ''.''}) (split_on CHR ''/'' s)"

definition is_absolute :: "string \<Rightarrow> bool" where
  "is_absolute s = (take 1 s = ''/'')"

definition below :: "path \<Rightarrow> string \<Rightarrow> path" where
  "below out s = (if is_absolute s then path_parts s else out @ path_parts s)"

definition owned_path :: "(path \<Rightarrow> path) \<Rightarrow> path \<Rightarrow> string \<Rightarrow> write_error + path" where
  "owned_path resolve out s =
     rbind (raise_if (is_absolute s \<or> ''..'' \<in> set (path_parts s)) (UnsafePath s)) (\<lambda>_.
     let p = resolve (out @ path_parts s) in
     rbind (raise_if (\<not> prefix (resolve out) p) (UnsafePath s)) (\<lambda>_. Inr p))"

section \<open>The manifest\<close>

definition manifest_name :: string where
  "manifest_name = ''.rpcgen/manifest.json''"

text \<open>\<open>parse\<close> is \<open>json.loads\<close>, \<open>None\<close> its \<open>JSONDecodeError\<close>. A file that is not UTF-8 raises a \<open>UnicodeDecodeError\<close>,
  which is not caught.\<close>

definition manifest_files :: "(string \<Rightarrow> json option) \<Rightarrow> string \<Rightarrow> string list" where
  "manifest_files parse content =
     (case parse content of
        Some j \<Rightarrow>
          (case obj_get j ''files'' of
             Some (JArr xs) \<Rightarrow>
               if list_all (\<lambda>x. case x of JStr s \<Rightarrow> True | _ \<Rightarrow> False) xs
               then concat (map (\<lambda>x. case x of JStr s \<Rightarrow> [s] | _ \<Rightarrow> []) xs) else []
           | _ \<Rightarrow> [])
      | None \<Rightarrow> [])"

definition generated_paths ::
  "(string \<Rightarrow> json option) \<Rightarrow> (path \<Rightarrow> path) \<Rightarrow> path \<Rightarrow> disk \<Rightarrow> write_error + string list" where
  "generated_paths parse resolve out d =
     (let p = resolve (below out manifest_name) in
      if \<not> is_file d p then Inr []
      else rbind (read_text d p) (\<lambda>content. Inr (manifest_files parse content)))"

text \<open>\<open>_with_manifest\<close>: \<open>dumps\<close> is \<open>json.dumps\<close> with its indentation, \<open>digest\<close> the hash of the document, \<open>lib_version\<close>
  the version of rpckit.\<close>

definition layout_version :: int where
  "layout_version = 10"

definition manifest_json :: "string \<Rightarrow> string \<Rightarrow> string \<Rightarrow> string list \<Rightarrow> json" where
  "manifest_json digest lib_version language names =
     JObj [(''generator'', JStr ''rpckit''), (''generatorVersion'', JStr lib_version),
           (''layoutVersion'', JInt layout_version), (''language'', JStr language),
           (''contractSha256'', JStr digest),
           (''files'', JArr (map JStr (sort (names @ [manifest_name]))))]"

definition with_manifest ::
  "(json \<Rightarrow> string) \<Rightarrow> string \<Rightarrow> string \<Rightarrow> string \<Rightarrow> (string, string) dict \<Rightarrow> (string, string) dict" where
  "with_manifest dumps digest lib_version language generated =
     dict_set manifest_name
       (dumps (manifest_json digest lib_version language (dict_keys generated)) @ [CHR 0x0A]) generated"

section \<open>Writing\<close>

text \<open>A step has the paths that differed so far and the disk; it may raise after changing the disk.\<close>

type_synonym 'a written = "disk \<times> (write_error + 'a)"

fun each :: "('a \<Rightarrow> path list \<Rightarrow> disk \<Rightarrow> path list written) \<Rightarrow> 'a list \<Rightarrow> path list \<Rightarrow> disk \<Rightarrow> path list written" where
  "each f [] changed d = (d, Inr changed)"
| "each f (x # xs) changed d =
     (case f x changed d of (d', Inl e) \<Rightarrow> (d', Inl e) | (d', Inr changed') \<Rightarrow> each f xs changed' d')"

definition up_to_date :: "disk \<Rightarrow> path \<Rightarrow> string \<Rightarrow> write_error + bool" where
  "up_to_date d p c = (if map_of d p = None then Inr False else rbind (read_text d p) (\<lambda>t. Inr (t = c)))"

definition write_one ::
  "(path \<Rightarrow> path) \<Rightarrow> path \<Rightarrow> bool \<Rightarrow> string \<times> string \<Rightarrow> path list \<Rightarrow> disk \<Rightarrow> path list written" where
  "write_one resolve out check entry changed d =
     (let j = below out (fst entry); p = resolve j in
      case up_to_date d p (snd entry) of
        Inl e \<Rightarrow> (d, Inl e)
      | Inr True \<Rightarrow> (d, Inr changed)
      | Inr False \<Rightarrow>
          if check then (d, Inr (changed @ [j]))
          else (case mkdirs [] (resolve (butlast j)) d of
                  None \<Rightarrow> (d, Inl OsFailure)
                | Some d1 \<Rightarrow>
                    (case write_file p (snd entry) d1 of
                       None \<Rightarrow> (d1, Inl OsFailure)
                     | Some d2 \<Rightarrow> (d2, Inr (changed @ [j])))))"

function remove_empty_parents :: "path \<Rightarrow> path \<Rightarrow> disk \<Rightarrow> disk" where
  "remove_empty_parents base current d =
     (if current \<noteq> base \<and> prefix base current
      then (case rmdir current d of None \<Rightarrow> d | Some d' \<Rightarrow> remove_empty_parents base (butlast current) d')
      else d)"
  by auto

termination remove_empty_parents
proof (relation "measure (\<lambda>(base, current, d). length current)", simp)
  fix base current :: path and d d' :: disk
  assume "current \<noteq> base \<and> prefix base current"
  then have "current \<noteq> []" by auto
  then show "((base, butlast current, d'), (base, current, d)) \<in> measure (\<lambda>(base, current, d). length current)" by simp
qed

declare remove_empty_parents.simps [simp del]

definition delete_one ::
  "(path \<Rightarrow> path) \<Rightarrow> path \<Rightarrow> bool \<Rightarrow> path \<Rightarrow> path list \<Rightarrow> disk \<Rightarrow> path list written" where
  "delete_one resolve out check p changed d =
     (if \<not> is_file d p then (d, Inr changed)
      else if check then (d, Inr (changed @ [p]))
      else (remove_empty_parents (resolve out) (resolve (butlast p)) (dict_del p d), Inr (changed @ [p])))"

definition write_files ::
  "(string \<Rightarrow> json option) \<Rightarrow> (path \<Rightarrow> path) \<Rightarrow> path \<Rightarrow> bool \<Rightarrow> (string, string) dict \<Rightarrow> disk \<Rightarrow> path list written" where
  "write_files parse resolve out check generated d =
     (case rbind (generated_paths parse resolve out d) (\<lambda>previous.
             traverse (owned_path resolve out)
               (sort (remdups (filter (\<lambda>s. s \<notin> set (dict_keys generated)) previous)))) of
        Inl e \<Rightarrow> (d, Inl e)
      | Inr stale \<Rightarrow>
          (case each (write_one resolve out check) generated [] d of
             (d1, Inl e) \<Rightarrow> (d1, Inl e)
           | (d1, Inr changed) \<Rightarrow> each (delete_one resolve out check) stale changed d1))"

end
