(* ===== verification/PyNames.thy ===== *)
theory PyNames
  imports Views Errors Bindings
begin

text \<open>
  \<open>codegen/python.py\<close>, first part: how the names, values and types of a client are spelled in Python, and the import
  lines of a generated module. Text that is rendered by a template is not modelled; what the templates call is.
\<close>

section \<open>Identifiers\<close>

datatype render_problem =
    NoIdentifier string
  | NoClassName string
  | BadClassName string string
  | BadTransport
  | NeedsServer
  | NoWebSocketTransport "string list"
  | RoutesNeedServer "string list"
  | RuntimeCollision string string
  | BadExtraFile string
  | ExtraFileConflict string
  | BadExtraExport string string
  | ExtraExportConflict string

datatype render_error = Model ir_error | Refused render_problem | RenderCrash

lemma rbind_InrE: "rbind r f = Inr y \<Longrightarrow> (\<And>x. r = Inr x \<Longrightarrow> f x = Inr y \<Longrightarrow> P) \<Longrightarrow> P"
  by (cases r) simp_all

definition refused_if :: "bool \<Rightarrow> render_problem \<Rightarrow> render_error + unit" where
  "refused_if b p = raise_if b (Refused p)"

definition model_error :: "ir_error + 'a \<Rightarrow> render_error + 'a" where
  "model_error r = map_error Model r"

text \<open>A field of the document that should be a string and may be another value.\<close>

fun text_of :: "json \<Rightarrow> render_error + string" where
  "text_of (JStr s) = Inr s"
| "text_of j = Inl RenderCrash"

definition py_keywords :: "string list" where
  "py_keywords =
     [''False'', ''None'', ''True'', ''and'', ''as'', ''assert'', ''async'', ''await'', ''break'', ''class'', ''continue'',
      ''def'', ''del'', ''elif'', ''else'', ''except'', ''finally'', ''for'', ''from'', ''global'', ''if'', ''import'',
      ''in'', ''is'', ''lambda'', ''nonlocal'', ''not'', ''or'', ''pass'', ''raise'', ''return'', ''try'', ''while'',
      ''with'', ''yield'']"

text \<open>\<open>str.isidentifier\<close> on ASCII text.\<close>

definition is_identifier :: "string \<Rightarrow> bool" where
  "is_identifier s =
     (case s of
        [] \<Rightarrow> False
      | c # cs \<Rightarrow> (word_char c \<or> c = CHR ''_'') \<and> \<not> is_digit c \<and> list_all (\<lambda>c. word_char c \<or> c = CHR ''_'') cs)"

definition py_name :: "string \<Rightarrow> string" where
  "py_name n =
     (let i = (if is_digit (hd n) then CHR ''_'' # n else n) in if i \<in> set py_keywords then i @ ''_'' else i)"

definition py_identifier :: "string \<Rightarrow> render_error + string" where
  "py_identifier s = (case snake_case s of [] \<Rightarrow> Inl (Refused (NoIdentifier s)) | c # n \<Rightarrow> Inr (py_name (c # n)))"

definition schema_name :: "string \<Rightarrow> render_error + string" where
  "schema_name s =
     (case pascal_name s of
        [] \<Rightarrow> Inl (Refused (NoClassName s))
      | c # n \<Rightarrow> Inr (if is_digit c then CHR ''_'' # c # n else c # n))"

definition py_constant :: "string \<Rightarrow> render_error + string" where
  "py_constant s = rbind (py_identifier s) (\<lambda>i. Inr (map to_upper i))"

definition api_class :: "string list \<Rightarrow> string" where
  "api_class p = concat (map pascal_name p)"

definition assert_class_name :: "string \<Rightarrow> string \<Rightarrow> render_error + unit" where
  "assert_class_name v option_name =
     refused_if (\<not> is_identifier v \<or> v \<in> set py_keywords) (BadClassName option_name v)"

section \<open>Literals\<close>

text \<open>\<open>json.dumps\<close> of a string without \<open>ensure_ascii\<close>.\<close>

definition hex_letter :: "nat \<Rightarrow> char" where
  "hex_letter n = char_of (if n < 10 then 48 + n else 87 + n)"

definition escape_char :: "char \<Rightarrow> string" where
  "escape_char c =
     (let n = byte_of c in
      if c = CHR 0x22 then [CHR 0x5C, CHR 0x22]
      else if c = CHR 0x5C then [CHR 0x5C, CHR 0x5C]
      else if n = 10 then [CHR 0x5C, CHR ''n'']
      else if n = 13 then [CHR 0x5C, CHR ''r'']
      else if n = 9 then [CHR 0x5C, CHR ''t'']
      else if n = 12 then [CHR 0x5C, CHR ''f'']
      else if n = 8 then [CHR 0x5C, CHR ''b'']
      else if n < 32 then [CHR 0x5C] @ ''u00'' @ [hex_letter (n div 16), hex_letter (n mod 16)]
      else [c])"

definition quote_string :: "string \<Rightarrow> string" where
  "quote_string s = [CHR 0x22] @ concat (map escape_char s) @ [CHR 0x22]"

fun py_literal :: "json \<Rightarrow> string" where
  "py_literal (JStr s) = quote_string s"
| "py_literal JNull = ''None''"
| "py_literal (JBool b) = (if b then ''True'' else ''False'')"
| "py_literal (JObj m) = ''{'' @ join '', '' (map (\<lambda>(k, v). quote_string k @ '': '' @ py_literal v) m) @ ''}''"
| "py_literal (JArr xs) = ''['' @ join '', '' (map py_literal xs) @ '']''"
| "py_literal (JInt i) = int_str i"
| "py_literal (JFloat s) = s"

definition tuple_literal :: "json list \<Rightarrow> string" where
  "tuple_literal vs =
     (if vs = [] then ''()''
      else ''('' @ join '', '' (map py_literal vs) @ (if length vs = 1 then '','' else []) @ '')'')"

text \<open>\<open>" ".join(value.split())\<close>; the replacement that follows replaces three quotes by three quotes.\<close>

function space_parts :: "string \<Rightarrow> string list" where
  "space_parts s =
     (case dropWhile (\<lambda>c. byte_of c \<in> {9, 10, 11, 12, 13, 28, 29, 30, 31, 32}) s of
        [] \<Rightarrow> []
      | c # t \<Rightarrow>
          (c # takeWhile (\<lambda>c. byte_of c \<notin> {9, 10, 11, 12, 13, 28, 29, 30, 31, 32}) t)
          # space_parts (dropWhile (\<lambda>c. byte_of c \<notin> {9, 10, 11, 12, 13, 28, 29, 30, 31, 32}) t))"
  by pat_completeness auto

termination
proof (relation "measure length")
  fix s c t
  assume d: "dropWhile (\<lambda>c. byte_of c \<in> {9, 10, 11, 12, 13, 28, 29, 30, 31, 32}) s = c # t"
  have "length (dropWhile (\<lambda>c. byte_of c \<notin> {9, 10, 11, 12, 13, 28, 29, 30, 31, 32}) t) < length (c # t)"
    by (simp add: less_Suc_eq_le length_dropWhile_le)
  also have "length (c # t) \<le> length s" unfolding d [symmetric] by (rule length_dropWhile_le)
  finally show "(dropWhile (\<lambda>c. byte_of c \<notin> {9, 10, 11, 12, 13, 28, 29, 30, 31, 32}) t, s) \<in> measure length" by simp
qed simp

declare space_parts.simps [simp del]

definition docstring :: "string \<Rightarrow> string" where
  "docstring s = join '' '' (space_parts s)"

section \<open>Imports\<close>

record py_imports =
  im_modules :: "(string, string list) dict"
  im_plain :: "string list"
  im_package :: "string option"

definition no_imports :: "string option \<Rightarrow> py_imports" where
  "no_imports package = \<lparr>im_modules = [], im_plain = [], im_package = package\<rparr>"

definition resolve_module :: "string option \<Rightarrow> string \<Rightarrow> string" where
  "resolve_module package m =
     (case package of
        None \<Rightarrow> m
      | Some p \<Rightarrow>
          if m = p then ''.''
          else if starts_with (p @ ''.'') m then ''.'' @ drop (length p + 1) m
          else m)"

definition add_import :: "string \<Rightarrow> string list \<Rightarrow> py_imports \<Rightarrow> py_imports" where
  "add_import m names im =
     (if names = [] then im
      else (let r = resolve_module (im_package im) m;
                known = (case map_of (im_modules im) r of None \<Rightarrow> [] | Some ns \<Rightarrow> ns) in
            im\<lparr>im_modules := dict_set r (fromkeys (known @ names)) (im_modules im)\<rparr>))"

definition add_module :: "string \<Rightarrow> py_imports \<Rightarrow> py_imports" where
  "add_module m im = im\<lparr>im_plain := fromkeys (im_plain im @ [m])\<rparr>"

definition import_line :: "string \<Rightarrow> string list \<Rightarrow> string" where
  "import_line m names =
     (let inline = ''from '' @ m @ '' import '' @ join '', '' names in
      if length inline \<le> 88 then inline
      else ''from '' @ m @ '' import ('' @ [CHR 0x0A]
           @ concat (map (\<lambda>n. ''    '' @ n @ '','' @ [CHR 0x0A]) names) @ '')'')"

text \<open>Constants, then classes, then functions, each by their names without case.\<close>

definition import_name_key :: "string \<Rightarrow> nat \<times> string" where
  "import_name_key n =
     (if length n > 1 \<and> list_all (\<lambda>c. \<not> is_lower c) n \<and> list_ex is_upper n then 0
      else if is_upper (hd n) then 1 else 2, map to_lower n)"

definition import_group :: "string \<Rightarrow> nat" where
  "import_group m =
     (if starts_with ''.'' m then 3
      else let base = hd (split_on CHR ''.'' m) in
        if base \<in> {''__future__'', ''abc'', ''asyncio'', ''collections'', ''contextlib'', ''dataclasses'', ''datetime'',
                   ''enum'', ''types'', ''typing'', ''uuid''} then 0
        else if base \<in> {''pydantic'', ''rpckit''} then 1 else 2)"

text \<open>A set is sorted by the key alone in \<open>sorted\<close>; names that differ only in case keep the order of the list here.\<close>

definition sort_names :: "string list \<Rightarrow> string list" where
  "sort_names ns =
     sort_key (\<lambda>n. snd (import_name_key n)) (filter (\<lambda>n. fst (import_name_key n) = 0) ns)
     @ sort_key (\<lambda>n. snd (import_name_key n)) (filter (\<lambda>n. fst (import_name_key n) = 1) ns)
     @ sort_key (\<lambda>n. snd (import_name_key n)) (filter (\<lambda>n. fst (import_name_key n) = 2) ns)"

definition import_lines :: "py_imports \<Rightarrow> nat \<Rightarrow> string list" where
  "import_lines im rank =
     map (\<lambda>m. ''import '' @ m) (filter (\<lambda>m. import_group m = rank) (sort (im_plain im)))
     @ map (\<lambda>m. import_line m (sort_names (case map_of (im_modules im) m of None \<Rightarrow> [] | Some ns \<Rightarrow> ns)))
         (filter (\<lambda>m. import_group m = rank) (sort (dict_keys (im_modules im))))"

definition render_imports :: "py_imports \<Rightarrow> string" where
  "render_imports im =
     join [CHR 0x0A, CHR 0x0A]
       (map (join [CHR 0x0A]) (filter (\<lambda>ls. ls \<noteq> []) (map (import_lines im) [0, 1, 2, 3])))"

section \<open>Annotations\<close>

definition py_union :: "string list \<Rightarrow> string" where
  "py_union items = join '' | '' (fromkeys items)"

definition primitive_annotation :: "primitive \<Rightarrow> py_imports \<Rightarrow> string \<times> py_imports" where
  "primitive_annotation p im =
     (case p of
        PrimUuid \<Rightarrow> (''UUID'', add_import ''uuid'' [''UUID''] im)
      | PrimDatetime \<Rightarrow> (''datetime'', add_import ''datetime'' [''datetime''] im)
      | PrimAny \<Rightarrow> (''Any'', add_import ''typing'' [''Any''] im)
      | PrimString \<Rightarrow> (''str'', im)
      | PrimInteger \<Rightarrow> (''int'', im)
      | PrimNumber \<Rightarrow> (''float'', im)
      | PrimBoolean \<Rightarrow> (''bool'', im)
      | PrimNull \<Rightarrow> (''None'', im))"

fun annotation :: "type_expr \<Rightarrow> py_imports \<Rightarrow> render_error + string \<times> py_imports"
  and annotations :: "type_expr list \<Rightarrow> py_imports \<Rightarrow> render_error + string list \<times> py_imports" where
  "annotation (PrimitiveType p) im = Inr (primitive_annotation p im)"
| "annotation (NamedType n) im = rbind (schema_name n) (\<lambda>s. Inr (s, im))"
| "annotation (LiteralType v) im = Inr (''Literal['' @ py_literal v @ '']'', add_import ''typing'' [''Literal''] im)"
| "annotation (EnumLiteralType e m) im =
     rbind (schema_name e) (\<lambda>s. Inr (''Literal['' @ s @ ''.'' @ m @ '']'', add_import ''typing'' [''Literal''] im))"
| "annotation (ListType t) im = rbind (annotation t im) (\<lambda>(a, im'). Inr (''list['' @ a @ '']'', im'))"
| "annotation (MapType t) im = rbind (annotation t im) (\<lambda>(a, im'). Inr (''dict[str, '' @ a @ '']'', im'))"
| "annotation (UnionType ts d) im =
     rbind (annotations ts im) (\<lambda>(as, im').
       case d of
         None \<Rightarrow> Inr (py_union as, im')
       | Some k \<Rightarrow>
           Inr (''Annotated['' @ py_union as @ '', Field(discriminator='' @ py_literal k @ '')]'',
                add_import ''pydantic'' [''Field''] (add_import ''typing'' [''Annotated''] im')))"
| "annotations [] im = Inr ([], im)"
| "annotations (t # ts) im =
     rbind (annotation t im) (\<lambda>(a, im'). rbind (annotations ts im') (\<lambda>(as, im''). Inr (a # as, im'')))"

fun allows_none :: "type_expr \<Rightarrow> bool" where
  "allows_none (PrimitiveType p) = (p = PrimNull)"
| "allows_none (UnionType ts d) = list_ex allows_none ts"
| "allows_none t = False"

definition model_names :: "type_expr \<Rightarrow> render_error + string list" where
  "model_names t = traverse schema_name (fromkeys (named_types t))"

text \<open>\<open>_field_line\<close>: the line of a field of a model. A default of \<open>None\<close> given by the document is a default.\<close>

definition field_default :: "field_decl \<Rightarrow> render_error + string option" where
  "field_default f =
     (case fd_type f of
        EnumLiteralType e m \<Rightarrow> rbind (schema_name e) (\<lambda>s. Inr (Some (s @ ''.'' @ m)))
      | _ \<Rightarrow>
          (case fd_default f of
             Some v \<Rightarrow> Inr (Some (py_literal v))
           | None \<Rightarrow> Inr (if fd_required f then None else Some ''None'')))"

definition optional_annotation :: "field_decl \<Rightarrow> string \<Rightarrow> string" where
  "optional_annotation f a =
     (case fd_type f of
        EnumLiteralType e m \<Rightarrow> a
      | t \<Rightarrow> if fd_default f = None \<and> \<not> fd_required f \<and> \<not> allows_none t then py_union [a, ''None''] else a)"

definition field_line :: "field_decl \<Rightarrow> py_imports \<Rightarrow> render_error + string \<times> py_imports" where
  "field_line f im =
     rbind (annotation (fd_type f) im) (\<lambda>(a, im').
     rbind (py_identifier (fd_name f)) (\<lambda>n.
     rbind (field_default f) (\<lambda>d.
     let alias = quote_string (fd_name f);
         head = ''    '' @ n @ '': '' @ optional_annotation f a;
         aliased = add_import ''pydantic'' [''Field''] im' in
     Inr (case d of
            None \<Rightarrow>
              if n = fd_name f then (head, im')
              else (head @ '' = Field(alias='' @ alias @ '')'', aliased)
          | Some v \<Rightarrow>
              if n = fd_name f then (head @ '' = '' @ v, im')
              else (head @ '' = Field('' @ v @ '', alias='' @ alias @ '')'', aliased)))))"

definition parameter_annotation ::
  "string \<Rightarrow> param_decl \<Rightarrow> py_imports \<Rightarrow> render_error + string \<times> py_imports" where
  "parameter_annotation package p im =
     rbind (annotation (pa_type p) im) (\<lambda>(a, im').
     Inr (if pa_required p then (a, im')
          else (py_union [a, ''UnsetType''] @ '' = UNSET'', add_import (package @ ''.internal'') [''UNSET'', ''UnsetType''] im')))"

definition stream_connection :: "string \<Rightarrow> stream_decl \<Rightarrow> py_imports \<Rightarrow> string \<times> py_imports" where
  "stream_connection package s im =
     (let n = (if sr_direction s = ''client-to-server'' then ''BinarySender''
               else if sr_direction s = ''bidirectional'' then ''BinaryChannel'' else ''BinaryReceiver'') in
      (n, add_import (package @ ''.streams'') [n] im))"

definition variable_annotation :: "variable_decl \<Rightarrow> string" where
  "variable_annotation v =
     (if va_enum v = [] then ''str'' else ''Literal['' @ join '', '' (map py_literal (va_enum v)) @ '']'')"

end
