(* ===== verification/Cli.thy ===== *)
theory Cli
  imports Writer PyNames
begin

text \<open>
  \<open>codegen/cli.py\<close> and \<open>schema/export.py\<close>: the commands \<open>schema\<close> and \<open>generate\<close>, with a single client or a config of many. The TOML and
  JSON parsers, the import of a contract, the renderers of the languages and Python's parser for extra files are
  parameters; the parsing of the command line by argparse and what is printed are left out. A command ends with an exit
  code, or with an exception that it does not catch.
\<close>

section \<open>Results\<close>

datatype exit = Exit int | Uncaught | MissingJinja

text \<open>An exception is of one of the classes that the caller names in its \<open>except\<close> clause, or of another; the missing module
  \<open>jinja2\<close> is only caught in \<open>main\<close>. Loading a contract has classes of its own: two callers catch different ones.\<close>

datatype cli_error = Reported | Escapes | NoJinja

datatype source_error = ReferenceFailed | ValueFailed | OtherFailed

fun failed_exit :: "cli_error \<Rightarrow> exit" where
  "failed_exit Reported = Exit 2"
| "failed_exit Escapes = Uncaught"
| "failed_exit NoJinja = MissingJinja"

datatype source = SourceContract nat | SourceService | SourceChannel | SourceOther

record client_args =
  ca_schema :: path
  ca_language :: string
  ca_output :: path
  ca_package :: "json option"
  ca_client_name :: "json option"
  ca_transport_module :: json
  ca_api_root :: "json option"
  ca_api_names :: "(string, string) dict"
  ca_transport :: "json option"
  ca_extra_files :: "path list"
  ca_extra_exports :: "string list"

definition languages :: "string list" where
  "languages = [''python'', ''typescript'']"

section \<open>Entries of the config\<close>

definition config_string :: "json \<Rightarrow> string \<Rightarrow> cli_error + string" where
  "config_string client key =
     (case obj_get client key of
        Some (JStr (c # s)) \<Rightarrow> Inr (c # s)
      | _ \<Rightarrow> Inl Reported)"

definition nonempty_string :: "json \<Rightarrow> string option" where
  "nonempty_string j = (case j of JStr (c # s) \<Rightarrow> Some (c # s) | _ \<Rightarrow> None)"

definition config_string_list :: "json \<Rightarrow> string \<Rightarrow> cli_error + string list" where
  "config_string_list client key =
     (case obj_get client key of
        None \<Rightarrow> Inr []
      | Some (JArr xs) \<Rightarrow>
          if list_all (\<lambda>x. nonempty_string x \<noteq> None) xs then Inr (List.map_filter nonempty_string xs) else Inl Reported
      | Some j \<Rightarrow> Inl Reported)"

definition string_table :: "json \<Rightarrow> (string, string) dict option" where
  "string_table j =
     (case j of
        JObj m \<Rightarrow>
          if list_all (\<lambda>(k, v). case v of JStr s \<Rightarrow> True | _ \<Rightarrow> False) m
          then Some (map (\<lambda>(k, v). (k, case v of JStr s \<Rightarrow> s | _ \<Rightarrow> [])) m) else None
      | _ \<Rightarrow> None)"

text \<open>\<open>client.get(key)\<close> of a table, and whether it is truthy.\<close>

definition entry_given :: "json \<Rightarrow> string \<Rightarrow> bool" where
  "entry_given client key = (case obj_get client key of None \<Rightarrow> False | Some j \<Rightarrow> truthy j)"

definition config_arguments :: "path \<Rightarrow> json \<Rightarrow> path option \<Rightarrow> cli_error + client_args" where
  "config_arguments base client default_schema =
     rbind (raise_if (\<not> is_obj client) Reported) (\<lambda>_.
     rbind (raise_if (obj_get client ''schema'' = None \<and> default_schema = None) Reported) (\<lambda>_.
     rbind (case obj_get client ''language'' of
              Some (JStr l) \<Rightarrow> if l \<in> set languages then Inr l else Inl Reported
            | _ \<Rightarrow> Inl Reported) (\<lambda>language.
     rbind (raise_if (language \<noteq> ''python'' \<and> (entry_given client ''extra_files'' \<or> entry_given client ''extra_exports'')) Reported) (\<lambda>_.
     rbind (case string_table (case obj_get client ''api_names'' of None \<Rightarrow> JObj [] | Some j \<Rightarrow> j) of
              None \<Rightarrow> Inl Reported | Some t \<Rightarrow> Inr t) (\<lambda>api_names.
     rbind (case (obj_get client ''schema'', default_schema) of
              (None, Some p) \<Rightarrow> Inr p
            | _ \<Rightarrow> rbind (config_string client ''schema'') (\<lambda>s. Inr (below base s))) (\<lambda>schema.
     rbind (config_string client ''output'') (\<lambda>out.
     rbind (config_string_list client ''extra_files'') (\<lambda>extra_files.
     rbind (config_string_list client ''extra_exports'') (\<lambda>extra_exports.
     Inr \<lparr>ca_schema = schema, ca_language = language, ca_output = below base out, ca_package = obj_get client ''package'',
          ca_client_name = obj_get client ''client_name'',
          ca_transport_module = (case obj_get client ''transport_module'' of None \<Rightarrow> JStr ''../transport'' | Some j \<Rightarrow> j),
          ca_api_root = obj_get client ''api_root'', ca_api_names = api_names,
          ca_transport = obj_get client ''with_transport'', ca_extra_files = map (below base) extra_files,
          ca_extra_exports = extra_exports\<rparr>)))))))))"

section \<open>Extra files\<close>

text \<open>\<open>top_names\<close>: the names that the statements at the top of a Python file bind, \<open>None\<close> a \<open>SyntaxError\<close>. A name that is
  bound twice has no owner.\<close>

definition claim_name :: "string \<Rightarrow> string \<Rightarrow> (string, string) dict \<Rightarrow> (string, string) dict" where
  "claim_name stem n owners = dict_set n (if n \<in> set (dict_keys owners) then [] else stem) owners"

definition read_extra ::
  "(string \<Rightarrow> string list option) \<Rightarrow> disk \<Rightarrow> path \<Rightarrow> (string, string) dict \<times> (string, string) dict \<Rightarrow>
   cli_error + (string, string) dict \<times> (string, string) dict" where
  "read_extra top_names d p fo =
     (let (files, owners) = fo; n = last ([] # p) in
      if \<not> ends_with ''.py'' n \<or> n = ''.py'' \<or> n \<in> set (dict_keys files) then Inl Reported
      else
        (case read_text d p of
           Inl e \<Rightarrow> Inl Reported
         | Inr content \<Rightarrow>
             (case top_names content of
                None \<Rightarrow> Inl Reported
              | Some ns \<Rightarrow> Inr (dict_set n content files, fold (claim_name (remove_suffix ''.py'' n)) ns owners))))"

definition resolve_export ::
  "(string, string) dict \<Rightarrow> string \<Rightarrow> (string, string) dict \<Rightarrow> cli_error + (string, string) dict" where
  "resolve_export owners n resolved =
     (case map_of owners n of
        Some (c # m) \<Rightarrow>
          if \<not> is_identifier n \<or> n \<in> set (dict_keys resolved) then Inl Reported
          else Inr (dict_set n (c # m) resolved)
      | _ \<Rightarrow> Inl Reported)"

definition extra_python_files ::
  "(string \<Rightarrow> string list option) \<Rightarrow> disk \<Rightarrow> path list \<Rightarrow> string list \<Rightarrow>
   cli_error + (string, string) dict \<times> (string, string) dict" where
  "extra_python_files top_names d paths exports =
     rbind (fold_res (read_extra top_names d) paths ([], [])) (\<lambda>(files, owners).
     rbind (fold_res (resolve_export owners) exports []) (\<lambda>resolved. Inr (files, resolved)))"

section \<open>Generating\<close>

text \<open>What the command line works with: the parsers, the import of a module with its attributes (\<open>ImportError\<close> is
  \<open>ReferenceFailed\<close>), the rendering of a contract, the renderers, which get the arguments with the
  extra files and exports, and the resolution of paths.\<close>

record tools =
  tl_toml :: "string \<Rightarrow> json option"
  tl_json :: "string \<Rightarrow> json option"
  tl_import :: "string \<Rightarrow> source_error + (string \<Rightarrow> source option)"
  tl_contract :: "nat \<Rightarrow> json option \<Rightarrow> json option \<Rightarrow> (string \<times> string) list option \<Rightarrow> source_error + string"
  tl_render :: "client_args \<Rightarrow> (string, string) dict \<times> (string, string) dict \<Rightarrow> json \<Rightarrow> cli_error + (string, string) dict"
  tl_names :: "string \<Rightarrow> string list option"
  tl_resolve :: "path \<Rightarrow> path"

definition render_client :: "tools \<Rightarrow> disk \<Rightarrow> client_args \<Rightarrow> json \<Rightarrow> cli_error + (string, string) dict" where
  "render_client tk d args document =
     (if ca_language args = ''python'' then
        rbind (extra_python_files (tl_names tk) d (ca_extra_files args) (ca_extra_exports args)) (\<lambda>extra.
        tl_render tk args extra document)
      else tl_render tk args ([], []) document)"

definition write_client :: "tools \<Rightarrow> path \<Rightarrow> bool \<Rightarrow> (string, string) dict \<Rightarrow> disk \<Rightarrow> path list written" where
  "write_client tk out check files d = write_files (tl_json tk) (tl_resolve tk) out check files d"

definition generate_one :: "tools \<Rightarrow> client_args \<Rightarrow> bool \<Rightarrow> disk \<Rightarrow> disk \<times> exit" where
  "generate_one tk args check d =
     (case read_text d (ca_schema args) of
        Inl e \<Rightarrow> (d, Uncaught)
      | Inr content \<Rightarrow>
          (case tl_json tk content of
             None \<Rightarrow> (d, Uncaught)
           | Some document \<Rightarrow>
               (case render_client tk d args document of
                  Inl e \<Rightarrow> (d, if e = NoJinja then MissingJinja else Uncaught)
                | Inr files \<Rightarrow>
                    (case write_client tk (ca_output args) check files d of
                       (d', Inl e) \<Rightarrow> (d', Uncaught)
                     | (d', Inr changed) \<Rightarrow> (d', Exit (if check \<and> changed \<noteq> [] then 1 else 0))))))"

definition split_at :: "char \<Rightarrow> string \<Rightarrow> (string \<times> string) option" where
  "split_at sep s =
     (let n = takeWhile (\<lambda>c. c \<noteq> sep) s in
      case drop (length n) s of [] \<Rightarrow> None | c # v \<Rightarrow> Some (n, v))"

definition load_contract_source :: "tools \<Rightarrow> string \<Rightarrow> source_error + nat" where
  "load_contract_source tk reference =
     (case split_at CHR '':'' reference of
        Some (c # m, e # a) \<Rightarrow>
          rbind (tl_import tk (c # m)) (\<lambda>attributes.
          case attributes (e # a) of
            Some (SourceContract k) \<Rightarrow> Inr k
          | _ \<Rightarrow> Inl ReferenceFailed)
      | _ \<Rightarrow> Inl ReferenceFailed)"

definition config_failure :: "source_error \<Rightarrow> cli_error" where
  "config_failure e = (case e of OtherFailed \<Rightarrow> Escapes | _ \<Rightarrow> Reported)"

definition schema_failure :: "source_error \<Rightarrow> cli_error" where
  "schema_failure e = (case e of ReferenceFailed \<Rightarrow> Reported | _ \<Rightarrow> Escapes)"

text \<open>\<open>_config_contract\<close>: the file of the contract and its content.\<close>

definition config_contract :: "tools \<Rightarrow> path \<Rightarrow> json \<Rightarrow> cli_error + path \<times> string" where
  "config_contract tk base contract =
     rbind (raise_if (\<not> is_obj contract) Reported) (\<lambda>_.
     rbind (config_string contract ''source'') (\<lambda>source.
     rbind (config_string contract ''output'') (\<lambda>out.
     rbind (map_error config_failure (load_contract_source tk source)) (\<lambda>k.
     rbind (case obj_get contract ''servers'' of
              None \<Rightarrow> Inr None
            | Some j \<Rightarrow> (case string_table j of None \<Rightarrow> Inl Reported | Some t \<Rightarrow> Inr (Some t))) (\<lambda>servers.
     rbind (map_error config_failure
              (tl_contract tk k (obj_get contract ''title'') (obj_get contract ''description'') servers)) (\<lambda>content.
     Inr (below base out, content)))))))"

definition config_clients :: "json \<Rightarrow> json list option" where
  "config_clients config =
     (if obj_get config ''version'' \<notin> {Some (JInt 1), Some (JBool True), Some (JFloat ''1.0'')} then None
      else (case obj_get config ''clients'' of Some (JArr (c # cs)) \<Rightarrow> Some (c # cs) | _ \<Rightarrow> None))"

definition document_of :: "tools \<Rightarrow> disk \<Rightarrow> (path \<times> string) option \<Rightarrow> path \<Rightarrow> json option" where
  "document_of tk d contract schema =
     (case contract of
        Some (out, content) \<Rightarrow>
          if schema = out then tl_json tk content
          else (case read_text d schema of Inl e \<Rightarrow> None | Inr t \<Rightarrow> tl_json tk t)
      | None \<Rightarrow> (case read_text d schema of Inl e \<Rightarrow> None | Inr t \<Rightarrow> tl_json tk t))"

type_synonym job = "client_args \<times> (string, string) dict"

definition render_job ::
  "tools \<Rightarrow> disk \<Rightarrow> (path \<times> string) option \<Rightarrow> client_args \<Rightarrow> cli_error + job" where
  "render_job tk d contract args =
     (case document_of tk d contract (ca_schema args) of
        None \<Rightarrow> Inl Escapes
      | Some document \<Rightarrow> rbind (render_client tk d args document) (\<lambda>files. Inr (args, files)))"

text \<open>Everything that \<open>_generate_config\<close> does before it writes.\<close>

definition plan_config :: "tools \<Rightarrow> path \<Rightarrow> disk \<Rightarrow> cli_error + (path \<times> string) option \<times> job list" where
  "plan_config tk config_path d =
     rbind (case read_text d config_path of
              Inl e \<Rightarrow> Inl Reported
            | Inr t \<Rightarrow> (case tl_toml tk t of None \<Rightarrow> Inl Reported | Some j \<Rightarrow> Inr j)) (\<lambda>config.
     rbind (case config_clients config of None \<Rightarrow> Inl Reported | Some cs \<Rightarrow> Inr cs) (\<lambda>clients.
     rbind (case obj_get config ''contract'' of
              None \<Rightarrow> Inr None
            | Some c \<Rightarrow> rbind (config_contract tk (butlast config_path) c) (\<lambda>j. Inr (Some j))) (\<lambda>contract.
     rbind (traverse (\<lambda>c. config_arguments (butlast config_path) c (map_option fst contract)) clients) (\<lambda>args.
     rbind (case contract of
              None \<Rightarrow> Inr ()
            | Some (out, content) \<Rightarrow> if tl_json tk content = None then Inl Escapes else Inr ()) (\<lambda>_.
     rbind (traverse (render_job tk d contract) args) (\<lambda>jobs. Inr (contract, jobs)))))))"

fun write_jobs :: "tools \<Rightarrow> bool \<Rightarrow> job list \<Rightarrow> bool \<Rightarrow> disk \<Rightarrow> bool written" where
  "write_jobs tk check [] failed d = (d, Inr failed)"
| "write_jobs tk check ((args, files) # jobs) failed d =
     (case write_client tk (ca_output args) check files d of
        (d', Inl e) \<Rightarrow> (d', Inl e)
      | (d', Inr changed) \<Rightarrow> write_jobs tk check jobs (changed \<noteq> [] \<or> failed) d')"

definition write_contract :: "tools \<Rightarrow> bool \<Rightarrow> (path \<times> string) option \<Rightarrow> disk \<Rightarrow> path list written" where
  "write_contract tk check contract d =
     (case contract of
        None \<Rightarrow> (d, Inr [])
      | Some (out, content) \<Rightarrow> write_client tk (butlast out) check [(last ([] # out), content)] d)"

definition generate_config :: "tools \<Rightarrow> path \<Rightarrow> bool \<Rightarrow> disk \<Rightarrow> disk \<times> exit" where
  "generate_config tk config_path check d =
     (case plan_config tk config_path d of
        Inl e \<Rightarrow> (d, failed_exit e)
      | Inr (contract, jobs) \<Rightarrow>
          (case write_contract tk check contract d of
             (d1, Inl e) \<Rightarrow> (d1, Uncaught)
           | (d1, Inr changed) \<Rightarrow>
               (case write_jobs tk check jobs (changed \<noteq> []) d1 of
                  (d2, Inl e) \<Rightarrow> (d2, Uncaught)
                | (d2, Inr failed) \<Rightarrow> (d2, Exit (if check \<and> failed then 1 else 0)))))"

section \<open>Commands\<close>

text \<open>\<open>_server\<close> and \<open>_name_mapping\<close>.\<close>

definition server_entry :: "string \<Rightarrow> (string \<times> string) option" where
  "server_entry s = split_at CHR ''='' s"

definition name_mapping :: "string \<Rightarrow> (string \<times> string) option" where
  "name_mapping s = (case split_at CHR ''='' s of Some (c # n, e # v) \<Rightarrow> Some (c # n, e # v) | _ \<Rightarrow> None)"

text \<open>\<open>_schema\<close> of \<open>rpckit schema\<close>. An ill-formed server entry raises an \<open>ArgumentTypeError\<close>, which is not caught here.\<close>

definition schema_command ::
  "tools \<Rightarrow> string \<Rightarrow> path \<Rightarrow> json option \<Rightarrow> json option \<Rightarrow> string list \<Rightarrow> bool \<Rightarrow> disk \<Rightarrow> disk \<times> exit" where
  "schema_command tk source out title description servers check d =
     (case rbind (map_error schema_failure (load_contract_source tk source)) (\<lambda>k.
           rbind (raise_if (list_ex (\<lambda>s. server_entry s = None) servers) Escapes) (\<lambda>_.
           map_error schema_failure (tl_contract tk k title description
             (if servers = [] then None else Some (List.map_filter server_entry servers))))) of
        Inl e \<Rightarrow> (d, failed_exit e)
      | Inr content \<Rightarrow>
          (case write_contract tk check (Some (out, content)) d of
             (d', Inl e) \<Rightarrow> (d', Uncaught)
           | (d', Inr changed) \<Rightarrow> (d', Exit (if check \<and> changed \<noteq> [] then 1 else 0))))"

definition generate_command ::
  "tools \<Rightarrow> path option \<Rightarrow> client_args option \<Rightarrow> bool \<Rightarrow> disk \<Rightarrow> disk \<times> exit" where
  "generate_command tk config args check d =
     (case config of
        Some p \<Rightarrow> generate_config tk p check d
      | None \<Rightarrow> (case args of None \<Rightarrow> (d, Exit 2) | Some a \<Rightarrow> generate_one tk a check d))"

text \<open>The part of \<open>main\<close> around \<open>_generate\<close>.\<close>

definition generate_main ::
  "tools \<Rightarrow> path option \<Rightarrow> client_args option \<Rightarrow> bool \<Rightarrow> disk \<Rightarrow> disk \<times> exit" where
  "generate_main tk config args check d =
     (case generate_command tk config args check d of
        (d', MissingJinja) \<Rightarrow> (d', Exit 2)
      | r \<Rightarrow> r)"

end
