(* ===== verification/WriterProps.thy ===== *)
theory WriterProps
  imports Writer
begin

text \<open>
  What writing a generated client does to the files on the disk: an abstract description as a map from paths to
  contents, which \<open>write_files\<close> implements, and what follows from it: nothing else is touched, a dry run tells what a
  run would do, and a second run does nothing.
\<close>

section \<open>The files on a disk\<close>

definition file_at :: "disk \<Rightarrow> path \<Rightarrow> string option" where
  "file_at d p = (case map_of d p of Some (FileNode c) \<Rightarrow> Some c | _ \<Rightarrow> None)"

lemma file_at_simps [simp]:
  "file_at (dict_set p (FileNode c) d) = (file_at d)(p \<mapsto> c)"
  "map_of d p = Some DirNode \<Longrightarrow> file_at d p = None"
  "map_of d p = None \<Longrightarrow> file_at d p = None"
  by (auto simp: file_at_def dict_simps fun_eq_iff)

lemma file_at_del: "file_at (dict_del p d) = (file_at d)(p := None)"
  by (auto simp: file_at_def dict_simps fun_eq_iff)

lemma is_file_at: "is_file d p \<longleftrightarrow> file_at d p \<noteq> None"
  by (auto simp: is_file_def file_at_def split: option.splits node.splits)

text \<open>Directories that are made are new; no file is touched.\<close>

lemma mkdirs_keeps:
  "mkdirs made xs d = Some d' \<Longrightarrow>
   file_at d' = file_at d
   \<and> (\<forall>q. map_of d' q = map_of d q \<or> map_of d q = None \<and> map_of d' q = Some DirNode \<and> prefix q (made @ xs))"
proof (induction made xs d rule: mkdirs.induct)
  case (2 made x xs d)
  show ?case
  proof (cases "map_of d (made @ [x])")
    case None
    with "2.prems" have "mkdirs (made @ [x]) xs (dict_set (made @ [x]) DirNode d) = Some d'" by simp
    from "2.IH"(1) [OF None this] have ih: "file_at d' = file_at (dict_set (made @ [x]) DirNode d)"
      "\<forall>q. map_of d' q = map_of (dict_set (made @ [x]) DirNode d) q
         \<or> map_of (dict_set (made @ [x]) DirNode d) q = None \<and> map_of d' q = Some DirNode \<and> prefix q ((made @ [x]) @ xs)"
      by simp_all
    have "file_at (dict_set (made @ [x]) DirNode d) = file_at d"
      using None by (auto simp: file_at_def dict_simps fun_eq_iff)
    moreover have "map_of d' q = map_of d q \<or> map_of d q = None \<and> map_of d' q = Some DirNode \<and> prefix q (made @ x # xs)" for q
    proof (cases "q = made @ [x]")
      case True
      with spec [OF ih(2), of q] None show ?thesis by (simp add: dict_simps)
    next
      case False
      with spec [OF ih(2), of q] show ?thesis by (simp add: dict_simps)
    qed
    ultimately show ?thesis using ih(1) by simp
  next
    case (Some n)
    with "2.prems" have "n = DirNode" "mkdirs (made @ [x]) xs d = Some d'" by (auto split: node.splits)
    with "2.IH"(2) [OF Some] show ?thesis by simp
  qed
qed simp

lemma write_file_keeps:
  "write_file p c d = Some d' \<Longrightarrow> d' = dict_set p (FileNode c) d"
  by (auto simp: write_file_def split: if_splits)

lemma remove_empty_parents_keeps: "file_at (remove_empty_parents base current d) = file_at d"
proof (induction base current d rule: remove_empty_parents.induct)
  case (1 base current d)
  show ?case
  proof (cases "current \<noteq> base \<and> prefix base current \<and> rmdir current d \<noteq> None")
    case True
    then obtain d' where d': "rmdir current d = Some d'" by blast
    then have "file_at d' = file_at d" by (auto simp: rmdir_def file_at_del split: if_splits)
    with 1 True d' show ?thesis by (simp add: remove_empty_parents.simps [of base current d])
  next
    case False
    then show ?thesis by (auto simp: remove_empty_parents.simps [of base current d] split: option.split)
  qed
qed

section \<open>Names and trees\<close>

text \<open>The output directory contains no symbolic links; the generated names are relative, mean different paths, none
  below another, and their contents are text that reading does not change.\<close>

definition tree_plain :: "(path \<Rightarrow> path) \<Rightarrow> path \<Rightarrow> bool" where
  "tree_plain resolve out \<longleftrightarrow>
     (\<forall>p. ''..'' \<notin> set p \<longrightarrow> resolve (out @ p) = resolve out @ p \<and> resolve (resolve out @ p) = resolve out @ p)"

definition name_plain :: "string \<Rightarrow> bool" where
  "name_plain s \<longleftrightarrow> \<not> is_absolute s \<and> ''..'' \<notin> set (path_parts s) \<and> path_parts s \<noteq> []"

definition content_plain :: "string \<Rightarrow> bool" where
  "content_plain c \<longleftrightarrow> utf8_valid c \<and> CHR 0x0D \<notin> set c"

definition files_plain :: "(string, string) dict \<Rightarrow> bool" where
  "files_plain generated \<longleftrightarrow>
     list_all (\<lambda>e. name_plain (fst e) \<and> content_plain (snd e)) generated
     \<and> distinct (map (\<lambda>e. path_parts (fst e)) generated)
     \<and> list_all (\<lambda>e. list_all (\<lambda>e'. \<not> strict_prefix (path_parts (fst e)) (path_parts (fst e'))) generated) generated"

lemma universal_plain: "CHR 0x0D \<notin> set c \<Longrightarrow> universal c = c"
  by (induction c rule: universal.induct) auto

definition target :: "(path \<Rightarrow> path) \<Rightarrow> path \<Rightarrow> string \<Rightarrow> path" where
  "target resolve out s = resolve out @ path_parts s"

lemma resolve_below:
  assumes "tree_plain resolve out" "name_plain s"
  shows "resolve (below out s) = target resolve out s"
    "resolve (butlast (below out s)) = butlast (target resolve out s)"
    "resolve (butlast (target resolve out s)) = butlast (target resolve out s)"
proof -
  from assms(2) have n: "\<not> is_absolute s" "''..'' \<notin> set (path_parts s)" "path_parts s \<noteq> []"
    by (simp_all add: name_plain_def)
  then have "''..'' \<notin> set (butlast (path_parts s))" by (meson in_set_butlastD)
  with assms(1) n show "resolve (below out s) = target resolve out s"
    "resolve (butlast (below out s)) = butlast (target resolve out s)"
    "resolve (butlast (target resolve out s)) = butlast (target resolve out s)"
    by (simp_all add: tree_plain_def below_def target_def butlast_append)
qed

section \<open>The loop over the files\<close>

definition differs :: "disk \<Rightarrow> path \<Rightarrow> string \<Rightarrow> bool" where
  "differs d p c = (case file_at d p of Some b \<Rightarrow> universal b \<noteq> c | None \<Rightarrow> True)"

lemma up_to_date_Inr:
  assumes "up_to_date d p c = Inr b"
  shows "b = (\<not> differs d p c) \<and> map_of d p \<noteq> Some DirNode \<and> (b \<longrightarrow> read_text d p = Inr c)"
  using assms
  by (auto simp: up_to_date_def read_text_def differs_def file_at_def rbind_eq_Inr split: option.splits node.splits if_splits)

text \<open>One file: the disk changes at its path only.\<close>

lemma write_one_Inr:
  assumes plain: "tree_plain resolve out" "name_plain s"
    and step: "write_one resolve out check (s, c) changed d = (d', Inr changed')"
  shows "changed' = changed @ (if differs d (target resolve out s) c then [below out s] else [])
    \<and> up_to_date d (target resolve out s) c = Inr (\<not> differs d (target resolve out s) c)
    \<and> file_at d' = (if \<not> check \<and> differs d (target resolve out s) c
                    then (file_at d)(target resolve out s \<mapsto> c) else file_at d)
    \<and> (check \<longrightarrow> d' = d)
    \<and> (\<forall>q. q \<noteq> target resolve out s \<longrightarrow> map_of d' q = map_of d q
          \<or> map_of d q = None \<and> map_of d' q = Some DirNode \<and> strict_prefix q (target resolve out s))"
proof -
  let ?p = "target resolve out s"
  have p: "?p \<noteq> []" using plain(2) by (simp add: target_def name_plain_def)
  note r = resolve_below [OF plain]
  from step obtain b where b: "up_to_date d ?p c = Inr b"
    by (auto simp: write_one_def r(1) Let_def split: sum.splits bool.splits)
  note u = up_to_date_Inr [OF b]
  show ?thesis
  proof (cases "b \<or> check")
    case True
    with step b u show ?thesis by (auto simp: write_one_def r(1) Let_def)
  next
    case False
    with step b r obtain d1 where d1: "mkdirs [] (butlast ?p) d = Some d1" "write_file ?p c d1 = Some d'"
      "changed' = changed @ [below out s]"
      by (auto simp: write_one_def Let_def split: option.splits)
    from mkdirs_keeps [OF d1(1)] have m: "file_at d1 = file_at d"
      "\<forall>q. map_of d1 q = map_of d q \<or> map_of d q = None \<and> map_of d1 q = Some DirNode \<and> prefix q (butlast ?p)" by simp_all
    have "strict_prefix q ?p" if "prefix q (butlast ?p)" for q
      using that p by (metis append_butlast_last_id prefix_order.le_less_trans strict_prefixI' )
    with m write_file_keeps [OF d1(2)] have
      "\<forall>q. q \<noteq> ?p \<longrightarrow> map_of d' q = map_of d q \<or> map_of d q = None \<and> map_of d' q = Some DirNode \<and> strict_prefix q ?p"
      by (auto simp: dict_simps)
    with False u b d1(3) m(1) write_file_keeps [OF d1(2)] show ?thesis by simp
  qed
qed

lemma same_entry:
  "map_of d p = map_of d' p \<Longrightarrow> up_to_date d p c = up_to_date d' p c"
  "map_of d p = map_of d' p \<Longrightarrow> differs d p c = differs d' p c"
  by (simp_all add: up_to_date_def read_text_def differs_def file_at_def)

definition targets :: "(path \<Rightarrow> path) \<Rightarrow> path \<Rightarrow> (string, string) dict \<Rightarrow> (path, string) dict" where
  "targets resolve out generated = map (\<lambda>e. (target resolve out (fst e), snd e)) generated"

definition written_at :: "(path, string) dict \<Rightarrow> disk \<Rightarrow> path \<Rightarrow> string option" where
  "written_at ts d p =
     (case map_of ts p of Some c \<Rightarrow> if differs d p c then Some c else file_at d p | None \<Rightarrow> file_at d p)"

lemma files_plain_Cons:
  assumes "files_plain (e # generated)"
  shows "files_plain generated" "name_plain (fst e)"
    "e' \<in> set generated \<Longrightarrow> path_parts (fst e') \<noteq> path_parts (fst e)"
    "e' \<in> set generated \<Longrightarrow> \<not> strict_prefix (path_parts (fst e')) (path_parts (fst e))"
  using assms by (auto simp: files_plain_def list_all_iff intro: rev_image_eqI)

text \<open>A file that is written leaves the entries at the other targets as they are.\<close>

lemma write_one_others:
  assumes plain: "tree_plain resolve out" "files_plain (e # generated)"
    and step: "write_one resolve out check e changed d = (d', Inr changed')" and e': "e' \<in> set generated"
  shows "map_of d' (target resolve out (fst e')) = map_of d (target resolve out (fst e'))"
proof -
  have "target resolve out (fst e') \<noteq> target resolve out (fst e)"
    "\<not> strict_prefix (target resolve out (fst e')) (target resolve out (fst e))"
    using files_plain_Cons(3,4) [OF plain(2) e'] by (simp_all add: target_def strict_prefix_def)
  with write_one_Inr [OF plain(1) files_plain_Cons(2) [OF plain(2)], of check "snd e" changed d d' changed'] step
  show ?thesis by auto
qed

lemma each_write:
  assumes "tree_plain resolve out" "files_plain generated"
    "each (write_one resolve out check) generated changed d = (d', Inr changed')"
  shows "changed' = changed @ map (\<lambda>e. below out (fst e)) (filter (\<lambda>e. differs d (target resolve out (fst e)) (snd e)) generated)
    \<and> (\<forall>e \<in> set generated. \<exists>b. up_to_date d (target resolve out (fst e)) (snd e) = Inr b)
    \<and> (check \<longrightarrow> d' = d) \<and> (\<not> check \<longrightarrow> file_at d' = written_at (targets resolve out generated) d)"
  using assms(2,3)
proof (induction generated arbitrary: changed d)
  case Nil
  then show ?case by (auto simp: written_at_def targets_def)
next
  case (Cons e generated)
  from Cons.prems(2) obtain d1 changed1 where one: "write_one resolve out check e changed d = (d1, Inr changed1)"
    and rest: "each (write_one resolve out check) generated changed1 d1 = (d', Inr changed')"
    by (auto split: prod.splits sum.splits)
  let ?t = "\<lambda>e. target resolve out (fst e)"
  note w = write_one_Inr [OF assms(1) files_plain_Cons(2) [OF Cons.prems(1)], of check "snd e" changed d d1 changed1]
  note same = write_one_others [OF assms(1) Cons.prems(1) one]
  note ih = Cons.IH [OF files_plain_Cons(1) [OF Cons.prems(1)] rest]
  have f: "filter (\<lambda>e. differs d1 (?t e) (snd e)) generated = filter (\<lambda>e. differs d (?t e) (snd e)) generated"
    by (rule filter_cong) (use same same_entry(2) in blast)+
  have u: "\<forall>e' \<in> set generated. \<exists>b. up_to_date d (?t e') (snd e') = Inr b"
    using ih same same_entry(1) by metis
  have "file_at d' = written_at (targets resolve out (e # generated)) d" if "\<not> check"
  proof
    fix p
    from ih that have p: "file_at d' p = written_at (targets resolve out generated) d1 p" by simp
    show "file_at d' p = written_at (targets resolve out (e # generated)) d p"
    proof (cases "p = ?t e")
      case True
      then have "map_of (targets resolve out generated) p = None"
        using files_plain_Cons(3) [OF Cons.prems(1)] by (force simp: map_of_eq_None_iff targets_def target_def)
      with True p w one that show ?thesis by (simp add: written_at_def targets_def)
    next
      case False
      with w one that have other: "file_at d1 p = file_at d p" by simp
      then have "differs d1 p c = differs d p c" for c by (simp add: differs_def)
      with other False p show ?thesis by (simp add: written_at_def targets_def split: option.split)
    qed
  qed
  with w one ih f u show ?case by auto
qed

lemma each_checked:
  assumes "tree_plain resolve out" "list_all (\<lambda>e. name_plain (fst e)) generated"
    "\<forall>e \<in> set generated. \<exists>b. up_to_date d (target resolve out (fst e)) (snd e) = Inr b"
  shows "each (write_one resolve out True) generated changed d =
    (d, Inr (changed @ map (\<lambda>e. below out (fst e)) (filter (\<lambda>e. differs d (target resolve out (fst e)) (snd e)) generated)))"
  using assms(2,3)
proof (induction generated arbitrary: changed)
  case (Cons e generated)
  from Cons.prems obtain b where b: "up_to_date d (target resolve out (fst e)) (snd e) = Inr b" by auto
  from up_to_date_Inr [OF b] resolve_below(1) [OF assms(1), of "fst e"] b Cons.prems(1)
  have "write_one resolve out True e changed d =
      (d, Inr (changed @ (if differs d (target resolve out (fst e)) (snd e) then [below out (fst e)] else [])))"
    by (auto simp: write_one_def Let_def)
  with Cons show ?case by simp
qed simp

section \<open>The loop over the stale files\<close>

lemma each_delete:
  assumes "distinct ps"
  shows "\<exists>d'. each (delete_one resolve out check) ps changed d = (d', Inr (changed @ filter (\<lambda>p. file_at d p \<noteq> None) ps))
    \<and> (check \<longrightarrow> d' = d) \<and> (\<not> check \<longrightarrow> file_at d' = (\<lambda>p. if p \<in> set ps then None else file_at d p))"
  using assms
proof (induction ps arbitrary: changed d)
  case (Cons p ps)
  define d1 where "d1 = fst (delete_one resolve out check p changed d)"
  have one: "delete_one resolve out check p changed d = (d1, Inr (changed @ (if file_at d p \<noteq> None then [p] else [])))"
    "check \<longrightarrow> d1 = d" "\<not> check \<longrightarrow> file_at d1 = (file_at d)(p := None)"
    by (auto simp: d1_def delete_one_def is_file_at remove_empty_parents_keeps file_at_del fun_eq_iff)
  have "filter (\<lambda>q. file_at d1 q \<noteq> None) ps = filter (\<lambda>q. file_at d q \<noteq> None) ps"
    using one(2,3) Cons.prems by (cases check) (auto intro!: filter_cong)
  with Cons.IH [of "changed @ (if file_at d p \<noteq> None then [p] else [])" d1] Cons.prems one
  show ?case by (cases check) (auto simp: fun_eq_iff)
qed auto

lemma traverse_owned:
  assumes "tree_plain resolve out" "traverse (owned_path resolve out) ss = Inr ps"
  shows "ps = map (target resolve out) ss"
  using assms(2)
proof (induction ss arbitrary: ps)
  case (Cons s ss)
  then obtain p qs where "owned_path resolve out s = Inr p" "traverse (owned_path resolve out) ss = Inr qs" "ps = p # qs"
    by (auto simp: rbind_eq_Inr)
  moreover from this(1) assms(1) have "p = target resolve out s"
    by (auto simp: owned_path_def target_def tree_plain_def rbind_eq_Inr raise_if_eq Let_def)
  ultimately show ?case using Cons.IH by simp
qed simp

section \<open>What a run does\<close>

text \<open>The abstract run, on the map from paths to contents: the generated files have their contents, up to the newlines
  of a file that was there already, the other files of the previous run are gone, and all else is as it was.\<close>

definition installed ::
  "(string \<Rightarrow> path) \<Rightarrow> (string, string) dict \<Rightarrow> string list \<Rightarrow> (path \<Rightarrow> string option) \<Rightarrow> path \<Rightarrow> string option" where
  "installed place generated previous files p =
     (case map_of (map (\<lambda>e. (place (fst e), snd e)) generated) p of
        Some c \<Rightarrow> (case files p of Some b \<Rightarrow> if universal b = c then Some b else Some c | None \<Rightarrow> Some c)
      | None \<Rightarrow> if p \<in> place ` set previous then None else files p)"

definition names_plain :: "string list \<Rightarrow> (string, string) dict \<Rightarrow> bool" where
  "names_plain previous generated \<longleftrightarrow> inj_on path_parts (set previous \<union> set (dict_keys generated))"

definition stale_names :: "string list \<Rightarrow> (string, string) dict \<Rightarrow> string list" where
  "stale_names previous generated = sort (remdups (filter (\<lambda>s. s \<notin> set (dict_keys generated)) previous))"

lemma stale_names_set:
  "set (stale_names previous generated) = set previous - set (dict_keys generated)" "distinct (stale_names previous generated)"
  by (auto simp: stale_names_def)

text \<open>A run, taken apart.\<close>

lemma write_files_cases:
  assumes "tree_plain resolve out" "files_plain generated" "generated_paths parse resolve out d = Inr previous"
    "names_plain previous generated"
    and run: "write_files parse resolve out check generated d = (d', Inr changed)"
  obtains d1 written where
    "each (write_one resolve out check) generated [] d = (d1, Inr written)"
    "traverse (owned_path resolve out) (stale_names previous generated)
       = Inr (map (target resolve out) (stale_names previous generated))"
    "distinct (map (target resolve out) (stale_names previous generated))"
    "each (delete_one resolve out check) (map (target resolve out) (stale_names previous generated)) written d1 = (d', Inr changed)"
proof -
  from run assms(3) obtain stale where stale: "traverse (owned_path resolve out) (stale_names previous generated) = Inr stale"
    by (auto simp: write_files_def stale_names_def split: sum.splits)
  note t = traverse_owned [OF assms(1) stale]
  from run assms(3) stale obtain d1 written where d1: "each (write_one resolve out check) generated [] d = (d1, Inr written)"
    "each (delete_one resolve out check) stale written d1 = (d', Inr changed)"
    by (auto simp: write_files_def stale_names_def split: prod.splits sum.splits)
  have "inj_on (target resolve out) (set (stale_names previous generated))"
    using assms(4) by (auto simp: names_plain_def inj_on_def target_def stale_names_set)
  then have "distinct (map (target resolve out) (stale_names previous generated))"
    by (simp add: distinct_map stale_names_set(2))
  with that d1 stale t show thesis by simp
qed

lemma stale_not_target:
  assumes "names_plain previous generated" "s \<in> set (stale_names previous generated)"
  shows "map_of (targets resolve out generated) (target resolve out s) = None"
proof -
  have "target resolve out s \<noteq> target resolve out (fst e)" if e: "e \<in> set generated" for e
  proof
    assume "target resolve out s = target resolve out (fst e)"
    then have "path_parts s = path_parts (fst e)" by (simp add: target_def)
    with assms e have "s = fst e" by (auto simp: names_plain_def stale_names_set dest: inj_onD)
    with assms(2) e show False by (auto simp: stale_names_set)
  qed
  then show ?thesis by (force simp: map_of_eq_None_iff targets_def)
qed

lemma write_files_installs:
  assumes "tree_plain resolve out" "files_plain generated" "generated_paths parse resolve out d = Inr previous"
    "names_plain previous generated" "write_files parse resolve out False generated d = (d', Inr changed)"
  shows "file_at d' = installed (target resolve out) generated previous (file_at d)"
proof
  fix p
  from assms obtain d1 written where run: "each (write_one resolve out False) generated [] d = (d1, Inr written)"
    "distinct (map (target resolve out) (stale_names previous generated))"
    "each (delete_one resolve out False) (map (target resolve out) (stale_names previous generated)) written d1 = (d', Inr changed)"
    by (rule write_files_cases)
  from each_write [OF assms(1,2) run(1)] have d1: "file_at d1 p = written_at (targets resolve out generated) d p" by simp
  from each_delete [OF run(2), of resolve out False written d1] run(3)
  have d': "file_at d' p = (if p \<in> target resolve out ` set (stale_names previous generated) then None else file_at d1 p)"
    by simp
  show "file_at d' p = installed (target resolve out) generated previous (file_at d) p"
  proof (cases "map_of (targets resolve out generated) p")
    case None
    then have "p \<in> target resolve out ` set (stale_names previous generated) \<longleftrightarrow> p \<in> target resolve out ` set previous"
      by (force simp: stale_names_set map_of_eq_None_iff targets_def)
    with None d' d1 show ?thesis by (simp add: installed_def written_at_def targets_def [symmetric])
  next
    case (Some c)
    then have "p \<notin> target resolve out ` set (stale_names previous generated)"
      using stale_not_target [OF assms(4)] by auto
    with Some d' d1 show ?thesis
      by (auto simp: installed_def written_at_def targets_def [symmetric] differs_def split: option.splits)
  qed
qed

text \<open>A dry run leaves the disk alone, also when it raises, and names the paths that a run would change.\<close>

lemma each_dry: "(\<And>x changed. fst (f x changed d) = d) \<Longrightarrow> fst (each f xs changed d) = d"
proof (induction xs arbitrary: changed)
  case (Cons x xs)
  obtain d1 r where "f x changed d = (d1, r)" by (cases "f x changed d")
  with Cons show ?case by (metis (no_types, lifting) each.simps(2) fst_conv old.prod.case old.sum.exhaust old.sum.simps(5,6))
qed simp

lemma dry_run_pure: "fst (write_files parse resolve out True generated d) = d"
proof -
  have "fst (write_one resolve out True x changed d) = d" for x changed
    by (auto simp: write_one_def Let_def split: sum.splits bool.splits)
  then have w: "fst (each (write_one resolve out True) generated [] d) = d" by (rule each_dry)
  have "fst (delete_one resolve out True x changed d) = d" for x changed
    by (simp add: delete_one_def)
  then have "fst (each (delete_one resolve out True) xs changed d) = d" for xs changed by (rule each_dry)
  with w show ?thesis by (auto simp: write_files_def split: sum.splits prod.splits)
qed

lemma dry_run_tells:
  assumes "tree_plain resolve out" "files_plain generated" "generated_paths parse resolve out d = Inr previous"
    "names_plain previous generated" "write_files parse resolve out False generated d = (d', Inr changed)"
  shows "write_files parse resolve out True generated d = (d, Inr changed)"
proof -
  let ?stale = "map (target resolve out) (stale_names previous generated)"
  from assms obtain d1 written where run: "each (write_one resolve out False) generated [] d = (d1, Inr written)"
    "traverse (owned_path resolve out) (stale_names previous generated) = Inr ?stale" "distinct ?stale"
    "each (delete_one resolve out False) ?stale written d1 = (d', Inr changed)"
    by (rule write_files_cases)
  note w = each_write [OF assms(1,2) run(1)]
  have "each (write_one resolve out True) generated [] d = (d, Inr written)"
    using each_checked [OF assms(1), of generated d "[]"] w assms(2) by (simp add: files_plain_def list_all_iff)
  moreover have "file_at d1 p = file_at d p" if "p \<in> set ?stale" for p
    using that w stale_not_target [OF assms(4)] by (auto simp: written_at_def)
  then have "filter (\<lambda>p. file_at d1 p \<noteq> None) ?stale = filter (\<lambda>p. file_at d p \<noteq> None) ?stale"
    by (intro filter_cong) auto
  then have "each (delete_one resolve out True) ?stale written d = (d, Inr changed)"
    using each_delete [OF run(3), of resolve out True written d] each_delete [OF run(3), of resolve out False written d1] run(4)
    by auto
  ultimately show ?thesis using run(2) assms(3) by (simp add: write_files_def stale_names_def)
qed

text \<open>After a run, every generated file reads as its content.\<close>

lemma run_reads:
  assumes "tree_plain resolve out" "files_plain generated" "generated_paths parse resolve out d = Inr previous"
    "names_plain previous generated" "write_files parse resolve out False generated d = (d', Inr changed)"
    and e: "(s, c) \<in> set generated"
  shows "read_text d' (target resolve out s) = Inr c"
proof -
  let ?p = "target resolve out s"
  from assms(1-5) obtain d1 written where "each (write_one resolve out False) generated [] d = (d1, Inr written)"
    by (rule write_files_cases)
  from each_write [OF assms(1,2) this] e obtain b where "up_to_date d ?p c = Inr b" by force
  note u = up_to_date_Inr [OF this]
  have "distinct (map fst (targets resolve out generated))"
    using assms(2) by (auto simp: files_plain_def targets_def target_def comp_def distinct_map inj_on_def)
  with e have "map_of (targets resolve out generated) ?p = Some c"
    by (intro map_of_is_SomeI) (force simp: targets_def)+
  then have at: "file_at d' ?p = (case file_at d ?p of Some b \<Rightarrow> if universal b = c then Some b else Some c | None \<Rightarrow> Some c)"
    using write_files_installs [OF assms(1-5)] by (simp add: installed_def targets_def [symmetric])
  from assms(2) e have c: "content_plain c" by (auto simp: files_plain_def list_all_iff)
  have found: "read_text x ?p = (if utf8_valid y then Inr (universal y) else Inl NotUtf8)" if "file_at x ?p = Some y" for x y
    using that by (auto simp: read_text_def file_at_def split: option.splits node.splits)
  show ?thesis
  proof (cases "differs d ?p c")
    case True
    with at have "file_at d' ?p = Some c" by (auto simp: differs_def split: option.splits)
    with c show ?thesis by (simp add: found content_plain_def universal_plain)
  next
    case False
    then obtain y where y: "file_at d ?p = Some y" "universal y = c" by (auto simp: differs_def split: option.splits)
    from u False have "read_text d ?p = Inr c" by simp
    with y at show ?thesis by (simp add: found)
  qed
qed

lemma each_clean:
  assumes "tree_plain resolve out" "files_plain generated" "\<forall>(s, c) \<in> set generated. read_text d (target resolve out s) = Inr c"
  shows "each (write_one resolve out check) generated changed d = (d, Inr changed)"
  using assms(2,3)
proof (induction generated arbitrary: changed)
  case (Cons e generated)
  obtain s c where e: "e = (s, c)" by (cases e)
  with Cons.prems have r: "read_text d (target resolve out s) = Inr c" "name_plain s" by (auto simp: files_plain_def)
  then have "map_of d (target resolve out s) \<noteq> None" by (auto simp: read_text_def split: option.splits)
  with r have "up_to_date d (resolve (below out s)) c = Inr True"
    by (simp add: up_to_date_def resolve_below(1) [OF assms(1)])
  then have "write_one resolve out check e changed d = (d, Inr changed)" by (simp add: write_one_def e Let_def)
  with Cons.IH [OF files_plain_Cons(1) [OF Cons.prems(1)]] Cons.prems(2) show ?case by simp
qed simp

lemma manifest_files_names:
  assumes "parse content = Some (manifest_json digest lib_version language names)"
  shows "manifest_files parse content = sort (names @ [manifest_name])"
proof -
  have "concat (map (\<lambda>x. case x of JStr s \<Rightarrow> [s] | _ \<Rightarrow> []) (map JStr ss)) = ss" for ss by (induction ss) simp_all
  then show ?thesis using assms by (simp add: manifest_files_def manifest_json_def list_all_iff del: map_map)
qed

lemma regeneration_clean:
  assumes generated: "generated = with_manifest dumps digest lib_version language files"
    and "tree_plain resolve out" "files_plain generated" "generated_paths parse resolve out d = Inr previous"
    "names_plain previous generated"
    and parse: "parse (the (map_of generated manifest_name)) = Some (manifest_json digest lib_version language (dict_keys files))"
    and run: "write_files parse resolve out False generated d = (d', Inr changed)"
  shows "write_files parse resolve out check generated d' = (d', Inr [])"
proof -
  obtain c where c: "map_of generated manifest_name = Some c" by (simp add: generated with_manifest_def dict_simps)
  then have m: "(manifest_name, c) \<in> set generated" by (rule map_of_SomeD)
  with assms(3) have "name_plain manifest_name" by (auto simp: files_plain_def list_all_iff)
  note p = resolve_below(1) [OF assms(2) this]
  note reads = run_reads [OF assms(2-5) run]
  from reads [OF m] have "is_file d' (target resolve out manifest_name)"
    by (auto simp: read_text_def is_file_def split: option.splits node.splits)
  with reads [OF m] c parse have paths: "generated_paths parse resolve out d' = Inr (sort (dict_keys files @ [manifest_name]))"
    by (simp add: generated_paths_def p manifest_files_names Let_def)
  have "set (dict_keys generated) = insert manifest_name (set (dict_keys files))"
    by (auto simp: generated with_manifest_def dict_simps)
  then have "filter (\<lambda>s. s \<notin> set (dict_keys generated)) (sort (dict_keys files @ [manifest_name])) = []"
    by (simp add: filter_empty_conv)
  moreover have "each (write_one resolve out check) generated [] d' = (d', Inr [])"
    using reads by (intro each_clean [OF assms(2,3)]) auto
  ultimately show ?thesis using paths by (simp add: write_files_def)
qed

section \<open>The properties\<close>

text \<open>C33. Writing a client implements its abstract description: the generated files are there with their contents, the
  other files of the previous run are gone, and every other file, inside the output directory or outside, is as it
  was.\<close>

theorem generation_implements:
  assumes "tree_plain resolve out" "files_plain generated" "generated_paths parse resolve out d = Inr previous"
    and "names_plain previous generated" "write_files parse resolve out False generated d = (d', Inr changed)"
  shows "file_at d' = installed (target resolve out) generated previous (file_at d)"
  using assms by (rule write_files_installs)

text \<open>C42. With \<open>check\<close> nothing is written, whatever happens, and the paths that are reported are those that writing
  would report.\<close>

theorem dry_run_exact:
  assumes "tree_plain resolve out" "files_plain generated" "generated_paths parse resolve out d = Inr previous"
    and "names_plain previous generated" "write_files parse resolve out False generated d = (d', Inr changed)"
  shows "write_files parse resolve out True generated d = (d, Inr changed)
    \<and> fst (write_files parse resolve out True other d) = d"
  using dry_run_tells [OF assms] dry_run_pure by blast

text \<open>C34. A client that was generated is up to date: generating it again finds nothing to write and nothing to delete.\<close>

theorem regeneration_idempotent:
  assumes "generated = with_manifest dumps digest lib_version language files"
    and "tree_plain resolve out" "files_plain generated" "generated_paths parse resolve out d = Inr previous"
    and "names_plain previous generated"
    and "parse (the (map_of generated manifest_name)) = Some (manifest_json digest lib_version language (dict_keys files))"
    and "write_files parse resolve out False generated d = (d', Inr changed)"
  shows "write_files parse resolve out check generated d' = (d', Inr [])"
  using assms by (rule regeneration_clean)

section \<open>An example\<close>

definition sample_parse :: "string \<Rightarrow> json option" where
  "sample_parse s =
     (if s = ''{}'' then Some (JObj [(''files'', JArr [JStr ''client.py'', JStr ''api/old.py''])])
      else Some (manifest_json ''0'' ''1'' ''python'' [''client.py'']))"

definition sample_files :: "(string, string) dict" where
  "sample_files = with_manifest (\<lambda>j. ''{1}'') ''0'' ''1'' ''python'' [(''client.py'', ''x = 1'')]"

definition sample_disk :: disk where
  "sample_disk =
     [([''out''], DirNode), ([''out'', ''.rpcgen''], DirNode), ([''out'', ''api''], DirNode),
      ([''out'', ''.rpcgen'', ''manifest.json''], FileNode ''{}''), ([''out'', ''api'', ''old.py''], FileNode ''y''),
      ([''out'', ''notes''], FileNode ''mine'')]"

definition sample_after :: disk where
  "sample_after =
     [([''out''], DirNode), ([''out'', ''.rpcgen''], DirNode),
      ([''out'', ''.rpcgen'', ''manifest.json''], FileNode (''{1}'' @ [CHR 0x0A])),
      ([''out'', ''notes''], FileNode ''mine''), ([''out'', ''client.py''], FileNode ''x = 1'')]"

lemma sample_tree: "tree_plain id [''out'']"
  by (simp add: tree_plain_def)

lemma sample_names:
  "sample_files = [(''client.py'', ''x = 1''), (manifest_name, ''{1}'' @ [CHR 0x0A])]"
  "path_parts ''client.py'' = [''client.py'']" "path_parts manifest_name = [''.rpcgen'', ''manifest.json'']"
  "path_parts ''api/old.py'' = [''api'', ''old.py'']"
  by (simp_all add: sample_files_def with_manifest_def path_parts_def manifest_name_def)

lemma sample_relative:
  "\<not> is_absolute manifest_name" "\<not> is_absolute ''client.py''" "\<not> is_absolute ''api/old.py''"
  "manifest_name \<noteq> ''client.py''" "manifest_name \<noteq> ''api/old.py''"
  by (simp_all add: is_absolute_def manifest_name_def)

lemma sample_plain: "files_plain sample_files"
  by (simp add: files_plain_def sample_names sample_relative name_plain_def content_plain_def utf8_lead_def byte_of_def
      strict_prefix_def)

lemma sample_previous: "generated_paths sample_parse id [''out''] sample_disk = Inr [''client.py'', ''api/old.py'']"
  by (simp add: generated_paths_def below_def sample_names sample_relative sample_disk_def is_file_def
      read_text_def manifest_files_def sample_parse_def utf8_lead_def byte_of_def)

lemma sample_distinct: "names_plain [''client.py'', ''api/old.py''] sample_files"
  by (simp add: names_plain_def sample_names inj_on_def)

lemma sample_stale: "sort (remdups (filter (\<lambda>s. s \<notin> set (dict_keys sample_files)) [''client.py'', ''api/old.py''])) = [''api/old.py'']"
  using sample_relative by (simp add: sample_names)

lemma sample_written:
  "each (write_one id [''out''] False) sample_files [] sample_disk =
     (dict_set [''out'', ''.rpcgen'', ''manifest.json''] (FileNode (''{1}'' @ [CHR 0x0A]))
        (sample_disk @ [([''out'', ''client.py''], FileNode ''x = 1'')]),
      Inr [[''out'', ''client.py''], [''out'', ''.rpcgen'', ''manifest.json'']])"
  by (simp add: sample_names sample_disk_def write_one_def up_to_date_def below_def sample_relative read_text_def
      write_file_def is_dir_def utf8_lead_def byte_of_def Let_def)

lemma sample_run:
  "write_files sample_parse id [''out''] False sample_files sample_disk =
     (sample_after, Inr [[''out'', ''client.py''], [''out'', ''.rpcgen'', ''manifest.json''], [''out'', ''api'', ''old.py'']])"
proof -
  have "rbind (generated_paths sample_parse id [''out''] sample_disk) (\<lambda>previous.
      traverse (owned_path id [''out''])
        (sort (remdups (filter (\<lambda>s. s \<notin> set (dict_keys sample_files)) previous)))) = Inr [[''out'', ''api'', ''old.py'']]"
    unfolding sample_previous rbind_simps sample_stale
    by (simp add: owned_path_def sample_relative sample_names(2-4) Let_def)
  then show ?thesis
    by (simp add: write_files_def sample_written, simp add: sample_disk_def sample_after_def delete_one_def is_file_def
        remove_empty_parents.simps rmdir_def strict_prefix_def)
qed

theorem generation_implements_witness:
  "file_at sample_after [''out'', ''client.py''] = Some ''x = 1'' \<and> file_at sample_after [''out'', ''notes''] = Some ''mine''
   \<and> file_at sample_after [''out'', ''api'', ''old.py''] = None"
  using generation_implements [OF sample_tree sample_plain sample_previous sample_distinct sample_run]
  by (simp add: installed_def sample_names target_def sample_disk_def file_at_def)

theorem dry_run_exact_witness:
  "write_files sample_parse id [''out''] True sample_files sample_disk =
     (sample_disk, Inr [[''out'', ''client.py''], [''out'', ''.rpcgen'', ''manifest.json''], [''out'', ''api'', ''old.py'']])"
  using dry_run_exact [OF sample_tree sample_plain sample_previous sample_distinct sample_run] by blast

theorem regeneration_idempotent_witness:
  "write_files sample_parse id [''out''] False sample_files sample_after = (sample_after, Inr [])"
proof -
  have "sample_parse (the (map_of sample_files manifest_name))
      = Some (manifest_json ''0'' ''1'' ''python'' (dict_keys [(''client.py'', ''x = 1'')]))"
    using sample_relative by (simp add: sample_names sample_parse_def)
  with regeneration_idempotent [OF sample_files_def sample_tree sample_plain sample_previous sample_distinct _ sample_run]
  show ?thesis by simp
qed

end
