(* ===== verification/CliProps.thy ===== *)
theory CliProps
  imports Cli WriterProps
begin

text \<open>
  The command line: a config is carried out as a whole or not at all, a check changes nothing, and its exit code tells whether a run
  would change something.
\<close>

lemma write_client_check: "fst (write_client tk out True files d) = d"
  by (simp add: write_client_def dry_run_pure)

lemma write_contract_check: "fst (write_contract tk True contract d) = d"
  by (auto simp: write_contract_def write_client_check split: option.split)

text \<open>What a check of the jobs says: each is checked on the same disk.\<close>

definition some_raises :: "path list written list \<Rightarrow> bool" where
  "some_raises ws = list_ex (\<lambda>w. isl (snd w)) ws"

definition some_differs :: "path list written list \<Rightarrow> bool" where
  "some_differs ws = list_ex (\<lambda>w. case snd w of Inr changed \<Rightarrow> changed \<noteq> [] | Inl e \<Rightarrow> False) ws"

lemma some_simps [simp]:
  "\<not> some_raises []" "some_raises (w # ws) \<longleftrightarrow> isl (snd w) \<or> some_raises ws"
  "\<not> some_differs []" "some_differs (w # ws) \<longleftrightarrow> (case snd w of Inr changed \<Rightarrow> changed \<noteq> [] | Inl e \<Rightarrow> False) \<or> some_differs ws"
  by (simp_all add: some_raises_def some_differs_def)

definition check_outcome :: "path list written list \<Rightarrow> exit" where
  "check_outcome ws = (if some_raises ws then Uncaught else Exit (if some_differs ws then 1 else 0))"

definition job_check :: "tools \<Rightarrow> disk \<Rightarrow> job \<Rightarrow> path list written" where
  "job_check tk d j = write_client tk (ca_output (fst j)) True (snd j) d"

lemma job_check_disk: "\<exists>r. job_check tk d j = (d, r)"
  using write_client_check [of tk "ca_output (fst j)" "snd j" d]
  by (cases "write_client tk (ca_output (fst j)) True (snd j) d") (simp add: job_check_def)

lemma write_jobs_check:
  "\<exists>r. write_jobs tk True jobs failed d = (d, r) \<and> isl r = some_raises (map (job_check tk d) jobs)
     \<and> (\<forall>b. r = Inr b \<longrightarrow> b = (failed \<or> some_differs (map (job_check tk d) jobs)))"
proof (induction jobs arbitrary: failed)
  case (Cons j jobs)
  obtain args files where j: "j = (args, files)" by (cases j)
  obtain r where w: "job_check tk d j = (d, r)" using job_check_disk by blast
  then have w': "write_client tk (ca_output args) True files d = (d, r)" by (simp add: job_check_def j)
  show ?case
  proof (cases r)
    case (Inl e)
    then show ?thesis using w by (simp add: j w' del: split_paired_Ex)
  next
    case (Inr changed)
    obtain r' where r': "write_jobs tk True jobs (changed \<noteq> [] \<or> failed) d = (d, r')"
      "isl r' = some_raises (map (job_check tk d) jobs)"
      "\<forall>b. r' = Inr b \<longrightarrow> b = ((changed \<noteq> [] \<or> failed) \<or> some_differs (map (job_check tk d) jobs))"
      using Cons.IH by blast
    have "write_jobs tk True (j # jobs) failed d = (d, r')" using r'(1) by (simp add: j w' Inr)
    moreover have "isl r' = some_raises (map (job_check tk d) (j # jobs))" using r'(2) w by (simp add: Inr)
    moreover have "some_differs (map (job_check tk d) (j # jobs)) = (changed \<noteq> [] \<or> some_differs (map (job_check tk d) jobs))"
      using w by (simp add: Inr)
    ultimately show ?thesis using r'(3) by blast
  qed
qed simp

lemma generate_config_check:
  assumes "plan_config tk p d = Inr (contract, jobs)"
  shows "generate_config tk p True d = (d, check_outcome (write_contract tk True contract d # map (job_check tk d) jobs))"
proof -
  obtain r where w: "write_contract tk True contract d = (d, r)"
    using write_contract_check [of tk contract d] by (cases "write_contract tk True contract d") simp
  show ?thesis
  proof (cases r)
    case (Inl e)
    then show ?thesis by (simp add: generate_config_def assms w check_outcome_def)
  next
    case (Inr changed)
    obtain r' where j: "write_jobs tk True jobs (changed \<noteq> []) d = (d, r')"
      and r': "isl r' = some_raises (map (job_check tk d) jobs)"
        "\<forall>b. r' = Inr b \<longrightarrow> b = (changed \<noteq> [] \<or> some_differs (map (job_check tk d) jobs))"
      using write_jobs_check [of tk jobs "changed \<noteq> []" d] by blast
    show ?thesis
    proof (cases r')
      case (Inl e)
      then show ?thesis using r' by (simp add: generate_config_def assms w Inr j check_outcome_def)
    next
      case (Inr b)
      then show ?thesis using r' \<open>r = Inr changed\<close> by (simp add: generate_config_def assms w j check_outcome_def)
    qed
  qed
qed

lemma plan_config_clients:
  assumes "plan_config tk p d = Inr (contract, jobs)"
  shows "\<exists>content config clients. read_text d p = Inr content \<and> tl_toml tk content = Some config
    \<and> config_clients config = Some clients
    \<and> traverse (\<lambda>c. config_arguments (butlast p) c (map_option fst contract)) clients = Inr (map fst jobs)
    \<and> list_all (\<lambda>j. render_job tk d contract (fst j) = Inr j) jobs"
proof -
  obtain content config clients args where c: "read_text d p = Inr content" "tl_toml tk content = Some config"
      "config_clients config = Some clients"
      "traverse (\<lambda>c. config_arguments (butlast p) c (map_option fst contract)) clients = Inr args"
      "traverse (render_job tk d contract) args = Inr jobs"
    using assms unfolding plan_config_def
    by (elim rbind_InrE) (auto split: sum.splits option.splits)
  have j: "fst j = a" if "render_job tk d contract a = Inr j" for a j
    using that by (auto simp: render_job_def rbind_eq_Inr split: option.splits)
  have "map fst jobs = args \<and> list_all (\<lambda>j. render_job tk d contract (fst j) = Inr j) jobs"
    using c(5)
  proof (induction args arbitrary: jobs)
    case (Cons a args)
    then obtain j js where "jobs = j # js" "render_job tk d contract a = Inr j" "traverse (render_job tk d contract) args = Inr js"
      by (auto simp: rbind_eq_Inr)
    with Cons.IH [of js] j [of a j] show ?case by simp
  qed simp
  with c show ?thesis by blast
qed


section \<open>An example\<close>

definition demo_tools :: tools where
  "demo_tools =
     \<lparr>tl_toml = (\<lambda>s. Some (JObj [(''version'', JInt 1), (''clients'', JArr [JObj [(''schema'', JStr ''api.json''),
           (''language'', JStr ''typescript''), (''output'', JStr ''web'')]])])),
      tl_json = (\<lambda>s. if s = ''M'' then Some (JObj [(''files'', JArr [JStr ''client.py''])]) else Some (JObj [])),
      tl_import = (\<lambda>m. Inl ReferenceFailed), tl_contract = (\<lambda>k t de se. Inl ReferenceFailed),
      tl_render = (\<lambda>a e j. Inr [(''client.ts'', ''X'')]), tl_names = (\<lambda>s. Some []), tl_resolve = (\<lambda>p. p)\<rparr>"

definition demo_disk :: disk where
  "demo_disk = [([''rpc.toml''], FileNode ''C''), ([''api.json''], FileNode ''J'')]"


text \<open>A contract is written like a client, so the manifest of a client in the same directory makes all of its files stale: writing
  a contract there deletes the client.\<close>

definition client_disk :: disk where
  "client_disk =
     [([''api''], DirNode), ([''api'', ''.rpcgen''], DirNode), ([''api'', ''.rpcgen'', ''manifest.json''], FileNode ''M''),
      ([''api'', ''client.py''], FileNode ''X'')]"

theorem contract_deletes_client:
  "case write_contract demo_tools False (Some ([''api'', ''openrpc.json''], ''{}'')) client_disk of
     (d', r) \<Rightarrow> map_of client_disk [''api'', ''client.py''] = Some (FileNode ''X'') \<and> map_of d' [''api'', ''client.py''] = None"
  by code_simp

end

