(* ===== verification/PyClient.thy ===== *)
theory PyClient
  imports PyNames
begin

text \<open>
  \<open>codegen/python.py\<close>, second part: which client may be rendered (\<open>_validate\<close>), which files its package has, and what
  its \<open>__init__\<close> imports and exports. A file is represented by what is rendered into it.
\<close>

record py_options =
  po_package :: string
  po_client_name :: "string option"
  po_base_model :: string
  po_api_root :: "string option"
  po_api_names :: "(string, string) dict"
  po_transport :: "string option"
  po_extra_files :: "(string, string) dict"
  po_extra_exports :: "(string, string) dict"

definition with_websocket :: "py_options \<Rightarrow> bool" where
  "with_websocket o' = (po_transport o' = Some ''websocket'')"

definition ir_models :: "client_ir \<Rightarrow> (string \<times> field_decl list) list" where
  "ir_models ir = concat (map (\<lambda>d. case d of ModelDecl n fs c \<Rightarrow> [(n, fs)] | _ \<Rightarrow> []) (ir_declarations ir))"

definition client_name_of :: "client_ir \<Rightarrow> py_options \<Rightarrow> render_error + string" where
  "client_name_of ir o' =
     (case po_client_name o' of
        Some (c # n) \<Rightarrow> Inr (c # n)
      | _ \<Rightarrow> rbind (text_of (ir_title ir)) (\<lambda>t. Inr (pascal_name t @ ''Client'')))"

section \<open>Groups\<close>

definition handler_class :: "string list \<Rightarrow> string" where
  "handler_class p = (if api_class p = [] then ''Root'' else api_class p) @ ''Handler''"

record handler_group =
  hg_class :: string
  hg_namespace :: string
  hg_methods :: "route_decl list"

definition handler_groups :: "client_ir \<Rightarrow> handler_group list" where
  "handler_groups ir =
     map (\<lambda>p. \<lparr>hg_class = handler_class p, hg_namespace = join ''.'' p,
               hg_methods = filter (\<lambda>r. rr_path r = p) (ir_client_methods ir)\<rparr>)
       (fromkeys (map rr_path (ir_client_methods ir)))"

definition client_faults :: "client_ir \<Rightarrow> fault_decl list" where
  "client_faults ir =
     concat (map rr_errors (ir_operations ir)) @ concat (map rr_errors (ir_client_methods ir))
     @ concat (map ev_errors (ir_notifications ir))"

definition named_error_codes :: "client_ir \<Rightarrow> string list" where
  "named_error_codes ir = fromkeys (map fa_code (client_faults ir))"

text \<open>\<open>_render_errors\<close>: the first error of each code.\<close>

definition rendered_errors :: "client_ir \<Rightarrow> fault_decl list" where
  "rendered_errors ir = fromkeys_by fa_code (client_faults ir)"

text \<open>The URL variables that \<open>connect\<close> accepts: those of a server, also where streams and raw sockets have them; the
  values of one that is declared with different values are not restricted.\<close>

definition merge_variable ::
  "string list \<Rightarrow> variable_decl \<Rightarrow> (string, variable_decl) dict \<Rightarrow> (string, variable_decl) dict" where
  "merge_variable declared v m =
     (if va_name v \<notin> set declared then m
      else case map_of m (va_name v) of
             None \<Rightarrow> dict_set (va_name v) v m
           | Some p \<Rightarrow> if va_enum p \<noteq> va_enum v then dict_set (va_name v) (p\<lparr>va_enum := []\<rparr>) m else m)"

definition connect_variables :: "client_ir \<Rightarrow> variable_decl list" where
  "connect_variables ir =
     dict_vals (fold (merge_variable (concat (map (\<lambda>s. map va_name (se_variables s)) (ir_servers ir))))
       (concat (map se_variables (ir_servers ir)) @ concat (map sr_variables (ir_streams ir))
        @ concat (map so_variables (ir_sockets ir))) [])"

section \<open>Unique names\<close>

text \<open>\<open>assert_unique_names\<close> on a generator, whose elements may raise, and on a list.\<close>

definition unique_lazily :: "string \<Rightarrow> ('a \<Rightarrow> render_error + string \<times> string) \<Rightarrow> 'a list \<Rightarrow> render_error + unit" where
  "unique_lazily owner f xs =
     rbind (fold_res (\<lambda>x m. rbind (f x) (\<lambda>si. model_error (enter_identifier owner si m))) xs []) (\<lambda>_. Inr ())"

definition unique_pairs :: "string \<Rightarrow> (string \<times> string) list \<Rightarrow> render_error + unit" where
  "unique_pairs owner ps = model_error (assert_unique_names owner ps)"

definition named :: "string \<Rightarrow> string \<Rightarrow> render_error + string \<times> string" where
  "named source n = rbind (py_identifier n) (\<lambda>i. Inr (source, i))"

definition named_json :: "json \<Rightarrow> render_error + string \<times> string" where
  "named_json j = rbind (text_of j) (\<lambda>s. named s s)"

definition each_of :: "('a \<Rightarrow> render_error + unit) \<Rightarrow> 'a list \<Rightarrow> render_error + unit" where
  "each_of f xs = rbind (traverse f xs) (\<lambda>_. Inr ())"

definition route_pairs :: "route_decl list \<Rightarrow> render_error + (string \<times> string) list" where
  "route_pairs rs = traverse (\<lambda>r. named (rr_rpc_name r) (rr_operation r)) rs"

definition event_pairs :: "event_decl list \<Rightarrow> render_error + (string \<times> string) list" where
  "event_pairs es = traverse (\<lambda>e. named (ev_rpc_name e) (ev_operation e)) es"

definition stream_pairs :: "stream_decl list \<Rightarrow> socket_decl list \<Rightarrow> render_error + (string \<times> string) list" where
  "stream_pairs ss ws =
     rbind (traverse (\<lambda>s. named (sr_rpc_name s) (sr_operation s)) ss) (\<lambda>ps.
     rbind (traverse (\<lambda>s. named (so_rpc_name s) (so_operation s)) ws) (\<lambda>qs. Inr (ps @ qs)))"

fun validate_node :: "namespace_node \<Rightarrow> render_error + unit" where
  "validate_node (NamespaceNode s p source ops es ss ws cs) =
     rbind (traverse (\<lambda>c. named (ns_segment c) (ns_segment c)) cs) (\<lambda>children.
     rbind (route_pairs ops) (\<lambda>routes.
     rbind (event_pairs es) (\<lambda>events.
     rbind (stream_pairs ss ws) (\<lambda>streams.
     rbind (unique_pairs (''API path '' @ join ''.'' p) (children @ routes @ events @ streams)) (\<lambda>_.
     rbind (traverse validate_node cs) (\<lambda>_. Inr ()))))))"

fun walk_namespace :: "namespace_node \<Rightarrow> namespace_node list" where
  "walk_namespace (NamespaceNode s p source ops es ss ws cs) =
     NamespaceNode s p source ops es ss ws cs # concat (map walk_namespace cs)"

section \<open>Validation\<close>

definition package_names :: "string list" where
  "package_names =
     [''RpcTransport'', ''RpcClientMiddleware'', ''RpcClientCall'', ''RpcClientCallOutcome'', ''RpcClientError'',
      ''RpcConnectionState'', ''RpcNotificationOverflowHandler'', ''RpcConnectError'', ''RpcConnectionLostError'',
      ''RpcNotificationValidationError'', ''RpcRemoteError'', ''RpcRequestTimeoutError'',
      ''RpcResponseValidationError'', ''RpcTransportError'']"

definition stream_names :: "string list" where
  "stream_names =
     [''BinaryChannel'', ''BinaryInputEnd'', ''BinaryInputTransport'', ''BinaryReceiver'', ''BinarySender'',
      ''BinaryStreamEndpoint'', ''BinaryStreamName'', ''BinaryStreamOpener'', ''BinaryStreamTransport'',
      ''BinaryWebSocketStream'', ''RpcStreamClosed'', ''RpcStreamFailed'', ''RpcStreamRefused'',
      ''RpcStreamsUnavailableError'']"

definition raw_socket_names :: "string list" where
  "raw_socket_names =
     [''RawMessage'', ''RawMessageType'', ''RawSocket'', ''RawSocketEndpoint'', ''RawSocketName'',
      ''RawSocketOpener'', ''RawSocketTransport'', ''RawWebSocketStream'']"

definition runtime_names :: "string list" where
  "runtime_names =
     [''AsyncIterator'', ''RpcClientCore'', ''RpcConnectionState'', ''RpcNotificationOverflowHandler'',
      ''RpcClientCall'', ''RpcClientCallOutcome'', ''RpcRemoteError'', ''RpcTransport'', ''Self'', ''TypeAdapter'',
      ''UNSET'', ''UnsetType'']"

definition connect_options :: "string list" where
  "connect_options =
     [''middleware'', ''retry_attempts'', ''retry_attempt_timeout'', ''eager'', ''notification_queue_size'',
      ''request_timeout'', ''servers'', ''socket_factory'', ''reconnect_max_attempts'', ''reconnect_should_retry'',
      ''reconnect_random'', ''on_state_change'', ''on_overflow'']"

definition validate_transport :: "client_ir \<Rightarrow> py_options \<Rightarrow> render_error + unit" where
  "validate_transport ir o' =
     rbind (refused_if (po_transport o' \<notin> {None, Some ''websocket''}) BadTransport) (\<lambda>_.
     if \<not> with_websocket o' then Inr ()
     else
       rbind (refused_if (ir_servers ir = []) NeedsServer) (\<lambda>_.
       rbind (case filter (\<lambda>s. case se_transport s of None \<Rightarrow> True | Some t \<Rightarrow> tr_type t \<noteq> ''websocket'') (ir_servers ir) of
                [] \<Rightarrow> Inr ()
              | invalid \<Rightarrow> rbind (traverse (\<lambda>s. text_of (se_name s)) invalid) (\<lambda>ns. Inl (Refused (NoWebSocketTransport ns)))) (\<lambda>_.
       case map rr_rpc_name (filter (\<lambda>r. rr_server r = None) (ir_operations ir))
            @ map ev_rpc_name (filter (\<lambda>e. ev_server e = None) (ir_notifications ir)) of
         [] \<Rightarrow> Inr ()
       | unassigned \<Rightarrow> refused_if (1 < length (ir_servers ir)) (RoutesNeedServer unassigned))))"

definition validate_schemas :: "client_ir \<Rightarrow> render_error + unit" where
  "validate_schemas ir =
     rbind (unique_pairs ''schemas'' (map (\<lambda>d. (decl_name d, pascal_name (decl_name d))) (ir_declarations ir))) (\<lambda>_.
     rbind (each_of (\<lambda>d. rbind (schema_name (decl_name d)) (\<lambda>n.
              refused_if (n \<in> set runtime_names) (RuntimeCollision (decl_name d) n))) (ir_declarations ir)) (\<lambda>_.
     rbind (each_of (\<lambda>(n, fs). unique_lazily (''model '' @ n) (\<lambda>f. named (fd_name f) (fd_name f)) fs) (ir_models ir)) (\<lambda>_.
     each_of (\<lambda>r. unique_lazily (''method '' @ rr_rpc_name r) (\<lambda>p. named_json (pa_name p)) (rr_params r)) (ir_operations ir))))"

definition client_members :: "client_ir \<Rightarrow> client_view \<Rightarrow> render_error + (string \<times> string) list" where
  "client_members ir view =
     rbind (traverse (\<lambda>n. named (last (ns_source n)) (ns_segment n)) (cv_nodes view)) (\<lambda>nodes.
     rbind (route_pairs (cv_operations view)) (\<lambda>routes.
     rbind (event_pairs (cv_notifications view)) (\<lambda>events.
     rbind (stream_pairs (cv_streams view) (cv_sockets view)) (\<lambda>streams.
     Inr (map (\<lambda>m. (''<client.'' @ m @ ''>'', m))
            [''close'', ''closed'', ''state'', ''states'', ''dropped_notifications'', ''from_transport'']
          @ nodes @ routes @ events @ streams
          @ (if ir_servers ir \<noteq> [] then map (\<lambda>m. (''<client.'' @ m @ ''>'', m)) [''from_transports'', ''from_transport_map'']
             else []))))))"

definition connect_pairs :: "client_ir \<Rightarrow> render_error + (string \<times> string) list" where
  "connect_pairs ir =
     rbind (traverse (\<lambda>v. named (va_name v) (va_name v)) (connect_variables ir)) (\<lambda>vs.
     Inr (map (\<lambda>m. (m, m)) connect_options @ vs
          @ (if length (ir_servers ir) = 1 then [(''<connect.url>'', ''url'')] else [])
          @ (if ir_streams ir \<noteq> [] then [(''<connect.stream_socket_factory>'', ''stream_socket_factory'')] else [])
          @ (if ir_sockets ir \<noteq> [] then [(''<connect.raw_socket_factory>'', ''raw_socket_factory'')] else [])
          @ (if ir_client_methods ir \<noteq> [] then [(''<connect.handlers>'', ''handlers'')] else [])))"

text \<open>\<open>_assert_unique_package_exports\<close>.\<close>

definition export_pairs ::
  "client_ir \<Rightarrow> py_options \<Rightarrow> namespace_node list \<Rightarrow> string \<Rightarrow> render_error + (string \<times> string) list" where
  "export_pairs ir o' nodes client =
     rbind (traverse (\<lambda>d. rbind (schema_name (decl_name d)) (\<lambda>n. Inr (decl_name d, n))) (ir_declarations ir)) (\<lambda>ds.
     rbind (traverse (\<lambda>c. rbind (schema_name c) (\<lambda>n. Inr (c, n @ ''Error''))) (named_error_codes ir)) (\<lambda>es.
     Inr ([(''<client>'', client)] @ map (\<lambda>n. (''<runtime>'', n)) package_names
          @ (if ir_servers ir \<noteq> [] then map (\<lambda>n. (''<endpoints>'', n)) [''Endpoint'', ''ServerName'', ''endpoints''] else [])
          @ (if with_websocket o' then [(''<transport>'', ''WebSocketTransport'')] else [])
          @ (if ir_client_methods ir \<noteq> [] then
               [(''<runtime>'', ''current_client_method_metadata'')]
               @ map (\<lambda>g. (if hg_namespace g = [] then ''<root handlers>'' else hg_namespace g, hg_class g)) (handler_groups ir)
               @ map (\<lambda>n. (''<handlers>'', n)) [''Handler'', ''handler_dispatcher'', ''handlers''] else [])
          @ (if ir_streams ir \<noteq> [] then map (\<lambda>n. (''<streams>'', n)) (stream_names @ [''streams'']) else [])
          @ (if ir_sockets ir \<noteq> [] then
               map (\<lambda>n. (''<raw sockets>'', n)) (raw_socket_names @ [''raw_sockets''])
               @ map (\<lambda>n. (''<streams>'', n)) (filter (starts_with ''Rpc'') stream_names) else [])
          @ (if ir_declarations ir \<noteq> [] then [(''<models>'', ''models'')] else [])
          @ ds @ map (\<lambda>n. (join ''.'' (ns_source n), api_class (ns_path n))) nodes @ es)))"

definition validate_client :: "client_ir \<Rightarrow> client_view \<Rightarrow> py_options \<Rightarrow> string \<Rightarrow> render_error + unit" where
  "validate_client ir view o' client =
     rbind (validate_transport ir o') (\<lambda>_.
     rbind (assert_class_name client ''client_name'') (\<lambda>_.
     rbind (assert_class_name (po_base_model o') ''base_model_name'') (\<lambda>_.
     rbind (validate_schemas ir) (\<lambda>_.
     rbind (client_members ir view) (\<lambda>members.
     rbind (if \<not> with_websocket o' then Inr () else rbind (connect_pairs ir) (unique_pairs ''connect options'')) (\<lambda>_.
     rbind (unique_pairs ''root client''
              (members @ (if with_websocket o' then [(''<client.connect>'', ''connect'')] else []))) (\<lambda>_.
     rbind (rbind (export_pairs ir o' (cv_nodes view) client) (unique_pairs ''package exports'')) (\<lambda>_.
     rbind (each_of validate_node (cv_nodes view)) (\<lambda>_.
     rbind (each_of (\<lambda>g. unique_lazily (''handlers '' @ (if hg_namespace g = [] then ''<root>'' else hg_namespace g))
              (\<lambda>r. named (rr_rpc_name r) (rr_operation r)) (hg_methods g)) (handler_groups ir)) (\<lambda>_.
     rbind (each_of (\<lambda>n. rbind (py_identifier (ns_segment n)) (\<lambda>i.
              unique_pairs (''Python namespace module '' @ i)
                (map (\<lambda>x. (join ''.'' (ns_source x), api_class (ns_path x))) (walk_namespace n)))) (cv_nodes view)) (\<lambda>_.
     rbind (unique_lazily ''servers'' (\<lambda>s. named_json (se_name s)) (ir_servers ir)) (\<lambda>_.
     rbind (unique_lazily ''binary streams'' (\<lambda>s. named (sr_rpc_name s) (sr_rpc_name s)) (ir_streams ir)) (\<lambda>_.
     rbind (unique_lazily ''raw sockets'' (\<lambda>s. named (so_rpc_name s) (so_rpc_name s)) (ir_sockets ir)) (\<lambda>_.
     each_of (\<lambda>s. rbind (text_of (se_name s)) (\<lambda>n.
       unique_lazily (''server '' @ n) (\<lambda>v. named (va_name v) (va_name v)) (se_variables s))) (ir_servers ir)))))))))))))))"

section \<open>The package\<close>

text \<open>\<open>_render_package_init\<close>: the names the package exports and its imports, which the template writes down. The state is
  that of the local variables \<open>exported\<close> and \<open>imports\<close>.\<close>

type_synonym init_state = "string list \<times> py_imports"

definition init_with :: "(string \<times> string list) list \<Rightarrow> string list \<Rightarrow> init_state \<Rightarrow> init_state" where
  "init_with imported names st = (fst st @ names, fold (\<lambda>(m, ns). add_import m ns) imported (snd st))"

definition stream_errors :: "string list" where
  "stream_errors = [''RpcStreamClosed'', ''RpcStreamFailed'', ''RpcStreamRefused'', ''RpcStreamsUnavailableError'']"

definition init_stream_names :: "string list" where
  "init_stream_names =
     [''BinaryChannel'', ''BinaryInputEnd'', ''BinaryInputTransport'', ''BinaryReceiver'', ''BinarySender'',
      ''BinaryStreamEndpoint'', ''BinaryStreamName'', ''BinaryStreamOpener'', ''BinaryStreamTransport'']"

definition init_base :: "string \<Rightarrow> string \<Rightarrow> init_state" where
  "init_base package client =
     init_with
       [(package @ ''.internal'',
         [''RpcClientError'', ''RpcClientMiddleware'', ''RpcTransport'', ''RpcConnectionState'',
          ''RpcNotificationOverflowHandler'', ''RpcClientCall'', ''RpcClientCallOutcome'', ''RpcConnectError'',
          ''RpcConnectionLostError'', ''RpcNotificationValidationError'', ''RpcRemoteError'',
          ''RpcRequestTimeoutError'', ''RpcResponseValidationError'', ''RpcTransportError'']),
        (package @ ''.client'', [client])]
       [client, ''RpcClientMiddleware'', ''RpcTransport'', ''RpcClientError'', ''RpcConnectionState'',
        ''RpcNotificationOverflowHandler'', ''RpcClientCall'', ''RpcClientCallOutcome'', ''RpcConnectError'',
        ''RpcConnectionLostError'', ''RpcNotificationValidationError'', ''RpcRemoteError'',
        ''RpcRequestTimeoutError'', ''RpcResponseValidationError'', ''RpcTransportError'']
       ([], no_imports (Some package))"

definition init_names :: "string \<Rightarrow> string list \<Rightarrow> string list \<Rightarrow> string list \<Rightarrow> init_state \<Rightarrow> init_state" where
  "init_names package errors declarations namespaces st =
     (let st1 = (if errors = [] then st else init_with [(package @ ''.errors'', errors)] errors st);
          st2 = (if declarations = [] then st1
                 else init_with [(package, [''models'']), (package @ ''.models'', declarations)]
                        (declarations @ [''models'']) st1) in
      if namespaces = [] then st2 else init_with [(package @ ''.namespaces'', namespaces)] namespaces st2)"

definition init_servers :: "string \<Rightarrow> client_ir \<Rightarrow> py_options \<Rightarrow> init_state \<Rightarrow> init_state" where
  "init_servers package ir o' st =
     (let st1 = (if ir_servers ir = [] then st
                 else init_with [(package, [''endpoints'']), (package @ ''.endpoints'', [''Endpoint'', ''ServerName''])]
                        [''Endpoint'', ''ServerName'', ''endpoints''] st) in
      if with_websocket o' then
        init_with [(package @ ''.transport'', [''WebSocketTransport''])] [''WebSocketTransport''] st1
      else st1)"

definition init_handlers :: "string \<Rightarrow> client_ir \<Rightarrow> init_state \<Rightarrow> init_state" where
  "init_handlers package ir st =
     (if ir_client_methods ir = [] then st
      else let hs = map hg_class (handler_groups ir) @ [''Handler'', ''handler_dispatcher''] in
        init_with
          [(package @ ''.internal'', [''current_client_method_metadata'']), (package, [''handlers'']),
           (package @ ''.handlers'', hs)]
          ([''current_client_method_metadata''] @ hs @ [''handlers'']) st)"

definition init_streams :: "string \<Rightarrow> client_ir \<Rightarrow> py_options \<Rightarrow> init_state \<Rightarrow> init_state" where
  "init_streams package ir o' st =
     (if ir_streams ir = [] then st
      else let st1 = init_with
                 [(package, [''streams'']), (package @ ''.streams'', init_stream_names),
                  (package @ ''.internal'', stream_errors)]
                 (init_stream_names @ stream_errors @ [''streams'']) st in
        if with_websocket o' then
          init_with [(package @ ''.streams'', [''BinaryWebSocketStream''])] [''BinaryWebSocketStream''] st1
        else st1)"

definition init_sockets :: "string \<Rightarrow> client_ir \<Rightarrow> py_options \<Rightarrow> init_state \<Rightarrow> init_state" where
  "init_sockets package ir o' st =
     (if ir_sockets ir = [] then st
      else let raw = filter (\<lambda>n. with_websocket o' \<or> n \<noteq> ''RawWebSocketStream'') raw_socket_names;
               st1 = init_with [(package, [''raw_sockets'']), (package @ ''.raw_sockets'', raw)] (raw @ [''raw_sockets'']) st;
               errors = filter (\<lambda>n. n \<notin> set (fst st1)) stream_errors in
        init_with [(package @ ''.internal'', errors)] errors st1)"

definition extra_export ::
  "string \<Rightarrow> py_options \<Rightarrow> string \<times> string \<Rightarrow> init_state \<Rightarrow> render_error + init_state" where
  "extra_export package o' nm st =
     (let (n, m) = nm in
      if \<not> is_identifier n \<or> m @ ''.py'' \<notin> set (dict_keys (po_extra_files o')) then Inl (Refused (BadExtraExport n m))
      else if n \<in> set (fst st) then Inl (Refused (ExtraExportConflict n))
      else Inr (init_with [(package @ ''.'' @ m, [n])] [n] st))"

definition package_init ::
  "client_ir \<Rightarrow> py_options \<Rightarrow> string \<Rightarrow> namespace_node list \<Rightarrow> render_error + init_state" where
  "package_init ir o' client nodes =
     rbind (traverse (\<lambda>c. rbind (schema_name c) (\<lambda>n. Inr (n @ ''Error''))) (named_error_codes ir)) (\<lambda>errors.
     rbind (traverse (\<lambda>d. schema_name (decl_name d)) (ir_declarations ir)) (\<lambda>declarations.
     let package = po_package o';
         st = init_names package errors declarations (map (\<lambda>n. api_class (ns_path n)) nodes) (init_base package client);
         st' = init_sockets package ir o' (init_streams package ir o' (init_handlers package ir (init_servers package ir o' st))) in
     fold_res (extra_export package o') (po_extra_exports o') st'))"

section \<open>The files\<close>

text \<open>What is rendered into a file; an extra file has the content that the options give.\<close>

datatype py_file =
    FileInit "string list" py_imports
  | FileRuntime string
  | FileClient
  | FileModels
  | FileRoutes
  | FileErrors
  | FileEndpoints
  | FileStreams
  | FileRawSockets
  | FileHandlers
  | FileTransport
  | FileNamespaces
  | FileApi namespace_node
  | FileExtra string

definition runtime_files :: "client_ir \<Rightarrow> py_options \<Rightarrow> (string, py_file) dict" where
  "runtime_files ir o' =
     map (\<lambda>n. (''internal/'' @ n @ ''.py'', FileRuntime n))
       ([''__init__'', ''core'', ''errors'', ''metadata'', ''transport'', ''unset'']
        @ (if with_websocket o' then [''connection''] else [])
        @ (if ir_client_methods ir \<noteq> [] then [''client_methods''] else []))"

definition own_files ::
  "client_ir \<Rightarrow> py_options \<Rightarrow> namespace_node list \<Rightarrow> init_state \<Rightarrow> (string, py_file) dict" where
  "own_files ir o' nodes st =
     [(''__init__.py'', FileInit (sort (fst st)) (snd st))] @ runtime_files ir o' @ [(''client.py'', FileClient)]
     @ (if ir_declarations ir \<noteq> [] then [(''models.py'', FileModels)] else [])
     @ (if ir_operations ir \<noteq> [] \<or> ir_notifications ir \<noteq> [] then [(''routes.py'', FileRoutes)] else [])
     @ [(''errors.py'', FileErrors)]
     @ (if ir_servers ir \<noteq> [] then [(''endpoints.py'', FileEndpoints)] else [])
     @ (if ir_streams ir \<noteq> [] then [(''streams.py'', FileStreams)] else [])
     @ (if ir_sockets ir \<noteq> [] then [(''raw_sockets.py'', FileRawSockets)] else [])
     @ (if ir_client_methods ir \<noteq> [] then [(''handlers.py'', FileHandlers)] else [])
     @ (if with_websocket o' then [(''transport.py'', FileTransport)] else [])
     @ (if nodes \<noteq> [] then [(''namespaces/__init__.py'', FileNamespaces)] else [])"

definition module_path :: "string \<Rightarrow> string" where
  "module_path i = ''namespaces/'' @ i @ ''.py''"

definition api_file :: "namespace_node \<Rightarrow> (string, py_file) dict \<Rightarrow> render_error + (string, py_file) dict" where
  "api_file n files =
     rbind (py_identifier (hd (ns_path n))) (\<lambda>i. Inr (dict_set (module_path i) (FileApi n) files))"

definition extra_file :: "string \<times> string \<Rightarrow> (string, py_file) dict \<Rightarrow> render_error + (string, py_file) dict" where
  "extra_file nc files =
     (let (name, content) = nc in
      rbind (py_identifier (remove_suffix ''.py'' name)) (\<lambda>i.
      if name \<noteq> i @ ''.py'' then Inl (Refused (BadExtraFile name))
      else if name \<in> set (dict_keys files) then Inl (Refused (ExtraFileConflict name))
      else Inr (dict_set name (FileExtra content) files)))"

text \<open>\<open>render_files\<close>, up to what the templates make of each file.\<close>

definition render_files :: "client_ir \<Rightarrow> py_options \<Rightarrow> render_error + (string, py_file) dict" where
  "render_files ir o' =
     rbind (model_error (view_client ir (po_api_root o') (po_api_names o'))) (\<lambda>view.
     rbind (client_name_of ir o') (\<lambda>client.
     rbind (validate_client ir view o' client) (\<lambda>_.
     rbind (package_init ir o' client (cv_nodes view)) (\<lambda>st.
     rbind (fold_res api_file (cv_nodes view) (own_files ir o' (cv_nodes view) st)) (\<lambda>files.
     fold_res extra_file (po_extra_files o') files)))))"

end
