(* ===== verification/TsClient.thy ===== *)
theory TsClient
  imports PyClient
begin

text \<open>
  \<open>codegen/typescript.py\<close>: names, literals, types, import lines and signatures of the TypeScript renderer, its validation of a
  client, the imports of its modules and its files. As in the Python renderer, text that a template makes is left out;
  strings are ASCII where \<open>json.dumps\<close> escapes them. What the two renderers have in common word by word, such as
  \<open>_schema_name\<close>, \<open>_api_class\<close>, \<open>_connect_variables\<close> and \<open>_walk\<close>, is that of the theories of Python.
\<close>

section \<open>Names\<close>

definition ts_reserved :: "string list" where
  "ts_reserved =
     [''break'', ''case'', ''class'', ''const'', ''constructor'', ''continue'', ''debugger'', ''default'', ''delete'', ''do'',
      ''else'', ''enum'', ''export'', ''extends'', ''false'', ''finally'', ''for'', ''function'', ''if'', ''import'', ''in'',
      ''instanceof'', ''new'', ''null'', ''return'', ''super'', ''switch'', ''this'', ''throw'', ''true'', ''try'', ''typeof'',
      ''var'', ''void'', ''while'', ''with'', ''yield'']"

definition ts_valid :: "string \<Rightarrow> bool" where
  "ts_valid s =
     (case s of
        [] \<Rightarrow> False
      | c # cs \<Rightarrow>
          (word_char c \<or> c = CHR ''_'' \<or> c = CHR ''$'') \<and> \<not> is_digit c
          \<and> list_all (\<lambda>c. word_char c \<or> c = CHR ''_'' \<or> c = CHR ''$'') cs)"

definition ts_name :: "string \<Rightarrow> string" where
  "ts_name n =
     (let i = (if is_digit (hd n) then CHR ''_'' # n else n) in if i \<in> set ts_reserved then i @ ''_'' else i)"

definition ts_identifier :: "string \<Rightarrow> render_error + string" where
  "ts_identifier s = (case camel_case s of [] \<Rightarrow> Inl (Refused (NoIdentifier s)) | c # n \<Rightarrow> Inr (ts_name (c # n)))"

definition ts_property :: "string \<Rightarrow> string" where
  "ts_property s = (if ts_valid s then s else quote_string s)"

definition route_key :: "string \<Rightarrow> render_error + string" where
  "route_key rpc_name = ts_identifier rpc_name"

section \<open>Literals and types\<close>

fun json_literal :: "json \<Rightarrow> string" where
  "json_literal (JStr s) = quote_string s"
| "json_literal JNull = ''null''"
| "json_literal (JBool b) = (if b then ''true'' else ''false'')"
| "json_literal (JObj m) = ''{'' @ join '', '' (map (\<lambda>(k, v). quote_string k @ '': '' @ json_literal v) m) @ ''}''"
| "json_literal (JArr xs) = ''['' @ join '', '' (map json_literal xs) @ '']''"
| "json_literal (JInt i) = int_str i"
| "json_literal (JFloat s) = s"

definition ts_literal :: "json \<Rightarrow> string" where
  "ts_literal j = (case j of JNull \<Rightarrow> ''undefined'' | _ \<Rightarrow> json_literal j)"

definition ts_array :: "json list \<Rightarrow> string" where
  "ts_array vs = ''['' @ join '', '' (map ts_literal vs) @ '']''"

text \<open>\<open>replace("*/", "* /")\<close>.\<close>

fun break_comment :: "string \<Rightarrow> string" where
  "break_comment (c # e # s) =
     (if c = CHR ''*'' \<and> e = CHR ''/'' then ''* /'' @ break_comment s else c # break_comment (e # s))"
| "break_comment s = s"

definition ts_comment :: "string \<Rightarrow> string" where
  "ts_comment s = break_comment (join '' '' (space_parts s))"

definition ts_primitive :: "primitive \<Rightarrow> string" where
  "ts_primitive p =
     (case p of
        PrimString \<Rightarrow> ''string'' | PrimInteger \<Rightarrow> ''number'' | PrimNumber \<Rightarrow> ''number'' | PrimBoolean \<Rightarrow> ''boolean''
      | PrimNull \<Rightarrow> ''null'' | PrimUuid \<Rightarrow> ''string'' | PrimDatetime \<Rightarrow> ''string'' | PrimAny \<Rightarrow> ''unknown'')"

fun ts_type :: "type_expr \<Rightarrow> render_error + string" where
  "ts_type (PrimitiveType p) = Inr (ts_primitive p)"
| "ts_type (NamedType n) = schema_name n"
| "ts_type (LiteralType v) = Inr (json_literal v)"
| "ts_type (EnumLiteralType e m) = rbind (schema_name e) (\<lambda>s. Inr (''typeof '' @ s @ ''.'' @ m))"
| "ts_type (ListType t) =
     rbind (ts_type t) (\<lambda>a. Inr ((case t of UnionType ts d \<Rightarrow> ''('' @ a @ '')'' | _ \<Rightarrow> a) @ ''[]''))"
| "ts_type (MapType t) = rbind (ts_type t) (\<lambda>a. Inr (''Record<string, '' @ a @ ''>''))"
| "ts_type (UnionType ts d) = rbind (traverse ts_type ts) (\<lambda>as. Inr (join '' | '' (fromkeys as)))"

definition is_null_type :: "type_expr \<Rightarrow> bool" where
  "is_null_type t = (t = PrimitiveType PrimNull)"

definition is_discriminator :: "string \<Rightarrow> type_expr \<Rightarrow> bool" where
  "is_discriminator n t =
     (n = ''type'' \<and> (case t of LiteralType v \<Rightarrow> True | EnumLiteralType e m \<Rightarrow> True | _ \<Rightarrow> False))"

definition variable_type :: "variable_decl \<Rightarrow> string" where
  "variable_type v = (if va_enum v = [] then ''string'' else join '' | '' (map ts_literal (va_enum v)))"

definition server_subprotocols :: "server_decl \<Rightarrow> string" where
  "server_subprotocols s = (case se_transport s of None \<Rightarrow> ''[]'' | Some t \<Rightarrow> ts_array (map JStr (tr_subprotocols t)))"

section \<open>Lines\<close>

definition newline_text :: string where
  "newline_text = [CHR 0x0A]"

definition quoted :: "string \<Rightarrow> string" where
  "quoted s = [CHR 0x22] @ s @ [CHR 0x22]"

definition braces :: "string \<Rightarrow> string list \<Rightarrow> string \<Rightarrow> string" where
  "braces keyword names m =
     (let inline = keyword @ '' { '' @ join '', '' names @ '' } from '' @ quoted m @ '';'' in
      if length inline \<le> 80 then inline
      else keyword @ '' {'' @ newline_text @ join newline_text (map (\<lambda>n. ''  '' @ n @ '','') names) @ newline_text
           @ ''} from '' @ quoted m @ '';'')"

definition value_import :: "string list \<Rightarrow> string \<Rightarrow> string" where
  "value_import names m = braces ''import'' names m"

definition type_import :: "string list \<Rightarrow> string \<Rightarrow> string" where
  "type_import names m = braces ''import type'' (sort (remdups names)) m"

definition type_export :: "string list \<Rightarrow> string \<Rightarrow> string" where
  "type_export names m = ''export type { '' @ join '', '' (sort (remdups names)) @ '' } from '' @ quoted m @ '';''"

definition union_alias :: "string \<Rightarrow> json list \<Rightarrow> string" where
  "union_alias n vs =
     (let ms = map ts_literal vs; inline = ''export type '' @ n @ '' = '' @ join '' | '' ms @ '';'' in
      if length inline \<le> 80 then inline
      else ''export type '' @ n @ '' ='' @ newline_text @ join newline_text (map (\<lambda>m. ''  | '' @ m) ms) @ '';'')"

definition stream_class :: "stream_decl \<Rightarrow> string" where
  "stream_class s =
     (if sr_direction s = ''client-to-server'' then ''BinarySender''
      else if sr_direction s = ''bidirectional'' then ''BinaryChannel'' else ''BinaryReceiver'')"

definition stream_classes :: "stream_decl list \<Rightarrow> string list" where
  "stream_classes ss = sort (remdups (map stream_class ss))"

definition socket_signature :: "string \<Rightarrow> variable_decl list \<Rightarrow> string \<Rightarrow> render_error + string" where
  "socket_signature operation vs returned =
     rbind (ts_identifier operation) (\<lambda>n.
     if vs = [] then Inr (''  '' @ n @ ''(): '' @ returned @ '' {'')
     else
       let parts = map (\<lambda>v. ''readonly '' @ ts_property (va_name v) @ ''?: '' @ variable_type v) vs;
           inline = ''  '' @ n @ ''(options?: { '' @ join ''; '' parts @ '' }): '' @ returned @ '' {'' in
       Inr (if length inline \<le> 80 then inline
            else ''  '' @ n @ ''(options?: {'' @ newline_text @ concat (map (\<lambda>p. ''    '' @ p @ '';'' @ newline_text) parts)
                 @ ''  }): '' @ returned @ '' {''))"

definition stream_signature :: "stream_decl \<Rightarrow> render_error + string" where
  "stream_signature s = socket_signature (sr_operation s) (sr_call_variables s) (''Promise<'' @ stream_class s @ ''>'')"

definition raw_socket_signature :: "socket_decl \<Rightarrow> render_error + string" where
  "raw_socket_signature s = socket_signature (so_operation s) (so_call_variables s) ''Promise<RawSocket>''"

definition indent6 :: string where
  "indent6 = ''      ''"

definition socket_endpoint :: "variable_decl list \<Rightarrow> string \<Rightarrow> string \<Rightarrow> string \<Rightarrow> string" where
  "socket_endpoint vs info rpc fn =
     (let heads = [info, rpc @ ''.variables''];
          args = concat (map (\<lambda>a. indent6 @ ''  '' @ a @ '','' @ newline_text) heads) in
      if vs = [] then
        let inline = indent6 @ fn @ ''('' @ join '', '' heads @ ''),'' in
        if length inline \<le> 80 then inline else indent6 @ fn @ ''('' @ newline_text @ args @ indent6 @ ''),''
      else
        let parts = map (\<lambda>v. ts_property (va_name v) @ '': options?.'' @ ts_property (va_name v) @ '','') vs;
            hugged = indent6 @ fn @ ''('' @ join '', '' heads @ '', {'' in
        if length hugged \<le> 80 then
          hugged @ newline_text @ concat (map (\<lambda>p. indent6 @ ''  '' @ p @ newline_text) parts) @ indent6 @ ''}),''
        else
          indent6 @ fn @ ''('' @ newline_text @ args @ indent6 @ ''  {'' @ newline_text
          @ concat (map (\<lambda>p. indent6 @ ''    '' @ p @ newline_text) parts) @ indent6 @ ''  },'' @ newline_text @ indent6 @ ''),'')"

definition stream_endpoint :: "stream_decl \<Rightarrow> string \<Rightarrow> render_error + string" where
  "stream_endpoint s rpc =
     rbind (ts_identifier (sr_rpc_name s)) (\<lambda>i.
     Inr (socket_endpoint (sr_call_variables s) (''binaryStreams.'' @ i) rpc ''resolveStreamEndpoint''))"

definition raw_socket_endpoint :: "socket_decl \<Rightarrow> string \<Rightarrow> render_error + string" where
  "raw_socket_endpoint s rpc =
     rbind (ts_identifier (so_rpc_name s)) (\<lambda>i.
     Inr (socket_endpoint (so_call_variables s) (''rawSockets.'' @ i) rpc ''resolveRawSocketEndpoint''))"

text \<open>The name of the model of the parameters is used as it is; \<open>None\<close> is spelled out by the code.\<close>

definition operation_signature :: "route_decl \<Rightarrow> render_error + string" where
  "operation_signature r =
     rbind (if is_null_type (rr_result r) then Inr ''void'' else ts_type (rr_result r)) (\<lambda>returned.
     rbind (ts_identifier (rr_operation r)) (\<lambda>i.
     let n = ''  '' @ (if is_null_type (rr_result r) then ''async '' else []) @ i;
         model = (case rr_params_model r of None \<Rightarrow> ''None'' | Some m \<Rightarrow> m);
         ps = (if rr_params r = [] then []
               else [''params: '' @ model @ (if list_all (\<lambda>p. \<not> pa_required p) (rr_params r) then '' = {}'' else [])])
              @ [''options?: RpcRequestOptions''];
         suffix = ''): Promise<'' @ returned @ ''> {'';
         inline = n @ ''('' @ join '', '' ps @ suffix in
     Inr (if length inline \<le> 80 then inline
          else n @ ''('' @ newline_text @ concat (map (\<lambda>p. ''    '' @ p @ '','' @ newline_text) ps) @ ''  '' @ suffix)))"

definition operation_call :: "route_decl \<Rightarrow> bool \<Rightarrow> render_error + string" where
  "operation_call r at_root =
     rbind (route_key (rr_rpc_name r)) (\<lambda>k.
     let statement = ''    '' @ (if is_null_type (rr_result r) then ''await'' else ''return'') @ '' ''
           @ (if at_root then ''this.#rpc'' else ''this.rpc'') @ ''.request'';
         args = [''routes.'' @ k, if rr_params r = [] then ''undefined'' else ''params'', ''options''];
         inline = statement @ ''('' @ join '', '' args @ '');'' in
     Inr (if length inline \<le> 80 then inline
          else statement @ ''('' @ newline_text @ concat (map (\<lambda>a. ''      '' @ a @ '','' @ newline_text) args) @ ''    );''))"

definition compact_notification :: "event_decl \<Rightarrow> bool \<Rightarrow> render_error + bool" where
  "compact_notification e at_root =
     rbind (route_key (ev_rpc_name e)) (\<lambda>k.
     Inr (length (''    return '' @ (if at_root then ''this.#rpc'' else ''this.rpc'') @ ''.notifications(notifications.'' @ k @ '');'')
          \<le> 80))"

end
