(* ===== verification/TsPackage.thy ===== *)
theory TsPackage
  imports TsClient
begin

text \<open>
  \<open>codegen/typescript.py\<close>, second part: the validation of a client, the files of its package and the imports of its modules.
\<close>

record ts_options =
  to_client_name :: "string option"
  to_transport_module :: string
  to_api_root :: "string option"
  to_api_names :: "(string, string) dict"
  to_transport :: "string option"

definition ts_websocket :: "ts_options \<Rightarrow> bool" where
  "ts_websocket o' = (to_transport o' = Some ''websocket'')"

definition ts_client_name :: "client_ir \<Rightarrow> ts_options \<Rightarrow> render_error + string" where
  "ts_client_name ir o' =
     (case to_client_name o' of
        Some (c # n) \<Rightarrow> Inr (c # n)
      | _ \<Rightarrow> rbind (text_of (ir_title ir)) (\<lambda>t. Inr (pascal_name t @ ''Client'')))"

definition transport_module :: "ts_options \<Rightarrow> string" where
  "transport_module o' = (if ts_websocket o' then ''./transport'' else to_transport_module o')"

section \<open>Validation\<close>

definition ts_named :: "string \<Rightarrow> string \<Rightarrow> render_error + string \<times> string" where
  "ts_named source n = rbind (ts_identifier n) (\<lambda>i. Inr (source, i))"

definition ts_named_json :: "json \<Rightarrow> render_error + string \<times> string" where
  "ts_named_json j = rbind (text_of j) (\<lambda>s. ts_named s s)"

definition ts_member_pairs ::
  "route_decl list \<Rightarrow> event_decl list \<Rightarrow> stream_decl list \<Rightarrow> socket_decl list \<Rightarrow> render_error + (string \<times> string) list" where
  "ts_member_pairs rs es ss ws =
     rbind (traverse (\<lambda>r. ts_named (rr_rpc_name r) (rr_operation r)) rs) (\<lambda>routes.
     rbind (traverse (\<lambda>e. ts_named (ev_rpc_name e) (ev_operation e)) es) (\<lambda>events.
     rbind (traverse (\<lambda>s. ts_named (sr_rpc_name s) (sr_operation s)) ss) (\<lambda>streams.
     rbind (traverse (\<lambda>s. ts_named (so_rpc_name s) (so_operation s)) ws) (\<lambda>sockets.
     Inr (routes @ events @ streams @ sockets)))))"

fun ts_validate_node :: "namespace_node \<Rightarrow> render_error + unit" where
  "ts_validate_node (NamespaceNode s p source ops es ss ws cs) =
     rbind (traverse (\<lambda>c. ts_named (ns_segment c) (ns_segment c)) cs) (\<lambda>children.
     rbind (ts_member_pairs ops es ss ws) (\<lambda>members.
     rbind (unique_pairs (''API path '' @ join ''.'' p) (children @ members)) (\<lambda>_.
     rbind (traverse ts_validate_node cs) (\<lambda>_. Inr ()))))"

definition ts_runtime_names :: "string list" where
  "ts_runtime_names =
     [''WebSocketCredentials'', ''WebSocketCredentialsProvider'', ''RpcClientCore'', ''RpcClientCall'',
      ''RpcClientCallOutcome'', ''RpcClientMiddleware'', ''RpcResponseValidationError'', ''RpcConnectionState'',
      ''RpcNotificationOverflowHandler'', ''RpcClientError'', ''RpcConnectError'', ''RpcConnectionLostError'',
      ''RpcRemoteError'', ''RpcRequestTimeoutError'', ''RpcRequestOptions'', ''RpcRouteInfo'', ''RpcTransport'',
      ''RpcTransportError'']"

definition ts_connect_options :: "string list" where
  "ts_connect_options =
     [''middleware'', ''credentials'', ''retryAttempts'', ''retryAttemptTimeoutMs'', ''heartbeatIntervalMs'',
      ''heartbeatTimeoutMs'', ''consecutiveTimeoutLimit'', ''eager'', ''notificationQueueSize'', ''requestTimeoutMs'',
      ''servers'', ''socketFactory'', ''reconnectMaxAttempts'', ''reconnectShouldRetry'', ''reconnectRandom'',
      ''onStateChange'', ''onOverflow'']"

definition ts_validate_transport :: "client_ir \<Rightarrow> ts_options \<Rightarrow> render_error + unit" where
  "ts_validate_transport ir o' =
     rbind (refused_if (to_transport o' \<notin> {None, Some ''websocket''}) BadTransport) (\<lambda>_.
     if \<not> ts_websocket o' then Inr ()
     else
       rbind (refused_if (ir_servers ir = []) NeedsServer) (\<lambda>_.
       rbind (case filter (\<lambda>s. case se_transport s of None \<Rightarrow> True | Some t \<Rightarrow> tr_type t \<noteq> ''websocket'') (ir_servers ir) of
                [] \<Rightarrow> Inr ()
              | invalid \<Rightarrow> rbind (traverse (\<lambda>s. text_of (se_name s)) invalid) (\<lambda>ns. Inl (Refused (NoWebSocketTransport ns)))) (\<lambda>_.
       case map rr_rpc_name (filter (\<lambda>r. rr_server r = None) (ir_operations ir))
            @ map ev_rpc_name (filter (\<lambda>e. ev_server e = None) (ir_notifications ir)) of
         [] \<Rightarrow> Inr ()
       | unassigned \<Rightarrow> refused_if (1 < length (ir_servers ir)) (RoutesNeedServer unassigned))))"

definition ts_validate_schemas :: "client_ir \<Rightarrow> render_error + unit" where
  "ts_validate_schemas ir =
     rbind (unique_lazily ''schemas'' (\<lambda>d. rbind (schema_name (decl_name d)) (\<lambda>n. Inr (decl_name d, n))) (ir_declarations ir)) (\<lambda>_.
     rbind (each_of (\<lambda>d. rbind (schema_name (decl_name d)) (\<lambda>n.
              refused_if (n \<in> set ts_runtime_names) (RuntimeCollision (decl_name d) n))) (ir_declarations ir)) (\<lambda>_.
     each_of (\<lambda>(n, fs). unique_lazily (''model '' @ n) (\<lambda>f. ts_named (fd_name f) (fd_name f)) fs) (ir_models ir)))"

definition ts_client_members :: "client_view \<Rightarrow> render_error + (string \<times> string) list" where
  "ts_client_members view =
     rbind (traverse (\<lambda>n. ts_named (last (ns_source n)) (ns_segment n)) (cv_nodes view)) (\<lambda>nodes.
     rbind (ts_member_pairs (cv_operations view) (cv_notifications view) (cv_streams view) (cv_sockets view)) (\<lambda>members.
     Inr (map (\<lambda>m. (''<client.'' @ m @ ''>'', m)) [''close'', ''closed'', ''state'', ''states'', ''droppedNotifications'']
          @ nodes @ members @ [(''<client.withTransports>'', ''withTransports'')])))"

definition ts_connect_pairs :: "client_ir \<Rightarrow> render_error + (string \<times> string) list" where
  "ts_connect_pairs ir =
     rbind (traverse (\<lambda>v. ts_named (va_name v) (va_name v)) (connect_variables ir)) (\<lambda>vs.
     Inr (map (\<lambda>m. (m, m)) ts_connect_options @ vs
          @ (if length (ir_servers ir) = 1 then [(''<connect.url>'', ''url'')] else [])
          @ (if ir_streams ir \<noteq> []
             then [(''<connect.streamSocketFactory>'', ''streamSocketFactory''), (''<connect.streamQueueSize>'', ''streamQueueSize'')]
             else [])
          @ (if ir_sockets ir \<noteq> []
             then [(''<connect.rawSocketFactory>'', ''rawSocketFactory''), (''<connect.rawSocketQueueSize>'', ''rawSocketQueueSize'')]
             else [])))"

definition ts_validate :: "client_ir \<Rightarrow> client_view \<Rightarrow> ts_options \<Rightarrow> string \<Rightarrow> render_error + unit" where
  "ts_validate ir view o' client =
     rbind (ts_validate_transport ir o') (\<lambda>_.
     rbind (refused_if (\<not> ts_valid client) (BadClassName ''client_name'' client)) (\<lambda>_.
     rbind (ts_validate_schemas ir) (\<lambda>_.
     rbind (ts_client_members view) (\<lambda>members.
     rbind (if \<not> ts_websocket o' then Inr () else rbind (ts_connect_pairs ir) (unique_pairs ''connect options'')) (\<lambda>_.
     rbind (unique_pairs ''root client''
              (members @ (if ts_websocket o' then [(''<client.connect>'', ''connect'')] else []))) (\<lambda>_.
     rbind (each_of ts_validate_node (cv_nodes view)) (\<lambda>_.
     rbind (each_of (\<lambda>n. rbind (ts_identifier (ns_segment n)) (\<lambda>i.
              unique_pairs (''TypeScript namespace module '' @ i)
                (map (\<lambda>x. (join ''.'' (ns_source x), api_class (ns_path x))) (walk_namespace n)))) (cv_nodes view)) (\<lambda>_.
     rbind (unique_lazily ''servers'' (\<lambda>s. ts_named_json (se_name s)) (ir_servers ir)) (\<lambda>_.
     rbind (unique_lazily ''binary streams'' (\<lambda>s. ts_named (sr_rpc_name s) (sr_rpc_name s)) (ir_streams ir)) (\<lambda>_.
     rbind (unique_lazily ''raw sockets'' (\<lambda>s. ts_named (so_rpc_name s) (so_rpc_name s)) (ir_sockets ir)) (\<lambda>_.
     each_of (\<lambda>s. rbind (text_of (se_name s)) (\<lambda>n.
       unique_lazily (''server '' @ n) (\<lambda>v. ts_named (va_name v) (va_name v)) (se_variables s))) (ir_servers ir))))))))))))"

section \<open>Imports\<close>

definition route_model_names :: "route_decl list \<Rightarrow> render_error + string list" where
  "route_model_names rs =
     rbind (traverse (\<lambda>r.
       rbind (case rr_params_model r of
                None \<Rightarrow> Inr []
              | Some m \<Rightarrow> if rr_params r = [] then Inr [] else rbind (schema_name m) (\<lambda>n. Inr [n])) (\<lambda>ps.
       rbind (model_names (rr_result r)) (\<lambda>ns. Inr (ps @ ns)))) rs) (\<lambda>nss. Inr (fromkeys (concat nss)))"

text \<open>The models of events: the names of payloads, and the models of parameters as they are.\<close>

definition payload_names :: "event_decl list \<Rightarrow> render_error + string list" where
  "payload_names es = rbind (traverse (\<lambda>e. model_names (ev_payload e)) es) (\<lambda>nss. Inr (fromkeys (concat nss)))"

definition params_names :: "event_decl list \<Rightarrow> string list" where
  "params_names es = concat (map (\<lambda>e. case ev_params_model e of None \<Rightarrow> [] | Some m \<Rightarrow> [m]) es)"

text \<open>An import is given by its kind, its names and its module; the lines are those of \<open>value_import\<close> and \<open>type_import\<close>.\<close>

datatype ts_import = ValueImport "string list" string | TypeImport "string list" string

definition import_text :: "ts_import \<Rightarrow> string" where
  "import_text i = (case i of ValueImport ns m \<Rightarrow> value_import ns m | TypeImport ns m \<Rightarrow> type_import ns m)"

definition route_imports :: "bool \<Rightarrow> bool \<Rightarrow> string \<Rightarrow> ts_import list" where
  "route_imports has_routes has_events m =
     (let ns = (if has_routes then [''routes''] else []) @ (if has_events then [''notifications''] else []) in
      if ns = [] then [] else [ValueImport ns m])"

definition type_imports :: "string list \<Rightarrow> string \<Rightarrow> ts_import list" where
  "type_imports names m = (if names = [] then [] else [TypeImport names m])"

definition api_imports :: "namespace_node \<Rightarrow> render_error + ts_import list" where
  "api_imports root_node =
     (let nodes = walk_namespace root_node;
          ops = concat (map ns_operations nodes); es = concat (map ns_notifications nodes);
          ss = concat (map ns_streams nodes); ws = concat (map ns_sockets nodes) in
      rbind (route_model_names ops) (\<lambda>routes.
      rbind (payload_names es) (\<lambda>payloads.
      Inr ([TypeImport ([''RpcClientCore''] @ (if ops \<noteq> [] then [''RpcRequestOptions''] else [])) ''../core'']
           @ (if ss \<noteq> [] then [ValueImport (stream_classes ss @ [''binaryStreams'', ''resolveStreamEndpoint'']) ''../streams''] else [])
           @ (if ws \<noteq> [] then [ValueImport [''RawSocket'', ''rawSockets'', ''resolveRawSocketEndpoint''] ''../rawSockets''] else [])
           @ route_imports (ops \<noteq> []) (es \<noteq> []) ''../routes''
           @ type_imports (routes @ payloads @ params_names es) ''../models''))))"

definition client_imports :: "client_ir \<Rightarrow> ts_options \<Rightarrow> client_view \<Rightarrow> render_error + ts_import list" where
  "client_imports ir o' view =
     (let ws = ts_websocket o' in
      rbind (route_model_names (cv_operations view)) (\<lambda>routes.
      rbind (payload_names (cv_notifications view)) (\<lambda>payloads.
      Inr ([ValueImport ([''RpcClientCore''] @ (if ws then [''RpcTransportPool''] else [])
              @ [''type RpcClientMiddleware'', ''type RpcConnectionState'', ''type RpcNotificationOverflowHandler'',
                 ''type RpcTransport'', ''type RpcTransportSource'']
              @ (if cv_operations view \<noteq> [] then [''type RpcRequestOptions''] else [])) ''./core'']
           @ (if ir_streams ir \<noteq> [] then
                [ValueImport ((if ws then [''BinaryWebSocketStream''] else [])
                   @ (if cv_streams view \<noteq> []
                      then stream_classes (cv_streams view) @ [''binaryStreams'', ''resolveStreamEndpoint''] else [])
                   @ [''type BinaryStreamOpener'']
                   @ (if ws then [''type BinaryWebSocketFactory''] else [])) ''./streams''] else [])
           @ (if ir_sockets ir \<noteq> [] then
                [ValueImport ((if ws then [''RawWebSocketStream''] else [])
                   @ (if cv_sockets view \<noteq> [] then [''RawSocket'', ''rawSockets'', ''resolveRawSocketEndpoint''] else [])
                   @ [''type RawSocketOpener'']
                   @ (if ws then [''type RawWebSocketFactory''] else [])) ''./rawSockets''] else [])
           @ route_imports (cv_operations view \<noteq> []) (cv_notifications view \<noteq> []) ''./routes''
           @ type_imports (routes @ payloads @ params_names (cv_notifications view)) ''./models''
           @ (if ir_servers ir \<noteq> [] then
                [ValueImport ((if ws then [''resolveEndpoints'', ''type EndpointOverrides''] else []) @ [''type ServerName''])
                   ''./endpoints''] else [])
           @ (if ws then
                [ValueImport ([''WebSocketTransport'', ''type WebSocketFactory'', ''type WebSocketCredentialsProvider'']
                   @ (if ir_streams ir \<noteq> [] \<or> ir_sockets ir \<noteq> [] then [''resolveWebSocketCredentials''] else []))
                   ''./transport''] else [])
           @ (if cv_nodes view \<noteq> [] then [ValueImport (map (\<lambda>n. api_class (ns_path n)) (cv_nodes view)) ''./namespaces'']
              else [])))))"

section \<open>Files\<close>

datatype ts_file =
    TsCore | TsClientFile | TsIndex | TsModels | TsRoutes | TsErrors | TsEndpoints | TsStreams | TsRawSockets | TsTransport
  | TsNamespaces | TsApi namespace_node

definition ts_own_files :: "client_ir \<Rightarrow> ts_options \<Rightarrow> namespace_node list \<Rightarrow> (string, ts_file) dict" where
  "ts_own_files ir o' nodes =
     [(''core.ts'', TsCore), (''client.ts'', TsClientFile), (''index.ts'', TsIndex)]
     @ (if ir_declarations ir \<noteq> [] then [(''models.ts'', TsModels)] else [])
     @ (if ir_operations ir \<noteq> [] \<or> ir_notifications ir \<noteq> [] then [(''routes.ts'', TsRoutes)] else [])
     @ [(''errors.ts'', TsErrors)]
     @ (if ir_servers ir \<noteq> [] then [(''endpoints.ts'', TsEndpoints)] else [])
     @ (if ir_streams ir \<noteq> [] then [(''streams.ts'', TsStreams)] else [])
     @ (if ir_sockets ir \<noteq> [] then [(''rawSockets.ts'', TsRawSockets)] else [])
     @ (if ts_websocket o' then [(''transport.ts'', TsTransport)] else [])
     @ (if nodes \<noteq> [] then [(''namespaces/index.ts'', TsNamespaces)] else [])"

definition ts_module_path :: "string \<Rightarrow> string" where
  "ts_module_path i = ''namespaces/'' @ i @ ''.ts''"

definition ts_api_file :: "namespace_node \<Rightarrow> (string, ts_file) dict \<Rightarrow> render_error + (string, ts_file) dict" where
  "ts_api_file n files =
     rbind (ts_identifier (hd (ns_path n))) (\<lambda>i. Inr (dict_set (ts_module_path i) (TsApi n) files))"

text \<open>\<open>render_files\<close>, up to what the templates make of each file.\<close>

definition ts_render_files :: "client_ir \<Rightarrow> ts_options \<Rightarrow> render_error + (string, ts_file) dict" where
  "ts_render_files ir o' =
     rbind (model_error (view_client ir (to_api_root o') (to_api_names o'))) (\<lambda>view.
     rbind (ts_client_name ir o') (\<lambda>client.
     rbind (ts_validate ir view o' client) (\<lambda>_.
     fold_res ts_api_file (cv_nodes view) (ts_own_files ir o' (cv_nodes view)))))"

end
