(* ===== verification/PyProps.thy ===== *)
theory PyProps
  imports PyNames
begin

text \<open>
  The names and literals of the Python renderer: identifiers are identifiers, and literals are read back.
\<close>

section \<open>Identifiers\<close>

definition ident_char :: "char \<Rightarrow> bool" where
  "ident_char c = (word_char c \<or> c = CHR ''_'')"

lemma is_identifier_iff: "is_identifier s \<longleftrightarrow> s \<noteq> [] \<and> \<not> is_digit (hd s) \<and> list_all ident_char s"
  by (cases s) (auto simp: is_identifier_def ident_char_def list_all_iff)

lemma ident_char_underscore [simp]: "ident_char CHR ''_''" "\<not> is_digit CHR ''_''" "\<not> is_upper CHR ''_''"
  by (simp_all add: ident_char_def char_classes)

lemma word_char_to_upper: "word_char c \<Longrightarrow> word_char (to_upper c)"
  by (auto simp: word_char_def to_upper_def char_classes)

lemma list_all_join: "list_all P sep \<Longrightarrow> list_all (list_all P) ws \<Longrightarrow> list_all P (join sep ws)"
  using join_chars [of sep ws] by (fastforce simp: list_all_iff)

lemma snake_case_chars: "list_all (\<lambda>c. ident_char c \<and> \<not> is_upper c) (snake_case s)"
proof -
  have "list_all (\<lambda>c. ident_char c \<and> \<not> is_upper c) (map to_lower w)" if "w \<in> set (words s)" for w
    using words_chars [OF that] by (auto simp: list_all_iff ident_char_def word_char_to_lower to_lower_not_upper)
  then show ?thesis unfolding snake_case_def by (intro list_all_join) (auto simp: list_all_iff)
qed

lemma pascal_name_chars: "list_all word_char (pascal_name s)"
proof -
  have "list_all word_char (capitalize w)" if "w \<in> set (words s)" for w
    using words_chars [OF that] by (cases w) (auto simp: list_all_iff word_char_to_lower word_char_to_upper)
  then show ?thesis by (auto simp: pascal_name_def list_all_iff)
qed

lemma keyword_facts:
  "k \<in> set py_keywords \<Longrightarrow> hd k \<noteq> CHR ''_'' \<and> k @ ''_'' \<notin> set py_keywords \<and> k \<noteq> [] \<and> \<not> is_digit (hd k)"
  by (auto simp: py_keywords_def char_classes)

lemma py_name_valid:
  assumes n: "n \<noteq> []" and c: "list_all (\<lambda>c. ident_char c \<and> \<not> is_upper c) n"
  shows "is_identifier (py_name n) \<and> py_name n \<notin> set py_keywords \<and> list_all (\<lambda>c. \<not> is_upper c) (py_name n)"
proof (cases "is_digit (hd n)")
  case True
  then show ?thesis using c keyword_facts [of "CHR ''_'' # n"]
    by (auto simp: py_name_def is_identifier_iff list_all_iff Let_def)
next
  case False
  then show ?thesis using n c keyword_facts [of n]
    by (auto simp: py_name_def is_identifier_iff list_all_iff Let_def)
qed

lemma py_identifier_snake: "py_identifier s = Inr i \<Longrightarrow> snake_case s \<noteq> [] \<and> i = py_name (snake_case s)"
  by (auto simp: py_identifier_def split: list.splits)

lemma py_identifier_valid:
  "py_identifier s = Inr i \<Longrightarrow>
   is_identifier i \<and> i \<notin> set py_keywords \<and> list_all (\<lambda>c. \<not> is_upper c) i"
  using py_identifier_snake [of s i] py_name_valid [OF _ snake_case_chars] by blast

lemma schema_name_pascal:
  "schema_name s = Inr n \<Longrightarrow> pascal_name s \<noteq> [] \<and> n = (if is_digit (hd (pascal_name s)) then [CHR ''_''] else []) @ pascal_name s"
  by (cases "pascal_name s") (auto simp: schema_name_def)

lemma schema_name_valid: "schema_name s = Inr n \<Longrightarrow> is_identifier n"
  using schema_name_pascal [of s n] pascal_name_chars [of s]
  by (auto simp: is_identifier_iff ident_char_def list_all_iff)

lemma to_upper_not_lower: "\<not> is_lower (to_upper c)"
  by (auto simp: to_upper_def char_classes)

lemma pascal_name_head: "\<not> is_lower (hd (pascal_name s))" if "pascal_name s \<noteq> []"
proof (cases "words s")
  case (Cons w ws)
  moreover have "w \<noteq> []" using words_chars [of w s] Cons by simp
  ultimately show ?thesis by (cases w) (simp_all add: pascal_name_def to_upper_not_lower)
qed (use that in \<open>simp add: pascal_name_def\<close>)

lemma keyword_capital: "k \<in> set py_keywords \<Longrightarrow> is_lower (hd k) \<or> k \<in> {''None'', ''True'', ''False''}"
proof -
  have "list_all (\<lambda>k. is_lower (hd k) \<or> k = ''None'' \<or> k = ''True'' \<or> k = ''False'') py_keywords" by code_simp
  then show "k \<in> set py_keywords \<Longrightarrow> is_lower (hd k) \<or> k \<in> {''None'', ''True'', ''False''}"
    by (auto simp: list_all_iff)
qed

lemma keyword_small: "k \<in> set py_keywords \<Longrightarrow> list_ex is_lower k"
proof -
  have "list_all (list_ex is_lower) py_keywords" by code_simp
  then show "k \<in> set py_keywords \<Longrightarrow> list_ex is_lower k" by (simp add: list_all_iff)
qed

lemma schema_name_keyword:
  "schema_name s = Inr n \<Longrightarrow> n \<in> set py_keywords \<Longrightarrow> n \<in> {''None'', ''True'', ''False''}"
  using schema_name_pascal [of s n] pascal_name_head [of s] keyword_capital [of n] keyword_facts [of n]
  by (auto split: if_splits)

lemma ident_char_to_upper: "ident_char c \<Longrightarrow> ident_char (to_upper c)"
proof (cases "c = CHR ''_''")
  case True
  have "to_upper CHR ''_'' = CHR ''_''" by code_simp
  then show ?thesis using True by simp
qed (simp add: ident_char_def word_char_to_upper)

lemma to_upper_digit: "\<not> is_digit c \<Longrightarrow> \<not> is_digit (to_upper c)"
  by (auto simp: to_upper_def char_classes)

lemma py_constant_valid: "py_constant s = Inr c \<Longrightarrow> is_identifier c \<and> c \<notin> set py_keywords"
proof -
  assume "py_constant s = Inr c"
  then obtain i where i: "py_identifier s = Inr i" "c = map to_upper i"
    by (auto simp: py_constant_def rbind_eq_Inr)
  have "is_identifier c" using py_identifier_valid [OF i(1)] i(2)
    by (auto simp: is_identifier_iff list_all_iff ident_char_to_upper to_upper_digit hd_map)
  moreover have "\<not> list_ex is_lower c" using i(2) by (auto simp: list_ex_iff to_upper_not_lower)
  ultimately show ?thesis using keyword_small [of c] by blast
qed

text \<open>C35. Every name that the renderer makes of a name of the document is a Python name of its kind: the identifiers of
  fields, parameters, methods and modules are identifiers, no keywords and have no capital letters, the constants are
  identifiers and no keywords; the names of classes are identifiers and can only be the keywords \<open>None\<close>, \<open>True\<close> and
  \<open>False\<close>. A name is refused exactly when it has no letter and no digit.\<close>

theorem rendered_names_valid:
  "(case py_identifier s of
      Inr i \<Rightarrow> is_identifier i \<and> i \<notin> set py_keywords \<and> list_all (\<lambda>c. \<not> is_upper c) i
    | Inl e \<Rightarrow> e = Refused (NoIdentifier s) \<and> words s = [])
   \<and> (case py_constant s of
        Inr c \<Rightarrow> is_identifier c \<and> c \<notin> set py_keywords
      | Inl e \<Rightarrow> e = Refused (NoIdentifier s) \<and> words s = [])
   \<and> (case schema_name s of
        Inr n \<Rightarrow> is_identifier n \<and> (n \<notin> set py_keywords \<or> n = ''None'' \<or> n = ''True'' \<or> n = ''False'')
      | Inl e \<Rightarrow> e = Refused (NoClassName s) \<and> words s = [])"
proof -
  have s: "words s = []" if "snake_case s = []"
    using that words_chars [of _ s] by (cases "words s"; cases "tl (words s)") (auto simp: snake_case_def join_cons)
  have p: "words s = []" if "pascal_name s = []"
  proof (rule ccontr)
    assume "words s \<noteq> []"
    then obtain w ws where "words s = w # ws" by (cases "words s") auto
    then show False using that words_chars [of w s] by (cases w) (auto simp: pascal_name_def)
  qed
  show ?thesis
    using py_identifier_valid [of s] py_constant_valid [of s] schema_name_valid [of s] schema_name_keyword [of s] s p
    by (auto simp: py_constant_def py_identifier_def schema_name_def split: sum.splits list.splits)
qed

lemma rendered_names_valid_witness:
  "py_identifier ''class'' = Inr ''class_'' \<and> is_identifier ''class_'' \<and> ''class_'' \<notin> set py_keywords"
proof -
  have "py_identifier ''class'' = Inr ''class_''" by code_simp
  then show ?thesis using rendered_names_valid [of "''class''"] by simp
qed

theorem keyword_class: "schema_name ''none'' = Inr ''None'' \<and> ''None'' \<in> set py_keywords"
  by code_simp

section \<open>Literals\<close>

text \<open>A string literal of Python, in double quotes and without a prefix, is read up to its closing quote.\<close>

fun hex_value :: "char \<Rightarrow> nat" where
  "hex_value c = (if is_digit c then byte_of c - 48 else byte_of c - 87)"

definition simple_escape :: "char \<Rightarrow> char option" where
  "simple_escape c =
     (if c = CHR 0x22 \<or> c = CHR 0x5C then Some c
      else if c = CHR ''n'' then Some (char_of (10 :: nat))
      else if c = CHR ''r'' then Some (char_of (13 :: nat))
      else if c = CHR ''t'' then Some (char_of (9 :: nat))
      else if c = CHR ''f'' then Some (char_of (12 :: nat))
      else if c = CHR ''b'' then Some (char_of (8 :: nat))
      else None)"

fun read_body :: "string \<Rightarrow> (string \<times> string) option" where
  "read_body [] = None"
| "read_body (c # cs) =
     (if c = CHR 0x22 then Some ([], cs)
      else if byte_of c = 10 \<or> byte_of c = 13 then None
      else if c = CHR 0x5C then
        (case cs of
           [] \<Rightarrow> None
         | e # r \<Rightarrow>
             if e = CHR ''u'' then
               (case r of
                  z # z' # a # b # r' \<Rightarrow>
                    if z = CHR ''0'' \<and> z' = CHR ''0'' then
                      map_option (\<lambda>(v, rest). (char_of (16 * hex_value a + hex_value b) # v, rest)) (read_body r')
                    else None
                | _ \<Rightarrow> None)
             else
               (case simple_escape e of
                  None \<Rightarrow> None
                | Some x \<Rightarrow> map_option (\<lambda>(v, rest). (x # v, rest)) (read_body r)))
      else map_option (\<lambda>(v, rest). (c # v, rest)) (read_body cs))"

definition read_string :: "string \<Rightarrow> (string \<times> string) option" where
  "read_string s = (case s of [] \<Rightarrow> None | c # cs \<Rightarrow> if c = CHR 0x22 then read_body cs else None)"

declare read_body.simps(2) [simp del] hex_value.simps [simp del]

lemma hex_letter_back: "k < 16 \<Longrightarrow> hex_value (hex_letter k) = k"
proof -
  have "list_all (\<lambda>k. hex_value (hex_letter k) = k) [0..<16]" by code_simp
  then show "k < 16 \<Longrightarrow> hex_value (hex_letter k) = k" by (simp add: list_all_iff)
qed

lemma byte_of_char: "char_of (byte_of c) = c" "byte_of c < 256"
  by (simp_all add: byte_of_def)

lemma byte_char: "byte_of c = n \<Longrightarrow> c = char_of n"
  using byte_of_char(1) [of c] by simp

lemma read_body_escaped:
  "read_body (escape_char c @ t) = map_option (\<lambda>(v, rest). (c # v, rest)) (read_body t)"
proof -
  consider "c = CHR 0x22" | "c = CHR 0x5C" | "byte_of c \<in> {8, 9, 10, 12, 13}"
    | "byte_of c < 32" "byte_of c \<notin> {8, 9, 10, 12, 13}" "c \<noteq> CHR 0x22" "c \<noteq> CHR 0x5C"
    | "\<not> byte_of c < 32" "c \<noteq> CHR 0x22" "c \<noteq> CHR 0x5C"
    by blast
  then show ?thesis
  proof cases
    case 3
    then consider "c = char_of (8 :: nat)" | "c = char_of (9 :: nat)" | "c = char_of (10 :: nat)" | "c = char_of (12 :: nat)"
      | "c = char_of (13 :: nat)"
      using byte_char [of c] by blast
    then show ?thesis
      by cases (simp_all add: escape_char_def read_body.simps simple_escape_def byte_of_def)
  next
    case 4
    have "16 * (byte_of c div 16) + byte_of c mod 16 = byte_of c" by simp
    with 4 have h: "char_of (16 * hex_value (hex_letter (byte_of c div 16)) + hex_value (hex_letter (byte_of c mod 16))) = c"
      using byte_of_char by (simp add: hex_letter_back)
    have "escape_char c = [CHR 0x5C] @ ''u00'' @ [hex_letter (byte_of c div 16), hex_letter (byte_of c mod 16)]"
      using 4 by (simp add: escape_char_def Let_def)
    moreover have "read_body (([CHR 0x5C] @ ''u00'' @ [a, b]) @ t)
        = map_option (\<lambda>(v, rest). (char_of (16 * hex_value a + hex_value b) # v, rest)) (read_body t)" for a b
      by (simp add: read_body.simps byte_of_def)
    ultimately show ?thesis by (simp only: h)
  next
    case 5
    then have "escape_char c = [c]" by (simp add: escape_char_def Let_def)
    moreover have "byte_of c \<noteq> 10 \<and> byte_of c \<noteq> 13" using 5 by auto
    ultimately show ?thesis using 5 by (simp add: read_body.simps)
  qed (simp_all add: escape_char_def read_body.simps simple_escape_def byte_of_def)
qed

lemma escape_char_printable: "c' \<in> set (escape_char c) \<Longrightarrow> 32 \<le> byte_of c'"
proof -
  have h: "32 \<le> byte_of (hex_letter k)" if "k < 16" for k using that by (auto simp: hex_letter_def byte_of_def)
  assume "c' \<in> set (escape_char c)"
  then show ?thesis using h
    by (auto simp: escape_char_def Let_def list_all_iff byte_of_def split: if_splits)
qed

lemma read_body_concat: "read_body (concat (map escape_char s) @ CHR 0x22 # rest) = Some (s, rest)"
  by (induction s) (simp_all add: read_body_escaped read_body.simps)

text \<open>C36. A string of the document is written as a literal of one line that Python reads back as that string, whatever
  characters it has and whatever follows it: no value of a document can end its literal early.\<close>

theorem string_literal_roundtrip:
  "read_string (py_literal (JStr s) @ rest) = Some (s, rest) \<and> list_all (\<lambda>c. 32 \<le> byte_of c) (py_literal (JStr s))"
proof
  show "read_string (py_literal (JStr s) @ rest) = Some (s, rest)"
    by (simp add: read_string_def quote_string_def read_body_concat)
  show "list_all (\<lambda>c. 32 \<le> byte_of c) (py_literal (JStr s))"
    using escape_char_printable by (auto simp: quote_string_def list_all_iff byte_of_def)
qed

end
