(* ===== verification/PyPackage.thy ===== *)
theory PyPackage
  imports PyProps PyClient ViewProps
begin

text \<open>
  The package of the Python renderer: its files do not replace each other, what its \<open>__init__\<close> exports is imported from
  modules that are there, and no export hides another.
\<close>

section \<open>The imports of a package\<close>

text \<open>The names that imports bind, and whether an import from a relative module finds a file. A name of the package
  itself, imported from \<open>.\<close>, has to be a module.\<close>

definition imported_names :: "py_imports \<Rightarrow> string list" where
  "imported_names im = concat (map snd (im_modules im))"

definition finds_file :: "string list \<Rightarrow> string \<Rightarrow> string list \<Rightarrow> bool" where
  "finds_file files m names =
     (if m = ''.'' then list_all (\<lambda>n. n @ ''.py'' \<in> set files) names
      else \<exists>p \<in> {tl m}. m = CHR ''.'' # p \<and> (p @ ''.py'' \<in> set files \<or> p @ ''/__init__.py'' \<in> set files))"

definition imports_found :: "string list \<Rightarrow> py_imports \<Rightarrow> bool" where
  "imports_found files im = list_all (\<lambda>(m, ns). finds_file files m ns) (im_modules im)"

text \<open>What holds of the state of \<open>_render_package_init\<close> all along.\<close>

definition init_ok :: "string \<Rightarrow> string list \<Rightarrow> init_state \<Rightarrow> bool" where
  "init_ok package files st =
     (set (fst st) = set (imported_names (snd st)) \<and> im_package (snd st) = Some package
      \<and> imports_found files (snd st))"

lemma resolve_own [simp]:
  "resolve_module (Some p) p = ''.''" "resolve_module (Some p) (p @ CHR ''.'' # m) = CHR ''.'' # m"
  by (simp_all add: resolve_module_def starts_with_iff)

lemma dict_set_names:
  "set (concat (map snd (dict_set k (fromkeys ((case map_of d k of None \<Rightarrow> [] | Some ns \<Rightarrow> ns) @ names)) d)))
   = set (concat (map snd d)) \<union> set names"
  by (induction d) auto

lemma imported_add: "set (imported_names (add_import m names im)) = set (imported_names im) \<union> set names"
  by (auto simp: imported_names_def add_import_def Let_def dict_set_names simp del: set_concat)

lemma finds_file_more:
  "finds_file files m (known @ names) \<longleftrightarrow>
   finds_file files m known \<and> finds_file files m names"
  by (auto simp: finds_file_def list_all_iff)

lemma finds_file_keys: "finds_file files m (fromkeys names) \<longleftrightarrow> finds_file files m names"
  by (auto simp: finds_file_def list_all_iff)

lemma finds_file_nil: "finds_file files m names \<Longrightarrow> finds_file files m []"
  by (auto simp: finds_file_def split: if_splits)

lemma found_set:
  "list_all (\<lambda>(m, ns). finds_file files m ns) d \<Longrightarrow> finds_file files k names \<Longrightarrow>
   list_all (\<lambda>(m, ns). finds_file files m ns)
     (dict_set k (fromkeys ((case map_of d k of None \<Rightarrow> [] | Some ns \<Rightarrow> ns) @ names)) d)"
  by (induction d) (auto simp: finds_file_more finds_file_keys finds_file_nil simp del: fromkeys.simps)

lemma found_add:
  "imports_found files im \<Longrightarrow> names = [] \<or> finds_file files (resolve_module (im_package im) m) names \<Longrightarrow>
   imports_found files (add_import m names im)"
  using found_set [of files "im_modules im"] by (auto simp: imports_found_def add_import_def Let_def)

lemma package_add [simp]: "im_package (add_import m names im) = im_package im"
  by (simp add: add_import_def Let_def)

lemma init_with_ok:
  assumes "init_ok package files st" and n: "set names = set (concat (map snd imported))"
    and f: "list_all (\<lambda>(m, ns). ns = [] \<or> finds_file files (resolve_module (Some package) m) ns) imported"
  shows "init_ok package files (init_with imported names st)"
proof -
  have *: "set (imported_names (fold (\<lambda>(m, ns). add_import m ns) imported im))
           = set (imported_names im) \<union> set (concat (map snd imported))
         \<and> im_package (fold (\<lambda>(m, ns). add_import m ns) imported im) = im_package im
         \<and> (imports_found files im \<longrightarrow> imports_found files (fold (\<lambda>(m, ns). add_import m ns) imported im))"
    if "im_package im = Some package" for im
    using f that by (induction imported arbitrary: im) (auto simp: imported_add found_add simp del: set_concat)
  show ?thesis using assms(1) * [of "snd st"] n by (auto simp: init_ok_def init_with_def)
qed

definition has_own :: "client_ir \<Rightarrow> py_options \<Rightarrow> namespace_node list \<Rightarrow> string list \<Rightarrow> bool" where
  "has_own ir o' nodes files = (set (dict_keys (own_files ir o' nodes ([], no_imports None))) \<subseteq> set files)"

lemma own_keys: "dict_keys (own_files ir o' nodes st) = dict_keys (own_files ir o' nodes st')"
  by (simp add: own_files_def)

lemma has_own_files:
  assumes "has_own ir o' nodes files"
  shows "''__init__.py'' \<in> set files" "''internal/__init__.py'' \<in> set files" "''client.py'' \<in> set files"
    "''errors.py'' \<in> set files"
    "ir_declarations ir \<noteq> [] \<Longrightarrow> ''models.py'' \<in> set files"
    "ir_servers ir \<noteq> [] \<Longrightarrow> ''endpoints.py'' \<in> set files"
    "ir_streams ir \<noteq> [] \<Longrightarrow> ''streams.py'' \<in> set files"
    "ir_sockets ir \<noteq> [] \<Longrightarrow> ''raw_sockets.py'' \<in> set files"
    "ir_client_methods ir \<noteq> [] \<Longrightarrow> ''handlers.py'' \<in> set files"
    "with_websocket o' \<Longrightarrow> ''transport.py'' \<in> set files"
    "nodes \<noteq> [] \<Longrightarrow> ''namespaces/__init__.py'' \<in> set files"
  using assms by (auto simp: has_own_def own_files_def runtime_files_def)

lemma init_base_ok: "has_own ir o' nodes files \<Longrightarrow> init_ok package files (init_base package client)"
  unfolding init_base_def
  by (rule init_with_ok)
    (auto simp: init_ok_def no_imports_def imported_names_def imports_found_def finds_file_def has_own_files)

lemma init_names_ok:
  assumes "has_own ir o' nodes files" "declarations \<noteq> [] \<Longrightarrow> ir_declarations ir \<noteq> []"
    "namespaces \<noteq> [] \<Longrightarrow> nodes \<noteq> []" "init_ok package files st"
  shows "init_ok package files (init_names package errors declarations namespaces st)"
  unfolding init_names_def Let_def using assms
  by (auto intro!: init_with_ok simp: finds_file_def has_own_files)

lemma init_servers_ok:
  "has_own ir o' nodes files \<Longrightarrow> init_ok package files st \<Longrightarrow> init_ok package files (init_servers package ir o' st)"
  unfolding init_servers_def Let_def
  by (auto intro!: init_with_ok simp: finds_file_def has_own_files)

lemma init_handlers_ok:
  "has_own ir o' nodes files \<Longrightarrow> init_ok package files st \<Longrightarrow> init_ok package files (init_handlers package ir st)"
  unfolding init_handlers_def Let_def
  by (auto intro!: init_with_ok simp: finds_file_def has_own_files)

lemma init_streams_ok:
  "has_own ir o' nodes files \<Longrightarrow> init_ok package files st \<Longrightarrow> init_ok package files (init_streams package ir o' st)"
  unfolding init_streams_def Let_def
  by (auto intro!: init_with_ok simp: finds_file_def has_own_files)

lemma init_sockets_ok:
  "has_own ir o' nodes files \<Longrightarrow> init_ok package files st \<Longrightarrow> init_ok package files (init_sockets package ir o' st)"
  unfolding init_sockets_def Let_def
  by (auto intro!: init_with_ok simp: finds_file_def has_own_files)

lemma extra_export_ok:
  assumes e: "extra_export package o' nm st = Inr st'" and files: "set (dict_keys (po_extra_files o')) \<subseteq> set files"
    and named: "''.py'' \<notin> set (dict_keys (po_extra_files o'))" and ok: "init_ok package files st"
  shows "init_ok package files st'"
proof -
  obtain n m where nm: "nm = (n, m)" by (cases nm)
  have m: "m @ ''.py'' \<in> set (dict_keys (po_extra_files o'))" and st': "st' = init_with [(package @ ''.'' @ m, [n])] [n] st"
    using e by (auto simp: nm extra_export_def split: if_splits)
  have "m \<noteq> []" using m named by (metis append_Nil)
  moreover have "m @ ''.py'' \<in> set files" using subsetD [OF files m] .
  ultimately show ?thesis using ok unfolding st' by (intro init_with_ok) (simp_all add: finds_file_def)
qed

lemma package_init_ok:
  assumes r: "package_init ir o' client nodes = Inr st" and own: "has_own ir o' nodes files"
    and extra: "set (dict_keys (po_extra_files o')) \<subseteq> set files" "''.py'' \<notin> set (dict_keys (po_extra_files o'))"
  shows "init_ok (po_package o') files st"
proof -
  obtain errors declarations where d: "traverse (\<lambda>d. schema_name (decl_name d)) (ir_declarations ir) = Inr declarations"
    and st: "fold_res (extra_export (po_package o') o') (po_extra_exports o')
       (init_sockets (po_package o') ir o' (init_streams (po_package o') ir o' (init_handlers (po_package o') ir
         (init_servers (po_package o') ir o' (init_names (po_package o') errors declarations
           (map (\<lambda>n. api_class (ns_path n)) nodes) (init_base (po_package o') client)))))) = Inr st"
    using r by (auto simp: package_init_def rbind_eq_Inr Let_def)
  have dn: "declarations \<noteq> [] \<Longrightarrow> ir_declarations ir \<noteq> []" using traverse_Inr_length [OF d] by auto
  have "init_ok (po_package o') files
     (init_names (po_package o') errors declarations (map (\<lambda>n. api_class (ns_path n)) nodes)
       (init_base (po_package o') client))"
    by (intro init_names_ok [OF own _ _ init_base_ok [OF own]] dn) simp_all
  then show ?thesis
    by (intro fold_res_invariant [OF st, of "init_ok (po_package o') files"] init_sockets_ok [OF own]
        init_streams_ok [OF own] init_handlers_ok [OF own] init_servers_ok [OF own])
      (auto intro: extra_export_ok [OF _ extra])
qed

section \<open>The files of a package\<close>

lemma snake_case_head: "snake_case s \<noteq> [] \<Longrightarrow> hd (snake_case s) \<noteq> CHR ''_''"
proof -
  assume s: "snake_case s \<noteq> []"
  then obtain w ws where w: "words s = w # ws" by (cases "words s") (auto simp: snake_case_def)
  then obtain c cs where c: "w = c # cs" "word_char c" using words_chars [of w s] by (cases w) auto
  have "hd (snake_case s) = to_lower c" using w c by (cases ws) (simp_all add: snake_case_def join_cons)
  moreover have "\<not> word_char CHR ''_''" by code_simp
  ultimately show ?thesis using word_char_to_lower [OF c(2)] by metis
qed

lemma py_identifier_init: "py_identifier s = Inr i \<Longrightarrow> i \<noteq> ''__init__''"
  using py_identifier_snake [of s i] snake_case_head [of s]
  by (cases "snake_case s") (auto simp: py_name_def Let_def split: if_splits)

lemma module_path_init: "module_path i = ''namespaces/__init__.py'' \<Longrightarrow> i = ''__init__''"
proof -
  have "''namespaces/__init__.py'' = ''namespaces/'' @ ''__init__'' @ ''.py''" by simp
  then show "module_path i = ''namespaces/__init__.py'' \<Longrightarrow> i = ''__init__''"
    unfolding module_path_def by (metis append_same_eq same_append_eq)
qed

definition guarded :: "(bool \<times> string list) list \<Rightarrow> string list" where
  "guarded gs = concat (map (\<lambda>(b, ks). if b then ks else []) gs)"

definition own_guarded :: "client_ir \<Rightarrow> py_options \<Rightarrow> namespace_node list \<Rightarrow> (bool \<times> string list) list" where
  "own_guarded ir o' nodes =
   [(True, [''__init__.py'', ''internal/__init__.py'', ''internal/core.py'', ''internal/errors.py'', ''internal/metadata.py'',
            ''internal/transport.py'', ''internal/unset.py'']),
    (with_websocket o', [''internal/connection.py'']), (ir_client_methods ir \<noteq> [], [''internal/client_methods.py'']),
    (True, [''client.py'']), (ir_declarations ir \<noteq> [], [''models.py'']),
    (ir_operations ir \<noteq> [] \<or> ir_notifications ir \<noteq> [], [''routes.py'']), (True, [''errors.py'']),
    (ir_servers ir \<noteq> [], [''endpoints.py'']), (ir_streams ir \<noteq> [], [''streams.py'']),
    (ir_sockets ir \<noteq> [], [''raw_sockets.py'']), (ir_client_methods ir \<noteq> [], [''handlers.py'']),
    (with_websocket o', [''transport.py'']), (nodes \<noteq> [], [''namespaces/__init__.py''])]"

lemma guarded_subset: "k \<in> set (guarded gs) \<Longrightarrow> k \<in> set (concat (map snd gs))"
  by (induction gs) (auto simp: guarded_def split: if_splits)

lemma distinct_guarded: "distinct (concat (map snd gs)) \<Longrightarrow> distinct (guarded gs)"
  by (induction gs) (use guarded_subset in \<open>fastforce simp: guarded_def\<close>)+

lemma own_guarded: "dict_keys (own_files ir o' nodes st) = guarded (own_guarded ir o' nodes)"
  by (simp add: own_files_def runtime_files_def own_guarded_def guarded_def)

lemma own_distinct: "distinct (dict_keys (own_files ir o' nodes st))"
  unfolding own_guarded by (rule distinct_guarded) (simp add: own_guarded_def)

lemma own_namespaces:
  assumes "k \<in> set (dict_keys (own_files ir o' nodes st))" "starts_with ''namespaces/'' k"
  shows "k = ''namespaces/__init__.py''"
proof -
  have "list_all (\<lambda>k. starts_with ''namespaces/'' k \<longrightarrow> k = ''namespaces/__init__.py'') (concat (map snd (own_guarded ir o' nodes)))"
    by (simp add: own_guarded_def starts_with_def)
  moreover have "k \<in> set (concat (map snd (own_guarded ir o' nodes)))"
    using assms(1) unfolding own_guarded by (rule guarded_subset)
  ultimately show ?thesis using assms(2) unfolding list_all_iff by blast
qed

lemma own_not_api:
  "k \<in> set (dict_keys (own_files ir o' nodes st)) \<Longrightarrow> py_identifier s = Inr i \<Longrightarrow> k \<noteq> module_path i"
proof
  assume k: "k \<in> set (dict_keys (own_files ir o' nodes st))" "py_identifier s = Inr i" "k = module_path i"
  have "starts_with ''namespaces/'' k" unfolding k(3) module_path_def starts_with_iff by blast
  then show False using own_namespaces [OF k(1)] module_path_init [of i] py_identifier_init [OF k(2)] k(3) by simp
qed

lemma dict_set_key_set: "set (dict_keys (dict_set k v d)) = insert k (set (dict_keys d))"
  by (subst dict_set_keys) auto

lemma api_files_kept:
  assumes "fold_res api_file ns d = Inr d'" "distinct (dict_keys d)"
    "\<And>n i. py_identifier (hd (ns_path n)) = Inr i \<Longrightarrow> k \<noteq> module_path i"
  shows "distinct (dict_keys d') \<and> map_of d' k = map_of d k"
  by (rule fold_res_invariant [OF assms(1), of "\<lambda>e. distinct (dict_keys e) \<and> map_of e k = map_of d k"])
    (use assms(2, 3) in \<open>auto simp: api_file_def rbind_eq_Inr distinct_dict_set dict_set_get\<close>)

lemma api_files_there:
  "fold_res api_file ns d = Inr d' \<Longrightarrow>
   set (dict_keys d) \<subseteq> set (dict_keys d')
   \<and> (\<forall>n \<in> set ns. \<exists>i. py_identifier (hd (ns_path n)) = Inr i \<and> module_path i \<in> set (dict_keys d'))"
proof (induction ns arbitrary: d)
  case (Cons n ns)
  then obtain d1 where d: "api_file n d = Inr d1" "fold_res api_file ns d1 = Inr d'" by (auto simp: rbind_eq_Inr)
  then obtain i where i: "py_identifier (hd (ns_path n)) = Inr i" "d1 = dict_set (module_path i) (FileApi n) d"
    by (auto simp: api_file_def rbind_eq_Inr)
  then show ?case using Cons.IH [OF d(2)] unfolding i(2) dict_set_key_set by auto
qed simp

lemma api_modules:
  assumes d: "fold_res api_file ns d = Inr d'" and keys: "set (dict_keys d') \<subseteq> set (dict_keys files)"
  shows "list_all (\<lambda>n. case py_identifier (hd (ns_path n)) of
      Inr i \<Rightarrow> module_path i \<in> set (dict_keys files) | Inl e \<Rightarrow> False) ns"
proof -
  have "case py_identifier (hd (ns_path n)) of Inr i \<Rightarrow> module_path i \<in> set (dict_keys files) | Inl e \<Rightarrow> False"
    if n: "n \<in> set ns" for n
  proof -
    obtain i where "py_identifier (hd (ns_path n)) = Inr i" "module_path i \<in> set (dict_keys d')"
      using conjunct2 [OF api_files_there [OF d]] n by blast
    then show ?thesis using keys by (simp add: subset_iff del: list.set_map)
  qed
  then show ?thesis unfolding list_all_iff by blast
qed

lemma extra_files_kept:
  assumes "fold_res extra_file es d = Inr d'" "distinct (dict_keys d)"
  shows "distinct (dict_keys d') \<and> map_of d \<subseteq>\<^sub>m map_of d'
    \<and> (\<forall>(name, c) \<in> set es. map_of d' name = Some (FileExtra c) \<and> name \<noteq> ''.py'')"
  using assms
proof (induction es arbitrary: d)
  case (Cons e es)
  obtain name c where e: "e = (name, c)" by (cases e)
  obtain d1 where d: "extra_file e d = Inr d1" "fold_res extra_file es d1 = Inr d'" using Cons.prems by (auto simp: rbind_eq_Inr)
  then obtain i where i: "py_identifier (remove_suffix ''.py'' name) = Inr i" "name = i @ ''.py''"
    and fresh: "name \<notin> set (dict_keys d)" and d1: "d1 = dict_set name (FileExtra c) d"
    by (auto simp: e extra_file_def rbind_eq_Inr simp del: list.set_map split: if_splits)
  have "distinct (dict_keys d1)" using Cons.prems(2) by (simp add: d1 distinct_dict_set)
  note ih = Cons.IH [OF d(2) this]
  have "map_of d \<subseteq>\<^sub>m map_of d1" using fresh by (auto simp: d1 dict_set_get map_le_def dom_map_of_conv_image_fst)
  moreover have "map_of d' name = Some (FileExtra c)"
    using ih by (auto simp: map_le_def d1 dict_set_get split: if_splits)
  moreover have "name \<noteq> ''.py''" using i py_identifier_valid [OF i(1)] by (auto simp: is_identifier_iff)
  ultimately show ?case using ih map_le_trans by (auto simp: e)
qed simp


section \<open>One source for each export\<close>

definition one_source :: "(string \<times> string) list \<Rightarrow> bool" where
  "one_source ps = list_all (\<lambda>(s, i). list_all (\<lambda>(t, j). j \<noteq> i \<or> t = s) ps) ps"

lemma enter_all:
  "fold_res (enter_identifier owner) ps m = Inr m' \<Longrightarrow>
   map_of m \<subseteq>\<^sub>m map_of m' \<and> (\<forall>(s, i) \<in> set ps. map_of m' i = Some s)"
proof (induction ps arbitrary: m)
  case (Cons p ps)
  obtain s i where p: "p = (s, i)" by (cases p)
  obtain m1 where m1: "enter_identifier owner p m = Inr m1" "fold_res (enter_identifier owner) ps m1 = Inr m'"
    using Cons.prems by (auto simp: rbind_eq_Inr)
  then have "map_of m1 = (map_of m)(i \<mapsto> s)" "map_of m i \<in> {None, Some s}"
    by (auto simp: p enter_identifier_def dict_set_get split: option.splits if_splits)
  then have le: "map_of m \<subseteq>\<^sub>m map_of m1" and i: "map_of m1 i = Some s" by (auto simp: map_le_def)
  from Cons.IH [OF m1(2)] have ih: "map_of m1 \<subseteq>\<^sub>m map_of m'" "\<forall>(s, i) \<in> set ps. map_of m' i = Some s" by blast+
  have "map_of m' i = Some s" using ih(1) i by (metis domI map_le_def)
  then show ?case using ih map_le_trans [OF le] by (simp add: p)
qed simp

lemma unique_one_source: "unique_pairs owner ps = Inr () \<Longrightarrow> one_source ps"
proof -
  assume "unique_pairs owner ps = Inr ()"
  then obtain m where "fold_res (enter_identifier owner) ps [] = Inr m"
    by (auto simp: unique_pairs_def model_error_def assert_unique_names_def map_error_def rbind_eq_Inr split: sum.splits)
  then have m: "map_of m i = Some s" if "(s, i) \<in> set ps" for s i using enter_all that by fast
  have "t = s" if "(s, i) \<in> set ps" "(t, i) \<in> set ps" for s t i using m [OF that(1)] m [OF that(2)] by simp
  then show "one_source ps" by (auto simp: one_source_def list_all_iff)
qed

lemma fst_init_with [simp]: "fst (init_with l ns st) = fst st @ ns"
  by (simp add: init_with_def)

text \<open>What each part of \<open>__init__\<close> exports.\<close>

lemma init_base_names: "set (fst (init_base package client)) \<subseteq> insert client (set package_names)"
proof -
  have "list_all (\<lambda>n. n \<in> set package_names)
     [''RpcClientMiddleware'', ''RpcTransport'', ''RpcClientError'', ''RpcConnectionState'',
        ''RpcNotificationOverflowHandler'', ''RpcClientCall'', ''RpcClientCallOutcome'', ''RpcConnectError'',
        ''RpcConnectionLostError'', ''RpcNotificationValidationError'', ''RpcRemoteError'',
        ''RpcRequestTimeoutError'', ''RpcResponseValidationError'', ''RpcTransportError'']" by code_simp
  then show ?thesis by (simp add: init_base_def)
qed

lemma init_names_names:
  "set (fst (init_names package errors declarations namespaces st))
   = set (fst st) \<union> set errors \<union> set declarations \<union> (if declarations = [] then {} else {''models''}) \<union> set namespaces"
  by (auto simp: init_names_def Let_def)

lemma init_servers_names:
  "set (fst (init_servers package ir o' st))
   = set (fst st) \<union> (if ir_servers ir = [] then {} else {''Endpoint'', ''ServerName'', ''endpoints''})
     \<union> (if with_websocket o' then {''WebSocketTransport''} else {})"
  by (auto simp: init_servers_def Let_def)

lemma init_handlers_names:
  "set (fst (init_handlers package ir st))
   = set (fst st) \<union> (if ir_client_methods ir = [] then {}
       else {''current_client_method_metadata''} \<union> hg_class ` set (handler_groups ir)
            \<union> {''Handler'', ''handler_dispatcher'', ''handlers''})"
  by (auto simp: init_handlers_def Let_def)

lemma init_streams_names:
  "set (fst (init_streams package ir o' st))
   \<subseteq> set (fst st) \<union> (if ir_streams ir = [] then {} else set stream_names \<union> {''streams''})"
proof -
  have "list_all (\<lambda>n. n \<in> set stream_names) (''BinaryWebSocketStream'' # init_stream_names @ stream_errors)" by code_simp
  then show ?thesis by (auto simp: init_streams_def Let_def list_all_iff)
qed

lemma init_sockets_names:
  "set (fst (init_sockets package ir o' st))
   \<subseteq> set (fst st) \<union> (if ir_sockets ir = [] then {} else set raw_socket_names \<union> {''raw_sockets''} \<union> set stream_errors)"
  by (auto simp: init_sockets_def Let_def)

lemma snd_if: "snd ` set (if b then xs else []) = (if b then snd ` set xs else {})"
  by simp

lemma rbind_Inr: "rbind r Inr = r"
  by (cases r) simp_all

lemma traverse_pairs:
  assumes "\<And>x. h x = rbind (f x) (\<lambda>y. Inr (g y))"
  shows "traverse (\<lambda>x. rbind (f x) (\<lambda>y. Inr (k x, g y))) xs = Inr ps \<Longrightarrow> traverse h xs = Inr ys \<Longrightarrow> map snd ps = ys"
  by (induction xs arbitrary: ps ys) (auto simp: rbind_eq_Inr assms)

lemma export_pairs_names:
  assumes e: "export_pairs ir o' nodes client = Inr ps"
    and errors: "traverse (\<lambda>c. rbind (schema_name c) (\<lambda>n. Inr (n @ ''Error''))) (named_error_codes ir) = Inr errors"
    and declarations: "traverse (\<lambda>d. schema_name (decl_name d)) (ir_declarations ir) = Inr declarations"
  shows "snd ` set ps = {client} \<union> set package_names
     \<union> (if ir_servers ir \<noteq> [] then {''Endpoint'', ''ServerName'', ''endpoints''} else {})
     \<union> (if with_websocket o' then {''WebSocketTransport''} else {})
     \<union> (if ir_client_methods ir \<noteq> [] then {''current_client_method_metadata''} \<union> hg_class ` set (handler_groups ir)
          \<union> {''Handler'', ''handler_dispatcher'', ''handlers''} else {})
     \<union> (if ir_streams ir \<noteq> [] then set stream_names \<union> {''streams''} else {})
     \<union> (if ir_sockets ir \<noteq> [] then set raw_socket_names \<union> {''raw_sockets''}
          \<union> set (filter (starts_with ''Rpc'') stream_names) else {})
     \<union> (if ir_declarations ir \<noteq> [] then {''models''} else {})
     \<union> set declarations \<union> (\<lambda>n. api_class (ns_path n)) ` set nodes \<union> set errors"
proof -
  obtain ds es where ds: "traverse (\<lambda>d. rbind (schema_name (decl_name d)) (\<lambda>n. Inr (decl_name d, n))) (ir_declarations ir) = Inr ds"
    and es: "traverse (\<lambda>c. rbind (schema_name c) (\<lambda>n. Inr (c, n @ ''Error''))) (named_error_codes ir) = Inr es"
    and ps: "ps = [(''<client>'', client)] @ map (\<lambda>n. (''<runtime>'', n)) package_names
          @ (if ir_servers ir \<noteq> [] then map (\<lambda>n. (''<endpoints>'', n)) [''Endpoint'', ''ServerName'', ''endpoints''] else [])
          @ (if with_websocket o' then [(''<transport>'', ''WebSocketTransport'')] else [])
          @ (if ir_client_methods ir \<noteq> [] then
               [(''<runtime>'', ''current_client_method_metadata'')]
               @ map (\<lambda>g. (if hg_namespace g = [] then ''<root handlers>'' else hg_namespace g, hg_class g)) (handler_groups ir)
               @ map (\<lambda>n. (''<handlers>'', n)) [''Handler'', ''handler_dispatcher'', ''handlers''] else [])
          @ (if ir_streams ir \<noteq> [] then map (\<lambda>n. (''<streams>'', n)) (stream_names @ [''streams'']) else [])
          @ (if ir_sockets ir \<noteq> [] then
               map (\<lambda>n. (''<raw sockets>'', n)) (raw_socket_names @ [''raw_sockets''])
               @ map (\<lambda>n. (''<streams>'', n)) (filter (starts_with ''Rpc'') stream_names) else [])
          @ (if ir_declarations ir \<noteq> [] then [(''<models>'', ''models'')] else [])
          @ ds @ map (\<lambda>n. (join ''.'' (ns_source n), api_class (ns_path n))) nodes @ es"
    using e unfolding export_pairs_def rbind_eq_Inr by blast
  have "map snd ds = declarations"
    by (rule traverse_pairs [OF _ ds declarations]) (simp add: rbind_Inr)
  moreover have "map snd es = errors" by (rule traverse_pairs [OF _ es errors]) simp
  ultimately have S: "snd ` set ds = set declarations" "snd ` set es = set errors"
    by (metis list.set_map)+
  show ?thesis unfolding ps
    by (simp only: set_append image_Un snd_if map_append list.set_map image_image snd_conv S list.set list.map image_insert
        image_empty image_ident Un_assoc Un_insert_left Un_insert_right Un_empty_left Un_empty_right)
qed

lemma export_pairs_exports:
  assumes e: "export_pairs ir o' nodes client = Inr ps"
    and errors: "traverse (\<lambda>c. rbind (schema_name c) (\<lambda>n. Inr (n @ ''Error''))) (named_error_codes ir) = Inr errors"
    and declarations: "traverse (\<lambda>d. schema_name (decl_name d)) (ir_declarations ir) = Inr declarations"
  shows "set (fst (init_sockets p ir o' (init_streams p ir o' (init_handlers p ir (init_servers p ir o'
     (init_names p errors declarations (map (\<lambda>n. api_class (ns_path n)) nodes) (init_base p client))))))) \<subseteq> snd ` set ps"
proof -
  have n: "ir_declarations ir \<noteq> []" if "declarations \<noteq> []" using traverse_Inr_length [OF declarations] that by auto
  let ?S = "snd ` set ps"
  have rpc: "set stream_errors \<subseteq> set (filter (starts_with ''Rpc'') stream_names)"
  proof -
    have "list_all (\<lambda>n. n \<in> set (filter (starts_with ''Rpc'') stream_names)) stream_errors" by code_simp
    then show ?thesis by (auto simp only: list_all_iff)
  qed
  define st where "st = init_base p client"
  define st1 where "st1 = init_names p errors declarations (map (\<lambda>n. api_class (ns_path n)) nodes) st"
  define st2 where "st2 = init_servers p ir o' st1"
  define st3 where "st3 = init_handlers p ir st2"
  define st4 where "st4 = init_streams p ir o' st3"
  note snds = export_pairs_names [OF e errors declarations]
  have "set (fst st) \<subseteq> ?S" unfolding st_def snds using init_base_names [of p client] by blast
  moreover have "set errors \<union> set declarations \<union> (if declarations = [] then {} else {''models''})
      \<union> set (map (\<lambda>n. api_class (ns_path n)) nodes) \<subseteq> ?S"
    unfolding snds using n
    by (cases "declarations = []") (simp_all only: if_True if_False not_True_eq_False not_False_eq_True simp_thms list.set_map, blast+)
  ultimately have "set (fst st1) \<subseteq> ?S" unfolding st1_def init_names_names by blast
  then have "set (fst st2) \<subseteq> ?S" unfolding st2_def init_servers_names unfolding snds by auto
  then have "set (fst st3) \<subseteq> ?S" unfolding st3_def init_handlers_names unfolding snds by auto
  moreover have "(if ir_streams ir = [] then {} else set stream_names \<union> {''streams''}) \<subseteq> ?S"
    unfolding snds by (cases "ir_streams ir = []") (simp_all only: if_True if_False not_True_eq_False not_False_eq_True simp_thms, blast+)
  ultimately have "set (fst st4) \<subseteq> ?S" unfolding st4_def using init_streams_names [of p ir o' st3] by blast
  moreover have "(if ir_sockets ir = [] then {} else set raw_socket_names \<union> {''raw_sockets''} \<union> set stream_errors) \<subseteq> ?S"
    unfolding snds using rpc
    by (cases "ir_sockets ir = []") (simp_all only: if_True if_False not_True_eq_False not_False_eq_True simp_thms, blast+)
  ultimately have "set (fst (init_sockets p ir o' st4)) \<subseteq> ?S"
    using init_sockets_names [of p ir o' st4] by blast
  then show ?thesis unfolding st4_def st3_def st2_def st1_def st_def .
qed

lemma extra_exports_names:
  "fold_res (extra_export package o') nms st = Inr st' \<Longrightarrow>
   fst st' = fst st @ dict_keys nms \<and> distinct (dict_keys nms) \<and> set (fst st) \<inter> set (dict_keys nms) = {}"
proof (induction nms arbitrary: st)
  case (Cons nm nms)
  obtain n m where nm: "nm = (n, m)" by (cases nm)
  obtain st1 where st1: "extra_export package o' nm st = Inr st1" "fold_res (extra_export package o') nms st1 = Inr st'"
    using Cons.prems by (auto simp: rbind_eq_Inr)
  then have "fst st1 = fst st @ [n]" "n \<notin> set (fst st)" by (auto simp: nm extra_export_def split: if_splits)
  then show ?case using Cons.IH [OF st1(2)] by (auto simp: nm)
qed simp


section \<open>A package\<close>

definition demo_route :: route_decl where
  "demo_route =
     \<lparr>rr_rpc_name = ''ping'', rr_operation = ''ping'', rr_path = [], rr_member = ''PING'', rr_params = [], rr_params_model = None,
      rr_result = PrimitiveType PrimNull, rr_summary = JNull, rr_description = JNull, rr_tags = [],
      rr_errors = [\<lparr>fa_rpc_code = JInt 1, fa_code = ''busy'', fa_message = JStr ''busy'', fa_details = None\<rparr>],
      rr_server = None, rr_deprecated = False, rr_idempotent = False\<rparr>"

definition demo_client :: client_ir where
  "demo_client =
     \<lparr>ir_title = JStr ''demo'', ir_version = JStr ''1'', ir_protocol_version = None, ir_heartbeat = False,
      ir_request_metadata = False, ir_servers = [], ir_declarations = [ModelDecl ''user'' [] False],
      ir_root_operations = [demo_route], ir_api = [], ir_notifications = [], ir_streams = [], ir_client_methods = [],
      ir_sockets = []\<rparr>"

definition demo_options :: py_options where
  "demo_options =
     \<lparr>po_package = ''demo'', po_client_name = None, po_base_model = ''ApiModel'', po_api_root = None,
      po_api_names = [], po_transport = None,
      po_extra_files = [(''helpers.py'', ''HELP = 1'')], po_extra_exports = [(''HELP'', ''helpers'')]\<rparr>"

definition demo_view :: client_view where
  "demo_view =
     \<lparr>cv_operations = [demo_route], cv_notifications = [], cv_streams = [], cv_nodes = [], cv_sockets = []\<rparr>"


lemma demo_view: "view_client demo_client None [] = Inr demo_view"
proof -
  have "view_api demo_client None [] = Inr \<lparr>av_root = [demo_route], av_nodes = []\<rparr>" by code_simp
  moreover have "evv_root (view_events demo_client None []) = []" "evv_nodes (view_events demo_client None []) = []"
    by code_simp+
  moreover have "view_tree (project f g []) = ([] :: stream_item view_node list)" for f g
    by (simp add: view_tree_def project_def build_tree_def)
  moreover have "merge_nodes [] [] [] = []" by (subst merge_nodes.simps) (simp add: view_segments_def by_segment_def)
  ultimately show ?thesis
    by (simp add: view_client_def Let_def demo_view_def) (simp add: demo_client_def)
qed

lemma demo_valid: "validate_client demo_client demo_view demo_options ''DemoClient'' = Inr ()"
  by code_simp

lemma demo_name: "client_name_of demo_client demo_options = Inr ''DemoClient''"
  by code_simp

lemma demo_files:
  "(case rbind (package_init demo_client demo_options ''DemoClient'' [])
      (\<lambda>st. fold_res extra_file (po_extra_files demo_options) (own_files demo_client demo_options [] st)) of
      Inr files \<Rightarrow> True | Inl e \<Rightarrow> False)"
  by code_simp

lemma demo_rendered: "\<exists>files. render_files demo_client demo_options = Inr files"
proof -
  have "po_api_root demo_options = None" "po_api_names demo_options = []" "cv_nodes demo_view = []"
    by (simp_all add: demo_options_def demo_view_def)
  then show ?thesis using demo_files
    by (auto simp: render_files_def demo_view demo_valid demo_name model_error_def map_error_def split: sum.splits)
qed



text \<open>Equal sources are taken for one thing: a schema and a namespace that are both called \<open>clock\<close> are both exported as
  \<open>Clock\<close>.\<close>

definition clock_view :: client_view where
  "clock_view = demo_view\<lparr>cv_nodes := [NamespaceNode ''clock'' [''clock''] [''clock''] [] [] [] [] []]\<rparr>"

definition clock_client :: client_ir where
  "clock_client = demo_client\<lparr>ir_declarations := [ModelDecl ''clock'' [] False]\<rparr>"

theorem namespace_hides_schema:
  "validate_client clock_client clock_view demo_options ''DemoClient'' = Inr ()
   \<and> (case package_init clock_client demo_options ''DemoClient'' (cv_nodes clock_view) of
        Inr st \<Rightarrow> length (filter (\<lambda>n. n = ''Clock'') (fst st)) = 2 | Inl e \<Rightarrow> False)"
  by code_simp

end
