(* ===== verification/TsProps.thy ===== *)
theory TsProps
  imports TsPackage PyPackage
begin

text \<open>
  The TypeScript renderer: names are names, comments are not closed by their text, and the files of a package do not
  replace each other, unless a namespace is called \<open>index\<close>.
\<close>

section \<open>Names\<close>

definition ts_char :: "char \<Rightarrow> bool" where
  "ts_char c = (word_char c \<or> c = CHR ''_'' \<or> c = CHR ''$'')"

lemma ts_valid_iff: "ts_valid s \<longleftrightarrow> s \<noteq> [] \<and> \<not> is_digit (hd s) \<and> list_all ts_char s"
  by (cases s) (auto simp: ts_valid_def ts_char_def list_all_iff)

lemma camel_case_chars: "list_all word_char (camel_case s)"
proof -
  have c: "list_all word_char (capitalize w)" if "w \<in> set (words s)" for w
    using words_chars [OF that] by (cases w) (auto simp: list_all_iff word_char_to_lower word_char_to_upper)
  show ?thesis
  proof (cases "words s")
    case (Cons w ws)
    then have "list_all word_char (map to_lower w)" using words_chars [of w s] by (auto simp: list_all_iff word_char_to_lower)
    with c show ?thesis by (auto simp: camel_case_def Cons list_all_iff)
  qed (simp add: camel_case_def)
qed

lemma reserved_facts:
  "k \<in> set ts_reserved \<Longrightarrow> hd k \<noteq> CHR ''_'' \<and> k @ ''_'' \<notin> set ts_reserved \<and> k \<noteq> [] \<and> \<not> is_digit (hd k)"
proof -
  have "list_all (\<lambda>k. hd k \<noteq> CHR ''_'' \<and> \<not> List.member ts_reserved (k @ ''_'') \<and> k \<noteq> [] \<and> \<not> is_digit (hd k)) ts_reserved"
    by code_simp
  then show "k \<in> set ts_reserved \<Longrightarrow> hd k \<noteq> CHR ''_'' \<and> k @ ''_'' \<notin> set ts_reserved \<and> k \<noteq> [] \<and> \<not> is_digit (hd k)"
    by (auto simp: list_all_iff)
qed

theorem ts_identifier_valid: "ts_identifier s = Inr i \<Longrightarrow> ts_valid i \<and> i \<notin> set ts_reserved"
proof -
  assume "ts_identifier s = Inr i"
  then have n: "camel_case s \<noteq> []" "i = ts_name (camel_case s)" by (auto simp: ts_identifier_def split: list.splits)
  have u: "ts_char CHR ''_''" "\<not> is_digit CHR ''_''" by (simp_all add: ts_char_def char_classes)
  show ?thesis
  proof (cases "is_digit (hd (camel_case s))")
    case True
    then show ?thesis using n(2) u camel_case_chars [of s] reserved_facts [of "CHR ''_'' # camel_case s"]
      by (auto simp: ts_name_def ts_valid_iff list_all_iff ts_char_def Let_def)
  next
    case False
    then show ?thesis using n u camel_case_chars [of s] reserved_facts [of "camel_case s"]
      by (auto simp: ts_name_def ts_valid_iff list_all_iff ts_char_def Let_def)
  qed
qed

section \<open>Comments\<close>

lemma break_comment_head:
  "break_comment s \<noteq> [] \<Longrightarrow> s \<noteq> [] \<and> hd (break_comment s) = hd s"
  by (induction s rule: break_comment.induct) (auto split: if_splits)

theorem comment_not_closed: "\<not> sublist ''*/'' (break_comment s)"
proof (induction s rule: break_comment.induct)
  case (1 c e s)
  have step: "sublist ''*/'' (x # y) \<longleftrightarrow> prefix ''*/'' (x # y) \<or> sublist ''*/'' y" for x y
    by (simp add: sublist_Cons_right)
  show ?case
  proof (cases "c = CHR ''*'' \<and> e = CHR ''/''")
    case True
    have "\<not> prefix ''*/'' (CHR ''/'' # break_comment s)" by simp
    with True 1 show ?thesis by (simp add: step)
  next
    case False
    then have "\<not> prefix ''*/'' (c # break_comment (e # s))"
      using break_comment_head [of "e # s"] by (cases "break_comment (e # s)") auto
    with False 1 show ?thesis by (simp add: step)
  qed
qed (simp_all add: sublist_Cons_right)

text \<open>The docstrings of the Python renderer are not protected: three quotes stay three quotes.\<close>

theorem docstring_closed: "docstring [CHR 0x22, CHR 0x22, CHR 0x22] = [CHR 0x22, CHR 0x22, CHR 0x22]"
  by code_simp

section \<open>Files\<close>

definition ts_guarded :: "client_ir \<Rightarrow> ts_options \<Rightarrow> namespace_node list \<Rightarrow> (bool \<times> string list) list" where
  "ts_guarded ir o' nodes =
     [(True, [''core.ts'', ''client.ts'', ''index.ts'']), (ir_declarations ir \<noteq> [], [''models.ts'']),
      (ir_operations ir \<noteq> [] \<or> ir_notifications ir \<noteq> [], [''routes.ts'']), (True, [''errors.ts'']),
      (ir_servers ir \<noteq> [], [''endpoints.ts'']), (ir_streams ir \<noteq> [], [''streams.ts'']),
      (ir_sockets ir \<noteq> [], [''rawSockets.ts'']), (ts_websocket o', [''transport.ts'']),
      (nodes \<noteq> [], [''namespaces/index.ts''])]"

lemma ts_own_guarded: "dict_keys (ts_own_files ir o' nodes) = guarded (ts_guarded ir o' nodes)"
  by (simp add: ts_own_files_def ts_guarded_def guarded_def)

lemma ts_own_distinct: "distinct (dict_keys (ts_own_files ir o' nodes))"
  unfolding ts_own_guarded by (rule distinct_guarded) (simp add: ts_guarded_def)

lemma ts_module_path_index: "ts_module_path i = ''namespaces/index.ts'' \<longleftrightarrow> i = ''index''"
proof -
  have "''namespaces/index.ts'' = ''namespaces/'' @ ''index'' @ ''.ts''" by simp
  then show ?thesis unfolding ts_module_path_def by (metis append_same_eq same_append_eq)
qed

lemma ts_own_not_api:
  assumes k: "k \<in> set (dict_keys (ts_own_files ir o' nodes))" and i: "i \<noteq> ''index''"
  shows "k \<noteq> ts_module_path i"
proof
  assume m: "k = ts_module_path i"
  have "list_all (\<lambda>k. starts_with ''namespaces/'' k \<longrightarrow> k = ''namespaces/index.ts'') (concat (map snd (ts_guarded ir o' nodes)))"
    by (simp add: ts_guarded_def starts_with_def)
  moreover have "k \<in> set (concat (map snd (ts_guarded ir o' nodes)))"
    using k unfolding ts_own_guarded by (rule guarded_subset)
  moreover have "starts_with ''namespaces/'' k" unfolding m ts_module_path_def starts_with_iff by blast
  ultimately have "k = ''namespaces/index.ts''" unfolding list_all_iff by blast
  then show False using m i ts_module_path_index by simp
qed

text \<open>The files of the renderer are all there, and none replaces another, unless a namespace is called \<open>index\<close>.\<close>

theorem ts_files_kept:
  assumes "ts_render_files ir o' = Inr files"
  shows "\<exists>nodes. (if list_ex (\<lambda>n. ts_identifier (hd (ns_path n)) = Inr ''index'') nodes then True
      else list_all (\<lambda>(n, f). map_of files n = Some f) (ts_own_files ir o' nodes))
    \<and> distinct (dict_keys files)"
proof -
  obtain view :: client_view where d: "fold_res ts_api_file (cv_nodes view) (ts_own_files ir o' (cv_nodes view)) = Inr files"
    using assms unfolding ts_render_files_def by (elim rbind_InrE)
  let ?own = "ts_own_files ir o' (cv_nodes view)"
  have kept: "map_of files k = map_of ?own k"
    if n: "\<not> list_ex (\<lambda>n. ts_identifier (hd (ns_path n)) = Inr ''index'') (cv_nodes view)" and k: "k \<in> set (dict_keys ?own)" for k
  proof (rule fold_res_invariant [OF d, of "\<lambda>e. map_of e k = map_of ?own k"])
    fix x e e'
    assume x: "x \<in> set (cv_nodes view)" "map_of e k = map_of ?own k" "ts_api_file x e = Inr e'"
    then obtain i where i: "ts_identifier (hd (ns_path x)) = Inr i" "e' = dict_set (ts_module_path i) (TsApi x) e"
      by (auto simp: ts_api_file_def rbind_eq_Inr)
    then have "i \<noteq> ''index''" using n x(1) by (auto simp: list_ex_iff)
    then show "map_of e' k = map_of ?own k" using ts_own_not_api [OF k] x(2) i(2) by (simp add: dict_set_get)
  qed simp
  have "list_all (\<lambda>(n, f). map_of files n = Some f) ?own"
    if "\<not> list_ex (\<lambda>n. ts_identifier (hd (ns_path n)) = Inr ''index'') (cv_nodes view)"
  proof -
    have "map_of files n = Some f" if m: "(n, f) \<in> set ?own" for n f
      using kept [OF \<open>\<not> list_ex _ _\<close>, of n] m ts_own_distinct [of ir o' "cv_nodes view"] by (simp add: rev_image_eqI)
    then show ?thesis by (auto simp: list_all_iff)
  qed
  moreover have "distinct (dict_keys files)"
    by (rule fold_res_invariant [OF d, of "\<lambda>e. distinct (dict_keys e)"])
      (auto simp: ts_own_distinct ts_api_file_def rbind_eq_Inr distinct_dict_set)
  ultimately show ?thesis by (intro exI [of _ "cv_nodes view"]) auto
qed

definition index_node :: namespace_node where
  "index_node = NamespaceNode ''index'' [''index''] [''index''] [] [] [] [] []"

text \<open>The index of the namespaces is replaced by the module of a namespace called \<open>index\<close>, which validation allows.\<close>

definition plain_ts_options :: ts_options where
  "plain_ts_options =
     \<lparr>to_client_name = None, to_transport_module = ''../transport'', to_api_root = None, to_api_names = [], to_transport = None\<rparr>"

theorem index_replaced:
  "ts_validate demo_client (demo_view\<lparr>cv_nodes := [index_node]\<rparr>) plain_ts_options ''DemoClient'' = Inr ()
   \<and> (case fold_res ts_api_file [index_node] (ts_own_files demo_client plain_ts_options [index_node]) of
        Inr files \<Rightarrow> map_of files ''namespaces/index.ts'' = Some (TsApi index_node) | Inl e \<Rightarrow> False)"
proof
  show "ts_validate demo_client (demo_view\<lparr>cv_nodes := [index_node]\<rparr>) plain_ts_options ''DemoClient'' = Inr ()" by code_simp
  have "ts_identifier ''index'' = Inr ''index''" by code_simp
  then show "case fold_res ts_api_file [index_node] (ts_own_files demo_client plain_ts_options [index_node]) of
        Inr files \<Rightarrow> map_of files ''namespaces/index.ts'' = Some (TsApi index_node) | Inl e \<Rightarrow> False"
    using ts_module_path_index [of "''index''"] by (simp add: ts_api_file_def index_node_def dict_set_get)
qed

text \<open>The routes of a client are kept under keys that different names share: \<open>users.get\<close> and \<open>users_get\<close> have one key in both
  languages, and both validations accept a client with the two.\<close>

definition users_node :: namespace_node where
  "users_node =
     NamespaceNode ''users'' [''users''] [''users'']
       [demo_route\<lparr>rr_rpc_name := ''users.get'', rr_operation := ''get'', rr_path := [''users''], rr_member := ''USERS_GET''\<rparr>]
       [] [] [] []"

definition clash_route :: route_decl where
  "clash_route = demo_route\<lparr>rr_rpc_name := ''users_get'', rr_operation := ''users_get'', rr_member := ''USERS_GET''\<rparr>"

definition clash_view :: client_view where
  "clash_view = demo_view\<lparr>cv_operations := [clash_route], cv_nodes := [users_node]\<rparr>"

definition clash_client :: client_ir where
  "clash_client = demo_client\<lparr>ir_root_operations := clash_route # ns_operations users_node\<rparr>"

theorem route_keys_clash:
  "member_name (JStr ''users.get'') = member_name (JStr ''users_get'')
   \<and> route_key ''users.get'' = route_key ''users_get''
   \<and> validate_client clash_client clash_view demo_options ''DemoClient'' = Inr ()
   \<and> ts_validate clash_client clash_view plain_ts_options ''DemoClient'' = Inr ()"
proof (intro conjI)
  show "member_name (JStr ''users.get'') = member_name (JStr ''users_get'')" by code_simp
  show "route_key ''users.get'' = route_key ''users_get''" by code_simp
  show "validate_client clash_client clash_view demo_options ''DemoClient'' = Inr ()" by code_simp
  show "ts_validate clash_client clash_view plain_ts_options ''DemoClient'' = Inr ()" by code_simp
qed

end
