(* ===== verification/Spec2Isabelle.thy ===== *)
theory Spec2Isabelle
  imports RuntimeAnswers RawSockets ServiceFreeze ViewProps ContractService Drain Middleware Graceful InMemory FastApiProps
    Dishka TelemetryProps CliProps TsProps
begin

text \<open>
  A verification development for rpckit (\<open>src/rpckit\<close>): typed RPC over WebSockets in Python. An application declares
  methods, events, subscriptions, binary streams and raw sockets on channels, mounts the channels on a service, and
  serves the endpoints of the service on sockets; the same declarations are written as an OpenRPC document, from which
  clients are generated.

  \<^bold>\<open>The parts of the program and how they work together.\<close>

  Declaring. A channel (\<open>channel.py\<close>) turns decorated functions into definitions (\<open>protocol.py\<close>, with the injected
  parameters of \<open>dependencies.py\<close> and the wire types of \<open>wire.py\<close>) and, frozen, into a protocol. A service
  (\<open>service.py\<close>) mounts channels, streams and raw sockets at path templates and freezes them into one protocol.

  Serving. A socket brings a handshake (\<open>connection.py\<close>). The runtime (\<open>runtime.py\<close>) admits it while the service does
  not drain (\<open>drain.py\<close>), answers it, and then runs one of three kinds of connections: the RPC connection, which reads
  frames, dispatches calls through the server (\<open>server.py\<close>, \<open>dispatch.py\<close>), the subscriptions (\<open>subscriptions.py\<close>) and
  the calls to the client (\<open>connected_client.py\<close>), and sends what they answer; a binary stream (\<open>streams.py\<close>); or a raw
  socket (\<open>raw_sockets.py\<close>). Errors are declared and bound in \<open>errors.py\<close>, messages are made and read in
  \<open>envelopes.py\<close>, \<open>codec.py\<close> and \<open>request_metadata.py\<close>. Middleware (\<open>middleware.py\<close>, \<open>_activity.py\<close>) is called around
  connections and requests; \<open>integrations/opentelemetry.py\<close> is such a middleware. The FastAPI integration
  (\<open>integrations/fastapi.py\<close>) serves endpoints as routes, and \<open>integrations/dishka.py\<close> resolves dependencies.

  Generating. \<open>contract.py\<close> and \<open>schema\<close> write the document; \<open>codegen/ir.py\<close> lowers it into a language-neutral client
  and \<open>codegen/names.py\<close> makes its views, which the renderers (\<open>codegen/python.py\<close>, \<open>codegen/typescript.py\<close>) check and
  print as the files of a package; \<open>codegen/writer.py\<close> brings a directory to these files, and \<open>codegen/cli.py\<close> does all
  this for one client or for a config of many.

  \<^bold>\<open>Which theory models what.\<close> State is a record that operations return updated, a raise is the left side of a
  sum, a loop is a recursive function, a dictionary is an association list in insertion order.

  \<^item> \<open>Prelude\<close>, \<open>Pyobj\<close>, \<open>Utf8\<close>: results that may be errors, dictionaries, strings; decoded JSON, numbers, classes,
    exceptions; decoding of UTF-8. Two interfaces are locales here, the registry that refuses a second entry of a
    name (interpreted in \<open>Channel\<close>, \<open>Protocol\<close> and \<open>Service\<close>) and the pool with a bounded number of holders
    (interpreted in \<open>Runtime\<close>).
  \<^item> \<open>Connection\<close>, \<open>RpcLimits\<close>, \<open>Lifecycle\<close>: \<open>connection.py\<close> and \<open>websocket.py\<close>. The latch that decides how a connection
    closes is a locale, interpreted for the three \<open>request_close\<close> of \<open>runtime.py\<close>.
  \<^item> \<open>Errors\<close>, \<open>Bindings\<close>: \<open>errors.py\<close>. \<open>Envelopes\<close>: the messages. \<open>Protocol\<close>: the definitions and their tables.
  \<^item> \<open>Server\<close>: \<open>server.py\<close> and \<open>dispatch.py\<close>. \<open>ConnectedClient\<close>, \<open>Subscriptions\<close>: the modules of these names.
  \<^item> \<open>Runtime\<close>, \<open>RuntimeSafety\<close>, \<open>RuntimeProps\<close>, \<open>RuntimeAnswers\<close>: \<open>_run_rpc_endpoint\<close> as steps of its tasks, its
    invariant, and what follows from it. \<open>Events\<close>: its event sources; \<open>Graceful\<close>: its shutdown.
  \<^item> \<open>Streams\<close>, \<open>RawSockets\<close>: the other two connections; their bounded inboxes are interpretations of one locale.
  \<^item> \<open>Resolvers\<close>: \<open>dependencies.py\<close>. \<open>Handshake\<close>: \<open>_prepare\<close> and the clauses that close a connection. \<open>Drain\<close>:
    \<open>drain.py\<close>. \<open>Middleware\<close>: scopes, notifications and outcomes.
  \<^item> \<open>Channel\<close>, \<open>ChannelFreeze\<close>: \<open>channel.py\<close>. \<open>Paths\<close>, \<open>Service\<close>, \<open>ServiceProps\<close>, \<open>ServiceFreeze\<close>: \<open>service.py\<close>.
  \<^item> \<open>Contract\<close>, \<open>ContractProps\<close>, \<open>ServiceContract\<close>, \<open>ContractService\<close>: \<open>schema\<close> and \<open>contract.py\<close>.
  \<^item> \<open>IrTypes\<close>, \<open>Ir\<close>, \<open>IrBuild\<close>, \<open>PathTree\<close>, \<open>IrClient\<close>, \<open>IrProps\<close>, \<open>IrConsistent\<close>: \<open>codegen/ir.py\<close>. \<open>Names\<close>, \<open>Views\<close>,
    \<open>ViewProps\<close>: \<open>codegen/names.py\<close>.
  \<^item> \<open>PyNames\<close> (names, literals, imports, annotations), \<open>PyClient\<close> (validation, exports, files), \<open>PyProps\<close>, \<open>PyPackage\<close>:
    \<open>codegen/python.py\<close>. \<open>TsClient\<close> (names, types, signatures), \<open>TsPackage\<close> (validation, files, imports), \<open>TsProps\<close>:
    \<open>codegen/typescript.py\<close>. \<open>Writer\<close>, \<open>WriterProps\<close>: \<open>codegen/writer.py\<close>. \<open>Cli\<close>, \<open>CliProps\<close>: \<open>codegen/cli.py\<close> and
    \<open>schema/export.py\<close>.
  \<^item> \<open>InMemory\<close>: the socket of \<open>testing.py\<close>. \<open>FastApi\<close>, \<open>FastApiProps\<close>: \<open>integrations/fastapi.py\<close>. \<open>Telemetry\<close>,
    \<open>TelemetryProps\<close>: \<open>integrations/opentelemetry.py\<close>. \<open>Dishka\<close>: \<open>integrations/dishka.py\<close>.

  \<^bold>\<open>What the lemmas show.\<close> Every component has a well-formedness predicate where it keeps state (\<open>latch_ok\<close>, \<open>con_ok\<close>,
  \<open>client_ok\<close>, \<open>session_ok\<close>, \<open>rt_ok\<close>, \<open>drain_ok\<close>, \<open>lane_ok\<close>, \<open>service_ok\<close>), a lemma per operation that keeps it, and a
  lemma that it holds on every run. On it rest the properties: requests are answered exactly as the envelope asks,
  within the limits, in order and at most once; connections close once, with the code that was decided first; frozen
  services have unambiguous names; draining is one-way and ends; what the document says is what the client has; a
  rendered package is closed and its names are valid; what is generated is on the disk, and nothing else changes. A
  property is preceded by its number and its statement in words.

  \<^bold>\<open>Assumptions and bounds.\<close>

  \<^item> A \<open>str\<close> is its UTF-8 encoding; strings with lone surrogates, which have none, are left out. Where the code looks at
    characters (\<open>re\<close>, \<open>lower\<close>, \<open>capitalize\<close>), only ASCII letters count as letters.
  \<^item> Limits are those that \<open>RpcLimits\<close> accepts (\<open>limits_post_init\<close>), so queues hold at least one frame. There is no fuel:
    every loop of the model is a structurally recursive or measured function, or a step relation.
  \<^item> User code, Pydantic (\<open>pydantic\<close>, \<open>schema_library\<close>), \<open>json\<close>, Starlette, OpenTelemetry, the containers of Dishka, the parsers of TOML and
    Python, the file system below \<open>disk\<close> and the clock are parameters: records of what they answer. Of exceptions that are no \<open>Exception\<close>, only \<open>CancelledError\<close> occurs; \<open>socket.close\<close> raises \<open>RpcDisconnect\<close>
    or nothing.
  \<^item> Tasks interleave at \<open>await\<close>: \<open>Runtime\<close>, \<open>Streams\<close>, \<open>RawSockets\<close>, \<open>InMemory\<close> and \<open>Drain\<close> have a step for each stretch
    between awaits, and the order in which \<open>asyncio\<close> runs ready tasks is not fixed. Only \<open>Drain\<close> has time.
  \<^item> A decorator with arguments and its application are one step; what a failed freeze leaves half done is not kept; a
    Python \<open>set\<close> is a list without duplicates, whose order shows only in the names listed by some errors.

  \<^bold>\<open>Not modelled.\<close> Durations and log lines; the trace metadata that middleware is shown; the entry points that only
  hand arguments on, and what argparse does with the command line; the test client and the socket factory of
  \<open>testing.py\<close>; the text that Jinja makes of the templates, so that of a rendered file only its name, its imports and
  the literals, names and annotations in it are here; the examples and the clients generated from them.
\<close>

end
